(* ===== verification/Prelude.thy ===== *)
theory Prelude
  imports Main
begin

text \<open>
  Shared vocabulary of the development: database transactions with rollback, tables as lists of
  rows with a key, pages of a result, the JavaScript notions the source relies on (truthiness of
  optional strings, \<open>Math.round\<close> of a quotient), and the lemmas about them that every component
  uses. The collection \<open>table_simps\<close> gathers the facts about keyed tables, \<open>txn_simps\<close> those
  about transactions.
\<close>

named_theorems table_simps "lookups, updates and insertions in keyed tables"
named_theorems txn_simps "transactions: commit, rollback, sequencing"

section \<open>Transactions\<close>

text \<open>
  The callback of an interactive Prisma transaction either throws (\<open>Inl\<close>) or returns a value and
  the new contents of the database (\<open>Inr\<close>). \<open>commit_txn\<close> is the transaction seen from outside:
  a callback that throws leaves the database as it was.
\<close>

type_synonym ('s, 'e, 'a) txn = "'s \<Rightarrow> 'e + 'a \<times> 's"

definition commit_txn :: "('s, 'e, 'a) txn \<Rightarrow> 's \<Rightarrow> ('e + 'a) \<times> 's" where
  "commit_txn t s = (case t s of Inl e \<Rightarrow> (Inl e, s) | Inr (a, s') \<Rightarrow> (Inr a, s'))"

lemma commit_txn_Inl [txn_simps]: "t s = Inl e \<Longrightarrow> commit_txn t s = (Inl e, s)"
  by (simp add: commit_txn_def)

lemma commit_txn_Inr [txn_simps]: "t s = Inr (a, s') \<Longrightarrow> commit_txn t s = (Inr a, s')"
  by (simp add: commit_txn_def)

lemma commit_txn_rollback: "fst (commit_txn t s) = Inl e \<Longrightarrow> snd (commit_txn t s) = s"
  by (auto simp: commit_txn_def split: sum.splits)

lemma commit_txn_InrD: "commit_txn t s = (Inr a, s') \<Longrightarrow> t s = Inr (a, s')"
  by (auto simp: commit_txn_def split: sum.splits)

lemma commit_txn_InlD: "commit_txn t s = (Inl e, s') \<Longrightarrow> t s = Inl e \<and> s' = s"
  by (auto simp: commit_txn_def split: sum.splits)

text \<open>A state invariant kept by the callback is kept by the transaction.\<close>

lemma commit_txn_invariant:
  assumes "\<And>a s'. t s = Inr (a, s') \<Longrightarrow> P s'" and "P s"
  shows "P (snd (commit_txn t s))"
  using assms by (auto simp: commit_txn_def split: sum.splits)

section \<open>Keyed tables\<close>

text \<open>
  A table is the list of its rows in insertion order. \<open>find_by key k\<close> is \<open>findUnique\<close> /
  \<open>findFirst\<close> on one column, \<open>update_by key k f\<close> is \<open>update\<close> / \<open>updateMany\<close> on the rows whose key
  is \<open>k\<close>.
\<close>

definition find_by :: "('r \<Rightarrow> 'k) \<Rightarrow> 'k \<Rightarrow> 'r list \<Rightarrow> 'r option" where
  "find_by key k rows = List.find (\<lambda>r. key r = k) rows"

definition update_by :: "('r \<Rightarrow> 'k) \<Rightarrow> 'k \<Rightarrow> ('r \<Rightarrow> 'r) \<Rightarrow> 'r list \<Rightarrow> 'r list" where
  "update_by key k f rows = map (\<lambda>r. if key r = k then f r else r) rows"

lemma find_by_Nil [table_simps, simp]: "find_by key k [] = None"
  by (simp add: find_by_def)

lemma find_by_Cons [table_simps, simp]:
  "find_by key k (r # rows) = (if key r = k then Some r else find_by key k rows)"
  by (simp add: find_by_def)

lemma find_by_append [table_simps, simp]:
  "find_by key k (xs @ ys) = (case find_by key k xs of None \<Rightarrow> find_by key k ys | Some r \<Rightarrow> Some r)"
  by (induction xs) auto

lemma find_by_SomeD: "find_by key k rows = Some r \<Longrightarrow> r \<in> set rows \<and> key r = k"
  by (induction rows) (auto split: if_splits)

lemma find_by_None_iff: "find_by key k rows = None \<longleftrightarrow> k \<notin> key ` set rows"
  by (induction rows) auto

lemma find_by_distinct:
  "distinct (map key rows) \<Longrightarrow> r \<in> set rows \<Longrightarrow> find_by key (key r) rows = Some r"
  by (induction rows) (auto simp: rev_image_eqI)

lemma find_by_update_by [table_simps]:
  assumes "\<And>r. key (f r) = key r"
  shows "find_by key k (update_by key k' f rows) =
         (if k = k' then map_option f (find_by key k rows) else find_by key k rows)"
  using assms by (induction rows) (auto simp: update_by_def)

lemma map_update_by [table_simps]:
  assumes "\<And>r. g (f r) = g r"
  shows "map g (update_by key k f rows) = map g rows"
  using assms by (auto simp: update_by_def)

lemma update_by_Nil [table_simps, simp]: "update_by key k f [] = []"
  by (simp add: update_by_def)

lemma update_by_Cons [table_simps, simp]:
  "update_by key k f (r # rows) = (if key r = k then f r else r) # update_by key k f rows"
  by (simp add: update_by_def)

lemma length_update_by [table_simps, simp]: "length (update_by key k f rows) = length rows"
  by (simp add: update_by_def)

lemma update_by_missing: "find_by key k rows = None \<Longrightarrow> update_by key k f rows = rows"
  by (induction rows) (auto split: if_splits)

lemma Ball_update_by:
  "\<forall>r\<in>set rows. P r \<Longrightarrow> (\<And>r. r \<in> set rows \<Longrightarrow> key r = k \<Longrightarrow> P (f r)) \<Longrightarrow>
   \<forall>r\<in>set (update_by key k f rows). P r"
  by (auto simp: update_by_def)

text \<open>
  A column that is \<open>@@unique([tenant, key])\<close> with a nullable key: \<open>NULL\<close> never collides.
\<close>

definition unique_key :: "('r \<Rightarrow> 't) \<Rightarrow> ('r \<Rightarrow> 'k option) \<Rightarrow> 'r list \<Rightarrow> bool" where
  "unique_key tenant key rows =
     distinct (map (\<lambda>r. (tenant r, key r)) (filter (\<lambda>r. key r \<noteq> None) rows))"

definition clashes_key :: "('r \<Rightarrow> 't) \<Rightarrow> ('r \<Rightarrow> 'k option) \<Rightarrow> 'r \<Rightarrow> 'r list \<Rightarrow> bool" where
  "clashes_key tenant key row rows =
     (key row \<noteq> None \<and> (\<exists>r\<in>set rows. tenant r = tenant row \<and> key r = key row))"

lemma unique_key_Nil [simp]: "unique_key t k []"
  by (simp add: unique_key_def)

lemma unique_key_append1 [table_simps]:
  "unique_key t k (rows @ [r]) \<longleftrightarrow> unique_key t k rows \<and> \<not> clashes_key t k r rows"
proof (cases "k r")
  case None
  then show ?thesis by (simp add: unique_key_def clashes_key_def)
next
  case (Some v)
  then have "(t r, k r) \<in> (\<lambda>r. (t r, k r)) ` {x \<in> set rows. k x \<noteq> None} \<longleftrightarrow>
      (\<exists>x\<in>set rows. t x = t r \<and> k x = k r)" (is "?l \<longleftrightarrow> ?r")
    by (auto simp: image_iff eq_commute[of "t r"] eq_commute[of "Some v"])
  then show ?thesis using Some by (simp add: unique_key_def clashes_key_def)
qed

lemma unique_key_update_by [table_simps]:
  assumes "\<And>r. t (f r) = t r" and "\<And>r. k (f r) = k r"
  shows "unique_key t k (update_by key x f rows) = unique_key t k rows"
proof -
  have "map (\<lambda>r. (t r, k r)) (filter (\<lambda>r. k r \<noteq> None) (update_by key x f rows)) =
        map (\<lambda>r. (t r, k r)) (filter (\<lambda>r. k r \<noteq> None) rows)"
    using assms by (induction rows) auto
  then show ?thesis by (simp add: unique_key_def)
qed

lemma unique_key_same:
  assumes "unique_key t k rows" and "r \<in> set rows" and "r' \<in> set rows"
    and "t r = t r'" and "k r = k r'" and "k r \<noteq> None"
  shows "r = r'"
  using assms by (auto simp: unique_key_def distinct_map inj_on_def)

lemma find_append_last [table_simps]:
  "List.find P (xs @ [x]) = (case List.find P xs of None \<Rightarrow> if P x then Some x else None | Some y \<Rightarrow> Some y)"
  by (induction xs) auto

lemma find_SomeD: "List.find P xs = Some x \<Longrightarrow> x \<in> set xs \<and> P x"
  by (auto simp: find_Some_iff)

section \<open>Pages and sorted results\<close>

text \<open>
  \<open>skip: (page - 1) * pageSize, take: pageSize\<close> of a list query. \<open>ascending\<close> and \<open>descending\<close> are
  \<open>orderBy\<close> on a column; rows with equal keys stay in insertion order.
\<close>

definition page_rows :: "nat \<Rightarrow> nat \<Rightarrow> 'r list \<Rightarrow> 'r list" where
  "page_rows page pageSize rows = take pageSize (drop ((page - 1) * pageSize) rows)"

definition ascending :: "('r \<Rightarrow> 'k::linorder) \<Rightarrow> 'r list \<Rightarrow> 'r list" where
  "ascending key rows = sort_key key rows"

definition descending :: "('r \<Rightarrow> int) \<Rightarrow> 'r list \<Rightarrow> 'r list" where
  "descending key rows = sort_key (\<lambda>r. - key r) rows"

lemma set_ascending [simp]: "set (ascending key rows) = set rows"
  by (simp add: ascending_def)

lemma set_descending [simp]: "set (descending key rows) = set rows"
  by (simp add: descending_def)

lemma length_ascending [simp]: "length (ascending key rows) = length rows"
  by (simp add: ascending_def)

lemma length_descending [simp]: "length (descending key rows) = length rows"
  by (simp add: descending_def)

lemma set_page_rows: "set (page_rows p n rows) \<subseteq> set rows"
  by (auto simp: page_rows_def dest: in_set_takeD in_set_dropD)

lemma length_page_rows: "length (page_rows p n rows) \<le> n"
  by (simp add: page_rows_def)

lemma concat_pages: "concat (map (\<lambda>p. page_rows p n rows) [1..<Suc k]) = take (k * n) rows"
proof (induction k)
  case 0
  then show ?case by simp
next
  case (Suc k)
  have "take (k * n) rows @ take n (drop (k * n) rows) = take (k * n + n) rows"
    by (simp add: take_add)
  with Suc show ?case by (simp add: page_rows_def add.commute)
qed

lemma pages_partition:
  assumes "length rows \<le> k * n"
  shows "concat (map (\<lambda>p. page_rows p n rows) [1..<Suc k]) = rows"
  using assms by (simp only: concat_pages take_all)

section \<open>JavaScript values\<close>

text \<open>
  \<open>if (value)\<close> on an optional string: both \<open>undefined\<close>/\<open>null\<close> and the empty string are falsy.
\<close>

fun truthy :: "string option \<Rightarrow> bool" where
  "truthy None = False"
| "truthy (Some v) = (v \<noteq> [])"

text \<open>\<open>[...new Set(xs)]\<close>: the distinct elements in the order of their first occurrence.\<close>

definition js_set :: "'a list \<Rightarrow> 'a list" where
  "js_set xs = rev (remdups (rev xs))"

lemma set_js_set [simp]: "set (js_set xs) = set xs"
  by (simp add: js_set_def)

lemma distinct_js_set [simp]: "distinct (js_set xs)"
  by (simp add: js_set_def)

text \<open>
  \<open>Math.round(a / b)\<close> for integers with \<open>b > 0\<close>: the nearest integer, ties towards plus infinity.
\<close>

definition js_round_div :: "int \<Rightarrow> int \<Rightarrow> int" where
  "js_round_div a b = (2 * a + b) div (2 * b)"

lemma js_round_div_bounds:
  assumes "0 < b"
  shows "2 * b * js_round_div a b \<le> 2 * a + b" and "2 * a + b < 2 * b * (js_round_div a b + 1)"
proof -
  have e: "2 * b * js_round_div a b + (2 * a + b) mod (2 * b) = 2 * a + b"
    unfolding js_round_div_def by (rule mult_div_mod_eq)
  have "0 \<le> (2 * a + b) mod (2 * b)" and "(2 * a + b) mod (2 * b) < 2 * b"
    using assms by simp_all
  with e show "2 * b * js_round_div a b \<le> 2 * a + b"
    and "2 * a + b < 2 * b * (js_round_div a b + 1)"
    by (simp_all add: algebra_simps)
qed

lemma js_round_div_error:
  assumes "0 < b"
  shows "\<bar>2 * (b * js_round_div a b - a)\<bar> \<le> b"
  using js_round_div_bounds[OF assms, of a] by (simp add: algebra_simps abs_le_iff)

lemma js_round_div_nonneg: "0 \<le> a \<Longrightarrow> 0 < b \<Longrightarrow> 0 \<le> js_round_div a b"
  by (simp add: js_round_div_def pos_imp_zdiv_nonneg_iff)

lemma js_round_div_mono: "a \<le> a' \<Longrightarrow> 0 < b \<Longrightarrow> js_round_div a b \<le> js_round_div a' b"
  by (simp add: js_round_div_def zdiv_mono1)

lemma js_round_div_multiple: "0 < b \<Longrightarrow> js_round_div (k * b) b = k"
proof -
  assume b: "0 < b"
  have "(2 * (k * b) + b) div (2 * b) = k + b div (2 * b)"
    using b by (metis add.commute div_mult_self2 mult.assoc mult.commute mult_eq_0_iff
        order_less_irrefl zero_neq_numeral)
  with b show ?thesis by (simp add: js_round_div_def)
qed

lemma js_round_div_le:
  assumes "a \<le> c * b" and "0 < b"
  shows "js_round_div a b \<le> c"
  using js_round_div_mono[OF assms] js_round_div_multiple[OF assms(2), of c] by simp

section \<open>Document numbers\<close>

text \<open>\<open>String(n)\<close> of a natural number, \<open>padStart\<close>, \<open>toUpperCase\<close> on ASCII and \<open>lines.join(sep)\<close>.\<close>

fun nat_digits :: "nat \<Rightarrow> string" where
  "nat_digits n = (if n < 10 then [char_of (48 + n)] else nat_digits (n div 10) @ [char_of (48 + n mod 10)])"

declare nat_digits.simps [simp del]

definition padStart :: "nat \<Rightarrow> char \<Rightarrow> string \<Rightarrow> string" where
  "padStart n c v = replicate (n - length v) c @ v"

definition upper_char :: "char \<Rightarrow> char" where
  "upper_char c = (let n = of_char c in if 97 \<le> n \<and> n \<le> (122::nat) then char_of (n - 32) else c)"

definition toUpperCase :: "string \<Rightarrow> string" where
  "toUpperCase v = map upper_char v"

fun join :: "string \<Rightarrow> string list \<Rightarrow> string" where
  "join sep [] = []"
| "join sep [v] = v"
| "join sep (v # w # vs) = v @ sep @ join sep (w # vs)"

definition digits_value :: "string \<Rightarrow> nat" where
  "digits_value v = foldl (\<lambda>a c. 10 * a + (of_char c - 48)) 0 v"

lemma digits_value_append1: "digits_value (v @ [c]) = 10 * digits_value v + (of_char c - 48)"
  by (simp add: digits_value_def)

lemma digits_value_nat_digits: "digits_value (nat_digits n) = n"
proof (induction n rule: nat_digits.induct)
  case (1 n)
  show ?case
  proof (cases "n < 10")
    case True
    then show ?thesis by (simp add: nat_digits.simps[of n] digits_value_def)
  next
    case False
    then show ?thesis
      using 1 by (simp add: nat_digits.simps[of n] digits_value_append1)
  qed
qed

lemma digits_value_zeros: "digits_value (replicate k (CHR ''0'') @ v) = digits_value v"
  by (induction k) (simp_all add: digits_value_def)

text \<open>\<open>`PREFIX-$\{id.slice(0, 8).toUpperCase()\}-$\{String(n).padStart(6, "0")\}`\<close>.\<close>

definition document_number :: "string \<Rightarrow> string \<Rightarrow> nat \<Rightarrow> string" where
  "document_number prefix i n =
     prefix @ ''-'' @ toUpperCase (take 8 i) @ ''-'' @ padStart 6 (CHR ''0'') (nat_digits n)"

definition number_sequence :: "string \<Rightarrow> string \<Rightarrow> string \<Rightarrow> nat" where
  "number_sequence prefix i v = digits_value (drop (length prefix + 1 + length (take 8 i) + 1) v)"

lemma number_sequence_document_number: "number_sequence prefix i (document_number prefix i n) = n"
  by (simp add: number_sequence_def document_number_def toUpperCase_def padStart_def digits_value_zeros
      digits_value_nat_digits)

lemma inj_document_number: "inj (document_number prefix i)"
  by (rule inj_on_inverseI[where g = "number_sequence prefix i"]) (rule number_sequence_document_number)

section \<open>Sums\<close>

lemma sum_list_map_filter_split:
  fixes f :: "'r \<Rightarrow> int"
  shows "(\<Sum>r\<leftarrow>filter P rows. f r) + (\<Sum>r\<leftarrow>filter (\<lambda>r. \<not> P r) rows. f r) = (\<Sum>r\<leftarrow>rows. f r)"
  by (induction rows) auto

lemma sum_list_map_add:
  fixes f g :: "'r \<Rightarrow> int"
  shows "(\<Sum>r\<leftarrow>rows. f r + g r) = (\<Sum>r\<leftarrow>rows. f r) + (\<Sum>r\<leftarrow>rows. g r)"
  by (induction rows) auto

lemma foldl_sum:
  fixes f :: "'r \<Rightarrow> int"
  shows "foldl (\<lambda>acc r. acc + f r) z rows = z + (\<Sum>r\<leftarrow>rows. f r)"
  by (induction rows arbitrary: z) auto

text \<open>Grouping rows by a key and summing the groups sums the rows.\<close>

lemma sum_groups_superset:
  fixes f :: "'r \<Rightarrow> int"
  assumes "finite K" and "key ` set rows \<subseteq> K"
  shows "(\<Sum>k\<in>K. \<Sum>r\<leftarrow>filter (\<lambda>r. key r = k) rows. f r) = (\<Sum>r\<leftarrow>rows. f r)"
  using assms(2)
proof (induction rows)
  case Nil
  then show ?case by simp
next
  case (Cons r rows)
  have d: "(\<Sum>k\<in>K. if key r = k then f r else 0) = f r"
    using Cons.prems by (simp add: sum.delta'[OF assms(1)])
  have "(\<Sum>k\<in>K. \<Sum>r\<leftarrow>filter (\<lambda>r. key r = k) (r # rows). f r) =
        (\<Sum>k\<in>K. (if key r = k then f r else 0) + (\<Sum>r\<leftarrow>filter (\<lambda>r. key r = k) rows. f r))"
    by (rule sum.cong) simp_all
  also have "\<dots> = f r + (\<Sum>r\<leftarrow>rows. f r)"
    unfolding sum.distrib d using Cons.IH Cons.prems by simp
  finally show ?case by simp
qed

lemma sum_groups:
  fixes f :: "'r \<Rightarrow> int"
  shows "(\<Sum>k\<leftarrow>remdups (map key rows). \<Sum>r\<leftarrow>filter (\<lambda>r. key r = k) rows. f r) = (\<Sum>r\<leftarrow>rows. f r)"
  by (simp add: sum_list_distinct_conv_sum_set sum_groups_superset)

section \<open>Loops that may throw\<close>

text \<open>
  \<open>for (const x of xs) await f(x)\<close> threading a state, and \<open>xs.map(f)\<close> where \<open>f\<close> may throw: both
  stop at the first exception.
\<close>

fun sum_foldM :: "('s \<Rightarrow> 'a \<Rightarrow> 'e + 's) \<Rightarrow> 's \<Rightarrow> 'a list \<Rightarrow> 'e + 's" where
  "sum_foldM f s [] = Inr s"
| "sum_foldM f s (x # xs) = (case f s x of Inl e \<Rightarrow> Inl e | Inr s' \<Rightarrow> sum_foldM f s' xs)"

fun sum_mapM :: "('a \<Rightarrow> 'e + 'b) \<Rightarrow> 'a list \<Rightarrow> 'e + 'b list" where
  "sum_mapM f [] = Inr []"
| "sum_mapM f (x # xs) = (case f x of Inl e \<Rightarrow> Inl e
     | Inr y \<Rightarrow> (case sum_mapM f xs of Inl e \<Rightarrow> Inl e | Inr ys \<Rightarrow> Inr (y # ys)))"

lemma sum_foldM_invariant:
  assumes "sum_foldM f s xs = Inr s'" and "P s"
    and "\<And>s x s'. P s \<Longrightarrow> x \<in> set xs \<Longrightarrow> f s x = Inr s' \<Longrightarrow> P s'"
  shows "P s'"
  using assms
proof (induction xs arbitrary: s)
  case Nil
  then show ?case by simp
next
  case (Cons x xs)
  obtain s1 where s1: "f s x = Inr s1" and rest: "sum_foldM f s1 xs = Inr s'"
    using Cons.prems(1) by (auto split: sum.splits)
  have "P s1" by (rule Cons.prems(3)[OF Cons.prems(2) _ s1]) simp
  then show ?case by (rule Cons.IH[OF rest]) (rule Cons.prems(3), auto)
qed

lemma sum_foldM_filter [txn_simps]:
  "sum_foldM (\<lambda>s x. if P x then f s x else Inr s) s xs = sum_foldM f s (filter P xs)"
  by (induction xs arbitrary: s) (auto split: sum.splits)

lemma sum_foldM_map [txn_simps]: "sum_foldM f s (map g xs) = sum_foldM (\<lambda>s x. f s (g x)) s xs"
  by (induction xs arbitrary: s) (auto split: sum.splits)

lemma sum_mapM_Inr: "(\<And>x. x \<in> set xs \<Longrightarrow> f x = Inr (g x)) \<Longrightarrow> sum_mapM f xs = Inr (map g xs)"
  by (induction xs) auto

lemma sum_mapM_InrD: "sum_mapM f xs = Inr ys \<Longrightarrow> list_all2 (\<lambda>x y. f x = Inr y) xs ys"
  by (induction xs arbitrary: ys) (auto split: sum.splits)

lemma sum_mapM_Inr_length: "sum_mapM f xs = Inr ys \<Longrightarrow> length ys = length xs"
  by (drule sum_mapM_InrD) (simp add: list_all2_lengthD)

lemma sum_mapM_Inl_iff: "(\<exists>e. sum_mapM f xs = Inl e) \<longleftrightarrow> (\<exists>x\<in>set xs. \<exists>e. f x = Inl e)"
  by (induction xs) (auto split: sum.splits)

lemma sum_mapM_lookup:
  "sum_mapM (\<lambda>x. case g x of None \<Rightarrow> Inl e | Some y \<Rightarrow> Inr (h x y)) xs =
   (if \<forall>x\<in>set xs. g x \<noteq> None then Inr (map (\<lambda>x. h x (the (g x))) xs) else Inl e)"
  by (induction xs) (auto split: option.splits)

text \<open>A page of a list query with the total number of rows that match it.\<close>

record 'a page_result =
  result_items :: "'a list"
  result_total :: nat
  result_page :: nat
  result_pageSize :: nat

end
