(* ===== verification/Database.thy ===== *)
theory Database
  imports Prelude
begin

text \<open>
  The data model of apps/api/prisma/schema.prisma: its enums, one record per model, and the
  database as a record of tables. Identifiers are uuid strings, dates are milliseconds since the
  epoch, XOF amounts are integers (the schema has no floating point column). The lines of a sale, of
  a purchase and of a journal entry are created with their parent, never edited and deleted with it
  (\<open>onDelete: Cascade\<close>), so they are stored inside it, in insertion order. Exceptions are the
  classes the services throw or let through; accents are dropped from their messages.
\<close>

type_synonym uuid = string
type_synonym date = int

section \<open>Enums\<close>

datatype user_status = Usr_PENDING_INVITE | Usr_ACTIVE | Usr_SUSPENDED
datatype enterprise_status = Ent_ACTIVE | Ent_SUSPENDED | Ent_ARCHIVED
datatype subscription_status =
  Sub_TRIAL | Sub_ACTIVE | Sub_PAST_DUE | Sub_SUSPENDED | Sub_CANCELLED | Sub_EXPIRED
datatype payment_provider = WAVE | ORANGE_MONEY | FREE_MONEY | STRIPE | CARD
datatype payment_status = Pay_PENDING | Pay_SUCCEEDED | Pay_FAILED | Pay_REFUNDED | Pay_EXPIRED
datatype invoice_status = Inv_DRAFT | Inv_ISSUED | Inv_PAID | Inv_VOID
datatype customer_type = INDIVIDUAL | COMPANY
datatype stock_movement_type = Mov_IN | Mov_OUT | Mov_ADJUSTMENT
datatype sale_status = Sale_DRAFT | Sale_CONFIRMED | Sale_CANCELLED
datatype purchase_status = Purchase_DRAFT | Purchase_CONFIRMED | Purchase_CANCELLED
datatype refresh_token_status = Tok_ACTIVE | Tok_ROTATED | Tok_REVOKED
datatype auth_token_type = EMAIL_VERIFICATION | PASSWORD_RESET | INVITATION

datatype audit_action =
    LOGIN | LOGOUT | LOGIN_FAILED | ACCOUNT_LOCKED | MFA_CHALLENGE_FAILED
  | REFRESH_TOKEN_REUSE_DETECTED | REFRESH_REJECTED_INACTIVE_ACCOUNT
  | PASSWORD_RESET_REQUESTED | PASSWORD_RESET_COMPLETED | EMAIL_VERIFIED
  | USER_INVITED | INVITATION_ACCEPTED | ENTERPRISE_PROVISIONED
  | CREATE_CUSTOMER | UPDATE_CUSTOMER | DELETE_CLIENT
  | CREATE_SUPPLIER | UPDATE_SUPPLIER | DELETE_SUPPLIER
  | CREATE_PRODUCT | UPDATE_PRODUCT | DELETE_PRODUCT
  | CREATE_STOCK_MOVEMENT | CREATE_SALE | CONFIRM_SALE | CANCEL_SALE
  | CREATE_PURCHASE | CONFIRM_PURCHASE | CANCEL_PURCHASE
  | CREATE_INVOICE | MARK_INVOICE_PAID | VOID_INVOICE
  | CREATE_ACCOUNT | UPDATE_ACCOUNT | CREATE_JOURNAL_ENTRY
  | CHANGE_PLAN | PAYMENT | SUSPEND_ACCOUNT | REACTIVATE_ACCOUNT | CROSS_TENANT_ACCESS
  | EXPIRE_TRIAL | SUSPEND_SUBSCRIPTION | PAYMENT_WEBHOOK_REJECTED | EXPIRE_PAYMENT
  | CREATE_PLAN | UPDATE_PLAN | UPDATE_PLAN_FEATURE | UPDATE_PLAN_LIMIT

section \<open>Exceptions\<close>

text \<open>
  Prisma errors carry the codes the services test for: P2002 (unique constraint), P2003 (foreign key), P2025 (record to
  update not found), P2034 (serialization failure); \<open>PrismaUnknown\<close> is the error class without a
  code.
\<close>

datatype prisma_code = P2002 | P2003 | P2025 | P2028 | P2034

datatype exn =
    NotFoundException string
  | BadRequestException string
  | ConflictException string
  | ForbiddenException string
  | UnauthorizedException string
  | InternalServerErrorException string
  | PrismaKnown prisma_code
  | PrismaUnknown
  | InvalidSubscriptionTransitionError subscription_status subscription_status
  | JsError string

section \<open>Rows\<close>

record enterprise =
  ent_id :: uuid
  ent_name :: string
  ent_legalName :: "string option"
  ent_ninea :: "string option"
  ent_rccm :: "string option"
  ent_address :: "string option"
  ent_city :: "string option"
  ent_country :: string
  ent_phone :: "string option"
  ent_email :: "string option"
  ent_sector :: "string option"
  ent_currency :: string
  ent_status :: enterprise_status
  ent_currentSubscriptionId :: "uuid option"
  ent_createdAt :: date

record customer =
  customer_id :: uuid
  customer_enterpriseId :: uuid
  customer_type :: customer_type
  customer_name :: string
  customer_email :: "string option"
  customer_phone :: "string option"
  customer_address :: "string option"
  customer_city :: "string option"
  customer_country :: string
  customer_ninea :: "string option"
  customer_rccm :: "string option"
  customer_notes :: "string option"
  customer_isActive :: bool
  customer_createdAt :: date
  customer_updatedAt :: date

record supplier =
  supplier_id :: uuid
  supplier_enterpriseId :: uuid
  supplier_type :: customer_type
  supplier_name :: string
  supplier_email :: "string option"
  supplier_phone :: "string option"
  supplier_address :: "string option"
  supplier_city :: "string option"
  supplier_country :: string
  supplier_ninea :: "string option"
  supplier_rccm :: "string option"
  supplier_notes :: "string option"
  supplier_isActive :: bool
  supplier_createdAt :: date
  supplier_updatedAt :: date

record product =
  product_id :: uuid
  product_enterpriseId :: uuid
  product_code :: string
  product_name :: string
  product_description :: "string option"
  product_unit :: string
  product_category :: "string option"
  product_barcode :: "string option"
  product_sellingPriceExcludingTax :: int
  product_vatRateBasisPoints :: int
  product_trackStock :: bool
  product_isActive :: bool
  product_createdAt :: date
  product_updatedAt :: date

record stock_movement =
  movement_id :: uuid
  movement_enterpriseId :: uuid
  movement_productId :: uuid
  movement_type :: stock_movement_type
  movement_quantity :: int
  movement_note :: "string option"
  movement_idempotencyKey :: "string option"
  movement_createdAt :: date

record sale_line =
  saleLine_id :: uuid
  saleLine_enterpriseId :: uuid
  saleLine_productId :: uuid
  saleLine_quantity :: int
  saleLine_unitPriceExcludingTax :: int
  saleLine_vatRateBasisPoints :: int

record sale =
  sale_id :: uuid
  sale_enterpriseId :: uuid
  sale_customerId :: uuid
  sale_status :: sale_status
  sale_saleDate :: date
  sale_notes :: "string option"
  sale_confirmedAt :: "date option"
  sale_cancelledAt :: "date option"
  sale_idempotencyKey :: "string option"
  sale_createdAt :: date
  sale_updatedAt :: date
  sale_lines :: "sale_line list"

record purchase_line =
  purchaseLine_id :: uuid
  purchaseLine_enterpriseId :: uuid
  purchaseLine_productId :: uuid
  purchaseLine_quantity :: int
  purchaseLine_unitCostExcludingTax :: int
  purchaseLine_vatRateBasisPoints :: int

record purchase =
  purchase_id :: uuid
  purchase_enterpriseId :: uuid
  purchase_supplierId :: uuid
  purchase_status :: purchase_status
  purchase_purchaseDate :: date
  purchase_notes :: "string option"
  purchase_confirmedAt :: "date option"
  purchase_cancelledAt :: "date option"
  purchase_idempotencyKey :: "string option"
  purchase_createdAt :: date
  purchase_updatedAt :: date
  purchase_lines :: "purchase_line list"

record sales_invoice =
  salesInvoice_id :: uuid
  salesInvoice_enterpriseId :: uuid
  salesInvoice_saleId :: uuid
  salesInvoice_number :: string
  salesInvoice_status :: invoice_status
  salesInvoice_issuedAt :: date
  salesInvoice_paidAt :: "date option"
  salesInvoice_voidedAt :: "date option"
  salesInvoice_legalMentions :: string
  salesInvoice_idempotencyKey :: "string option"
  salesInvoice_createdAt :: date
  salesInvoice_updatedAt :: date

record account =
  account_id :: uuid
  account_enterpriseId :: uuid
  account_code :: string
  account_label :: string
  account_createdAt :: date
  account_updatedAt :: date

record journal_line =
  journalLine_id :: uuid
  journalLine_enterpriseId :: uuid
  journalLine_accountId :: uuid
  journalLine_label :: "string option"
  journalLine_debitAmount :: int
  journalLine_creditAmount :: int

record journal_entry =
  journalEntry_id :: uuid
  journalEntry_enterpriseId :: uuid
  journalEntry_number :: string
  journalEntry_entryDate :: date
  journalEntry_reference :: "string option"
  journalEntry_description :: string
  journalEntry_idempotencyKey :: "string option"
  journalEntry_createdAt :: date
  journalEntry_updatedAt :: date
  journalEntry_lines :: "journal_line list"

text \<open>
  \<open>planFeatures\<close> with their feature key and \<open>planLimits\<close> with their limit key (\<open>None\<close> is the
  column's \<open>NULL\<close>, unlimited) are stored inside the plan they belong to.
\<close>

record plan =
  plan_id :: uuid
  plan_code :: string
  plan_name :: string
  plan_description :: "string option"
  plan_priceMonthly :: int
  plan_priceYearly :: "int option"
  plan_trialDays :: int
  plan_isActive :: bool
  plan_sortOrder :: int
  plan_features :: "(string \<times> bool) list"
  plan_limits :: "(string \<times> int option) list"

record subscription =
  subscription_id :: uuid
  subscription_enterpriseId :: uuid
  subscription_planId :: uuid
  subscription_status :: subscription_status
  subscription_startDate :: date
  subscription_trialEndDate :: "date option"
  subscription_renewalDate :: "date option"
  subscription_cancelledAt :: "date option"

record subscription_event =
  event_subscriptionId :: uuid
  event_fromStatus :: "subscription_status option"
  event_toStatus :: subscription_status
  event_fromPlanId :: "uuid option"
  event_toPlanId :: "uuid option"
  event_reason :: "string option"
  event_triggeredByUserId :: "uuid option"

record payment =
  payment_id :: uuid
  payment_enterpriseId :: uuid
  payment_subscriptionId :: "uuid option"
  payment_invoiceId :: "uuid option"
  payment_provider :: payment_provider
  payment_providerReference :: "string option"
  payment_amount :: int
  payment_currency :: string
  payment_status :: payment_status
  payment_paidAt :: "date option"
  payment_conflictingEvent :: "payment_status option"
  payment_expiresAt :: "date option"
  payment_createdAt :: date

record invoice =
  invoice_id :: uuid
  invoice_enterpriseId :: uuid
  invoice_subscriptionId :: "uuid option"
  invoice_paymentId :: "uuid option"
  invoice_number :: string
  invoice_amount :: int
  invoice_amountExcludingTax :: int
  invoice_vatAmount :: int
  invoice_vatRateBasisPoints :: int
  invoice_legalMentions :: string
  invoice_status :: invoice_status
  invoice_issuedAt :: "date option"
  invoice_paidAt :: "date option"

record user =
  user_id :: uuid
  user_email :: string
  user_passwordHash :: string
  user_firstName :: string
  user_lastName :: string
  user_phone :: "string option"
  user_enterpriseId :: "uuid option"
  user_isSuperAdmin :: bool
  user_status :: user_status
  user_mfaEnabled :: bool
  user_mfaSecret :: "string option"
  user_emailVerifiedAt :: "date option"
  user_failedLoginCount :: int
  user_lockedUntil :: "date option"
  user_lastLoginAt :: "date option"
  user_createdAt :: date

record refresh_token =
  refreshToken_id :: uuid
  refreshToken_userId :: uuid
  refreshToken_familyId :: uuid
  refreshToken_tokenHash :: string
  refreshToken_status :: refresh_token_status
  refreshToken_expiresAt :: date
  refreshToken_replacedByTokenId :: "uuid option"
  refreshToken_revokedAt :: "date option"

record auth_token =
  authToken_id :: uuid
  authToken_userId :: uuid
  authToken_type :: auth_token_type
  authToken_tokenHash :: string
  authToken_expiresAt :: date
  authToken_consumedAt :: "date option"

text \<open>Of an audit entry's JSON metadata the model keeps the \<open>reason\<close>.\<close>

record audit_log =
  audit_userId :: "uuid option"
  audit_enterpriseId :: "uuid option"
  audit_action :: audit_action
  audit_resource :: string
  audit_resourceId :: "uuid option"
  audit_reason :: "string option"

section \<open>The database\<close>

text \<open>
  The three numbering counters map an enterprise to its \<open>last_number\<close>, \<open>None\<close> when the enterprise
  has no row yet.
\<close>

record db =
  enterprises :: "enterprise list"
  users :: "user list"
  customers :: "customer list"
  suppliers :: "supplier list"
  products :: "product list"
  stockMovements :: "stock_movement list"
  sales :: "sale list"
  purchases :: "purchase list"
  salesInvoices :: "sales_invoice list"
  salesInvoiceCounters :: "uuid \<Rightarrow> nat option"
  accounts :: "account list"
  journalEntries :: "journal_entry list"
  journalEntryCounters :: "uuid \<Rightarrow> nat option"
  plans :: "plan list"
  subscriptions :: "subscription list"
  subscriptionEvents :: "subscription_event list"
  payments :: "payment list"
  invoices :: "invoice list"
  invoiceCounters :: "uuid \<Rightarrow> nat option"
  refreshTokens :: "refresh_token list"
  authTokens :: "auth_token list"
  auditLogs :: "audit_log list"

definition empty_db :: db where
  "empty_db =
     \<lparr>enterprises = [], users = [], customers = [], suppliers = [], products = [],
      stockMovements = [], sales = [], purchases = [], salesInvoices = [],
      salesInvoiceCounters = Map.empty, accounts = [], journalEntries = [],
      journalEntryCounters = Map.empty, plans = [], subscriptions = [], subscriptionEvents = [],
      payments = [], invoices = [], invoiceCounters = Map.empty, refreshTokens = [],
      authTokens = [], auditLogs = []\<rparr>"

text \<open>
  Row level security for the role of the tenant connection
  (migrations/20260809113836_add_tenant_role_and_rls and the module migrations): the rows of the
  ERP tables and of the user table that a statement sees when \<open>app.tenant_id\<close> is \<open>t\<close>.
\<close>

definition rls :: "uuid \<Rightarrow> db \<Rightarrow> db" where
  "rls t s = s\<lparr>
     enterprises := filter (\<lambda>r. ent_id r = t) (enterprises s),
     users := filter (\<lambda>r. user_enterpriseId r = Some t) (users s),
     customers := filter (\<lambda>r. customer_enterpriseId r = t) (customers s),
     suppliers := filter (\<lambda>r. supplier_enterpriseId r = t) (suppliers s),
     products := filter (\<lambda>r. product_enterpriseId r = t) (products s),
     stockMovements := filter (\<lambda>r. movement_enterpriseId r = t) (stockMovements s),
     sales := filter (\<lambda>r. sale_enterpriseId r = t) (sales s),
     purchases := filter (\<lambda>r. purchase_enterpriseId r = t) (purchases s),
     salesInvoices := filter (\<lambda>r. salesInvoice_enterpriseId r = t) (salesInvoices s),
     accounts := filter (\<lambda>r. account_enterpriseId r = t) (accounts s),
     journalEntries := filter (\<lambda>r. journalEntry_enterpriseId r = t) (journalEntries s),
     subscriptions := filter (\<lambda>r. subscription_enterpriseId r = t) (subscriptions s)\<rparr>"

text \<open>
  A lookup by key followed by the test that the row belongs to the caller's enterprise gives the
  same answer on the rows the policy lets through, when keys are unique.
\<close>

lemma find_by_filter:
  assumes "distinct (map key rows)"
  shows "find_by key k (filter P rows) =
         (case find_by key k rows of None \<Rightarrow> None | Some r \<Rightarrow> if P r then Some r else None)"
  using assms
proof (induction rows)
  case Nil
  then show ?case by simp
next
  case (Cons r rows)
  then have "key r = k \<Longrightarrow> find_by key k rows = None" by (auto simp: find_by_None_iff)
  with Cons show ?case by auto
qed

section \<open>References\<close>

text \<open>The referenced row exists and belongs to the enterprise.\<close>

definition owned_product :: "uuid \<Rightarrow> uuid \<Rightarrow> db \<Rightarrow> bool" where
  "owned_product e i s = (case find_by product_id i (products s) of
     None \<Rightarrow> False | Some r \<Rightarrow> product_enterpriseId r = e)"

definition owned_customer :: "uuid \<Rightarrow> uuid \<Rightarrow> db \<Rightarrow> bool" where
  "owned_customer e i s = (case find_by customer_id i (customers s) of
     None \<Rightarrow> False | Some r \<Rightarrow> customer_enterpriseId r = e)"

definition owned_supplier :: "uuid \<Rightarrow> uuid \<Rightarrow> db \<Rightarrow> bool" where
  "owned_supplier e i s = (case find_by supplier_id i (suppliers s) of
     None \<Rightarrow> False | Some r \<Rightarrow> supplier_enterpriseId r = e)"

definition owned_account :: "uuid \<Rightarrow> uuid \<Rightarrow> db \<Rightarrow> bool" where
  "owned_account e i s = (case find_by account_id i (accounts s) of
     None \<Rightarrow> False | Some r \<Rightarrow> account_enterpriseId r = e)"

lemma owned_SomeD:
  "owned_product e i s \<Longrightarrow> \<exists>r. find_by product_id i (products s) = Some r \<and> product_enterpriseId r = e"
  "owned_customer e i s \<Longrightarrow> \<exists>r. find_by customer_id i (customers s) = Some r \<and> customer_enterpriseId r = e"
  "owned_supplier e i s \<Longrightarrow> \<exists>r. find_by supplier_id i (suppliers s) = Some r \<and> supplier_enterpriseId r = e"
  "owned_account e i s \<Longrightarrow> \<exists>r. find_by account_id i (accounts s) = Some r \<and> account_enterpriseId r = e"
  by (auto simp: owned_product_def owned_customer_def owned_supplier_def owned_account_def split: option.splits)

lemmas owned_defs = owned_product_def owned_customer_def owned_supplier_def owned_account_def

text \<open>References do not depend on the other tables.\<close>

lemma owned_other_table [simp]:
  "owned_product e i (s\<lparr>users := x_users\<rparr>) = owned_product e i s"
  "owned_product e i (s\<lparr>customers := x_customers\<rparr>) = owned_product e i s"
  "owned_product e i (s\<lparr>suppliers := x_suppliers\<rparr>) = owned_product e i s"
  "owned_product e i (s\<lparr>stockMovements := x_stockMovements\<rparr>) = owned_product e i s"
  "owned_product e i (s\<lparr>sales := x_sales\<rparr>) = owned_product e i s"
  "owned_product e i (s\<lparr>purchases := x_purchases\<rparr>) = owned_product e i s"
  "owned_product e i (s\<lparr>salesInvoices := x_salesInvoices\<rparr>) = owned_product e i s"
  "owned_product e i (s\<lparr>salesInvoiceCounters := x_salesInvoiceCounters\<rparr>) = owned_product e i s"
  "owned_product e i (s\<lparr>accounts := x_accounts\<rparr>) = owned_product e i s"
  "owned_product e i (s\<lparr>journalEntries := x_journalEntries\<rparr>) = owned_product e i s"
  "owned_product e i (s\<lparr>journalEntryCounters := x_journalEntryCounters\<rparr>) = owned_product e i s"
  "owned_product e i (s\<lparr>auditLogs := x_auditLogs\<rparr>) = owned_product e i s"
  "owned_customer e i (s\<lparr>users := x_users\<rparr>) = owned_customer e i s"
  "owned_customer e i (s\<lparr>suppliers := x_suppliers\<rparr>) = owned_customer e i s"
  "owned_customer e i (s\<lparr>products := x_products\<rparr>) = owned_customer e i s"
  "owned_customer e i (s\<lparr>stockMovements := x_stockMovements\<rparr>) = owned_customer e i s"
  "owned_customer e i (s\<lparr>sales := x_sales\<rparr>) = owned_customer e i s"
  "owned_customer e i (s\<lparr>purchases := x_purchases\<rparr>) = owned_customer e i s"
  "owned_customer e i (s\<lparr>salesInvoices := x_salesInvoices\<rparr>) = owned_customer e i s"
  "owned_customer e i (s\<lparr>salesInvoiceCounters := x_salesInvoiceCounters\<rparr>) = owned_customer e i s"
  "owned_customer e i (s\<lparr>accounts := x_accounts\<rparr>) = owned_customer e i s"
  "owned_customer e i (s\<lparr>journalEntries := x_journalEntries\<rparr>) = owned_customer e i s"
  "owned_customer e i (s\<lparr>journalEntryCounters := x_journalEntryCounters\<rparr>) = owned_customer e i s"
  "owned_customer e i (s\<lparr>auditLogs := x_auditLogs\<rparr>) = owned_customer e i s"
  "owned_supplier e i (s\<lparr>users := x_users\<rparr>) = owned_supplier e i s"
  "owned_supplier e i (s\<lparr>customers := x_customers\<rparr>) = owned_supplier e i s"
  "owned_supplier e i (s\<lparr>products := x_products\<rparr>) = owned_supplier e i s"
  "owned_supplier e i (s\<lparr>stockMovements := x_stockMovements\<rparr>) = owned_supplier e i s"
  "owned_supplier e i (s\<lparr>sales := x_sales\<rparr>) = owned_supplier e i s"
  "owned_supplier e i (s\<lparr>purchases := x_purchases\<rparr>) = owned_supplier e i s"
  "owned_supplier e i (s\<lparr>salesInvoices := x_salesInvoices\<rparr>) = owned_supplier e i s"
  "owned_supplier e i (s\<lparr>salesInvoiceCounters := x_salesInvoiceCounters\<rparr>) = owned_supplier e i s"
  "owned_supplier e i (s\<lparr>accounts := x_accounts\<rparr>) = owned_supplier e i s"
  "owned_supplier e i (s\<lparr>journalEntries := x_journalEntries\<rparr>) = owned_supplier e i s"
  "owned_supplier e i (s\<lparr>journalEntryCounters := x_journalEntryCounters\<rparr>) = owned_supplier e i s"
  "owned_supplier e i (s\<lparr>auditLogs := x_auditLogs\<rparr>) = owned_supplier e i s"
  "owned_account e i (s\<lparr>users := x_users\<rparr>) = owned_account e i s"
  "owned_account e i (s\<lparr>customers := x_customers\<rparr>) = owned_account e i s"
  "owned_account e i (s\<lparr>suppliers := x_suppliers\<rparr>) = owned_account e i s"
  "owned_account e i (s\<lparr>products := x_products\<rparr>) = owned_account e i s"
  "owned_account e i (s\<lparr>stockMovements := x_stockMovements\<rparr>) = owned_account e i s"
  "owned_account e i (s\<lparr>sales := x_sales\<rparr>) = owned_account e i s"
  "owned_account e i (s\<lparr>purchases := x_purchases\<rparr>) = owned_account e i s"
  "owned_account e i (s\<lparr>salesInvoices := x_salesInvoices\<rparr>) = owned_account e i s"
  "owned_account e i (s\<lparr>salesInvoiceCounters := x_salesInvoiceCounters\<rparr>) = owned_account e i s"
  "owned_account e i (s\<lparr>journalEntries := x_journalEntries\<rparr>) = owned_account e i s"
  "owned_account e i (s\<lparr>journalEntryCounters := x_journalEntryCounters\<rparr>) = owned_account e i s"
  "owned_account e i (s\<lparr>auditLogs := x_auditLogs\<rparr>) = owned_account e i s"
  by (simp_all add: owned_defs)

end
