(* ===== verification/Tenant.thy ===== *)
theory Tenant
  imports Database
begin

text \<open>
  The request's tenant and the two ways a repository opens a transaction: the tenant context filled
  by apps/api/src/tenant/tenant-context.middleware.ts and read by tenant-scoped-prisma.service.ts,
  and the bounded replay of serializable transactions of common/serializable-retry.ts.
  The JWT library is the parameter \<open>verifyAccessToken\<close>. Repositories test \<open>enterpriseId\<close>
  themselves and row level security filters a second time (\<open>rls\<close>); the bodies of the model run on
  the unfiltered tables and each component shows that its reads do not change under \<open>rls\<close>.
\<close>

section \<open>Tenant context\<close>

record tenant_store =
  store_tenantId :: uuid
  store_userId :: uuid
  store_isSuperAdmin :: bool

record access_token_payload =
  token_sub :: uuid
  token_enterpriseId :: "uuid option"
  token_isSuperAdmin :: bool

definition getRequiredTenantId :: "tenant_store option \<Rightarrow> exn + uuid" where
  "getRequiredTenantId store = (case store of
     None \<Rightarrow> Inl (JsError ''Aucun TenantContext actif : cette operation doit s'executer dans une requete authentifiee'')
   | Some st \<Rightarrow> Inr (store_tenantId st))"

text \<open>\<open>authHeader?.startsWith("Bearer ")\<close> and \<open>authHeader.slice("Bearer ".length)\<close>.\<close>

definition bearer_token :: "string option \<Rightarrow> string option" where
  "bearer_token authHeader = (case authHeader of
     None \<Rightarrow> None
   | Some h \<Rightarrow> if take 7 h = ''Bearer '' then Some (drop 7 h) else None)"

definition tenant_context_use ::
    "(string \<Rightarrow> exn + access_token_payload) \<Rightarrow> string option \<Rightarrow> tenant_store option" where
  "tenant_context_use verifyAccessToken authHeader = (case bearer_token authHeader of
     None \<Rightarrow> None
   | Some token \<Rightarrow> (case verifyAccessToken token of
       Inl e \<Rightarrow> None
     | Inr payload \<Rightarrow>
         if \<not> truthy (token_enterpriseId payload) then None
         else Some \<lparr>store_tenantId = the (token_enterpriseId payload),
                    store_userId = token_sub payload,
                    store_isSuperAdmin = token_isSuperAdmin payload\<rparr>))"

lemma tenant_context_use_Some_iff:
  "tenant_context_use verify h = Some st \<longleftrightarrow>
   (\<exists>token payload. bearer_token h = Some token \<and> verify token = Inr payload \<and>
      truthy (token_enterpriseId payload) \<and>
      st = \<lparr>store_tenantId = the (token_enterpriseId payload),
            store_userId = token_sub payload, store_isSuperAdmin = token_isSuperAdmin payload\<rparr>)"
  by (auto simp: tenant_context_use_def split: option.splits sum.splits)

section \<open>Transactions of the tenant connection\<close>

definition tenant_run :: "tenant_store option \<Rightarrow> (db, exn, 'a) txn \<Rightarrow> db \<Rightarrow> (exn + 'a) \<times> db" where
  "tenant_run store callback s = (case getRequiredTenantId store of
     Inl e \<Rightarrow> (Inl e, s)
   | Inr tenantId \<Rightarrow> commit_txn callback s)"

lemma tenant_run_Some [txn_simps]: "tenant_run (Some st) t s = commit_txn t s"
  by (simp add: tenant_run_def getRequiredTenantId_def)

lemma tenant_run_rollback: "fst (tenant_run store t s) = Inl e \<Longrightarrow> snd (tenant_run store t s) = s"
  by (auto simp: tenant_run_def commit_txn_rollback split: sum.splits)

lemma tenant_run_InlD: "tenant_run store t s = (Inl e, s') \<Longrightarrow> s' = s"
  using tenant_run_rollback[of store t s e] by simp

lemma tenant_run_InrD: "tenant_run store t s = (Inr a, s') \<Longrightarrow> t s = Inr (a, s')"
  by (auto simp: tenant_run_def commit_txn_InrD split: sum.splits)

lemma tenant_run_invariant:
  assumes "\<And>a s'. t s = Inr (a, s') \<Longrightarrow> P s'" and "P s"
  shows "P (snd (tenant_run store t s))"
  using assms by (auto simp: tenant_run_def commit_txn_invariant split: sum.splits)

text \<open>
  A serializable transaction: \<open>aborted\<close> says that the engine cancels it (SQL 40001, P2034), in
  which case nothing it wrote remains.
\<close>

definition tenant_run_serializable ::
    "tenant_store option \<Rightarrow> bool \<Rightarrow> (db, exn, 'a) txn \<Rightarrow> db \<Rightarrow> (exn + 'a) \<times> db" where
  "tenant_run_serializable store aborted callback =
     tenant_run store (\<lambda>s. if aborted then Inl (PrismaKnown P2034) else callback s)"

section \<open>Replay of serializable transactions\<close>

definition isSerializationFailure :: "exn \<Rightarrow> bool" where
  "isSerializationFailure e = (e = PrismaKnown P2034)"

text \<open>
  The loop with \<open>n\<close> attempts left, \<open>attempt\<close> the number of the next one. The result carries the base
  delays it slept (each real delay is between that value and one and a half times it).
\<close>

fun retry_loop :: "nat \<Rightarrow> nat \<Rightarrow> nat \<Rightarrow> exn \<Rightarrow> (nat \<Rightarrow> 's \<Rightarrow> (exn + 'a) \<times> 's) \<Rightarrow> 's \<Rightarrow> (exn + 'a) \<times> 's \<times> nat list" where
  "retry_loop 0 attempt baseDelayMs lastError operation s = (Inl lastError, s, [])"
| "retry_loop (Suc n) attempt baseDelayMs lastError operation s = (case operation attempt s of
     (Inr a, s') \<Rightarrow> (Inr a, s', [])
   | (Inl e, s') \<Rightarrow>
       if \<not> isSerializationFailure e then (Inl e, s', [])
       else (let (r, s'', delays) = retry_loop n (Suc attempt) baseDelayMs e operation s' in
         (r, s'', if 0 < n then min (baseDelayMs * 2 ^ (attempt - 1)) 100 # delays else delays)))"

definition runWithSerializableRetry ::
    "nat option \<Rightarrow> nat option \<Rightarrow> (nat \<Rightarrow> 's \<Rightarrow> (exn + 'a) \<times> 's) \<Rightarrow> 's \<Rightarrow> (exn + 'a) \<times> 's \<times> nat list" where
  "runWithSerializableRetry maxAttempts baseDelayMs operation s =
     retry_loop (case maxAttempts of None \<Rightarrow> 3 | Some n \<Rightarrow> n) 1
       (case baseDelayMs of None \<Rightarrow> 25 | Some d \<Rightarrow> d) (JsError ''undefined'') operation s"

text \<open>
  An operation that either is cancelled by the engine, leaving the state as it was, or does what
  \<open>f\<close> does: the replay is \<open>f\<close>, once, unless every attempt is cancelled.
\<close>

definition attempt_of :: "(nat \<Rightarrow> bool) \<Rightarrow> ('s \<Rightarrow> (exn + 'a) \<times> 's) \<Rightarrow> nat \<Rightarrow> 's \<Rightarrow> (exn + 'a) \<times> 's" where
  "attempt_of abort f i s = (if abort i then (Inl (PrismaKnown P2034), s) else f s)"

lemma retry_loop_attempt_of:
  assumes "fst (f s) \<noteq> Inl (PrismaKnown P2034)"
  shows "\<exists>delays. length delays \<le> n \<and> retry_loop (Suc n) a b e (attempt_of abort f) s =
    (if \<forall>i\<in>{a..a + n}. abort i then (Inl (PrismaKnown P2034), s, delays)
     else (fst (f s), snd (f s), delays))"
proof (induction n arbitrary: a e)
  case 0
  then show ?case
    using assms by (cases "f s") (auto simp: attempt_of_def isSerializationFailure_def split: sum.splits)
next
  case (Suc n)
  show ?case
  proof (cases "abort a")
    case False
    then show ?thesis
      using assms by (cases "f s")
        (fastforce simp: attempt_of_def isSerializationFailure_def split: sum.splits)
  next
    case True
    obtain delays where l: "length delays \<le> n" and
      r: "retry_loop (Suc n) (Suc a) b (PrismaKnown P2034) (attempt_of abort f) s =
        (if \<forall>i\<in>{Suc a..Suc a + n}. abort i then (Inl (PrismaKnown P2034), s, delays)
         else (fst (f s), snd (f s), delays))"
      using Suc[of "Suc a" "PrismaKnown P2034"] by blast
    have all: "(\<forall>i\<in>{a..a + Suc n}. abort i) \<longleftrightarrow> (\<forall>i\<in>{Suc a..Suc a + n}. abort i)"
    proof -
      have "{a..a + Suc n} = insert a {Suc a..Suc a + n}" by auto
      then show ?thesis using True by simp
    qed
    have "retry_loop (Suc (Suc n)) a b e (attempt_of abort f) s =
      (let (r, s'', delays) = retry_loop (Suc n) (Suc a) b (PrismaKnown P2034) (attempt_of abort f) s in
         (r, s'', min (b * 2 ^ (a - 1)) 100 # delays))"
      using True by (subst retry_loop.simps) (simp add: attempt_of_def isSerializationFailure_def del: retry_loop.simps)
    then show ?thesis
      unfolding r all using l by (intro exI[of _ "min (b * 2 ^ (a - 1)) 100 # delays"]) simp
  qed
qed

text \<open>The operations of the repositories: three attempts, and the last P2034 becomes a 409.\<close>

definition serializable_409 ::
    "string \<Rightarrow> tenant_store option \<Rightarrow> (nat \<Rightarrow> bool) \<Rightarrow> (db, exn, 'a) txn \<Rightarrow> db \<Rightarrow> (exn + 'a) \<times> db" where
  "serializable_409 message store abort callback s =
     (case runWithSerializableRetry None None
             (\<lambda>attempt. tenant_run_serializable store (abort attempt) callback) s of
        (Inr a, s', delays) \<Rightarrow> (Inr a, s')
      | (Inl e, s', delays) \<Rightarrow>
          (Inl (if e = PrismaKnown P2034 then ConflictException message else e), s'))"

lemma serializable_409_eq:
  assumes "\<And>s. callback s \<noteq> Inl (PrismaKnown P2034)"
  shows "serializable_409 message (Some st) abort callback s =
    (if abort 1 \<and> abort 2 \<and> abort 3 then (Inl (ConflictException message), s)
     else commit_txn callback s)"
proof -
  have op: "(\<lambda>attempt. tenant_run_serializable (Some st) (abort attempt) callback) =
            attempt_of abort (commit_txn callback)"
    by (rule ext, rule ext) (simp add: tenant_run_serializable_def attempt_of_def tenant_run_Some commit_txn_def)
  have ok: "fst (commit_txn callback s) \<noteq> Inl (PrismaKnown P2034)"
    using assms[of s] by (auto simp: commit_txn_def split: sum.splits)
  obtain delays where r: "retry_loop (Suc 2) 1 25 (JsError ''undefined'') (attempt_of abort (commit_txn callback)) s =
      (if \<forall>i\<in>{1..1 + 2}. abort i then (Inl (PrismaKnown P2034), s, delays)
       else (fst (commit_txn callback s), snd (commit_txn callback s), delays))"
    using retry_loop_attempt_of[where f = "commit_txn callback" and s = s and n = 2 and a = 1 and b = 25
        and e = "JsError ''undefined''" and abort = abort, OF ok] by blast
  have all: "(\<forall>i\<in>{1..1 + 2}. abort i) \<longleftrightarrow> abort 1 \<and> abort 2 \<and> abort (3::nat)"
  proof -
    have "{1..1 + 2} = {1, 2, 3::nat}" by auto
    then show ?thesis by simp
  qed
  have "runWithSerializableRetry None None (attempt_of abort (commit_txn callback)) s =
      (if abort 1 \<and> abort 2 \<and> abort 3 then (Inl (PrismaKnown P2034), s, delays)
       else (fst (commit_txn callback s), snd (commit_txn callback s), delays))"
    using r unfolding all runWithSerializableRetry_def by (simp add: numeral_3_eq_3 del: retry_loop.simps)
  then show ?thesis
    unfolding serializable_409_def op using ok
    by (cases "commit_txn callback s") (auto split: sum.splits)
qed

lemma serializable_409_None:
  "serializable_409 message None abort callback s =
   (Inl (JsError ''Aucun TenantContext actif : cette operation doit s'executer dans une requete authentifiee''), s)"
  by (simp add: serializable_409_def runWithSerializableRetry_def tenant_run_serializable_def
      tenant_run_def getRequiredTenantId_def numeral_3_eq_3 isSerializationFailure_def)

end
