(* ===== verification/Fixtures.thy ===== *)
theory Fixtures
  imports Tenant
begin

text \<open>
  A small concrete database (two enterprises, a customer, a supplier, a tracked product with ten
  units in stock, a service that is not tracked) on which the theorems are instantiated.
\<close>

definition fx_store :: "tenant_store option" where
  "fx_store = Some \<lparr>store_tenantId = ''e1'', store_userId = ''u1'', store_isSuperAdmin = False\<rparr>"

definition fx_enterprise :: "uuid \<Rightarrow> enterprise" where
  "fx_enterprise i =
     \<lparr>ent_id = i, ent_name = ''Acme'', ent_legalName = None, ent_ninea = Some ''123'', ent_rccm = None,
      ent_address = None, ent_city = None, ent_country = ''SN'', ent_phone = None,
      ent_email = None, ent_sector = None, ent_currency = ''XOF'', ent_status = Ent_ACTIVE,
      ent_currentSubscriptionId = None, ent_createdAt = 0\<rparr>"

definition fx_customer :: "uuid \<Rightarrow> uuid \<Rightarrow> customer" where
  "fx_customer i e =
     \<lparr>customer_id = i, customer_enterpriseId = e, customer_type = COMPANY, customer_name = ''Client'',
      customer_email = None, customer_phone = None, customer_address = None, customer_city = None,
      customer_country = ''Senegal'', customer_ninea = None, customer_rccm = None, customer_notes = None,
      customer_isActive = True, customer_createdAt = 0, customer_updatedAt = 0\<rparr>"

definition fx_supplier :: "uuid \<Rightarrow> uuid \<Rightarrow> supplier" where
  "fx_supplier i e =
     \<lparr>supplier_id = i, supplier_enterpriseId = e, supplier_type = COMPANY, supplier_name = ''Fournisseur'',
      supplier_email = None, supplier_phone = None, supplier_address = None, supplier_city = None,
      supplier_country = ''Senegal'', supplier_ninea = None, supplier_rccm = None, supplier_notes = None,
      supplier_isActive = True, supplier_createdAt = 0, supplier_updatedAt = 0\<rparr>"

definition fx_product :: "uuid \<Rightarrow> uuid \<Rightarrow> string \<Rightarrow> bool \<Rightarrow> product" where
  "fx_product i e code trackStock =
     \<lparr>product_id = i, product_enterpriseId = e, product_code = code, product_name = code,
      product_description = None, product_unit = ''u'', product_category = None, product_barcode = None,
      product_sellingPriceExcludingTax = 1000, product_vatRateBasisPoints = 1800,
      product_trackStock = trackStock, product_isActive = True, product_createdAt = 0,
      product_updatedAt = 0\<rparr>"

definition fx_movement :: "uuid \<Rightarrow> stock_movement" where
  "fx_movement i =
     \<lparr>movement_id = i, movement_enterpriseId = ''e1'', movement_productId = ''p1'', movement_type = Mov_IN,
      movement_quantity = 10, movement_note = None, movement_idempotencyKey = Some ''k0'',
      movement_createdAt = 0\<rparr>"

definition fx_account :: "uuid \<Rightarrow> string \<Rightarrow> account" where
  "fx_account i code =
     \<lparr>account_id = i, account_enterpriseId = ''e1'', account_code = code, account_label = code,
      account_createdAt = 0, account_updatedAt = 0\<rparr>"

definition fx_db :: db where
  "fx_db = empty_db\<lparr>
     enterprises := [fx_enterprise ''e1'', fx_enterprise ''e2''],
     customers := [fx_customer ''c1'' ''e1'', fx_customer ''c2'' ''e2''],
     suppliers := [fx_supplier ''s1'' ''e1'', fx_supplier ''s2'' ''e2''],
     products := [fx_product ''p1'' ''e1'' ''A1'' True, fx_product ''p2'' ''e1'' ''A2'' False,
                  fx_product ''p3'' ''e2'' ''A1'' True],
     stockMovements := [fx_movement ''m0''],
     accounts := [fx_account ''a1'' ''411'', fx_account ''a2'' ''701'']\<rparr>"

end
