(* ===== verification/Interfaces.thy ===== *)
theory Interfaces
  imports Prelude
begin

text \<open>
  The interfaces between the components, as locales. A component that relies on another states the
  operations it calls as \<open>fixes\<close> and the promises it needs as \<open>assumes\<close>; the lemmas inside are proved
  from those promises alone, and the component that provides the operations interprets the locale.
  \<^item> \<open>movement_ledger\<close>: what sales and purchases need from the stock ledger;
  \<^item> \<open>tenant_isolated\<close>: what one enterprise sees is not changed by the requests of another;
  \<^item> \<open>settled_documents\<close>: a document that has reached a final state stays as it is;
  \<^item> \<open>gapless_numbering\<close>: a counter that numbers an enterprise's documents.
\<close>

section \<open>The ledger behind the documents\<close>

text \<open>
  Sales and purchases never read the movements: they call \<open>applyMovement\<close> once per line and rely on
  what it promises about the quantity on hand. The lemmas say when a whole document can be posted
  and what it does to every level.
\<close>

locale movement_ledger =
  fixes post :: "'s \<Rightarrow> 'm \<Rightarrow> 'e + 's"
    and level :: "'s \<Rightarrow> 'p \<Rightarrow> int"
    and item :: "'m \<Rightarrow> 'p"
    and delta :: "'m \<Rightarrow> int"
    and ident :: "'m \<Rightarrow> 'i"
    and ready :: "'s \<Rightarrow> 'm \<Rightarrow> bool"
    and fresh :: "'s \<Rightarrow> 'i \<Rightarrow> bool"
    and shortage :: 'e
  assumes post_succeeds: "ready s m \<Longrightarrow> fresh s (ident m) \<Longrightarrow> 0 \<le> level s (item m) + delta m \<Longrightarrow> \<exists>s'. post s m = Inr s'"
    and post_short: "ready s m \<Longrightarrow> level s (item m) + delta m < 0 \<Longrightarrow> post s m = Inl shortage"
    and post_requires: "post s m = Inr s' \<Longrightarrow> ready s m \<and> fresh s (ident m) \<and> 0 \<le> level s (item m) + delta m"
    and post_level: "post s m = Inr s' \<Longrightarrow> level s' p = level s p + (if p = item m then delta m else 0)"
    and post_ready: "post s m = Inr s' \<Longrightarrow> ready s' m' = ready s m'"
    and post_fresh: "post s m = Inr s' \<Longrightarrow> fresh s' i \<longleftrightarrow> fresh s i \<and> i \<noteq> ident m"
begin

abbreviation moved :: "'p \<Rightarrow> 'm list \<Rightarrow> int" where
  "moved p ms \<equiv> (\<Sum>m\<leftarrow>filter (\<lambda>m. item m = p) ms. delta m)"

lemma post_Inr_iff:
  "(\<exists>s'. post s m = Inr s') \<longleftrightarrow> ready s m \<and> fresh s (ident m) \<and> 0 \<le> level s (item m) + delta m"
  using post_succeeds post_requires by blast

lemma posts_level:
  "sum_foldM post s ms = Inr s' \<Longrightarrow> level s' p = level s p + moved p ms"
proof (induction ms arbitrary: s)
  case Nil
  then show ?case by simp
next
  case (Cons m ms)
  then obtain s1 where s1: "post s m = Inr s1" and "sum_foldM post s1 ms = Inr s'"
    by (auto split: sum.splits)
  with Cons.IH have "level s' p = level s1 p + moved p ms" by blast
  then show ?case using post_level[OF s1, of p] by auto
qed

lemma posts_nonneg:
  assumes "sum_foldM post s ms = Inr s'" and "\<forall>p. 0 \<le> level s p"
  shows "\<forall>p. 0 \<le> level s' p"
  using assms
proof (rule sum_foldM_invariant)
  fix s m s' assume "\<forall>p. 0 \<le> level s p" and p: "post s m = Inr s'"
  then show "\<forall>p. 0 \<le> level s' p" using post_level[OF p] post_requires[OF p] by auto
qed

lemma posts_requires:
  "sum_foldM post s ms = Inr s' \<Longrightarrow>
   (\<forall>m\<in>set ms. ready s m \<and> fresh s (ident m)) \<and> distinct (map ident ms)"
proof (induction ms arbitrary: s)
  case Nil
  then show ?case by simp
next
  case (Cons m ms)
  then obtain s1 where s1: "post s m = Inr s1" and "sum_foldM post s1 ms = Inr s'"
    by (auto split: sum.splits)
  with Cons.IH have "(\<forall>m\<in>set ms. ready s1 m \<and> fresh s1 (ident m)) \<and> distinct (map ident ms)"
    by blast
  then show ?case using post_requires[OF s1] post_ready[OF s1] post_fresh[OF s1] by auto
qed

lemma moved_le_0: "\<forall>m\<in>set ms. delta m \<le> 0 \<Longrightarrow> moved p ms \<le> 0"
  by (rule sum_list_nonpos) auto

lemma moved_ge_0: "\<forall>m\<in>set ms. 0 \<le> delta m \<Longrightarrow> 0 \<le> moved p ms"
  by (rule sum_list_nonneg) auto

lemma post_rest:
  assumes "post s m = Inr s1" and "\<forall>x\<in>set (m # ms). ready s x \<and> fresh s (ident x)"
    and "distinct (map ident (m # ms))"
  shows "\<forall>x\<in>set ms. ready s1 x \<and> fresh s1 (ident x)"
  using assms(2,3) post_ready[OF assms(1)] post_fresh[OF assms(1)] by (auto simp: image_iff)

text \<open>
  A document that only takes out: posting it line by line succeeds exactly when, item by item, the
  level covers what the whole document takes; otherwise some line reports the shortage.
\<close>

lemma posts_out:
  assumes "\<forall>m\<in>set ms. delta m \<le> 0" and "\<forall>m\<in>set ms. ready s m \<and> fresh s (ident m)"
    and "distinct (map ident ms)"
  shows "if \<forall>m\<in>set ms. 0 \<le> level s (item m) + moved (item m) ms
         then \<exists>s'. sum_foldM post s ms = Inr s' else sum_foldM post s ms = Inl shortage"
  using assms
proof (induction ms arbitrary: s)
  case Nil
  then show ?case by simp
next
  case (Cons m ms)
  have le: "moved p ms \<le> 0" for p using Cons.prems(1) by (intro moved_le_0) simp
  show ?case
  proof (cases "0 \<le> level s (item m) + delta m")
    case False
    then have "post s m = Inl shortage" using post_short Cons.prems(2) by simp
    moreover have "\<not> 0 \<le> level s (item m) + moved (item m) (m # ms)"
      using False le[of "item m"] by simp
    ultimately show ?thesis by auto
  next
    case True
    then obtain s1 where s1: "post s m = Inr s1" using post_succeeds[of s m] Cons.prems(2) by auto
    have split: "(\<forall>x\<in>set ms. 0 \<le> level s1 (item x) + moved (item x) ms) \<longleftrightarrow>
        (\<forall>x\<in>set (m # ms). 0 \<le> level s (item x) + moved (item x) (m # ms))"
    proof
      assume l: "\<forall>x\<in>set ms. 0 \<le> level s1 (item x) + moved (item x) ms"
      have "0 \<le> level s (item m) + moved (item m) (m # ms)"
      proof (cases "item m \<in> item ` set ms")
        case True
        with l show ?thesis using post_level[OF s1] by auto
      next
        case False
        then have "filter (\<lambda>x. item x = item m) ms = []" by (auto simp: filter_empty_conv image_iff eq_commute)
        then show ?thesis using \<open>0 \<le> level s (item m) + delta m\<close> by simp
      qed
      with l show "\<forall>x\<in>set (m # ms). 0 \<le> level s (item x) + moved (item x) (m # ms)"
        using post_level[OF s1] by auto
    next
      assume "\<forall>x\<in>set (m # ms). 0 \<le> level s (item x) + moved (item x) (m # ms)"
      then show "\<forall>x\<in>set ms. 0 \<le> level s1 (item x) + moved (item x) ms"
        using post_level[OF s1] by (auto split: if_splits)
    qed
    have "if \<forall>m\<in>set ms. 0 \<le> level s1 (item m) + moved (item m) ms
         then \<exists>s'. sum_foldM post s1 ms = Inr s' else sum_foldM post s1 ms = Inl shortage"
      using Cons.prems post_rest[OF s1 Cons.prems(2,3)] by (intro Cons.IH) simp_all
    then show ?thesis unfolding split using s1 by (simp split: if_splits)
  qed
qed

text \<open>A document that only brings in is always accepted.\<close>

lemma posts_in:
  assumes "\<forall>m\<in>set ms. 0 \<le> delta m" and "\<forall>m\<in>set ms. ready s m \<and> fresh s (ident m)"
    and "distinct (map ident ms)" and "\<forall>m\<in>set ms. 0 \<le> level s (item m)"
  shows "\<exists>s'. sum_foldM post s ms = Inr s'"
  using assms
proof (induction ms arbitrary: s)
  case Nil
  then show ?case by simp
next
  case (Cons m ms)
  then obtain s1 where s1: "post s m = Inr s1" using post_succeeds[of s m] by auto
  have "\<exists>s'. sum_foldM post s1 ms = Inr s'"
    using Cons.prems post_rest[OF s1 Cons.prems(2,3)] post_level[OF s1] by (intro Cons.IH) auto
  then show ?case using s1 by simp
qed

end

section \<open>Isolation\<close>

text \<open>
  \<open>view e s\<close> is what enterprise \<open>e\<close> can see, \<open>actor q\<close> the enterprise on whose behalf request \<open>q\<close>
  is made, if any; \<open>request q s\<close> is the state after it and \<open>ok\<close> the invariant of the state.
\<close>

locale tenant_isolated =
  fixes view :: "'e \<Rightarrow> 's \<Rightarrow> 'a"
    and actor :: "'q \<Rightarrow> 'e option"
    and request :: "'q \<Rightarrow> 's \<Rightarrow> 's"
    and ok :: "'s \<Rightarrow> bool"
  assumes request_other: "ok s \<Longrightarrow> actor q \<noteq> Some e \<Longrightarrow> view e (request q s) = view e s"
    and request_ok: "ok s \<Longrightarrow> ok (request q s)"
begin

abbreviation runs :: "'q list \<Rightarrow> 's \<Rightarrow> 's" where
  "runs qs s \<equiv> foldl (\<lambda>s q. request q s) s qs"

lemma runs_ok: "ok s \<Longrightarrow> ok (runs qs s)"
  by (induction qs arbitrary: s) (auto simp: request_ok)

lemma views_unaffected: "ok s \<Longrightarrow> \<forall>q\<in>set qs. actor q \<noteq> Some e \<Longrightarrow> view e (runs qs s) = view e s"
  by (induction qs arbitrary: s) (auto simp: request_other request_ok)

end

section \<open>Final states\<close>

locale settled_documents =
  fixes step :: "'s \<Rightarrow> 's \<Rightarrow> bool"
    and look :: "'i \<Rightarrow> 's \<Rightarrow> 'd option"
    and final :: "'d \<Rightarrow> bool"
  assumes step_final: "step s s' \<Longrightarrow> look i s = Some d \<Longrightarrow> final d \<Longrightarrow> look i s' = Some d"
begin

lemma steps_final: "step\<^sup>*\<^sup>* s s' \<Longrightarrow> look i s = Some d \<Longrightarrow> final d \<Longrightarrow> look i s' = Some d"
  by (induction rule: rtranclp_induct) (auto intro: step_final)

end

section \<open>Legal numbering\<close>

text \<open>
  A tenant's documents carry the numbers its counter gave them. A step issues at most one document
  and moves the counter with it; then the numbers issued are the first ones, in order, without gap
  or repetition.
\<close>

locale gapless_numbering =
  fixes issued :: "'e \<Rightarrow> 's \<Rightarrow> 'n list"
    and last_number :: "'e \<Rightarrow> 's \<Rightarrow> nat"
    and number :: "'e \<Rightarrow> nat \<Rightarrow> 'n"
    and step :: "'s \<Rightarrow> 's \<Rightarrow> bool"
  assumes step_issues: "step s s' \<Longrightarrow>
      issued e s' = issued e s \<and> last_number e s' = last_number e s \<or>
      issued e s' = issued e s @ [number e (Suc (last_number e s))] \<and> last_number e s' = Suc (last_number e s)"
    and number_inj: "number e m = number e n \<Longrightarrow> m = n"
begin

abbreviation gapless :: "'e \<Rightarrow> 's \<Rightarrow> bool" where
  "gapless e s \<equiv> issued e s = map (number e) [1..<Suc (last_number e s)]"

lemma step_gapless:
  assumes "step s s'" and "gapless e s"
  shows "gapless e s'"
  using step_issues[OF assms(1), of e] assms(2) by (auto simp del: upt_Suc simp: upt_Suc_append)

lemma steps_gapless: "step\<^sup>*\<^sup>* s s' \<Longrightarrow> gapless e s \<Longrightarrow> gapless e s'"
proof (induction rule: rtranclp_induct)
  case (step y z)
  then show ?case by (intro step_gapless[OF step.hyps(2)])
qed

lemma gapless_distinct: "gapless e s \<Longrightarrow> distinct (issued e s)"
  by (simp add: distinct_map inj_on_def number_inj del: upt_Suc)

end

end
