(* ===== verification/Stock.thy ===== *)
theory Stock
  imports Fixtures Interfaces
begin

text \<open>
  apps/api/src/stock: the append-only ledger of stock movements. \<open>aggregateQuantities\<close>,
  \<open>applyMovement\<close>, \<open>createMovement\<close>, \<open>findLevels\<close>, \<open>getLevel\<close>, \<open>findMovements\<close> follow
  stock.repository.ts, \<open>stock_createMovement\<close> follows stock.service.ts. The identifier of a new row
  and the current time are arguments; \<open>ilike\<close> is the database's case-insensitive \<open>contains\<close> and
  \<open>collate\<close> the order of its text columns. \<open>alive\<close> says whether a transaction still answers after a
  failed statement (on PostgreSQL it does not: every later statement fails).
\<close>

section \<open>Audit log\<close>

definition auditLog_record :: "audit_log \<Rightarrow> db \<Rightarrow> db" where
  "auditLog_record entry s = s\<lparr>auditLogs := auditLogs s @ [entry]\<rparr>"

definition audit_entry :: "uuid \<Rightarrow> uuid \<Rightarrow> audit_action \<Rightarrow> string \<Rightarrow> uuid \<Rightarrow> audit_log" where
  "audit_entry userId enterpriseId action resource resourceId =
     \<lparr>audit_userId = Some userId, audit_enterpriseId = Some enterpriseId, audit_action = action,
      audit_resource = resource, audit_resourceId = Some resourceId, audit_reason = None\<rparr>"

section \<open>Quantities\<close>

record stock_group =
  group_productId :: uuid
  group_type :: stock_movement_type
  group_sum :: int

text \<open>\<open>groupBy(["productId", "type"], where, _sum)\<close>.\<close>

definition groupBy_product_type :: "uuid \<Rightarrow> uuid list \<Rightarrow> db \<Rightarrow> stock_group list" where
  "groupBy_product_type enterpriseId productIds s =
     (let rows = filter (\<lambda>m. movement_enterpriseId m = enterpriseId \<and> movement_productId m \<in> set productIds)
                   (stockMovements s);
          keys = remdups (map (\<lambda>m. (movement_productId m, movement_type m)) rows)
      in map (\<lambda>(p, t). \<lparr>group_productId = p, group_type = t,
                group_sum = (\<Sum>m\<leftarrow>filter (\<lambda>m. (movement_productId m, movement_type m) = (p, t)) rows.
                               movement_quantity m)\<rparr>) keys)"

text \<open>\<open>quantities.get(id) ?? 0\<close>.\<close>

definition quantity_of :: "(uuid \<rightharpoonup> int) \<Rightarrow> uuid \<Rightarrow> int" where
  "quantity_of quantities p = (case quantities p of None \<Rightarrow> 0 | Some q \<Rightarrow> q)"

definition aggregateQuantities :: "uuid \<Rightarrow> uuid list \<Rightarrow> db \<Rightarrow> (uuid \<rightharpoonup> int)" where
  "aggregateQuantities enterpriseId productIds s =
     (if productIds = [] then Map.empty
      else foldl (\<lambda>quantities g.
             let delta = (if group_type g = Mov_OUT then - group_sum g else group_sum g)
             in quantities(group_productId g \<mapsto> quantity_of quantities (group_productId g) + delta))
             Map.empty (groupBy_product_type enterpriseId productIds s))"

text \<open>The reference: the signed sum of the enterprise's movements of the product.\<close>

definition signed_quantity :: "stock_movement \<Rightarrow> int" where
  "signed_quantity m = (if movement_type m = Mov_OUT then - movement_quantity m else movement_quantity m)"

definition stock_on_hand :: "uuid \<Rightarrow> uuid \<Rightarrow> db \<Rightarrow> int" where
  "stock_on_hand e p s =
     (\<Sum>m\<leftarrow>filter (\<lambda>m. movement_enterpriseId m = e \<and> movement_productId m = p) (stockMovements s).
        signed_quantity m)"

section \<open>Creating a movement\<close>

record create_movement_input =
  input_productId :: uuid
  input_type :: stock_movement_type
  input_quantity :: int
  input_note :: "string option"

definition createStockMovementSchema :: "create_movement_input \<Rightarrow> bool" where
  "createStockMovementSchema v \<longleftrightarrow> input_note v \<noteq> Some [] \<and>
     (if input_type v = Mov_ADJUSTMENT then input_quantity v \<noteq> 0 else 0 < input_quantity v)"

record create_movement_result =
  result_movement :: stock_movement
  result_quantityOnHand :: int
  result_created :: bool

text \<open>\<open>tx.stockMovement.create\<close> with the table's primary key and \<open>@@unique([enterpriseId, idempotencyKey])\<close>.\<close>

definition stockMovement_create :: "stock_movement \<Rightarrow> (db, exn, stock_movement) txn" where
  "stockMovement_create m s =
     (if movement_id m \<in> movement_id ` set (stockMovements s) \<or>
         clashes_key movement_enterpriseId movement_idempotencyKey m (stockMovements s)
      then Inl (PrismaKnown P2002)
      else Inr (m, s\<lparr>stockMovements := stockMovements s @ [m]\<rparr>))"

definition stockMovement_findByKey :: "uuid \<Rightarrow> string option \<Rightarrow> db \<Rightarrow> stock_movement option" where
  "stockMovement_findByKey enterpriseId idempotencyKey s =
     List.find (\<lambda>m. movement_enterpriseId m = enterpriseId \<and> movement_idempotencyKey m = idempotencyKey)
       (stockMovements s)"

definition replayed_movement :: "uuid \<Rightarrow> stock_movement \<Rightarrow> db \<Rightarrow> create_movement_result" where
  "replayed_movement enterpriseId existing s =
     \<lparr>result_movement = existing,
      result_quantityOnHand =
        quantity_of (aggregateQuantities enterpriseId [movement_productId existing] s) (movement_productId existing),
      result_created = False\<rparr>"

definition applyMovement ::
    "bool \<Rightarrow> uuid \<Rightarrow> date \<Rightarrow> uuid \<Rightarrow> create_movement_input \<Rightarrow> string option \<Rightarrow> (db, exn, create_movement_result) txn" where
  "applyMovement alive newId now enterpriseId input idempotencyKey s =
     (case (if truthy idempotencyKey then stockMovement_findByKey enterpriseId idempotencyKey s else None) of
        Some existing \<Rightarrow> Inr (replayed_movement enterpriseId existing s, s)
      | None \<Rightarrow>
     (case find_by product_id (input_productId input) (products s) of
        None \<Rightarrow> Inl (NotFoundException ''Produit introuvable'')
      | Some product \<Rightarrow>
     if product_enterpriseId product \<noteq> enterpriseId then Inl (NotFoundException ''Produit introuvable'')
     else if \<not> product_trackStock product then Inl (BadRequestException ''Ce produit ne suit pas de stock'')
     else
     (let quantities = aggregateQuantities enterpriseId [input_productId input] s;
          currentQuantity = quantity_of quantities (input_productId input);
          delta = (if input_type input = Mov_OUT then - input_quantity input else input_quantity input);
          nextQuantity = currentQuantity + delta
      in if nextQuantity < 0 then Inl (ConflictException ''Stock insuffisant'')
         else (case stockMovement_create
                 \<lparr>movement_id = newId, movement_enterpriseId = enterpriseId,
                  movement_productId = input_productId input, movement_type = input_type input,
                  movement_quantity = input_quantity input, movement_note = input_note input,
                  movement_idempotencyKey = idempotencyKey, movement_createdAt = now\<rparr> s of
              Inr (movement, s') \<Rightarrow>
                Inr (\<lparr>result_movement = movement, result_quantityOnHand = nextQuantity, result_created = True\<rparr>, s')
            | Inl error \<Rightarrow>
                if truthy idempotencyKey \<and> error = PrismaKnown P2002 then
                  if \<not> alive then Inl PrismaUnknown
                  else (case stockMovement_findByKey enterpriseId idempotencyKey s of
                          Some existing \<Rightarrow> Inr (replayed_movement enterpriseId existing s, s)
                        | None \<Rightarrow> Inl error)
                else Inl error))))"

definition createMovement ::
    "tenant_store option \<Rightarrow> (nat \<Rightarrow> bool) \<Rightarrow> bool \<Rightarrow> uuid \<Rightarrow> date \<Rightarrow> uuid \<Rightarrow> create_movement_input \<Rightarrow>
     string option \<Rightarrow> db \<Rightarrow> (exn + create_movement_result) \<times> db" where
  "createMovement store abort alive newId now enterpriseId input idempotencyKey =
     serializable_409 ''Conflit de concurrence sur ce produit, veuillez reessayer'' store abort
       (applyMovement alive newId now enterpriseId input idempotencyKey)"

definition stock_createMovement ::
    "tenant_store option \<Rightarrow> (nat \<Rightarrow> bool) \<Rightarrow> bool \<Rightarrow> uuid \<Rightarrow> date \<Rightarrow> uuid \<Rightarrow> uuid \<Rightarrow> create_movement_input \<Rightarrow>
     string option \<Rightarrow> db \<Rightarrow> (exn + create_movement_result) \<times> db" where
  "stock_createMovement store abort alive newId now enterpriseId userId input idempotencyKey s =
     (case createMovement store abort alive newId now enterpriseId input idempotencyKey s of
        (Inl e, s') \<Rightarrow> (Inl e, s')
      | (Inr result, s') \<Rightarrow>
          (Inr result,
           if result_created result
           then auditLog_record (audit_entry userId enterpriseId CREATE_STOCK_MOVEMENT ''StockMovement''
                                   (movement_id (result_movement result))) s'
           else s'))"

section \<open>Reading\<close>

record stock_level =
  level_productId :: uuid
  level_code :: string
  level_name :: string
  level_unit :: string
  level_quantityOnHand :: int

definition stock_level_of :: "(uuid \<rightharpoonup> int) \<Rightarrow> product \<Rightarrow> stock_level" where
  "stock_level_of quantities product =
     \<lparr>level_productId = product_id product, level_code = product_code product,
      level_name = product_name product, level_unit = product_unit product,
      level_quantityOnHand = quantity_of quantities (product_id product)\<rparr>"

record list_stock_query =
  lsq_page :: nat
  lsq_pageSize :: nat
  lsq_search :: "string option"

definition stock_where :: "(string \<Rightarrow> string \<Rightarrow> bool) \<Rightarrow> uuid \<Rightarrow> string option \<Rightarrow> product \<Rightarrow> bool" where
  "stock_where ilike enterpriseId search p =
     (product_enterpriseId p = enterpriseId \<and> product_trackStock p \<and>
      (truthy search \<longrightarrow> ilike (product_name p) (the search) \<or> ilike (product_code p) (the search)))"

definition findLevels ::
    "(string \<Rightarrow> string \<Rightarrow> bool) \<Rightarrow> (string \<Rightarrow> 'k::linorder) \<Rightarrow> uuid \<Rightarrow> list_stock_query \<Rightarrow> db \<Rightarrow> stock_level page_result" where
  "findLevels ilike collate enterpriseId query s =
     (let matching = filter (stock_where ilike enterpriseId (lsq_search query)) (products s);
          found = page_rows (lsq_page query) (lsq_pageSize query)
                    (ascending (\<lambda>p. collate (product_name p)) matching);
          quantities = aggregateQuantities enterpriseId (map product_id found) s
      in \<lparr>result_items = map (stock_level_of quantities) found, result_total = length matching,
          result_page = lsq_page query, result_pageSize = lsq_pageSize query\<rparr>)"

definition findTrackedProductOrThrow :: "uuid \<Rightarrow> uuid \<Rightarrow> db \<Rightarrow> exn + product" where
  "findTrackedProductOrThrow enterpriseId productId s =
     (case find_by product_id productId (products s) of
        None \<Rightarrow> Inl (NotFoundException ''Produit introuvable ou ne suit pas de stock'')
      | Some product \<Rightarrow>
          if product_enterpriseId product \<noteq> enterpriseId \<or> \<not> product_trackStock product
          then Inl (NotFoundException ''Produit introuvable ou ne suit pas de stock'')
          else Inr product)"

definition getLevel :: "uuid \<Rightarrow> uuid \<Rightarrow> db \<Rightarrow> exn + stock_level" where
  "getLevel enterpriseId productId s =
     (case findTrackedProductOrThrow enterpriseId productId s of
        Inl e \<Rightarrow> Inl e
      | Inr product \<Rightarrow> Inr (stock_level_of (aggregateQuantities enterpriseId [productId] s) product))"

definition findMovements :: "uuid \<Rightarrow> uuid \<Rightarrow> nat \<Rightarrow> nat \<Rightarrow> db \<Rightarrow> exn + stock_movement page_result" where
  "findMovements enterpriseId productId page pageSize s =
     (case findTrackedProductOrThrow enterpriseId productId s of
        Inl e \<Rightarrow> Inl e
      | Inr product \<Rightarrow>
          (let matching = filter (\<lambda>m. movement_enterpriseId m = enterpriseId \<and> movement_productId m = productId)
                            (stockMovements s)
           in Inr \<lparr>result_items = page_rows page pageSize (descending movement_createdAt matching),
                   result_total = length matching, result_page = page, result_pageSize = pageSize\<rparr>))"

section \<open>The aggregate is the signed sum\<close>

definition group_delta :: "stock_group \<Rightarrow> int" where
  "group_delta g = (if group_type g = Mov_OUT then - group_sum g else group_sum g)"

lemma quantity_of_empty [simp]: "quantity_of Map.empty p = 0"
  by (simp add: quantity_of_def)

lemma quantity_of_accumulate:
  "quantity_of (foldl (\<lambda>quantities g.
       let delta = (if group_type g = Mov_OUT then - group_sum g else group_sum g)
       in quantities(group_productId g \<mapsto> quantity_of quantities (group_productId g) + delta)) m gs) p =
   quantity_of m p + (\<Sum>g\<leftarrow>gs. if group_productId g = p then group_delta g else 0)"
  by (induction gs arbitrary: m) (auto simp: quantity_of_def group_delta_def Let_def)

lemma group_delta_signed:
  "group_delta \<lparr>group_productId = p, group_type = t,
     group_sum = (\<Sum>m\<leftarrow>filter (\<lambda>m. (movement_productId m, movement_type m) = (p, t)) rows. movement_quantity m)\<rparr> =
   (\<Sum>m\<leftarrow>filter (\<lambda>m. (movement_productId m, movement_type m) = (p, t)) rows. signed_quantity m)"
  by (induction rows) (auto simp: group_delta_def signed_quantity_def)

lemma quantity_of_aggregate:
  "quantity_of (aggregateQuantities e ids s) p = (if p \<in> set ids then stock_on_hand e p s else 0)"
proof (cases "ids = []")
  case True
  then show ?thesis by (simp add: aggregateQuantities_def quantity_of_def)
next
  case False
  define rows where "rows = filter (\<lambda>m. movement_enterpriseId m = e \<and> movement_productId m \<in> set ids) (stockMovements s)"
  define key where "key = (\<lambda>m :: stock_movement. (movement_productId m, movement_type m))"
  define f where "f = (\<lambda>m :: stock_movement. if movement_productId m = p then signed_quantity m else 0)"
  have g: "(if q = p then group_delta \<lparr>group_productId = q, group_type = t,
      group_sum = (\<Sum>m\<leftarrow>filter (\<lambda>m. (movement_productId m, movement_type m) = (q, t)) rows. movement_quantity m)\<rparr> else 0) =
      (\<Sum>m\<leftarrow>filter (\<lambda>m. key m = (q, t)) rows. f m)" for q t
    unfolding group_delta_signed key_def f_def by (induction rows) auto
  have "quantity_of (aggregateQuantities e ids s) p =
      (\<Sum>g\<leftarrow>groupBy_product_type e ids s. if group_productId g = p then group_delta g else 0)"
    using False by (simp only: aggregateQuantities_def quantity_of_accumulate quantity_of_empty if_False add_0)
  also have "\<dots> = (\<Sum>k\<leftarrow>remdups (map key rows). \<Sum>m\<leftarrow>filter (\<lambda>m. key m = k) rows. f m)"
    unfolding groupBy_product_type_def Let_def rows_def[symmetric] key_def[symmetric] map_map
  proof (intro arg_cong[where f = sum_list] map_cong refl)
    fix k :: "uuid \<times> stock_movement_type"
    obtain q t where "k = (q, t)" by (cases k)
    then show "((\<lambda>g. if group_productId g = p then group_delta g else 0) \<circ>
        (\<lambda>(p, t). \<lparr>group_productId = p, group_type = t,
          group_sum = (\<Sum>m\<leftarrow>filter (\<lambda>m. (movement_productId m, movement_type m) = (p, t)) rows. movement_quantity m)\<rparr>)) k =
        (\<Sum>m\<leftarrow>filter (\<lambda>m. key m = k) rows. f m)"
      using g[of q t] by (simp only: o_apply case_prod_conv stock_group.simps)
  qed
  also have "\<dots> = (\<Sum>m\<leftarrow>rows. f m)" by (rule sum_groups)
  also have "\<dots> = (if p \<in> set ids then stock_on_hand e p s else 0)"
  proof -
    have "(\<Sum>m\<leftarrow>filter (\<lambda>m. movement_enterpriseId m = e \<and> movement_productId m \<in> set ids) ms. f m) =
      (if p \<in> set ids then \<Sum>m\<leftarrow>filter (\<lambda>m. movement_enterpriseId m = e \<and> movement_productId m = p) ms.
        signed_quantity m else 0)" for ms
      by (induction ms) (auto simp: f_def)
    then show ?thesis unfolding rows_def stock_on_hand_def .
  qed
  finally show ?thesis .
qed

section \<open>What \<open>applyMovement\<close> promises\<close>

definition movement_delta :: "create_movement_input \<Rightarrow> int" where
  "movement_delta i = (if input_type i = Mov_OUT then - input_quantity i else input_quantity i)"

definition new_movement :: "uuid \<Rightarrow> date \<Rightarrow> uuid \<Rightarrow> create_movement_input \<Rightarrow> string option \<Rightarrow> stock_movement" where
  "new_movement newId now e i k =
     \<lparr>movement_id = newId, movement_enterpriseId = e, movement_productId = input_productId i,
      movement_type = input_type i, movement_quantity = input_quantity i, movement_note = input_note i,
      movement_idempotencyKey = k, movement_createdAt = now\<rparr>"

lemma new_movement_simps [simp]:
  "movement_id (new_movement n now e i k) = n"
  "movement_enterpriseId (new_movement n now e i k) = e"
  "movement_productId (new_movement n now e i k) = input_productId i"
  "movement_idempotencyKey (new_movement n now e i k) = k"
  "signed_quantity (new_movement n now e i k) = movement_delta i"
  by (simp_all add: new_movement_def signed_quantity_def movement_delta_def)

definition tracked :: "uuid \<Rightarrow> uuid \<Rightarrow> db \<Rightarrow> bool" where
  "tracked e p s = (case find_by product_id p (products s) of
     None \<Rightarrow> False | Some product \<Rightarrow> product_enterpriseId product = e \<and> product_trackStock product)"

lemma stock_on_hand_append:
  "stock_on_hand e p (s\<lparr>stockMovements := stockMovements s @ [m]\<rparr>) =
   stock_on_hand e p s + (if movement_enterpriseId m = e \<and> movement_productId m = p then signed_quantity m else 0)"
  by (simp add: stock_on_hand_def)

lemma stockMovement_findByKey_SomeD:
  "stockMovement_findByKey e k s = Some m \<Longrightarrow>
   m \<in> set (stockMovements s) \<and> movement_enterpriseId m = e \<and> movement_idempotencyKey m = k"
  by (auto simp: stockMovement_findByKey_def find_Some_iff)

lemma stockMovement_findByKey_None_iff:
  "stockMovement_findByKey e k s = None \<longleftrightarrow>
   (\<forall>m\<in>set (stockMovements s). movement_enterpriseId m = e \<longrightarrow> movement_idempotencyKey m \<noteq> k)"
  by (auto simp: stockMovement_findByKey_def find_None_iff)

text \<open>
  The whole method as a decision list over the reference quantity: replay, unknown or foreign
  product, untracked product, shortage, collision in the table, insertion.
\<close>

lemma applyMovement_eq:
  "applyMovement alive newId now e i k s =
   (if truthy k \<and> stockMovement_findByKey e k s \<noteq> None
    then (let m = the (stockMovement_findByKey e k s)
          in Inr (\<lparr>result_movement = m, result_quantityOnHand = stock_on_hand e (movement_productId m) s,
                   result_created = False\<rparr>, s))
    else if find_by product_id (input_productId i) (products s) = None \<or>
            product_enterpriseId (the (find_by product_id (input_productId i) (products s))) \<noteq> e
    then Inl (NotFoundException ''Produit introuvable'')
    else if \<not> tracked e (input_productId i) s then Inl (BadRequestException ''Ce produit ne suit pas de stock'')
    else if stock_on_hand e (input_productId i) s + movement_delta i < 0
    then Inl (ConflictException ''Stock insuffisant'')
    else if newId \<in> movement_id ` set (stockMovements s) \<or>
            clashes_key movement_enterpriseId movement_idempotencyKey (new_movement newId now e i k) (stockMovements s)
    then Inl (if truthy k \<and> \<not> alive then PrismaUnknown else PrismaKnown P2002)
    else Inr (\<lparr>result_movement = new_movement newId now e i k,
               result_quantityOnHand = stock_on_hand e (input_productId i) s + movement_delta i,
               result_created = True\<rparr>,
              s\<lparr>stockMovements := stockMovements s @ [new_movement newId now e i k]\<rparr>))"
proof (cases "truthy k \<and> stockMovement_findByKey e k s \<noteq> None")
  case True
  then show ?thesis
    by (auto simp: applyMovement_def replayed_movement_def quantity_of_aggregate)
next
  case False
  then have n: "(if truthy k then stockMovement_findByKey e k s else None) = None" by auto
  show ?thesis
    using False unfolding applyMovement_def n option.case(1)
    by (cases "find_by product_id (input_productId i) (products s)")
      (auto simp: tracked_def quantity_of_aggregate movement_delta_def Let_def stockMovement_create_def
        new_movement_def[symmetric] split: sum.splits option.splits)
qed

text \<open>Posting on behalf of a document: no idempotency key, only the new database matters.\<close>

definition post_movement :: "bool \<Rightarrow> date \<Rightarrow> uuid \<Rightarrow> db \<Rightarrow> uuid \<times> create_movement_input \<Rightarrow> exn + db" where
  "post_movement alive now e s p = (case applyMovement alive (fst p) now e (snd p) None s of
     Inl err \<Rightarrow> Inl err | Inr (r, s') \<Rightarrow> Inr s')"

lemma post_movement_eq:
  "post_movement alive now e s (newId, i) =
   (if find_by product_id (input_productId i) (products s) = None \<or>
            product_enterpriseId (the (find_by product_id (input_productId i) (products s))) \<noteq> e
    then Inl (NotFoundException ''Produit introuvable'')
    else if \<not> tracked e (input_productId i) s then Inl (BadRequestException ''Ce produit ne suit pas de stock'')
    else if stock_on_hand e (input_productId i) s + movement_delta i < 0
    then Inl (ConflictException ''Stock insuffisant'')
    else if newId \<in> movement_id ` set (stockMovements s) then Inl (PrismaKnown P2002)
    else Inr (s\<lparr>stockMovements := stockMovements s @ [new_movement newId now e i None]\<rparr>))"
  by (simp add: post_movement_def applyMovement_eq clashes_key_def)

lemma tracked_SomeD:
  "tracked e p s \<Longrightarrow> \<exists>pr. find_by product_id p (products s) = Some pr \<and> product_enterpriseId pr = e \<and> product_trackStock pr"
  by (auto simp: tracked_def split: option.splits)

interpretation stock_ledger:
  movement_ledger "post_movement alive now e" "\<lambda>s p. stock_on_hand e p s" "\<lambda>m. input_productId (snd m)"
    "\<lambda>m. movement_delta (snd m)" fst "\<lambda>s m. tracked e (input_productId (snd m)) s"
    "\<lambda>s i. i \<notin> movement_id ` set (stockMovements s)" "ConflictException ''Stock insuffisant''"
  for alive now e
proof unfold_locales
  fix s :: db and m :: "uuid \<times> create_movement_input" and s' p i m'
  obtain newId inp where m: "m = (newId, inp)" by (cases m)
  show "tracked e (input_productId (snd m)) s \<Longrightarrow> fst m \<notin> movement_id ` set (stockMovements s) \<Longrightarrow>
      0 \<le> stock_on_hand e (input_productId (snd m)) s + movement_delta (snd m) \<Longrightarrow>
      \<exists>s'. post_movement alive now e s m = Inr s'"
    by (auto simp: m post_movement_eq dest!: tracked_SomeD)
  show "tracked e (input_productId (snd m)) s \<Longrightarrow>
      stock_on_hand e (input_productId (snd m)) s + movement_delta (snd m) < 0 \<Longrightarrow>
      post_movement alive now e s m = Inl (ConflictException ''Stock insuffisant'')"
    using tracked_SomeD[of e "input_productId inp" s] by (auto simp: m post_movement_eq)
  assume p: "post_movement alive now e s m = Inr s'"
  then have s': "s' = s\<lparr>stockMovements := stockMovements s @ [new_movement newId now e inp None]\<rparr>"
    and c: "tracked e (input_productId inp) s" "newId \<notin> movement_id ` set (stockMovements s)"
      "0 \<le> stock_on_hand e (input_productId inp) s + movement_delta inp"
    by (auto simp: m post_movement_eq split: if_splits)
  show "tracked e (input_productId (snd m)) s \<and> fst m \<notin> movement_id ` set (stockMovements s) \<and>
      0 \<le> stock_on_hand e (input_productId (snd m)) s + movement_delta (snd m)"
    using c by (simp add: m)
  show "stock_on_hand e p s' = stock_on_hand e p s +
      (if p = input_productId (snd m) then movement_delta (snd m) else 0)"
    by (simp add: s' m stock_on_hand_append)
  show "tracked e (input_productId (snd m')) s' = tracked e (input_productId (snd m')) s"
    by (simp add: s' tracked_def)
  show "(i \<notin> movement_id ` set (stockMovements s')) \<longleftrightarrow>
      i \<notin> movement_id ` set (stockMovements s) \<and> i \<noteq> fst m"
    by (auto simp: s' m)
qed

text \<open>The movements a successful series of postings leaves behind, in order.\<close>

definition posted :: "date \<Rightarrow> uuid \<Rightarrow> (uuid \<times> create_movement_input) list \<Rightarrow> stock_movement list" where
  "posted now e ms = map (\<lambda>m. new_movement (fst m) now e (snd m) None) ms"

lemma post_movement_InrD:
  "post_movement alive now e s m = Inr s' \<Longrightarrow>
   s' = s\<lparr>stockMovements := stockMovements s @ [new_movement (fst m) now e (snd m) None]\<rparr>"
  by (cases m) (auto simp: post_movement_eq split: if_splits)

lemma posts_append:
  "sum_foldM (post_movement alive now e) s ms = Inr s' \<Longrightarrow>
   s' = s\<lparr>stockMovements := stockMovements s @ posted now e ms\<rparr>"
proof (induction ms arbitrary: s)
  case Nil
  then show ?case by (simp add: posted_def)
next
  case (Cons m ms)
  then obtain s1 where s1: "post_movement alive now e s m = Inr s1"
    and r: "sum_foldM (post_movement alive now e) s1 ms = Inr s'" by (auto split: sum.splits)
  from Cons.IH[OF r] post_movement_InrD[OF s1] show ?case by (simp add: posted_def)
qed

lemma posts_not_P2034: "sum_foldM (post_movement alive now e) s ms \<noteq> Inl (PrismaKnown P2034)"
  by (induction ms arbitrary: s) (auto simp: post_movement_eq split: sum.splits if_splits)

lemma stock_on_hand_other:
  "e' \<noteq> e \<Longrightarrow> stock_on_hand e' p (s\<lparr>stockMovements := stockMovements s @ posted now e ms\<rparr>) = stock_on_hand e' p s"
  by (induction ms) (auto simp: stock_on_hand_def posted_def)

section \<open>Invariants of the ledger\<close>

definition movements_wf :: "db \<Rightarrow> bool" where
  "movements_wf s \<longleftrightarrow> distinct (map movement_id (stockMovements s)) \<and>
     unique_key movement_enterpriseId movement_idempotencyKey (stockMovements s)"

definition stock_nonneg :: "db \<Rightarrow> bool" where
  "stock_nonneg s \<longleftrightarrow>
     (\<forall>m\<in>set (stockMovements s). 0 \<le> stock_on_hand (movement_enterpriseId m) (movement_productId m) s)"

lemma stock_on_hand_no_movement:
  "\<forall>m\<in>set (stockMovements s). \<not> (movement_enterpriseId m = e \<and> movement_productId m = p) \<Longrightarrow>
   stock_on_hand e p s = 0"
proof -
  assume "\<forall>m\<in>set (stockMovements s). \<not> (movement_enterpriseId m = e \<and> movement_productId m = p)"
  then have "filter (\<lambda>m. movement_enterpriseId m = e \<and> movement_productId m = p) (stockMovements s) = []"
    by (simp add: filter_empty_conv)
  then show ?thesis by (simp add: stock_on_hand_def)
qed

lemma stock_nonneg_iff: "stock_nonneg s \<longleftrightarrow> (\<forall>e p. 0 \<le> stock_on_hand e p s)"
proof
  assume n: "stock_nonneg s"
  show "\<forall>e p. 0 \<le> stock_on_hand e p s"
  proof (intro allI)
    fix e p
    show "0 \<le> stock_on_hand e p s"
    proof (cases "\<exists>m\<in>set (stockMovements s). movement_enterpriseId m = e \<and> movement_productId m = p")
      case True
      with n show ?thesis by (auto simp: stock_nonneg_def)
    next
      case False
      then show ?thesis by (simp add: stock_on_hand_no_movement)
    qed
  qed
qed (simp add: stock_nonneg_def)

text \<open>A successful \<open>applyMovement\<close> either replays an old movement or appends one.\<close>

lemma applyMovement_InrE:
  assumes "applyMovement alive newId now e i k s = Inr (r, s')"
  obtains (replay) m where "truthy k" "stockMovement_findByKey e k s = Some m" "s' = s"
      "r = \<lparr>result_movement = m, result_quantityOnHand = stock_on_hand e (movement_productId m) s,
            result_created = False\<rparr>"
  | (insert) "\<not> (truthy k \<and> stockMovement_findByKey e k s \<noteq> None)" "tracked e (input_productId i) s"
      "0 \<le> stock_on_hand e (input_productId i) s + movement_delta i"
      "newId \<notin> movement_id ` set (stockMovements s)"
      "\<not> clashes_key movement_enterpriseId movement_idempotencyKey (new_movement newId now e i k) (stockMovements s)"
      "r = \<lparr>result_movement = new_movement newId now e i k,
            result_quantityOnHand = stock_on_hand e (input_productId i) s + movement_delta i,
            result_created = True\<rparr>"
      "s' = s\<lparr>stockMovements := stockMovements s @ [new_movement newId now e i k]\<rparr>"
proof (cases "truthy k \<and> stockMovement_findByKey e k s \<noteq> None")
  case True
  with assms show thesis by (auto simp: applyMovement_eq Let_def intro!: replay)
next
  case False
  with assms show thesis by (auto simp: applyMovement_eq split: if_splits intro!: insert)
qed

lemma posts_invariants:
  assumes "sum_foldM (post_movement alive now e) s ms = Inr s'"
  shows "movements_wf s \<Longrightarrow> movements_wf s'" and "stock_nonneg s \<Longrightarrow> stock_nonneg s'"
proof -
  assume w: "movements_wf s"
  show "movements_wf s'"
  proof (rule sum_foldM_invariant[OF assms, where P = movements_wf, OF w])
    fix s x s' assume "movements_wf s" and p: "post_movement alive now e s x = Inr s'"
    moreover have "fst x \<notin> movement_id ` set (stockMovements s)" using stock_ledger.post_requires[OF p] by simp
    ultimately show "movements_wf s'"
      by (auto simp: movements_wf_def unique_key_append1 clashes_key_def dest!: post_movement_InrD)
  qed
next
  assume "stock_nonneg s"
  then show "stock_nonneg s'"
    using stock_ledger.posts_nonneg[OF assms] posts_append[OF assms] stock_on_hand_other
    unfolding stock_nonneg_iff by metis
qed

lemma applyMovement_not_P2034: "applyMovement alive newId now e i k s \<noteq> Inl (PrismaKnown P2034)"
  by (simp add: applyMovement_eq Let_def)

lemma applyMovement_invariants:
  assumes "applyMovement alive newId now e i k s = Inr (r, s')"
  shows "movements_wf s \<Longrightarrow> movements_wf s'" and "stock_nonneg s \<Longrightarrow> stock_nonneg s'"
  using assms
  by (elim applyMovement_InrE; simp add: movements_wf_def unique_key_append1 stock_nonneg_iff stock_on_hand_append)+

lemma createMovement_eq:
  "createMovement (Some st) abort alive newId now e i k s =
   (if abort 1 \<and> abort 2 \<and> abort 3
    then (Inl (ConflictException ''Conflit de concurrence sur ce produit, veuillez reessayer''), s)
    else commit_txn (applyMovement alive newId now e i k) s)"
  unfolding createMovement_def by (rule serializable_409_eq) (rule applyMovement_not_P2034)

lemma createMovement_None:
  "createMovement None abort alive newId now e i k s =
   (Inl (JsError ''Aucun TenantContext actif : cette operation doit s'executer dans une requete authentifiee''), s)"
  by (simp add: createMovement_def serializable_409_None)

lemma createMovement_InrD:
  assumes "createMovement store abort alive newId now e i k s = (Inr r, s')"
  shows "applyMovement alive newId now e i k s = Inr (r, s')"
  using assms by (cases store) (auto simp: createMovement_eq createMovement_None commit_txn_InrD split: if_splits)

lemma createMovement_InlD:
  assumes "createMovement store abort alive newId now e i k s = (Inl err, s')"
  shows "s' = s"
  using assms by (cases store) (auto simp: createMovement_eq createMovement_None commit_txn_InlD split: if_splits)

lemma auditLog_record_simps [simp]:
  "stockMovements (auditLog_record a s) = stockMovements s" "products (auditLog_record a s) = products s"
  "stock_on_hand e p (auditLog_record a s) = stock_on_hand e p s"
  "owned_product e p (auditLog_record a s) = owned_product e p s"
  "owned_customer e p (auditLog_record a s) = owned_customer e p s"
  "owned_supplier e p (auditLog_record a s) = owned_supplier e p s"
  "owned_account e p (auditLog_record a s) = owned_account e p s"
  by (simp_all add: auditLog_record_def stock_on_hand_def)

section \<open>Properties\<close>

text \<open>
  C22. Every level the stock page lists is the signed sum of the enterprise's movements of that
  product (entries and corrections added, exits subtracted): the grouped aggregate of the code is
  the ledger's balance, on every page and for every search.
\<close>

theorem levels_are_ledger_balances:
  "\<forall>l\<in>set (result_items (findLevels ilike collate e query s)).
     level_quantityOnHand l = stock_on_hand e (level_productId l) s \<and>
     (\<exists>p\<in>set (products s). product_id p = level_productId l \<and> product_enterpriseId p = e \<and> product_trackStock p)"
proof -
  have "set (page_rows n k (ascending (\<lambda>p. collate (product_name p)) (filter P (products s)))) \<subseteq>
      {p \<in> set (products s). P p}" for n k P
    using set_page_rows by fastforce
  then show ?thesis
    by (fastforce simp: findLevels_def Let_def stock_level_of_def quantity_of_aggregate stock_where_def)
qed

lemma levels_are_ledger_balances_witness:
  "let ls = result_items (findLevels (\<lambda>h n. True) length ''e1'' \<lparr>lsq_page = 1, lsq_pageSize = 5, lsq_search = None\<rparr> fx_db)
   in (\<forall>l\<in>set ls. level_quantityOnHand l = stock_on_hand ''e1'' (level_productId l) fx_db \<and>
        (\<exists>p\<in>set (products fx_db). product_id p = level_productId l \<and> product_enterpriseId p = ''e1'' \<and> product_trackStock p)) \<and>
      map (\<lambda>l. (level_productId l, level_quantityOnHand l)) ls = [(''p1'', 10)]"
  unfolding Let_def
proof
  show "map (\<lambda>l. (level_productId l, level_quantityOnHand l))
      (result_items (findLevels (\<lambda>h n. True) length ''e1'' \<lparr>lsq_page = 1, lsq_pageSize = 5, lsq_search = None\<rparr> fx_db)) =
      [(''p1'', 10)]"
    by code_simp
qed (rule levels_are_ledger_balances)

text \<open>
  C1. Posting a movement: on any error nothing changes; on a replay nothing changes; otherwise the
  returned quantity is the new balance, it is not negative, it differs from the old one by exactly
  the movement, and the balance of every other product and of every other enterprise is untouched.
\<close>

theorem createMovement_effect:
  assumes "stock_createMovement store abort alive newId now e u i k s = (res, s')"
  shows "case res of
      Inl err \<Rightarrow> s' = s
    | Inr r \<Rightarrow>
        if result_created r
        then result_quantityOnHand r = stock_on_hand e (input_productId i) s' \<and>
             0 \<le> result_quantityOnHand r \<and>
             (\<forall>e' p. stock_on_hand e' p s' = stock_on_hand e' p s +
                (if e' = e \<and> p = input_productId i then movement_delta i else 0))
        else s' = s \<and> result_movement r \<in> set (stockMovements s) \<and>
             movement_idempotencyKey (result_movement r) = k"
proof (cases res)
  case (Inl err)
  then show ?thesis using assms createMovement_InlD
    by (fastforce simp: stock_createMovement_def split: prod.splits sum.splits)
next
  case (Inr r)
  then obtain s1 where c: "createMovement store abort alive newId now e i k s = (Inr r, s1)"
    and s': "s' = (if result_created r then auditLog_record (audit_entry u e CREATE_STOCK_MOVEMENT ''StockMovement''
               (movement_id (result_movement r))) s1 else s1)"
    using assms by (auto simp: stock_createMovement_def split: prod.splits sum.splits)
  from createMovement_InrD[OF c] show ?thesis
    by (elim applyMovement_InrE)
      (auto simp: Inr s' stock_on_hand_append dest: stockMovement_findByKey_SomeD)
qed

definition fx_movement_run :: "(exn + create_movement_result) \<times> db" where
  "fx_movement_run = stock_createMovement fx_store (\<lambda>i. i = 1) False ''m1'' 1 ''e1'' ''u1''
     \<lparr>input_productId = ''p1'', input_type = Mov_OUT, input_quantity = 4, input_note = None\<rparr> (Some ''k1'') fx_db"

lemma createMovement_effect_witness:
  "(case fst fx_movement_run of Inl err \<Rightarrow> False
    | Inr r \<Rightarrow> result_created r \<and> result_quantityOnHand r = stock_on_hand ''e1'' ''p1'' (snd fx_movement_run)) \<and>
   stock_on_hand ''e1'' ''p1'' (snd fx_movement_run) = 6"
proof -
  have "stock_on_hand ''e1'' ''p1'' (snd fx_movement_run) = 6"
    and "case fst fx_movement_run of Inl err \<Rightarrow> False | Inr r \<Rightarrow> result_created r"
    by code_simp+
  moreover note createMovement_effect[OF trans[OF fx_movement_run_def[symmetric] surjective_pairing]]
  ultimately show ?thesis by (cases "fst fx_movement_run") auto
qed

text \<open>
  The offline queue may send the same movement any number of times: once a request with a
  non-empty key has been answered by a creation, every later request of that enterprise with the key
  (whatever its body) gets that same movement back, is flagged as not created and changes nothing.
\<close>

theorem createMovement_replay:
  assumes "stock_createMovement store abort alive newId now e u i (Some k) s = (Inr r, s')"
    and "result_created r" and "k \<noteq> []" and "\<not> (abort' 1 \<and> abort' 2 \<and> abort' 3)"
  shows "\<exists>r'. stock_createMovement (Some st) abort' alive' newId' now' e u' i' (Some k) s' = (Inr r', s') \<and>
           result_movement r' = result_movement r \<and> \<not> result_created r'"
proof -
  obtain s1 where c: "createMovement store abort alive newId now e i (Some k) s = (Inr r, s1)"
    and s': "s' = auditLog_record (audit_entry u e CREATE_STOCK_MOVEMENT ''StockMovement''
               (movement_id (result_movement r))) s1"
    using assms(1,2) by (auto simp: stock_createMovement_def split: prod.splits sum.splits)
  from createMovement_InrD[OF c] assms(2,3)
  have f: "stockMovement_findByKey e (Some k) s' = Some (result_movement r)"
    by (elim applyMovement_InrE)
      (auto simp: s' stockMovement_findByKey_def auditLog_record_def find_append_last)
  have "applyMovement alive' newId' now' e i' (Some k) s' =
      Inr (\<lparr>result_movement = result_movement r,
            result_quantityOnHand = stock_on_hand e (movement_productId (result_movement r)) s',
            result_created = False\<rparr>, s')"
    using f assms(3) by (simp add: applyMovement_eq Let_def)
  then show ?thesis using assms(4)
    by (auto simp: stock_createMovement_def createMovement_eq commit_txn_Inr)
qed

lemma createMovement_replay_witness:
  "\<exists>r r'. fst fx_movement_run = Inr r \<and>
     fst (stock_createMovement fx_store (\<lambda>i. i = 2) False ''m9'' 7 ''e1'' ''u1''
        \<lparr>input_productId = ''p2'', input_type = Mov_OUT, input_quantity = 99, input_note = None\<rparr>
        (Some ''k1'') (snd fx_movement_run)) = Inr r' \<and>
     result_movement r' = result_movement r \<and> \<not> result_created r'"
proof -
  have c: "case fst fx_movement_run of Inl err \<Rightarrow> False | Inr r \<Rightarrow> result_created r" by code_simp
  then obtain r where r: "fst fx_movement_run = Inr r" "result_created r" by (auto split: sum.splits)
  have run: "stock_createMovement fx_store (\<lambda>i. i = 1) False ''m1'' 1 ''e1'' ''u1''
     \<lparr>input_productId = ''p1'', input_type = Mov_OUT, input_quantity = 4, input_note = None\<rparr> (Some ''k1'') fx_db =
     (Inr r, snd fx_movement_run)"
    using r(1) by (simp add: fx_movement_run_def prod_eq_iff)
  have "\<exists>r'. stock_createMovement fx_store (\<lambda>i. i = 2) False ''m9'' 7 ''e1'' ''u1''
        \<lparr>input_productId = ''p2'', input_type = Mov_OUT, input_quantity = 99, input_note = None\<rparr>
        (Some ''k1'') (snd fx_movement_run) = (Inr r', snd fx_movement_run) \<and>
      result_movement r' = result_movement r \<and> \<not> result_created r'"
    unfolding fx_store_def by (rule createMovement_replay[OF run r(2)]) simp_all
  then show ?thesis using r(1) by auto
qed

end
