(* ===== verification/Entitlements.thy ===== *)
theory Entitlements
  imports Stock "HOL-Library.AList"
begin

text \<open>
  apps/api/src/entitlements: what an enterprise's plan entitles it to, resolved from the database
  under the tenant's row level security and kept in a per-process cache bounded in age (TTL) and in
  size (eviction of the first key), and the three guards that read it. The JavaScript \<open>Map\<close> of the
  cache is an association list in insertion order: \<open>set\<close> on a key that is present keeps its position
  (\<open>AList.update\<close>). A request suspends at the database read, so \<open>getCurrent\<close> takes what the rest of
  the process does to the cache and to the database meanwhile.
\<close>

section \<open>Statuses\<close>

instantiation subscription_status :: enum
begin

definition "enum_subscription_status = [Sub_TRIAL, Sub_ACTIVE, Sub_PAST_DUE, Sub_SUSPENDED, Sub_CANCELLED, Sub_EXPIRED]"

definition "enum_all_subscription_status P \<longleftrightarrow>
  P Sub_TRIAL \<and> P Sub_ACTIVE \<and> P Sub_PAST_DUE \<and> P Sub_SUSPENDED \<and> P Sub_CANCELLED \<and> P Sub_EXPIRED"

definition "enum_ex_subscription_status P \<longleftrightarrow>
  P Sub_TRIAL \<or> P Sub_ACTIVE \<or> P Sub_PAST_DUE \<or> P Sub_SUSPENDED \<or> P Sub_CANCELLED \<or> P Sub_EXPIRED"

instance
proof
  show univ: "(UNIV :: subscription_status set) = set enum_class.enum"
    using subscription_status.exhaust by (auto simp: enum_subscription_status_def)
  show "distinct (enum_class.enum :: subscription_status list)" by (simp add: enum_subscription_status_def)
  show "enum_class.enum_all P \<longleftrightarrow> Ball UNIV P" for P :: "subscription_status \<Rightarrow> bool"
    unfolding univ by (simp add: enum_all_subscription_status_def enum_subscription_status_def)
  show "enum_class.enum_ex P \<longleftrightarrow> Bex UNIV P" for P :: "subscription_status \<Rightarrow> bool"
    unfolding univ by (simp add: enum_ex_subscription_status_def enum_subscription_status_def)
qed

end

section \<open>Resolution\<close>

record entitlements =
  entl_subscriptionStatus :: "subscription_status option"
  entl_planCode :: "string option"
  entl_features :: "string list"
  entl_limits :: "(string \<times> int option) list"

definition NO_SUBSCRIPTION :: entitlements where
  "NO_SUBSCRIPTION = \<lparr>entl_subscriptionStatus = None, entl_planCode = None, entl_features = [], entl_limits = []\<rparr>"

text \<open>\<open>include: \{ currentSubscription: \{ include: \{ plan \} \} \}\<close>: the plan is a required relation.\<close>

definition current_subscription :: "enterprise \<Rightarrow> db \<Rightarrow> exn + (subscription \<times> plan) option" where
  "current_subscription enterprise s =
     (case ent_currentSubscriptionId enterprise of
        None \<Rightarrow> Inr None
      | Some i \<Rightarrow> (case find_by subscription_id i (subscriptions s) of
          None \<Rightarrow> Inr None
        | Some subscription \<Rightarrow> (case find_by plan_id (subscription_planId subscription) (plans s) of
            None \<Rightarrow> Inl PrismaUnknown
          | Some plan \<Rightarrow> Inr (Some (subscription, plan)))))"

definition entitlements_of :: "subscription \<Rightarrow> plan \<Rightarrow> entitlements" where
  "entitlements_of subscription plan =
     \<lparr>entl_subscriptionStatus = Some (subscription_status subscription), entl_planCode = Some (plan_code plan),
      entl_features = js_set (map fst (filter snd (plan_features plan))),
      entl_limits = foldl (\<lambda>m (k, v). AList.update k v m) [] (plan_limits plan)\<rparr>"

definition entitlements_resolve :: "uuid \<Rightarrow> db \<Rightarrow> exn + entitlements" where
  "entitlements_resolve tenantId s =
     (let t = rls tenantId s
      in case find_by ent_id tenantId (enterprises t) of
           None \<Rightarrow> Inr NO_SUBSCRIPTION
         | Some enterprise \<Rightarrow> (case current_subscription enterprise t of
             Inl e \<Rightarrow> Inl e
           | Inr None \<Rightarrow> Inr NO_SUBSCRIPTION
           | Inr (Some (subscription, plan)) \<Rightarrow> Inr (entitlements_of subscription plan)))"

section \<open>The cache\<close>

record cache_entry =
  ce_value :: entitlements
  ce_expiresAt :: int

type_synonym entitlements_cache = "(uuid \<times> cache_entry) list"

definition cache_invalidate :: "uuid \<Rightarrow> entitlements_cache \<Rightarrow> entitlements_cache" where
  "cache_invalidate tenantId cache = AList.delete tenantId cache"

definition cache_store :: "nat \<Rightarrow> uuid \<Rightarrow> cache_entry \<Rightarrow> entitlements_cache \<Rightarrow> entitlements_cache" where
  "cache_store maxEntries tenantId entry cache =
     AList.update tenantId entry
       (if maxEntries \<le> length cache
        then (case cache of [] \<Rightarrow> [] | (oldestKey, _) # _ \<Rightarrow> AList.delete oldestKey cache)
        else cache)"

text \<open>
  \<open>getCurrent\<close>: the part before the database read, and the whole. \<open>others\<close> is what happens to the
  cache and the database while the request waits; \<open>now'\<close> is the time when it resumes.
\<close>

definition cache_lookup :: "int \<Rightarrow> uuid \<Rightarrow> entitlements_cache \<Rightarrow> (entitlements \<times> entitlements_cache) option" where
  "cache_lookup now tenantId cache = (case map_of cache tenantId of
     None \<Rightarrow> None
   | Some cached \<Rightarrow>
       if now < ce_expiresAt cached
       then Some (ce_value cached, AList.update tenantId cached (AList.delete tenantId cache))
       else None)"

definition entitlements_getCurrent ::
    "int \<Rightarrow> nat \<Rightarrow> tenant_store option \<Rightarrow> int \<Rightarrow> int \<Rightarrow> (entitlements_cache \<Rightarrow> entitlements_cache) \<Rightarrow> db \<Rightarrow>
     entitlements_cache \<Rightarrow> (exn + entitlements) \<times> entitlements_cache" where
  "entitlements_getCurrent ttl maxEntries store now now' others s cache =
     (case getRequiredTenantId store of
        Inl e \<Rightarrow> (Inl e, cache)
      | Inr tenantId \<Rightarrow> (case cache_lookup now tenantId cache of
          Some (v, cache') \<Rightarrow> (Inr v, cache')
        | None \<Rightarrow> (case entitlements_resolve tenantId s of
            Inl e \<Rightarrow> (Inl e, others cache)
          | Inr v \<Rightarrow>
              (Inr v, if 0 < ttl
                 then cache_store maxEntries tenantId \<lparr>ce_value = v, ce_expiresAt = now' + ttl\<rparr> (others cache)
                 else others cache))))"

section \<open>Guards\<close>

text \<open>
  A guard reads the decorator's metadata first and calls \<open>getCurrent\<close> only when it needs it: \<open>cur\<close>
  is that call's outcome. \<open>Inr ()\<close> is \<open>true\<close>.
\<close>

definition FeatureGuard_canActivate :: "string option \<Rightarrow> exn + entitlements \<Rightarrow> exn + unit" where
  "FeatureGuard_canActivate required cur =
     (if \<not> truthy required then Inr ()
      else case cur of
        Inl e \<Rightarrow> Inl e
      | Inr entl \<Rightarrow>
          if the required \<notin> set (entl_features entl)
          then Inl (ForbiddenException (''Fonctionnalite non disponible pour votre forfait : '' @ the required))
          else Inr ())"

definition USAGE_COUNTERS :: "string \<Rightarrow> (db \<Rightarrow> nat) option" where
  "USAGE_COUNTERS k = (if k = ''users'' then Some (\<lambda>s. length (users s)) else None)"

definition LimitGuard_canActivate ::
    "tenant_store option \<Rightarrow> string option \<Rightarrow> exn + entitlements \<Rightarrow> db \<Rightarrow> exn + unit" where
  "LimitGuard_canActivate store limitKey cur s =
     (if \<not> truthy limitKey then Inr ()
      else case cur of
        Inl e \<Rightarrow> Inl e
      | Inr entl \<Rightarrow> (case map_of (entl_limits entl) (the limitKey) of
          None \<Rightarrow> Inr ()
        | Some None \<Rightarrow> Inr ()
        | Some (Some most) \<Rightarrow> (case USAGE_COUNTERS (the limitKey) of
            None \<Rightarrow> Inl (JsError (''LimitGuard : aucun compteur d'usage enregistre pour la cle '' @ the limitKey))
          | Some counter \<Rightarrow> (case getRequiredTenantId store of
              Inl e \<Rightarrow> Inl e
            | Inr tenantId \<Rightarrow>
                if most \<le> int (counter (rls tenantId s))
                then Inl (ForbiddenException (''Quota atteint pour '' @ the limitKey))
                else Inr ()))))"

definition BLOCKING_STATUSES :: "subscription_status list" where
  "BLOCKING_STATUSES = [Sub_EXPIRED, Sub_SUSPENDED, Sub_CANCELLED]"

definition SubscriptionAccessGuard_canActivate :: "string \<Rightarrow> exn + entitlements \<Rightarrow> exn + unit" where
  "SubscriptionAccessGuard_canActivate method cur =
     (if method = ''GET'' then Inr ()
      else case cur of
        Inl e \<Rightarrow> Inl e
      | Inr entl \<Rightarrow> (case entl_subscriptionStatus entl of
          None \<Rightarrow> Inr ()
        | Some st \<Rightarrow>
            if st \<in> set BLOCKING_STATUSES
            then Inl (ForbiddenException ''Abonnement inactif : acces en lecture seule'')
            else Inr ()))"

section \<open>Histories\<close>

text \<open>
  The life of one process's cache: \<open>h\<close> is the history of the database (newest first, with times),
  every event acts on the newest state, and a value may have been read at any earlier point.
\<close>

inductive cache_run :: "int \<Rightarrow> nat \<Rightarrow> (int \<times> db) list \<Rightarrow> entitlements_cache \<Rightarrow> bool" for ttl maxEntries where
  start: "cache_run ttl maxEntries [x] []"
| tick: "cache_run ttl maxEntries ((t, s) # h) c \<Longrightarrow> t \<le> t' \<Longrightarrow> cache_run ttl maxEntries ((t', s') # (t, s) # h) c"
| hit: "cache_run ttl maxEntries ((t, s) # h) c \<Longrightarrow> cache_lookup t tenant c = Some (v, c') \<Longrightarrow>
    cache_run ttl maxEntries ((t, s) # h) c'"
| store: "cache_run ttl maxEntries ((t, s) # h) c \<Longrightarrow> (t0, s0) \<in> set ((t, s) # h) \<Longrightarrow>
    entitlements_resolve tenant s0 = Inr v \<Longrightarrow> 0 < ttl \<Longrightarrow>
    cache_run ttl maxEntries ((t, s) # h) (cache_store maxEntries tenant \<lparr>ce_value = v, ce_expiresAt = t + ttl\<rparr> c)"
| invalidate: "cache_run ttl maxEntries h c \<Longrightarrow> cache_run ttl maxEntries h (cache_invalidate tenant c)"

definition entry_sound :: "int \<Rightarrow> (int \<times> db) list \<Rightarrow> uuid \<Rightarrow> cache_entry \<Rightarrow> bool" where
  "entry_sound ttl h tenant e \<longleftrightarrow> (\<exists>t0 s0 t1 s1. (t0, s0) \<in> set h \<and> (t1, s1) \<in> set h \<and> t0 \<le> t1 \<and>
     entitlements_resolve tenant s0 = Inr (ce_value e) \<and> ce_expiresAt e = t1 + ttl)"

lemma cache_update_subset: "set (AList.update k v al) \<subseteq> insert (k, v) (set al)"
  by (induction al) auto

lemma set_delete_subset: "set (AList.delete k al) \<subseteq> set al"
  by (auto simp: AList.delete_eq)

lemma length_update: "length (AList.update k v al) = (if k \<in> fst ` set al then length al else Suc (length al))"
  by (induction al) auto

lemma length_delete_le: "length (AList.delete k al) \<le> length al"
  by (simp add: AList.delete_eq)

lemma length_cache_store: "length (cache_store m k e c) \<le> (if m \<le> length c then max 1 (length c) else Suc (length c))"
proof (cases c)
  case (Cons x c')
  then show ?thesis
    by (cases x) (auto simp: cache_store_def length_update AList.delete_eq intro: le_SucI length_filter_le)
qed (simp add: cache_store_def)

lemma set_cache_store: "set (cache_store m k e c) \<subseteq> insert (k, e) (set c)"
proof -
  let ?c = "if m \<le> length c then (case c of [] \<Rightarrow> [] | (oldestKey, _) # _ \<Rightarrow> AList.delete oldestKey c) else c"
  have "set ?c \<subseteq> set c" using set_delete_subset[of _ c] by (auto split: list.splits)
  then show ?thesis using cache_update_subset[of k e ?c] by (auto simp: cache_store_def)
qed

lemma length_cache_lookup:
  assumes "cache_lookup t k c = Some (v, c')"
  shows "length c' \<le> length c"
proof -
  obtain e where e: "map_of c k = Some e" "c' = AList.update k e (AList.delete k c)"
    using assms by (auto simp: cache_lookup_def split: option.splits if_splits)
  have "(k, e) \<in> set c" using e(1) by (rule map_of_SomeD)
  then have "length (AList.delete k c) < length c"
    unfolding AList.delete_eq by (rule length_filter_less) simp
  then show ?thesis by (simp add: e(2) length_update)
qed

lemma cache_run_history: "cache_run ttl m h c \<Longrightarrow> h \<noteq> [] \<and> (\<forall>x\<in>set h. fst x \<le> fst (hd h))"
  by (induction rule: cache_run.induct) auto

lemma cache_run_sound:
  assumes "cache_run ttl m h c"
  shows "length c \<le> max 1 m \<and> (\<forall>(k, e)\<in>set c. entry_sound ttl h k e)"
  using assms
proof (induction rule: cache_run.induct)
  case (start x)
  then show ?case by simp
next
  case (tick t s h c t' s')
  have "entry_sound ttl ((t, s) # h) k e \<Longrightarrow> entry_sound ttl ((t', s') # (t, s) # h) k e" for k e
    unfolding entry_sound_def by (metis list.set_intros(2))
  with tick.IH show ?case by blast
next
  case (hit t s h c tenant v c')
  from hit.hyps(2) obtain e where e: "map_of c tenant = Some e" "c' = AList.update tenant e (AList.delete tenant c)"
    by (auto simp: cache_lookup_def split: option.splits if_splits)
  then have "set c' \<subseteq> set c"
    using cache_update_subset[of tenant e "AList.delete tenant c"] set_delete_subset[of tenant c] map_of_SomeD[OF e(1)] by blast
  with hit.IH length_cache_lookup[OF hit.hyps(2)] show ?case by fastforce
next
  case (store t s h c t0 s0 tenant v)
  have "t0 \<le> t" using cache_run_history[OF store.hyps(1)] store.hyps(2) by auto
  then have new: "entry_sound ttl ((t, s) # h) tenant \<lparr>ce_value = v, ce_expiresAt = t + ttl\<rparr>"
    using store.hyps(2,3) unfolding entry_sound_def by force
  have len: "length (cache_store m tenant \<lparr>ce_value = v, ce_expiresAt = t + ttl\<rparr> c) \<le> max 1 m"
    using length_cache_store[of m tenant "\<lparr>ce_value = v, ce_expiresAt = t + ttl\<rparr>" c] store.IH by (auto split: if_splits)
  have "\<forall>(k, e)\<in>set (cache_store m tenant \<lparr>ce_value = v, ce_expiresAt = t + ttl\<rparr> c). entry_sound ttl ((t, s) # h) k e"
    using set_cache_store[of m tenant "\<lparr>ce_value = v, ce_expiresAt = t + ttl\<rparr>" c] new store.IH by blast
  with len show ?case by blast
next
  case (invalidate h c tenant)
  with set_delete_subset[of tenant c] length_delete_le[of tenant c] show ?case
    by (force simp: cache_invalidate_def)
qed

section \<open>Properties\<close>

text \<open>
  C29. The entitlements cache is bounded and never older than its TTL: whatever requests,
  invalidations and changes of the database precede, it holds at most \<open>maxEntries\<close> entries (one when
  that is 0), and what \<open>getCurrent\<close> answers was resolved, for this very tenant, either from the
  database it has just read or from an earlier state whose answer was stored less than the TTL ago.
\<close>

theorem entitlements_bounded_staleness:
  assumes "cache_run ttl maxEntries h cache"
    and "entitlements_getCurrent ttl maxEntries (Some st) now now' others s cache = (Inr v, cache')"
  shows "length cache \<le> max 1 maxEntries \<and>
    (entitlements_resolve (store_tenantId st) s = Inr v \<or>
     (\<exists>t0 s0 t1 s1. (t0, s0) \<in> set h \<and> (t1, s1) \<in> set h \<and> t0 \<le> t1 \<and> now < t1 + ttl \<and>
        entitlements_resolve (store_tenantId st) s0 = Inr v))"
proof
  show "length cache \<le> max 1 maxEntries" using cache_run_sound[OF assms(1)] by blast
  show "entitlements_resolve (store_tenantId st) s = Inr v \<or>
     (\<exists>t0 s0 t1 s1. (t0, s0) \<in> set h \<and> (t1, s1) \<in> set h \<and> t0 \<le> t1 \<and> now < t1 + ttl \<and>
        entitlements_resolve (store_tenantId st) s0 = Inr v)"
  proof (cases "cache_lookup now (store_tenantId st) cache")
    case None
    with assms(2) show ?thesis by (auto simp: entitlements_getCurrent_def getRequiredTenantId_def split: sum.splits)
  next
    case (Some r)
    then obtain e where e: "map_of cache (store_tenantId st) = Some e" "now < ce_expiresAt e" "fst r = ce_value e"
      by (auto simp: cache_lookup_def split: option.splits if_splits)
    with assms(2) Some have "v = ce_value e"
      by (auto simp: entitlements_getCurrent_def getRequiredTenantId_def split: prod.splits)
    with cache_run_sound[OF assms(1)] map_of_SomeD[OF e(1)] e(2) show ?thesis
      by (fastforce simp: entry_sound_def)
  qed
qed

definition fx_plan :: "uuid \<Rightarrow> string \<Rightarrow> int \<Rightarrow> plan" where
  "fx_plan i code seats = \<lparr>plan_id = i, plan_code = code, plan_name = code, plan_description = None, plan_priceMonthly = 11800, plan_priceYearly = None,
     plan_trialDays = 14, plan_isActive = True, plan_sortOrder = 0,
     plan_features = [(''sales'', True), (''stock'', False)], plan_limits = [(''users'', Some seats)]\<rparr>"

definition fx_subscription :: "subscription_status \<Rightarrow> uuid \<Rightarrow> subscription" where
  "fx_subscription st plan = \<lparr>subscription_id = ''b1'', subscription_enterpriseId = ''e1'', subscription_planId = plan,
     subscription_status = st, subscription_startDate = 0, subscription_trialEndDate = Some 1000,
     subscription_renewalDate = None, subscription_cancelledAt = None\<rparr>"

definition fx_billing_db :: "subscription_status \<Rightarrow> uuid \<Rightarrow> db" where
  "fx_billing_db st plan = fx_db\<lparr>enterprises := [(fx_enterprise ''e1'')\<lparr>ent_currentSubscriptionId := Some ''b1''\<rparr>, fx_enterprise ''e2''],
     plans := [fx_plan ''PRO'' ''PRO'' 10, fx_plan ''FREE'' ''FREE'' 1], subscriptions := [fx_subscription st plan]\<rparr>"

lemma fx_billing_resolve:
  "plan \<in> {''PRO'', ''FREE''} \<Longrightarrow> entitlements_resolve ''e1'' (fx_billing_db st plan) =
   Inr \<lparr>entl_subscriptionStatus = Some st, entl_planCode = Some plan, entl_features = [''sales''],
        entl_limits = [(''users'', Some (if plan = ''PRO'' then 10 else 1))]\<rparr>"
  by (auto simp: entitlements_resolve_def rls_def fx_billing_db_def fx_db_def current_subscription_def fx_enterprise_def
      fx_subscription_def fx_plan_def entitlements_of_def Let_def js_set_def)

lemma entitlements_bounded_staleness_witness:
  "\<exists>v cache'. entitlements_getCurrent 5000 2 fx_store 6 6 id (fx_billing_db Sub_EXPIRED ''PRO'')
      (cache_store 2 ''e1'' \<lparr>ce_value = v, ce_expiresAt = 5 + 5000\<rparr> []) = (Inr v, cache') \<and>
    entl_subscriptionStatus v = Some Sub_TRIAL \<and> (6::int) < 5 + 5000"
proof -
  let ?v = "\<lparr>entl_subscriptionStatus = Some Sub_TRIAL, entl_planCode = Some ''PRO'', entl_features = [''sales''],
        entl_limits = [(''users'', Some 10)]\<rparr>"
  let ?c = "cache_store 2 ''e1'' \<lparr>ce_value = ?v, ce_expiresAt = 5 + 5000\<rparr> []"
  have mem: "(5, fx_billing_db Sub_TRIAL ''PRO'') \<in> set [(5, fx_billing_db Sub_TRIAL ''PRO'')]" by simp
  have "entitlements_resolve ''e1'' (fx_billing_db Sub_TRIAL ''PRO'') = Inr ?v" by (simp add: fx_billing_resolve)
  then have "cache_run 5000 2 [(5, fx_billing_db Sub_TRIAL ''PRO'')] ?c"
    by (rule cache_run.store[OF cache_run.start mem]) simp
  then have run: "cache_run 5000 2 [(6, fx_billing_db Sub_EXPIRED ''PRO''), (5, fx_billing_db Sub_TRIAL ''PRO'')] ?c"
    by (rule cache_run.tick) simp
  have get: "entitlements_getCurrent 5000 2 fx_store 6 6 id (fx_billing_db Sub_EXPIRED ''PRO'') ?c = (Inr ?v, ?c)"
    by (simp add: entitlements_getCurrent_def fx_store_def getRequiredTenantId_def cache_lookup_def cache_store_def)
  from entitlements_bounded_staleness[OF run get[unfolded fx_store_def]] get show ?thesis by auto
qed

text \<open>
  The cache does not always see a change at once: if a request has read the database before a
  change of plan and resumes after the change has invalidated the tenant's entry, it stores the old
  answer, and every request of the next TTL milliseconds is served the old plan, whatever the
  database says by then.
\<close>

theorem invalidate_misses_read_in_flight:
  assumes "cache_lookup now (store_tenantId st) cache = None" and "entitlements_resolve (store_tenantId st) old = Inr v"
    and "now2 < now' + ttl" and "0 < ttl"
  shows "fst (entitlements_getCurrent ttl maxEntries (Some st) now2 now2 id new
     (snd (entitlements_getCurrent ttl maxEntries (Some st) now now' (cache_invalidate (store_tenantId st)) old cache))) = Inr v"
proof -
  let ?c = "cache_store maxEntries (store_tenantId st) \<lparr>ce_value = v, ce_expiresAt = now' + ttl\<rparr> (cache_invalidate (store_tenantId st) cache)"
  have "snd (entitlements_getCurrent ttl maxEntries (Some st) now now' (cache_invalidate (store_tenantId st)) old cache) = ?c"
    using assms(1,2,4) by (simp add: entitlements_getCurrent_def getRequiredTenantId_def)
  moreover have "map_of ?c (store_tenantId st) = Some \<lparr>ce_value = v, ce_expiresAt = now' + ttl\<rparr>"
    by (simp add: cache_store_def update_conv')
  ultimately show ?thesis using assms(3)
    by (simp add: entitlements_getCurrent_def getRequiredTenantId_def cache_lookup_def)
qed

lemma invalidate_misses_read_in_flight_witness:
  "fst (entitlements_getCurrent 5000 1000 fx_store 4000 4000 id (fx_billing_db Sub_ACTIVE ''FREE'')
     (snd (entitlements_getCurrent 5000 1000 fx_store 0 10 (cache_invalidate ''e1'') (fx_billing_db Sub_ACTIVE ''PRO'') []))) =
   Inr \<lparr>entl_subscriptionStatus = Some Sub_ACTIVE, entl_planCode = Some ''PRO'', entl_features = [''sales''],
        entl_limits = [(''users'', Some 10)]\<rparr>"
proof -
  let ?st = "\<lparr>store_tenantId = ''e1'', store_userId = ''u1'', store_isSuperAdmin = False\<rparr>"
  have "entitlements_resolve (store_tenantId ?st) (fx_billing_db Sub_ACTIVE ''PRO'') =
     Inr \<lparr>entl_subscriptionStatus = Some Sub_ACTIVE, entl_planCode = Some ''PRO'', entl_features = [''sales''],
        entl_limits = [(''users'', Some 10)]\<rparr>" by (simp add: fx_billing_resolve)
  from invalidate_misses_read_in_flight[OF _ this, of 0 "[]" 4000 10 5000 1000 "fx_billing_db Sub_ACTIVE ''FREE''"]
  show ?thesis by (simp add: fx_store_def cache_lookup_def)
qed

text \<open>
  Eviction is not least recently used: refreshing an expired entry keeps its place in the map,
  so when the tenant that was first in line is served again and the cache then fills up, the next
  new tenant evicts exactly the one that was refreshed, not one that has not been used since.
\<close>

theorem refreshed_entry_evicted_first:
  assumes "cache = (tenant, expired) # rest" and "ce_expiresAt expired \<le> now" and "length cache < maxEntries"
    and "tenant \<notin> fst ` set (rest @ later)" and "entitlements_resolve tenant s = Inr v" and "0 < ttl"
    and "store_tenantId st = tenant" and "k \<noteq> tenant" and "maxEntries \<le> length (cache @ later)"
  shows "let served = snd (entitlements_getCurrent ttl maxEntries (Some st) now now' id s cache) in
    map_of served tenant = Some \<lparr>ce_value = v, ce_expiresAt = now' + ttl\<rparr> \<and>
    map_of (cache_store maxEntries k e (served @ later)) tenant = None"
proof -
  have s: "snd (entitlements_getCurrent ttl maxEntries (Some st) now now' id s cache) =
      (tenant, \<lparr>ce_value = v, ce_expiresAt = now' + ttl\<rparr>) # rest"
    using assms(1-3,5-7)
    by (simp add: entitlements_getCurrent_def getRequiredTenantId_def cache_lookup_def cache_store_def)
  have "map_of (AList.delete tenant (rest @ later)) tenant = None" by (simp add: delete_conv')
  then show ?thesis
    using assms(1,8,9) unfolding s Let_def by (simp add: cache_store_def update_conv')
qed

lemma refreshed_entry_evicted_first_witness:
  "\<exists>v served. entitlements_getCurrent 5000 3 fx_store 100 100 id (fx_billing_db Sub_ACTIVE ''PRO'')
      [(''e1'', \<lparr>ce_value = NO_SUBSCRIPTION, ce_expiresAt = 50\<rparr>), (''e2'', \<lparr>ce_value = NO_SUBSCRIPTION, ce_expiresAt = 200\<rparr>)] = (Inr v, served) \<and>
    map_of (cache_store 3 ''e4'' \<lparr>ce_value = v, ce_expiresAt = 5101\<rparr>
      (served @ [(''e3'', \<lparr>ce_value = NO_SUBSCRIPTION, ce_expiresAt = 5100\<rparr>)])) ''e1'' = None"
proof -
  let ?st = "\<lparr>store_tenantId = ''e1'', store_userId = ''u1'', store_isSuperAdmin = False\<rparr>"
  let ?x = "\<lparr>ce_value = NO_SUBSCRIPTION, ce_expiresAt = 50\<rparr>" and ?y = "\<lparr>ce_value = NO_SUBSCRIPTION, ce_expiresAt = 200\<rparr>"
  let ?v = "\<lparr>entl_subscriptionStatus = Some Sub_ACTIVE, entl_planCode = Some ''PRO'', entl_features = [''sales''],
        entl_limits = [(''users'', Some 10)]\<rparr>"
  have r: "entitlements_resolve ''e1'' (fx_billing_db Sub_ACTIVE ''PRO'') = Inr ?v" by (simp add: fx_billing_resolve)
  have "fst (entitlements_getCurrent 5000 3 (Some ?st) 100 100 id (fx_billing_db Sub_ACTIVE ''PRO'') [(''e1'', ?x), (''e2'', ?y)]) = Inr ?v"
    using r by (simp add: entitlements_getCurrent_def getRequiredTenantId_def cache_lookup_def)
  with refreshed_entry_evicted_first[of "[(''e1'', ?x), (''e2'', ?y)]" "''e1''" ?x "[(''e2'', ?y)]" 100 3
      "[(''e3'', \<lparr>ce_value = NO_SUBSCRIPTION, ce_expiresAt = 5100\<rparr>)]" "fx_billing_db Sub_ACTIVE ''PRO''" ?v 5000 ?st "''e4''" 100
      "\<lparr>ce_value = ?v, ce_expiresAt = 5101\<rparr>"] r
  show ?thesis unfolding fx_store_def Let_def
    by (intro exI[of _ ?v] exI[of _ "snd (entitlements_getCurrent 5000 3 (Some ?st) 100 100 id (fx_billing_db Sub_ACTIVE ''PRO'') [(''e1'', ?x), (''e2'', ?y)])"])
      (auto simp: prod_eq_iff)
qed

end
