(* ===== verification/Subscriptions.thy ===== *)
theory Subscriptions
  imports Entitlements Interfaces
begin

text \<open>
  apps/api/src/subscriptions and the subscription part of tenant/cross-tenant.repository.ts: the
  state machine, the hourly lifecycle job, the change of plan by the Super Admin and the tenant's own
  view. The job reads a batch once and then writes row by row with a compare-and-swap, so each
  statement takes what other processes do to the database before it (\<open>others\<close>) and may itself fail
  (\<open>fails\<close>: the number of the statement that throws).
\<close>

section \<open>State machine\<close>

fun ALLOWED_TRANSITIONS :: "subscription_status \<Rightarrow> subscription_status list" where
  "ALLOWED_TRANSITIONS Sub_TRIAL = [Sub_ACTIVE, Sub_EXPIRED, Sub_CANCELLED]"
| "ALLOWED_TRANSITIONS Sub_ACTIVE = [Sub_PAST_DUE, Sub_SUSPENDED, Sub_CANCELLED]"
| "ALLOWED_TRANSITIONS Sub_PAST_DUE = [Sub_ACTIVE, Sub_SUSPENDED, Sub_CANCELLED]"
| "ALLOWED_TRANSITIONS Sub_SUSPENDED = [Sub_ACTIVE, Sub_CANCELLED]"
| "ALLOWED_TRANSITIONS Sub_CANCELLED = []"
| "ALLOWED_TRANSITIONS Sub_EXPIRED = []"

definition canTransitionSubscription :: "subscription_status \<Rightarrow> subscription_status \<Rightarrow> bool" where
  "canTransitionSubscription from to \<longleftrightarrow> to \<in> set (ALLOWED_TRANSITIONS from)"

definition assertSubscriptionTransition :: "subscription_status \<Rightarrow> subscription_status \<Rightarrow> exn + unit" where
  "assertSubscriptionTransition from to =
     (if \<not> canTransitionSubscription from to then Inl (InvalidSubscriptionTransitionError from to) else Inr ())"

section \<open>Cross-tenant repository\<close>

definition findEnterpriseWithCurrentSubscription ::
    "uuid \<Rightarrow> db \<Rightarrow> exn + (enterprise \<times> (subscription \<times> plan) option) option" where
  "findEnterpriseWithCurrentSubscription enterpriseId s =
     (case find_by ent_id enterpriseId (enterprises s) of
        None \<Rightarrow> Inr None
      | Some enterprise \<Rightarrow> (case current_subscription enterprise s of
          Inl e \<Rightarrow> Inl e | Inr sub \<Rightarrow> Inr (Some (enterprise, sub))))"

definition findPlan :: "uuid \<Rightarrow> db \<Rightarrow> plan option" where
  "findPlan planId s = find_by plan_id planId (plans s)"

definition subscription_update :: "uuid \<Rightarrow> (subscription \<Rightarrow> subscription) \<Rightarrow> (db, exn, subscription) txn" where
  "subscription_update i f s = (case find_by subscription_id i (subscriptions s) of
     None \<Rightarrow> Inl (PrismaKnown P2025)
   | Some r \<Rightarrow> Inr (f r, s\<lparr>subscriptions := update_by subscription_id i f (subscriptions s)\<rparr>))"

definition createSubscriptionEvent :: "subscription_event \<Rightarrow> db \<Rightarrow> db" where
  "createSubscriptionEvent ev s = s\<lparr>subscriptionEvents := subscriptionEvents s @ [ev]\<rparr>"

definition changeSubscriptionPlan ::
    "uuid \<Rightarrow> uuid \<Rightarrow> subscription_status \<Rightarrow> uuid \<Rightarrow> string option \<Rightarrow> uuid option \<Rightarrow> (db, exn, subscription) txn" where
  "changeSubscriptionPlan subscriptionId newPlanId fromStatus fromPlanId reason triggeredByUserId s =
     (case subscription_update subscriptionId (\<lambda>r. r\<lparr>subscription_planId := newPlanId\<rparr>) s of
        Inl e \<Rightarrow> Inl e
      | Inr (subscription, s1) \<Rightarrow> Inr (subscription, createSubscriptionEvent
          \<lparr>event_subscriptionId = subscriptionId, event_fromStatus = Some fromStatus, event_toStatus = fromStatus,
           event_fromPlanId = Some fromPlanId, event_toPlanId = Some newPlanId, event_reason = reason,
           event_triggeredByUserId = triggeredByUserId\<rparr> s1))"

text \<open>A comparison with a date column that is \<open>NULL\<close> is not true.\<close>

definition date_before :: "date option \<Rightarrow> date \<Rightarrow> bool" where
  "date_before d now = (case d of None \<Rightarrow> False | Some t \<Rightarrow> t < now)"

definition findExpirableTrialSubscriptions :: "date \<Rightarrow> db \<Rightarrow> subscription list" where
  "findExpirableTrialSubscriptions now s =
     filter (\<lambda>r. subscription_status r = Sub_TRIAL \<and> date_before (subscription_trialEndDate r) now) (subscriptions s)"

definition findOverdueGracePeriodSubscriptions :: "date \<Rightarrow> db \<Rightarrow> subscription list" where
  "findOverdueGracePeriodSubscriptions now s =
     filter (\<lambda>r. subscription_status r = Sub_PAST_DUE \<and> date_before (subscription_renewalDate r) now) (subscriptions s)"

definition updateSubscriptionStatus ::
    "uuid \<Rightarrow> subscription_status \<Rightarrow> subscription_status \<Rightarrow> db \<Rightarrow> nat \<times> db" where
  "updateSubscriptionStatus subscriptionId fromStatus toStatus s =
     (let matches = (\<lambda>r. subscription_id r = subscriptionId \<and> subscription_status r = fromStatus)
      in (length (filter matches (subscriptions s)),
          s\<lparr>subscriptions := map (\<lambda>r. if matches r then r\<lparr>subscription_status := toStatus\<rparr> else r) (subscriptions s)\<rparr>))"

section \<open>The lifecycle job\<close>

definition system_audit :: "uuid \<Rightarrow> audit_action \<Rightarrow> string \<Rightarrow> uuid \<Rightarrow> string \<Rightarrow> audit_log" where
  "system_audit enterpriseId action resource resourceId reason =
     \<lparr>audit_userId = None, audit_enterpriseId = Some enterpriseId, audit_action = action,
      audit_resource = resource, audit_resourceId = Some resourceId, audit_reason = Some reason\<rparr>"

definition lifecycle_transition ::
    "nat option \<Rightarrow> (nat \<Rightarrow> db \<Rightarrow> db) \<Rightarrow> subscription \<Rightarrow> subscription_status \<Rightarrow> string \<Rightarrow> audit_action \<Rightarrow> db \<Rightarrow> db" where
  "lifecycle_transition fails others subscription toStatus reason auditAction s =
     (case assertSubscriptionTransition (subscription_status subscription) toStatus of
        Inl error \<Rightarrow> s
      | Inr _ \<Rightarrow>
     (let s0 = others 0 s
      in if fails = Some 0 then s0
         else let (count, s1) = updateSubscriptionStatus (subscription_id subscription) (subscription_status subscription) toStatus s0
      in if count = 0 then s1
         else let s2 = others 1 s1
      in if fails = Some 1 then s2
         else let s3 = others 2 (createSubscriptionEvent
               \<lparr>event_subscriptionId = subscription_id subscription,
                event_fromStatus = Some (subscription_status subscription), event_toStatus = toStatus,
                event_fromPlanId = None, event_toPlanId = None, event_reason = Some reason,
                event_triggeredByUserId = None\<rparr> s2)
      in if fails = Some 2 then s3
         else auditLog_record (system_audit (subscription_enterpriseId subscription) auditAction ''Subscription''
                (subscription_id subscription) reason) s3))"

fun lifecycle_pass ::
    "(nat \<Rightarrow> nat option) \<Rightarrow> (nat \<Rightarrow> nat \<Rightarrow> db \<Rightarrow> db) \<Rightarrow> nat \<Rightarrow> subscription_status \<Rightarrow> string \<Rightarrow> audit_action \<Rightarrow>
     subscription list \<Rightarrow> db \<Rightarrow> db" where
  "lifecycle_pass fails others i toStatus reason auditAction [] s = s"
| "lifecycle_pass fails others i toStatus reason auditAction (subscription # rest) s =
     lifecycle_pass fails others (Suc i) toStatus reason auditAction rest
       (lifecycle_transition (fails i) (others i) subscription toStatus reason auditAction s)"

definition expireTrials ::
    "(nat \<Rightarrow> nat option) \<Rightarrow> (nat \<Rightarrow> nat \<Rightarrow> db \<Rightarrow> db) \<Rightarrow> date \<Rightarrow> db \<Rightarrow> nat \<times> db" where
  "expireTrials fails others now s =
     (let batch = findExpirableTrialSubscriptions now s
      in (length batch, lifecycle_pass fails others 0 Sub_EXPIRED ''trial_expired'' EXPIRE_TRIAL batch s))"

definition suspendOverdueGracePeriods ::
    "(nat \<Rightarrow> nat option) \<Rightarrow> (nat \<Rightarrow> nat \<Rightarrow> db \<Rightarrow> db) \<Rightarrow> date \<Rightarrow> db \<Rightarrow> nat \<times> db" where
  "suspendOverdueGracePeriods fails others now s =
     (let batch = findOverdueGracePeriodSubscriptions now s
      in (length batch, lifecycle_pass fails others 0 Sub_SUSPENDED ''grace_period_expired'' SUSPEND_SUBSCRIPTION batch s))"

definition lifecycle_run ::
    "(nat \<Rightarrow> nat option) \<Rightarrow> (nat \<Rightarrow> nat \<Rightarrow> db \<Rightarrow> db) \<Rightarrow> date \<Rightarrow> date \<Rightarrow> db \<Rightarrow> db" where
  "lifecycle_run fails others now now' s =
     snd (suspendOverdueGracePeriods fails others now' (snd (expireTrials fails others now s)))"

section \<open>Change of plan\<close>

definition TERMINAL_SUBSCRIPTION_STATUSES :: "subscription_status list" where
  "TERMINAL_SUBSCRIPTION_STATUSES = [Sub_CANCELLED, Sub_EXPIRED]"

fun status_name :: "subscription_status \<Rightarrow> string" where
  "status_name Sub_TRIAL = ''TRIAL''"
| "status_name Sub_ACTIVE = ''ACTIVE''"
| "status_name Sub_PAST_DUE = ''PAST_DUE''"
| "status_name Sub_SUSPENDED = ''SUSPENDED''"
| "status_name Sub_CANCELLED = ''CANCELLED''"
| "status_name Sub_EXPIRED = ''EXPIRED''"

text \<open>\<open>others\<close> is what other processes do between the checks and the transaction.\<close>

definition changePlan ::
    "(db \<Rightarrow> db) \<Rightarrow> uuid \<Rightarrow> uuid \<Rightarrow> uuid \<Rightarrow> string option \<Rightarrow> entitlements_cache \<Rightarrow> db \<Rightarrow>
     (exn + uuid) \<times> entitlements_cache \<times> db" where
  "changePlan others enterpriseId newPlanId actorUserId reason cache s =
     (case findEnterpriseWithCurrentSubscription enterpriseId s of
        Inl e \<Rightarrow> (Inl e, cache, s)
      | Inr enterprise \<Rightarrow> (case Option.bind enterprise snd of
          None \<Rightarrow> (Inl (NotFoundException ''Aucun abonnement actif pour cette entreprise''), cache, s)
        | Some (subscription, plan) \<Rightarrow>
            if subscription_status subscription \<in> set TERMINAL_SUBSCRIPTION_STATUSES
            then (Inl (ConflictException (''Impossible de changer de forfait : l'abonnement est ''
                    @ status_name (subscription_status subscription))), cache, s)
            else (case findPlan newPlanId s of
              None \<Rightarrow> (Inl (NotFoundException ''Forfait introuvable''), cache, s)
            | Some newPlan \<Rightarrow>
                if subscription_planId subscription = newPlanId
                then (Inl (ConflictException ''L'entreprise est deja sur ce forfait''), cache, s)
                else (case commit_txn (changeSubscriptionPlan (subscription_id subscription) newPlanId
                         (subscription_status subscription) (subscription_planId subscription) reason (Some actorUserId))
                       (others s) of
                  (Inl e, s') \<Rightarrow> (Inl e, cache, s')
                | (Inr _, s') \<Rightarrow> (Inr (subscription_id subscription), cache_invalidate enterpriseId cache,
                    auditLog_record (audit_entry actorUserId enterpriseId CHANGE_PLAN ''Subscription''
                      (subscription_id subscription)) s')))))"

section \<open>The tenant's own view\<close>

record my_subscription =
  ms_planCode :: string
  ms_planName :: string
  ms_priceMonthly :: int
  ms_priceYearly :: "int option"
  ms_maxUsers :: "int option"
  ms_status :: string
  ms_startDate :: date
  ms_trialEndDate :: "date option"
  ms_renewalDate :: "date option"
  ms_cancelledAt :: "date option"

definition mySubscription_getCurrent :: "tenant_store option \<Rightarrow> db \<Rightarrow> exn + my_subscription" where
  "mySubscription_getCurrent store s = (case getRequiredTenantId store of
     Inl e \<Rightarrow> Inl e
   | Inr tenantId \<Rightarrow> (case findEnterpriseWithCurrentSubscription tenantId (rls tenantId s) of
       Inl e \<Rightarrow> Inl e
     | Inr enterprise \<Rightarrow> (case Option.bind enterprise snd of
         None \<Rightarrow> Inl (NotFoundException ''Aucun abonnement actif pour cette entreprise'')
       | Some (subscription, plan) \<Rightarrow> Inr
          \<lparr>ms_planCode = plan_code plan, ms_planName = plan_name plan, ms_priceMonthly = plan_priceMonthly plan,
           ms_priceYearly = plan_priceYearly plan,
           ms_maxUsers = (case filter (\<lambda>l. fst l = ''users'') (plan_limits plan) of [] \<Rightarrow> None | l # _ \<Rightarrow> snd l),
           ms_status = status_name (subscription_status subscription),
           ms_startDate = subscription_startDate subscription, ms_trialEndDate = subscription_trialEndDate subscription,
           ms_renewalDate = subscription_renewalDate subscription, ms_cancelledAt = subscription_cancelledAt subscription\<rparr>)))"

section \<open>The abstract machine\<close>

text \<open>
  What the outside sees of the subscriptions: none disappears or changes hands, and each status only
  moves along allowed transitions.
\<close>

definition allowed_path :: "subscription_status \<Rightarrow> subscription_status \<Rightarrow> bool" where
  "allowed_path = canTransitionSubscription\<^sup>*\<^sup>*"

definition status_step :: "db \<Rightarrow> db \<Rightarrow> bool" where
  "status_step s s' \<longleftrightarrow> (\<forall>i r. find_by subscription_id i (subscriptions s) = Some r \<longrightarrow>
     (\<exists>r'. find_by subscription_id i (subscriptions s') = Some r' \<and>
        subscription_enterpriseId r' = subscription_enterpriseId r \<and>
        allowed_path (subscription_status r) (subscription_status r')))"

lemma status_step_refl [simp, intro]: "status_step s s"
  by (simp add: status_step_def allowed_path_def)

lemma status_step_trans: "status_step s s' \<Longrightarrow> status_step s' s'' \<Longrightarrow> status_step s s''"
  unfolding status_step_def allowed_path_def by (metis rtranclp_trans)

lemma status_step_same: "subscriptions s' = subscriptions s \<Longrightarrow> status_step s s'"
  by (simp add: status_step_def allowed_path_def)

inductive_simps canTransition_closed: "canTransitionSubscription\<^sup>*\<^sup>* from to"

lemma terminal_closed:
  assumes "st \<in> set TERMINAL_SUBSCRIPTION_STATUSES"
  shows "allowed_path st st' \<longleftrightarrow> st' = st"
proof -
  have no: "\<not> canTransitionSubscription st x" for x
    using assms by (auto simp: TERMINAL_SUBSCRIPTION_STATUSES_def canTransitionSubscription_def)
  have "canTransitionSubscription\<^sup>*\<^sup>* st st' \<Longrightarrow> st' = st"
    by (erule converse_rtranclpE) (simp_all add: no)
  then show ?thesis by (auto simp: allowed_path_def)
qed

interpretation settled_subscriptions:
  settled_documents status_step "\<lambda>i s. map_option subscription_status (find_by subscription_id i (subscriptions s))"
    "\<lambda>st. st \<in> set TERMINAL_SUBSCRIPTION_STATUSES"
proof unfold_locales
  fix s s' i d
  assume b: "status_step s s'" and d: "map_option subscription_status (find_by subscription_id i (subscriptions s)) = Some d"
    and f: "d \<in> set TERMINAL_SUBSCRIPTION_STATUSES"
  from d obtain r where r: "find_by subscription_id i (subscriptions s) = Some r" "subscription_status r = d" by auto
  with b obtain r' where "find_by subscription_id i (subscriptions s') = Some r'" "allowed_path d (subscription_status r')"
    unfolding status_step_def by blast
  then show "map_option subscription_status (find_by subscription_id i (subscriptions s')) = Some d"
    using terminal_closed[OF f] by simp
qed

lemma find_by_map:
  assumes "\<And>r. key (f r) = key r"
  shows "find_by key k (map f rows) = map_option f (find_by key k rows)"
  by (induction rows) (simp_all add: assms)

lemma updateSubscriptionStatus_step:
  assumes "canTransitionSubscription from to"
  shows "status_step s (snd (updateSubscriptionStatus i from to s))"
  using assms by (auto simp: status_step_def updateSubscriptionStatus_def Let_def find_by_map allowed_path_def)

lemma status_step_writes [simp]:
  "status_step s (createSubscriptionEvent ev s') = status_step s s'"
  "status_step s (auditLog_record a s') = status_step s s'"
  by (simp_all add: status_step_def createSubscriptionEvent_def auditLog_record_def)

lemma lifecycle_transition_step:
  assumes "\<And>j t. status_step t (others j t)"
  shows "status_step s (lifecycle_transition fails others sub to reason act s)"
proof (cases "canTransitionSubscription (subscription_status sub) to")
  case True
  let ?s1 = "snd (updateSubscriptionStatus (subscription_id sub) (subscription_status sub) to (others 0 s))"
  have s1: "status_step s ?s1"
    using status_step_trans[OF assms updateSubscriptionStatus_step[OF True]] .
  have s2: "status_step s (others 1 ?s1)" by (rule status_step_trans[OF s1 assms])
  have s3: "status_step s (others 2 (createSubscriptionEvent ev (others 1 ?s1)))" for ev
    by (rule status_step_trans[OF _ assms]) (simp only: status_step_writes s2)
  have "lifecycle_transition fails others sub to reason act s \<in>
      {others 0 s, ?s1, others 1 ?s1} \<union> range (\<lambda>ev. others 2 (createSubscriptionEvent ev (others 1 ?s1))) \<union>
      range (\<lambda>(a, ev). auditLog_record a (others 2 (createSubscriptionEvent ev (others 1 ?s1))))"
    using True by (simp add: lifecycle_transition_def assertSubscriptionTransition_def Let_def case_prod_unfold)
      (auto simp: image_iff)
  then show ?thesis using assms[of s 0] s1 s2 s3 by auto
qed (simp add: lifecycle_transition_def assertSubscriptionTransition_def)

lemma lifecycle_pass_step:
  "(\<And>i j t. status_step t (others i j t)) \<Longrightarrow> status_step s (lifecycle_pass fails others i to reason act batch s)"
proof (induction batch arbitrary: i s)
  case (Cons sub batch)
  show ?case unfolding lifecycle_pass.simps
    by (rule status_step_trans[OF lifecycle_transition_step Cons.IH]) (rule Cons.prems)+
qed simp

section \<open>A quiet pass\<close>

definition lifecycle_event :: "subscription \<Rightarrow> subscription_status \<Rightarrow> string \<Rightarrow> subscription_event" where
  "lifecycle_event subscription toStatus reason = \<lparr>event_subscriptionId = subscription_id subscription,
     event_fromStatus = Some (subscription_status subscription), event_toStatus = toStatus,
     event_fromPlanId = None, event_toPlanId = None, event_reason = Some reason, event_triggeredByUserId = None\<rparr>"

lemma quiet_transition:
  assumes "canTransitionSubscription (subscription_status sub) to" and "sub \<in> set (subscriptions s)"
    and "distinct (map subscription_id (subscriptions s))"
  shows "lifecycle_transition fails (\<lambda>_. id) sub to reason act s =
    (if fails = Some 0 then s
     else let s1 = s\<lparr>subscriptions := update_by subscription_id (subscription_id sub) (\<lambda>r. r\<lparr>subscription_status := to\<rparr>) (subscriptions s)\<rparr>
     in if fails = Some 1 then s1
        else let s2 = createSubscriptionEvent (lifecycle_event sub to reason) s1
        in if fails = Some 2 then s2
           else auditLog_record (system_audit (subscription_enterpriseId sub) act ''Subscription'' (subscription_id sub) reason) s2)"
proof -
  have same: "subscription_id r = subscription_id sub \<Longrightarrow> r \<in> set (subscriptions s) \<Longrightarrow> r = sub" for r
    using assms(2,3) by (auto simp: distinct_map dest: inj_onD)
  have "sub \<in> set (filter (\<lambda>r. subscription_id r = subscription_id sub \<and> subscription_status r = subscription_status sub) (subscriptions s))"
    using assms(2) by simp
  then have n: "filter (\<lambda>r. subscription_id r = subscription_id sub \<and> subscription_status r = subscription_status sub) (subscriptions s) \<noteq> []"
    by (metis empty_iff list.set(1))
  have m: "map (\<lambda>r. if subscription_id r = subscription_id sub \<and> subscription_status r = subscription_status sub
        then r\<lparr>subscription_status := to\<rparr> else r) (subscriptions s) =
      update_by subscription_id (subscription_id sub) (\<lambda>r. r\<lparr>subscription_status := to\<rparr>) (subscriptions s)"
    unfolding update_by_def using same by (intro map_cong) auto
  show ?thesis using assms(1) n
    by (simp add: lifecycle_transition_def assertSubscriptionTransition_def updateSubscriptionStatus_def m Let_def
        lifecycle_event_def)
qed

definition done_ids :: "(nat \<Rightarrow> nat option) \<Rightarrow> nat \<Rightarrow> subscription list \<Rightarrow> uuid set" where
  "done_ids fails i batch = {subscription_id (batch ! j) | j. j < length batch \<and> fails (i + j) \<noteq> Some 0}"

lemma done_ids_Cons:
  "done_ids fails i (r # batch) = (if fails i = Some 0 then {} else {subscription_id r}) \<union> done_ids fails (Suc i) batch"
proof (rule set_eqI)
  fix x
  have "x \<in> done_ids fails i (r # batch) \<longleftrightarrow> (\<exists>j<Suc (length batch). x = subscription_id ((r # batch) ! j) \<and> fails (i + j) \<noteq> Some 0)"
    by (auto simp: done_ids_def)
  also have "\<dots> \<longleftrightarrow> x = subscription_id r \<and> fails i \<noteq> Some 0 \<or> (\<exists>j<length batch. x = subscription_id (batch ! j) \<and> fails (Suc i + j) \<noteq> Some 0)"
    by (simp add: Ex_less_Suc2)
  also have "\<dots> \<longleftrightarrow> x \<in> (if fails i = Some 0 then {} else {subscription_id r}) \<union> done_ids fails (Suc i) batch"
    by (auto simp: done_ids_def)
  finally show "x \<in> done_ids fails i (r # batch) \<longleftrightarrow> \<dots>" .
qed

fun lifecycle_events :: "(nat \<Rightarrow> nat option) \<Rightarrow> nat \<Rightarrow> subscription_status \<Rightarrow> string \<Rightarrow> subscription list \<Rightarrow> subscription_event list" where
  "lifecycle_events fails i to reason [] = []"
| "lifecycle_events fails i to reason (sub # rest) =
     (if fails i \<in> {Some 0, Some 1} then [] else [lifecycle_event sub to reason]) @ lifecycle_events fails (Suc i) to reason rest"

lemma quiet_pass:
  assumes "\<forall>r\<in>set batch. canTransitionSubscription (subscription_status r) to" and "set batch \<subseteq> set (subscriptions s)"
    and "distinct (map subscription_id (subscriptions s))" and "distinct (map subscription_id batch)"
  shows "subscriptions (lifecycle_pass fails (\<lambda>_ _. id) i to reason act batch s) =
      map (\<lambda>r. if subscription_id r \<in> done_ids fails i batch then r\<lparr>subscription_status := to\<rparr> else r) (subscriptions s) \<and>
    subscriptionEvents (lifecycle_pass fails (\<lambda>_ _. id) i to reason act batch s) =
      subscriptionEvents s @ lifecycle_events fails i to reason batch"
  using assms
proof (induction batch arbitrary: i s)
  case Nil
  then show ?case by (simp add: done_ids_def)
next
  case (Cons sub batch)
  let ?s1 = "lifecycle_transition (fails i) (\<lambda>_. id) sub to reason act s"
  let ?up = "update_by subscription_id (subscription_id sub) (\<lambda>r. r\<lparr>subscription_status := to\<rparr>) (subscriptions s)"
  have q: "subscriptions ?s1 = (if fails i = Some 0 then subscriptions s else ?up)"
    "subscriptionEvents ?s1 = subscriptionEvents s @ (if fails i \<in> {Some 0, Some 1} then [] else [lifecycle_event sub to reason])"
    using Cons.prems by (simp_all add: quiet_transition Let_def createSubscriptionEvent_def auditLog_record_def)
  have rest: "r \<in> set ?up" if "r \<in> set batch" for r
  proof -
    have "subscription_id r \<noteq> subscription_id sub" using that Cons.prems(4) by (metis distinct.simps(2) image_eqI list.map(2) set_map)
    moreover have "r \<in> set (subscriptions s)" using that Cons.prems(2) by auto
    ultimately show ?thesis by (force simp: update_by_def)
  qed
  have "distinct (map subscription_id ?up)" using Cons.prems(3) by (simp add: map_update_by)
  with rest Cons.prems have IH: "subscriptions (lifecycle_pass fails (\<lambda>_ _. id) (Suc i) to reason act batch ?s1) =
      map (\<lambda>r. if subscription_id r \<in> done_ids fails (Suc i) batch then r\<lparr>subscription_status := to\<rparr> else r) (subscriptions ?s1) \<and>
    subscriptionEvents (lifecycle_pass fails (\<lambda>_ _. id) (Suc i) to reason act batch ?s1) =
      subscriptionEvents ?s1 @ lifecycle_events fails (Suc i) to reason batch"
    by (intro Cons.IH) (auto simp: q)
  show ?case unfolding lifecycle_pass.simps using IH
    by (auto simp: q done_ids_Cons update_by_def)
qed

section \<open>Properties\<close>

text \<open>
  C30. The lifecycle job refines the state machine under any interference: whatever other processes do
  before each of its statements, as long as they respect the machine themselves, and whichever of its
  statements fail, no subscription disappears or changes enterprise, every status moves along allowed
  transitions only, and a cancelled or expired subscription keeps its status. A row whose status has
  changed since the batch was read is left alone: no status, event or audit entry is written for it.
\<close>

theorem lifecycle_respects_machine:
  assumes "\<And>i j t. status_step t (others i j t)"
  shows "status_step s (lifecycle_run fails others now now' s) \<and>
    (\<forall>i r. find_by subscription_id i (subscriptions s) = Some r \<longrightarrow>
       subscription_status r \<in> set TERMINAL_SUBSCRIPTION_STATUSES \<longrightarrow>
       (\<exists>r'. find_by subscription_id i (subscriptions (lifecycle_run fails others now now' s)) = Some r' \<and>
          subscription_status r' = subscription_status r)) \<and>
    (\<forall>i (sub :: subscription) to reason act. (\<forall>r\<in>set (subscriptions (others i 0 s)). subscription_id r = subscription_id sub \<longrightarrow>
        subscription_status r \<noteq> subscription_status sub) \<longrightarrow>
      lifecycle_transition (fails i) (others i) sub to reason act s \<in> {s, others i 0 s})"
proof (intro conjI)
  show step: "status_step s (lifecycle_run fails others now now' s)"
    unfolding lifecycle_run_def expireTrials_def suspendOverdueGracePeriods_def Let_def snd_conv
    by (rule status_step_trans) (rule lifecycle_pass_step, rule assms)+
  show "\<forall>i r. find_by subscription_id i (subscriptions s) = Some r \<longrightarrow>
       subscription_status r \<in> set TERMINAL_SUBSCRIPTION_STATUSES \<longrightarrow>
       (\<exists>r'. find_by subscription_id i (subscriptions (lifecycle_run fails others now now' s)) = Some r' \<and>
          subscription_status r' = subscription_status r)"
    using step terminal_closed unfolding status_step_def by metis
  show "\<forall>i (sub :: subscription) to reason act. (\<forall>r\<in>set (subscriptions (others i 0 s)). subscription_id r = subscription_id sub \<longrightarrow>
        subscription_status r \<noteq> subscription_status sub) \<longrightarrow>
      lifecycle_transition (fails i) (others i) sub to reason act s \<in> {s, others i 0 s}"
  proof (intro allI impI)
    fix i to reason act and sub :: subscription
    assume stale: "\<forall>r\<in>set (subscriptions (others i 0 s)). subscription_id r = subscription_id sub \<longrightarrow>
        subscription_status r \<noteq> subscription_status sub"
    then have m: "map (\<lambda>r. if subscription_id r = subscription_id sub \<and> subscription_status r = subscription_status sub
        then r\<lparr>subscription_status := to\<rparr> else r) (subscriptions (others i 0 s)) = subscriptions (others i 0 s)"
      by (intro map_idI) auto
    have "updateSubscriptionStatus (subscription_id sub) (subscription_status sub) to (others i 0 s) = (0, others i 0 s)"
      using stale by (auto simp: updateSubscriptionStatus_def Let_def filter_empty_conv m)
    then show "lifecycle_transition (fails i) (others i) sub to reason act s \<in> {s, others i 0 s}"
      by (simp add: lifecycle_transition_def Let_def split: sum.splits)
  qed
qed

lemma lifecycle_respects_machine_witness:
  "status_step (fx_billing_db Sub_PAST_DUE ''PRO'')
     (lifecycle_run (\<lambda>_. Some 1) (\<lambda>i j s. snd (updateSubscriptionStatus ''b1'' Sub_PAST_DUE Sub_ACTIVE s)) 5 6
        (fx_billing_db Sub_PAST_DUE ''PRO''))"
  using lifecycle_respects_machine[of "\<lambda>i j s. snd (updateSubscriptionStatus ''b1'' Sub_PAST_DUE Sub_ACTIVE s)"
      "fx_billing_db Sub_PAST_DUE ''PRO''" "\<lambda>_. Some 1" 5 6]
  by (simp add: updateSubscriptionStatus_step canTransitionSubscription_def)

text \<open>
  An undisturbed pass over the trials: exactly the trials whose end date has passed become
  EXPIRED, except those whose own first statement failed (a failure never stops the others); every
  other row is untouched; one event is written for each change whose event did not fail; the count is
  the batch's; and when nothing fails a second pass at the same time finds nothing to do.
\<close>

theorem expire_trials_exact:
  assumes "distinct (map subscription_id (subscriptions s))"
    and "expireTrials fails (\<lambda>_ _. id) now s = (n, s')"
  shows "let batch = findExpirableTrialSubscriptions now s in
    n = length batch \<and>
    subscriptions s' = map (\<lambda>r. if \<exists>i<length batch. batch ! i = r \<and> fails i \<noteq> Some 0
       then r\<lparr>subscription_status := Sub_EXPIRED\<rparr> else r) (subscriptions s) \<and>
    subscriptionEvents s' = subscriptionEvents s @ lifecycle_events fails 0 Sub_EXPIRED ''trial_expired'' batch \<and>
    (fails = (\<lambda>_. None) \<longrightarrow> expireTrials fails (\<lambda>_ _. id) now s' = (0, s'))"
proof -
  let ?batch = "findExpirableTrialSubscriptions now s"
  have sub: "set ?batch \<subseteq> set (subscriptions s)" by (auto simp: findExpirableTrialSubscriptions_def)
  have "distinct (map subscription_id ?batch)"
    using assms(1) by (simp add: findExpirableTrialSubscriptions_def distinct_map_filter)
  moreover have "\<forall>r\<in>set ?batch. canTransitionSubscription (subscription_status r) Sub_EXPIRED"
    by (auto simp: findExpirableTrialSubscriptions_def canTransitionSubscription_def)
  ultimately have q: "subscriptions s' = map (\<lambda>r. if subscription_id r \<in> done_ids fails 0 ?batch
        then r\<lparr>subscription_status := Sub_EXPIRED\<rparr> else r) (subscriptions s) \<and>
      subscriptionEvents s' = subscriptionEvents s @ lifecycle_events fails 0 Sub_EXPIRED ''trial_expired'' ?batch"
    using quiet_pass[OF _ sub assms(1), of Sub_EXPIRED] assms(2) unfolding expireTrials_def Let_def by force
  have d: "subscription_id r \<in> done_ids fails 0 ?batch \<longleftrightarrow> (\<exists>i<length ?batch. ?batch ! i = r \<and> fails i \<noteq> Some 0)"
    if "r \<in> set (subscriptions s)" for r
    using that sub assms(1) by (auto simp: done_ids_def distinct_map dest!: inj_onD[where A = "set (subscriptions s)"])
  have rows: "subscriptions s' = map (\<lambda>r. if \<exists>i<length ?batch. ?batch ! i = r \<and> fails i \<noteq> Some 0
       then r\<lparr>subscription_status := Sub_EXPIRED\<rparr> else r) (subscriptions s)"
    unfolding q[THEN conjunct1] using d by (intro map_cong) auto
  have "findExpirableTrialSubscriptions now s' = []" if "fails = (\<lambda>_. None)"
  proof -
    have "\<exists>i<length ?batch. ?batch ! i = r"
      if "r \<in> set (subscriptions s)" "subscription_status r = Sub_TRIAL" "date_before (subscription_trialEndDate r) now" for r
    proof -
      have "r \<in> set ?batch" using that by (simp add: findExpirableTrialSubscriptions_def)
      then show ?thesis unfolding in_set_conv_nth .
    qed
    then show ?thesis using that
      by (auto simp: findExpirableTrialSubscriptions_def[of now s'] rows filter_empty_conv)
  qed
  then show ?thesis using q rows assms(2) by (auto simp: expireTrials_def Let_def)
qed

lemma expire_trials_exact_witness:
  "map subscription_status (subscriptions (snd (expireTrials (\<lambda>_. None) (\<lambda>_ _. id) 1001 (fx_billing_db Sub_TRIAL ''PRO'')))) = [Sub_EXPIRED] \<and>
   fst (expireTrials (\<lambda>_. None) (\<lambda>_ _. id) 1001 (fx_billing_db Sub_TRIAL ''PRO'')) = 1"
proof -
  have "distinct (map subscription_id (subscriptions (fx_billing_db Sub_TRIAL ''PRO'')))" by (simp add: fx_billing_db_def)
  note e = expire_trials_exact[OF this surjective_pairing, where fails = "\<lambda>_. None" and now = 1001]
  have b: "findExpirableTrialSubscriptions 1001 (fx_billing_db Sub_TRIAL ''PRO'') = [fx_subscription Sub_TRIAL ''PRO'']"
    by (simp add: findExpirableTrialSubscriptions_def fx_billing_db_def fx_subscription_def date_before_def)
  show ?thesis using e unfolding b Let_def by (simp add: fx_billing_db_def)
qed

text \<open>
  The guard of \<open>changePlan\<close> is checked against an earlier read: if the subscription expires (or
  is cancelled) between that read and the transaction, the request still succeeds, changes the plan of
  the terminated subscription and records an event with the status it no longer has.
\<close>

theorem changePlan_on_terminated:
  assumes "findEnterpriseWithCurrentSubscription e s = Inr (Some (enterprise, Some (sub, plan)))"
    and "subscription_status sub \<notin> set TERMINAL_SUBSCRIPTION_STATUSES"
    and "findPlan newPlan s \<noteq> None" and "subscription_planId sub \<noteq> newPlan"
    and "find_by subscription_id (subscription_id sub) (subscriptions (others s)) = Some row"
    and "subscription_status row \<in> set TERMINAL_SUBSCRIPTION_STATUSES"
  shows "\<exists>cache' s'. changePlan others e newPlan actor reason cache s = (Inr (subscription_id sub), cache', s') \<and>
    find_by subscription_id (subscription_id sub) (subscriptions s') = Some (row\<lparr>subscription_planId := newPlan\<rparr>) \<and>
    event_fromStatus (last (subscriptionEvents s')) = Some (subscription_status sub) \<and>
    subscription_status sub \<noteq> subscription_status row"
  using assms
  by (auto simp: changePlan_def changeSubscriptionPlan_def subscription_update_def commit_txn_def
      createSubscriptionEvent_def auditLog_record_def find_by_update_by split: option.splits dest: find_by_SomeD)

lemma changePlan_on_terminated_witness:
  "\<exists>cache' s'. changePlan (\<lambda>s. snd (expireTrials (\<lambda>_. None) (\<lambda>_ _. id) 1001 s)) ''e1'' ''FREE'' ''admin'' None []
     (fx_billing_db Sub_TRIAL ''PRO'') = (Inr ''b1'', cache', s') \<and>
   find_by subscription_id ''b1'' (subscriptions s') = Some (fx_subscription Sub_EXPIRED ''FREE'')"
proof -
  let ?s = "fx_billing_db Sub_TRIAL ''PRO''"
  let ?o = "\<lambda>s. snd (expireTrials (\<lambda>_. None) (\<lambda>_ _. id) 1001 s)"
  have f: "findEnterpriseWithCurrentSubscription ''e1'' ?s =
      Inr (Some ((fx_enterprise ''e1'')\<lparr>ent_currentSubscriptionId := Some ''b1''\<rparr>, Some (fx_subscription Sub_TRIAL ''PRO'', fx_plan ''PRO'' ''PRO'' 10)))"
    by (simp add: findEnterpriseWithCurrentSubscription_def current_subscription_def fx_billing_db_def fx_enterprise_def
        fx_subscription_def fx_plan_def)
  have after: "find_by subscription_id ''b1'' (subscriptions (?o ?s)) = Some (fx_subscription Sub_EXPIRED ''PRO'')"
    by (simp add: expireTrials_def findExpirableTrialSubscriptions_def fx_billing_db_def fx_subscription_def date_before_def
        lifecycle_transition_def assertSubscriptionTransition_def canTransitionSubscription_def
        updateSubscriptionStatus_def createSubscriptionEvent_def auditLog_record_def)
  have "\<exists>cache' s'. changePlan ?o ''e1'' ''FREE'' ''admin'' None [] ?s = (Inr (subscription_id (fx_subscription Sub_TRIAL ''PRO'')), cache', s') \<and>
    find_by subscription_id (subscription_id (fx_subscription Sub_TRIAL ''PRO'')) (subscriptions s') =
      Some ((fx_subscription Sub_EXPIRED ''PRO'')\<lparr>subscription_planId := ''FREE''\<rparr>) \<and>
    event_fromStatus (last (subscriptionEvents s')) = Some (subscription_status (fx_subscription Sub_TRIAL ''PRO'')) \<and>
    subscription_status (fx_subscription Sub_TRIAL ''PRO'') \<noteq> subscription_status (fx_subscription Sub_EXPIRED ''PRO'')"
    by (rule changePlan_on_terminated[OF f])
      (use after in \<open>simp_all add: fx_subscription_def TERMINAL_SUBSCRIPTION_STATUSES_def findPlan_def fx_billing_db_def fx_plan_def\<close>)
  then show ?thesis by (simp add: fx_subscription_def) blast
qed

end
