(* ===== verification/Money.thy ===== *)
theory Money
  imports Prelude
begin

text \<open>
  Amounts: the totals of a document line (\<open>lineTotals\<close>, copied in sales, purchases, invoicing and
  reports), their sum over a document, and the split of a tax-inclusive subscription amount
  (payments/invoice-generation.service.ts). Amounts are integers of XOF, the source computes them
  in doubles; below 2^53 every product of the code is exact and \<open>Math.round\<close> of the quotient is
  \<open>js_round_div\<close>.
\<close>

record line_totals =
  lineTotalExcludingTax :: int
  lineTotalVat :: int
  lineTotalIncludingTax :: int

definition lineTotals :: "int \<Rightarrow> int \<Rightarrow> int \<Rightarrow> line_totals" where
  "lineTotals quantity unitPriceExcludingTax vatRateBasisPoints =
     (let excl = quantity * unitPriceExcludingTax;
          vat = js_round_div (excl * vatRateBasisPoints) 10000
      in \<lparr>lineTotalExcludingTax = excl, lineTotalVat = vat, lineTotalIncludingTax = excl + vat\<rparr>)"

record doc_totals =
  totalExcludingTax :: int
  totalVat :: int
  totalIncludingTax :: int

text \<open>\<open>lines.reduce((acc, line) => ..., \{0, 0, 0\})\<close>.\<close>

definition reduce_totals :: "line_totals list \<Rightarrow> doc_totals" where
  "reduce_totals ts = foldl (\<lambda>acc t.
     \<lparr>totalExcludingTax = totalExcludingTax acc + lineTotalExcludingTax t,
      totalVat = totalVat acc + lineTotalVat t,
      totalIncludingTax = totalIncludingTax acc + lineTotalIncludingTax t\<rparr>)
     \<lparr>totalExcludingTax = 0, totalVat = 0, totalIncludingTax = 0\<rparr> ts"

lemma reduce_totals_eq:
  "reduce_totals ts =
   \<lparr>totalExcludingTax = (\<Sum>t\<leftarrow>ts. lineTotalExcludingTax t), totalVat = (\<Sum>t\<leftarrow>ts. lineTotalVat t),
    totalIncludingTax = (\<Sum>t\<leftarrow>ts. lineTotalIncludingTax t)\<rparr>"
proof -
  have "foldl (\<lambda>acc t.
     \<lparr>totalExcludingTax = totalExcludingTax acc + lineTotalExcludingTax t,
      totalVat = totalVat acc + lineTotalVat t,
      totalIncludingTax = totalIncludingTax acc + lineTotalIncludingTax t\<rparr>)
     \<lparr>totalExcludingTax = a, totalVat = b, totalIncludingTax = c\<rparr> ts =
     \<lparr>totalExcludingTax = a + (\<Sum>t\<leftarrow>ts. lineTotalExcludingTax t),
      totalVat = b + (\<Sum>t\<leftarrow>ts. lineTotalVat t),
      totalIncludingTax = c + (\<Sum>t\<leftarrow>ts. lineTotalIncludingTax t)\<rparr>" for a b c
    by (induction ts arbitrary: a b c) (auto simp: add.assoc)
  from this[of 0 0 0] show ?thesis by (simp add: reduce_totals_def)
qed

lemma lineTotals_simps [simp]:
  "lineTotalExcludingTax (lineTotals q p r) = q * p"
  "lineTotalVat (lineTotals q p r) = js_round_div (q * p * r) 10000"
  "lineTotalIncludingTax (lineTotals q p r) = q * p + js_round_div (q * p * r) 10000"
  by (simp_all add: lineTotals_def Let_def)

lemma lineTotals_nonneg:
  assumes "0 \<le> q" and "0 \<le> p" and "0 \<le> r"
  shows "0 \<le> lineTotalVat (lineTotals q p r)"
    and "lineTotalExcludingTax (lineTotals q p r) \<le> lineTotalIncludingTax (lineTotals q p r)"
  using assms by (simp_all add: js_round_div_nonneg)

text \<open>The document's tax-inclusive total is the sum of its two other totals.\<close>

lemma reduce_totals_consistent:
  assumes "\<forall>t\<in>set ts. lineTotalIncludingTax t = lineTotalExcludingTax t + lineTotalVat t"
  shows "totalIncludingTax (reduce_totals ts) =
         totalExcludingTax (reduce_totals ts) + totalVat (reduce_totals ts)"
  using assms by (induction ts) (auto simp: reduce_totals_eq)

text \<open>
  Rounding line by line: the tax of a document of \<open>n\<close> lines is within \<open>n\<close> half francs of the exact
  tax, written without fractions.
\<close>

lemma reduce_totals_vat_error:
  fixes xs :: "(int \<times> int \<times> int) list"
  shows "\<bar>2 * (10000 * totalVat (reduce_totals (map (\<lambda>(q, p, r). lineTotals q p r) xs)) -
            (\<Sum>(q, p, r)\<leftarrow>xs. q * p * r))\<bar> \<le> 10000 * int (length xs)"
proof (induction xs)
  case Nil
  then show ?case by (simp add: reduce_totals_eq)
next
  case (Cons x xs)
  obtain q p r where x: "x = (q, p, r)" by (cases x)
  have "\<bar>2 * (10000 * js_round_div (q * p * r) 10000 - q * p * r)\<bar> \<le> 10000"
    by (rule js_round_div_error) simp
  with Cons show ?case by (simp add: x reduce_totals_eq)
qed

text \<open>
  invoice-generation.service.ts: the subscription price includes 18% tax; the part without tax is
  rounded and the tax is the rest.
\<close>

definition VAT_RATE_BASIS_POINTS :: int where
  "VAT_RATE_BASIS_POINTS = 1800"

definition amountExcludingTax :: "int \<Rightarrow> int" where
  "amountExcludingTax amount = js_round_div (amount * 10000) (10000 + VAT_RATE_BASIS_POINTS)"

definition vatAmount :: "int \<Rightarrow> int" where
  "vatAmount amount = amount - amountExcludingTax amount"

lemma split_bounds:
  assumes "0 \<le> amount"
  shows "0 \<le> amountExcludingTax amount" and "amountExcludingTax amount \<le> amount"
    and "0 \<le> vatAmount amount" and "amountExcludingTax amount + vatAmount amount = amount"
proof -
  show "0 \<le> amountExcludingTax amount"
    using assms by (simp add: amountExcludingTax_def VAT_RATE_BASIS_POINTS_def js_round_div_nonneg)
  show le: "amountExcludingTax amount \<le> amount"
    unfolding amountExcludingTax_def VAT_RATE_BASIS_POINTS_def using assms
    by (intro js_round_div_le) simp_all
  then show "0 \<le> vatAmount amount" by (simp add: vatAmount_def)
  show "amountExcludingTax amount + vatAmount amount = amount" by (simp add: vatAmount_def)
qed

text \<open>The tax is 18% of the part without tax, up to 0.59 franc.\<close>

lemma split_rate:
  "\<bar>10000 * vatAmount amount - VAT_RATE_BASIS_POINTS * amountExcludingTax amount\<bar> \<le> 5900"
proof -
  have "\<bar>2 * (11800 * amountExcludingTax amount - amount * 10000)\<bar> \<le> 11800"
    unfolding amountExcludingTax_def VAT_RATE_BASIS_POINTS_def
    using js_round_div_error[of 11800 "amount * 10000"] by simp
  then show ?thesis by (simp add: vatAmount_def VAT_RATE_BASIS_POINTS_def abs_le_iff algebra_simps)
qed

end
