(* ===== verification/Sales.thy ===== *)
theory Sales
  imports Stock Money
begin

text \<open>
  apps/api/src/sales: sales with lines, created as drafts with the catalogue's prices, confirmed
  (which takes the stock out) or cancelled. Definitions follow sales.repository.ts and
  sales.service.ts. A transaction under read committed sees in its first statement the database
  \<open>s0\<close> and in the later ones \<open>s\<close>; without concurrent commit the two are the same.
\<close>

section \<open>Views\<close>

record sale_line_view =
  slv_id :: uuid
  slv_productId :: uuid
  slv_productCode :: string
  slv_productName :: string
  slv_quantity :: int
  slv_unitPriceExcludingTax :: int
  slv_vatRateBasisPoints :: int
  slv_totals :: line_totals

record sale_view =
  sv_id :: uuid
  sv_enterpriseId :: uuid
  sv_customerId :: uuid
  sv_customerName :: string
  sv_status :: sale_status
  sv_saleDate :: date
  sv_notes :: "string option"
  sv_confirmedAt :: "date option"
  sv_cancelledAt :: "date option"
  sv_lines :: "sale_line_view list"
  sv_createdAt :: date
  sv_updatedAt :: date
  sv_totals :: doc_totals

record sale_list_item =
  sli_id :: uuid
  sli_customerId :: uuid
  sli_customerName :: string
  sli_status :: sale_status
  sli_saleDate :: date
  sli_linesCount :: nat
  sli_createdAt :: date
  sli_totals :: doc_totals

record create_sale_result =
  csr_view :: sale_view
  csr_created :: bool

text \<open>\<open>include: \{ lines: \{ include: \{ product: true \} \}, customer: true \}\<close>.\<close>

record sale_payload =
  payload_sale :: sale
  payload_lines :: "(sale_line \<times> product) list"
  payload_customer :: customer

definition sale_include :: "db \<Rightarrow> sale \<Rightarrow> exn + sale_payload" where
  "sale_include s sale =
     (case sum_mapM (\<lambda>line. case find_by product_id (saleLine_productId line) (products s) of
                       None \<Rightarrow> Inl PrismaUnknown | Some product \<Rightarrow> Inr (line, product)) (sale_lines sale) of
        Inl e \<Rightarrow> Inl e
      | Inr lines \<Rightarrow> (case find_by customer_id (sale_customerId sale) (customers s) of
          None \<Rightarrow> Inl PrismaUnknown
        | Some customer \<Rightarrow>
            Inr \<lparr>payload_sale = sale, payload_lines = lines, payload_customer = customer\<rparr>))"

definition sale_line_totals :: "sale_line \<Rightarrow> line_totals" where
  "sale_line_totals line =
     lineTotals (saleLine_quantity line) (saleLine_unitPriceExcludingTax line) (saleLine_vatRateBasisPoints line)"

definition toSaleLineView :: "sale_line \<times> product \<Rightarrow> sale_line_view" where
  "toSaleLineView lp = (case lp of (line, product) \<Rightarrow>
     \<lparr>slv_id = saleLine_id line, slv_productId = saleLine_productId line,
      slv_productCode = product_code product, slv_productName = product_name product,
      slv_quantity = saleLine_quantity line,
      slv_unitPriceExcludingTax = saleLine_unitPriceExcludingTax line,
      slv_vatRateBasisPoints = saleLine_vatRateBasisPoints line,
      slv_totals = sale_line_totals line\<rparr>)"

definition toSaleView :: "sale_payload \<Rightarrow> sale_view" where
  "toSaleView payload =
     (let sale = payload_sale payload;
          lines = map toSaleLineView (payload_lines payload)
      in \<lparr>sv_id = sale_id sale, sv_enterpriseId = sale_enterpriseId sale,
          sv_customerId = sale_customerId sale,
          sv_customerName = customer_name (payload_customer payload), sv_status = sale_status sale,
          sv_saleDate = sale_saleDate sale, sv_notes = sale_notes sale,
          sv_confirmedAt = sale_confirmedAt sale, sv_cancelledAt = sale_cancelledAt sale,
          sv_lines = lines, sv_createdAt = sale_createdAt sale, sv_updatedAt = sale_updatedAt sale,
          sv_totals = reduce_totals (map slv_totals lines)\<rparr>)"

section \<open>Creation\<close>

record create_sale_line_input =
  saleInput_productId :: uuid
  saleInput_quantity :: int

record create_sale_input =
  saleInput_customerId :: uuid
  saleInput_notes :: "string option"
  saleInput_lines :: "create_sale_line_input list"

definition createSaleSchema :: "create_sale_input \<Rightarrow> bool" where
  "createSaleSchema input \<longleftrightarrow> saleInput_notes input \<noteq> Some [] \<and> saleInput_lines input \<noteq> [] \<and>
     (\<forall>line\<in>set (saleInput_lines input). 1 \<le> saleInput_quantity line)"

definition sale_findByKey :: "uuid \<Rightarrow> string option \<Rightarrow> db \<Rightarrow> sale option" where
  "sale_findByKey enterpriseId idempotencyKey s =
     List.find (\<lambda>r. sale_enterpriseId r = enterpriseId \<and> sale_idempotencyKey r = idempotencyKey) (sales s)"

text \<open>\<open>tx.sale.create\<close>: primary keys of the sale and of its lines, and the idempotency constraint.\<close>

definition sale_create :: "sale \<Rightarrow> (db, exn, sale) txn" where
  "sale_create row s =
     (if sale_id row \<in> sale_id ` set (sales s) \<or>
         \<not> distinct (map saleLine_id (sale_lines row)) \<or>
         (\<exists>r\<in>set (sales s). \<exists>l\<in>set (sale_lines r). saleLine_id l \<in> saleLine_id ` set (sale_lines row)) \<or>
         clashes_key sale_enterpriseId sale_idempotencyKey row (sales s)
      then Inl (PrismaKnown P2002)
      else Inr (row, s\<lparr>sales := sales s @ [row]\<rparr>))"

text \<open>The lines to create: price and tax rate are the product's, never the caller's.\<close>

definition new_sale_lines :: "(nat \<Rightarrow> uuid) \<Rightarrow> uuid \<Rightarrow> (uuid \<Rightarrow> product option) \<Rightarrow> create_sale_line_input list \<Rightarrow> sale_line list" where
  "new_sale_lines lineIds enterpriseId productsById lines =
     map (\<lambda>(i, line). let product = the (productsById (saleInput_productId line)) in
            \<lparr>saleLine_id = lineIds i, saleLine_enterpriseId = enterpriseId,
             saleLine_productId = saleInput_productId line, saleLine_quantity = saleInput_quantity line,
             saleLine_unitPriceExcludingTax = product_sellingPriceExcludingTax product,
             saleLine_vatRateBasisPoints = product_vatRateBasisPoints product\<rparr>)
       (enumerate 0 lines)"

definition replayed_sale :: "db \<Rightarrow> sale \<Rightarrow> exn + create_sale_result" where
  "replayed_sale s existing = (case sale_include s existing of
     Inl e \<Rightarrow> Inl e | Inr payload \<Rightarrow> Inr \<lparr>csr_view = toSaleView payload, csr_created = False\<rparr>)"

definition sales_create ::
    "bool \<Rightarrow> uuid \<Rightarrow> (nat \<Rightarrow> uuid) \<Rightarrow> date \<Rightarrow> uuid \<Rightarrow> create_sale_input \<Rightarrow> string option \<Rightarrow> db \<Rightarrow>
     (db, exn, create_sale_result) txn" where
  "sales_create alive newId lineIds now enterpriseId input idempotencyKey s0 s =
     (case (if truthy idempotencyKey then sale_findByKey enterpriseId idempotencyKey s0 else None) of
        Some existing \<Rightarrow> (case replayed_sale s0 existing of Inl e \<Rightarrow> Inl e | Inr r \<Rightarrow> Inr (r, s))
      | None \<Rightarrow>
     (case find_by customer_id (saleInput_customerId input) (customers s) of
        None \<Rightarrow> Inl (NotFoundException ''Client introuvable'')
      | Some customer \<Rightarrow>
     if customer_enterpriseId customer \<noteq> enterpriseId then Inl (NotFoundException ''Client introuvable'')
     else
     (let productIds = js_set (map saleInput_productId (saleInput_lines input));
          found = filter (\<lambda>p. product_id p \<in> set productIds) (products s);
          productsById = (\<lambda>i. find_by product_id i found)
      in case List.find (\<lambda>i. case productsById i of None \<Rightarrow> True | Some p \<Rightarrow> product_enterpriseId p \<noteq> enterpriseId)
                productIds of
           Some productId \<Rightarrow> Inl (NotFoundException (''Produit introuvable : '' @ productId))
         | None \<Rightarrow>
     (case sale_create
             \<lparr>sale_id = newId, sale_enterpriseId = enterpriseId, sale_customerId = saleInput_customerId input,
              sale_status = Sale_DRAFT, sale_saleDate = now, sale_notes = saleInput_notes input,
              sale_confirmedAt = None, sale_cancelledAt = None, sale_idempotencyKey = idempotencyKey,
              sale_createdAt = now, sale_updatedAt = now,
              sale_lines = new_sale_lines lineIds enterpriseId productsById (saleInput_lines input)\<rparr> s of
        Inr (sale, s') \<Rightarrow> (case sale_include s' sale of
            Inl e \<Rightarrow> Inl e
          | Inr payload \<Rightarrow> Inr (\<lparr>csr_view = toSaleView payload, csr_created = True\<rparr>, s'))
      | Inl error \<Rightarrow>
          if truthy idempotencyKey \<and> error = PrismaKnown P2002 then
            if \<not> alive then Inl PrismaUnknown
            else (case sale_findByKey enterpriseId idempotencyKey s of
                    Some existing \<Rightarrow> (case replayed_sale s existing of Inl e \<Rightarrow> Inl e | Inr r \<Rightarrow> Inr (r, s))
                  | None \<Rightarrow> Inl error)
          else Inl error))))"

section \<open>Reading\<close>

record list_sales_query =
  slq_page :: nat
  slq_pageSize :: nat
  slq_search :: "string option"
  slq_status :: "sale_status option"

definition sale_where :: "(string \<Rightarrow> string \<Rightarrow> bool) \<Rightarrow> uuid \<Rightarrow> list_sales_query \<Rightarrow> db \<Rightarrow> sale \<Rightarrow> bool" where
  "sale_where ilike enterpriseId query s sale =
     (sale_enterpriseId sale = enterpriseId \<and>
      (case slq_status query of None \<Rightarrow> True | Some st \<Rightarrow> sale_status sale = st) \<and>
      (truthy (slq_search query) \<longrightarrow>
         (case find_by customer_id (sale_customerId sale) (customers s) of
            None \<Rightarrow> False | Some c \<Rightarrow> ilike (customer_name c) (the (slq_search query)))))"

definition toSaleListItem :: "db \<Rightarrow> sale \<Rightarrow> exn + sale_list_item" where
  "toSaleListItem s sale = (case find_by customer_id (sale_customerId sale) (customers s) of
     None \<Rightarrow> Inl PrismaUnknown
   | Some customer \<Rightarrow> Inr
       \<lparr>sli_id = sale_id sale, sli_customerId = sale_customerId sale,
        sli_customerName = customer_name customer, sli_status = sale_status sale,
        sli_saleDate = sale_saleDate sale, sli_linesCount = length (sale_lines sale),
        sli_createdAt = sale_createdAt sale,
        sli_totals = reduce_totals (map sale_line_totals (sale_lines sale))\<rparr>)"

definition sales_findMany ::
    "(string \<Rightarrow> string \<Rightarrow> bool) \<Rightarrow> uuid \<Rightarrow> list_sales_query \<Rightarrow> db \<Rightarrow> exn + sale_list_item page_result" where
  "sales_findMany ilike enterpriseId query s =
     (let matching = filter (sale_where ilike enterpriseId query s) (sales s);
          found = page_rows (slq_page query) (slq_pageSize query) (descending sale_createdAt matching)
      in case sum_mapM (toSaleListItem s) found of
           Inl e \<Rightarrow> Inl e
         | Inr items \<Rightarrow> Inr \<lparr>result_items = items, result_total = length matching,
             result_page = slq_page query, result_pageSize = slq_pageSize query\<rparr>)"

definition getSaleOrThrow :: "uuid \<Rightarrow> uuid \<Rightarrow> db \<Rightarrow> exn + sale_payload" where
  "getSaleOrThrow enterpriseId saleId s = (case find_by sale_id saleId (sales s) of
     None \<Rightarrow> Inl (NotFoundException ''Vente introuvable'')
   | Some sale \<Rightarrow> (case sale_include s sale of
       Inl e \<Rightarrow> Inl e
     | Inr payload \<Rightarrow>
         if sale_enterpriseId sale \<noteq> enterpriseId then Inl (NotFoundException ''Vente introuvable'')
         else Inr payload))"

definition sales_findByIdOrThrow :: "uuid \<Rightarrow> uuid \<Rightarrow> db \<Rightarrow> exn + sale_view" where
  "sales_findByIdOrThrow enterpriseId saleId s = (case getSaleOrThrow enterpriseId saleId s of
     Inl e \<Rightarrow> Inl e | Inr payload \<Rightarrow> Inr (toSaleView payload))"

section \<open>Confirmation and cancellation\<close>

text \<open>\<open>tx.sale.update(\{ where: \{ id \}, data, include \})\<close>.\<close>

definition sale_update :: "uuid \<Rightarrow> (sale \<Rightarrow> sale) \<Rightarrow> (db, exn, sale_payload) txn" where
  "sale_update saleId f s = (case find_by sale_id saleId (sales s) of
     None \<Rightarrow> Inl (PrismaKnown P2025)
   | Some sale \<Rightarrow> (let s' = s\<lparr>sales := update_by sale_id saleId f (sales s)\<rparr> in
       case sale_include s' (f sale) of Inl e \<Rightarrow> Inl e | Inr payload \<Rightarrow> Inr (payload, s')))"

definition sale_movement :: "uuid \<Rightarrow> sale_line \<Rightarrow> create_movement_input" where
  "sale_movement saleId line =
     \<lparr>input_productId = saleLine_productId line, input_type = Mov_OUT,
      input_quantity = saleLine_quantity line, input_note = Some (''Vente '' @ saleId)\<rparr>"

definition sales_confirm_tx :: "bool \<Rightarrow> (uuid \<Rightarrow> uuid) \<Rightarrow> date \<Rightarrow> uuid \<Rightarrow> uuid \<Rightarrow> (db, exn, sale_view) txn" where
  "sales_confirm_tx alive movementIds now enterpriseId saleId s =
     (case getSaleOrThrow enterpriseId saleId s of
        Inl e \<Rightarrow> Inl e
      | Inr payload \<Rightarrow>
     if sale_status (payload_sale payload) \<noteq> Sale_DRAFT
     then Inl (ConflictException ''Seule une vente en brouillon peut etre confirmee'')
     else
     (case sum_foldM (\<lambda>s (line, product).
             if product_trackStock product
             then post_movement alive now enterpriseId s
                    (movementIds (saleLine_id line), sale_movement (sale_id (payload_sale payload)) line)
             else Inr s) s (payload_lines payload) of
        Inl e \<Rightarrow> Inl e
      | Inr s1 \<Rightarrow>
     (case sale_update saleId (\<lambda>sale. sale\<lparr>sale_status := Sale_CONFIRMED, sale_confirmedAt := Some now,
                                          sale_updatedAt := now\<rparr>) s1 of
        Inl e \<Rightarrow> Inl e
      | Inr (confirmed, s2) \<Rightarrow> Inr (toSaleView confirmed, s2))))"

definition sales_confirm ::
    "tenant_store option \<Rightarrow> (nat \<Rightarrow> bool) \<Rightarrow> bool \<Rightarrow> (uuid \<Rightarrow> uuid) \<Rightarrow> date \<Rightarrow> uuid \<Rightarrow> uuid \<Rightarrow> db \<Rightarrow>
     (exn + sale_view) \<times> db" where
  "sales_confirm store abort alive movementIds now enterpriseId saleId =
     serializable_409 ''Conflit de concurrence, veuillez reessayer'' store abort
       (sales_confirm_tx alive movementIds now enterpriseId saleId)"

definition sales_cancel :: "date \<Rightarrow> uuid \<Rightarrow> uuid \<Rightarrow> (db, exn, sale_view) txn" where
  "sales_cancel now enterpriseId saleId s =
     (case getSaleOrThrow enterpriseId saleId s of
        Inl e \<Rightarrow> Inl e
      | Inr payload \<Rightarrow>
     if sale_status (payload_sale payload) \<noteq> Sale_DRAFT
     then Inl (BadRequestException ''Seule une vente en brouillon peut etre annulee'')
     else
     (case sale_update saleId (\<lambda>sale. sale\<lparr>sale_status := Sale_CANCELLED, sale_cancelledAt := Some now,
                                          sale_updatedAt := now\<rparr>) s of
        Inl e \<Rightarrow> Inl e
      | Inr (cancelled, s') \<Rightarrow> Inr (toSaleView cancelled, s')))"

section \<open>The service\<close>

definition sales_service_create ::
    "tenant_store option \<Rightarrow> bool \<Rightarrow> uuid \<Rightarrow> (nat \<Rightarrow> uuid) \<Rightarrow> date \<Rightarrow> uuid \<Rightarrow> uuid \<Rightarrow> create_sale_input \<Rightarrow>
     string option \<Rightarrow> db \<Rightarrow> db \<Rightarrow> (exn + sale_view) \<times> db" where
  "sales_service_create store alive newId lineIds now enterpriseId userId input idempotencyKey s0 s =
     (case tenant_run store (sales_create alive newId lineIds now enterpriseId input idempotencyKey s0) s of
        (Inl e, s') \<Rightarrow> (Inl e, s')
      | (Inr r, s') \<Rightarrow>
          (Inr (csr_view r),
           if csr_created r
           then auditLog_record (audit_entry userId enterpriseId CREATE_SALE ''Sale'' (sv_id (csr_view r))) s'
           else s'))"

definition sales_service_confirm ::
    "tenant_store option \<Rightarrow> (nat \<Rightarrow> bool) \<Rightarrow> bool \<Rightarrow> (uuid \<Rightarrow> uuid) \<Rightarrow> date \<Rightarrow> uuid \<Rightarrow> uuid \<Rightarrow> uuid \<Rightarrow> db \<Rightarrow>
     (exn + sale_view) \<times> db" where
  "sales_service_confirm store abort alive movementIds now enterpriseId userId saleId s =
     (case sales_confirm store abort alive movementIds now enterpriseId saleId s of
        (Inl e, s') \<Rightarrow> (Inl e, s')
      | (Inr sale, s') \<Rightarrow>
          (Inr sale, auditLog_record (audit_entry userId enterpriseId CONFIRM_SALE ''Sale'' (sv_id sale)) s'))"

definition sales_service_cancel ::
    "tenant_store option \<Rightarrow> date \<Rightarrow> uuid \<Rightarrow> uuid \<Rightarrow> uuid \<Rightarrow> db \<Rightarrow> (exn + sale_view) \<times> db" where
  "sales_service_cancel store now enterpriseId userId saleId s =
     (case tenant_run store (sales_cancel now enterpriseId saleId) s of
        (Inl e, s') \<Rightarrow> (Inl e, s')
      | (Inr sale, s') \<Rightarrow>
          (Inr sale, auditLog_record (audit_entry userId enterpriseId CANCEL_SALE ''Sale'' (sv_id sale)) s'))"

section \<open>Joins\<close>

definition sale_payload_of :: "db \<Rightarrow> sale \<Rightarrow> sale_payload" where
  "sale_payload_of s sale =
     \<lparr>payload_sale = sale,
      payload_lines = map (\<lambda>line. (line, the (find_by product_id (saleLine_productId line) (products s)))) (sale_lines sale),
      payload_customer = the (find_by customer_id (sale_customerId sale) (customers s))\<rparr>"

lemma sale_include_eq:
  "sale_include s sale =
   (if (\<forall>line\<in>set (sale_lines sale). find_by product_id (saleLine_productId line) (products s) \<noteq> None) \<and>
       find_by customer_id (sale_customerId sale) (customers s) \<noteq> None
    then Inr (sale_payload_of s sale) else Inl PrismaUnknown)"
  by (auto simp: sale_include_def sum_mapM_lookup sale_payload_of_def split: option.splits)

lemma sale_payload_of_sale [simp]: "payload_sale (sale_payload_of s sale) = sale"
  by (simp add: sale_payload_of_def)

lemma toSaleView_payload_of [simp]:
  "sv_id (toSaleView (sale_payload_of s sale)) = sale_id sale"
  "sv_status (toSaleView (sale_payload_of s sale)) = sale_status sale"
  "sv_enterpriseId (toSaleView (sale_payload_of s sale)) = sale_enterpriseId sale"
  "sv_totals (toSaleView (sale_payload_of s sale)) = reduce_totals (map sale_line_totals (sale_lines sale))"
  by (simp_all add: toSaleView_def Let_def sale_payload_of_def o_def toSaleLineView_def)

lemma getSaleOrThrow_Inr_iff:
  "getSaleOrThrow e i s = Inr payload \<longleftrightarrow>
   (\<exists>sale. find_by sale_id i (sales s) = Some sale \<and> sale_enterpriseId sale = e \<and>
      sale_include s sale = Inr payload \<and> payload = sale_payload_of s sale)"
  by (auto simp: getSaleOrThrow_def sale_include_eq split: option.splits)

section \<open>Well-formed sales\<close>

definition sale_wf :: "db \<Rightarrow> sale \<Rightarrow> bool" where
  "sale_wf s sale \<longleftrightarrow> owned_customer (sale_enterpriseId sale) (sale_customerId sale) s \<and>
     sale_lines sale \<noteq> [] \<and> distinct (map saleLine_id (sale_lines sale)) \<and>
     (\<forall>line\<in>set (sale_lines sale). 1 \<le> saleLine_quantity line \<and>
        saleLine_enterpriseId line = sale_enterpriseId sale \<and>
        owned_product (sale_enterpriseId sale) (saleLine_productId line) s)"

definition sales_wf :: "db \<Rightarrow> bool" where
  "sales_wf s \<longleftrightarrow> distinct (map sale_id (sales s)) \<and>
     unique_key sale_enterpriseId sale_idempotencyKey (sales s) \<and> (\<forall>sale\<in>set (sales s). sale_wf s sale)"

lemma sale_wf_mono:
  assumes "sale_wf s sale"
    and "\<And>e i. owned_product e i s \<Longrightarrow> owned_product e i s'"
    and "\<And>e i. owned_customer e i s \<Longrightarrow> owned_customer e i s'"
  shows "sale_wf s' sale"
  using assms by (auto simp: sale_wf_def)

lemma sales_wf_mono:
  assumes "sales_wf s" and "sales s' = sales s"
    and "\<And>e i. owned_product e i s \<Longrightarrow> owned_product e i s'"
    and "\<And>e i. owned_customer e i s \<Longrightarrow> owned_customer e i s'"
  shows "sales_wf s'"
  using assms sale_wf_mono unfolding sales_wf_def by metis

lemma sale_wf_includes: "sale_wf s sale \<Longrightarrow> sale_include s sale = Inr (sale_payload_of s sale)"
  by (fastforce simp: sale_wf_def sale_include_eq dest: owned_SomeD)

section \<open>Confirmation\<close>

text \<open>The lines that move stock, the postings they become, and what they ask of each product.\<close>

definition tracked_lines :: "db \<Rightarrow> sale \<Rightarrow> sale_line list" where
  "tracked_lines s sale =
     filter (\<lambda>line. product_trackStock (the (find_by product_id (saleLine_productId line) (products s)))) (sale_lines sale)"

definition sale_postings :: "(uuid \<Rightarrow> uuid) \<Rightarrow> db \<Rightarrow> sale \<Rightarrow> (uuid \<times> create_movement_input) list" where
  "sale_postings movementIds s sale =
     map (\<lambda>line. (movementIds (saleLine_id line), sale_movement (sale_id sale) line)) (tracked_lines s sale)"

definition sale_demand :: "db \<Rightarrow> sale \<Rightarrow> uuid \<Rightarrow> int" where
  "sale_demand s sale p =
     (\<Sum>line\<leftarrow>filter (\<lambda>line. saleLine_productId line = p) (tracked_lines s sale). saleLine_quantity line)"

lemma sale_loop_eq:
  "sum_foldM (\<lambda>s (line, product).
       if product_trackStock product
       then post_movement alive now e s (movementIds (saleLine_id line), sale_movement (sale_id sale) line)
       else Inr s) s1 (payload_lines (sale_payload_of s sale)) =
   sum_foldM (post_movement alive now e) s1 (sale_postings movementIds s sale)"
proof -
  have "(\<lambda>s (line, product).
       if product_trackStock product
       then post_movement alive now e s (movementIds (saleLine_id line), sale_movement (sale_id sale) line)
       else Inr s) =
     (\<lambda>s lp. if product_trackStock (snd lp)
       then post_movement alive now e s (movementIds (saleLine_id (fst lp)), sale_movement (sale_id sale) (fst lp))
       else Inr s)" by (auto simp: fun_eq_iff)
  then show ?thesis
    by (simp add: sum_foldM_filter sale_payload_of_def sale_postings_def tracked_lines_def filter_map
        sum_foldM_map o_def)
qed

lemma sale_movement_simps [simp]:
  "input_productId (sale_movement i line) = saleLine_productId line"
  "movement_delta (sale_movement i line) = - saleLine_quantity line"
  by (simp_all add: sale_movement_def movement_delta_def)

lemma moved_sale_postings:
  "stock_ledger.moved p (sale_postings movementIds s sale) = - sale_demand s sale p"
proof -
  have "(\<Sum>m\<leftarrow>filter (\<lambda>m. input_productId (snd m) = p)
          (map (\<lambda>line. (movementIds (saleLine_id line), sale_movement i line)) ls). movement_delta (snd m)) =
        - (\<Sum>line\<leftarrow>filter (\<lambda>line. saleLine_productId line = p) ls. saleLine_quantity line)" for i ls
    by (induction ls) auto
  then show ?thesis by (simp add: sale_postings_def sale_demand_def)
qed

definition confirmed_sale :: "date \<Rightarrow> sale \<Rightarrow> sale" where
  "confirmed_sale now sale =
     sale\<lparr>sale_status := Sale_CONFIRMED, sale_confirmedAt := Some now, sale_updatedAt := now\<rparr>"

definition cancelled_sale :: "date \<Rightarrow> sale \<Rightarrow> sale" where
  "cancelled_sale now sale =
     sale\<lparr>sale_status := Sale_CANCELLED, sale_cancelledAt := Some now, sale_updatedAt := now\<rparr>"

lemma settled_sale_simps [simp]:
  "sale_id (confirmed_sale now sale) = sale_id sale" "sale_id (cancelled_sale now sale) = sale_id sale"
  "sale_enterpriseId (confirmed_sale now sale) = sale_enterpriseId sale"
  "sale_enterpriseId (cancelled_sale now sale) = sale_enterpriseId sale"
  "sale_customerId (confirmed_sale now sale) = sale_customerId sale"
  "sale_customerId (cancelled_sale now sale) = sale_customerId sale"
  "sale_idempotencyKey (confirmed_sale now sale) = sale_idempotencyKey sale"
  "sale_idempotencyKey (cancelled_sale now sale) = sale_idempotencyKey sale"
  "sale_lines (confirmed_sale now sale) = sale_lines sale"
  "sale_lines (cancelled_sale now sale) = sale_lines sale"
  "sale_status (confirmed_sale now sale) = Sale_CONFIRMED"
  "sale_status (cancelled_sale now sale) = Sale_CANCELLED"
  by (simp_all add: confirmed_sale_def cancelled_sale_def)

lemmas settled_sale_folds = confirmed_sale_def[symmetric, abs_def] cancelled_sale_def[symmetric, abs_def]

text \<open>
  The confirmation of an existing sale, once the joins are known to succeed: postings, then the
  status.
\<close>

lemma sales_confirm_tx_eq:
  "sales_confirm_tx alive movementIds now e i s =
   (case getSaleOrThrow e i s of Inl err \<Rightarrow> Inl err | Inr payload \<Rightarrow>
      (let sale = payload_sale payload in
       if sale_status sale \<noteq> Sale_DRAFT
       then Inl (ConflictException ''Seule une vente en brouillon peut etre confirmee'')
       else case sum_foldM (post_movement alive now e) s (sale_postings movementIds s sale) of
         Inl err \<Rightarrow> Inl err
       | Inr s1 \<Rightarrow> Inr (toSaleView (sale_payload_of s (confirmed_sale now sale)),
           s1\<lparr>sales := update_by sale_id i (confirmed_sale now) (sales s1)\<rparr>)))"
proof (cases "getSaleOrThrow e i s")
  case (Inl err)
  then show ?thesis by (simp add: sales_confirm_tx_def)
next
  case (Inr payload)
  then obtain sale where f: "find_by sale_id i (sales s) = Some sale" "sale_enterpriseId sale = e"
    "sale_include s sale = Inr payload" and payload: "payload = sale_payload_of s sale"
    by (auto simp: getSaleOrThrow_Inr_iff)
  have upd: "sale_update i (confirmed_sale now) s1 = Inr (sale_payload_of s (confirmed_sale now sale),
      s1\<lparr>sales := update_by sale_id i (confirmed_sale now) (sales s1)\<rparr>)"
    if "sum_foldM (post_movement alive now e) s (sale_postings movementIds s sale) = Inr s1" for s1
    using f posts_append[OF that]
    by (auto simp: sale_update_def sale_include_eq sale_payload_of_def split: if_splits)
  show ?thesis
    unfolding sales_confirm_tx_def Inr payload sum.case sale_payload_of_sale Let_def sale_loop_eq settled_sale_folds
    by (auto simp: upd split: sum.splits)
qed

lemma sales_confirm_tx_InrE:
  assumes "sales_confirm_tx alive movementIds now e i s = Inr (view, s')"
  obtains sale s1 where "find_by sale_id i (sales s) = Some sale" "sale_enterpriseId sale = e"
    "sale_status sale = Sale_DRAFT"
    "sum_foldM (post_movement alive now e) s (sale_postings movementIds s sale) = Inr s1"
    "s1 = s\<lparr>stockMovements := stockMovements s @ posted now e (sale_postings movementIds s sale)\<rparr>"
    "s' = s1\<lparr>sales := update_by sale_id i (confirmed_sale now) (sales s)\<rparr>"
    "view = toSaleView (sale_payload_of s (confirmed_sale now sale))"
proof -
  obtain payload where p: "getSaleOrThrow e i s = Inr payload"
    using assms by (auto simp: sales_confirm_tx_eq split: sum.splits)
  then obtain sale where f: "find_by sale_id i (sales s) = Some sale" "sale_enterpriseId sale = e"
    and payload: "payload = sale_payload_of s sale"
    by (auto simp: getSaleOrThrow_Inr_iff)
  from assms obtain s1 where d: "sale_status sale = Sale_DRAFT"
    and s1: "sum_foldM (post_movement alive now e) s (sale_postings movementIds s sale) = Inr s1"
    and r: "view = toSaleView (sale_payload_of s (confirmed_sale now sale))"
      "s' = s1\<lparr>sales := update_by sale_id i (confirmed_sale now) (sales s1)\<rparr>"
    by (auto simp: sales_confirm_tx_eq p payload Let_def split: sum.splits if_splits)
  from posts_append[OF s1] have "sales s1 = sales s" by simp
  with r that[OF f d s1 posts_append[OF s1]] show thesis by simp
qed

lemma sales_confirm_not_P2034: "sales_confirm_tx alive movementIds now e i s \<noteq> Inl (PrismaKnown P2034)"
  using posts_not_P2034
  by (auto simp: sales_confirm_tx_eq getSaleOrThrow_def sale_include_eq Let_def split: sum.splits option.splits)

lemma sales_confirm_eq:
  "sales_confirm (Some st) abort alive movementIds now e i s =
   (if abort 1 \<and> abort 2 \<and> abort 3
    then (Inl (ConflictException ''Conflit de concurrence, veuillez reessayer''), s)
    else commit_txn (sales_confirm_tx alive movementIds now e i) s)"
  unfolding sales_confirm_def by (rule serializable_409_eq) (rule sales_confirm_not_P2034)

lemma sales_confirm_None:
  "sales_confirm None abort alive movementIds now e i s =
   (Inl (JsError ''Aucun TenantContext actif : cette operation doit s'executer dans une requete authentifiee''), s)"
  by (simp add: sales_confirm_def serializable_409_None)

section \<open>Cancellation\<close>

lemma sales_cancel_InrE:
  assumes "sales_cancel now e i s = Inr (view, s')"
  obtains sale where "find_by sale_id i (sales s) = Some sale" "sale_enterpriseId sale = e"
    "sale_status sale = Sale_DRAFT" "s' = s\<lparr>sales := update_by sale_id i (cancelled_sale now) (sales s)\<rparr>"
    "view = toSaleView (sale_payload_of s (cancelled_sale now sale))"
proof -
  obtain payload where p: "getSaleOrThrow e i s = Inr payload"
    using assms by (auto simp: sales_cancel_def split: sum.splits)
  then obtain sale where f: "find_by sale_id i (sales s) = Some sale" "sale_enterpriseId sale = e"
    and inc: "sale_include s sale = Inr payload" and payload: "payload = sale_payload_of s sale"
    by (auto simp: getSaleOrThrow_Inr_iff)
  have "sale_update i (cancelled_sale now) s = Inr (sale_payload_of s (cancelled_sale now sale),
      s\<lparr>sales := update_by sale_id i (cancelled_sale now) (sales s)\<rparr>)"
    using f inc by (auto simp: sale_update_def sale_include_eq sale_payload_of_def split: if_splits)
  with assms have "sale_status sale = Sale_DRAFT" "s' = s\<lparr>sales := update_by sale_id i (cancelled_sale now) (sales s)\<rparr>"
    "view = toSaleView (sale_payload_of s (cancelled_sale now sale))"
    by (auto simp: sales_cancel_def p payload settled_sale_folds split: if_splits)
  with f that show thesis by blast
qed

section \<open>Creation\<close>

definition new_sale ::
    "uuid \<Rightarrow> (nat \<Rightarrow> uuid) \<Rightarrow> date \<Rightarrow> uuid \<Rightarrow> create_sale_input \<Rightarrow> string option \<Rightarrow> db \<Rightarrow> sale" where
  "new_sale newId lineIds now e input k s =
     \<lparr>sale_id = newId, sale_enterpriseId = e, sale_customerId = saleInput_customerId input,
      sale_status = Sale_DRAFT, sale_saleDate = now, sale_notes = saleInput_notes input,
      sale_confirmedAt = None, sale_cancelledAt = None, sale_idempotencyKey = k,
      sale_createdAt = now, sale_updatedAt = now,
      sale_lines = new_sale_lines lineIds e (\<lambda>i. find_by product_id i (products s)) (saleInput_lines input)\<rparr>"

lemma new_sale_simps [simp]:
  "sale_id (new_sale newId lineIds now e input k s) = newId"
  "sale_enterpriseId (new_sale newId lineIds now e input k s) = e"
  "sale_customerId (new_sale newId lineIds now e input k s) = saleInput_customerId input"
  "sale_status (new_sale newId lineIds now e input k s) = Sale_DRAFT"
  "sale_idempotencyKey (new_sale newId lineIds now e input k s) = k"
  "sale_lines (new_sale newId lineIds now e input k s) =
     new_sale_lines lineIds e (\<lambda>i. find_by product_id i (products s)) (saleInput_lines input)"
  by (simp_all add: new_sale_def)

lemma find_by_filter_mem: "i \<in> set ids \<Longrightarrow> find_by key i (filter (\<lambda>r. key r \<in> set ids) rows) = find_by key i rows"
  by (induction rows) auto

lemma new_sale_lines_cong:
  "(\<And>line. line \<in> set lines \<Longrightarrow> f (saleInput_productId line) = g (saleInput_productId line)) \<Longrightarrow>
   new_sale_lines lineIds e f lines = new_sale_lines lineIds e g lines"
  by (auto simp: new_sale_lines_def Let_def in_set_enumerate_eq)

lemma map_new_sale_lines:
  "map saleLine_id (new_sale_lines lineIds e f lines) = map lineIds [0..<length lines]"
  by (rule nth_equalityI) (simp_all add: new_sale_lines_def nth_enumerate_eq Let_def)

lemma new_sale_lines_length [simp]: "length (new_sale_lines lineIds e f lines) = length lines"
  by (simp add: new_sale_lines_def)

lemma new_sale_lines_nth:
  "n < length lines \<Longrightarrow> new_sale_lines lineIds e f lines ! n =
     \<lparr>saleLine_id = lineIds n, saleLine_enterpriseId = e, saleLine_productId = saleInput_productId (lines ! n),
      saleLine_quantity = saleInput_quantity (lines ! n),
      saleLine_unitPriceExcludingTax = product_sellingPriceExcludingTax (the (f (saleInput_productId (lines ! n)))),
      saleLine_vatRateBasisPoints = product_vatRateBasisPoints (the (f (saleInput_productId (lines ! n))))\<rparr>"
  by (simp add: new_sale_lines_def nth_enumerate_eq Let_def)

lemma new_sale_lines_mem:
  assumes "l \<in> set (new_sale_lines lineIds e f lines)"
  shows "\<exists>line\<in>set lines. saleLine_enterpriseId l = e \<and> saleLine_productId l = saleInput_productId line \<and>
           saleLine_quantity l = saleInput_quantity line"
  using assms by (auto simp: in_set_conv_nth[of l] new_sale_lines_nth)

lemma new_sale_lines_Nil_iff [simp]: "new_sale_lines lineIds e f lines = [] \<longleftrightarrow> lines = []"
  by (simp flip: length_0_conv)

text \<open>Creation without a replay, as a decision list.\<close>

definition sale_collides :: "sale \<Rightarrow> db \<Rightarrow> bool" where
  "sale_collides row s \<longleftrightarrow> sale_id row \<in> sale_id ` set (sales s) \<or>
     \<not> distinct (map saleLine_id (sale_lines row)) \<or>
     (\<exists>r\<in>set (sales s). \<exists>l\<in>set (sale_lines r). saleLine_id l \<in> saleLine_id ` set (sale_lines row)) \<or>
     clashes_key sale_enterpriseId sale_idempotencyKey row (sales s)"

lemma sales_create_fresh_eq:
  assumes "\<not> (truthy k \<and> sale_findByKey e k s0 \<noteq> None)"
  shows "sales_create alive newId lineIds now e input k s0 s =
   (if \<not> owned_customer e (saleInput_customerId input) s then Inl (NotFoundException ''Client introuvable'')
    else case List.find (\<lambda>i. \<not> owned_product e i s) (js_set (map saleInput_productId (saleInput_lines input))) of
      Some i \<Rightarrow> Inl (NotFoundException (''Produit introuvable : '' @ i))
    | None \<Rightarrow>
        let row = new_sale newId lineIds now e input k s in
        if \<not> sale_collides row s
        then Inr (\<lparr>csr_view = toSaleView (sale_payload_of s row), csr_created = True\<rparr>, s\<lparr>sales := sales s @ [row]\<rparr>)
        else if truthy k \<and> \<not> alive then Inl PrismaUnknown
        else if truthy k then (case sale_findByKey e k s of
               Some existing \<Rightarrow> (case replayed_sale s existing of Inl err \<Rightarrow> Inl err | Inr r \<Rightarrow> Inr (r, s))
             | None \<Rightarrow> Inl (PrismaKnown P2002))
        else Inl (PrismaKnown P2002))"
proof -
  let ?ids = "js_set (map saleInput_productId (saleInput_lines input))"
  let ?found = "filter (\<lambda>p. product_id p \<in> set ?ids) (products s)"
  let ?row = "new_sale newId lineIds now e input k s"
  have first: "(if truthy k then sale_findByKey e k s0 else None) = None" using assms by auto
  have byId: "i \<in> set ?ids \<Longrightarrow> find_by product_id i ?found = find_by product_id i (products s)" for i
    by (rule find_by_filter_mem)
  have bad: "List.find (\<lambda>i. case find_by product_id i ?found of None \<Rightarrow> True | Some p \<Rightarrow> product_enterpriseId p \<noteq> e) ?ids =
      List.find (\<lambda>i. \<not> owned_product e i s) ?ids"
    by (rule find_cong) (auto simp: byId[simplified] owned_product_def split: option.splits)
  have lines: "new_sale_lines lineIds e (\<lambda>i. find_by product_id i ?found) (saleInput_lines input) =
      new_sale_lines lineIds e (\<lambda>i. find_by product_id i (products s)) (saleInput_lines input)"
    by (rule new_sale_lines_cong) (rule byId, simp)
  have inc: "sale_include (s\<lparr>sales := sales s @ [?row]\<rparr>) ?row = Inr (sale_payload_of s ?row)"
    if "owned_customer e (saleInput_customerId input) s" "List.find (\<lambda>i. \<not> owned_product e i s) ?ids = None"
    using that by (force simp: sale_include_eq sale_payload_of_def find_None_iff in_set_conv_nth new_sale_lines_nth
        dest: owned_SomeD)
  show ?thesis
    unfolding sales_create_def first option.case(1) Let_def bad lines new_sale_def[symmetric]
    by (cases "find_by customer_id (saleInput_customerId input) (customers s)")
      (auto simp: owned_customer_def sale_create_def sale_collides_def inc
        split: option.splits)
qed

lemma replayed_sale_InrD:
  "replayed_sale sx m = Inr r \<Longrightarrow> r = \<lparr>csr_view = toSaleView (sale_payload_of sx m), csr_created = False\<rparr>"
  by (auto simp: replayed_sale_def sale_include_eq split: if_splits)

lemma sales_create_InrE:
  assumes "sales_create alive newId lineIds now e input k s0 s = Inr (r, s')"
  obtains (same) sx m where "s' = s" "sx = s0 \<or> sx = s" "truthy k" "sale_findByKey e k sx = Some m"
      "r = \<lparr>csr_view = toSaleView (sale_payload_of sx m), csr_created = False\<rparr>"
  | (insert) "\<not> (truthy k \<and> sale_findByKey e k s0 \<noteq> None)"
      "owned_customer e (saleInput_customerId input) s"
      "\<forall>line\<in>set (saleInput_lines input). owned_product e (saleInput_productId line) s"
      "\<not> sale_collides (new_sale newId lineIds now e input k s) s"
      "s' = s\<lparr>sales := sales s @ [new_sale newId lineIds now e input k s]\<rparr>"
      "r = \<lparr>csr_view = toSaleView (sale_payload_of s (new_sale newId lineIds now e input k s)), csr_created = True\<rparr>"
proof (cases "truthy k \<and> sale_findByKey e k s0 \<noteq> None")
  case True
  then obtain m where m: "truthy k" "sale_findByKey e k s0 = Some m" by auto
  with assms have "s' = s \<and> replayed_sale s0 m = Inr r"
    by (auto simp: sales_create_def split: sum.splits)
  then show thesis using same m replayed_sale_InrD by blast
next
  case False
  from assms have c: "s' = s \<and> truthy k \<and> (\<exists>m. sale_findByKey e k s = Some m \<and> replayed_sale s m = Inr r) \<or>
      owned_customer e (saleInput_customerId input) s \<and>
      (\<forall>line\<in>set (saleInput_lines input). owned_product e (saleInput_productId line) s) \<and>
      \<not> sale_collides (new_sale newId lineIds now e input k s) s \<and>
      s' = s\<lparr>sales := sales s @ [new_sale newId lineIds now e input k s]\<rparr> \<and>
      r = \<lparr>csr_view = toSaleView (sale_payload_of s (new_sale newId lineIds now e input k s)), csr_created = True\<rparr>"
    unfolding sales_create_fresh_eq[OF False] Let_def
    by (auto simp: find_None_iff split: if_splits option.splits sum.splits)
  then show thesis using same insert False replayed_sale_InrD by blast
qed

section \<open>Invariants\<close>

lemma sales_create_wf:
  assumes "sales_create alive newId lineIds now e input k s0 s = Inr (r, s')" and "createSaleSchema input"
    and "sales_wf s"
  shows "sales_wf s'"
  using assms(1)
proof (cases rule: sales_create_InrE)
  case same
  with assms(3) show ?thesis by simp
next
  case insert
  let ?row = "new_sale newId lineIds now e input k s"
  have "sale_wf s' ?row"
    using insert assms(2)
    by (fastforce simp: sale_wf_def createSaleSchema_def owned_defs sale_collides_def dest: new_sale_lines_mem)
  moreover have "sale_wf s' sale" if "sale \<in> set (sales s)" for sale
    using that assms(3) by (auto simp: insert(5) sales_wf_def sale_wf_def owned_defs)
  ultimately show ?thesis
    using insert(4) assms(3) by (simp add: insert(5) sales_wf_def unique_key_append1 sale_collides_def)
qed

lemma sales_settle_wf:
  assumes "sales_wf s" and "sales s' = update_by sale_id i f (sales s)" and "products s' = products s"
    and "customers s' = customers s" and "f = confirmed_sale now \<or> f = cancelled_sale now"
  shows "sales_wf s'"
proof -
  have w: "sale_wf s' sale" "sale_wf s' (f sale)" if "sale_wf s sale" for sale
    using that assms(3-5) by (auto simp: sale_wf_def owned_defs split: option.splits)
  have "\<forall>sale\<in>set (sales s'). sale_wf s' sale"
    unfolding assms(2) using assms(1) w by (intro Ball_update_by) (auto simp: sales_wf_def)
  then show ?thesis
    using assms by (auto simp: sales_wf_def map_update_by unique_key_update_by)
qed

lemma sales_confirm_invariants:
  assumes "sales_confirm_tx alive movementIds now e i s = Inr (view, s')"
  shows "sales_wf s \<Longrightarrow> sales_wf s'" and "movements_wf s \<Longrightarrow> movements_wf s'"
    and "stock_nonneg s \<Longrightarrow> stock_nonneg s'"
proof -
  obtain sale s1 where s1: "sum_foldM (post_movement alive now e) s (sale_postings movementIds s sale) = Inr s1"
    and a: "s1 = s\<lparr>stockMovements := stockMovements s @ posted now e (sale_postings movementIds s sale)\<rparr>"
    and s': "s' = s1\<lparr>sales := update_by sale_id i (confirmed_sale now) (sales s)\<rparr>"
    using assms by (elim sales_confirm_tx_InrE) blast
  show "sales_wf s'" if "sales_wf s" by (rule sales_settle_wf[OF that]) (auto simp: s' a)
  have "stockMovements s' = stockMovements s1" by (simp add: s')
  then show "movements_wf s'" if "movements_wf s"
    using posts_invariants(1)[OF s1 that] by (simp add: movements_wf_def)
  show "stock_nonneg s'" if "stock_nonneg s"
    using posts_invariants(2)[OF s1 that] by (simp add: stock_nonneg_def stock_on_hand_def s')
qed

lemma sales_cancel_wf:
  assumes "sales_cancel now e i s = Inr (view, s')" and "sales_wf s"
  shows "sales_wf s'"
  using assms(1) by (elim sales_cancel_InrE) (auto intro: sales_settle_wf[OF assms(2)])

section \<open>Properties\<close>

text \<open>The postings of a well-formed sale meet the ledger's conditions, shortage apart.\<close>

lemma sale_postings_ready:
  assumes wf: "sale_wf s sale" and e: "sale_enterpriseId sale = e"
    and ids: "inj_on movementIds (saleLine_id ` set (sale_lines sale))"
      "movementIds ` saleLine_id ` set (sale_lines sale) \<inter> movement_id ` set (stockMovements s) = {}"
  shows "\<forall>m\<in>set (sale_postings movementIds s sale). movement_delta (snd m) \<le> 0"
    and "\<forall>m\<in>set (sale_postings movementIds s sale).
           tracked e (input_productId (snd m)) s \<and> fst m \<notin> movement_id ` set (stockMovements s)"
    and "distinct (map fst (sale_postings movementIds s sale))"
proof -
  let ?ms = "sale_postings movementIds s sale"
  have sub: "set (tracked_lines s sale) \<subseteq> set (sale_lines sale)" by (auto simp: tracked_lines_def)
  show "\<forall>m\<in>set ?ms. movement_delta (snd m) \<le> 0"
    using wf sub by (fastforce simp: sale_postings_def sale_wf_def)
  show "\<forall>m\<in>set ?ms. tracked e (input_productId (snd m)) s \<and> fst m \<notin> movement_id ` set (stockMovements s)"
  proof
    fix m assume "m \<in> set ?ms"
    then obtain line where l: "line \<in> set (tracked_lines s sale)"
      and m: "m = (movementIds (saleLine_id line), sale_movement (sale_id sale) line)"
      by (auto simp: sale_postings_def)
    obtain pr where "find_by product_id (saleLine_productId line) (products s) = Some pr" "product_enterpriseId pr = e"
      using l sub wf e by (fastforce simp: sale_wf_def dest: owned_SomeD)
    then show "tracked e (input_productId (snd m)) s \<and> fst m \<notin> movement_id ` set (stockMovements s)"
      using l sub ids(2) by (auto simp: m tracked_def tracked_lines_def)
  qed
  have "distinct (map saleLine_id (tracked_lines s sale))"
    using wf by (simp add: tracked_lines_def sale_wf_def distinct_map_filter)
  moreover have "inj_on movementIds (saleLine_id ` set (tracked_lines s sale))"
    using ids(1) sub by (meson image_mono inj_on_subset)
  ultimately have "distinct (map movementIds (map saleLine_id (tracked_lines s sale)))"
    by (simp only: distinct_map set_map)
  then show "distinct (map fst ?ms)" by (simp add: sale_postings_def o_def)
qed

text \<open>
  C2. Confirming a draft sale is all or nothing and exact: it succeeds precisely when, for every
  product of a tracked line, the balance covers the total the sale asks of that product over all its
  lines. Then every balance of the enterprise drops by exactly that total, no other balance moves,
  and the sale is stored as confirmed; otherwise the answer is "Stock insuffisant" and the database
  is unchanged.
\<close>

theorem sales_confirm_iff_stock_covers:
  assumes wf: "sales_wf s"
    and sale: "find_by sale_id i (sales s) = Some sale" "sale_enterpriseId sale = e" "sale_status sale = Sale_DRAFT"
    and ids: "inj_on movementIds (saleLine_id ` set (sale_lines sale))"
      "movementIds ` saleLine_id ` set (sale_lines sale) \<inter> movement_id ` set (stockMovements s) = {}"
    and run: "\<not> (abort 1 \<and> abort 2 \<and> abort 3)"
  shows "if \<forall>line\<in>set (tracked_lines s sale).
              sale_demand s sale (saleLine_productId line) \<le> stock_on_hand e (saleLine_productId line) s
    then \<exists>view s'. sales_service_confirm (Some st) abort alive movementIds now e u i s = (Inr view, s') \<and>
           sv_status view = Sale_CONFIRMED \<and>
           find_by sale_id i (sales s') = Some (confirmed_sale now sale) \<and>
           (\<forall>e' p. stock_on_hand e' p s' = stock_on_hand e' p s - (if e' = e then sale_demand s sale p else 0))
    else sales_service_confirm (Some st) abort alive movementIds now e u i s =
           (Inl (ConflictException ''Stock insuffisant''), s)"
proof -
  let ?ms = "sale_postings movementIds s sale"
  have saleMem: "sale_wf s sale" using wf find_by_SomeD[OF sale(1)] by (auto simp: sales_wf_def)
  have get: "getSaleOrThrow e i s = Inr (sale_payload_of s sale)"
    using sale sale_wf_includes[OF saleMem] by (simp add: getSaleOrThrow_def)
  have cov: "(\<forall>m\<in>set ?ms. 0 \<le> stock_on_hand e (input_productId (snd m)) s + stock_ledger.moved (input_productId (snd m)) ?ms) \<longleftrightarrow>
    (\<forall>line\<in>set (tracked_lines s sale).
              sale_demand s sale (saleLine_productId line) \<le> stock_on_hand e (saleLine_productId line) s)"
    unfolding moved_sale_postings by (auto simp: sale_postings_def)
  note post = stock_ledger.posts_out[OF sale_postings_ready[OF saleMem sale(2) ids], of alive now, unfolded cov]
  show ?thesis
  proof (cases "\<forall>line\<in>set (tracked_lines s sale).
              sale_demand s sale (saleLine_productId line) \<le> stock_on_hand e (saleLine_productId line) s")
    case True
    with post obtain s1 where s1: "sum_foldM (post_movement alive now e) s ?ms = Inr s1" by auto
    note s1' = posts_append[OF s1]
    have "stock_on_hand e' p s1 = stock_on_hand e' p s - (if e' = e then sale_demand s sale p else 0)" for e' p
      using stock_ledger.posts_level[OF s1, of p] moved_sale_postings[of p movementIds s sale]
        stock_on_hand_other[of e' e p s now ?ms] by (auto simp: s1')
    then show ?thesis
      using True run sale
      by (simp add: sales_service_confirm_def sales_confirm_eq commit_txn_def sales_confirm_tx_eq get Let_def s1
          s1' find_by_update_by auditLog_record_def stock_on_hand_def)
  next
    case False
    with post have "sum_foldM (post_movement alive now e) s ?ms = Inl (ConflictException ''Stock insuffisant'')" by simp
    then show ?thesis
      using False run sale
      by (simp add: sales_service_confirm_def sales_confirm_eq commit_txn_def sales_confirm_tx_eq get Let_def)
  qed
qed

definition fx_sale :: "uuid \<Rightarrow> string option \<Rightarrow> sale_status \<Rightarrow> sale" where
  "fx_sale i k st =
     \<lparr>sale_id = i, sale_enterpriseId = ''e1'', sale_customerId = ''c1'', sale_status = st, sale_saleDate = 0,
      sale_notes = None, sale_confirmedAt = None, sale_cancelledAt = None, sale_idempotencyKey = k,
      sale_createdAt = 0, sale_updatedAt = 0,
      sale_lines = map (\<lambda>(n, p, q). \<lparr>saleLine_id = i @ n, saleLine_enterpriseId = ''e1'', saleLine_productId = p,
        saleLine_quantity = q, saleLine_unitPriceExcludingTax = 1000, saleLine_vatRateBasisPoints = 1800\<rparr>)
        [(''a'', ''p1'', 3), (''b'', ''p1'', 4), (''c'', ''p2'', 1)]\<rparr>"

definition fx_sales_db :: db where
  "fx_sales_db = fx_db\<lparr>sales := [fx_sale ''v1'' (Some ''k1'') Sale_DRAFT, fx_sale ''v2'' None Sale_CONFIRMED]\<rparr>"

lemmas fx_db_simps = fx_db_def empty_db_def fx_product_def fx_customer_def fx_supplier_def fx_movement_def
  fx_enterprise_def fx_account_def

lemma fx_sales_db_wf: "sales_wf fx_sales_db"
  by (simp add: sales_wf_def sale_wf_def fx_sales_db_def fx_sale_def fx_db_simps owned_defs unique_key_def)

lemma sales_confirm_iff_stock_covers_witness:
  "(\<exists>view s'. sales_service_confirm (Some \<lparr>store_tenantId = ''e1'', store_userId = ''u1'', store_isSuperAdmin = False\<rparr>)
       (\<lambda>i. i < 3) False (\<lambda>l. ''m'' @ l) 9 ''e1'' ''u1'' ''v1'' fx_sales_db = (Inr view, s') \<and>
     stock_on_hand ''e1'' ''p1'' s' = 3)"
proof -
  have dem: "sale_demand fx_sales_db (fx_sale ''v1'' (Some ''k1'') Sale_DRAFT) ''p1'' = 7"
    and stock: "stock_on_hand ''e1'' ''p1'' fx_sales_db = 10"
    and tr: "\<forall>line\<in>set (tracked_lines fx_sales_db (fx_sale ''v1'' (Some ''k1'') Sale_DRAFT)).
       saleLine_productId line = ''p1''"
    by (simp_all add: sale_demand_def tracked_lines_def fx_sales_db_def fx_sale_def fx_db_simps stock_on_hand_def
        signed_quantity_def)
  have found: "find_by sale_id ''v1'' (sales fx_sales_db) = Some (fx_sale ''v1'' (Some ''k1'') Sale_DRAFT)"
    "sale_enterpriseId (fx_sale ''v1'' (Some ''k1'') Sale_DRAFT) = ''e1''"
    "sale_status (fx_sale ''v1'' (Some ''k1'') Sale_DRAFT) = Sale_DRAFT"
    by (simp_all add: fx_sales_db_def fx_sale_def)
  have ids: "inj_on (\<lambda>l. ''m'' @ l) (saleLine_id ` set (sale_lines (fx_sale ''v1'' (Some ''k1'') Sale_DRAFT)))"
    "(\<lambda>l. ''m'' @ l) ` saleLine_id ` set (sale_lines (fx_sale ''v1'' (Some ''k1'') Sale_DRAFT)) \<inter>
       movement_id ` set (stockMovements fx_sales_db) = {}"
    by (simp_all add: inj_on_def fx_sales_db_def fx_sale_def fx_db_simps)
  have "\<not> ((1::nat) < 3 \<and> (2::nat) < 3 \<and> (3::nat) < 3)" by simp
  note t = sales_confirm_iff_stock_covers[where abort = "\<lambda>i. i < 3", OF fx_sales_db_wf found ids this,
      where st = "\<lparr>store_tenantId = ''e1'', store_userId = ''u1'', store_isSuperAdmin = False\<rparr>" and
      alive = False and now = 9 and u = "''u1''"]
  have "\<forall>line\<in>set (tracked_lines fx_sales_db (fx_sale ''v1'' (Some ''k1'') Sale_DRAFT)).
      sale_demand fx_sales_db (fx_sale ''v1'' (Some ''k1'') Sale_DRAFT) (saleLine_productId line)
        \<le> stock_on_hand ''e1'' (saleLine_productId line) fx_sales_db"
    using dem stock tr by simp
  note t[unfolded if_P[OF this]]
  then obtain view s' where r: "sales_service_confirm (Some \<lparr>store_tenantId = ''e1'', store_userId = ''u1'', store_isSuperAdmin = False\<rparr>)
       (\<lambda>i. i < 3) False (\<lambda>l. ''m'' @ l) 9 ''e1'' ''u1'' ''v1'' fx_sales_db = (Inr view, s')"
    and l: "\<forall>e' p. stock_on_hand e' p s' = stock_on_hand e' p fx_sales_db -
        (if e' = ''e1'' then sale_demand fx_sales_db (fx_sale ''v1'' (Some ''k1'') Sale_DRAFT) p else 0)"
    by blast
  have "stock_on_hand ''e1'' ''p1'' s' = 3" using l dem stock by simp
  with r show ?thesis by blast
qed

lemma sale_findByKey_unique:
  assumes "unique_key sale_enterpriseId sale_idempotencyKey (sales s)" and "sale \<in> set (sales s)"
    and "sale_idempotencyKey sale = Some k"
  shows "sale_findByKey (sale_enterpriseId sale) (Some k) s = Some sale"
proof (cases "sale_findByKey (sale_enterpriseId sale) (Some k) s")
  case None
  with assms show ?thesis by (auto simp: sale_findByKey_def find_None_iff)
next
  case (Some other)
  then have "other \<in> set (sales s)" "sale_enterpriseId other = sale_enterpriseId sale"
    "sale_idempotencyKey other = Some k"
    by (auto simp: sale_findByKey_def find_Some_iff)
  with unique_key_same[OF assms(1), of other sale] assms(2,3) Some show ?thesis by simp
qed

text \<open>
  A replayed creation: as long as a sale of the enterprise carries a non-empty key, every
  creation request with that key, whatever its body and even if the customer or the products have
  changed since, answers with that sale as it is now (confirmed or cancelled included) and writes
  neither a row nor an audit entry.
\<close>

theorem sales_create_replay:
  assumes "sales_wf s" and "sale \<in> set (sales s)" and "sale_idempotencyKey sale = Some k" and "k \<noteq> []"
  shows "sales_service_create (Some st) alive newId lineIds now (sale_enterpriseId sale) u input (Some k) s s =
         (Inr (toSaleView (sale_payload_of s sale)), s)"
proof -
  have "sale_findByKey (sale_enterpriseId sale) (Some k) s = Some sale"
    using assms(1-3) by (intro sale_findByKey_unique) (auto simp: sales_wf_def)
  moreover have "sale_include s sale = Inr (sale_payload_of s sale)"
    using assms(1,2) by (intro sale_wf_includes) (auto simp: sales_wf_def)
  ultimately show ?thesis
    using assms(4)
    by (simp add: sales_service_create_def tenant_run_Some commit_txn_def sales_create_def replayed_sale_def)
qed

lemma sales_create_replay_witness:
  "sales_service_create fx_store False ''v9'' (\<lambda>n. ''x'') 50 ''e1'' ''u1''
     \<lparr>saleInput_customerId = ''gone'', saleInput_notes = None, saleInput_lines = []\<rparr> (Some ''k1'') fx_sales_db fx_sales_db =
   (Inr (toSaleView (sale_payload_of fx_sales_db (fx_sale ''v1'' (Some ''k1'') Sale_DRAFT))), fx_sales_db)"
proof -
  have "fx_sale ''v1'' (Some ''k1'') Sale_DRAFT \<in> set (sales fx_sales_db)"
    "sale_idempotencyKey (fx_sale ''v1'' (Some ''k1'') Sale_DRAFT) = Some ''k1''"
    "sale_enterpriseId (fx_sale ''v1'' (Some ''k1'') Sale_DRAFT) = ''e1''"
    by (simp_all add: fx_sales_db_def fx_sale_def)
  with sales_create_replay[OF fx_sales_db_wf this(1,2)] show ?thesis by (simp add: fx_store_def)
qed

text \<open>
  What a creation stores: a draft whose lines are the request's lines in order, each with the
  price and the tax rate the catalogue has at that moment, and whose displayed totals are the sums
  of its lines' totals; the stock is not touched and one audit entry is written.
\<close>

theorem sales_create_effect:
  assumes "sales_service_create store alive newId lineIds now e u input k s0 s = (Inr view, s')"
    and "sv_id view = newId" and "newId \<notin> sale_id ` set (sales s0) \<union> sale_id ` set (sales s)"
  shows "\<exists>sale. sales s' = sales s @ [sale] \<and> sale_id sale = newId \<and> sale_enterpriseId sale = e \<and>
      sale_status sale = Sale_DRAFT \<and> sale_idempotencyKey sale = k \<and>
      length (sale_lines sale) = length (saleInput_lines input) \<and>
      (\<forall>n<length (saleInput_lines input). \<exists>p\<in>set (products s).
         product_id p = saleInput_productId (saleInput_lines input ! n) \<and> product_enterpriseId p = e \<and>
         saleLine_productId (sale_lines sale ! n) = product_id p \<and>
         saleLine_quantity (sale_lines sale ! n) = saleInput_quantity (saleInput_lines input ! n) \<and>
         saleLine_unitPriceExcludingTax (sale_lines sale ! n) = product_sellingPriceExcludingTax p \<and>
         saleLine_vatRateBasisPoints (sale_lines sale ! n) = product_vatRateBasisPoints p) \<and>
      sv_totals view = reduce_totals (map sale_line_totals (sale_lines sale)) \<and>
      totalIncludingTax (sv_totals view) = totalExcludingTax (sv_totals view) + totalVat (sv_totals view) \<and>
      stockMovements s' = stockMovements s \<and>
      auditLogs s' = auditLogs s @ [audit_entry u e CREATE_SALE ''Sale'' newId]"
proof -
  obtain r s1 where c: "sales_create alive newId lineIds now e input k s0 s = Inr (r, s1)"
    and view: "view = csr_view r"
    and s': "s' = (if csr_created r then auditLog_record (audit_entry u e CREATE_SALE ''Sale'' (sv_id (csr_view r))) s1 else s1)"
    using assms(1)
    by (auto simp: sales_service_create_def dest!: tenant_run_InrD split: prod.splits sum.splits)
  have created: "csr_created r"
  proof (rule ccontr)
    assume "\<not> csr_created r"
    with c obtain sx m where "sx = s0 \<or> sx = s" "sale_findByKey e k sx = Some m" "sv_id (csr_view r) = sale_id m"
      by (elim sales_create_InrE) auto
    with assms(2,3) view show False unfolding sale_findByKey_def by (auto dest!: find_SomeD)
  qed
  let ?row = "new_sale newId lineIds now e input k s"
  from c created have own: "\<forall>line\<in>set (saleInput_lines input). owned_product e (saleInput_productId line) s"
    and s1: "s1 = s\<lparr>sales := sales s @ [?row]\<rparr>" and r: "csr_view r = toSaleView (sale_payload_of s ?row)"
    by (auto elim!: sales_create_InrE)
  have "\<exists>p\<in>set (products s). product_id p = saleInput_productId (saleInput_lines input ! n) \<and> product_enterpriseId p = e \<and>
         saleLine_productId (sale_lines ?row ! n) = product_id p \<and>
         saleLine_quantity (sale_lines ?row ! n) = saleInput_quantity (saleInput_lines input ! n) \<and>
         saleLine_unitPriceExcludingTax (sale_lines ?row ! n) = product_sellingPriceExcludingTax p \<and>
         saleLine_vatRateBasisPoints (sale_lines ?row ! n) = product_vatRateBasisPoints p"
    if n: "n < length (saleInput_lines input)" for n
  proof -
    obtain p where p: "find_by product_id (saleInput_productId (saleInput_lines input ! n)) (products s) = Some p"
      "product_enterpriseId p = e"
      using bspec[OF own nth_mem[OF n]] owned_SomeD(1) by blast
    with n find_by_SomeD[OF p(1)] show ?thesis by (intro bexI[of _ p]) (auto simp: new_sale_lines_nth)
  qed
  moreover have "totalIncludingTax (sv_totals view) = totalExcludingTax (sv_totals view) + totalVat (sv_totals view)"
    unfolding view r by simp (rule reduce_totals_consistent, auto simp: sale_line_totals_def)
  ultimately show ?thesis
    using created by (intro exI[of _ ?row]) (auto simp: s' s1 view r auditLog_record_def)
qed

definition fx_sale_input :: create_sale_input where
  "fx_sale_input = \<lparr>saleInput_customerId = ''c1'', saleInput_notes = None,
     saleInput_lines = [\<lparr>saleInput_productId = ''p2'', saleInput_quantity = 2\<rparr>]\<rparr>"

definition fx_sale_run :: "(exn + sale_view) \<times> db" where
  "fx_sale_run = sales_service_create fx_store False ''v9'' (\<lambda>n. ''x'') 50 ''e1'' ''u1'' fx_sale_input None
     fx_sales_db fx_sales_db"

lemma sales_create_effect_witness:
  "\<exists>view sale. fst fx_sale_run = Inr view \<and> sales (snd fx_sale_run) = sales fx_sales_db @ [sale] \<and>
     saleLine_unitPriceExcludingTax (sale_lines sale ! 0) = 1000 \<and> totalIncludingTax (sv_totals view) = 2360"
proof -
  have "case fst fx_sale_run of Inl e \<Rightarrow> False
    | Inr view \<Rightarrow> sv_id view = ''v9'' \<and> totalIncludingTax (sv_totals view) = 2360" by code_simp
  then obtain view where v: "fst fx_sale_run = Inr view" "sv_id view = ''v9''" "totalIncludingTax (sv_totals view) = 2360"
    by (auto split: sum.splits)
  have run: "sales_service_create fx_store False ''v9'' (\<lambda>n. ''x'') 50 ''e1'' ''u1'' fx_sale_input None
     fx_sales_db fx_sales_db = (Inr view, snd fx_sale_run)"
    using v(1) by (simp add: fx_sale_run_def prod_eq_iff)
  have "''v9'' \<notin> sale_id ` set (sales fx_sales_db) \<union> sale_id ` set (sales fx_sales_db)"
    by (simp add: fx_sales_db_def fx_sale_def)
  from sales_create_effect[OF run v(2) this] obtain sale where sale: "sales (snd fx_sale_run) = sales fx_sales_db @ [sale]"
    and l: "\<forall>n<length (saleInput_lines fx_sale_input). \<exists>p\<in>set (products fx_sales_db).
         saleLine_unitPriceExcludingTax (sale_lines sale ! n) = product_sellingPriceExcludingTax p"
    by blast
  have "\<forall>p\<in>set (products fx_sales_db). product_sellingPriceExcludingTax p = 1000"
    by (simp add: fx_sales_db_def fx_db_simps)
  moreover have "0 < length (saleInput_lines fx_sale_input)" by (simp add: fx_sale_input_def)
  ultimately have "saleLine_unitPriceExcludingTax (sale_lines sale ! 0) = 1000" using l by fastforce
  with v sale show ?thesis by blast
qed

text \<open>
  The concurrency net of the creation does not work on the database the program runs on: when a
  competitor commits a sale with the same key between the lookup and the insertion, the insertion
  violates the constraint and the second lookup is sent to a transaction PostgreSQL has already
  aborted. The request fails with an unclassified error (nothing is duplicated), although a
  transaction that still answered would have returned the competitor's sale.
\<close>

theorem sales_create_race_lost:
  assumes "sales_wf s" and "winner \<in> set (sales s)" and "sale_enterpriseId winner = e"
    and "sale_idempotencyKey winner = Some k" and "k \<noteq> []" and "sale_findByKey e (Some k) s0 = None"
    and "owned_customer e (saleInput_customerId input) s"
    and "\<forall>line\<in>set (saleInput_lines input). owned_product e (saleInput_productId line) s"
  shows "sales_service_create (Some st) False newId lineIds now e u input (Some k) s0 s = (Inl PrismaUnknown, s) \<and>
         sales_service_create (Some st) True newId lineIds now e u input (Some k) s0 s =
         (Inr (toSaleView (sale_payload_of s winner)), s)"
proof -
  have n: "\<not> (truthy (Some k) \<and> sale_findByKey e (Some k) s0 \<noteq> None)" using assms(6) by simp
  have b: "List.find (\<lambda>i. \<not> owned_product e i s) (js_set (map saleInput_productId (saleInput_lines input))) = None"
    using assms(8) by (auto simp: find_None_iff)
  have c: "sale_collides (new_sale newId lineIds now e input (Some k) s) s"
    using assms(2-4) by (auto simp: sale_collides_def clashes_key_def)
  have f: "sale_findByKey e (Some k) s = Some winner"
    using sale_findByKey_unique[of s winner k] assms(1-4) by (simp add: sales_wf_def)
  have i: "sale_include s winner = Inr (sale_payload_of s winner)"
    using assms(1,2) by (intro sale_wf_includes) (auto simp: sales_wf_def)
  show "sales_service_create (Some st) False newId lineIds now e u input (Some k) s0 s = (Inl PrismaUnknown, s) \<and>
         sales_service_create (Some st) True newId lineIds now e u input (Some k) s0 s =
         (Inr (toSaleView (sale_payload_of s winner)), s)"
    using assms(5,7) b c f i
    by (simp add: sales_service_create_def tenant_run_Some commit_txn_def sales_create_fresh_eq[OF n] replayed_sale_def)
qed

lemma sales_create_race_lost_witness:
  "sales_service_create fx_store False ''v9'' (\<lambda>n. ''x'') 50 ''e1'' ''u1'' fx_sale_input (Some ''k1'') fx_db fx_sales_db =
   (Inl PrismaUnknown, fx_sales_db)"
proof -
  have "fx_sale ''v1'' (Some ''k1'') Sale_DRAFT \<in> set (sales fx_sales_db)" by (simp add: fx_sales_db_def)
  moreover have "sale_enterpriseId (fx_sale ''v1'' (Some ''k1'') Sale_DRAFT) = ''e1''"
    "sale_idempotencyKey (fx_sale ''v1'' (Some ''k1'') Sale_DRAFT) = Some ''k1''" by (simp_all add: fx_sale_def)
  moreover have "sale_findByKey ''e1'' (Some ''k1'') fx_db = None" by (simp add: sale_findByKey_def fx_db_simps)
  moreover have "owned_customer ''e1'' (saleInput_customerId fx_sale_input) fx_sales_db"
    "\<forall>line\<in>set (saleInput_lines fx_sale_input). owned_product ''e1'' (saleInput_productId line) fx_sales_db"
    by (simp_all add: fx_sale_input_def owned_defs fx_sales_db_def fx_db_simps)
  ultimately show ?thesis
    unfolding fx_store_def by (intro sales_create_race_lost[OF fx_sales_db_wf, THEN conjunct1]) simp_all
qed

text \<open>
  An empty Idempotency-Key is stored as a key but never looked up: once a sale of the enterprise
  carries it, every further creation with an empty key fails with the unique constraint's error.
\<close>

theorem sales_create_empty_key:
  assumes "old \<in> set (sales s)" and "sale_enterpriseId old = e" and "sale_idempotencyKey old = Some []"
    and "owned_customer e (saleInput_customerId input) s"
    and "\<forall>line\<in>set (saleInput_lines input). owned_product e (saleInput_productId line) s"
  shows "sales_service_create (Some st) alive newId lineIds now e u input (Some []) s s = (Inl (PrismaKnown P2002), s)"
proof -
  have n: "\<not> (truthy (Some []) \<and> sale_findByKey e (Some []) s \<noteq> None)" by simp
  have b: "List.find (\<lambda>i. \<not> owned_product e i s) (js_set (map saleInput_productId (saleInput_lines input))) = None"
    using assms(5) by (auto simp: find_None_iff)
  have c: "sale_collides (new_sale newId lineIds now e input (Some []) s) s"
    using assms(1-3) by (auto simp: sale_collides_def clashes_key_def)
  show ?thesis
    using assms(4) b c
    by (simp add: sales_service_create_def tenant_run_Some commit_txn_def sales_create_fresh_eq[OF n])
qed

lemma sales_create_empty_key_witness:
  "let s = fx_db\<lparr>sales := [fx_sale ''v1'' (Some []) Sale_DRAFT]\<rparr>
   in sales_service_create fx_store False ''v9'' (\<lambda>n. ''x'') 50 ''e1'' ''u1'' fx_sale_input (Some []) s s =
      (Inl (PrismaKnown P2002), s)"
  unfolding Let_def fx_store_def
  by (rule sales_create_empty_key[where old = "fx_sale ''v1'' (Some []) Sale_DRAFT"])
    (simp_all add: fx_sale_def fx_sale_input_def owned_defs fx_db_simps)

end
