(* ===== verification/Catalog.thy ===== *)
theory Catalog
  imports Sales
begin

text \<open>
  The reference cards: apps/api/src/products, customers and suppliers (repository and service of
  each). A card belongs to one enterprise, is edited field by field (\<open>None\<close> in an update input is a
  field the request does not carry) and is deactivated, never deleted. Products have a code that is
  unique inside the enterprise; a violation of that constraint becomes a 409.
\<close>

section \<open>Products\<close>

record create_product_input =
  pi_code :: string
  pi_name :: string
  pi_description :: "string option"
  pi_unit :: string
  pi_category :: "string option"
  pi_barcode :: "string option"
  pi_sellingPriceExcludingTax :: int
  pi_vatRateBasisPoints :: int
  pi_trackStock :: bool

record update_product_input =
  pu_code :: "string option"
  pu_name :: "string option"
  pu_description :: "string option"
  pu_unit :: "string option"
  pu_category :: "string option"
  pu_barcode :: "string option"
  pu_sellingPriceExcludingTax :: "int option"
  pu_vatRateBasisPoints :: "int option"
  pu_trackStock :: "bool option"

definition createProductSchema :: "create_product_input \<Rightarrow> bool" where
  "createProductSchema i \<longleftrightarrow> pi_code i \<noteq> [] \<and> pi_name i \<noteq> [] \<and> pi_unit i \<noteq> [] \<and>
     pi_description i \<noteq> Some [] \<and> pi_category i \<noteq> Some [] \<and> pi_barcode i \<noteq> Some [] \<and> 0 \<le> pi_sellingPriceExcludingTax i \<and> 0 \<le> pi_vatRateBasisPoints i \<and> pi_vatRateBasisPoints i \<le> 10000"

definition updateProductSchema :: "update_product_input \<Rightarrow> bool" where
  "updateProductSchema i \<longleftrightarrow> pu_code i \<noteq> Some [] \<and> pu_name i \<noteq> Some [] \<and> pu_unit i \<noteq> Some [] \<and>
     pu_description i \<noteq> Some [] \<and> pu_category i \<noteq> Some [] \<and> pu_barcode i \<noteq> Some [] \<and>
     (case pu_sellingPriceExcludingTax i of None \<Rightarrow> True | Some p \<Rightarrow> 0 \<le> p) \<and>
     (case pu_vatRateBasisPoints i of None \<Rightarrow> True | Some r \<Rightarrow> 0 \<le> r \<and> r \<le> 10000)"

record list_cards_query =
  lcq_page :: nat
  lcq_pageSize :: nat
  lcq_search :: "string option"
  lcq_isActive :: "bool option"

definition contains_opt :: "(string \<Rightarrow> string \<Rightarrow> bool) \<Rightarrow> string option \<Rightarrow> string \<Rightarrow> bool" where
  "contains_opt ilike field search = (case field of None \<Rightarrow> False | Some v \<Rightarrow> ilike v search)"

definition products_where :: "(string \<Rightarrow> string \<Rightarrow> bool) \<Rightarrow> uuid \<Rightarrow> list_cards_query \<Rightarrow> product \<Rightarrow> bool" where
  "products_where ilike enterpriseId query p =
     (product_enterpriseId p = enterpriseId \<and>
      (case lcq_isActive query of None \<Rightarrow> True | Some a \<Rightarrow> product_isActive p = a) \<and>
      (truthy (lcq_search query) \<longrightarrow>
         ilike (product_name p) (the (lcq_search query)) \<or> ilike (product_code p) (the (lcq_search query)) \<or>
         contains_opt ilike (product_barcode p) (the (lcq_search query))))"

definition products_findMany ::
    "(string \<Rightarrow> string \<Rightarrow> bool) \<Rightarrow> (string \<Rightarrow> 'k::linorder) \<Rightarrow> uuid \<Rightarrow> list_cards_query \<Rightarrow> db \<Rightarrow> product page_result" where
  "products_findMany ilike collate enterpriseId query s =
     (let matching = filter (products_where ilike enterpriseId query) (products s)
      in \<lparr>result_items = page_rows (lcq_page query) (lcq_pageSize query)
                           (ascending (\<lambda>p. collate (product_name p)) matching),
          result_total = length matching, result_page = lcq_page query, result_pageSize = lcq_pageSize query\<rparr>)"

definition products_findByIdOrThrow :: "uuid \<Rightarrow> uuid \<Rightarrow> db \<Rightarrow> exn + product" where
  "products_findByIdOrThrow enterpriseId i s = (case find_by product_id i (products s) of
     None \<Rightarrow> Inl (NotFoundException ''Produit introuvable'')
   | Some product \<Rightarrow>
       if product_enterpriseId product \<noteq> enterpriseId then Inl (NotFoundException ''Produit introuvable'')
       else Inr product)"

definition withUniqueCodeConflictMapped :: "string \<Rightarrow> (exn + 'a) \<times> db \<Rightarrow> (exn + 'a) \<times> db" where
  "withUniqueCodeConflictMapped message r = (case r of
     (Inl e, s) \<Rightarrow> (Inl (if e = PrismaKnown P2002 then ConflictException message else e), s)
   | (Inr a, s) \<Rightarrow> (Inr a, s))"

definition new_product :: "uuid \<Rightarrow> date \<Rightarrow> uuid \<Rightarrow> create_product_input \<Rightarrow> product" where
  "new_product newId now enterpriseId i =
     \<lparr>product_id = newId, product_enterpriseId = enterpriseId, product_code = pi_code i, product_name = pi_name i,
      product_description = pi_description i, product_unit = pi_unit i, product_category = pi_category i,
      product_barcode = pi_barcode i, product_sellingPriceExcludingTax = pi_sellingPriceExcludingTax i,
      product_vatRateBasisPoints = pi_vatRateBasisPoints i, product_trackStock = pi_trackStock i,
      product_isActive = True, product_createdAt = now, product_updatedAt = now\<rparr>"

definition product_create :: "product \<Rightarrow> (db, exn, product) txn" where
  "product_create row s =
     (if product_id row \<in> product_id ` set (products s) \<or>
         (\<exists>r\<in>set (products s). product_enterpriseId r = product_enterpriseId row \<and> product_code r = product_code row)
      then Inl (PrismaKnown P2002)
      else Inr (row, s\<lparr>products := products s @ [row]\<rparr>))"

definition given :: "'a option \<Rightarrow> 'a \<Rightarrow> 'a" where
  "given field old = (case field of None \<Rightarrow> old | Some v \<Rightarrow> v)"

definition given_opt :: "'a option \<Rightarrow> 'a option \<Rightarrow> 'a option" where
  "given_opt field old = (case field of None \<Rightarrow> old | Some v \<Rightarrow> Some v)"

definition updated_product :: "date \<Rightarrow> update_product_input \<Rightarrow> product \<Rightarrow> product" where
  "updated_product now i p = p\<lparr>
     product_code := given (pu_code i) (product_code p), product_name := given (pu_name i) (product_name p),
     product_description := given_opt (pu_description i) (product_description p),
     product_unit := given (pu_unit i) (product_unit p),
     product_category := given_opt (pu_category i) (product_category p),
     product_barcode := given_opt (pu_barcode i) (product_barcode p),
     product_sellingPriceExcludingTax := given (pu_sellingPriceExcludingTax i) (product_sellingPriceExcludingTax p),
     product_vatRateBasisPoints := given (pu_vatRateBasisPoints i) (product_vatRateBasisPoints p),
     product_trackStock := given (pu_trackStock i) (product_trackStock p), product_updatedAt := now\<rparr>"

definition product_update :: "uuid \<Rightarrow> (product \<Rightarrow> product) \<Rightarrow> (db, exn, product) txn" where
  "product_update i f s = (case find_by product_id i (products s) of
     None \<Rightarrow> Inl (PrismaKnown P2025)
   | Some p \<Rightarrow>
       if \<exists>r\<in>set (products s). product_id r \<noteq> i \<and> product_enterpriseId r = product_enterpriseId (f p) \<and>
            product_code r = product_code (f p)
       then Inl (PrismaKnown P2002)
       else Inr (f p, s\<lparr>products := update_by product_id i f (products s)\<rparr>))"

definition products_create ::
    "tenant_store option \<Rightarrow> uuid \<Rightarrow> date \<Rightarrow> uuid \<Rightarrow> create_product_input \<Rightarrow> db \<Rightarrow> (exn + product) \<times> db" where
  "products_create store newId now enterpriseId input s =
     withUniqueCodeConflictMapped ''Ce code produit est deja utilise''
       (tenant_run store (product_create (new_product newId now enterpriseId input)) s)"

text \<open>\<open>await this.findByIdOrThrow(...)\<close> in a transaction of its own.\<close>

definition tenant_read :: "tenant_store option \<Rightarrow> (db \<Rightarrow> exn + 'a) \<Rightarrow> db \<Rightarrow> exn + 'a" where
  "tenant_read store f s = (case getRequiredTenantId store of Inl e \<Rightarrow> Inl e | Inr t \<Rightarrow> f s)"

definition products_updateById ::
    "tenant_store option \<Rightarrow> date \<Rightarrow> uuid \<Rightarrow> uuid \<Rightarrow> update_product_input \<Rightarrow> db \<Rightarrow> (exn + product) \<times> db" where
  "products_updateById store now enterpriseId i input s =
     (case tenant_read store (products_findByIdOrThrow enterpriseId i) s of
        Inl e \<Rightarrow> (Inl e, s)
      | Inr product \<Rightarrow>
          withUniqueCodeConflictMapped ''Ce code produit est deja utilise''
            (tenant_run store (product_update i (updated_product now input)) s))"

definition products_deactivate :: "tenant_store option \<Rightarrow> date \<Rightarrow> uuid \<Rightarrow> uuid \<Rightarrow> db \<Rightarrow> (exn + product) \<times> db" where
  "products_deactivate store now enterpriseId i s =
     (case tenant_read store (products_findByIdOrThrow enterpriseId i) s of
        Inl e \<Rightarrow> (Inl e, s)
      | Inr product \<Rightarrow>
          tenant_run store (product_update i (\<lambda>p. p\<lparr>product_isActive := False, product_updatedAt := now\<rparr>)) s)"

text \<open>The services add one audit entry to a successful write.\<close>

definition audited :: "uuid \<Rightarrow> uuid \<Rightarrow> audit_action \<Rightarrow> string \<Rightarrow> ('a \<Rightarrow> uuid) \<Rightarrow> (exn + 'a) \<times> db \<Rightarrow> (exn + 'a) \<times> db" where
  "audited userId enterpriseId action resource idOf r = (case r of
     (Inl e, s) \<Rightarrow> (Inl e, s)
   | (Inr a, s) \<Rightarrow> (Inr a, auditLog_record (audit_entry userId enterpriseId action resource (idOf a)) s))"

definition products_service_create ::
    "tenant_store option \<Rightarrow> uuid \<Rightarrow> date \<Rightarrow> uuid \<Rightarrow> uuid \<Rightarrow> create_product_input \<Rightarrow> db \<Rightarrow> (exn + product) \<times> db" where
  "products_service_create store newId now enterpriseId userId input s =
     audited userId enterpriseId CREATE_PRODUCT ''Product'' product_id
       (products_create store newId now enterpriseId input s)"

definition products_service_update ::
    "tenant_store option \<Rightarrow> date \<Rightarrow> uuid \<Rightarrow> uuid \<Rightarrow> uuid \<Rightarrow> update_product_input \<Rightarrow> db \<Rightarrow> (exn + product) \<times> db" where
  "products_service_update store now enterpriseId userId i input s =
     audited userId enterpriseId UPDATE_PRODUCT ''Product'' product_id
       (products_updateById store now enterpriseId i input s)"

definition products_service_deactivate ::
    "tenant_store option \<Rightarrow> date \<Rightarrow> uuid \<Rightarrow> uuid \<Rightarrow> uuid \<Rightarrow> db \<Rightarrow> (exn + product) \<times> db" where
  "products_service_deactivate store now enterpriseId userId i s =
     audited userId enterpriseId DELETE_PRODUCT ''Product'' product_id
       (products_deactivate store now enterpriseId i s)"

section \<open>Customers\<close>

record create_customer_input =
  ci_type :: customer_type
  ci_name :: string
  ci_email :: "string option"
  ci_phone :: "string option"
  ci_address :: "string option"
  ci_city :: "string option"
  ci_country :: string
  ci_ninea :: "string option"
  ci_rccm :: "string option"
  ci_notes :: "string option"

record update_customer_input =
  cu_type :: "customer_type option"
  cu_name :: "string option"
  cu_email :: "string option"
  cu_phone :: "string option"
  cu_address :: "string option"
  cu_city :: "string option"
  cu_country :: "string option"
  cu_ninea :: "string option"
  cu_rccm :: "string option"
  cu_notes :: "string option"

definition customers_where :: "(string \<Rightarrow> string \<Rightarrow> bool) \<Rightarrow> uuid \<Rightarrow> list_cards_query \<Rightarrow> customer \<Rightarrow> bool" where
  "customers_where ilike enterpriseId query c =
     (customer_enterpriseId c = enterpriseId \<and>
      (case lcq_isActive query of None \<Rightarrow> True | Some a \<Rightarrow> customer_isActive c = a) \<and>
      (truthy (lcq_search query) \<longrightarrow>
         ilike (customer_name c) (the (lcq_search query)) \<or>
         contains_opt ilike (customer_email c) (the (lcq_search query))))"

definition customers_findMany ::
    "(string \<Rightarrow> string \<Rightarrow> bool) \<Rightarrow> (string \<Rightarrow> 'k::linorder) \<Rightarrow> uuid \<Rightarrow> list_cards_query \<Rightarrow> db \<Rightarrow> customer page_result" where
  "customers_findMany ilike collate enterpriseId query s =
     (let matching = filter (customers_where ilike enterpriseId query) (customers s)
      in \<lparr>result_items = page_rows (lcq_page query) (lcq_pageSize query)
                           (ascending (\<lambda>c. collate (customer_name c)) matching),
          result_total = length matching, result_page = lcq_page query, result_pageSize = lcq_pageSize query\<rparr>)"

definition customers_findByIdOrThrow :: "uuid \<Rightarrow> uuid \<Rightarrow> db \<Rightarrow> exn + customer" where
  "customers_findByIdOrThrow enterpriseId i s = (case find_by customer_id i (customers s) of
     None \<Rightarrow> Inl (NotFoundException ''Client introuvable'')
   | Some customer \<Rightarrow>
       if customer_enterpriseId customer \<noteq> enterpriseId then Inl (NotFoundException ''Client introuvable'')
       else Inr customer)"

definition new_customer :: "uuid \<Rightarrow> date \<Rightarrow> uuid \<Rightarrow> create_customer_input \<Rightarrow> customer" where
  "new_customer newId now enterpriseId i =
     \<lparr>customer_id = newId, customer_enterpriseId = enterpriseId, customer_type = ci_type i, customer_name = ci_name i,
      customer_email = ci_email i, customer_phone = ci_phone i, customer_address = ci_address i,
      customer_city = ci_city i, customer_country = ci_country i, customer_ninea = ci_ninea i,
      customer_rccm = ci_rccm i, customer_notes = ci_notes i, customer_isActive = True,
      customer_createdAt = now, customer_updatedAt = now\<rparr>"

definition customer_create :: "customer \<Rightarrow> (db, exn, customer) txn" where
  "customer_create row s =
     (if customer_id row \<in> customer_id ` set (customers s) then Inl (PrismaKnown P2002)
      else Inr (row, s\<lparr>customers := customers s @ [row]\<rparr>))"

definition updated_customer :: "date \<Rightarrow> update_customer_input \<Rightarrow> customer \<Rightarrow> customer" where
  "updated_customer now i c = c\<lparr>
     customer_type := given (cu_type i) (customer_type c), customer_name := given (cu_name i) (customer_name c),
     customer_email := given_opt (cu_email i) (customer_email c),
     customer_phone := given_opt (cu_phone i) (customer_phone c),
     customer_address := given_opt (cu_address i) (customer_address c),
     customer_city := given_opt (cu_city i) (customer_city c),
     customer_country := given (cu_country i) (customer_country c),
     customer_ninea := given_opt (cu_ninea i) (customer_ninea c),
     customer_rccm := given_opt (cu_rccm i) (customer_rccm c),
     customer_notes := given_opt (cu_notes i) (customer_notes c), customer_updatedAt := now\<rparr>"

definition customer_update :: "uuid \<Rightarrow> (customer \<Rightarrow> customer) \<Rightarrow> (db, exn, customer) txn" where
  "customer_update i f s = (case find_by customer_id i (customers s) of
     None \<Rightarrow> Inl (PrismaKnown P2025)
   | Some c \<Rightarrow> Inr (f c, s\<lparr>customers := update_by customer_id i f (customers s)\<rparr>))"

definition customers_create ::
    "tenant_store option \<Rightarrow> uuid \<Rightarrow> date \<Rightarrow> uuid \<Rightarrow> create_customer_input \<Rightarrow> db \<Rightarrow> (exn + customer) \<times> db" where
  "customers_create store newId now enterpriseId input s =
     tenant_run store (customer_create (new_customer newId now enterpriseId input)) s"

definition customers_updateById ::
    "tenant_store option \<Rightarrow> date \<Rightarrow> uuid \<Rightarrow> uuid \<Rightarrow> update_customer_input \<Rightarrow> db \<Rightarrow> (exn + customer) \<times> db" where
  "customers_updateById store now enterpriseId i input s =
     (case tenant_read store (customers_findByIdOrThrow enterpriseId i) s of
        Inl e \<Rightarrow> (Inl e, s)
      | Inr customer \<Rightarrow> tenant_run store (customer_update i (updated_customer now input)) s)"

definition customers_deactivate :: "tenant_store option \<Rightarrow> date \<Rightarrow> uuid \<Rightarrow> uuid \<Rightarrow> db \<Rightarrow> (exn + customer) \<times> db" where
  "customers_deactivate store now enterpriseId i s =
     (case tenant_read store (customers_findByIdOrThrow enterpriseId i) s of
        Inl e \<Rightarrow> (Inl e, s)
      | Inr customer \<Rightarrow>
          tenant_run store (customer_update i (\<lambda>c. c\<lparr>customer_isActive := False, customer_updatedAt := now\<rparr>)) s)"

definition customers_service_create ::
    "tenant_store option \<Rightarrow> uuid \<Rightarrow> date \<Rightarrow> uuid \<Rightarrow> uuid \<Rightarrow> create_customer_input \<Rightarrow> db \<Rightarrow> (exn + customer) \<times> db" where
  "customers_service_create store newId now enterpriseId userId input s =
     audited userId enterpriseId CREATE_CUSTOMER ''Customer'' customer_id
       (customers_create store newId now enterpriseId input s)"

definition customers_service_update ::
    "tenant_store option \<Rightarrow> date \<Rightarrow> uuid \<Rightarrow> uuid \<Rightarrow> uuid \<Rightarrow> update_customer_input \<Rightarrow> db \<Rightarrow> (exn + customer) \<times> db" where
  "customers_service_update store now enterpriseId userId i input s =
     audited userId enterpriseId UPDATE_CUSTOMER ''Customer'' customer_id
       (customers_updateById store now enterpriseId i input s)"

definition customers_service_deactivate ::
    "tenant_store option \<Rightarrow> date \<Rightarrow> uuid \<Rightarrow> uuid \<Rightarrow> uuid \<Rightarrow> db \<Rightarrow> (exn + customer) \<times> db" where
  "customers_service_deactivate store now enterpriseId userId i s =
     audited userId enterpriseId DELETE_CLIENT ''Customer'' customer_id
       (customers_deactivate store now enterpriseId i s)"

section \<open>Suppliers\<close>

record create_supplier_input =
  si_type :: customer_type
  si_name :: string
  si_email :: "string option"
  si_phone :: "string option"
  si_address :: "string option"
  si_city :: "string option"
  si_country :: string
  si_ninea :: "string option"
  si_rccm :: "string option"
  si_notes :: "string option"

record update_supplier_input =
  su_type :: "customer_type option"
  su_name :: "string option"
  su_email :: "string option"
  su_phone :: "string option"
  su_address :: "string option"
  su_city :: "string option"
  su_country :: "string option"
  su_ninea :: "string option"
  su_rccm :: "string option"
  su_notes :: "string option"

definition suppliers_where :: "(string \<Rightarrow> string \<Rightarrow> bool) \<Rightarrow> uuid \<Rightarrow> list_cards_query \<Rightarrow> supplier \<Rightarrow> bool" where
  "suppliers_where ilike enterpriseId query c =
     (supplier_enterpriseId c = enterpriseId \<and>
      (case lcq_isActive query of None \<Rightarrow> True | Some a \<Rightarrow> supplier_isActive c = a) \<and>
      (truthy (lcq_search query) \<longrightarrow>
         ilike (supplier_name c) (the (lcq_search query)) \<or>
         contains_opt ilike (supplier_email c) (the (lcq_search query))))"

definition suppliers_findMany ::
    "(string \<Rightarrow> string \<Rightarrow> bool) \<Rightarrow> (string \<Rightarrow> 'k::linorder) \<Rightarrow> uuid \<Rightarrow> list_cards_query \<Rightarrow> db \<Rightarrow> supplier page_result" where
  "suppliers_findMany ilike collate enterpriseId query s =
     (let matching = filter (suppliers_where ilike enterpriseId query) (suppliers s)
      in \<lparr>result_items = page_rows (lcq_page query) (lcq_pageSize query)
                           (ascending (\<lambda>c. collate (supplier_name c)) matching),
          result_total = length matching, result_page = lcq_page query, result_pageSize = lcq_pageSize query\<rparr>)"

definition suppliers_findByIdOrThrow :: "uuid \<Rightarrow> uuid \<Rightarrow> db \<Rightarrow> exn + supplier" where
  "suppliers_findByIdOrThrow enterpriseId i s = (case find_by supplier_id i (suppliers s) of
     None \<Rightarrow> Inl (NotFoundException ''Fournisseur introuvable'')
   | Some supplier \<Rightarrow>
       if supplier_enterpriseId supplier \<noteq> enterpriseId then Inl (NotFoundException ''Fournisseur introuvable'')
       else Inr supplier)"

definition new_supplier :: "uuid \<Rightarrow> date \<Rightarrow> uuid \<Rightarrow> create_supplier_input \<Rightarrow> supplier" where
  "new_supplier newId now enterpriseId i =
     \<lparr>supplier_id = newId, supplier_enterpriseId = enterpriseId, supplier_type = si_type i, supplier_name = si_name i,
      supplier_email = si_email i, supplier_phone = si_phone i, supplier_address = si_address i,
      supplier_city = si_city i, supplier_country = si_country i, supplier_ninea = si_ninea i,
      supplier_rccm = si_rccm i, supplier_notes = si_notes i, supplier_isActive = True,
      supplier_createdAt = now, supplier_updatedAt = now\<rparr>"

definition supplier_create :: "supplier \<Rightarrow> (db, exn, supplier) txn" where
  "supplier_create row s =
     (if supplier_id row \<in> supplier_id ` set (suppliers s) then Inl (PrismaKnown P2002)
      else Inr (row, s\<lparr>suppliers := suppliers s @ [row]\<rparr>))"

definition updated_supplier :: "date \<Rightarrow> update_supplier_input \<Rightarrow> supplier \<Rightarrow> supplier" where
  "updated_supplier now i c = c\<lparr>
     supplier_type := given (su_type i) (supplier_type c), supplier_name := given (su_name i) (supplier_name c),
     supplier_email := given_opt (su_email i) (supplier_email c),
     supplier_phone := given_opt (su_phone i) (supplier_phone c),
     supplier_address := given_opt (su_address i) (supplier_address c),
     supplier_city := given_opt (su_city i) (supplier_city c),
     supplier_country := given (su_country i) (supplier_country c),
     supplier_ninea := given_opt (su_ninea i) (supplier_ninea c),
     supplier_rccm := given_opt (su_rccm i) (supplier_rccm c),
     supplier_notes := given_opt (su_notes i) (supplier_notes c), supplier_updatedAt := now\<rparr>"

definition supplier_update :: "uuid \<Rightarrow> (supplier \<Rightarrow> supplier) \<Rightarrow> (db, exn, supplier) txn" where
  "supplier_update i f s = (case find_by supplier_id i (suppliers s) of
     None \<Rightarrow> Inl (PrismaKnown P2025)
   | Some c \<Rightarrow> Inr (f c, s\<lparr>suppliers := update_by supplier_id i f (suppliers s)\<rparr>))"

definition suppliers_create ::
    "tenant_store option \<Rightarrow> uuid \<Rightarrow> date \<Rightarrow> uuid \<Rightarrow> create_supplier_input \<Rightarrow> db \<Rightarrow> (exn + supplier) \<times> db" where
  "suppliers_create store newId now enterpriseId input s =
     tenant_run store (supplier_create (new_supplier newId now enterpriseId input)) s"

definition suppliers_updateById ::
    "tenant_store option \<Rightarrow> date \<Rightarrow> uuid \<Rightarrow> uuid \<Rightarrow> update_supplier_input \<Rightarrow> db \<Rightarrow> (exn + supplier) \<times> db" where
  "suppliers_updateById store now enterpriseId i input s =
     (case tenant_read store (suppliers_findByIdOrThrow enterpriseId i) s of
        Inl e \<Rightarrow> (Inl e, s)
      | Inr supplier \<Rightarrow> tenant_run store (supplier_update i (updated_supplier now input)) s)"

definition suppliers_deactivate :: "tenant_store option \<Rightarrow> date \<Rightarrow> uuid \<Rightarrow> uuid \<Rightarrow> db \<Rightarrow> (exn + supplier) \<times> db" where
  "suppliers_deactivate store now enterpriseId i s =
     (case tenant_read store (suppliers_findByIdOrThrow enterpriseId i) s of
        Inl e \<Rightarrow> (Inl e, s)
      | Inr supplier \<Rightarrow>
          tenant_run store (supplier_update i (\<lambda>c. c\<lparr>supplier_isActive := False, supplier_updatedAt := now\<rparr>)) s)"

definition suppliers_service_create ::
    "tenant_store option \<Rightarrow> uuid \<Rightarrow> date \<Rightarrow> uuid \<Rightarrow> uuid \<Rightarrow> create_supplier_input \<Rightarrow> db \<Rightarrow> (exn + supplier) \<times> db" where
  "suppliers_service_create store newId now enterpriseId userId input s =
     audited userId enterpriseId CREATE_SUPPLIER ''Supplier'' supplier_id
       (suppliers_create store newId now enterpriseId input s)"

definition suppliers_service_update ::
    "tenant_store option \<Rightarrow> date \<Rightarrow> uuid \<Rightarrow> uuid \<Rightarrow> uuid \<Rightarrow> update_supplier_input \<Rightarrow> db \<Rightarrow> (exn + supplier) \<times> db" where
  "suppliers_service_update store now enterpriseId userId i input s =
     audited userId enterpriseId UPDATE_SUPPLIER ''Supplier'' supplier_id
       (suppliers_updateById store now enterpriseId i input s)"

definition suppliers_service_deactivate ::
    "tenant_store option \<Rightarrow> date \<Rightarrow> uuid \<Rightarrow> uuid \<Rightarrow> uuid \<Rightarrow> db \<Rightarrow> (exn + supplier) \<times> db" where
  "suppliers_service_deactivate store now enterpriseId userId i s =
     audited userId enterpriseId DELETE_SUPPLIER ''Supplier'' supplier_id
       (suppliers_deactivate store now enterpriseId i s)"

section \<open>What the services do\<close>

lemma withUniqueCodeConflictMapped_simps [simp]:
  "withUniqueCodeConflictMapped m (Inr a, s) = (Inr a, s)"
  "withUniqueCodeConflictMapped m (Inl e, s) = (Inl (if e = PrismaKnown P2002 then ConflictException m else e), s)"
  by (simp_all add: withUniqueCodeConflictMapped_def)

lemma audited_simps [simp]:
  "audited u e a r f (Inr x, s) = (Inr x, auditLog_record (audit_entry u e a r (f x)) s)"
  "audited u e a r f (Inl err, s) = (Inl err, s)"
  by (simp_all add: audited_def)

lemma tenant_read_simps [simp]:
  "tenant_read (Some st) f s = f s"
  "\<exists>err. tenant_read None f s = Inl err"
  by (simp_all add: tenant_read_def getRequiredTenantId_def)

definition code_taken :: "uuid \<Rightarrow> uuid \<Rightarrow> string \<Rightarrow> db \<Rightarrow> bool" where
  "code_taken i e code s \<longleftrightarrow>
     (\<exists>r\<in>set (products s). product_id r \<noteq> i \<and> product_enterpriseId r = e \<and> product_code r = code)"

definition set_products :: "uuid \<Rightarrow> (product \<Rightarrow> product) \<Rightarrow> db \<Rightarrow> db" where
  "set_products i f s = s\<lparr>products := update_by product_id i f (products s)\<rparr>"

lemma products_service_create_eq:
  "products_service_create (Some st) newId now e u input s =
   (if newId \<in> product_id ` set (products s) \<or>
       (\<exists>r\<in>set (products s). product_enterpriseId r = e \<and> product_code r = pi_code input)
    then (Inl (ConflictException ''Ce code produit est deja utilise''), s)
    else (Inr (new_product newId now e input),
          auditLog_record (audit_entry u e CREATE_PRODUCT ''Product'' newId)
            (s\<lparr>products := products s @ [new_product newId now e input]\<rparr>)))"
  by (auto simp: products_service_create_def products_create_def tenant_run_Some commit_txn_def product_create_def
      new_product_def)

lemma products_service_update_eq:
  "products_service_update (Some st) now e u i input s =
   (if \<not> owned_product e i s then (Inl (NotFoundException ''Produit introuvable''), s)
    else (let p = the (find_by product_id i (products s)); p' = updated_product now input p in
      if code_taken i e (product_code p') s then (Inl (ConflictException ''Ce code produit est deja utilise''), s)
      else (Inr p', auditLog_record (audit_entry u e UPDATE_PRODUCT ''Product'' i)
                      (set_products i (updated_product now input) s))))"
proof (cases "find_by product_id i (products s)")
  case None
  then show ?thesis
    by (simp add: products_service_update_def products_updateById_def products_findByIdOrThrow_def owned_product_def)
next
  case (Some p)
  have k: "product_enterpriseId (updated_product now input p) = product_enterpriseId p"
    "product_id (updated_product now input p) = i"
    using find_by_SomeD[OF Some] by (simp_all add: updated_product_def)
  show ?thesis
    by (auto simp: products_service_update_def products_updateById_def products_findByIdOrThrow_def owned_product_def Some
        tenant_run_Some commit_txn_def product_update_def code_taken_def set_products_def k Let_def)
qed

lemma products_service_deactivate_eq:
  assumes "find_by product_id i (products s) = Some p" "\<not> code_taken i e (product_code p) s"
    "product_enterpriseId p = e"
  shows "products_service_deactivate (Some st) now e u i s =
     (let f = (\<lambda>p. p\<lparr>product_isActive := False, product_updatedAt := now\<rparr>) in
      (Inr (f p), auditLog_record (audit_entry u e DELETE_PRODUCT ''Product'' i) (set_products i f s)))"
  using assms find_by_SomeD[OF assms(1)]
  by (auto simp: products_service_deactivate_def products_deactivate_def products_findByIdOrThrow_def
      tenant_run_Some commit_txn_def product_update_def code_taken_def set_products_def)

text \<open>
  Every write of a card either leaves the database alone, appends a card or rewrites one card of the
  caller's enterprise, keeping its identifier and owner.
\<close>

definition keeps_product :: "(product \<Rightarrow> product) \<Rightarrow> bool" where
  "keeps_product f \<longleftrightarrow> (\<forall>p. product_id (f p) = product_id p \<and> product_enterpriseId (f p) = product_enterpriseId p)"

lemma product_update_InrD:
  assumes "product_update i f s = Inr (p', s')"
  shows "s' = set_products i f s \<and> (\<exists>p. find_by product_id i (products s) = Some p \<and> p' = f p \<and>
     \<not> (\<exists>r\<in>set (products s). product_id r \<noteq> i \<and> product_enterpriseId r = product_enterpriseId (f p) \<and>
            product_code r = product_code (f p)))"
  using assms by (auto simp: product_update_def set_products_def split: option.splits if_splits)

lemma products_findByIdOrThrow_InrD:
  "products_findByIdOrThrow e i s = Inr p \<Longrightarrow> find_by product_id i (products s) = Some p \<and> product_enterpriseId p = e"
  by (auto simp: products_findByIdOrThrow_def split: option.splits if_splits)

lemma owned_set_products:
  assumes "keeps_product f"
  shows "owned_product e' i' (set_products i f s) = owned_product e' i' s"
  using assms
  by (simp add: owned_product_def set_products_def keeps_product_def find_by_update_by split: option.splits)

section \<open>Invariants\<close>

definition catalog_wf :: "db \<Rightarrow> bool" where
  "catalog_wf s \<longleftrightarrow> distinct (map product_id (products s)) \<and>
     unique_key product_enterpriseId (\<lambda>p. Some (product_code p)) (products s) \<and>
     distinct (map customer_id (customers s)) \<and> distinct (map supplier_id (suppliers s))"

lemma catalog_wf_append_product:
  assumes "catalog_wf s" and "product_id p \<notin> product_id ` set (products s)"
    and "\<not> (\<exists>r\<in>set (products s). product_enterpriseId r = product_enterpriseId p \<and> product_code r = product_code p)"
  shows "catalog_wf (s\<lparr>products := products s @ [p]\<rparr>)"
  using assms by (auto simp: catalog_wf_def unique_key_append1 clashes_key_def)

lemma unique_code_update:
  assumes "distinct (map product_id rows)" and "unique_key product_enterpriseId (\<lambda>p. Some (product_code p)) rows"
    and "keeps_product f"
    and "\<And>p. p \<in> set rows \<Longrightarrow> product_id p = i \<Longrightarrow> \<not> (\<exists>r\<in>set rows. product_id r \<noteq> i \<and>
            product_enterpriseId r = product_enterpriseId (f p) \<and> product_code r = product_code (f p))"
  shows "unique_key product_enterpriseId (\<lambda>p. Some (product_code p)) (update_by product_id i f rows)"
proof -
  let ?k = "\<lambda>r. (product_enterpriseId r, Some (product_code r))"
  let ?g = "\<lambda>r. if product_id r = i then f r else r"
  have d: "distinct rows" "inj_on product_id (set rows)" using assms(1) by (auto simp: distinct_map)
  have old: "inj_on ?k (set rows)" using assms(2) by (auto simp: unique_key_def distinct_map inj_on_def)
  have "inj_on (\<lambda>r. ?k (?g r)) (set rows)"
  proof (rule inj_onI)
    fix x y assume xy: "x \<in> set rows" "y \<in> set rows" and eq: "?k (?g x) = ?k (?g y)"
    show "x = y"
    proof (cases "product_id x = i"; cases "product_id y = i")
      assume "product_id x = i" "product_id y = i"
      with d(2) xy show ?thesis by (auto simp: inj_on_def)
    next
      assume "product_id x \<noteq> i" "product_id y \<noteq> i"
      with old xy eq show ?thesis by (auto simp: inj_on_def)
    next
      assume "product_id x = i" "product_id y \<noteq> i"
      with assms(4)[OF xy(1)] xy eq show ?thesis by force
    next
      assume "product_id x \<noteq> i" "product_id y = i"
      with assms(4)[OF xy(2)] xy eq show ?thesis by force
    qed
  qed
  with d(1) show ?thesis by (simp add: unique_key_def update_by_def distinct_map o_def comp_inj_on_iff[symmetric])
qed

lemma catalog_wf_set_products:
  assumes "catalog_wf s" and "keeps_product f" and "product_update i f s = Inr (p', s')"
  shows "catalog_wf (set_products i f s)"
proof -
  from product_update_InrD[OF assms(3)] obtain p where p: "find_by product_id i (products s) = Some p"
    and free: "\<not> (\<exists>r\<in>set (products s). product_id r \<noteq> i \<and> product_enterpriseId r = product_enterpriseId (f p) \<and>
            product_code r = product_code (f p))" by blast
  have same: "p'' = p" if "p'' \<in> set (products s)" "product_id p'' = i" for p''
    using that assms(1) find_by_distinct[of product_id "products s" p''] p by (auto simp: catalog_wf_def)
  have "unique_key product_enterpriseId (\<lambda>p. Some (product_code p)) (update_by product_id i f (products s))"
  proof (rule unique_code_update)
    fix p'' assume "p'' \<in> set (products s)" "product_id p'' = i"
    with same free show "\<not> (\<exists>r\<in>set (products s). product_id r \<noteq> i \<and>
        product_enterpriseId r = product_enterpriseId (f p'') \<and> product_code r = product_code (f p''))" by blast
  qed (use assms(1,2) in \<open>auto simp: catalog_wf_def\<close>)
  with assms(1,2) show ?thesis
    by (simp add: catalog_wf_def set_products_def map_update_by keeps_product_def)
qed

lemma keeps_product_updated [simp]: "keeps_product (updated_product now input)"
  by (simp add: keeps_product_def updated_product_def)

lemma keeps_product_deactivated [simp]: "keeps_product (\<lambda>p. p\<lparr>product_isActive := False, product_updatedAt := now\<rparr>)"
  by (simp add: keeps_product_def)

section \<open>Steps of the catalogue\<close>

text \<open>
  Every write of a card leaves the database alone, appends a card of the caller's enterprise, or
  rewrites one of its cards keeping identifier and owner. The services refine this relation, and the
  invariants are proved on it once.
\<close>

definition keeps_customer :: "(customer \<Rightarrow> customer) \<Rightarrow> bool" where
  "keeps_customer f \<longleftrightarrow> (\<forall>c. customer_id (f c) = customer_id c \<and> customer_enterpriseId (f c) = customer_enterpriseId c)"

definition keeps_supplier :: "(supplier \<Rightarrow> supplier) \<Rightarrow> bool" where
  "keeps_supplier f \<longleftrightarrow> (\<forall>c. supplier_id (f c) = supplier_id c \<and> supplier_enterpriseId (f c) = supplier_enterpriseId c)"

inductive catalog_step :: "uuid \<Rightarrow> db \<Rightarrow> db \<Rightarrow> bool" for e where
  same: "catalog_step e s s"
| product_new: "product_enterpriseId p = e \<Longrightarrow> product_create p s = Inr (p, s') \<Longrightarrow> catalog_step e s s'"
| product_set: "keeps_product f \<Longrightarrow> owned_product e i s \<Longrightarrow> product_update i f s = Inr (p, s') \<Longrightarrow> catalog_step e s s'"
| customer_new: "customer_enterpriseId c = e \<Longrightarrow> customer_create c s = Inr (c, s') \<Longrightarrow> catalog_step e s s'"
| customer_set: "keeps_customer f \<Longrightarrow> owned_customer e i s \<Longrightarrow> customer_update i f s = Inr (c, s') \<Longrightarrow> catalog_step e s s'"
| supplier_new: "supplier_enterpriseId c = e \<Longrightarrow> supplier_create c s = Inr (c, s') \<Longrightarrow> catalog_step e s s'"
| supplier_set: "keeps_supplier f \<Longrightarrow> owned_supplier e i s \<Longrightarrow> supplier_update i f s = Inr (c, s') \<Longrightarrow> catalog_step e s s'"
| audit: "catalog_step e s s' \<Longrightarrow> audit_enterpriseId a = Some e \<Longrightarrow> catalog_step e s (auditLog_record a s')"

lemma card_writes:
  "product_create p s = Inr (q, s') \<Longrightarrow> q = p \<and> product_id p \<notin> product_id ` set (products s) \<and>
     \<not> (\<exists>r\<in>set (products s). product_enterpriseId r = product_enterpriseId p \<and> product_code r = product_code p) \<and>
     s' = s\<lparr>products := products s @ [p]\<rparr>"
  "customer_create c s = Inr (d, s') \<Longrightarrow> d = c \<and> customer_id c \<notin> customer_id ` set (customers s) \<and>
     s' = s\<lparr>customers := customers s @ [c]\<rparr>"
  "customer_update i f s = Inr (d, s') \<Longrightarrow> s' = s\<lparr>customers := update_by customer_id i f (customers s)\<rparr>"
  "supplier_create x s = Inr (y, s') \<Longrightarrow> y = x \<and> supplier_id x \<notin> supplier_id ` set (suppliers s) \<and>
     s' = s\<lparr>suppliers := suppliers s @ [x]\<rparr>"
  "supplier_update i g s = Inr (y, s') \<Longrightarrow> s' = s\<lparr>suppliers := update_by supplier_id i g (suppliers s)\<rparr>"
  by (auto simp: product_create_def customer_create_def customer_update_def supplier_create_def supplier_update_def
      split: if_splits option.splits)

lemma product_write_InrD:
  "product_update i f s = Inr (p', s') \<Longrightarrow> s' = set_products i f s"
  by (simp add: product_update_InrD)

lemma catalog_wf_audit [simp]: "catalog_wf (auditLog_record a s) = catalog_wf s"
  by (simp add: catalog_wf_def auditLog_record_def)

lemma catalog_step_wf: "catalog_step e s s' \<Longrightarrow> catalog_wf s \<Longrightarrow> catalog_wf s'"
proof (induction rule: catalog_step.induct)
  case (product_new p s s')
  then show ?case using catalog_wf_append_product[of s p] card_writes(1)[of p s p s'] by auto
next
  case (product_set f i s p s')
  then show ?case using catalog_wf_set_products[of s f i p s'] product_write_InrD by auto
qed (auto simp: catalog_wf_def auditLog_record_def map_update_by keeps_customer_def keeps_supplier_def dest!: card_writes)

text \<open>What the rest of the program relies on: cards stay where they are, other tables are untouched.\<close>

lemma owned_append_mono:
  "owned_product e i s \<Longrightarrow> owned_product e i (s\<lparr>products := products s @ [p]\<rparr>)"
  "owned_customer e i s \<Longrightarrow> owned_customer e i (s\<lparr>customers := customers s @ [c]\<rparr>)"
  "owned_supplier e i s \<Longrightarrow> owned_supplier e i (s\<lparr>suppliers := suppliers s @ [x]\<rparr>)"
  by (auto simp: owned_defs split: option.splits)

lemma owned_set:
  "keeps_customer f \<Longrightarrow> owned_customer e i (s\<lparr>customers := update_by customer_id j f (customers s)\<rparr>) = owned_customer e i s"
  "keeps_supplier g \<Longrightarrow> owned_supplier e i (s\<lparr>suppliers := update_by supplier_id j g (suppliers s)\<rparr>) = owned_supplier e i s"
  by (simp_all add: owned_defs keeps_customer_def keeps_supplier_def find_by_update_by split: option.splits)

lemma catalog_step_frame:
  "catalog_step e s s' \<Longrightarrow> stockMovements s' = stockMovements s \<and> sales s' = sales s \<and> purchases s' = purchases s \<and>
     salesInvoices s' = salesInvoices s \<and> salesInvoiceCounters s' = salesInvoiceCounters s \<and>
     accounts s' = accounts s \<and> journalEntries s' = journalEntries s \<and>
     journalEntryCounters s' = journalEntryCounters s \<and> enterprises s' = enterprises s"
  by (induction rule: catalog_step.induct)
    (auto simp: auditLog_record_def set_products_def dest!: card_writes product_write_InrD)

lemma catalog_step_owned:
  "catalog_step e s s' \<Longrightarrow> owned_product e' i s \<Longrightarrow> owned_product e' i s'"
  "catalog_step e s s' \<Longrightarrow> owned_customer e' i s \<Longrightarrow> owned_customer e' i s'"
  "catalog_step e s s' \<Longrightarrow> owned_supplier e' i s \<Longrightarrow> owned_supplier e' i s'"
proof -
  show "owned_product e' i s'" if "catalog_step e s s'" "owned_product e' i s"
    using that by (induction rule: catalog_step.induct)
      (auto simp: owned_set_products dest!: card_writes product_write_InrD intro: owned_append_mono)
  show "owned_customer e' i s'" if "catalog_step e s s'" "owned_customer e' i s"
    using that by (induction rule: catalog_step.induct)
      (auto simp: owned_set set_products_def dest!: card_writes product_write_InrD intro: owned_append_mono)
  show "owned_supplier e' i s'" if "catalog_step e s s'" "owned_supplier e' i s"
    using that by (induction rule: catalog_step.induct)
      (auto simp: owned_set set_products_def dest!: card_writes product_write_InrD intro: owned_append_mono)
qed

section \<open>The services refine the steps\<close>

lemma catalog_step_tenant_run:
  assumes "\<And>a s'. t s = Inr (a, s') \<Longrightarrow> catalog_step e s s'"
  shows "catalog_step e s (snd (tenant_run store t s))"
  by (rule tenant_run_invariant[where P = "catalog_step e s", OF assms catalog_step.same])

lemma snd_withUniqueCodeConflictMapped [simp]: "snd (withUniqueCodeConflictMapped m r) = snd r"
  by (auto simp: withUniqueCodeConflictMapped_def split: prod.splits sum.splits)

lemma catalog_step_audited:
  "catalog_step e s (snd r) \<Longrightarrow> catalog_step e s (snd (audited u e a res f r))"
  by (auto simp: audited_def audit_entry_def split: prod.splits sum.splits intro!: catalog_step.audit)

lemma tenant_read_InrD: "tenant_read store f s = Inr a \<Longrightarrow> f s = Inr a"
  by (auto simp: tenant_read_def split: sum.splits)

lemma findByIdOrThrow_owned:
  "products_findByIdOrThrow e i s = Inr p \<Longrightarrow> owned_product e i s"
  "customers_findByIdOrThrow e i s = Inr c \<Longrightarrow> owned_customer e i s"
  "suppliers_findByIdOrThrow e i s = Inr x \<Longrightarrow> owned_supplier e i s"
  by (auto simp: products_findByIdOrThrow_def customers_findByIdOrThrow_def suppliers_findByIdOrThrow_def
      owned_defs split: option.splits if_splits)

lemma keeps_card_updates [simp]:
  "keeps_customer (updated_customer now cin)" "keeps_supplier (updated_supplier now sin)"
  "keeps_customer (\<lambda>c. c\<lparr>customer_isActive := False, customer_updatedAt := now\<rparr>)"
  "keeps_supplier (\<lambda>c. c\<lparr>supplier_isActive := False, supplier_updatedAt := now\<rparr>)"
  by (simp_all add: keeps_customer_def keeps_supplier_def updated_customer_def updated_supplier_def)

lemma new_card_enterprise [simp]:
  "product_enterpriseId (new_product n now e pin) = e" "customer_enterpriseId (new_customer n now e cin) = e"
  "supplier_enterpriseId (new_supplier n now e sin) = e"
  by (simp_all add: new_product_def new_customer_def new_supplier_def)

lemma products_services_step:
  "catalog_step e s (snd (products_service_create store n now e u pin s))"
  "catalog_step e s (snd (products_service_update store now e u i pup s))"
  "catalog_step e s (snd (products_service_deactivate store now e u i s))"
proof -
  show "catalog_step e s (snd (products_service_create store n now e u pin s))"
    unfolding products_service_create_def products_create_def
    by (intro catalog_step_audited) (auto intro!: catalog_step_tenant_run dest!: card_writes(1)
        intro: catalog_step.product_new[of "new_product n now e pin" e s] simp: product_create_def)
  show "catalog_step e s (snd (products_service_update store now e u i pup s))"
    unfolding products_service_update_def products_updateById_def
    by (intro catalog_step_audited) (auto split: sum.splits intro!: catalog_step_tenant_run catalog_step.same
        intro: catalog_step.product_set[OF keeps_product_updated findByIdOrThrow_owned(1)[OF tenant_read_InrD]])
  show "catalog_step e s (snd (products_service_deactivate store now e u i s))"
    unfolding products_service_deactivate_def products_deactivate_def
    by (intro catalog_step_audited) (auto split: sum.splits intro!: catalog_step_tenant_run catalog_step.same
        intro: catalog_step.product_set[OF keeps_product_deactivated findByIdOrThrow_owned(1)[OF tenant_read_InrD]])
qed

lemma customers_services_step:
  "catalog_step e s (snd (customers_service_create store n now e u cin s))"
  "catalog_step e s (snd (customers_service_update store now e u i cup s))"
  "catalog_step e s (snd (customers_service_deactivate store now e u i s))"
proof -
  show "catalog_step e s (snd (customers_service_create store n now e u cin s))"
    unfolding customers_service_create_def customers_create_def
    by (intro catalog_step_audited catalog_step_tenant_run)
      (auto simp: customer_create_def intro: catalog_step.customer_new[of "new_customer n now e cin" e s] split: if_splits)
  show "catalog_step e s (snd (customers_service_update store now e u i cup s))"
    unfolding customers_service_update_def customers_updateById_def
    by (intro catalog_step_audited) (auto split: sum.splits intro!: catalog_step_tenant_run catalog_step.same
        intro: catalog_step.customer_set[OF keeps_card_updates(1) findByIdOrThrow_owned(2)[OF tenant_read_InrD]])
  show "catalog_step e s (snd (customers_service_deactivate store now e u i s))"
    unfolding customers_service_deactivate_def customers_deactivate_def
    by (intro catalog_step_audited) (auto split: sum.splits intro!: catalog_step_tenant_run catalog_step.same
        intro: catalog_step.customer_set[OF keeps_card_updates(3) findByIdOrThrow_owned(2)[OF tenant_read_InrD]])
qed

lemma suppliers_services_step:
  "catalog_step e s (snd (suppliers_service_create store n now e u sin s))"
  "catalog_step e s (snd (suppliers_service_update store now e u i spu s))"
  "catalog_step e s (snd (suppliers_service_deactivate store now e u i s))"
proof -
  show "catalog_step e s (snd (suppliers_service_create store n now e u sin s))"
    unfolding suppliers_service_create_def suppliers_create_def
    by (intro catalog_step_audited catalog_step_tenant_run)
      (auto simp: supplier_create_def intro: catalog_step.supplier_new[of "new_supplier n now e sin" e s] split: if_splits)
  show "catalog_step e s (snd (suppliers_service_update store now e u i spu s))"
    unfolding suppliers_service_update_def suppliers_updateById_def
    by (intro catalog_step_audited) (auto split: sum.splits intro!: catalog_step_tenant_run catalog_step.same
        intro: catalog_step.supplier_set[OF keeps_card_updates(2) findByIdOrThrow_owned(3)[OF tenant_read_InrD]])
  show "catalog_step e s (snd (suppliers_service_deactivate store now e u i s))"
    unfolding suppliers_service_deactivate_def suppliers_deactivate_def
    by (intro catalog_step_audited) (auto split: sum.splits intro!: catalog_step_tenant_run catalog_step.same
        intro: catalog_step.supplier_set[OF keeps_card_updates(4) findByIdOrThrow_owned(3)[OF tenant_read_InrD]])
qed

text \<open>Cards of another enterprise are not touched by a step.\<close>

definition card_of :: "('r \<Rightarrow> uuid) \<Rightarrow> ('r \<Rightarrow> uuid) \<Rightarrow> uuid \<Rightarrow> uuid \<Rightarrow> 'r list \<Rightarrow> 'r option" where
  "card_of key tenant e i rows = (case find_by key i rows of None \<Rightarrow> None | Some r \<Rightarrow> if tenant r = e then Some r else None)"

lemma card_of_append:
  "tenant r \<noteq> e' \<Longrightarrow> card_of key tenant e' j (rows @ [r]) = card_of key tenant e' j rows"
  by (auto simp: card_of_def split: option.splits)

lemma card_of_update:
  assumes "\<And>r. key (f r) = key r" and "\<And>r. tenant (f r) = tenant r"
    and "find_by key i rows = Some r0" and "tenant r0 \<noteq> e'"
  shows "card_of key tenant e' j (update_by key i f rows) = card_of key tenant e' j rows"
  using assms by (auto simp: card_of_def find_by_update_by split: option.splits)

lemma findByIdOrThrow_card_of:
  "products_findByIdOrThrow e i s = (case card_of product_id product_enterpriseId e i (products s) of
     None \<Rightarrow> Inl (NotFoundException ''Produit introuvable'') | Some p \<Rightarrow> Inr p)"
  "customers_findByIdOrThrow e i s = (case card_of customer_id customer_enterpriseId e i (customers s) of
     None \<Rightarrow> Inl (NotFoundException ''Client introuvable'') | Some p \<Rightarrow> Inr p)"
  "suppliers_findByIdOrThrow e i s = (case card_of supplier_id supplier_enterpriseId e i (suppliers s) of
     None \<Rightarrow> Inl (NotFoundException ''Fournisseur introuvable'') | Some p \<Rightarrow> Inr p)"
  by (auto simp: products_findByIdOrThrow_def customers_findByIdOrThrow_def suppliers_findByIdOrThrow_def card_of_def
      split: option.splits)

lemma card_of_owned_update:
  "keeps_product f \<Longrightarrow> owned_product e i s \<Longrightarrow> e' \<noteq> e \<Longrightarrow>
   card_of product_id product_enterpriseId e' j (update_by product_id i f (products s)) =
   card_of product_id product_enterpriseId e' j (products s)"
  "keeps_customer g \<Longrightarrow> owned_customer e i s \<Longrightarrow> e' \<noteq> e \<Longrightarrow>
   card_of customer_id customer_enterpriseId e' j (update_by customer_id i g (customers s)) =
   card_of customer_id customer_enterpriseId e' j (customers s)"
  "keeps_supplier h \<Longrightarrow> owned_supplier e i s \<Longrightarrow> e' \<noteq> e \<Longrightarrow>
   card_of supplier_id supplier_enterpriseId e' j (update_by supplier_id i h (suppliers s)) =
   card_of supplier_id supplier_enterpriseId e' j (suppliers s)"
  by (auto simp: keeps_product_def keeps_customer_def keeps_supplier_def intro!: card_of_update dest!: owned_SomeD)

lemma catalog_step_other:
  assumes "catalog_step e s s'" and "e' \<noteq> e"
  shows "card_of product_id product_enterpriseId e' j (products s') =
           card_of product_id product_enterpriseId e' j (products s) \<and>
         card_of customer_id customer_enterpriseId e' j (customers s') =
           card_of customer_id customer_enterpriseId e' j (customers s) \<and>
         card_of supplier_id supplier_enterpriseId e' j (suppliers s') =
           card_of supplier_id supplier_enterpriseId e' j (suppliers s)"
  using assms
  by (induction rule: catalog_step.induct)
    (auto simp: card_of_append card_of_owned_update auditLog_record_def set_products_def
      dest!: card_writes product_write_InrD)

section \<open>Properties\<close>

text \<open>
  Editing a product: a product that does not exist or belongs to another enterprise is a 404; a
  new code that another product of the enterprise already has is a 409; in both cases nothing
  changes. Otherwise exactly this product changes, it keeps its identifier, owner, activity and
  creation date and every field the request does not carry, and codes stay unique.
\<close>

theorem products_update_effect:
  assumes "catalog_wf s"
  shows "case products_service_update (Some st) now e u i input s of
      (Inl err, s') \<Rightarrow> s' = s \<and>
        (err = NotFoundException ''Produit introuvable'' \<and> \<not> owned_product e i s \<or>
         err = ConflictException ''Ce code produit est deja utilise'' \<and> owned_product e i s \<and>
           (\<exists>code. pu_code input = Some code \<and> code_taken i e code s))
    | (Inr p', s') \<Rightarrow> catalog_wf s' \<and>
        (\<exists>p. find_by product_id i (products s) = Some p \<and> product_enterpriseId p = e \<and>
           p' = updated_product now input p \<and> product_id p' = i \<and> product_enterpriseId p' = e \<and>
           product_isActive p' = product_isActive p \<and> product_createdAt p' = product_createdAt p \<and>
           (pu_sellingPriceExcludingTax input = None \<longrightarrow>
              product_sellingPriceExcludingTax p' = product_sellingPriceExcludingTax p) \<and>
           (pu_trackStock input = None \<longrightarrow> product_trackStock p' = product_trackStock p) \<and>
           find_by product_id i (products s') = Some p' \<and>
           (\<forall>j. j \<noteq> i \<longrightarrow> find_by product_id j (products s') = find_by product_id j (products s)))"
proof (cases "owned_product e i s")
  case False
  then show ?thesis by (simp add: products_service_update_eq)
next
  case True
  then obtain p where p: "find_by product_id i (products s) = Some p" "product_enterpriseId p = e"
    by (auto dest: owned_SomeD)
  have free: "\<not> code_taken i e (product_code p) s"
  proof
    assume "code_taken i e (product_code p) s"
    then obtain r where "r \<in> set (products s)" "product_id r \<noteq> i" "product_enterpriseId r = e"
      "product_code r = product_code p" by (auto simp: code_taken_def)
    with assms p find_by_SomeD[OF p(1)] unique_key_same[of product_enterpriseId "\<lambda>p. Some (product_code p)" "products s" r p]
    show False by (auto simp: catalog_wf_def)
  qed
  have upd: "product_id (updated_product now input q) = product_id q" for q by (simp add: updated_product_def)
  show ?thesis
  proof (cases "code_taken i e (product_code (updated_product now input p)) s")
    case c: True
    with free have "pu_code input = Some (product_code (updated_product now input p))"
      by (auto simp: updated_product_def given_def split: option.splits)
    with c True p show ?thesis by (simp add: products_service_update_eq Let_def)
  next
    case c: False
    have r: "products_service_update (Some st) now e u i input s = (Inr (updated_product now input p),
        auditLog_record (audit_entry u e UPDATE_PRODUCT ''Product'' i) (set_products i (updated_product now input) s))"
      using c True p by (simp add: products_service_update_eq Let_def)
    have "catalog_wf (snd (products_service_update (Some st) now e u i input s))"
      by (rule catalog_step_wf[OF products_services_step(2) assms])
    then show ?thesis
      using p find_by_SomeD[OF p(1)]
      by (simp add: r set_products_def find_by_update_by upd) (simp add: updated_product_def given_def)
  qed
qed

definition fx_price_change :: update_product_input where
  "fx_price_change = \<lparr>pu_code = None, pu_name = None, pu_description = None, pu_unit = None, pu_category = None,
     pu_barcode = None, pu_sellingPriceExcludingTax = Some 1500, pu_vatRateBasisPoints = None, pu_trackStock = None\<rparr>"

lemma fx_db_catalog_wf: "catalog_wf fx_db"
  by (simp add: catalog_wf_def fx_db_simps unique_key_def)

lemma products_update_effect_witness:
  "\<exists>p' s'. products_service_update fx_store 5 ''e1'' ''u1'' ''p1'' fx_price_change fx_db = (Inr p', s') \<and>
     catalog_wf s' \<and> product_sellingPriceExcludingTax p' = 1500 \<and> product_trackStock p'"
proof -
  have "owned_product ''e1'' ''p1'' fx_db" by (simp add: owned_defs fx_db_simps)
  moreover have "\<not> (\<exists>code. pu_code fx_price_change = Some code \<and> code_taken ''p1'' ''e1'' code fx_db)"
    by (simp add: fx_price_change_def)
  moreover note products_update_effect[OF fx_db_catalog_wf,
      where st = "\<lparr>store_tenantId = ''e1'', store_userId = ''u1'', store_isSuperAdmin = False\<rparr>" and now = 5
        and e = "''e1''" and u = "''u1''" and i = "''p1''" and input = fx_price_change, folded fx_store_def]
  ultimately show ?thesis
    by (auto split: prod.splits sum.splits simp: updated_product_def fx_price_change_def given_def fx_db_simps)
qed

text \<open>
  Pagination loses and repeats nothing: reading the product list page by page gives every
  product of the enterprise that matches the filter, once, in name order, and the reported total is
  their number.
\<close>

theorem products_pages_complete:
  assumes "catalog_wf s" and "result_total (products_findMany ilike collate e query s) \<le> k * lcq_pageSize query"
  defines "all \<equiv> concat (map (\<lambda>n. result_items (products_findMany ilike collate e (query\<lparr>lcq_page := n\<rparr>) s)) [1..<Suc k])"
  shows "set all = {p \<in> set (products s). products_where ilike e query p} \<and> distinct all \<and>
         length all = result_total (products_findMany ilike collate e query s) \<and>
         sorted (map (\<lambda>p. collate (product_name p)) all)"
proof -
  let ?m = "filter (products_where ilike e query) (products s)"
  have w: "products_where ilike e (query\<lparr>lcq_page := n\<rparr>) = products_where ilike e query" for n
    by (auto simp: products_where_def fun_eq_iff)
  have "all = concat (map (\<lambda>n. page_rows n (lcq_pageSize query) (ascending (\<lambda>p. collate (product_name p)) ?m)) [1..<Suc k])"
    by (simp add: all_def products_findMany_def Let_def w)
  also have "\<dots> = ascending (\<lambda>p. collate (product_name p)) ?m"
    using assms(2) by (intro pages_partition) (simp add: products_findMany_def Let_def)
  finally have all: "all = ascending (\<lambda>p. collate (product_name p)) ?m" .
  have "distinct ?m" using assms(1) by (auto simp: catalog_wf_def distinct_map)
  then show ?thesis by (auto simp: all ascending_def products_findMany_def Let_def)
qed

lemma products_pages_complete_witness:
  "set (concat (map (\<lambda>n. result_items (products_findMany (\<lambda>h n. True) length ''e1''
      \<lparr>lcq_page = n, lcq_pageSize = 1, lcq_search = None, lcq_isActive = None\<rparr> fx_db)) [1..<Suc 2])) =
   {fx_product ''p1'' ''e1'' ''A1'' True, fx_product ''p2'' ''e1'' ''A2'' False}"
proof -
  let ?q = "\<lparr>lcq_page = 1, lcq_pageSize = 1, lcq_search = None, lcq_isActive = None\<rparr>"
  have "result_total (products_findMany (\<lambda>h n. True) length ''e1'' ?q fx_db) \<le> 2 * lcq_pageSize ?q"
    by (simp add: products_findMany_def products_where_def Let_def fx_db_simps)
  note t = products_pages_complete[OF fx_db_catalog_wf this, THEN conjunct1]
  have "{p \<in> set (products fx_db). products_where (\<lambda>h n. True) ''e1'' ?q p} =
      {fx_product ''p1'' ''e1'' ''A1'' True, fx_product ''p2'' ''e1'' ''A2'' False}"
    unfolding fx_db_def products_where_def by (auto simp: fx_product_def)
  with t show ?thesis by simp
qed

end
