(* ===== verification/Invoicing.thy ===== *)
theory Invoicing
  imports Catalog
begin

text \<open>
  apps/api/src/invoicing: one legal invoice per confirmed sale, numbered per enterprise from a
  counter, then marked paid or voided. Definitions follow invoicing.repository.ts and
  invoicing.service.ts; the line views are those of the sale. \<open>s0\<close> is the database the lookup by
  key sees, \<open>s\<close> the one the rest of the transaction sees; \<open>fault\<close> is an error the engine raises at
  the insertion under contention (P2002, P2028 or an unclassified one), and \<open>after\<close> the database the
  fresh transactions of the recovery see.
\<close>

section \<open>Views and legal mentions\<close>

record sales_invoice_view =
  siv_id :: uuid
  siv_enterpriseId :: uuid
  siv_saleId :: uuid
  siv_customerId :: uuid
  siv_customerName :: string
  siv_number :: string
  siv_status :: invoice_status
  siv_issuedAt :: date
  siv_paidAt :: "date option"
  siv_voidedAt :: "date option"
  siv_legalMentions :: string
  siv_lines :: "sale_line_view list"
  siv_createdAt :: date
  siv_updatedAt :: date
  siv_totals :: doc_totals

record sales_invoice_list_item =
  sil_id :: uuid
  sil_saleId :: uuid
  sil_customerId :: uuid
  sil_customerName :: string
  sil_number :: string
  sil_status :: invoice_status
  sil_issuedAt :: date
  sil_createdAt :: date
  sil_totals :: doc_totals

record create_sales_invoice_result =
  cir_view :: sales_invoice_view
  cir_created :: bool

definition mention :: "string \<Rightarrow> string option \<Rightarrow> string" where
  "mention label field = (if truthy field then label @ the field else [])"

definition buildLegalMentions :: "enterprise \<Rightarrow> customer \<Rightarrow> string" where
  "buildLegalMentions enterprise customer = join [CHR 0x0A]
     ([''Emis par : '' @ given (ent_legalName enterprise) (ent_name enterprise) @
         mention '' - NINEA : '' (ent_ninea enterprise) @ mention '' - RCCM : '' (ent_rccm enterprise)] @
      (if truthy (ent_address enterprise)
       then [''Adresse : '' @ the (ent_address enterprise) @ mention '', '' (ent_city enterprise)] else []) @
      [''Client : '' @ customer_name customer @ mention '' - NINEA : '' (customer_ninea customer) @
         mention '' - RCCM : '' (customer_rccm customer),
       ''TVA conforme a la reglementation en vigueur (UEMOA).'',
       ''Montants exprimes en FCFA (XOF).''])"

definition toInvoiceView :: "sales_invoice \<Rightarrow> sale_payload \<Rightarrow> sales_invoice_view" where
  "toInvoiceView invoice payload =
     (let sale = payload_sale payload; lines = map toSaleLineView (payload_lines payload)
      in \<lparr>siv_id = salesInvoice_id invoice, siv_enterpriseId = sale_enterpriseId sale,
          siv_saleId = sale_id sale, siv_customerId = sale_customerId sale,
          siv_customerName = customer_name (payload_customer payload),
          siv_number = salesInvoice_number invoice, siv_status = salesInvoice_status invoice,
          siv_issuedAt = salesInvoice_issuedAt invoice, siv_paidAt = salesInvoice_paidAt invoice,
          siv_voidedAt = salesInvoice_voidedAt invoice,
          siv_legalMentions = salesInvoice_legalMentions invoice, siv_lines = lines,
          siv_createdAt = salesInvoice_createdAt invoice, siv_updatedAt = salesInvoice_updatedAt invoice,
          siv_totals = reduce_totals (map slv_totals lines)\<rparr>)"

text \<open>\<open>include: \{ sale: \{ include: ... \} \}\<close>.\<close>

definition invoice_include :: "db \<Rightarrow> sales_invoice \<Rightarrow> exn + sale_payload" where
  "invoice_include s invoice = (case find_by sale_id (salesInvoice_saleId invoice) (sales s) of
     None \<Rightarrow> Inl PrismaUnknown | Some sale \<Rightarrow> sale_include s sale)"

section \<open>Creation\<close>

definition salesInvoice_findByKey :: "uuid \<Rightarrow> string option \<Rightarrow> db \<Rightarrow> sales_invoice option" where
  "salesInvoice_findByKey enterpriseId idempotencyKey s =
     List.find (\<lambda>r. salesInvoice_enterpriseId r = enterpriseId \<and> salesInvoice_idempotencyKey r = idempotencyKey)
       (salesInvoices s)"

text \<open>\<open>INSERT ... ON CONFLICT (enterprise_id) DO UPDATE SET last_number = last_number + 1 RETURNING last_number\<close>.\<close>

definition next_number :: "(uuid \<Rightarrow> nat option) \<Rightarrow> uuid \<Rightarrow> nat" where
  "next_number counters e = (case counters e of None \<Rightarrow> 1 | Some n \<Rightarrow> n + 1)"

definition bump_salesInvoiceCounter :: "uuid \<Rightarrow> db \<Rightarrow> nat \<times> db" where
  "bump_salesInvoiceCounter e s =
     (let n = next_number (salesInvoiceCounters s) e
      in (n, s\<lparr>salesInvoiceCounters := (salesInvoiceCounters s)(e \<mapsto> n)\<rparr>))"

definition salesInvoice_create :: "sales_invoice \<Rightarrow> (db, exn, sales_invoice) txn" where
  "salesInvoice_create row s =
     (if salesInvoice_id row \<in> salesInvoice_id ` set (salesInvoices s) \<or>
         salesInvoice_saleId row \<in> salesInvoice_saleId ` set (salesInvoices s) \<or>
         salesInvoice_number row \<in> salesInvoice_number ` set (salesInvoices s) \<or>
         clashes_key salesInvoice_enterpriseId salesInvoice_idempotencyKey row (salesInvoices s)
      then Inl (PrismaKnown P2002)
      else Inr (row, s\<lparr>salesInvoices := salesInvoices s @ [row]\<rparr>))"

definition replayed_invoice :: "db \<Rightarrow> sales_invoice \<Rightarrow> exn + create_sales_invoice_result" where
  "replayed_invoice s existing = (case invoice_include s existing of
     Inl e \<Rightarrow> Inl e | Inr payload \<Rightarrow> Inr \<lparr>cir_view = toInvoiceView existing payload, cir_created = False\<rparr>)"

definition invoice_create_tx ::
    "exn option \<Rightarrow> uuid \<Rightarrow> date \<Rightarrow> uuid \<Rightarrow> uuid \<Rightarrow> string option \<Rightarrow> db \<Rightarrow> (db, exn, create_sales_invoice_result) txn" where
  "invoice_create_tx fault newId now enterpriseId saleId idempotencyKey s0 s =
     (case (if truthy idempotencyKey then salesInvoice_findByKey enterpriseId idempotencyKey s0 else None) of
        Some existing \<Rightarrow> (case replayed_invoice s0 existing of Inl e \<Rightarrow> Inl e | Inr r \<Rightarrow> Inr (r, s))
      | None \<Rightarrow>
     (case find_by sale_id saleId (sales s) of
        None \<Rightarrow> Inl (NotFoundException ''Vente introuvable'')
      | Some sale \<Rightarrow>
     (case sale_include s sale of
        Inl e \<Rightarrow> Inl e
      | Inr payload \<Rightarrow>
     if sale_enterpriseId sale \<noteq> enterpriseId then Inl (NotFoundException ''Vente introuvable'')
     else if sale_status sale \<noteq> Sale_CONFIRMED
     then Inl (BadRequestException ''Seule une vente confirmee peut etre facturee'')
     else if find_by salesInvoice_saleId (sale_id sale) (salesInvoices s) \<noteq> None
     then Inl (ConflictException ''Cette vente est deja facturee'')
     else
     (case find_by ent_id enterpriseId (enterprises s) of
        None \<Rightarrow> Inl (PrismaKnown P2025)
      | Some enterprise \<Rightarrow>
     (let (sequenceNumber, s1) = bump_salesInvoiceCounter enterpriseId s;
          row = \<lparr>salesInvoice_id = newId, salesInvoice_enterpriseId = enterpriseId,
                 salesInvoice_saleId = sale_id sale,
                 salesInvoice_number = document_number ''FACT'' enterpriseId sequenceNumber,
                 salesInvoice_status = Inv_ISSUED, salesInvoice_issuedAt = now,
                 salesInvoice_paidAt = None, salesInvoice_voidedAt = None,
                 salesInvoice_legalMentions = buildLegalMentions enterprise (payload_customer payload),
                 salesInvoice_idempotencyKey = idempotencyKey,
                 salesInvoice_createdAt = now, salesInvoice_updatedAt = now\<rparr>
      in case fault of
           Some err \<Rightarrow> Inl err
         | None \<Rightarrow> (case salesInvoice_create row s1 of
             Inl err \<Rightarrow> Inl err
           | Inr (invoice, s2) \<Rightarrow> Inr (\<lparr>cir_view = toInvoiceView invoice payload, cir_created = True\<rparr>, s2)))))))"

definition is_prisma_error :: "exn \<Rightarrow> bool" where
  "is_prisma_error e = (case e of PrismaKnown c \<Rightarrow> True | PrismaUnknown \<Rightarrow> True | _ \<Rightarrow> False)"

text \<open>The rows a fresh tenant transaction sees.\<close>

definition tenant_rows :: "tenant_store option \<Rightarrow> db \<Rightarrow> db" where
  "tenant_rows store s = (case store of None \<Rightarrow> s | Some st \<Rightarrow> rls (store_tenantId st) s)"

definition invoice_recover ::
    "tenant_store option \<Rightarrow> uuid \<Rightarrow> uuid \<Rightarrow> string option \<Rightarrow> db \<Rightarrow> exn \<Rightarrow> exn + create_sales_invoice_result" where
  "invoice_recover store enterpriseId saleId idempotencyKey after error =
     (if \<not> is_prisma_error error then Inl error
      else case (if truthy idempotencyKey then salesInvoice_findByKey enterpriseId idempotencyKey after else None) of
        Some existing \<Rightarrow> replayed_invoice after existing
      | None \<Rightarrow>
          if find_by salesInvoice_saleId saleId (salesInvoices (tenant_rows store after)) \<noteq> None
          then Inl (ConflictException ''Cette vente est deja facturee'')
          else Inl error)"

definition invoicing_create ::
    "tenant_store option \<Rightarrow> exn option \<Rightarrow> uuid \<Rightarrow> date \<Rightarrow> uuid \<Rightarrow> uuid \<Rightarrow> string option \<Rightarrow> db \<Rightarrow> db \<Rightarrow> db \<Rightarrow>
     (exn + create_sales_invoice_result) \<times> db" where
  "invoicing_create store fault newId now enterpriseId saleId idempotencyKey s0 s after =
     (case tenant_run store (invoice_create_tx fault newId now enterpriseId saleId idempotencyKey s0) s of
        (Inr r, s') \<Rightarrow> (Inr r, s')
      | (Inl error, s') \<Rightarrow> (invoice_recover store enterpriseId saleId idempotencyKey after error, after))"

section \<open>Reading\<close>

record list_sales_invoices_query =
  siq_page :: nat
  siq_pageSize :: nat
  siq_search :: "string option"
  siq_status :: "invoice_status option"

definition salesInvoice_where ::
    "(string \<Rightarrow> string \<Rightarrow> bool) \<Rightarrow> uuid \<Rightarrow> list_sales_invoices_query \<Rightarrow> db \<Rightarrow> sales_invoice \<Rightarrow> bool" where
  "salesInvoice_where ilike enterpriseId query s invoice =
     (salesInvoice_enterpriseId invoice = enterpriseId \<and>
      (case siq_status query of None \<Rightarrow> True | Some st \<Rightarrow> salesInvoice_status invoice = st) \<and>
      (truthy (siq_search query) \<longrightarrow>
         ilike (salesInvoice_number invoice) (the (siq_search query)) \<or>
         (case find_by sale_id (salesInvoice_saleId invoice) (sales s) of
            None \<Rightarrow> False
          | Some sale \<Rightarrow> (case find_by customer_id (sale_customerId sale) (customers s) of
              None \<Rightarrow> False | Some c \<Rightarrow> ilike (customer_name c) (the (siq_search query))))))"

definition toInvoiceListItem :: "db \<Rightarrow> sales_invoice \<Rightarrow> exn + sales_invoice_list_item" where
  "toInvoiceListItem s invoice = (case find_by sale_id (salesInvoice_saleId invoice) (sales s) of
     None \<Rightarrow> Inl PrismaUnknown
   | Some sale \<Rightarrow> (case find_by customer_id (sale_customerId sale) (customers s) of
       None \<Rightarrow> Inl PrismaUnknown
     | Some customer \<Rightarrow> Inr
         \<lparr>sil_id = salesInvoice_id invoice, sil_saleId = salesInvoice_saleId invoice,
          sil_customerId = sale_customerId sale, sil_customerName = customer_name customer,
          sil_number = salesInvoice_number invoice, sil_status = salesInvoice_status invoice,
          sil_issuedAt = salesInvoice_issuedAt invoice, sil_createdAt = salesInvoice_createdAt invoice,
          sil_totals = reduce_totals (map sale_line_totals (sale_lines sale))\<rparr>))"

definition invoicing_findMany ::
    "(string \<Rightarrow> string \<Rightarrow> bool) \<Rightarrow> uuid \<Rightarrow> list_sales_invoices_query \<Rightarrow> db \<Rightarrow> exn + sales_invoice_list_item page_result" where
  "invoicing_findMany ilike enterpriseId query s =
     (let matching = filter (salesInvoice_where ilike enterpriseId query s) (salesInvoices s);
          found = page_rows (siq_page query) (siq_pageSize query) (descending salesInvoice_createdAt matching)
      in case sum_mapM (toInvoiceListItem s) found of
           Inl e \<Rightarrow> Inl e
         | Inr items \<Rightarrow> Inr \<lparr>result_items = items, result_total = length matching,
             result_page = siq_page query, result_pageSize = siq_pageSize query\<rparr>)"

definition getInvoiceOrThrow :: "uuid \<Rightarrow> uuid \<Rightarrow> db \<Rightarrow> exn + sales_invoice \<times> sale_payload" where
  "getInvoiceOrThrow enterpriseId invoiceId s = (case find_by salesInvoice_id invoiceId (salesInvoices s) of
     None \<Rightarrow> Inl (NotFoundException ''Facture introuvable'')
   | Some invoice \<Rightarrow> (case invoice_include s invoice of
       Inl e \<Rightarrow> Inl e
     | Inr payload \<Rightarrow>
         if salesInvoice_enterpriseId invoice \<noteq> enterpriseId then Inl (NotFoundException ''Facture introuvable'')
         else Inr (invoice, payload)))"

definition invoicing_findByIdOrThrow :: "uuid \<Rightarrow> uuid \<Rightarrow> db \<Rightarrow> exn + sales_invoice_view" where
  "invoicing_findByIdOrThrow enterpriseId invoiceId s = (case getInvoiceOrThrow enterpriseId invoiceId s of
     Inl e \<Rightarrow> Inl e | Inr (invoice, payload) \<Rightarrow> Inr (toInvoiceView invoice payload))"

section \<open>Settlement\<close>

definition salesInvoice_update :: "uuid \<Rightarrow> (sales_invoice \<Rightarrow> sales_invoice) \<Rightarrow> (db, exn, sales_invoice) txn" where
  "salesInvoice_update i f s = (case find_by salesInvoice_id i (salesInvoices s) of
     None \<Rightarrow> Inl (PrismaKnown P2025)
   | Some invoice \<Rightarrow>
       Inr (f invoice, s\<lparr>salesInvoices := update_by salesInvoice_id i f (salesInvoices s)\<rparr>))"

definition invoicing_markPaid :: "date \<Rightarrow> uuid \<Rightarrow> uuid \<Rightarrow> (db, exn, sales_invoice_view) txn" where
  "invoicing_markPaid now enterpriseId invoiceId s =
     (case getInvoiceOrThrow enterpriseId invoiceId s of
        Inl e \<Rightarrow> Inl e
      | Inr (invoice, payload) \<Rightarrow>
     if salesInvoice_status invoice \<noteq> Inv_ISSUED
     then Inl (ConflictException ''Seule une facture emise peut etre marquee payee'')
     else
     (case salesInvoice_update invoiceId (\<lambda>r. r\<lparr>salesInvoice_status := Inv_PAID,
             salesInvoice_paidAt := Some now, salesInvoice_updatedAt := now\<rparr>) s of
        Inl e \<Rightarrow> Inl e
      | Inr (paid, s') \<Rightarrow> Inr (toInvoiceView paid payload, s')))"

definition invoicing_void :: "date \<Rightarrow> uuid \<Rightarrow> uuid \<Rightarrow> (db, exn, sales_invoice_view) txn" where
  "invoicing_void now enterpriseId invoiceId s =
     (case getInvoiceOrThrow enterpriseId invoiceId s of
        Inl e \<Rightarrow> Inl e
      | Inr (invoice, payload) \<Rightarrow>
     if salesInvoice_status invoice \<noteq> Inv_ISSUED
     then Inl (BadRequestException ''Seule une facture emise peut etre annulee'')
     else
     (case salesInvoice_update invoiceId (\<lambda>r. r\<lparr>salesInvoice_status := Inv_VOID,
             salesInvoice_voidedAt := Some now, salesInvoice_updatedAt := now\<rparr>) s of
        Inl e \<Rightarrow> Inl e
      | Inr (voided, s') \<Rightarrow> Inr (toInvoiceView voided payload, s')))"

section \<open>The service\<close>

definition invoicing_service_create ::
    "tenant_store option \<Rightarrow> exn option \<Rightarrow> uuid \<Rightarrow> date \<Rightarrow> uuid \<Rightarrow> uuid \<Rightarrow> uuid \<Rightarrow> string option \<Rightarrow> db \<Rightarrow> db \<Rightarrow> db \<Rightarrow>
     (exn + sales_invoice_view) \<times> db" where
  "invoicing_service_create store fault newId now enterpriseId userId saleId idempotencyKey s0 s after =
     (case invoicing_create store fault newId now enterpriseId saleId idempotencyKey s0 s after of
        (Inl e, s') \<Rightarrow> (Inl e, s')
      | (Inr r, s') \<Rightarrow>
          (Inr (cir_view r),
           if cir_created r
           then auditLog_record (audit_entry userId enterpriseId CREATE_INVOICE ''SalesInvoice'' (siv_id (cir_view r))) s'
           else s'))"

definition invoicing_service_markPaid ::
    "tenant_store option \<Rightarrow> date \<Rightarrow> uuid \<Rightarrow> uuid \<Rightarrow> uuid \<Rightarrow> db \<Rightarrow> (exn + sales_invoice_view) \<times> db" where
  "invoicing_service_markPaid store now enterpriseId userId i s =
     audited userId enterpriseId MARK_INVOICE_PAID ''SalesInvoice'' siv_id
       (tenant_run store (invoicing_markPaid now enterpriseId i) s)"

definition invoicing_service_void ::
    "tenant_store option \<Rightarrow> date \<Rightarrow> uuid \<Rightarrow> uuid \<Rightarrow> uuid \<Rightarrow> db \<Rightarrow> (exn + sales_invoice_view) \<times> db" where
  "invoicing_service_void store now enterpriseId userId i s =
     audited userId enterpriseId VOID_INVOICE ''SalesInvoice'' siv_id
       (tenant_run store (invoicing_void now enterpriseId i) s)"

section \<open>Shape of the outcomes\<close>

lemma toInvoiceView_simps [simp]:
  "siv_id (toInvoiceView ivc (sale_payload_of s sale)) = salesInvoice_id ivc"
  "siv_saleId (toInvoiceView ivc (sale_payload_of s sale)) = sale_id sale"
  "siv_number (toInvoiceView ivc (sale_payload_of s sale)) = salesInvoice_number ivc"
  "siv_status (toInvoiceView ivc (sale_payload_of s sale)) = salesInvoice_status ivc"
  "siv_legalMentions (toInvoiceView ivc (sale_payload_of s sale)) = salesInvoice_legalMentions ivc"
  "siv_totals (toInvoiceView ivc (sale_payload_of s sale)) = reduce_totals (map sale_line_totals (sale_lines sale))"
  by (simp_all add: toInvoiceView_def Let_def sale_payload_of_def o_def toSaleLineView_def)

lemma sale_include_InrD: "sale_include s sale = Inr payload \<Longrightarrow> payload = sale_payload_of s sale"
  by (auto simp: sale_include_eq split: if_splits)

definition new_invoice ::
    "uuid \<Rightarrow> date \<Rightarrow> uuid \<Rightarrow> sale \<Rightarrow> string option \<Rightarrow> db \<Rightarrow> sales_invoice" where
  "new_invoice newId now e sale k s =
     \<lparr>salesInvoice_id = newId, salesInvoice_enterpriseId = e, salesInvoice_saleId = sale_id sale,
      salesInvoice_number = document_number ''FACT'' e (next_number (salesInvoiceCounters s) e),
      salesInvoice_status = Inv_ISSUED, salesInvoice_issuedAt = now, salesInvoice_paidAt = None,
      salesInvoice_voidedAt = None,
      salesInvoice_legalMentions = buildLegalMentions (the (find_by ent_id e (enterprises s)))
        (the (find_by customer_id (sale_customerId sale) (customers s))),
      salesInvoice_idempotencyKey = k, salesInvoice_createdAt = now, salesInvoice_updatedAt = now\<rparr>"

lemma new_invoice_simps [simp]:
  "salesInvoice_id (new_invoice newId now e sale k s) = newId"
  "salesInvoice_enterpriseId (new_invoice newId now e sale k s) = e"
  "salesInvoice_saleId (new_invoice newId now e sale k s) = sale_id sale"
  "salesInvoice_number (new_invoice newId now e sale k s) =
     document_number ''FACT'' e (next_number (salesInvoiceCounters s) e)"
  "salesInvoice_status (new_invoice newId now e sale k s) = Inv_ISSUED"
  "salesInvoice_idempotencyKey (new_invoice newId now e sale k s) = k"
  by (simp_all add: new_invoice_def)

definition invoice_collides :: "sales_invoice \<Rightarrow> db \<Rightarrow> bool" where
  "invoice_collides row s \<longleftrightarrow> salesInvoice_id row \<in> salesInvoice_id ` set (salesInvoices s) \<or>
     salesInvoice_saleId row \<in> salesInvoice_saleId ` set (salesInvoices s) \<or>
     salesInvoice_number row \<in> salesInvoice_number ` set (salesInvoices s) \<or>
     clashes_key salesInvoice_enterpriseId salesInvoice_idempotencyKey row (salesInvoices s)"

definition issued_db :: "sales_invoice \<Rightarrow> db \<Rightarrow> db" where
  "issued_db row s = s\<lparr>salesInvoiceCounters := (salesInvoiceCounters s)
       (salesInvoice_enterpriseId row \<mapsto> next_number (salesInvoiceCounters s) (salesInvoice_enterpriseId row)),
     salesInvoices := salesInvoices s @ [row]\<rparr>"

lemma invoice_create_tx_eq:
  assumes "\<not> (truthy k \<and> salesInvoice_findByKey e k s0 \<noteq> None)"
    and "find_by sale_id saleId (sales s) = Some sale" and "sale_include s sale = Inr payload"
  shows "invoice_create_tx fault newId now e saleId k s0 s =
   (if sale_enterpriseId sale \<noteq> e then Inl (NotFoundException ''Vente introuvable'')
    else if sale_status sale \<noteq> Sale_CONFIRMED then Inl (BadRequestException ''Seule une vente confirmee peut etre facturee'')
    else if saleId \<in> salesInvoice_saleId ` set (salesInvoices s)
    then Inl (ConflictException ''Cette vente est deja facturee'')
    else if find_by ent_id e (enterprises s) = None then Inl (PrismaKnown P2025)
    else case fault of Some err \<Rightarrow> Inl err
      | None \<Rightarrow> let row = new_invoice newId now e sale k s in
          if invoice_collides row s then Inl (PrismaKnown P2002)
          else Inr (\<lparr>cir_view = toInvoiceView row (sale_payload_of s sale), cir_created = True\<rparr>, issued_db row s))"
proof -
  have first: "(if truthy k then salesInvoice_findByKey e k s0 else None) = None" using assms(1) by auto
  have "sale_id sale = saleId" using find_by_SomeD[OF assms(2)] by simp
  then have ex: "find_by salesInvoice_saleId (sale_id sale) (salesInvoices s) \<noteq> None \<longleftrightarrow>
      saleId \<in> salesInvoice_saleId ` set (salesInvoices s)"
    using find_by_None_iff[of salesInvoice_saleId saleId "salesInvoices s"] by simp
  have payload: "payload = sale_payload_of s sale"
    "payload_customer payload = the (find_by customer_id (sale_customerId sale) (customers s))"
    using sale_include_InrD[OF assms(3)] by (simp_all add: sale_payload_of_def)
  show ?thesis
    unfolding invoice_create_tx_def first option.case(1) assms(2,3) option.case(2) sum.case ex
    by (simp add: payload(1)[symmetric] payload(2) Let_def bump_salesInvoiceCounter_def
        salesInvoice_create_def invoice_collides_def issued_db_def new_invoice_def split: option.split)
qed

lemma replayed_invoice_InrD: "replayed_invoice sx m = Inr r \<Longrightarrow> \<not> cir_created r"
  by (auto simp: replayed_invoice_def split: sum.splits)

lemma invoice_create_tx_InrE:
  assumes "invoice_create_tx fault newId now e saleId k s0 s = Inr (r, s')"
  obtains (same) "s' = s" "\<not> cir_created r"
  | (insert) sale where "find_by sale_id saleId (sales s) = Some sale" "sale_enterpriseId sale = e"
      "sale_status sale = Sale_CONFIRMED" "saleId \<notin> salesInvoice_saleId ` set (salesInvoices s)"
      "find_by ent_id e (enterprises s) \<noteq> None"
      "\<not> invoice_collides (new_invoice newId now e sale k s) s"
      "s' = issued_db (new_invoice newId now e sale k s) s"
      "r = \<lparr>cir_view = toInvoiceView (new_invoice newId now e sale k s) (sale_payload_of s sale), cir_created = True\<rparr>"
proof (cases "truthy k \<and> salesInvoice_findByKey e k s0 \<noteq> None")
  case True
  then obtain m where "truthy k" "salesInvoice_findByKey e k s0 = Some m" by auto
  with assms have "s' = s \<and> replayed_invoice s0 m = Inr r"
    by (auto simp: invoice_create_tx_def split: sum.splits)
  then show thesis using same replayed_invoice_InrD by blast
next
  case False
  then have first: "(if truthy k then salesInvoice_findByKey e k s0 else None) = None" by auto
  obtain sale payload where s: "find_by sale_id saleId (sales s) = Some sale" "sale_include s sale = Inr payload"
    using assms unfolding invoice_create_tx_def first by (auto split: option.splits sum.splits)
  from assms insert[of sale] s(1) show thesis
    unfolding invoice_create_tx_eq[OF False s] by (auto simp: Let_def split: if_splits option.splits)
qed

lemma invoice_recover_InrD: "invoice_recover store e saleId k aft err = Inr r \<Longrightarrow> \<not> cir_created r"
  by (auto simp: invoice_recover_def dest!: replayed_invoice_InrD split: if_splits option.splits)

definition paid_invoice :: "date \<Rightarrow> sales_invoice \<Rightarrow> sales_invoice" where
  "paid_invoice now r = r\<lparr>salesInvoice_status := Inv_PAID, salesInvoice_paidAt := Some now, salesInvoice_updatedAt := now\<rparr>"

definition voided_invoice :: "date \<Rightarrow> sales_invoice \<Rightarrow> sales_invoice" where
  "voided_invoice now r = r\<lparr>salesInvoice_status := Inv_VOID, salesInvoice_voidedAt := Some now, salesInvoice_updatedAt := now\<rparr>"

lemma settled_invoice_simps [simp]:
  "salesInvoice_id (paid_invoice now r) = salesInvoice_id r" "salesInvoice_id (voided_invoice now r) = salesInvoice_id r"
  "salesInvoice_enterpriseId (paid_invoice now r) = salesInvoice_enterpriseId r"
  "salesInvoice_enterpriseId (voided_invoice now r) = salesInvoice_enterpriseId r"
  "salesInvoice_saleId (paid_invoice now r) = salesInvoice_saleId r"
  "salesInvoice_saleId (voided_invoice now r) = salesInvoice_saleId r"
  "salesInvoice_number (paid_invoice now r) = salesInvoice_number r"
  "salesInvoice_number (voided_invoice now r) = salesInvoice_number r"
  "salesInvoice_idempotencyKey (paid_invoice now r) = salesInvoice_idempotencyKey r"
  "salesInvoice_idempotencyKey (voided_invoice now r) = salesInvoice_idempotencyKey r"
  by (simp_all add: paid_invoice_def voided_invoice_def)

lemma getInvoiceOrThrow_InrD:
  "getInvoiceOrThrow e i s = Inr (ivc, payload) \<Longrightarrow>
   find_by salesInvoice_id i (salesInvoices s) = Some ivc \<and> salesInvoice_enterpriseId ivc = e"
  by (auto simp: getInvoiceOrThrow_def split: option.splits sum.splits if_splits)

definition settle_invoice :: "uuid \<Rightarrow> (sales_invoice \<Rightarrow> sales_invoice) \<Rightarrow> db \<Rightarrow> db" where
  "settle_invoice i f s = s\<lparr>salesInvoices := update_by salesInvoice_id i f (salesInvoices s)\<rparr>"

lemma invoicing_settle_InrD:
  "invoicing_markPaid now e i s = Inr (view, s') \<Longrightarrow>
   \<exists>ivc. find_by salesInvoice_id i (salesInvoices s) = Some ivc \<and> salesInvoice_enterpriseId ivc = e \<and>
     salesInvoice_status ivc = Inv_ISSUED \<and> s' = settle_invoice i (paid_invoice now) s"
  "invoicing_void now e i s = Inr (view, s') \<Longrightarrow>
   \<exists>ivc. find_by salesInvoice_id i (salesInvoices s) = Some ivc \<and> salesInvoice_enterpriseId ivc = e \<and>
     salesInvoice_status ivc = Inv_ISSUED \<and> s' = settle_invoice i (voided_invoice now) s"
  by (auto simp: invoicing_markPaid_def invoicing_void_def salesInvoice_update_def settle_invoice_def
      paid_invoice_def[abs_def] voided_invoice_def[abs_def] dest!: getInvoiceOrThrow_InrD
      split: sum.splits if_splits option.splits)

section \<open>Steps of the invoicing\<close>

inductive invoicing_step :: "db \<Rightarrow> db \<Rightarrow> bool" where
  create: "invoicing_service_create store fault newId now e u saleId k s0 s s = (res, s') \<Longrightarrow> invoicing_step s s'"
| markPaid: "invoicing_service_markPaid store now e u i s = (res, s') \<Longrightarrow> invoicing_step s s'"
| voids: "invoicing_service_void store now e u i s = (res, s') \<Longrightarrow> invoicing_step s s'"
| other: "salesInvoices s' = salesInvoices s \<Longrightarrow> salesInvoiceCounters s' = salesInvoiceCounters s \<Longrightarrow> invoicing_step s s'"

inductive_cases invoicing_stepE: "invoicing_step s s'"

text \<open>What a step does to the invoices and the counters.\<close>

lemma invoicing_step_shapes:
  assumes "invoicing_step s s'"
  obtains (same) "salesInvoices s' = salesInvoices s" "salesInvoiceCounters s' = salesInvoiceCounters s"
  | (issue) row e where "salesInvoice_enterpriseId row = e" "salesInvoice_status row = Inv_ISSUED"
      "salesInvoice_number row = document_number ''FACT'' e (next_number (salesInvoiceCounters s) e)"
      "\<not> invoice_collides row s" "salesInvoices s' = salesInvoices s @ [row]"
      "salesInvoiceCounters s' = (salesInvoiceCounters s)(e \<mapsto> next_number (salesInvoiceCounters s) e)"
      "\<exists>sale. find_by sale_id (salesInvoice_saleId row) (sales s) = Some sale \<and> sale_enterpriseId sale = e \<and>
         sale_status sale = Sale_CONFIRMED" "sales s' = sales s"
  | (settle) i f ivc now where "find_by salesInvoice_id i (salesInvoices s) = Some ivc" "salesInvoice_status ivc = Inv_ISSUED"
      "f = paid_invoice now \<or> f = voided_invoice now"
      "salesInvoices s' = update_by salesInvoice_id i f (salesInvoices s)"
      "salesInvoiceCounters s' = salesInvoiceCounters s" "sales s' = sales s"
  using assms
proof (cases rule: invoicing_step.cases)
  case (create store fault newId now e u saleId k s0 res)
  then consider "s' = s" | r s1 where "tenant_run store (invoice_create_tx fault newId now e saleId k s0) s = (Inr r, s1)"
      "salesInvoices s' = salesInvoices s1" "salesInvoiceCounters s' = salesInvoiceCounters s1" "sales s' = sales s1"
    by (auto simp: invoicing_service_create_def invoicing_create_def auditLog_record_def
        dest: invoice_recover_InrD split: prod.splits sum.splits if_splits)
  then show thesis
  proof cases
    case 1
    then show ?thesis using same by simp
  next
    case (2 r s1)
    from tenant_run_InrD[OF 2(1)] show ?thesis
    proof (cases rule: invoice_create_tx_InrE)
      case same
      then show ?thesis using 2 that(1) by simp
    next
      case (insert sale)
      then show ?thesis using 2 find_by_SomeD[OF insert(1)]
        by (intro issue[of "new_invoice newId now e sale k s" e]) (auto simp: issued_db_def)
    qed
  qed
next
  case (markPaid store now e u i res)
  then consider "s' = s" | view s1 where "invoicing_markPaid now e i s = Inr (view, s1)"
      "salesInvoices s' = salesInvoices s1" "salesInvoiceCounters s' = salesInvoiceCounters s1" "sales s' = sales s1"
    by (cases "tenant_run store (invoicing_markPaid now e i) s"; cases "fst (tenant_run store (invoicing_markPaid now e i) s)")
      (auto simp: invoicing_service_markPaid_def auditLog_record_def dest!: tenant_run_InrD tenant_run_InlD)
  then show thesis
    by cases (use same in simp, use settle in \<open>fastforce dest!: invoicing_settle_InrD simp: settle_invoice_def\<close>)
next
  case (voids store now e u i res)
  then consider "s' = s" | view s1 where "invoicing_void now e i s = Inr (view, s1)"
      "salesInvoices s' = salesInvoices s1" "salesInvoiceCounters s' = salesInvoiceCounters s1" "sales s' = sales s1"
    by (cases "tenant_run store (invoicing_void now e i) s"; cases "fst (tenant_run store (invoicing_void now e i) s)")
      (auto simp: invoicing_service_void_def auditLog_record_def dest!: tenant_run_InrD tenant_run_InlD)
  then show thesis
    by cases (use same in simp, use settle in \<open>fastforce dest!: invoicing_settle_InrD simp: settle_invoice_def\<close>)
next
  case other
  then show thesis using same by simp
qed

section \<open>Numbering and final states\<close>

definition invoice_numbers :: "uuid \<Rightarrow> db \<Rightarrow> string list" where
  "invoice_numbers e s = map salesInvoice_number (filter (\<lambda>r. salesInvoice_enterpriseId r = e) (salesInvoices s))"

definition last_invoice_number :: "uuid \<Rightarrow> db \<Rightarrow> nat" where
  "last_invoice_number e s = (case salesInvoiceCounters s e of None \<Rightarrow> 0 | Some n \<Rightarrow> n)"

lemma next_number_last: "next_number (salesInvoiceCounters s) e = Suc (last_invoice_number e s)"
  by (simp add: next_number_def last_invoice_number_def split: option.splits)

lemma filter_update_by:
  assumes "\<And>r. P (f r) = P r" and "\<And>r. g (f r) = g r"
  shows "map g (filter P (update_by key k f rows)) = map g (filter P rows)"
  using assms by (induction rows) auto

lemma settled_keeps:
  assumes "f = paid_invoice now \<or> f = voided_invoice now"
  shows "salesInvoice_id (f r) = salesInvoice_id r" "salesInvoice_enterpriseId (f r) = salesInvoice_enterpriseId r"
    "salesInvoice_number (f r) = salesInvoice_number r" "salesInvoice_saleId (f r) = salesInvoice_saleId r"
    "salesInvoice_idempotencyKey (f r) = salesInvoice_idempotencyKey r"
  using assms by auto

interpretation invoice_numbering:
  gapless_numbering invoice_numbers last_invoice_number "document_number ''FACT''" invoicing_step
proof unfold_locales
  fix s s' e assume "invoicing_step s s'"
  then show "invoice_numbers e s' = invoice_numbers e s \<and> last_invoice_number e s' = last_invoice_number e s \<or>
      invoice_numbers e s' = invoice_numbers e s @ [document_number ''FACT'' e (Suc (last_invoice_number e s))] \<and>
      last_invoice_number e s' = Suc (last_invoice_number e s)"
  proof (cases rule: invoicing_step_shapes)
    case same
    then show ?thesis by (simp add: invoice_numbers_def last_invoice_number_def)
  next
    case (issue row e')
    then show ?thesis
      by (cases "e = e'") (simp_all add: invoice_numbers_def last_invoice_number_def next_number_def split: option.splits)
  next
    case (settle i f r now)
    then show ?thesis
      using filter_update_by[of "\<lambda>r. salesInvoice_enterpriseId r = e" f salesInvoice_number] settled_keeps[OF settle(3)]
      by (simp add: invoice_numbers_def last_invoice_number_def)
  qed
next
  fix e m n assume "document_number ''FACT'' e m = document_number ''FACT'' e n"
  then show "m = n" by (rule injD[OF inj_document_number])
qed

definition invoice_final :: "sales_invoice \<Rightarrow> bool" where
  "invoice_final r \<longleftrightarrow> salesInvoice_status r \<noteq> Inv_ISSUED"

interpretation settled_invoices:
  settled_documents invoicing_step "\<lambda>i s. find_by salesInvoice_id i (salesInvoices s)" invoice_final
proof unfold_locales
  fix s s' i r assume "invoicing_step s s'" and r: "find_by salesInvoice_id i (salesInvoices s) = Some r" "invoice_final r"
  then show "find_by salesInvoice_id i (salesInvoices s') = Some r"
  proof (cases rule: invoicing_step_shapes)
    case (settle j f r' now)
    then show ?thesis using r settled_keeps(1)[OF settle(3)]
      by (auto simp: find_by_update_by invoice_final_def)
  qed (simp_all add: r)
qed

section \<open>Invariants\<close>

definition invoices_wf :: "db \<Rightarrow> bool" where
  "invoices_wf s \<longleftrightarrow> distinct (map salesInvoice_id (salesInvoices s)) \<and>
     distinct (map salesInvoice_saleId (salesInvoices s)) \<and> distinct (map salesInvoice_number (salesInvoices s)) \<and>
     unique_key salesInvoice_enterpriseId salesInvoice_idempotencyKey (salesInvoices s) \<and>
     (\<forall>r\<in>set (salesInvoices s). case find_by sale_id (salesInvoice_saleId r) (sales s) of
        None \<Rightarrow> False
      | Some sale \<Rightarrow> sale_status sale = Sale_CONFIRMED \<and> sale_enterpriseId sale = salesInvoice_enterpriseId r)"

lemma invoices_wf_mono:
  assumes "invoices_wf s" and "salesInvoices s' = salesInvoices s"
    and "\<And>i sale. find_by sale_id i (sales s) = Some sale \<Longrightarrow> sale_status sale = Sale_CONFIRMED \<Longrightarrow>
           find_by sale_id i (sales s') = Some sale"
  shows "invoices_wf s'"
  using assms(1,2) assms(3) unfolding invoices_wf_def by (fastforce split: option.splits)

lemma invoicing_step_wf:
  assumes "invoicing_step s s'" and "invoices_wf s" and "sales s' = sales s"
  shows "invoices_wf s'"
  using assms(1)
proof (cases rule: invoicing_step_shapes)
  case same
  with assms(2,3) show ?thesis by (simp add: invoices_wf_def)
next
  case (issue row e)
  with assms(2) show ?thesis
    by (auto simp: invoices_wf_def invoice_collides_def unique_key_append1)
next
  case (settle i f r now)
  have "\<forall>r\<in>set (salesInvoices s'). case find_by sale_id (salesInvoice_saleId r) (sales s) of
        None \<Rightarrow> False
      | Some sale \<Rightarrow> sale_status sale = Sale_CONFIRMED \<and> sale_enterpriseId sale = salesInvoice_enterpriseId r"
    unfolding settle(4) using assms(2) settled_keeps[OF settle(3)]
    by (intro Ball_update_by) (auto simp: invoices_wf_def split: option.splits)
  with settle assms(2,3) show ?thesis
    by (simp add: invoices_wf_def map_update_by unique_key_update_by settled_keeps[OF settle(3)])
qed

section \<open>Properties\<close>

text \<open>
  C24. Legal numbering: through any sequence of creations (failed, replayed and concurrent ones
  included), payments and cancellations of invoices, interleaved with anything that does not touch
  them, the numbers an enterprise has issued remain FACT-...-000001, 000002, ... in order, without
  gap or repetition, if they were so at the start.
\<close>

theorem invoice_numbers_gapless:
  assumes "invoicing_step\<^sup>*\<^sup>* s s'"
    and "invoice_numbers e s = map (document_number ''FACT'' e) [1..<Suc (last_invoice_number e s)]"
  shows "invoice_numbers e s' = map (document_number ''FACT'' e) [1..<Suc (last_invoice_number e s')] \<and>
         distinct (invoice_numbers e s')"
  using invoice_numbering.steps_gapless[OF assms] invoice_numbering.gapless_distinct by blast

definition fx_invoice_run :: "(exn + sales_invoice_view) \<times> db" where
  "fx_invoice_run = invoicing_service_create fx_store None ''f1'' 20 ''e1'' ''u1'' ''v2'' None
     fx_sales_db fx_sales_db fx_sales_db"

definition fx_invoicing_db :: db where
  "fx_invoicing_db = snd fx_invoice_run"

lemma fx_invoice_run_eq:
  "invoicing_service_create fx_store None ''f1'' 20 ''e1'' ''u1'' ''v2'' None fx_sales_db fx_sales_db fx_sales_db =
   (fst fx_invoice_run, fx_invoicing_db)"
  by (simp add: fx_invoice_run_def fx_invoicing_db_def)

lemma fx_invoicing_step: "invoicing_step fx_sales_db fx_invoicing_db"
  by (rule invoicing_step.create[OF fx_invoice_run_eq])

lemma invoice_numbers_gapless_witness:
  "invoice_numbers ''e1'' fx_invoicing_db = [''FACT-E1-000001''] \<and> distinct (invoice_numbers ''e1'' fx_invoicing_db)"
proof -
  have "invoice_numbers ''e1'' fx_sales_db = map (document_number ''FACT'' ''e1'') [1..<Suc (last_invoice_number ''e1'' fx_sales_db)]"
    by (simp add: invoice_numbers_def last_invoice_number_def fx_sales_db_def fx_db_simps)
  note t = invoice_numbers_gapless[OF r_into_rtranclp[where r = invoicing_step, OF fx_invoicing_step] this]
  have "last_invoice_number ''e1'' fx_invoicing_db = 1"
    and "document_number ''FACT'' ''e1'' 1 = ''FACT-E1-000001''" by code_simp+
  with t show ?thesis by simp
qed

lemma invoicing_service_create_eq:
  "invoicing_service_create (Some st) fault newId now e u saleId k s0 s after =
    (case invoice_create_tx fault newId now e saleId k s0 s of
       Inl err \<Rightarrow> (case invoice_recover (Some st) e saleId k after err of Inl err' \<Rightarrow> (Inl err', after)
                  | Inr r \<Rightarrow> (Inr (cir_view r), after))
     | Inr (r, s1) \<Rightarrow> (Inr (cir_view r), if cir_created r
         then auditLog_record (audit_entry u e CREATE_INVOICE ''SalesInvoice'' (siv_id (cir_view r))) s1 else s1))"
  by (auto simp: invoicing_service_create_def invoicing_create_def tenant_run_Some commit_txn_def
      dest: invoice_recover_InrD split: sum.splits)

text \<open>The view of an invoice that exists, and the reasons for which the code refuses to issue one.\<close>

definition invoice_view :: "db \<Rightarrow> sales_invoice \<Rightarrow> sales_invoice_view" where
  "invoice_view s w = toInvoiceView w (sale_payload_of s (the (find_by sale_id (salesInvoice_saleId w) (sales s))))"

definition invoice_refusal :: "uuid \<Rightarrow> uuid \<Rightarrow> db \<Rightarrow> exn option" where
  "invoice_refusal e saleId s = (case find_by sale_id saleId (sales s) of
     None \<Rightarrow> Some (NotFoundException ''Vente introuvable'')
   | Some sale \<Rightarrow>
       if sale_enterpriseId sale \<noteq> e then Some (NotFoundException ''Vente introuvable'')
       else if sale_status sale \<noteq> Sale_CONFIRMED then Some (BadRequestException ''Seule une vente confirmee peut etre facturee'')
       else if saleId \<in> salesInvoice_saleId ` set (salesInvoices s) then Some (ConflictException ''Cette vente est deja facturee'')
       else None)"

definition number_free :: "uuid \<Rightarrow> uuid \<Rightarrow> string option \<Rightarrow> db \<Rightarrow> bool" where
  "number_free newId e k s \<longleftrightarrow> newId \<notin> salesInvoice_id ` set (salesInvoices s) \<and>
     document_number ''FACT'' e (Suc (last_invoice_number e s)) \<notin> salesInvoice_number ` set (salesInvoices s) \<and>
     (k = None \<or> (\<forall>w\<in>set (salesInvoices s). salesInvoice_enterpriseId w = e \<longrightarrow> salesInvoice_idempotencyKey w \<noteq> k))"

lemma replayed_invoice_wf:
  assumes "invoices_wf s" and "sales_wf s" and "w \<in> set (salesInvoices s)"
  shows "replayed_invoice s w = Inr \<lparr>cir_view = invoice_view s w, cir_created = False\<rparr>"
proof -
  obtain sale where sale: "find_by sale_id (salesInvoice_saleId w) (sales s) = Some sale"
    using assms(1,3) by (fastforce simp: invoices_wf_def split: option.splits)
  then have "sale_include s sale = Inr (sale_payload_of s sale)"
    using assms(2) find_by_SomeD[OF sale] by (intro sale_wf_includes) (auto simp: sales_wf_def)
  with sale show ?thesis by (simp add: replayed_invoice_def invoice_include_def invoice_view_def)
qed

lemma findByKey_mem: "salesInvoice_findByKey e k s = Some w \<Longrightarrow> w \<in> set (salesInvoices s)"
  by (auto simp: salesInvoice_findByKey_def dest: find_SomeD)

text \<open>The recovery from a database error looks for the competitor's invoice, by key and by sale.\<close>

lemma invoice_recover_eq:
  assumes "invoices_wf after" and "sales_wf after" and "is_prisma_error err" and "store_tenantId st = e"
  shows "invoice_recover (Some st) e saleId k after err =
    (case (if truthy k then salesInvoice_findByKey e k after else None) of
       Some w \<Rightarrow> Inr \<lparr>cir_view = invoice_view after w, cir_created = False\<rparr>
     | None \<Rightarrow> if \<exists>w\<in>set (salesInvoices after). salesInvoice_saleId w = saleId \<and> salesInvoice_enterpriseId w = e
         then Inl (ConflictException ''Cette vente est deja facturee'') else Inl err)"
proof -
  have bySale: "find_by salesInvoice_saleId saleId (salesInvoices (tenant_rows (Some st) after)) \<noteq> None \<longleftrightarrow>
      (\<exists>w\<in>set (salesInvoices after). salesInvoice_saleId w = saleId \<and> salesInvoice_enterpriseId w = e)"
    using find_by_None_iff[of salesInvoice_saleId saleId "salesInvoices (tenant_rows (Some st) after)"] assms(4)
    by (auto simp: tenant_rows_def rls_def)
  show ?thesis
    using assms(3) replayed_invoice_wf[OF assms(1,2) findByKey_mem] bySale
    by (auto simp: invoice_recover_def split: option.splits if_splits)
qed

lemma invoice_create_tx_cases:
  assumes "sales_wf s" and "(if truthy k then salesInvoice_findByKey e k s0 else None) = None"
  shows "invoice_create_tx fault newId now e saleId k s0 s = (case invoice_refusal e saleId s of
     Some err \<Rightarrow> Inl err
   | None \<Rightarrow> if find_by ent_id e (enterprises s) = None then Inl (PrismaKnown P2025)
     else case fault of Some err \<Rightarrow> Inl err
      | None \<Rightarrow> if number_free newId e k s
          then (let sale = the (find_by sale_id saleId (sales s)); row = new_invoice newId now e sale k s in
             Inr (\<lparr>cir_view = toInvoiceView row (sale_payload_of s sale), cir_created = True\<rparr>, issued_db row s))
          else Inl (PrismaKnown P2002))"
proof (cases "find_by sale_id saleId (sales s)")
  case None
  then show ?thesis unfolding invoice_create_tx_def assms(2) by (simp add: invoice_refusal_def)
next
  case (Some sale)
  have inc: "sale_include s sale = Inr (sale_payload_of s sale)"
    using assms(1) find_by_SomeD[OF Some] by (intro sale_wf_includes) (auto simp: sales_wf_def)
  have n: "\<not> (truthy k \<and> salesInvoice_findByKey e k s0 \<noteq> None)" using assms(2) by (auto split: if_splits)
  have id: "sale_id sale = saleId" using find_by_SomeD[OF Some] by simp
  have free: "invoice_collides (new_invoice newId now e sale k s) s \<longleftrightarrow> \<not> number_free newId e k s"
    if "saleId \<notin> salesInvoice_saleId ` set (salesInvoices s)"
    using that id by (auto simp: invoice_collides_def number_free_def next_number_last clashes_key_def)
  show ?thesis
    unfolding invoice_create_tx_eq[OF n Some inc] invoice_refusal_def
    using free by (auto simp: Some Let_def split: option.splits)
qed

text \<open>What an issued invoice is and what its issue leaves: the right-hand side of the property of creation.\<close>

lemma invoice_issued:
  fixes row :: sales_invoice
  assumes wf: "invoices_wf s" "sales_wf s" and "invoice_refusal e saleId s = None" and free: "number_free newId e k s"
    and ent: "find_by ent_id e (enterprises s) = Some ent"
    and sale: "find_by sale_id saleId (sales s) = Some sale" and row: "row = new_invoice newId now e sale k s"
    and s': "s' = auditLog_record entry (issued_db row s)"
  shows "\<exists>customer. sale_enterpriseId sale = e \<and> sale_status sale = Sale_CONFIRMED \<and>
      find_by customer_id (sale_customerId sale) (customers s) = Some customer \<and>
      siv_totals (invoice_view s' row) = reduce_totals (map sale_line_totals (sale_lines sale)) \<and>
      siv_legalMentions (invoice_view s' row) = buildLegalMentions ent customer \<and>
      siv_number (invoice_view s' row) = document_number ''FACT'' e (Suc (last_invoice_number e s)) \<and>
      last_invoice_number e s' = Suc (last_invoice_number e s) \<and>
      salesInvoices s' = salesInvoices s @ [row] \<and> salesInvoice_saleId row = saleId \<and> salesInvoice_enterpriseId row = e \<and>
      salesInvoice_idempotencyKey row = k \<and> sales s' = sales s \<and> stockMovements s' = stockMovements s \<and> invoices_wf s'"
    and "invoice_view s' row = toInvoiceView row (sale_payload_of s sale)"
proof -
  note id = find_by_SomeD[OF sale]
  have ok: "sale_enterpriseId sale = e" "sale_status sale = Sale_CONFIRMED" "saleId \<notin> salesInvoice_saleId ` set (salesInvoices s)"
    using assms(3) sale by (auto simp: invoice_refusal_def split: if_splits)
  have "sale_wf s sale" using wf(2) id by (auto simp: sales_wf_def)
  then obtain customer where c: "find_by customer_id (sale_customerId sale) (customers s) = Some customer"
    by (auto simp: sale_wf_def dest: owned_SomeD)
  have frame: "sales s' = sales s" "products s' = products s" "customers s' = customers s" "stockMovements s' = stockMovements s"
    "salesInvoices s' = salesInvoices s @ [row]"
    "salesInvoiceCounters s' = (salesInvoiceCounters s)(e \<mapsto> Suc (last_invoice_number e s))"
    by (simp_all add: s' auditLog_record_def issued_db_def row next_number_last)
  show view: "invoice_view s' row = toInvoiceView row (sale_payload_of s sale)"
    using id sale by (simp add: invoice_view_def frame sale_payload_of_def row)
  have "\<not> invoice_collides row s"
    using id ok(3) free by (auto simp: row invoice_collides_def number_free_def next_number_last clashes_key_def)
  then have wf': "invoices_wf s'"
    using wf(1) sale ok id by (auto simp: frame row invoices_wf_def invoice_collides_def unique_key_append1)
  show "\<exists>customer. sale_enterpriseId sale = e \<and> sale_status sale = Sale_CONFIRMED \<and>
      find_by customer_id (sale_customerId sale) (customers s) = Some customer \<and>
      siv_totals (invoice_view s' row) = reduce_totals (map sale_line_totals (sale_lines sale)) \<and>
      siv_legalMentions (invoice_view s' row) = buildLegalMentions ent customer \<and>
      siv_number (invoice_view s' row) = document_number ''FACT'' e (Suc (last_invoice_number e s)) \<and>
      last_invoice_number e s' = Suc (last_invoice_number e s) \<and>
      salesInvoices s' = salesInvoices s @ [row] \<and> salesInvoice_saleId row = saleId \<and> salesInvoice_enterpriseId row = e \<and>
      salesInvoice_idempotencyKey row = k \<and> sales s' = sales s \<and> stockMovements s' = stockMovements s \<and> invoices_wf s'"
    unfolding view by (rule exI[of _ customer])
      (use ok wf' c id in \<open>simp add: frame row new_invoice_def ent last_invoice_number_def next_number_def split: option.split\<close>)
qed

text \<open>
  C25. Issuing an invoice, on every path of the code. \<open>s0\<close> is what the transaction saw when it looked for the key, \<open>s\<close> what it
  worked on, \<open>fault\<close> a failure of the database and \<open>after\<close> what a fresh transaction sees when the first one has failed. A
  request whose key already names an invoice of the enterprise is answered with that invoice, and nothing is
  written. Otherwise an unknown sale, another enterprise's sale, one that is not confirmed and one that is already invoiced are refused,
  each with its own error. Otherwise, unless the database fails or a competitor holds the id, the
  number or the key, a new invoice is appended under the request's key: its totals are the sale's, its legal mentions are those of the
  issuer and the customer at that moment, the counter moves by one, sales and stock do not change. If the database fails, nothing is
  written, and the answer is the competitor's invoice of the same key if there is one by then, the conflict if the sale has been
  invoiced without it, and else the error.
\<close>

theorem invoicing_create_effect:
  assumes "invoices_wf s" "sales_wf s" and "invoices_wf s0" "sales_wf s0" and "invoices_wf after" "sales_wf after"
    and "store_tenantId st = e" and "\<forall>err. fault = Some err \<longrightarrow> is_prisma_error err"
    and "invoicing_service_create (Some st) fault newId now e u saleId k s0 s after = (res, s')"
  shows "case (if truthy k then salesInvoice_findByKey e k s0 else None) of
     Some w \<Rightarrow> res = Inr (invoice_view s0 w) \<and> s' = s
   | None \<Rightarrow> (case invoice_refusal e saleId s of
       Some err \<Rightarrow> res = Inl err \<and> s' = after
     | None \<Rightarrow>
       if fault = None \<and> number_free newId e k s \<and> find_by ent_id e (enterprises s) \<noteq> None
       then (\<exists>view sale enterprise customer row. res = Inr view \<and> view = invoice_view s' row \<and>
           find_by sale_id saleId (sales s) = Some sale \<and> sale_enterpriseId sale = e \<and> sale_status sale = Sale_CONFIRMED \<and>
           find_by ent_id e (enterprises s) = Some enterprise \<and>
           find_by customer_id (sale_customerId sale) (customers s) = Some customer \<and>
           siv_totals view = reduce_totals (map sale_line_totals (sale_lines sale)) \<and>
           siv_legalMentions view = buildLegalMentions enterprise customer \<and>
           siv_number view = document_number ''FACT'' e (Suc (last_invoice_number e s)) \<and>
           last_invoice_number e s' = Suc (last_invoice_number e s) \<and>
           salesInvoices s' = salesInvoices s @ [row] \<and> salesInvoice_saleId row = saleId \<and> salesInvoice_enterpriseId row = e \<and>
           salesInvoice_idempotencyKey row = k \<and>
           sales s' = sales s \<and> stockMovements s' = stockMovements s \<and> invoices_wf s')
       else s' = after \<and>
         (case (if truthy k then salesInvoice_findByKey e k after else None) of
            Some w \<Rightarrow> res = Inr (invoice_view after w)
          | None \<Rightarrow> if \<exists>w\<in>set (salesInvoices after). salesInvoice_saleId w = saleId \<and> salesInvoice_enterpriseId w = e
              then res = Inl (ConflictException ''Cette vente est deja facturee'')
              else \<exists>err. res = Inl err \<and> is_prisma_error err))"
proof (cases "if truthy k then salesInvoice_findByKey e k s0 else None")
  case (Some w)
  then have w: "truthy k" "salesInvoice_findByKey e k s0 = Some w" by (auto split: if_splits)
  have "invoice_create_tx fault newId now e saleId k s0 s = Inr (\<lparr>cir_view = invoice_view s0 w, cir_created = False\<rparr>, s)"
    unfolding invoice_create_tx_def Some using replayed_invoice_wf[OF assms(3,4) findByKey_mem[OF w(2)]] by simp
  then show ?thesis using assms(9) unfolding Some by (simp add: invoicing_service_create_eq)
next
  case None
  note tx = invoice_create_tx_cases[OF assms(2) None, of fault newId now saleId]
  note run = assms(9)[unfolded invoicing_service_create_eq]
  have recovered: "s' = after \<and> (case (if truthy k then salesInvoice_findByKey e k after else None) of
            Some w \<Rightarrow> res = Inr (invoice_view after w)
          | None \<Rightarrow> if \<exists>w\<in>set (salesInvoices after). salesInvoice_saleId w = saleId \<and> salesInvoice_enterpriseId w = e
              then res = Inl (ConflictException ''Cette vente est deja facturee'')
              else \<exists>err. res = Inl err \<and> is_prisma_error err)"
    if "invoice_create_tx fault newId now e saleId k s0 s = Inl err" "is_prisma_error err" for err
    using run that invoice_recover_eq[OF assms(5,6) that(2) assms(7), of saleId k] by (auto split: option.splits if_splits)
  show ?thesis
  proof (cases "invoice_refusal e saleId s")
    case (Some err)
    then have "\<not> is_prisma_error err" by (auto simp: invoice_refusal_def is_prisma_error_def split: option.splits if_splits)
    then show ?thesis using run tx Some unfolding None by (simp add: invoice_recover_def)
  next
    case granted: None
    then obtain sale where sale: "find_by sale_id saleId (sales s) = Some sale" "sale_enterpriseId sale = e"
      "sale_status sale = Sale_CONFIRMED" by (auto simp: invoice_refusal_def split: option.splits if_splits)
    show ?thesis
    proof (cases "fault = None \<and> number_free newId e k s \<and> find_by ent_id e (enterprises s) \<noteq> None")
      case True
      then obtain ent where ent: "find_by ent_id e (enterprises s) = Some ent" by auto
      let ?row = "new_invoice newId now e sale k s"
      have res: "res = Inr (toInvoiceView ?row (sale_payload_of s sale))"
        "s' = auditLog_record (audit_entry u e CREATE_INVOICE ''SalesInvoice'' newId) (issued_db ?row s)"
        using run tx True granted sale by (auto simp: Let_def)
      note issued = invoice_issued[OF assms(1,2) granted conjunct1[OF conjunct2[OF True]] ent sale(1) refl res(2)]
      from issued(1) show ?thesis unfolding None granted option.case if_P[OF True] res(1) issued(2)[symmetric]
        using sale(1) ent by blast
    next
      case False
      then obtain err where "invoice_create_tx fault newId now e saleId k s0 s = Inl err" "is_prisma_error err"
        using tx granted assms(8) by (auto simp: is_prisma_error_def split: option.splits if_splits)
      from recovered[OF this] show ?thesis unfolding None granted option.case if_not_P[OF False] .
    qed
  qed
qed

lemma fx_sales_db_invoices_wf: "invoices_wf fx_sales_db"
  by (simp add: invoices_wf_def fx_sales_db_def fx_db_simps unique_key_def)

definition fx_keyed_run :: "exn option \<Rightarrow> string \<Rightarrow> db \<Rightarrow> db \<Rightarrow> db \<Rightarrow> (exn + sales_invoice_view) \<times> db" where
  "fx_keyed_run fault i s0 s after = invoicing_service_create fx_store fault i 20 ''e1'' ''u1'' ''v2'' (Some ''k1'') s0 s after"

definition fx_keyed_db :: db where
  "fx_keyed_db = snd (fx_keyed_run None ''f1'' fx_sales_db fx_sales_db fx_sales_db)"

lemma fx_keyed_db_wf: "invoices_wf fx_keyed_db" "sales_wf fx_keyed_db"
  by code_simp+

text \<open>A creation under a key, and the same request when it has lost the race against it.\<close>

lemma invoicing_create_effect_witness:
  "map salesInvoice_idempotencyKey (salesInvoices fx_keyed_db) = [Some ''k1''] \<and> last_invoice_number ''e1'' fx_keyed_db = 1 \<and>
   fx_keyed_run (Some (PrismaKnown P2002)) ''f2'' fx_sales_db fx_sales_db fx_keyed_db =
     (Inr (invoice_view fx_keyed_db (hd (salesInvoices fx_keyed_db))), fx_keyed_db)"
proof -
  let ?st = "\<lparr>store_tenantId = ''e1'', store_userId = ''u1'', store_isSuperAdmin = False\<rparr>"
  have run: "invoicing_service_create (Some ?st) fault i 20 ''e1'' ''u1'' ''v2'' (Some ''k1'') s0 s after =
      (fst (fx_keyed_run fault i s0 s after), snd (fx_keyed_run fault i s0 s after))" for fault i s0 s after
    by (simp add: fx_keyed_run_def fx_store_def)
  have pre: "salesInvoice_findByKey ''e1'' (Some ''k1'') fx_sales_db = None" "invoice_refusal ''e1'' ''v2'' fx_sales_db = None"
    "number_free ''f1'' ''e1'' (Some ''k1'') fx_sales_db" "find_by ent_id ''e1'' (enterprises fx_sales_db) \<noteq> None"
    "salesInvoices fx_sales_db = []" "last_invoice_number ''e1'' fx_sales_db = 0"
    "salesInvoice_findByKey ''e1'' (Some ''k1'') fx_keyed_db = Some (hd (salesInvoices fx_keyed_db))" by code_simp+
  note wf = fx_sales_db_invoices_wf fx_sales_db_wf
  have made: "map salesInvoice_idempotencyKey (salesInvoices fx_keyed_db) = [Some ''k1''] \<and> last_invoice_number ''e1'' fx_keyed_db = 1"
    using invoicing_create_effect[OF wf wf wf _ _ run[of None "''f1''"]] pre unfolding fx_keyed_db_def[symmetric] by auto
  have "is_prisma_error (PrismaKnown P2002)" by (simp add: is_prisma_error_def)
  then have "snd (fx_keyed_run (Some (PrismaKnown P2002)) ''f2'' fx_sales_db fx_sales_db fx_keyed_db) = fx_keyed_db \<and>
      fst (fx_keyed_run (Some (PrismaKnown P2002)) ''f2'' fx_sales_db fx_sales_db fx_keyed_db) =
        Inr (invoice_view fx_keyed_db (hd (salesInvoices fx_keyed_db)))"
    using invoicing_create_effect[OF wf wf fx_keyed_db_wf _ _ run[of "Some (PrismaKnown P2002)" "''f2''"]] pre by simp
  with made show ?thesis by (metis prod.collapse)
qed

text \<open>
  The uniqueness of numbers is global but a number only names the first eight characters of the
  enterprise: if the number due to an enterprise has already been issued to another one, no invoice
  without a replay can be issued for any of its sales: the request fails with the constraint's error,
  the counter is rolled back, and the next attempt meets the same number again.
\<close>

theorem invoice_number_clash_blocks:
  assumes "row \<in> set (salesInvoices s)" and "salesInvoice_enterpriseId row \<noteq> e"
    and "salesInvoice_number row = document_number ''FACT'' e (Suc (last_invoice_number e s))"
    and "sales_wf s" and "find_by sale_id saleId (sales s) = Some sale" and "sale_enterpriseId sale = e"
    and "sale_status sale = Sale_CONFIRMED" and "saleId \<notin> salesInvoice_saleId ` set (salesInvoices s)"
    and "find_by ent_id e (enterprises s) \<noteq> None"
  shows "invoicing_service_create (Some st) None newId now e u saleId None s0 s s = (Inl (PrismaKnown P2002), s)"
proof -
  have inc: "sale_include s sale = Inr (sale_payload_of s sale)"
    using assms(4) find_by_SomeD[OF assms(5)] by (intro sale_wf_includes) (auto simp: sales_wf_def)
  have n: "\<not> (truthy None \<and> salesInvoice_findByKey e None s0 \<noteq> None)" by simp
  have "invoice_collides (new_invoice newId now e sale None s) s"
    unfolding invoice_collides_def new_invoice_simps next_number_last using assms(1,3) by force
  then have "invoice_create_tx None newId now e saleId None s0 s = Inl (PrismaKnown P2002)"
    unfolding invoice_create_tx_eq[OF n assms(5) inc] using assms(6-9) by (simp add: Let_def)
  moreover have "find_by salesInvoice_saleId saleId (salesInvoices (tenant_rows (Some st) s)) = None"
    using assms(8) by (simp add: find_by_None_iff tenant_rows_def rls_def) blast
  ultimately show ?thesis by (simp add: invoicing_service_create_eq invoice_recover_def is_prisma_error_def)
qed

definition fx_clash_db :: db where
  "fx_clash_db = empty_db\<lparr>
     enterprises := [fx_enterprise ''abcdef01-1'', fx_enterprise ''abcdef01-2''],
     customers := [fx_customer ''c1'' ''abcdef01-2''],
     products := [fx_product ''p1'' ''abcdef01-2'' ''A1'' False],
     sales := [\<lparr>sale_id = ''v1'', sale_enterpriseId = ''abcdef01-2'', sale_customerId = ''c1'', sale_status = Sale_CONFIRMED,
       sale_saleDate = 0, sale_notes = None, sale_confirmedAt = Some 0, sale_cancelledAt = None,
       sale_idempotencyKey = None, sale_createdAt = 0, sale_updatedAt = 0,
       sale_lines = [\<lparr>saleLine_id = ''l'', saleLine_enterpriseId = ''abcdef01-2'', saleLine_productId = ''p1'',
         saleLine_quantity = 1, saleLine_unitPriceExcludingTax = 1000, saleLine_vatRateBasisPoints = 1800\<rparr>]\<rparr>],
     salesInvoices := [\<lparr>salesInvoice_id = ''f1'', salesInvoice_enterpriseId = ''abcdef01-1'', salesInvoice_saleId = ''v0'',
       salesInvoice_number = ''FACT-ABCDEF01-000001'', salesInvoice_status = Inv_ISSUED, salesInvoice_issuedAt = 0,
       salesInvoice_paidAt = None, salesInvoice_voidedAt = None, salesInvoice_legalMentions = [],
       salesInvoice_idempotencyKey = None, salesInvoice_createdAt = 0, salesInvoice_updatedAt = 0\<rparr>]\<rparr>"

lemma invoice_number_clash_blocks_witness:
  "invoicing_service_create (Some \<lparr>store_tenantId = ''abcdef01-2'', store_userId = ''u1'', store_isSuperAdmin = False\<rparr>)
     None ''f9'' 3 ''abcdef01-2'' ''u1'' ''v1'' None fx_clash_db fx_clash_db fx_clash_db = (Inl (PrismaKnown P2002), fx_clash_db)"
proof -
  have num: "document_number ''FACT'' ''abcdef01-2'' (Suc 0) = ''FACT-ABCDEF01-000001''" by code_simp
  have wf: "sales_wf fx_clash_db"
    by (simp add: sales_wf_def sale_wf_def fx_clash_db_def fx_db_simps owned_defs unique_key_def)
  show ?thesis
    by (rule invoice_number_clash_blocks[OF _ _ _ wf,
          where row = "hd (salesInvoices fx_clash_db)" and sale = "hd (sales fx_clash_db)"])
      (simp_all add: fx_clash_db_def fx_db_simps last_invoice_number_def num)
qed

text \<open>
  A paid or voided invoice is final: no sequence of invoicing steps changes any field of it.
\<close>

theorem settled_invoice_unchanged:
  assumes "invoicing_step\<^sup>*\<^sup>* s s'" and "find_by salesInvoice_id i (salesInvoices s) = Some r"
    and "salesInvoice_status r = Inv_PAID \<or> salesInvoice_status r = Inv_VOID"
  shows "find_by salesInvoice_id i (salesInvoices s') = Some r"
  by (rule settled_invoices.steps_final[OF assms(1,2)]) (use assms(3) in \<open>auto simp: invoice_final_def\<close>)

lemma settled_invoice_unchanged_witness:
  "let r = (hd (salesInvoices fx_clash_db))\<lparr>salesInvoice_status := Inv_PAID\<rparr>; s = fx_clash_db\<lparr>salesInvoices := [r]\<rparr>
   in find_by salesInvoice_id ''f1'' (salesInvoices (snd (invoicing_service_void fx_store 4 ''abcdef01-1'' ''u1'' ''f1'' s))) = Some r"
  unfolding Let_def
  by (rule settled_invoice_unchanged[OF r_into_rtranclp[where r = invoicing_step]])
    (rule invoicing_step.voids, rule surjective_pairing, simp_all add: fx_clash_db_def)

end
