(* ===== verification/Payments.thy ===== *)
theory Payments
  imports Subscriptions Invoicing Money
begin

text \<open>
  apps/api/src/payments: the signed webhook of the payment providers, the invoice it issues, the
  hourly expiry of payments that were never honoured and the creation of a pending payment by the
  Super Admin. \<open>hmac\<close> (node's createHmac) and \<open>json_parse\<close> (\<open>JSON.parse\<close>, on the values a
  JSON text denotes) are parameters, as is the way a date is printed. The interactive transaction is
  one step; before each of the other statements \<open>others\<close> is what the rest of the platform does.
\<close>

section \<open>Providers\<close>

definition payment_provider_of :: "string \<Rightarrow> payment_provider option" where
  "payment_provider_of v =
     map_of [(''WAVE'', WAVE), (''ORANGE_MONEY'', ORANGE_MONEY), (''FREE_MONEY'', FREE_MONEY),
             (''STRIPE'', STRIPE), (''CARD'', CARD)] v"

definition resolveProvider :: "string \<Rightarrow> exn + payment_provider" where
  "resolveProvider value = (case payment_provider_of (toUpperCase value) of
     None \<Rightarrow> Inl (NotFoundException (''Fournisseur de paiement inconnu : '' @ value))
   | Some provider \<Rightarrow> Inr provider)"

record hmac_adapter =
  adapter_secret :: string
  adapter_tolerance :: int

text \<open>The secret of a provider is an environment variable; \<open>requireEnv\<close> throws when it is missing.\<close>

definition registry_get ::
    "(payment_provider \<Rightarrow> string option) \<Rightarrow> int \<Rightarrow> payment_provider \<Rightarrow> (payment_provider \<times> hmac_adapter) list \<Rightarrow>
     exn + hmac_adapter \<times> (payment_provider \<times> hmac_adapter) list" where
  "registry_get secrets tolerance provider adapters = (case map_of adapters provider of
     Some adapter \<Rightarrow> Inr (adapter, adapters)
   | None \<Rightarrow> (case secrets provider of
       None \<Rightarrow> Inl (JsError ''Variable d'environnement manquante'')
     | Some secret \<Rightarrow> (let adapter = \<lparr>adapter_secret = secret, adapter_tolerance = tolerance\<rparr>
         in Inr (adapter, AList.update provider adapter adapters))))"

section \<open>The generic adapter\<close>

definition all_digits :: "string \<Rightarrow> bool" where
  "all_digits v \<longleftrightarrow> v \<noteq> [] \<and> (\<forall>c\<in>set v. 48 \<le> (of_char c :: nat) \<and> (of_char c :: nat) \<le> 57)"

definition verifySignature ::
    "(string \<Rightarrow> string \<Rightarrow> string) \<Rightarrow> date \<Rightarrow> hmac_adapter \<Rightarrow> string \<Rightarrow> string option \<Rightarrow> string option \<Rightarrow> bool" where
  "verifySignature hmac now adapter rawBody signatureHeader timestampHeader =
     (if \<not> truthy signatureHeader \<or> \<not> truthy timestampHeader \<or> \<not> all_digits (the timestampHeader) then False
      else let timestampSeconds = int (digits_value (the timestampHeader))
      in if 1000 * adapter_tolerance adapter < \<bar>now - 1000 * timestampSeconds\<bar> then False
         else let expected = hmac (adapter_secret adapter) (the timestampHeader @ ''.'' @ rawBody)
      in if length expected \<noteq> length (the signatureHeader) then False
         else expected = the signatureHeader)"

text \<open>
  A JSON value; a number is \<open>Some\<close> integer, or \<open>None\<close> when it is not an integer. An object keeps its
  keys as \<open>JSON.parse\<close> leaves them, each once.
\<close>

datatype json =
  JNull | JBool bool | JNumber "int option" | JString string | JArray "json list" | JObject "(string \<times> json) list"

datatype webhook_status = Evt_SUCCEEDED | Evt_FAILED

record payment_webhook_event =
  evt_providerReference :: string
  evt_status :: webhook_status
  evt_amount :: int
  evt_currency :: string

definition is_space :: "char \<Rightarrow> bool" where
  "is_space c \<longleftrightarrow> (of_char c :: nat) \<in> {9, 10, 11, 12, 13, 32, 160}"

definition trim_string :: "string \<Rightarrow> string" where
  "trim_string v = rev (dropWhile is_space (rev (dropWhile is_space v)))"

definition schema_reference :: "json option \<Rightarrow> string option" where
  "schema_reference j = (case j of
     Some (JString v) \<Rightarrow> if trim_string v = [] then None else Some (trim_string v) | _ \<Rightarrow> None)"

definition schema_status :: "json option \<Rightarrow> webhook_status option" where
  "schema_status j = (case j of
     Some (JString v) \<Rightarrow> if v = ''succeeded'' then Some Evt_SUCCEEDED else if v = ''failed'' then Some Evt_FAILED else None
   | _ \<Rightarrow> None)"

definition schema_amount :: "json option \<Rightarrow> int option" where
  "schema_amount j = (case j of
     Some (JNumber (Some n)) \<Rightarrow> if 0 < n then Some n else None | _ \<Rightarrow> None)"

definition schema_currency :: "json option \<Rightarrow> string option" where
  "schema_currency j = (case j of
     None \<Rightarrow> Some ''XOF'' | Some (JString v) \<Rightarrow> if v = ''XOF'' then Some v else None | _ \<Rightarrow> None)"

definition paymentWebhookEventSchema :: "json \<Rightarrow> payment_webhook_event option" where
  "paymentWebhookEventSchema j = (case j of
     JObject entries \<Rightarrow>
       if \<not> fst ` set entries \<subseteq> {''reference'', ''status'', ''amount'', ''currency''} then None
       else (case (schema_reference (map_of entries ''reference''), schema_status (map_of entries ''status''),
                   schema_amount (map_of entries ''amount''), schema_currency (map_of entries ''currency'')) of
         (Some reference, Some status, Some amount, Some currency) \<Rightarrow>
           Some \<lparr>evt_providerReference = reference, evt_status = status, evt_amount = amount, evt_currency = currency\<rparr>
       | _ \<Rightarrow> None)
   | _ \<Rightarrow> None)"

definition parseEvent :: "(string \<Rightarrow> json option) \<Rightarrow> string \<Rightarrow> exn + payment_webhook_event" where
  "parseEvent json_parse rawBody = (case json_parse rawBody of
     None \<Rightarrow> Inl (BadRequestException ''Corps de webhook invalide (JSON attendu)'')
   | Some j \<Rightarrow> (case paymentWebhookEventSchema j of
       None \<Rightarrow> Inl (BadRequestException ''Evenement de webhook invalide'')
     | Some event \<Rightarrow> Inr event))"

section \<open>Invoices of the platform\<close>

definition bump_invoiceCounter :: "uuid \<Rightarrow> db \<Rightarrow> nat \<times> db" where
  "bump_invoiceCounter e s =
     (let n = next_number (invoiceCounters s) e
      in (n, s\<lparr>invoiceCounters := (invoiceCounters s)(e \<mapsto> n)\<rparr>))"

definition platform_legal_mentions :: "enterprise \<Rightarrow> string" where
  "platform_legal_mentions enterprise = join [CHR 0x0A]
     [''Emis par : [Raison sociale de la plateforme a renseigner]'',
      ''NINEA : [NINEA a renseigner] - RCCM : [RCCM a renseigner]'',
      ''Adresse : [Adresse a renseigner], Senegal'',
      ''Client : '' @ given (ent_legalName enterprise) (ent_name enterprise) @
        mention '' - NINEA : '' (ent_ninea enterprise) @ mention '' - RCCM : '' (ent_rccm enterprise),
      ''TVA 18% incluse, conformement a la reglementation en vigueur (UEMOA).'',
      ''Montants exprimes en FCFA (XOF).'']"

text \<open>
  \<open>number\<close> and \<open>paymentId\<close> are unique columns; \<open>connect\<close> points the payment at the new invoice.
\<close>

definition invoice_insert :: "invoice \<Rightarrow> uuid \<Rightarrow> (db, exn, invoice) txn" where
  "invoice_insert row paymentId s =
     (if \<exists>r\<in>set (invoices s). invoice_number r = invoice_number row \<or>
           invoice_paymentId row \<noteq> None \<and> invoice_paymentId r = invoice_paymentId row
      then Inl (PrismaKnown P2002)
      else case find_by payment_id paymentId (payments s) of
        None \<Rightarrow> Inl (PrismaKnown P2025)
      | Some _ \<Rightarrow> Inr (row, s\<lparr>invoices := invoices s @ [row],
          payments := update_by payment_id paymentId (\<lambda>p. p\<lparr>payment_invoiceId := Some (invoice_id row)\<rparr>) (payments s)\<rparr>))"

definition platform_invoice :: "uuid \<Rightarrow> date \<Rightarrow> enterprise \<Rightarrow> uuid \<Rightarrow> payment \<Rightarrow> nat \<Rightarrow> invoice" where
  "platform_invoice newId now enterprise subscriptionId payment sequenceNumber =
     \<lparr>invoice_id = newId, invoice_enterpriseId = ent_id enterprise, invoice_subscriptionId = Some subscriptionId,
      invoice_paymentId = Some (payment_id payment),
      invoice_number = document_number ''INV'' (ent_id enterprise) sequenceNumber,
      invoice_amount = payment_amount payment, invoice_amountExcludingTax = amountExcludingTax (payment_amount payment),
      invoice_vatAmount = vatAmount (payment_amount payment), invoice_vatRateBasisPoints = VAT_RATE_BASIS_POINTS,
      invoice_legalMentions = platform_legal_mentions enterprise, invoice_status = Inv_PAID,
      invoice_issuedAt = Some now, invoice_paidAt = Some now\<rparr>"

definition generateForPayment :: "uuid \<Rightarrow> date \<Rightarrow> enterprise \<Rightarrow> uuid \<Rightarrow> payment \<Rightarrow> (db, exn, invoice) txn" where
  "generateForPayment newId now enterprise subscriptionId payment s =
     (let (sequenceNumber, s1) = bump_invoiceCounter (ent_id enterprise) s
      in invoice_insert (platform_invoice newId now enterprise subscriptionId payment sequenceNumber) (payment_id payment) s1)"

section \<open>The platform\<close>

datatype notification_type = WELCOME | PAYMENT_CONFIRMED | PAYMENT_FAILED

record notification =
  ntf_userId :: uuid
  ntf_enterpriseId :: uuid
  ntf_type :: notification_type
  ntf_to :: string
  ntf_subject :: string
  ntf_body :: string

text \<open>The database, the entitlements cache of the process, the notifications stored and sent.\<close>

record platform =
  pf_db :: db
  pf_cache :: entitlements_cache
  pf_notifications :: "notification list"

definition on_db :: "(db \<Rightarrow> db) \<Rightarrow> platform \<Rightarrow> platform" where
  "on_db f w = w\<lparr>pf_db := f (pf_db w)\<rparr>"

definition payment_audit :: "uuid option \<Rightarrow> audit_action \<Rightarrow> string \<Rightarrow> uuid option \<Rightarrow> string option \<Rightarrow> audit_log" where
  "payment_audit enterpriseId action resource resourceId reason =
     \<lparr>audit_userId = None, audit_enterpriseId = enterpriseId, audit_action = action,
      audit_resource = resource, audit_resourceId = resourceId, audit_reason = reason\<rparr>"

definition auditRejection :: "string \<Rightarrow> payment option \<Rightarrow> db \<Rightarrow> db" where
  "auditRejection reason payment = auditLog_record (payment_audit (map_option payment_enterpriseId payment)
     PAYMENT_WEBHOOK_REJECTED ''PaymentWebhook'' (map_option payment_id payment) (Some reason))"

definition first_active_user :: "uuid \<Rightarrow> db \<Rightarrow> user option" where
  "first_active_user enterpriseId s =
     (case ascending user_createdAt (filter (\<lambda>u. user_enterpriseId u = Some enterpriseId \<and> user_status u = Usr_ACTIVE) (users s)) of
        [] \<Rightarrow> None | u # _ \<Rightarrow> Some u)"

definition notifyEnterprise ::
    "(date \<Rightarrow> string) \<Rightarrow> uuid \<Rightarrow> webhook_status \<Rightarrow> subscription \<Rightarrow> platform \<Rightarrow> platform" where
  "notifyEnterprise localeDate enterpriseId status subscription w =
     (case first_active_user enterpriseId (pf_db w) of
        None \<Rightarrow> w
      | Some recipient \<Rightarrow>
          let send = (\<lambda>t subject body. w\<lparr>pf_notifications := pf_notifications w @
                [\<lparr>ntf_userId = user_id recipient, ntf_enterpriseId = enterpriseId, ntf_type = t,
                  ntf_to = user_email recipient, ntf_subject = subject, ntf_body = body\<rparr>]\<rparr>)
          in case status of
               Evt_SUCCEEDED \<Rightarrow> send PAYMENT_CONFIRMED ''Paiement confirme''
                 ''Votre paiement a ete confirme, votre abonnement est actif.''
             | Evt_FAILED \<Rightarrow> send PAYMENT_FAILED ''Echec de paiement''
                 (if subscription_status subscription = Sub_TRIAL
                  then ''Votre paiement a echoue. Votre periode d'essai continue jusqu'au '' @
                    (case subscription_trialEndDate subscription of None \<Rightarrow> ''sa date prevue'' | Some d \<Rightarrow> localeDate d) @
                    '' - vous pouvez reessayer a tout moment.''
                  else ''Votre paiement a echoue. Votre abonnement passe en statut en attente de paiement jusqu'au '' @
                    (case subscription_renewalDate subscription of None \<Rightarrow> ''prochain renouvellement'' | Some d \<Rightarrow> localeDate d) @ ''.''))"

section \<open>The transaction of the webhook\<close>

fun as_payment_status :: "webhook_status \<Rightarrow> payment_status" where
  "as_payment_status Evt_SUCCEEDED = Pay_SUCCEEDED"
| "as_payment_status Evt_FAILED = Pay_FAILED"

definition payment_cas :: "uuid \<Rightarrow> (payment \<Rightarrow> payment) \<Rightarrow> db \<Rightarrow> nat \<times> db" where
  "payment_cas paymentId f s =
     (let matches = (\<lambda>p. payment_id p = paymentId \<and> payment_status p = Pay_PENDING)
      in (length (filter matches (payments s)),
          s\<lparr>payments := map (\<lambda>p. if matches p then f p else p) (payments s)\<rparr>))"

definition resolve_payment :: "date \<Rightarrow> webhook_status \<Rightarrow> payment \<Rightarrow> payment" where
  "resolve_payment now status p = p\<lparr>payment_status := as_payment_status status,
     payment_paidAt := (if status = Evt_SUCCEEDED then Some now else None)\<rparr>"

definition webhook_target :: "webhook_status \<Rightarrow> subscription_status \<Rightarrow> subscription_status option" where
  "webhook_target status current =
     (if status = Evt_SUCCEEDED then Some Sub_ACTIVE
      else if current = Sub_TRIAL then None else Some Sub_PAST_DUE)"

text \<open>
  The moves of the subscription: to the target status with an event, or the restart of the grace
  period of one that is already past due. \<open>grace\<close> is its length in milliseconds.
\<close>

definition move_subscription :: "date \<Rightarrow> int \<Rightarrow> webhook_status \<Rightarrow> subscription \<Rightarrow> (db, exn, subscription) txn" where
  "move_subscription now grace status subscription s =
     (let target = webhook_target status (subscription_status subscription)
      in if target \<noteq> None \<and> subscription_status subscription \<noteq> the target
         then (case assertSubscriptionTransition (subscription_status subscription) (the target) of
             Inl e \<Rightarrow> Inl e
           | Inr _ \<Rightarrow> (case subscription_update (subscription_id subscription)
                 (\<lambda>r. r\<lparr>subscription_status := the target,
                        subscription_renewalDate := (if the target = Sub_PAST_DUE then Some (now + grace)
                          else subscription_renewalDate subscription)\<rparr>) s of
               Inl e \<Rightarrow> Inl e
             | Inr (subscription2, s1) \<Rightarrow> Inr (subscription2, createSubscriptionEvent
                 \<lparr>event_subscriptionId = subscription_id subscription,
                  event_fromStatus = Some (subscription_status subscription), event_toStatus = the target,
                  event_fromPlanId = Some (subscription_planId subscription),
                  event_toPlanId = Some (subscription_planId subscription),
                  event_reason = Some (if status = Evt_SUCCEEDED then ''payment_succeeded'' else ''payment_failed''),
                  event_triggeredByUserId = None\<rparr> s1)))
         else if target = Some Sub_PAST_DUE
         then subscription_update (subscription_id subscription)
                (\<lambda>r. r\<lparr>subscription_renewalDate := Some (now + grace)\<rparr>) s
         else Inr (subscription, s))"

text \<open>\<open>clock\<close> is what each reading of the clock returns, \<open>newId\<close> the identifier of a new invoice.\<close>

definition webhook_tx ::
    "(nat \<Rightarrow> date) \<Rightarrow> int \<Rightarrow> uuid \<Rightarrow> payment \<Rightarrow> uuid \<Rightarrow> payment_webhook_event \<Rightarrow> (db, exn, subscription option) txn" where
  "webhook_tx clock grace newId payment subscriptionId event s =
     (let (count, s1) = payment_cas (payment_id payment) (resolve_payment (clock 2) (evt_status event)) s
      in if count = 0 then Inr (None, s1)
         else case find_by payment_id (payment_id payment) (payments s1) of
           None \<Rightarrow> Inl (PrismaKnown P2025)
         | Some updatedPayment \<Rightarrow> (case find_by subscription_id subscriptionId (subscriptions s1) of
           None \<Rightarrow> Inl (PrismaKnown P2025)
         | Some subscription \<Rightarrow> (case find_by ent_id (payment_enterpriseId payment) (enterprises s1) of
           None \<Rightarrow> Inl (PrismaKnown P2025)
         | Some enterprise \<Rightarrow> (case move_subscription (clock 3) grace (evt_status event) subscription s1 of
           Inl e \<Rightarrow> Inl e
         | Inr (subscription2, s2) \<Rightarrow>
             if evt_status event = Evt_SUCCEEDED
             then (case generateForPayment newId (clock 4) enterprise (subscription_id subscription) updatedPayment s2 of
                 Inl e \<Rightarrow> Inl e
               | Inr (_, s3) \<Rightarrow> Inr (Some subscription2, s3))
             else Inr (Some subscription2, s2)))))"

section \<open>The webhook\<close>

datatype webhook_outcome = processed | ignored_already_processed | status_conflict

record webhook_result =
  wr_outcome :: webhook_outcome
  wr_paymentId :: uuid

definition findPaymentByReference :: "payment_provider \<Rightarrow> string \<Rightarrow> db \<Rightarrow> payment option" where
  "findPaymentByReference provider reference s =
     List.find (\<lambda>p. payment_provider p = provider \<and> payment_providerReference p = Some reference) (payments s)"

definition is_expired :: "date \<Rightarrow> payment \<Rightarrow> bool" where
  "is_expired now payment \<longleftrightarrow> payment_status payment = Pay_PENDING \<and> date_before (payment_expiresAt payment) now"

definition expire_payment :: "payment \<Rightarrow> payment" where
  "expire_payment p = p\<lparr>payment_status := Pay_EXPIRED\<rparr>"

text \<open>
  A pending payment whose date has passed: \<open>Inl\<close> the end of the request, or \<open>Inr\<close> the payment to go
  on with (read again when another request has resolved it meanwhile).
\<close>

definition webhook_expiry ::
    "(nat \<Rightarrow> date) \<Rightarrow> (nat \<Rightarrow> platform \<Rightarrow> platform) \<Rightarrow> payment \<Rightarrow> platform \<Rightarrow> (exn + payment) \<times> platform" where
  "webhook_expiry clock others payment w =
     (if \<not> is_expired (clock 1) payment then (Inr payment, w)
      else let w1 = others 0 w;
               (count, s1) = payment_cas (payment_id payment) expire_payment (pf_db w1)
      in if count = 1
         then (Inl (ConflictException ''Ce paiement a expire''),
               w1\<lparr>pf_db := auditRejection ''payment_expired'' (Some payment) s1\<rparr>)
         else let w2 = others 1 (w1\<lparr>pf_db := s1\<rparr>)
         in case find_by payment_id (payment_id payment) (payments (pf_db w2)) of
              None \<Rightarrow> (Inl (PrismaKnown P2025), w2)
            | Some p \<Rightarrow> (Inr p, w2))"

text \<open>An event for a payment that is no longer pending: a replay, or a conflict that is recorded.\<close>

definition webhook_resolved ::
    "(nat \<Rightarrow> platform \<Rightarrow> platform) \<Rightarrow> payment \<Rightarrow> payment_webhook_event \<Rightarrow> platform \<Rightarrow> (exn + webhook_result) \<times> platform" where
  "webhook_resolved others payment event w =
     (if as_payment_status (evt_status event) = payment_status payment
      then (Inr \<lparr>wr_outcome = ignored_already_processed, wr_paymentId = payment_id payment\<rparr>, w)
      else let w1 = others 2 w
      in case find_by payment_id (payment_id payment) (payments (pf_db w1)) of
           None \<Rightarrow> (Inl (PrismaKnown P2025), w1)
         | Some _ \<Rightarrow> (Inr \<lparr>wr_outcome = status_conflict, wr_paymentId = payment_id payment\<rparr>,
             on_db (\<lambda>s. auditLog_record (payment_audit (Some (payment_enterpriseId payment)) PAYMENT ''Payment''
                 (Some (payment_id payment)) (Some ''status_conflict_after_terminal_state''))
               (s\<lparr>payments := update_by payment_id (payment_id payment)
                   (\<lambda>p. p\<lparr>payment_conflictingEvent := Some (as_payment_status (evt_status event))\<rparr>) (payments s)\<rparr>)) w1))"

text \<open>The transaction and what follows it.\<close>

definition webhook_commit ::
    "(date \<Rightarrow> string) \<Rightarrow> (nat \<Rightarrow> date) \<Rightarrow> int \<Rightarrow> uuid \<Rightarrow> (nat \<Rightarrow> platform \<Rightarrow> platform) \<Rightarrow> payment \<Rightarrow> uuid \<Rightarrow>
     payment_webhook_event \<Rightarrow> platform \<Rightarrow> (exn + webhook_result) \<times> platform" where
  "webhook_commit localeDate clock grace newId others payment subscriptionId event w =
     (let w1 = others 2 w
      in case commit_txn (webhook_tx clock grace newId payment subscriptionId event) (pf_db w1) of
           (Inl (InvalidSubscriptionTransitionError from to), s1) \<Rightarrow>
             (Inl (ConflictException (''Transition d'abonnement invalide : '' @ status_name from @ '' -> '' @ status_name to)),
              w1\<lparr>pf_db := auditRejection ''invalid_subscription_transition'' (Some payment) s1\<rparr>)
         | (Inl e, s1) \<Rightarrow> (Inl e, w1\<lparr>pf_db := s1\<rparr>)
         | (Inr None, s1) \<Rightarrow>
             (Inr \<lparr>wr_outcome = ignored_already_processed, wr_paymentId = payment_id payment\<rparr>, w1\<lparr>pf_db := s1\<rparr>)
         | (Inr (Some subscriptionAfter), s1) \<Rightarrow>
             (Inr \<lparr>wr_outcome = processed, wr_paymentId = payment_id payment\<rparr>,
              notifyEnterprise localeDate (payment_enterpriseId payment) (evt_status event) subscriptionAfter
                (others 3 (w1\<lparr>pf_db := auditLog_record (payment_audit (Some (payment_enterpriseId payment)) PAYMENT
                      ''Payment'' (Some (payment_id payment)) None) s1,
                    pf_cache := cache_invalidate (payment_enterpriseId payment) (pf_cache w1)\<rparr>))))"

definition webhook_pending ::
    "(date \<Rightarrow> string) \<Rightarrow> (nat \<Rightarrow> date) \<Rightarrow> int \<Rightarrow> uuid \<Rightarrow> (nat \<Rightarrow> platform \<Rightarrow> platform) \<Rightarrow> payment \<Rightarrow>
     payment_webhook_event \<Rightarrow> platform \<Rightarrow> (exn + webhook_result) \<times> platform" where
  "webhook_pending localeDate clock grace newId others payment event w =
     (if payment_amount payment \<noteq> evt_amount event \<or> payment_currency payment \<noteq> evt_currency event
      then (Inl (BadRequestException ''Le montant du webhook ne correspond pas au paiement en attente''),
            on_db (auditRejection ''amount_or_currency_mismatch'' (Some payment)) w)
      else case payment_subscriptionId payment of
        None \<Rightarrow> (Inl (ConflictException ''Paiement sans abonnement associe''),
            on_db (auditRejection ''payment_without_subscription'' (Some payment)) w)
      | Some subscriptionId \<Rightarrow> webhook_commit localeDate clock grace newId others payment subscriptionId event w)"

definition webhook_event ::
    "(date \<Rightarrow> string) \<Rightarrow> (nat \<Rightarrow> date) \<Rightarrow> int \<Rightarrow> uuid \<Rightarrow> (nat \<Rightarrow> platform \<Rightarrow> platform) \<Rightarrow> payment_provider \<Rightarrow>
     payment_webhook_event \<Rightarrow> platform \<Rightarrow> (exn + webhook_result) \<times> platform" where
  "webhook_event localeDate clock grace newId others provider event w =
     (case findPaymentByReference provider (evt_providerReference event) (pf_db w) of
        None \<Rightarrow> (Inl (NotFoundException ''Aucun paiement en attente pour cette reference''),
            on_db (auditRejection ''unknown_payment_reference'' None) w)
      | Some found \<Rightarrow> (case webhook_expiry clock others found w of
          (Inl e, w1) \<Rightarrow> (Inl e, w1)
        | (Inr payment, w1) \<Rightarrow>
            if payment_status payment \<noteq> Pay_PENDING then webhook_resolved others payment event w1
            else webhook_pending localeDate clock grace newId others payment event w1))"

definition webhook_handle ::
    "(string \<Rightarrow> string \<Rightarrow> string) \<Rightarrow> (string \<Rightarrow> json option) \<Rightarrow> (payment_provider \<Rightarrow> string option) \<Rightarrow> int \<Rightarrow>
     (date \<Rightarrow> string) \<Rightarrow> (nat \<Rightarrow> date) \<Rightarrow> int \<Rightarrow> uuid \<Rightarrow> (nat \<Rightarrow> platform \<Rightarrow> platform) \<Rightarrow>
     (payment_provider \<times> hmac_adapter) list \<Rightarrow> string \<Rightarrow> string \<Rightarrow> string option \<Rightarrow> string option \<Rightarrow> platform \<Rightarrow>
     (exn + webhook_result) \<times> platform" where
  "webhook_handle hmac json_parse secrets tolerance localeDate clock grace newId others adapters
       providerParam rawBody signatureHeader timestampHeader w =
     (case resolveProvider providerParam of
        Inl e \<Rightarrow> (Inl e, w)
      | Inr provider \<Rightarrow> (case registry_get secrets tolerance provider adapters of
          Inl e \<Rightarrow> (Inl e, w)
        | Inr (adapter, _) \<Rightarrow>
            if \<not> verifySignature hmac (clock 0) adapter rawBody signatureHeader timestampHeader
            then (Inl (UnauthorizedException ''Signature de webhook invalide''),
                  on_db (auditRejection ''invalid_signature_or_timestamp'' None) w)
            else (case parseEvent json_parse rawBody of
              Inl e \<Rightarrow> (Inl e, on_db (auditRejection ''malformed_body'' None) w)
            | Inr event \<Rightarrow> webhook_event localeDate clock grace newId others provider event w)))"

section \<open>Expiry job and creation\<close>

definition findExpirablePendingPayments :: "date \<Rightarrow> db \<Rightarrow> payment list" where
  "findExpirablePendingPayments now s =
     filter (\<lambda>p. payment_status p = Pay_PENDING \<and> date_before (payment_expiresAt p) now) (payments s)"

definition expirePendingPayment :: "uuid \<Rightarrow> db \<Rightarrow> nat \<times> db" where
  "expirePendingPayment paymentId s = payment_cas paymentId expire_payment s"

text \<open>One payment of the batch; \<open>fails\<close> is the number of the statement that throws, if any.\<close>

definition lifecycle_expire :: "nat option \<Rightarrow> (nat \<Rightarrow> db \<Rightarrow> db) \<Rightarrow> payment \<Rightarrow> db \<Rightarrow> bool \<times> db" where
  "lifecycle_expire fails others payment s =
     (let s0 = others 0 s
      in if fails = Some 0 then (False, s0)
         else let (count, s1) = expirePendingPayment (payment_id payment) s0
      in if count = 0 then (False, s1)
         else let s2 = others 1 s1
      in if fails = Some 1 then (False, s2)
         else (True, auditLog_record (payment_audit (Some (payment_enterpriseId payment)) EXPIRE_PAYMENT ''Payment''
                (Some (payment_id payment)) (Some ''pending_payment_expired'')) s2))"

fun lifecycle_expire_all ::
    "(nat \<Rightarrow> nat option) \<Rightarrow> (nat \<Rightarrow> nat \<Rightarrow> db \<Rightarrow> db) \<Rightarrow> nat \<Rightarrow> nat \<Rightarrow> payment list \<Rightarrow> db \<Rightarrow> nat \<times> db" where
  "lifecycle_expire_all fails others i expiredCount [] s = (expiredCount, s)"
| "lifecycle_expire_all fails others i expiredCount (payment # rest) s =
     (let (expired, s1) = lifecycle_expire (fails i) (others i) payment s
      in lifecycle_expire_all fails others (Suc i) (if expired then expiredCount + 1 else expiredCount) rest s1)"

definition expirePendingPayments ::
    "(nat \<Rightarrow> nat option) \<Rightarrow> (nat \<Rightarrow> nat \<Rightarrow> db \<Rightarrow> db) \<Rightarrow> date \<Rightarrow> db \<Rightarrow> nat \<times> db" where
  "expirePendingPayments fails others now s =
     lifecycle_expire_all fails others 0 0 (findExpirablePendingPayments now s) s"

datatype billing_period = MONTHLY | YEARLY

record create_pending_payment_input =
  cpp_provider :: payment_provider
  cpp_providerReference :: string
  cpp_billingPeriod :: billing_period

definition payment_insert :: "payment \<Rightarrow> (db, exn, payment) txn" where
  "payment_insert row s =
     (if \<exists>r\<in>set (payments s). payment_id r = payment_id row \<or>
           payment_providerReference row \<noteq> None \<and> payment_provider r = payment_provider row \<and>
           payment_providerReference r = payment_providerReference row
      then Inl (PrismaKnown P2002) else Inr (row, s\<lparr>payments := payments s @ [row]\<rparr>))"

definition plan_price :: "billing_period \<Rightarrow> plan \<Rightarrow> int option" where
  "plan_price period plan = (case period of MONTHLY \<Rightarrow> Some (plan_priceMonthly plan) | YEARLY \<Rightarrow> plan_priceYearly plan)"

definition pending_payment :: "uuid \<Rightarrow> date \<Rightarrow> int \<Rightarrow> enterprise \<Rightarrow> uuid \<Rightarrow> int \<Rightarrow> create_pending_payment_input \<Rightarrow> payment" where
  "pending_payment newId now expiry enterprise subscriptionId amount input =
     \<lparr>payment_id = newId, payment_enterpriseId = ent_id enterprise, payment_subscriptionId = Some subscriptionId,
      payment_invoiceId = None, payment_provider = cpp_provider input,
      payment_providerReference = Some (cpp_providerReference input), payment_amount = amount,
      payment_currency = ent_currency enterprise, payment_status = Pay_PENDING, payment_paidAt = None,
      payment_conflictingEvent = None, payment_expiresAt = Some (now + expiry), payment_createdAt = now\<rparr>"

definition createPendingPayment ::
    "uuid \<Rightarrow> date \<Rightarrow> int \<Rightarrow> uuid \<Rightarrow> create_pending_payment_input \<Rightarrow> uuid \<Rightarrow> db \<Rightarrow> (exn + uuid) \<times> db" where
  "createPendingPayment newId now expiry enterpriseId input actorUserId s =
     (case findEnterpriseWithCurrentSubscription enterpriseId s of
        Inl e \<Rightarrow> (Inl e, s)
      | Inr found \<Rightarrow> (case Option.bind found (\<lambda>(enterprise, sub). map_option (Pair enterprise) sub) of
          None \<Rightarrow> (Inl (NotFoundException ''Aucun abonnement actif pour cette entreprise''), s)
        | Some (enterprise, subscription, plan) \<Rightarrow> (case plan_price (cpp_billingPeriod input) plan of
            None \<Rightarrow> (Inl (ConflictException ''Ce plan ne propose pas de facturation annuelle''), s)
          | Some amount \<Rightarrow> (case commit_txn (payment_insert
                (pending_payment newId now expiry enterprise (subscription_id subscription) amount input)) s of
              (Inl e, s') \<Rightarrow> (Inl e, s')
            | (Inr payment, s') \<Rightarrow> (Inr (payment_id payment),
                auditLog_record (audit_entry actorUserId enterpriseId PAYMENT ''Payment'' (payment_id payment)) s')))))"

section \<open>The books\<close>

text \<open>
  The contract of the billing: a payment that succeeded has exactly one invoice, for its amount,
  split into the part without tax and the tax; any other payment has none.
\<close>

definition invoices_for :: "uuid \<Rightarrow> db \<Rightarrow> invoice list" where
  "invoices_for i s = filter (\<lambda>r. invoice_paymentId r = Some i) (invoices s)"

definition bills :: "invoice \<Rightarrow> payment \<Rightarrow> bool" where
  "bills r p \<longleftrightarrow> invoice_amount r = payment_amount p \<and>
     invoice_amountExcludingTax r + invoice_vatAmount r = payment_amount p \<and>
     invoice_enterpriseId r = payment_enterpriseId p \<and> payment_invoiceId p = Some (invoice_id r) \<and>
     invoice_status r = Inv_PAID"

definition payment_billed :: "db \<Rightarrow> payment \<Rightarrow> bool" where
  "payment_billed s p \<longleftrightarrow> (if payment_status p = Pay_SUCCEEDED
     then \<exists>r. invoices_for (payment_id p) s = [r] \<and> bills r p else invoices_for (payment_id p) s = [])"

definition billing_ok :: "db \<Rightarrow> bool" where
  "billing_ok s \<longleftrightarrow> distinct (map payment_id (payments s)) \<and>
     unique_key payment_provider payment_providerReference (payments s) \<and> (\<forall>p\<in>set (payments s). payment_billed s p) \<and>
     (\<forall>i. i \<notin> payment_id ` set (payments s) \<longrightarrow> invoices_for i s = [])"

text \<open>What a payment keeps for ever, and what it keeps once it is resolved.\<close>

definition payment_core :: "payment \<Rightarrow> payment" where
  "payment_core p = p\<lparr>payment_conflictingEvent := None\<rparr>"

definition payment_terms :: "payment \<Rightarrow> uuid \<times> uuid option \<times> payment_provider \<times> string option \<times> int \<times> string" where
  "payment_terms p = (payment_enterpriseId p, payment_subscriptionId p, payment_provider p, payment_providerReference p,
     payment_amount p, payment_currency p)"

definition payment_step :: "db \<Rightarrow> db \<Rightarrow> bool" where
  "payment_step s s' \<longleftrightarrow> (\<forall>i p. find_by payment_id i (payments s) = Some p \<longrightarrow>
     (\<exists>p'. find_by payment_id i (payments s') = Some p' \<and> payment_terms p' = payment_terms p \<and>
        (payment_status p \<noteq> Pay_PENDING \<longrightarrow> payment_core p' = payment_core p)))"

text \<open>The invoices are only ever extended, each time with the next number of its enterprise.\<close>

inductive issue_step :: "db \<Rightarrow> db \<Rightarrow> bool" where
  quiet: "invoices s' = invoices s \<Longrightarrow> invoiceCounters s' = invoiceCounters s \<Longrightarrow> issue_step s s'"
| issue: "invoice_enterpriseId row = e \<Longrightarrow>
    invoice_number row = document_number ''INV'' e (next_number (invoiceCounters s) e) \<Longrightarrow>
    invoices s' = invoices s @ [row] \<Longrightarrow>
    invoiceCounters s' = (invoiceCounters s)(e \<mapsto> next_number (invoiceCounters s) e) \<Longrightarrow> issue_step s s'"

definition numbered_steps :: "db \<Rightarrow> db \<Rightarrow> bool" where
  "numbered_steps = issue_step\<^sup>*\<^sup>*"

definition books_step :: "db \<Rightarrow> db \<Rightarrow> bool" where
  "books_step s s' \<longleftrightarrow> billing_ok s' \<and> payment_step s s' \<and> status_step s s' \<and> numbered_steps s s'"

lemma numbered_steps_refl [simp, intro]: "numbered_steps s s"
  by (simp add: numbered_steps_def)

lemma numbered_steps_trans: "numbered_steps s s' \<Longrightarrow> numbered_steps s' s'' \<Longrightarrow> numbered_steps s s''"
  unfolding numbered_steps_def by (rule rtranclp_trans)

lemma numbered_steps_quiet:
  "invoices s' = invoices s \<Longrightarrow> invoiceCounters s' = invoiceCounters s \<Longrightarrow> numbered_steps s s'"
  unfolding numbered_steps_def by (rule r_into_rtranclp, rule issue_step.quiet)

lemma numbered_steps_issue: "issue_step s s' \<Longrightarrow> numbered_steps s s'"
  unfolding numbered_steps_def by (rule r_into_rtranclp)

lemma payment_core_status: "payment_core p' = payment_core p \<Longrightarrow> payment_status p' = payment_status p"
  by (drule arg_cong[where f = payment_status]) (simp add: payment_core_def)

lemma payment_step_refl [simp, intro]: "payment_step s s"
  by (simp add: payment_step_def)

lemma payment_step_same: "payments s' = payments s \<Longrightarrow> payment_step s s'"
  by (simp add: payment_step_def)

lemma payment_step_trans: "payment_step s s' \<Longrightarrow> payment_step s' s'' \<Longrightarrow> payment_step s s''"
proof (unfold payment_step_def, intro allI impI)
  fix i p
  assume 1: "\<forall>i p. find_by payment_id i (payments s) = Some p \<longrightarrow>
      (\<exists>p'. find_by payment_id i (payments s') = Some p' \<and> payment_terms p' = payment_terms p \<and>
        (payment_status p \<noteq> Pay_PENDING \<longrightarrow> payment_core p' = payment_core p))"
    and 2: "\<forall>i p. find_by payment_id i (payments s') = Some p \<longrightarrow>
      (\<exists>p'. find_by payment_id i (payments s'') = Some p' \<and> payment_terms p' = payment_terms p \<and>
        (payment_status p \<noteq> Pay_PENDING \<longrightarrow> payment_core p' = payment_core p))"
    and p: "find_by payment_id i (payments s) = Some p"
  from 1 p obtain q where q: "find_by payment_id i (payments s') = Some q" "payment_terms q = payment_terms p"
      "payment_status p \<noteq> Pay_PENDING \<longrightarrow> payment_core q = payment_core p" by blast
  from 2 q(1) obtain r where r: "find_by payment_id i (payments s'') = Some r" "payment_terms r = payment_terms q"
      "payment_status q \<noteq> Pay_PENDING \<longrightarrow> payment_core r = payment_core q" by blast
  have "payment_core r = payment_core p" if "payment_status p \<noteq> Pay_PENDING"
    using that q(3) r(3) payment_core_status[of q p] by simp
  with q r show "\<exists>p'. find_by payment_id i (payments s'') = Some p' \<and> payment_terms p' = payment_terms p \<and>
      (payment_status p \<noteq> Pay_PENDING \<longrightarrow> payment_core p' = payment_core p)" by simp
qed

lemma books_step_refl: "billing_ok s \<Longrightarrow> books_step s s"
  by (simp add: books_step_def)

lemma books_step_trans: "books_step s s' \<Longrightarrow> books_step s' s'' \<Longrightarrow> books_step s s''"
  unfolding books_step_def using payment_step_trans status_step_trans numbered_steps_trans by blast

lemma billing_ok_same:
  "payments s' = payments s \<Longrightarrow> invoices s' = invoices s \<Longrightarrow> billing_ok s' = billing_ok s"
  by (simp add: billing_ok_def payment_billed_def invoices_for_def)

lemma books_step_same:
  assumes "billing_ok s" and "payments s' = payments s" and "invoices s' = invoices s" and "subscriptions s' = subscriptions s"
    and "invoiceCounters s' = invoiceCounters s"
  shows "books_step s s'"
  using assms billing_ok_same[OF assms(2,3)] payment_step_same[OF assms(2)] status_step_same[OF assms(4)]
    numbered_steps_quiet[OF assms(3,5)]
  by (simp add: books_step_def)

lemma books_step_audit [intro]: "billing_ok s \<Longrightarrow> books_step s (auditLog_record a s)"
  by (rule books_step_same) (simp_all add: auditLog_record_def)

lemmas audit_defs = auditLog_record_def auditRejection_def

lemma books_step_rejection [intro]: "billing_ok s \<Longrightarrow> books_step s (auditRejection reason p s)"
  unfolding auditRejection_def by (rule books_step_audit)

text \<open>Replacing the row of one payment.\<close>

lemma set_update_by:
  "distinct (map key rows) \<Longrightarrow> find_by key k rows = Some r \<Longrightarrow>
   set (update_by key k f rows) = insert (f r) {x \<in> set rows. key x \<noteq> k}"
proof (induction rows)
  case (Cons x rows)
  show ?case
  proof (cases "key x = k")
    case True
    then have n: "k \<notin> key ` set rows" using Cons.prems by auto
    then have "update_by key k f rows = rows" by (intro update_by_missing) (simp add: find_by_None_iff)
    with True Cons.prems n show ?thesis by (auto intro: rev_image_eqI)
  next
    case False
    with Cons show ?thesis by auto
  qed
qed simp

lemma billing_ok_update:
  assumes ok: "billing_ok s" and p: "find_by payment_id i (payments s) = Some p"
    and f: "\<And>q. payment_id (f q) = payment_id q" and s': "payments s' = update_by payment_id i f (payments s)"
    and ref: "\<And>q. payment_provider (f q) = payment_provider q" "\<And>q. payment_providerReference (f q) = payment_providerReference q"
    and other: "\<And>j. j \<noteq> i \<Longrightarrow> invoices_for j s' = invoices_for j s" and new: "payment_billed s' (f p)"
  shows "billing_ok s'"
proof -
  have d: "distinct (map payment_id (payments s))" using ok by (simp add: billing_ok_def)
  have ids: "map payment_id (payments s') = map payment_id (payments s)" unfolding s' by (rule map_update_by) (rule f)
  have "payment_billed s' q" if "q \<in> set (payments s')" for q
  proof (cases "payment_id q = i")
    case True
    then show ?thesis using that new f find_by_SomeD[OF p] unfolding s' set_update_by[OF d p] by auto
  next
    case False
    then have "q \<in> set (payments s)" using that f find_by_SomeD[OF p] unfolding s' set_update_by[OF d p] by auto
    with ok False show ?thesis by (simp add: billing_ok_def payment_billed_def other)
  qed
  moreover have "invoices_for j s' = []" if "j \<notin> payment_id ` set (payments s')" for j
  proof -
    have "payment_id ` set (payments s') = payment_id ` set (payments s)" using ids by (metis list.set_map)
    with that find_by_SomeD[OF p] have j: "j \<noteq> i" "j \<notin> payment_id ` set (payments s)" by auto
    then show ?thesis using ok by (simp add: billing_ok_def other)
  qed
  moreover have "unique_key payment_provider payment_providerReference (payments s')"
    using ok by (simp add: s' unique_key_update_by ref billing_ok_def)
  ultimately show ?thesis using d ids by (simp add: billing_ok_def)
qed

lemma payment_step_update:
  assumes "find_by payment_id i (payments s) = Some p" and "\<And>q. payment_id (f q) = payment_id q"
    and "payments s' = update_by payment_id i f (payments s)" and "payment_terms (f p) = payment_terms p"
    and "payment_status p \<noteq> Pay_PENDING \<longrightarrow> payment_core (f p) = payment_core p"
  shows "payment_step s s'"
  using assms by (auto simp: payment_step_def find_by_update_by)

section \<open>Compare and swap\<close>

lemma map_cas_update_by:
  assumes "distinct (map payment_id rows)"
  shows "map (\<lambda>p. if payment_id p = i \<and> payment_status p = Pay_PENDING then f p else p) rows =
     (case find_by payment_id i rows of None \<Rightarrow> rows
      | Some p \<Rightarrow> if payment_status p = Pay_PENDING then update_by payment_id i f rows else rows)"
  using assms
proof (induction rows)
  case (Cons r rows)
  have tail: "map (\<lambda>p. if payment_id p = i \<and> payment_status p = Pay_PENDING then f p else p) rows = rows"
    if "find_by payment_id i rows = None"
    using that by (intro map_idI) (auto simp: find_by_None_iff)
  show ?case
  proof (cases "payment_id r = i")
    case True
    then have "find_by payment_id i rows = None" using Cons.prems by (simp add: find_by_None_iff)
    with True tail show ?thesis by (simp add: update_by_missing)
  next
    case False
    with Cons show ?thesis by (simp split: option.splits)
  qed
qed simp

lemma length_cas:
  assumes "distinct (map payment_id rows)"
  shows "length (filter (\<lambda>p. payment_id p = i \<and> payment_status p = Pay_PENDING) rows) =
     (case find_by payment_id i rows of Some p \<Rightarrow> if payment_status p = Pay_PENDING then 1 else 0 | None \<Rightarrow> 0)"
  using assms
proof (induction rows)
  case (Cons r rows)
  show ?case
  proof (cases "payment_id r = i")
    case True
    then have "find_by payment_id i rows = None" using Cons.prems by (simp add: find_by_None_iff)
    with True Cons show ?thesis by simp
  next
    case False
    with Cons show ?thesis by (simp split: option.splits)
  qed
qed simp

lemma payment_cas_eq:
  assumes "distinct (map payment_id (payments s))"
  shows "payment_cas i f s = (case find_by payment_id i (payments s) of None \<Rightarrow> (0, s)
    | Some p \<Rightarrow> if payment_status p = Pay_PENDING
        then (1, s\<lparr>payments := update_by payment_id i f (payments s)\<rparr>) else (0, s))"
  unfolding payment_cas_def Let_def map_cas_update_by[OF assms] length_cas[OF assms]
  by (simp split: option.splits)

lemma expire_books:
  assumes "billing_ok s" and "payment_cas i expire_payment s = (n, s')"
  shows "books_step s s'"
proof -
  have d: "distinct (map payment_id (payments s))" using assms(1) by (simp add: billing_ok_def)
  show ?thesis
  proof (cases "s' = s")
    case True
    then show ?thesis using assms(1) by (simp add: books_step_refl)
  next
    case False
    then obtain p where p: "find_by payment_id i (payments s) = Some p" "payment_status p = Pay_PENDING"
      and s': "s' = s\<lparr>payments := update_by payment_id i expire_payment (payments s)\<rparr>"
      using assms(2) unfolding payment_cas_eq[OF d] by (auto split: option.splits if_splits)
    have "payment_billed s p" using assms(1) find_by_SomeD[OF p(1)] by (simp add: billing_ok_def)
    then have billed: "payment_billed s' (expire_payment p)"
      using p(2) unfolding s' by (simp add: payment_billed_def expire_payment_def invoices_for_def)
    have pay: "payments s' = update_by payment_id i expire_payment (payments s)" by (simp add: s')
    have id: "payment_id (expire_payment q) = payment_id q" for q by (simp add: expire_payment_def)
    have "billing_ok s'"
      by (rule billing_ok_update[OF assms(1) p(1) id pay _ _ _ billed]) (simp_all add: s' invoices_for_def expire_payment_def)
    moreover have "payment_step s s'"
      by (rule payment_step_update[OF p(1) id pay]) (simp_all add: p(2) expire_payment_def payment_terms_def)
    ultimately show ?thesis by (simp add: books_step_def s' status_step_same numbered_steps_quiet)
  qed
qed

section \<open>The transaction keeps the books\<close>

lemma move_subscription_InrD:
  assumes "move_subscription now grace st sub s = Inr (sub2, s')"
    and sub: "find_by subscription_id i (subscriptions s) = Some sub"
  shows "\<exists>subs evs. s' = s\<lparr>subscriptions := subs, subscriptionEvents := evs\<rparr>" and "status_step s s'"
    and "find_by subscription_id i (subscriptions s') = Some sub2"
proof -
  let ?t = "webhook_target st (subscription_status sub)"
  have i: "subscription_id sub = i" using find_by_SomeD[OF sub] by simp
  define f where "f = (\<lambda>r. r\<lparr>subscription_renewalDate := Some (now + grace)\<rparr> :: subscription)"
  define g where "g = (\<lambda>r. r\<lparr>subscription_status := the ?t, subscription_renewalDate :=
     (if the ?t = Sub_PAST_DUE then Some (now + grace) else subscription_renewalDate sub)\<rparr> :: subscription)"
  have fg: "subscription_id (f r) = subscription_id r" "subscription_enterpriseId (f r) = subscription_enterpriseId r"
    "subscription_status (f r) = subscription_status r" "subscription_id (g r) = subscription_id r"
    "subscription_enterpriseId (g r) = subscription_enterpriseId r" "subscription_status (g r) = the ?t" for r
    by (simp_all add: f_def g_def)
  have upd: "subscription_update i h s = Inr (h sub, s\<lparr>subscriptions := update_by subscription_id i h (subscriptions s)\<rparr>)" for h
    using sub by (simp add: subscription_update_def)
  note run = assms(1)[unfolded move_subscription_def Let_def i f_def[symmetric] g_def[symmetric] upd]
  have "(\<exists>subs evs. s' = s\<lparr>subscriptions := subs, subscriptionEvents := evs\<rparr>) \<and> status_step s s' \<and>
      find_by subscription_id i (subscriptions s') = Some sub2"
  proof (cases "?t \<noteq> None \<and> subscription_status sub \<noteq> the ?t")
    case True
    then have allowed: "canTransitionSubscription (subscription_status sub) (the ?t)"
      using run by (auto simp: assertSubscriptionTransition_def split: if_splits)
    define h where "h = update_by subscription_id i g (subscriptions s)"
    have "\<exists>evs. s' = s\<lparr>subscriptions := h, subscriptionEvents := evs\<rparr> \<and> sub2 = g sub"
      using run True allowed
      by (auto simp: assertSubscriptionTransition_def createSubscriptionEvent_def h_def) (simp_all add: g_def)
    then obtain evs where s': "s' = s\<lparr>subscriptions := h, subscriptionEvents := evs\<rparr>" and r: "sub2 = g sub" by blast
    have "status_step s s'" unfolding status_step_def s' h_def
      using allowed sub by (auto simp: find_by_update_by fg allowed_path_def)
    moreover have "find_by subscription_id i (subscriptions s') = Some sub2"
      unfolding s' r h_def using sub by (simp add: find_by_update_by fg)
    ultimately show ?thesis using s' by blast
  next
    case no: False
    show ?thesis
    proof (cases "?t = Some Sub_PAST_DUE")
      case True
      define h where "h = update_by subscription_id i f (subscriptions s)"
      have e: "f sub = sub2" "s\<lparr>subscriptions := h\<rparr> = s'" using run no True by (simp_all add: h_def)
      have s': "s' = s\<lparr>subscriptions := h, subscriptionEvents := subscriptionEvents s\<rparr>" and r: "sub2 = f sub"
        by (simp_all add: e[symmetric])
      have "status_step s s'" unfolding status_step_def s' h_def by (auto simp: find_by_update_by fg allowed_path_def)
      moreover have "find_by subscription_id i (subscriptions s') = Some sub2"
        unfolding s' r h_def using sub by (simp add: find_by_update_by fg)
      ultimately show ?thesis using s' by blast
    next
      case False
      with run no have s': "s' = s" and r: "sub2 = sub" by (simp_all split: if_splits)
      have "s' = s\<lparr>subscriptions := subscriptions s, subscriptionEvents := subscriptionEvents s\<rparr>" by (simp add: s')
      moreover have "status_step s s'" "find_by subscription_id i (subscriptions s') = Some sub2" using sub by (simp_all add: s' r)
      ultimately show ?thesis by blast
    qed
  qed
  then show "\<exists>subs evs. s' = s\<lparr>subscriptions := subs, subscriptionEvents := evs\<rparr>" and "status_step s s'"
    and "find_by subscription_id i (subscriptions s') = Some sub2" by simp_all
qed

lemma generateForPayment_InrD:
  assumes "generateForPayment newId now ent subId p s = Inr (row, s')"
  shows "row = platform_invoice newId now ent subId p (next_number (invoiceCounters s) (ent_id ent))"
    and "s' = s\<lparr>invoiceCounters := (invoiceCounters s)(ent_id ent \<mapsto> next_number (invoiceCounters s) (ent_id ent)),
       invoices := invoices s @ [row],
       payments := update_by payment_id (payment_id p) (\<lambda>q. q\<lparr>payment_invoiceId := Some newId\<rparr>) (payments s)\<rparr>"
  using assms by (auto simp: generateForPayment_def bump_invoiceCounter_def invoice_insert_def Let_def platform_invoice_def
      split: if_splits option.splits)

text \<open>The transaction on a payment that is still pending.\<close>

lemma webhook_tx_pending:
  assumes d: "distinct (map payment_id (payments s))"
    and q: "find_by payment_id (payment_id p) (payments s) = Some q" "payment_status q = Pay_PENDING"
    and s1_def: "s1 = s\<lparr>payments := update_by payment_id (payment_id p) (resolve_payment (clock 2) (evt_status ev)) (payments s)\<rparr>"
  shows "webhook_tx clock grace newId p subId ev s =
    (case find_by subscription_id subId (subscriptions s) of None \<Rightarrow> Inl (PrismaKnown P2025)
     | Some sub \<Rightarrow> (case find_by ent_id (payment_enterpriseId p) (enterprises s) of None \<Rightarrow> Inl (PrismaKnown P2025)
     | Some ent \<Rightarrow> (case move_subscription (clock 3) grace (evt_status ev) sub s1 of Inl e \<Rightarrow> Inl e
     | Inr (sub2, s2) \<Rightarrow> if evt_status ev = Evt_SUCCEEDED
         then (case generateForPayment newId (clock 4) ent (subscription_id sub) (resolve_payment (clock 2) (evt_status ev) q) s2 of
             Inl e \<Rightarrow> Inl e | Inr (_, s3) \<Rightarrow> Inr (Some sub2, s3))
         else Inr (Some sub2, s2))))"
proof -
  have id: "payment_id (resolve_payment a b q) = payment_id q" for a b q by (simp add: resolve_payment_def)
  have f: "find_by payment_id (payment_id p) (payments s1) = Some (resolve_payment (clock 2) (evt_status ev) q)"
    unfolding s1_def using q by (simp add: find_by_update_by id)
  have same: "subscriptions s1 = subscriptions s" "enterprises s1 = enterprises s" by (simp_all add: s1_def)
  show ?thesis
    unfolding webhook_tx_def payment_cas_eq[OF d]
    using q by (simp add: s1_def[symmetric] f same cong: option.case_cong)
qed

text \<open>The shapes of a committed transaction.\<close>

lemma webhook_tx_InrE:
  assumes "webhook_tx clock grace newId p subId ev s = Inr (r, s')" and d: "distinct (map payment_id (payments s))"
  obtains (lost) "r = None" "s' = s"
  | (failed) q sub sub2 ent s1 where "evt_status ev = Evt_FAILED" "r = Some sub2"
      "find_by payment_id (payment_id p) (payments s) = Some q" "payment_status q = Pay_PENDING"
      "find_by subscription_id subId (subscriptions s) = Some sub" "find_by ent_id (payment_enterpriseId p) (enterprises s) = Some ent"
      "s1 = s\<lparr>payments := update_by payment_id (payment_id p) (resolve_payment (clock 2) (evt_status ev)) (payments s)\<rparr>"
      "move_subscription (clock 3) grace (evt_status ev) sub s1 = Inr (sub2, s')"
  | (paid) q sub sub2 ent row s1 s2 where "evt_status ev = Evt_SUCCEEDED" "r = Some sub2"
      "find_by payment_id (payment_id p) (payments s) = Some q" "payment_status q = Pay_PENDING"
      "find_by subscription_id subId (subscriptions s) = Some sub" "find_by ent_id (payment_enterpriseId p) (enterprises s) = Some ent"
      "s1 = s\<lparr>payments := update_by payment_id (payment_id p) (resolve_payment (clock 2) (evt_status ev)) (payments s)\<rparr>"
      "move_subscription (clock 3) grace (evt_status ev) sub s1 = Inr (sub2, s2)"
      "generateForPayment newId (clock 4) ent (subscription_id sub) (resolve_payment (clock 2) (evt_status ev) q) s2 = Inr (row, s')"
proof -
  note cas = payment_cas_eq[OF d, of "payment_id p" "resolve_payment (clock 2) (evt_status ev)"]
  show thesis
  proof (cases "find_by payment_id (payment_id p) (payments s)")
    case None
    then show ?thesis using assms(1) lost unfolding webhook_tx_def cas by simp
  next
    case (Some q)
    show ?thesis
    proof (cases "payment_status q = Pay_PENDING")
      case False
      then show ?thesis using assms(1) lost Some unfolding webhook_tx_def cas by simp
    next
      case True
      define s1 where "s1 = s\<lparr>payments := update_by payment_id (payment_id p) (resolve_payment (clock 2) (evt_status ev)) (payments s)\<rparr>"
      note eq = webhook_tx_pending[where clock = clock and ev = ev, OF d Some True s1_def]
      from assms(1) obtain sub ent sub2 s2 where
        1: "find_by subscription_id subId (subscriptions s) = Some sub" "find_by ent_id (payment_enterpriseId p) (enterprises s) = Some ent"
          "move_subscription (clock 3) grace (evt_status ev) sub s1 = Inr (sub2, s2)"
        and 2: "(if evt_status ev = Evt_SUCCEEDED
             then (case generateForPayment newId (clock 4) ent (subscription_id sub) (resolve_payment (clock 2) (evt_status ev) q) s2 of
                 Inl e \<Rightarrow> Inl e | Inr (_, s3) \<Rightarrow> Inr (Some sub2, s3))
             else Inr (Some sub2, s2)) = (Inr (r, s') :: exn + subscription option \<times> db)"
        unfolding eq by (auto split: option.splits sum.splits)
      show ?thesis
      proof (cases "evt_status ev")
        case Evt_FAILED
        with 2 have "r = Some sub2" "s2 = s'" by simp_all
        with Evt_FAILED 1 show ?thesis by (intro failed[OF Evt_FAILED _ Some True 1(1,2) s1_def]) simp_all
      next
        case Evt_SUCCEEDED
        with 2 obtain row where "generateForPayment newId (clock 4) ent (subscription_id sub) (resolve_payment (clock 2) (evt_status ev) q) s2 = Inr (row, s')"
          "r = Some sub2" by (auto split: sum.splits)
        then show ?thesis by (intro paid[OF Evt_SUCCEEDED _ Some True 1(1,2) s1_def 1(3)])
      qed
    qed
  qed
qed

text \<open>What the transaction does to the books.\<close>

lemma update_by_twice:
  assumes "\<And>r. key (f r) = key r"
  shows "update_by key k g (update_by key k f rows) = update_by key k (\<lambda>r. g (f r)) rows"
  using assms by (induction rows) auto

lemma platform_invoice_simps [simp]:
  "invoice_paymentId (platform_invoice i now ent b p n) = Some (payment_id p)"
  "invoice_amount (platform_invoice i now ent b p n) = payment_amount p"
  "invoice_amountExcludingTax (platform_invoice i now ent b p n) = amountExcludingTax (payment_amount p)"
  "invoice_vatAmount (platform_invoice i now ent b p n) = vatAmount (payment_amount p)"
  "invoice_enterpriseId (platform_invoice i now ent b p n) = ent_id ent"
  "invoice_id (platform_invoice i now ent b p n) = i"
  "invoice_status (platform_invoice i now ent b p n) = Inv_PAID"
  "invoice_number (platform_invoice i now ent b p n) = document_number ''INV'' (ent_id ent) n"
  by (simp_all add: platform_invoice_def)

lemma resolve_payment_simps [simp]:
  "payment_id (resolve_payment now st q) = payment_id q" "payment_amount (resolve_payment now st q) = payment_amount q"
  "payment_status (resolve_payment now st q) = as_payment_status st"
  "payment_terms (resolve_payment now st q) = payment_terms q"
  "payment_enterpriseId (resolve_payment now st q) = payment_enterpriseId q"
  by (simp_all add: resolve_payment_def payment_terms_def)

lemma webhook_tx_books:
  assumes ok: "billing_ok s" and run: "webhook_tx clock grace newId p subId ev s = Inr (r, s')"
    and own: "\<And>q. find_by payment_id (payment_id p) (payments s) = Some q \<Longrightarrow> payment_enterpriseId q = payment_enterpriseId p"
  shows "books_step s s'"
proof -
  have d: "distinct (map payment_id (payments s))" using ok by (simp add: billing_ok_def)
  let ?i = "payment_id p" and ?f = "resolve_payment (clock 2) (evt_status ev)"
  show ?thesis
    using run d
  proof (cases rule: webhook_tx_InrE)
    case lost
    then show ?thesis using ok by (simp add: books_step_refl)
  next
    case (failed q sub sub2 ent s1)
    have sub: "find_by subscription_id subId (subscriptions s1) = Some sub" using failed(5,7) by simp
    note m = move_subscription_InrD[OF failed(8) sub]
    obtain subs evs where s': "s' = s1\<lparr>subscriptions := subs, subscriptionEvents := evs\<rparr>" using m(1) by blast
    have pay: "payments s' = update_by payment_id ?i ?f (payments s)" and inv: "invoices s' = invoices s"
      by (simp_all add: s' failed(7))
    have "payment_billed s q" using ok find_by_SomeD[OF failed(3)] by (simp add: billing_ok_def)
    then have new: "payment_billed s' (?f q)"
      using failed(1,4) by (simp add: payment_billed_def invoices_for_def inv)
    have "billing_ok s'"
      by (rule billing_ok_update[OF ok failed(3) _ pay _ _ _ new]) (simp_all add: invoices_for_def inv resolve_payment_def)
    moreover have "payment_step s s'" by (rule payment_step_update[OF failed(3) _ pay]) (simp_all add: failed(4))
    moreover have "status_step s s'" using m(2) by (simp add: status_step_def failed(7))
    moreover have "numbered_steps s s'" by (rule numbered_steps_quiet) (simp_all add: s' failed(7))
    ultimately show ?thesis by (simp add: books_step_def)
  next
    case (paid q sub sub2 ent row s1 s2)
    have sub: "find_by subscription_id subId (subscriptions s1) = Some sub" using paid(5,7) by simp
    note m = move_subscription_InrD[OF paid(8) sub]
    obtain subs evs where s2: "s2 = s1\<lparr>subscriptions := subs, subscriptionEvents := evs\<rparr>" using m(1) by blast
    note g = generateForPayment_InrD[OF paid(9)]
    let ?h = "\<lambda>x. (?f x)\<lparr>payment_invoiceId := Some newId\<rparr>"
    have q: "payment_id q = ?i" using find_by_SomeD[OF paid(3)] by simp
    have pay: "payments s' = update_by payment_id ?i ?h (payments s)"
      by (simp add: g(2) s2 paid(7) q update_by_twice)
    have inv: "invoices s' = invoices s @ [row]" by (simp add: g(2) s2 paid(7))
    have "payment_billed s q" using ok find_by_SomeD[OF paid(3)] by (simp add: billing_ok_def)
    then have "invoices_for ?i s' = [row]" using paid(4) by (simp add: payment_billed_def invoices_for_def inv g(1) q)
    moreover have "ent_id ent = payment_enterpriseId q" using find_by_SomeD[OF paid(6)] own[OF paid(3)] by simp
    ultimately have new: "payment_billed s' (?h q)"
      using paid(1) q by (simp add: payment_billed_def bills_def g(1) vatAmount_def)
    have "billing_ok s'"
      by (rule billing_ok_update[OF ok paid(3) _ pay _ _ _ new]) (simp_all add: invoices_for_def inv g(1) q resolve_payment_def)
    moreover have "payment_step s s'"
      by (rule payment_step_update[OF paid(3) _ pay]) (simp_all add: paid(4) payment_terms_def resolve_payment_def)
    moreover have "status_step s s'"
    proof (rule status_step_trans)
      show "status_step s s2" using m(2) by (simp add: status_step_def paid(7))
      show "status_step s2 s'" by (rule status_step_same) (simp add: g(2))
    qed
    moreover have "numbered_steps s s'"
      by (rule numbered_steps_issue, rule issue_step.issue[of row "ent_id ent"]) (simp_all add: g s2 paid(7))
    ultimately show ?thesis by (simp add: books_step_def)
  qed
qed

section \<open>Requests under interference\<close>

text \<open>\<open>known p s\<close>: the payment that a request has read is still a row with the same terms.\<close>

definition known :: "payment \<Rightarrow> db \<Rightarrow> bool" where
  "known p s \<longleftrightarrow> (\<exists>q. find_by payment_id (payment_id p) (payments s) = Some q \<and> payment_terms q = payment_terms p)"

lemma known_step: "known p s \<Longrightarrow> books_step s s' \<Longrightarrow> known p s'"
proof -
  assume "known p s" and b: "books_step s s'"
  then obtain q where q: "find_by payment_id (payment_id p) (payments s) = Some q" "payment_terms q = payment_terms p"
    unfolding known_def by blast
  then obtain q' where "find_by payment_id (payment_id p) (payments s') = Some q'" "payment_terms q' = payment_terms q"
    using b unfolding books_step_def payment_step_def by blast
  with q(2) show "known p s'" unfolding known_def by simp
qed

lemma known_own:
  assumes "known p s" and "find_by payment_id (payment_id p) (payments s) = Some q"
  shows "payment_enterpriseId q = payment_enterpriseId p"
  using assms by (auto simp: known_def payment_terms_def)

lemma known_row: "billing_ok s \<Longrightarrow> p \<in> set (payments s) \<Longrightarrow> known p s"
  by (auto simp: known_def billing_ok_def find_by_distinct)

definition books_rely :: "('i \<Rightarrow> platform \<Rightarrow> platform) \<Rightarrow> bool" where
  "books_rely others \<longleftrightarrow> (\<forall>i w. billing_ok (pf_db w) \<longrightarrow> books_step (pf_db w) (pf_db (others i w)))"

lemma books_step_ok: "books_step s s' \<Longrightarrow> billing_ok s'"
  by (simp add: books_step_def)

lemma books_relyD: "books_rely others \<Longrightarrow> billing_ok (pf_db w) \<Longrightarrow> books_step (pf_db w) (pf_db (others i w))"
  by (simp add: books_rely_def)

lemma webhook_expiry_books:
  assumes R: "books_rely others" and ok: "billing_ok (pf_db w)" and k: "known p (pf_db w)"
    and run: "webhook_expiry clock others p w = (r, w')"
  shows "books_step (pf_db w) (pf_db w') \<and> (\<forall>q. r = Inr q \<longrightarrow> known q (pf_db w') \<and> payment_terms q = payment_terms p)"
proof (cases "is_expired (clock 1) p")
  case False
  with run ok k show ?thesis by (auto simp: webhook_expiry_def books_step_refl)
next
  case True
  let ?w1 = "others 0 w"
  obtain n s1 where c: "payment_cas (payment_id p) expire_payment (pf_db ?w1) = (n, s1)" by fastforce
  have b1: "books_step (pf_db w) (pf_db ?w1)" by (rule books_relyD[OF R ok])
  have b2: "books_step (pf_db w) s1" using books_step_trans[OF b1 expire_books[OF books_step_ok[OF b1] c]] .
  show ?thesis
  proof (cases "n = 1")
    case True
    then show ?thesis using run b2 books_step_trans[OF b2 books_step_rejection[OF books_step_ok[OF b2]]] \<open>is_expired (clock 1) p\<close>
      by (auto simp: webhook_expiry_def c)
  next
    case False
    let ?w2 = "others 1 (?w1\<lparr>pf_db := s1\<rparr>)"
    have b3: "books_step (pf_db w) (pf_db ?w2)"
      using books_step_trans[OF b2] books_relyD[OF R, of "?w1\<lparr>pf_db := s1\<rparr>" 1] books_step_ok[OF b2] by simp
    have ok2: "billing_ok (pf_db ?w2)" by (rule books_step_ok[OF b3])
    obtain q where q: "find_by payment_id (payment_id p) (payments (pf_db ?w2)) = Some q" "payment_terms q = payment_terms p"
      using known_step[OF k b3] by (auto simp: known_def)
    then have "known q (pf_db ?w2)" using known_row[OF ok2] find_by_SomeD[OF q(1)] by blast
    with q b3 False run \<open>is_expired (clock 1) p\<close> show ?thesis by (auto simp: webhook_expiry_def c Let_def)
  qed
qed

lemma webhook_resolved_books:
  assumes R: "books_rely others" and ok: "billing_ok (pf_db w)"
  shows "books_step (pf_db w) (pf_db (snd (webhook_resolved others p ev w)))"
proof (cases "as_payment_status (evt_status ev) = payment_status p")
  case True
  then show ?thesis using ok by (simp add: webhook_resolved_def books_step_refl)
next
  case False
  let ?w1 = "others 2 w" and ?f = "\<lambda>q. q\<lparr>payment_conflictingEvent := Some (as_payment_status (evt_status ev))\<rparr>"
  have b1: "books_step (pf_db w) (pf_db ?w1)" by (rule books_relyD[OF R ok])
  have ok1: "billing_ok (pf_db ?w1)" by (rule books_step_ok[OF b1])
  show ?thesis
  proof (cases "find_by payment_id (payment_id p) (payments (pf_db ?w1))")
    case None
    then show ?thesis using b1 False by (simp add: webhook_resolved_def Let_def)
  next
    case (Some q)
    let ?s = "(pf_db ?w1)\<lparr>payments := update_by payment_id (payment_id p) ?f (payments (pf_db ?w1))\<rparr>"
    have new: "payment_billed ?s (?f q)" if "payment_billed (pf_db ?w1) q"
      using that by (simp add: payment_billed_def bills_def invoices_for_def split: if_splits)
    have "billing_ok ?s"
      by (rule billing_ok_update[where f = ?f, OF ok1 Some])
        (use ok1 find_by_SomeD[OF Some] new in \<open>simp_all add: invoices_for_def billing_ok_def\<close>)
    moreover have "payment_step (pf_db ?w1) ?s"
      by (rule payment_step_update[where f = ?f, OF Some]) (simp_all add: payment_terms_def payment_core_def)
    ultimately have b2: "books_step (pf_db ?w1) ?s" by (simp add: books_step_def status_step_same numbered_steps_quiet)
    then have b3: "books_step (pf_db w) ?s" by (rule books_step_trans[OF b1])
    show ?thesis
      using books_step_trans[OF b3 books_step_audit[OF books_step_ok[OF b3]]] False Some
      by (simp add: webhook_resolved_def on_db_def Let_def)
  qed
qed

lemma pf_db_notifications: "pf_db (w\<lparr>pf_notifications := ns\<rparr>) = pf_db w"
  by simp

lemma pf_db_notify [simp]: "pf_db (notifyEnterprise l e st sub w) = pf_db w"
  unfolding notifyEnterprise_def Let_def
  by (cases "first_active_user e (pf_db w)"; cases st)
    (simp_all only: option.case webhook_status.case pf_db_notifications)

lemma webhook_commit_books:
  assumes R: "books_rely others" and ok: "billing_ok (pf_db w)" and k: "known p (pf_db w)"
  shows "books_step (pf_db w) (pf_db (snd (webhook_commit l clock grace newId others p subId ev w)))"
proof -
  let ?w1 = "others 2 w" and ?t = "webhook_tx clock grace newId p subId ev"
  have b1: "books_step (pf_db w) (pf_db ?w1)" by (rule books_relyD[OF R ok])
  have ok1: "billing_ok (pf_db ?w1)" by (rule books_step_ok[OF b1])
  show ?thesis
  proof (cases "?t (pf_db ?w1)")
    case (Inl e)
    have c: "commit_txn ?t (pf_db ?w1) = (Inl e, pf_db ?w1)" using Inl by (simp add: commit_txn_def)
    show ?thesis
      using b1 books_step_trans[OF b1 books_step_rejection[OF ok1]] by (cases e) (simp_all add: webhook_commit_def c Let_def)
  next
    case (Inr z)
    obtain r s1 where z: "z = (r, s1)" by (cases z)
    have c: "commit_txn ?t (pf_db ?w1) = (Inr r, s1)" using Inr z by (simp add: commit_txn_def)
    have b2: "books_step (pf_db ?w1) s1"
      using webhook_tx_books[OF ok1 Inr[unfolded z]] known_own[OF known_step[OF k b1]] by blast
    have b3: "books_step (pf_db w) s1" by (rule books_step_trans[OF b1 b2])
    show ?thesis
    proof (cases r)
      case None
      then show ?thesis using b3 by (simp add: webhook_commit_def c Let_def)
    next
      case (Some sub)
      let ?w2 = "?w1\<lparr>pf_db := auditLog_record (payment_audit (Some (payment_enterpriseId p)) PAYMENT ''Payment''
          (Some (payment_id p)) None) s1, pf_cache := cache_invalidate (payment_enterpriseId p) (pf_cache ?w1)\<rparr>"
      have b4: "books_step (pf_db w) (pf_db ?w2)"
        using books_step_trans[OF b3 books_step_audit[OF books_step_ok[OF b3]]] by simp
      have "books_step (pf_db w) (pf_db (others 3 ?w2))"
        by (rule books_step_trans[OF b4 books_relyD[OF R books_step_ok[OF b4]]])
      then show ?thesis by (simp add: webhook_commit_def c Some Let_def)
    qed
  qed
qed

lemma webhook_handle_books:
  assumes R: "books_rely others" and ok: "billing_ok (pf_db w)"
  shows "books_step (pf_db w) (pf_db (snd (webhook_handle hmac json secrets tol l clock grace newId others adapters
     prov body sig ts w)))"
proof -
  have reject: "books_step (pf_db w) (pf_db (on_db (auditRejection reason p) w))" for reason p
    using ok by (auto simp: on_db_def)
  have event: "books_step (pf_db w) (pf_db (snd (webhook_event l clock grace newId others provider ev w)))" for provider ev
  proof (cases "findPaymentByReference provider (evt_providerReference ev) (pf_db w)")
    case None
    then show ?thesis using reject by (simp add: webhook_event_def)
  next
    case (Some p)
    then have k: "known p (pf_db w)" using known_row[OF ok] find_SomeD unfolding findPaymentByReference_def by fast
    obtain r w1 where e: "webhook_expiry clock others p w = (r, w1)" by fastforce
    note x = webhook_expiry_books[OF R ok k e]
    then have ok1: "billing_ok (pf_db w1)" by (blast dest: books_step_ok)
    show ?thesis
    proof (cases r)
      case (Inl err)
      then show ?thesis using x by (simp add: webhook_event_def Some e)
    next
      case (Inr q)
      with x have kq: "known q (pf_db w1)" by blast
      have rej1: "books_step (pf_db w1) (pf_db (on_db (auditRejection reason z) w1))" for reason z
        using ok1 by (auto simp: on_db_def)
      have "books_step (pf_db w1) (pf_db (snd (webhook_pending l clock grace newId others q ev w1)))"
        using rej1 webhook_commit_books[OF R ok1 kq] by (auto simp: webhook_pending_def split: option.splits)
      moreover have "books_step (pf_db w1) (pf_db (snd (webhook_resolved others q ev w1)))"
        by (rule webhook_resolved_books[OF R ok1])
      ultimately show ?thesis using x books_step_trans by (auto simp: webhook_event_def Some e Inr)
    qed
  qed
  show ?thesis
    using reject event books_step_refl[OF ok] by (auto simp: webhook_handle_def split: sum.splits)
qed

section \<open>The other requests\<close>

definition db_rely :: "(db \<Rightarrow> db) \<Rightarrow> bool" where
  "db_rely f \<longleftrightarrow> (\<forall>s. billing_ok s \<longrightarrow> books_step s (f s))"

lemma db_relyD: "db_rely f \<Longrightarrow> billing_ok s \<Longrightarrow> books_step s (f s)"
  by (simp add: db_rely_def)

lemma lifecycle_expire_books:
  assumes R: "\<And>j. db_rely (others j)" and ok: "billing_ok s"
  shows "books_step s (snd (lifecycle_expire fails others p s))"
proof -
  obtain n s1 where c: "payment_cas (payment_id p) expire_payment (others 0 s) = (n, s1)" by fastforce
  have b0: "books_step s (others 0 s)" by (rule db_relyD[OF R ok])
  have b1: "books_step s s1" by (rule books_step_trans[OF b0 expire_books[OF books_step_ok[OF b0] c]])
  have b2: "books_step s (others 1 s1)" by (rule books_step_trans[OF b1 db_relyD[OF R books_step_ok[OF b1]]])
  have b3: "books_step s (auditLog_record a (others 1 s1))" for a
    by (rule books_step_trans[OF b2 books_step_audit[OF books_step_ok[OF b2]]])
  show ?thesis using b0 b1 b2 b3 by (simp add: lifecycle_expire_def expirePendingPayment_def c Let_def)
qed

lemma lifecycle_expire_all_books:
  assumes R: "\<And>i j. db_rely (others i j)"
  shows "billing_ok s \<Longrightarrow> books_step s (snd (lifecycle_expire_all fails others i n batch s))"
proof (induction batch arbitrary: i n s)
  case Nil
  then show ?case by (simp add: books_step_refl)
next
  case (Cons p batch)
  obtain e s1 where c: "lifecycle_expire (fails i) (others i) p s = (e, s1)" by fastforce
  have "books_step s s1" using lifecycle_expire_books[of "others i" s "fails i" p] R Cons.prems c by simp
  with Cons.IH[OF books_step_ok] show ?case by (auto simp: c intro: books_step_trans)
qed

lemma createPendingPayment_books:
  assumes ok: "billing_ok s"
  shows "books_step s (snd (createPendingPayment newId now expiry e input actor s))"
proof -
  have new: "books_step s (s\<lparr>payments := payments s @ [row]\<rparr>)"
    if "payment_insert row s = Inr (p, s')" and "payment_status row = Pay_PENDING" for row p s'
  proof -
    let ?s = "s\<lparr>payments := payments s @ [row]\<rparr>"
    have f: "payment_id row \<notin> payment_id ` set (payments s)" using that(1) by (auto simp: payment_insert_def split: if_splits)
    with ok have "payment_billed ?s row" using that(2) by (simp add: billing_ok_def payment_billed_def invoices_for_def)
    moreover have "\<not> clashes_key payment_provider payment_providerReference row (payments s)"
      using that(1) by (auto simp: payment_insert_def clashes_key_def split: if_splits)
    ultimately have "billing_ok ?s"
      using ok f by (auto simp: billing_ok_def payment_billed_def invoices_for_def unique_key_append1)
    moreover have "payment_step s ?s" by (auto simp: payment_step_def)
    ultimately show ?thesis by (simp add: books_step_def status_step_same numbered_steps_quiet)
  qed
  have "books_step s (auditLog_record a (s\<lparr>payments := payments s @ [row]\<rparr>))"
    if "payment_insert row s = Inr (p, s')" and "payment_status row = Pay_PENDING" for row p s' a
    using new[OF that] books_step_trans books_step_audit[OF books_step_ok] by blast
  moreover have "payment_insert row s = Inr (p, s') \<Longrightarrow> s' = s\<lparr>payments := payments s @ [row]\<rparr>" for row p s'
    by (auto simp: payment_insert_def split: if_splits)
  moreover have "payment_status (pending_payment a b c d f g h) = Pay_PENDING" for a b c d f g h
    by (simp add: pending_payment_def)
  ultimately show ?thesis
    using books_step_refl[OF ok]
    by (auto simp: createPendingPayment_def commit_txn_def split: sum.splits option.splits)
qed

lemma lifecycle_transition_frame:
  assumes R: "\<And>j. db_rely (others j)" and ok: "billing_ok s"
  shows "books_step s (lifecycle_transition fails others sub to reason act s)"
proof (cases "canTransitionSubscription (subscription_status sub) to")
  case False
  then show ?thesis using ok by (simp add: lifecycle_transition_def assertSubscriptionTransition_def books_step_refl)
next
  case True
  let ?s0 = "others 0 s"
  obtain n s1 where c: "updateSubscriptionStatus (subscription_id sub) (subscription_status sub) to ?s0 = (n, s1)" by fastforce
  have b0: "books_step s ?s0" by (rule db_relyD[OF R ok])
  have same: "payments s1 = payments ?s0" "invoices s1 = invoices ?s0" "invoiceCounters s1 = invoiceCounters ?s0" using c by (auto simp: updateSubscriptionStatus_def Let_def)
  have "books_step ?s0 s1"
    using updateSubscriptionStatus_step[OF True, of ?s0 "subscription_id sub"] books_step_ok[OF b0]
      billing_ok_same[OF same(1,2)] payment_step_same[OF same(1)] numbered_steps_quiet[OF same(2,3)] c
    by (simp add: books_step_def)
  then have b1: "books_step s s1" by (rule books_step_trans[OF b0])
  have b2: "books_step s (others 1 s1)" by (rule books_step_trans[OF b1 db_relyD[OF R books_step_ok[OF b1]]])
  have "books_step (others 1 s1) (createSubscriptionEvent ev (others 1 s1))" for ev
    by (rule books_step_same[OF books_step_ok[OF b2]]) (simp_all add: createSubscriptionEvent_def)
  then have b3: "books_step s (others 2 (createSubscriptionEvent ev (others 1 s1)))" for ev
    using books_step_trans[OF b2] db_relyD[OF R books_step_ok] books_step_trans by blast
  have b4: "books_step s (auditLog_record a (others 2 (createSubscriptionEvent ev (others 1 s1))))" for a ev
    by (rule books_step_trans[OF b3 books_step_audit[OF books_step_ok[OF b3]]])
  show ?thesis using b0 b1 b2 b3 b4 True
    by (simp add: lifecycle_transition_def assertSubscriptionTransition_def c Let_def)
qed

lemma lifecycle_pass_books:
  assumes R: "\<And>i j. db_rely (others i j)"
  shows "billing_ok s \<Longrightarrow> books_step s (lifecycle_pass fails others i to reason act batch s)"
proof (induction batch arbitrary: i s)
  case Nil
  then show ?case by (simp add: books_step_refl)
next
  case (Cons sub batch)
  have "books_step s (lifecycle_transition (fails i) (others i) sub to reason act s)"
    by (rule lifecycle_transition_frame[OF R Cons.prems])
  with Cons.IH[OF books_step_ok] show ?case by (auto intro: books_step_trans)
qed

lemma lifecycle_run_books:
  assumes R: "\<And>i j. db_rely (others i j)" and ok: "billing_ok s"
  shows "books_step s (lifecycle_run fails others now now' s)"
  unfolding lifecycle_run_def expireTrials_def suspendOverdueGracePeriods_def Let_def snd_conv
  by (rule books_step_trans[OF lifecycle_pass_books[OF R ok] lifecycle_pass_books[OF R books_step_ok[OF lifecycle_pass_books[OF R ok]]]])

lemma changePlan_books:
  assumes R: "db_rely others" and ok: "billing_ok s"
  shows "books_step s (snd (snd (changePlan others e plan actor reason cache s)))"
proof -
  have b0: "books_step s (others s)" by (rule db_relyD[OF R ok])
  have b1: "books_step s s'"
    if u: "changeSubscriptionPlan i new st old why by (others s) = Inr (r, s')" for i new st old why "by" r s'
  proof -
    obtain row where row: "find_by subscription_id i (subscriptions (others s)) = Some row"
      and s': "subscriptions s' = update_by subscription_id i (\<lambda>r. r\<lparr>subscription_planId := new\<rparr>) (subscriptions (others s))"
        "payments s' = payments (others s)" "invoices s' = invoices (others s)" "invoiceCounters s' = invoiceCounters (others s)"
      using u by (auto simp: changeSubscriptionPlan_def subscription_update_def createSubscriptionEvent_def split: option.splits)
    have "status_step (others s) s'" unfolding status_step_def s'(1) by (auto simp: find_by_update_by allowed_path_def)
    then have "books_step (others s) s'"
      using books_step_ok[OF b0] billing_ok_same[OF s'(2,3)] payment_step_same[OF s'(2)] numbered_steps_quiet[OF s'(3,4)]
      by (simp add: books_step_def)
    then show ?thesis by (rule books_step_trans[OF b0])
  qed
  have b2: "books_step s (auditLog_record a s')"
    if "changeSubscriptionPlan i new st old why by (others s) = Inr (r, s')" for i new st old why "by" r s' a
    using b1[OF that] books_step_trans books_step_audit[OF books_step_ok] by blast
  show ?thesis
    using b0 b2 books_step_refl[OF ok]
    by (auto simp: changePlan_def commit_txn_def split: sum.splits option.splits prod.splits)
qed

section \<open>Interleavings\<close>

text \<open>
  Everything the platform can do to the billing, one request after another and inside another: the
  \<open>others\<close> of a request are again such requests.
\<close>

inductive billing_step :: "platform \<Rightarrow> platform \<Rightarrow> bool" and billing_steps :: "platform \<Rightarrow> platform \<Rightarrow> bool" where
  webhook: "(\<And>i w. billing_steps w (others i w)) \<Longrightarrow>
    billing_step w (snd (webhook_handle hmac json secrets tol l clock grace newId others adapters prov body sig ts w))"
| expire: "(\<And>i j w. billing_steps w (on_db (others i j) w)) \<Longrightarrow>
    billing_step w (on_db (\<lambda>s. snd (expirePendingPayments fails others now s)) w)"
| create: "billing_step w (on_db (\<lambda>s. snd (createPendingPayment newId now expiry e input actor s)) w)"
| lifecycle: "(\<And>i j w. billing_steps w (on_db (others i j) w)) \<Longrightarrow>
    billing_step w (on_db (lifecycle_run fails others now now') w)"
| changePlan: "(\<And>w. billing_steps w (on_db f w)) \<Longrightarrow>
    changePlan f e plan actor reason (pf_cache w) (pf_db w) = (r, cache', s') \<Longrightarrow>
    billing_step w (w\<lparr>pf_db := s', pf_cache := cache'\<rparr>)"
| none: "billing_steps w w"
| more: "billing_steps w w' \<Longrightarrow> billing_step w' w'' \<Longrightarrow> billing_steps w w''"

lemma rely_of_steps:
  assumes "\<And>w. billing_ok (pf_db w) \<longrightarrow> books_step (pf_db w) (pf_db (on_db f w))"
  shows "db_rely f"
  unfolding db_rely_def
proof (intro allI impI)
  fix s assume "billing_ok s"
  then show "books_step s (f s)" using assms[of "\<lparr>pf_db = s, pf_cache = [], pf_notifications = []\<rparr>"] by (simp add: on_db_def)
qed

lemma billing_steps_books:
  "(billing_step w w' \<longrightarrow> billing_ok (pf_db w) \<longrightarrow> books_step (pf_db w) (pf_db w'))"
  "(billing_steps w w' \<longrightarrow> billing_ok (pf_db w) \<longrightarrow> books_step (pf_db w) (pf_db w'))"
proof -
  have "(billing_step w w' \<longrightarrow> billing_ok (pf_db w) \<longrightarrow> books_step (pf_db w) (pf_db w')) \<and>
        (billing_steps w w' \<longrightarrow> billing_ok (pf_db w) \<longrightarrow> books_step (pf_db w) (pf_db w'))"
  proof (induction rule: billing_step_billing_steps.induct)
    case (webhook others w hmac json secrets tol l clock grace newId adapters prov body sig ts)
    then have "books_rely others" by (simp add: books_rely_def)
    then show ?case using webhook_handle_books by blast
  next
    case (expire others w fails now)
    then have "db_rely (others i j)" for i j by (intro rely_of_steps) blast
    then show ?case using lifecycle_expire_all_books by (auto simp: on_db_def expirePendingPayments_def)
  next
    case (create w newId now expiry e input actor)
    then show ?case using createPendingPayment_books by (simp add: on_db_def)
  next
    case (lifecycle others w fails now now')
    then have "db_rely (others i j)" for i j by (intro rely_of_steps) blast
    then show ?case using lifecycle_run_books by (auto simp: on_db_def)
  next
    case (changePlan f e plan actor reason w r cache' s')
    then have "db_rely f" by (intro rely_of_steps) blast
    from changePlan_books[OF this, of "pf_db w" e plan actor reason "pf_cache w"] changePlan(2) show ?case by simp
  next
    case none
    then show ?case by (simp add: books_step_refl)
  next
    case more
    then show ?case by (blast intro: books_step_trans dest: books_step_ok)
  qed
  then show "(billing_step w w' \<longrightarrow> billing_ok (pf_db w) \<longrightarrow> books_step (pf_db w) (pf_db w'))"
    "(billing_steps w w' \<longrightarrow> billing_ok (pf_db w) \<longrightarrow> books_step (pf_db w) (pf_db w'))" by blast+
qed

section \<open>Final states and numbering\<close>

interpretation settled_payments:
  settled_documents books_step "\<lambda>i s. map_option payment_core (find_by payment_id i (payments s))"
    "\<lambda>p. payment_status p \<noteq> Pay_PENDING"
proof unfold_locales
  fix s s' i d
  assume b: "books_step s s'" and d: "map_option payment_core (find_by payment_id i (payments s)) = Some d"
    and f: "payment_status d \<noteq> Pay_PENDING"
  from d obtain p where p: "find_by payment_id i (payments s) = Some p" "payment_core p = d" by auto
  then have "payment_status p \<noteq> Pay_PENDING" using f by (auto simp: payment_core_def)
  with b p show "map_option payment_core (find_by payment_id i (payments s')) = Some d"
    unfolding books_step_def payment_step_def by fastforce
qed

definition platform_invoice_numbers :: "uuid \<Rightarrow> db \<Rightarrow> string list" where
  "platform_invoice_numbers e s = map invoice_number (filter (\<lambda>r. invoice_enterpriseId r = e) (invoices s))"

definition last_platform_number :: "uuid \<Rightarrow> db \<Rightarrow> nat" where
  "last_platform_number e s = (case invoiceCounters s e of None \<Rightarrow> 0 | Some n \<Rightarrow> n)"

interpretation platform_numbering:
  gapless_numbering platform_invoice_numbers last_platform_number "document_number ''INV''" issue_step
proof unfold_locales
  fix s s' e assume "issue_step s s'"
  then show "platform_invoice_numbers e s' = platform_invoice_numbers e s \<and> last_platform_number e s' = last_platform_number e s \<or>
      platform_invoice_numbers e s' = platform_invoice_numbers e s @ [document_number ''INV'' e (Suc (last_platform_number e s))] \<and>
      last_platform_number e s' = Suc (last_platform_number e s)"
  proof cases
    case quiet
    then show ?thesis by (simp add: platform_invoice_numbers_def last_platform_number_def)
  next
    case (issue row e')
    then show ?thesis
      by (cases "e = e'") (simp_all add: platform_invoice_numbers_def last_platform_number_def next_number_def split: option.splits)
  qed
next
  fix e m n assume "document_number ''INV'' e m = document_number ''INV'' e n"
  then show "m = n" by (rule injD[OF inj_document_number])
qed

end
