(* ===== verification/Billing.thy ===== *)
theory Billing
  imports Payments
begin

text \<open>
  The properties of the billing: what the webhook, the two hourly jobs, the creation of payments and
  the changes of plan guarantee together, under every interleaving, and the exact behaviour of each.
\<close>

section \<open>A concrete platform\<close>

text \<open>One pending payment on the subscription of the fixtures; a toy signature scheme and body.\<close>

definition fx_payment :: payment where
  "fx_payment = \<lparr>payment_id = ''y1'', payment_enterpriseId = ''e1'', payment_subscriptionId = Some ''b1'',
     payment_invoiceId = None, payment_provider = WAVE, payment_providerReference = Some ''R1'', payment_amount = 11800,
     payment_currency = ''XOF'', payment_status = Pay_PENDING, payment_paidAt = None, payment_conflictingEvent = None,
     payment_expiresAt = Some 9000, payment_createdAt = 0\<rparr>"

definition fx_platform :: "subscription_status \<Rightarrow> platform" where
  "fx_platform st = \<lparr>pf_db = (fx_billing_db st ''PRO'')\<lparr>payments := [fx_payment]\<rparr>, pf_cache = [], pf_notifications = []\<rparr>"

definition fx_hmac :: "string \<Rightarrow> string \<Rightarrow> string" where
  "fx_hmac secret payload = secret @ payload"

definition fx_event :: "webhook_status \<Rightarrow> payment_webhook_event" where
  "fx_event st = \<lparr>evt_providerReference = ''R1'', evt_status = st, evt_amount = 11800, evt_currency = ''XOF''\<rparr>"

definition fx_json :: "string \<Rightarrow> json option" where
  "fx_json body = Some (JObject [(''reference'', JString ''R1''), (''status'', JString body), (''amount'', JNumber (Some 11800))])"

abbreviation fx_webhook :: "(nat \<Rightarrow> platform \<Rightarrow> platform) \<Rightarrow> string \<Rightarrow> platform \<Rightarrow> (exn + webhook_result) \<times> platform" where
  "fx_webhook others body \<equiv> webhook_handle fx_hmac fx_json (\<lambda>_. Some ''k'') 300 (\<lambda>_. ''d'') (\<lambda>_. 1000) 604800000 ''i1'' others []
     ''wave'' body (Some (''k1.'' @ body)) (Some ''1'')"

lemma fx_platform_ok: "billing_ok (pf_db (fx_platform st))"
  by (simp add: billing_ok_def fx_platform_def payment_billed_def invoices_for_def fx_payment_def fx_billing_db_def
      fx_db_def empty_db_def unique_key_def)

lemma fx_webhook_event:
  assumes "(body, st) \<in> {(''succeeded'', Evt_SUCCEEDED), (''failed'', Evt_FAILED)}"
  shows "fx_webhook others body w = webhook_event (\<lambda>_. ''d'') (\<lambda>_. 1000) 604800000 ''i1'' others WAVE (fx_event st) w"
proof -
  have r: "resolveProvider ''wave'' = Inr WAVE" by code_simp
  have g: "registry_get (\<lambda>_. Some ''k'') 300 WAVE [] =
      Inr (\<lparr>adapter_secret = ''k'', adapter_tolerance = 300\<rparr>, [(WAVE, \<lparr>adapter_secret = ''k'', adapter_tolerance = 300\<rparr>)])"
    by (simp add: registry_get_def Let_def)
  have v: "verifySignature fx_hmac 1000 \<lparr>adapter_secret = ''k'', adapter_tolerance = 300\<rparr> body (Some (''k1.'' @ body)) (Some ''1'')"
    by (simp add: verifySignature_def all_digits_def digits_value_def fx_hmac_def)
  have p: "parseEvent fx_json ''succeeded'' = Inr (fx_event Evt_SUCCEEDED)" "parseEvent fx_json ''failed'' = Inr (fx_event Evt_FAILED)"
    by code_simp+
  show ?thesis using assms p v by (auto simp: webhook_handle_def r g)
qed

section \<open>A pending payment\<close>

text \<open>The transaction on a pending payment, computed.\<close>

definition status_after :: "webhook_status \<Rightarrow> subscription_status \<Rightarrow> subscription_status" where
  "status_after st current = (case webhook_target st current of None \<Rightarrow> current | Some t \<Rightarrow> t)"

definition subscription_after :: "date \<Rightarrow> int \<Rightarrow> webhook_status \<Rightarrow> subscription \<Rightarrow> subscription" where
  "subscription_after now grace st sub = sub\<lparr>subscription_status := status_after st (subscription_status sub),
     subscription_renewalDate := (if status_after st (subscription_status sub) = Sub_PAST_DUE \<and> st = Evt_FAILED
       then Some (now + grace) else subscription_renewalDate sub)\<rparr>"

definition events_after :: "webhook_status \<Rightarrow> subscription \<Rightarrow> subscription_event list" where
  "events_after st sub = (if status_after st (subscription_status sub) = subscription_status sub then []
     else [\<lparr>event_subscriptionId = subscription_id sub, event_fromStatus = Some (subscription_status sub),
        event_toStatus = status_after st (subscription_status sub), event_fromPlanId = Some (subscription_planId sub),
        event_toPlanId = Some (subscription_planId sub),
        event_reason = Some (if st = Evt_SUCCEEDED then ''payment_succeeded'' else ''payment_failed''),
        event_triggeredByUserId = None\<rparr>])"

definition move_allowed :: "webhook_status \<Rightarrow> subscription_status \<Rightarrow> bool" where
  "move_allowed st current \<longleftrightarrow> status_after st current = current \<or> canTransitionSubscription current (status_after st current)"

lemma move_subscription_run:
  assumes "find_by subscription_id i (subscriptions s) = Some sub" and "move_allowed st (subscription_status sub)"
  shows "\<exists>s'. move_subscription now grace st sub s = Inr (subscription_after now grace st sub, s') \<and>
    find_by subscription_id i (subscriptions s') = Some (subscription_after now grace st sub) \<and>
    subscriptionEvents s' = subscriptionEvents s @ events_after st sub \<and> payments s' = payments s \<and>
    invoices s' = invoices s \<and> invoiceCounters s' = invoiceCounters s \<and> enterprises s' = enterprises s"
  using assms find_by_SomeD[OF assms(1)]
  by (cases st; cases "subscription_status sub")
    (simp_all add: move_subscription_def webhook_target_def status_after_def subscription_after_def events_after_def
      move_allowed_def assertSubscriptionTransition_def subscription_update_def createSubscriptionEvent_def
      find_by_update_by canTransitionSubscription_def)

lemma pf_cache_notifications: "pf_cache (w\<lparr>pf_notifications := ns\<rparr>) = pf_cache w"
  by simp

lemma pf_cache_notify: "pf_cache (notifyEnterprise l e st sub w) = pf_cache w"
  unfolding notifyEnterprise_def Let_def
  by (cases "first_active_user e (pf_db w)"; cases st)
    (simp_all only: option.case webhook_status.case pf_cache_notifications)

lemma generateForPayment_run:
  assumes "find_by payment_id (payment_id p) (payments s) \<noteq> None" and "payment_id q = payment_id p"
    and "\<forall>r\<in>set (invoices s). invoice_paymentId r \<noteq> Some (payment_id p) \<and>
       invoice_number r \<noteq> document_number ''INV'' (ent_id ent) (next_number (invoiceCounters s) (ent_id ent))"
  shows "\<exists>s'. generateForPayment newId now ent i q s =
      Inr (platform_invoice newId now ent i q (next_number (invoiceCounters s) (ent_id ent)), s') \<and>
    invoices s' = invoices s @ [platform_invoice newId now ent i q (next_number (invoiceCounters s) (ent_id ent))] \<and>
    payments s' = update_by payment_id (payment_id p) (\<lambda>q. q\<lparr>payment_invoiceId := Some newId\<rparr>) (payments s) \<and>
    subscriptions s' = subscriptions s \<and> subscriptionEvents s' = subscriptionEvents s"
proof -
  obtain p' where "find_by payment_id (payment_id p) (payments s) = Some p'" using assms(1) by blast
  then show ?thesis using assms(2,3)
    by (auto simp: generateForPayment_def bump_invoiceCounter_def invoice_insert_def Let_def)
qed

lemma webhook_tx_run:
  assumes d: "distinct (map payment_id (payments s))"
    and p: "find_by payment_id (payment_id p) (payments s) = Some p" "payment_status p = Pay_PENDING"
    and sub: "find_by subscription_id i (subscriptions s) = Some sub"
    and ent: "find_by ent_id (payment_enterpriseId p) (enterprises s) = Some ent"
    and ok: "move_allowed (evt_status ev) (subscription_status sub)"
    and free: "\<forall>r\<in>set (invoices s). invoice_paymentId r \<noteq> Some (payment_id p) \<and>
       invoice_number r \<noteq> document_number ''INV'' (ent_id ent) (next_number (invoiceCounters s) (ent_id ent))"
  shows "\<exists>s'. webhook_tx clock grace newId p i ev s = Inr (Some (subscription_after (clock 3) grace (evt_status ev) sub), s') \<and>
    payments s' = update_by payment_id (payment_id p) (\<lambda>q. (resolve_payment (clock 2) (evt_status ev) q)\<lparr>payment_invoiceId :=
      (if evt_status ev = Evt_SUCCEEDED then Some newId else payment_invoiceId q)\<rparr>) (payments s) \<and>
    find_by subscription_id i (subscriptions s') = Some (subscription_after (clock 3) grace (evt_status ev) sub) \<and>
    subscriptionEvents s' = subscriptionEvents s @ events_after (evt_status ev) sub \<and>
    invoices s' = invoices s @ (if evt_status ev = Evt_SUCCEEDED
      then [platform_invoice newId (clock 4) ent i p (next_number (invoiceCounters s) (ent_id ent))] else [])"
proof -
  let ?f = "resolve_payment (clock 2) (evt_status ev)"
  define s1 where "s1 = s\<lparr>payments := update_by payment_id (payment_id p) ?f (payments s)\<rparr>"
  have same: "subscriptions s1 = subscriptions s" "invoices s1 = invoices s" "enterprises s1 = enterprises s"
    "invoiceCounters s1 = invoiceCounters s" "subscriptionEvents s1 = subscriptionEvents s" by (simp_all add: s1_def)
  have i: "subscription_id sub = i" using find_by_SomeD[OF sub] by simp
  obtain s2 where s2: "move_subscription (clock 3) grace (evt_status ev) sub s1 = Inr (subscription_after (clock 3) grace (evt_status ev) sub, s2)"
    and sub2: "find_by subscription_id i (subscriptions s2) = Some (subscription_after (clock 3) grace (evt_status ev) sub)"
    and e2: "subscriptionEvents s2 = subscriptionEvents s1 @ events_after (evt_status ev) sub" "payments s2 = payments s1"
    "invoices s2 = invoices s1" "invoiceCounters s2 = invoiceCounters s1"
    using move_subscription_run[of i s1 sub "evt_status ev" "clock 3" grace] sub ok same(1) by auto
  note eq = webhook_tx_pending[where clock = clock and ev = ev, OF d p s1_def, of grace newId i, unfolded sub ent option.case s2 sum.case prod.case i]
  show ?thesis
  proof (cases "evt_status ev")
    case Evt_FAILED
    have "update_by payment_id (payment_id p) ?f (payments s) =
        update_by payment_id (payment_id p) (\<lambda>q. (?f q)\<lparr>payment_invoiceId := payment_invoiceId q\<rparr>) (payments s)"
      by (simp add: update_by_def resolve_payment_def)
    then have "payments s2 = update_by payment_id (payment_id p) (\<lambda>q. (?f q)\<lparr>payment_invoiceId :=
        (if evt_status ev = Evt_SUCCEEDED then Some newId else payment_invoiceId q)\<rparr>) (payments s)"
      using Evt_FAILED by (simp add: e2(2) s1_def)
    moreover have "webhook_tx clock grace newId p i ev s = Inr (Some (subscription_after (clock 3) grace (evt_status ev) sub), s2)"
      using Evt_FAILED by (simp add: eq)
    ultimately show ?thesis using sub2 e2 same Evt_FAILED by auto
  next
    case Evt_SUCCEEDED
    have row: "find_by payment_id (payment_id p) (payments s2) \<noteq> None"
      using p(1) by (simp add: e2(2) s1_def find_by_update_by)
    let ?row = "platform_invoice newId (clock 4) ent i p (next_number (invoiceCounters s) (ent_id ent))"
    have pi: "platform_invoice a b ent c (?f p) n = platform_invoice a b ent c p n" for a b c n
      by (simp add: platform_invoice_def)
    obtain s3 where s3: "generateForPayment newId (clock 4) ent i (?f p) s2 = Inr (?row, s3)"
      and e3: "invoices s3 = invoices s @ [?row]" "subscriptions s3 = subscriptions s2" "subscriptionEvents s3 = subscriptionEvents s2"
      "payments s3 = update_by payment_id (payment_id p) (\<lambda>q. q\<lparr>payment_invoiceId := Some newId\<rparr>) (payments s1)"
      using generateForPayment_run[where s = s2 and p = p and q = "?f p" and newId = newId and ent = ent and now = "clock 4" and i = i] row free pi e2 same by auto
    have "payments s3 = update_by payment_id (payment_id p) (\<lambda>q. (?f q)\<lparr>payment_invoiceId :=
        (if evt_status ev = Evt_SUCCEEDED then Some newId else payment_invoiceId q)\<rparr>) (payments s)"
      using Evt_SUCCEEDED unfolding e3(4) by (simp add: s1_def update_by_twice)
    moreover have "webhook_tx clock grace newId p i ev s = Inr (Some (subscription_after (clock 3) grace (evt_status ev) sub), s3)"
      using Evt_SUCCEEDED s3 by (simp add: eq)
    ultimately show ?thesis using sub2 e2 e3 same Evt_SUCCEEDED by auto
  qed
qed

section \<open>Properties\<close>

text \<open>
  C31. Whatever webhooks (genuine, forged, repeated, concurrent), expiry and lifecycle jobs, changes of
  plan and new payments are interleaved, and in whatever order their statements run: every payment
  that has succeeded has exactly one invoice, paid, for the payment's amount split into the part
  without tax and the tax, and every other payment has none.
\<close>

theorem one_invoice_per_payment:
  assumes "billing_steps w w'" and "billing_ok (pf_db w)" and "p \<in> set (payments (pf_db w'))"
  shows "if payment_status p = Pay_SUCCEEDED
    then \<exists>r. filter (\<lambda>r. invoice_paymentId r = Some (payment_id p)) (invoices (pf_db w')) = [r] \<and>
      invoice_amount r = payment_amount p \<and> invoice_amountExcludingTax r + invoice_vatAmount r = payment_amount p \<and>
      invoice_enterpriseId r = payment_enterpriseId p \<and> payment_invoiceId p = Some (invoice_id r) \<and> invoice_status r = Inv_PAID
    else filter (\<lambda>r. invoice_paymentId r = Some (payment_id p)) (invoices (pf_db w')) = []"
proof -
  have "billing_ok (pf_db w')" using billing_steps_books(2) assms(1,2) books_step_ok by blast
  then have "payment_billed (pf_db w') p" using assms(3) by (simp add: billing_ok_def)
  then show ?thesis by (auto simp: payment_billed_def invoices_for_def bills_def split: if_splits)
qed

text \<open>Two deliveries of the same event, the second in the middle of the first.\<close>

abbreviation fx_twice :: "string \<Rightarrow> subscription_status \<Rightarrow> platform" where
  "fx_twice body st \<equiv> snd (fx_webhook (\<lambda>i w. snd (fx_webhook (\<lambda>_ w. w) body w)) body (fx_platform st))"

lemma fx_once_steps: "billing_steps w (snd (fx_webhook (\<lambda>_ w. w) body w))"
  by (rule billing_step_billing_steps.more[OF billing_step_billing_steps.none billing_step_billing_steps.webhook])
    (rule billing_step_billing_steps.none)

lemma fx_twice_steps: "billing_steps (fx_platform st) (fx_twice body st)"
  by (rule billing_step_billing_steps.more[OF billing_step_billing_steps.none billing_step_billing_steps.webhook])
    (rule fx_once_steps)

lemma one_invoice_per_payment_witness:
  "\<exists>r. filter (\<lambda>r. invoice_paymentId r = Some ''y1'') (invoices (pf_db (fx_twice ''succeeded'' Sub_TRIAL))) = [r] \<and>
    invoice_amount r = 11800 \<and> invoice_status r = Inv_PAID"
proof -
  let ?w = "fx_twice ''succeeded'' Sub_TRIAL"
  let ?p = "fx_payment\<lparr>payment_status := Pay_SUCCEEDED, payment_paidAt := Some 1000, payment_invoiceId := Some ''i1''\<rparr>"
  have "payments (pf_db ?w) = [?p]" by code_simp
  then have "?p \<in> set (payments (pf_db ?w))" by simp
  from one_invoice_per_payment[OF fx_twice_steps fx_platform_ok this] show ?thesis by (simp add: fx_payment_def) blast
qed

text \<open>
  The platform's invoices of an enterprise carry the numbers 1, 2, 3, ... in order, without gap
  or repetition, under the same interleavings: a transaction that is rolled back leaves no gap.
\<close>

theorem platform_invoice_numbers_gapless:
  assumes "billing_steps w w'" and "billing_ok (pf_db w)"
    and "platform_invoice_numbers e (pf_db w) = map (document_number ''INV'' e) [1..<Suc (last_platform_number e (pf_db w))]"
  shows "platform_invoice_numbers e (pf_db w') = map (document_number ''INV'' e) [1..<Suc (last_platform_number e (pf_db w'))] \<and>
    distinct (platform_invoice_numbers e (pf_db w'))"
proof -
  have "numbered_steps (pf_db w) (pf_db w')" using billing_steps_books(2) assms(1,2) by (auto simp: books_step_def)
  then have "issue_step\<^sup>*\<^sup>* (pf_db w) (pf_db w')" by (simp add: numbered_steps_def)
  from platform_numbering.steps_gapless[OF this assms(3)] show ?thesis
    using platform_numbering.gapless_distinct by blast
qed

lemma platform_invoice_numbers_gapless_witness:
  "platform_invoice_numbers ''e1'' (pf_db (fx_twice ''succeeded'' Sub_TRIAL)) = [''INV-E1-000001''] \<and>
   distinct (platform_invoice_numbers ''e1'' (pf_db (fx_twice ''succeeded'' Sub_TRIAL)))"
proof -
  have "platform_invoice_numbers ''e1'' (pf_db (fx_platform Sub_TRIAL)) =
      map (document_number ''INV'' ''e1'') [1..<Suc (last_platform_number ''e1'' (pf_db (fx_platform Sub_TRIAL)))]"
    by code_simp
  from platform_invoice_numbers_gapless[OF fx_twice_steps fx_platform_ok this] show ?thesis
    by (intro conjI) (code_simp, blast)
qed

text \<open>
  What is settled stays settled: under every interleaving a payment that is no longer pending
  keeps its status, amount, date and invoice (only the note of a conflicting event may be added), and
  a cancelled or expired subscription never gets another status, whatever payments arrive for it.
\<close>

theorem settled_payment_stays:
  assumes "billing_steps w w'" and "billing_ok (pf_db w)"
    and "find_by payment_id i (payments (pf_db w)) = Some p" and "payment_status p \<noteq> Pay_PENDING"
    and "find_by subscription_id j (subscriptions (pf_db w)) = Some sub"
    and "subscription_status sub \<in> set TERMINAL_SUBSCRIPTION_STATUSES"
  shows "(\<exists>p'. find_by payment_id i (payments (pf_db w')) = Some p' \<and>
      p'\<lparr>payment_conflictingEvent := None\<rparr> = p\<lparr>payment_conflictingEvent := None\<rparr>) \<and>
    (\<exists>sub'. find_by subscription_id j (subscriptions (pf_db w')) = Some sub' \<and> subscription_status sub' = subscription_status sub)"
proof -
  have b: "books_step (pf_db w) (pf_db w')" using billing_steps_books(2) assms(1,2) by blast
  have "map_option payment_core (find_by payment_id i (payments (pf_db w'))) = Some (payment_core p)"
    by (rule settled_payments.steps_final[where s = "pf_db w"]) (use b assms(3,4) in \<open>simp_all add: payment_core_def\<close>)
  moreover have "map_option subscription_status (find_by subscription_id j (subscriptions (pf_db w'))) = Some (subscription_status sub)"
    by (rule settled_subscriptions.steps_final[where s = "pf_db w"]) (use b assms(5,6) in \<open>simp_all add: books_step_def r_into_rtranclp\<close>)
  ultimately show ?thesis by (auto simp: payment_core_def)
qed

lemma settled_payment_stays_witness:
  "\<exists>sub'. find_by subscription_id ''b1'' (subscriptions (pf_db (snd (fx_webhook (\<lambda>_ w. w) ''succeeded''
      (on_db (\<lambda>s. s\<lparr>payments := [expire_payment fx_payment]\<rparr>) (fx_platform Sub_EXPIRED)))))) = Some sub' \<and>
    subscription_status sub' = Sub_EXPIRED"
proof -
  let ?w = "on_db (\<lambda>s. s\<lparr>payments := [expire_payment fx_payment]\<rparr>) (fx_platform Sub_EXPIRED)"
  have ok: "billing_ok (pf_db ?w)"
    by (simp add: billing_ok_def fx_platform_def payment_billed_def invoices_for_def fx_payment_def fx_billing_db_def
      fx_db_def empty_db_def unique_key_def on_db_def expire_payment_def)
  have p: "find_by payment_id ''y1'' (payments (pf_db ?w)) = Some (expire_payment fx_payment)"
    by (simp add: on_db_def expire_payment_def fx_payment_def)
  have r: "payment_status (expire_payment fx_payment) \<noteq> Pay_PENDING" by (simp add: expire_payment_def)
  have sub: "find_by subscription_id ''b1'' (subscriptions (pf_db ?w)) = Some (fx_subscription Sub_EXPIRED ''PRO'')"
    by (simp add: on_db_def fx_platform_def fx_billing_db_def fx_subscription_def)
  have t: "subscription_status (fx_subscription Sub_EXPIRED ''PRO'') \<in> set TERMINAL_SUBSCRIPTION_STATUSES"
    by (simp add: fx_subscription_def TERMINAL_SUBSCRIPTION_STATUSES_def)
  have st: "subscription_status (fx_subscription Sub_EXPIRED ''PRO'') = Sub_EXPIRED" by (simp add: fx_subscription_def)
  show ?thesis
    using settled_payment_stays[OF fx_once_steps[of ?w "''succeeded''"] ok p r sub t] unfolding st by (rule conjunct2)
qed

text \<open>
  C32. The whole effect of an accepted event on a pending payment: it is processed; the payment is
  resolved and, when it succeeded, joined to one new paid invoice with the next number of the
  enterprise; the subscription becomes active on success, past due with a new grace period on failure,
  and stays in its trial on a failure during the trial; one event is recorded exactly when the status
  changed; the enterprise's entitlements are dropped from the cache.
\<close>

theorem webhook_effect:
  assumes "billing_ok (pf_db w)"
    and "findPaymentByReference provider (evt_providerReference ev) (pf_db w) = Some p"
    and "payment_status p = Pay_PENDING" and "\<not> date_before (payment_expiresAt p) (clock 1)"
    and "payment_amount p = evt_amount ev" and "payment_currency p = evt_currency ev"
    and "payment_subscriptionId p = Some i"
    and "find_by subscription_id i (subscriptions (pf_db w)) = Some sub"
    and "find_by ent_id (payment_enterpriseId p) (enterprises (pf_db w)) = Some ent"
    and "case evt_status ev of
        Evt_SUCCEEDED \<Rightarrow> subscription_status sub \<in> {Sub_TRIAL, Sub_ACTIVE, Sub_PAST_DUE, Sub_SUSPENDED}
      | Evt_FAILED \<Rightarrow> subscription_status sub \<in> {Sub_TRIAL, Sub_ACTIVE, Sub_PAST_DUE}"
    and "\<forall>r\<in>set (invoices (pf_db w)). invoice_number r \<noteq>
       document_number ''INV'' (ent_id ent) (next_number (invoiceCounters (pf_db w)) (ent_id ent))"
  shows "\<exists>w'. webhook_event localeDate clock grace newId (\<lambda>_. id) provider ev w =
      (Inr \<lparr>wr_outcome = processed, wr_paymentId = payment_id p\<rparr>, w') \<and>
    find_by payment_id (payment_id p) (payments (pf_db w')) = Some (p\<lparr>
      payment_status := as_payment_status (evt_status ev),
      payment_paidAt := (if evt_status ev = Evt_SUCCEEDED then Some (clock 2) else None),
      payment_invoiceId := (if evt_status ev = Evt_SUCCEEDED then Some newId else payment_invoiceId p)\<rparr>) \<and>
    find_by subscription_id i (subscriptions (pf_db w')) = Some (case evt_status ev of
        Evt_SUCCEEDED \<Rightarrow> sub\<lparr>subscription_status := Sub_ACTIVE\<rparr>
      | Evt_FAILED \<Rightarrow> if subscription_status sub = Sub_TRIAL then sub
          else sub\<lparr>subscription_status := Sub_PAST_DUE, subscription_renewalDate := Some (clock 3 + grace)\<rparr>) \<and>
    invoices (pf_db w') = invoices (pf_db w) @ (if evt_status ev = Evt_SUCCEEDED
      then [platform_invoice newId (clock 4) ent i p (next_number (invoiceCounters (pf_db w)) (ent_id ent))] else []) \<and>
    length (subscriptionEvents (pf_db w')) = length (subscriptionEvents (pf_db w)) +
      (if evt_status ev = Evt_SUCCEEDED \<and> subscription_status sub \<noteq> Sub_ACTIVE \<or>
          evt_status ev = Evt_FAILED \<and> subscription_status sub = Sub_ACTIVE then 1 else 0) \<and>
    map_of (pf_cache w') (payment_enterpriseId p) = None"
proof -
  let ?s = "pf_db w" and ?sub = "subscription_after (clock 3) grace (evt_status ev) sub"
  have d: "distinct (map payment_id (payments ?s))" using assms(1) by (simp add: billing_ok_def)
  have mem: "p \<in> set (payments ?s)" using assms(2) find_SomeD unfolding findPaymentByReference_def by fast
  have p: "find_by payment_id (payment_id p) (payments ?s) = Some p" by (rule find_by_distinct[OF d mem])
  have none: "invoices_for (payment_id p) ?s = []" using assms(1,3) mem by (auto simp: billing_ok_def payment_billed_def)
  have ok: "move_allowed (evt_status ev) (subscription_status sub)"
    using assms(10) by (cases "evt_status ev")
      (auto simp: move_allowed_def status_after_def webhook_target_def canTransitionSubscription_def)
  have free: "\<forall>r\<in>set (invoices ?s). invoice_paymentId r \<noteq> Some (payment_id p) \<and> invoice_number r \<noteq>
       document_number ''INV'' (ent_id ent) (next_number (invoiceCounters ?s) (ent_id ent))"
    using none assms(11) by (simp add: invoices_for_def filter_empty_conv)
  obtain s' where run: "webhook_tx clock grace newId p i ev ?s = Inr (Some ?sub, s')"
    and pay: "payments s' = update_by payment_id (payment_id p) (\<lambda>q. (resolve_payment (clock 2) (evt_status ev) q)\<lparr>payment_invoiceId :=
      (if evt_status ev = Evt_SUCCEEDED then Some newId else payment_invoiceId q)\<rparr>) (payments ?s)"
    and sub: "find_by subscription_id i (subscriptions s') = Some ?sub"
    and ev: "subscriptionEvents s' = subscriptionEvents ?s @ events_after (evt_status ev) sub"
    and inv: "invoices s' = invoices ?s @ (if evt_status ev = Evt_SUCCEEDED
      then [platform_invoice newId (clock 4) ent i p (next_number (invoiceCounters ?s) (ent_id ent))] else [])"
    using webhook_tx_run[OF d p assms(3,8,9) ok free] by blast
  have c: "commit_txn (webhook_tx clock grace newId p i ev) ?s = (Inr (Some ?sub), s')" using run by (simp add: commit_txn_def)
  define w1 where "w1 = w\<lparr>pf_db := auditLog_record (payment_audit (Some (payment_enterpriseId p)) PAYMENT ''Payment''
      (Some (payment_id p)) None) s', pf_cache := cache_invalidate (payment_enterpriseId p) (pf_cache w)\<rparr>"
  have e: "webhook_expiry clock (\<lambda>_. id) p w = (Inr p, w)" using assms(4) by (simp add: webhook_expiry_def is_expired_def)
  have r: "webhook_event localeDate clock grace newId (\<lambda>_. id) provider ev w =
      (Inr \<lparr>wr_outcome = processed, wr_paymentId = payment_id p\<rparr>,
       notifyEnterprise localeDate (payment_enterpriseId p) (evt_status ev) ?sub w1)"
    using assms(3,5,6,7)
    by (simp add: webhook_event_def assms(2) e webhook_pending_def webhook_commit_def c w1_def[symmetric] Let_def)
  have db: "payments (pf_db w1) = payments s'" "subscriptions (pf_db w1) = subscriptions s'" "invoices (pf_db w1) = invoices s'"
    "subscriptionEvents (pf_db w1) = subscriptionEvents s'" by (simp_all add: w1_def auditLog_record_def)
  have cache: "map_of (pf_cache (notifyEnterprise localeDate e st x w1)) (payment_enterpriseId p) = None" for e st x
    by (simp add: pf_cache_notify w1_def cache_invalidate_def delete_conv')
  have row: "find_by payment_id (payment_id p) (payments s') = Some (p\<lparr>payment_status := as_payment_status (evt_status ev),
      payment_paidAt := (if evt_status ev = Evt_SUCCEEDED then Some (clock 2) else None),
      payment_invoiceId := (if evt_status ev = Evt_SUCCEEDED then Some newId else payment_invoiceId p)\<rparr>)"
    unfolding pay using p by (simp add: find_by_update_by resolve_payment_def)
  have sub': "?sub = (case evt_status ev of Evt_SUCCEEDED \<Rightarrow> sub\<lparr>subscription_status := Sub_ACTIVE\<rparr>
      | Evt_FAILED \<Rightarrow> if subscription_status sub = Sub_TRIAL then sub
          else sub\<lparr>subscription_status := Sub_PAST_DUE, subscription_renewalDate := Some (clock 3 + grace)\<rparr>)"
    by (cases "evt_status ev") (simp_all add: subscription_after_def status_after_def webhook_target_def)
  have len: "length (events_after (evt_status ev) sub) =
      (if evt_status ev = Evt_SUCCEEDED \<and> subscription_status sub \<noteq> Sub_ACTIVE \<or>
          evt_status ev = Evt_FAILED \<and> subscription_status sub = Sub_ACTIVE then 1 else 0)"
    using assms(10) by (cases "evt_status ev") (auto simp: events_after_def status_after_def webhook_target_def)
  show ?thesis
    unfolding r
    by (intro exI conjI, rule refl) (simp_all only: pf_db_notify db row sub sub' ev inv cache length_append len)
qed

lemma webhook_effect_witness:
  "\<exists>w'. webhook_event (\<lambda>_. ''d'') (\<lambda>_. 1000) 604800000 ''i1'' (\<lambda>_. id) WAVE (fx_event Evt_FAILED) (fx_platform Sub_ACTIVE) =
      (Inr \<lparr>wr_outcome = processed, wr_paymentId = ''y1''\<rparr>, w') \<and>
    find_by subscription_id ''b1'' (subscriptions (pf_db w')) =
      Some ((fx_subscription Sub_PAST_DUE ''PRO'')\<lparr>subscription_renewalDate := Some 604801000\<rparr>)"
proof -
  let ?s = "pf_db (fx_platform Sub_ACTIVE)"
  have a: "findPaymentByReference WAVE (evt_providerReference (fx_event Evt_FAILED)) ?s = Some fx_payment" by code_simp
  have b: "payment_status fx_payment = Pay_PENDING" "\<not> date_before (payment_expiresAt fx_payment) 1000"
    "payment_amount fx_payment = evt_amount (fx_event Evt_FAILED)" "payment_currency fx_payment = evt_currency (fx_event Evt_FAILED)"
    "payment_subscriptionId fx_payment = Some ''b1''" by code_simp+
  have c: "find_by subscription_id ''b1'' (subscriptions ?s) = Some (fx_subscription Sub_ACTIVE ''PRO'')"
    "find_by ent_id (payment_enterpriseId fx_payment) (enterprises ?s) =
      Some ((fx_enterprise ''e1'')\<lparr>ent_currentSubscriptionId := Some ''b1''\<rparr>)" by code_simp+
  have "\<exists>w'. webhook_event (\<lambda>_. ''d'') (\<lambda>_. 1000) 604800000 ''i1'' (\<lambda>_. id) WAVE (fx_event Evt_FAILED) (fx_platform Sub_ACTIVE) =
      (Inr \<lparr>wr_outcome = processed, wr_paymentId = payment_id fx_payment\<rparr>, w') \<and>
    find_by subscription_id ''b1'' (subscriptions (pf_db w')) = Some (case evt_status (fx_event Evt_FAILED) of
        Evt_SUCCEEDED \<Rightarrow> (fx_subscription Sub_ACTIVE ''PRO'')\<lparr>subscription_status := Sub_ACTIVE\<rparr>
      | Evt_FAILED \<Rightarrow> if subscription_status (fx_subscription Sub_ACTIVE ''PRO'') = Sub_TRIAL then fx_subscription Sub_ACTIVE ''PRO''
          else (fx_subscription Sub_ACTIVE ''PRO'')\<lparr>subscription_status := Sub_PAST_DUE, subscription_renewalDate := Some (1000 + 604800000)\<rparr>)"
    using webhook_effect[where clock = "\<lambda>_. 1000" and localeDate = "\<lambda>_. ''d''" and grace = 604800000 and newId = "''i1''",
        OF fx_platform_ok a b c]
    by (auto simp: fx_event_def fx_subscription_def fx_platform_def fx_billing_db_def fx_db_def empty_db_def)
  then show ?thesis by (auto simp: fx_event_def fx_subscription_def fx_payment_def)
qed

text \<open>
  C33. A request that is not processed is harmless: with a bad signature, a stale timestamp, a
  malformed body, an unknown reference, a wrong amount, a payment already resolved or expired, or a
  transaction that fails, no subscription, invoice, counter, history, cached entitlement or
  notification changes and at most one audit entry is written; of the payments, only one that is
  pending past its date may become expired, and only one that is resolved may get a conflict note.
\<close>

definition harmless :: "date \<Rightarrow> platform \<Rightarrow> platform \<Rightarrow> bool" where
  "harmless now w w' \<longleftrightarrow> subscriptions (pf_db w') = subscriptions (pf_db w) \<and> invoices (pf_db w') = invoices (pf_db w) \<and>
     invoiceCounters (pf_db w') = invoiceCounters (pf_db w) \<and> subscriptionEvents (pf_db w') = subscriptionEvents (pf_db w) \<and>
     pf_cache w' = pf_cache w \<and> pf_notifications w' = pf_notifications w \<and>
     length (auditLogs (pf_db w')) \<le> Suc (length (auditLogs (pf_db w))) \<and>
     list_all2 (\<lambda>p p'. p' = p \<or> is_expired now p \<and> p' = p\<lparr>payment_status := Pay_EXPIRED\<rparr> \<or>
       payment_status p \<noteq> Pay_PENDING \<and> (\<exists>e. p' = p\<lparr>payment_conflictingEvent := e\<rparr>)) (payments (pf_db w)) (payments (pf_db w'))"

lemma harmless_refl [simp, intro]: "harmless now w w"
  by (simp add: harmless_def list_all2_refl)

lemma harmless_audit [intro]: "harmless now w (on_db (auditRejection reason p) w)"
  by (simp add: harmless_def list_all2_refl on_db_def auditRejection_def auditLog_record_def)

lemma list_all2_update_by:
  assumes "distinct (map key rows)" and "find_by key k rows = Some r" and "P r (f r)" and "\<And>x. P x x"
  shows "list_all2 P rows (update_by key k f rows)"
  using assms
proof (induction rows)
  case (Cons x rows)
  show ?case
  proof (cases "key x = k")
    case True
    then have "find_by key k rows = None" using Cons.prems(1) by (auto simp: find_by_None_iff)
    then have "update_by key k f rows = rows" by (rule update_by_missing)
    with True Cons.prems show ?thesis by (simp add: list_all2_refl)
  next
    case False
    with Cons show ?thesis by simp
  qed
qed simp

lemma webhook_event_harmless:
  assumes run: "webhook_event l clock grace newId (\<lambda>_. id) provider ev w = (r, w')"
    and no: "\<forall>i. r \<noteq> Inr \<lparr>wr_outcome = processed, wr_paymentId = i\<rparr>"
    and d: "distinct (map payment_id (payments (pf_db w)))"
  shows "harmless (clock 1) w w'"
proof (cases "findPaymentByReference provider (evt_providerReference ev) (pf_db w)")
  case None
  with run show ?thesis by (auto simp: webhook_event_def)
next
  case (Some p)
  then have mem: "p \<in> set (payments (pf_db w))" using find_SomeD unfolding findPaymentByReference_def by fast
  have p: "find_by payment_id (payment_id p) (payments (pf_db w)) = Some p" by (rule find_by_distinct[OF d mem])
  show ?thesis
  proof (cases "is_expired (clock 1) p")
    case True
    then have pend: "payment_status p = Pay_PENDING" by (simp add: is_expired_def)
    have "payment_cas (payment_id p) expire_payment (pf_db w) =
        (1, (pf_db w)\<lparr>payments := update_by payment_id (payment_id p) expire_payment (payments (pf_db w))\<rparr>)"
      unfolding payment_cas_eq[OF d] using p pend by simp
    then have w': "w' = w\<lparr>pf_db := auditRejection ''payment_expired'' (Some p)
        ((pf_db w)\<lparr>payments := update_by payment_id (payment_id p) expire_payment (payments (pf_db w))\<rparr>)\<rparr>"
      using run True by (simp add: webhook_event_def Some webhook_expiry_def Let_def del: One_nat_def)
    have "list_all2 (\<lambda>p p'. p' = p \<or> is_expired (clock 1) p \<and> p' = p\<lparr>payment_status := Pay_EXPIRED\<rparr> \<or>
        payment_status p \<noteq> Pay_PENDING \<and> (\<exists>e. p' = p\<lparr>payment_conflictingEvent := e\<rparr>)) (payments (pf_db w))
        (update_by payment_id (payment_id p) expire_payment (payments (pf_db w)))"
      by (rule list_all2_update_by[OF d p]) (use True in \<open>simp_all add: expire_payment_def\<close>)
    then show ?thesis by (simp add: harmless_def w' auditRejection_def auditLog_record_def)
  next
    case False
    then have e: "webhook_expiry clock (\<lambda>_. id) p w = (Inr p, w)" by (simp add: webhook_expiry_def)
    show ?thesis
    proof (cases "payment_status p = Pay_PENDING")
      case True
      have commit: "harmless (clock 1) w w'"
        if c: "webhook_commit l clock grace newId (\<lambda>_. id) p i ev w = (r, w')" for i
      proof (cases "webhook_tx clock grace newId p i ev (pf_db w)")
        case (Inl err)
        then have "commit_txn (webhook_tx clock grace newId p i ev) (pf_db w) = (Inl err, pf_db w)" by (simp add: commit_txn_def)
        then have "w' = w \<or> w' = on_db (auditRejection ''invalid_subscription_transition'' (Some p)) w"
          using c by (cases err) (auto simp: webhook_commit_def on_db_def)
        then show ?thesis by auto
      next
        case (Inr z)
        obtain x s1 where z: "z = (x, s1)" by (cases z)
        have t: "commit_txn (webhook_tx clock grace newId p i ev) (pf_db w) = (Inr x, s1)" using Inr z by (simp add: commit_txn_def)
        have "x = None" using c no by (cases x) (auto simp: webhook_commit_def t)
        moreover from this have "s1 = pf_db w" using Inr z d by (auto elim: webhook_tx_InrE)
        ultimately have "w' = w" using c by (simp add: webhook_commit_def t)
        then show ?thesis by simp
      qed
      have "webhook_pending l clock grace newId (\<lambda>_. id) p ev w = (r, w')"
        using run by (simp add: webhook_event_def Some e True)
      then show ?thesis using commit by (auto simp: webhook_pending_def split: if_splits option.splits)
    next
      case resolved: False
      then have run: "webhook_resolved (\<lambda>_. id) p ev w = (r, w')" using run by (simp add: webhook_event_def Some e)
      let ?f = "\<lambda>q. q\<lparr>payment_conflictingEvent := Some (as_payment_status (evt_status ev))\<rparr>"
      have "list_all2 (\<lambda>p p'. p' = p \<or> is_expired (clock 1) p \<and> p' = p\<lparr>payment_status := Pay_EXPIRED\<rparr> \<or>
          payment_status p \<noteq> Pay_PENDING \<and> (\<exists>e. p' = p\<lparr>payment_conflictingEvent := e\<rparr>)) (payments (pf_db w))
          (update_by payment_id (payment_id p) ?f (payments (pf_db w)))"
        by (rule list_all2_update_by[OF d p]) (use resolved in auto)
      then show ?thesis using run p
        by (auto simp: webhook_resolved_def harmless_def on_db_def auditLog_record_def list_all2_refl split: if_splits)
    qed
  qed
qed

theorem webhook_refusal_harmless:
  assumes "webhook_handle hmac json_parse secrets tolerance localeDate clock grace newId (\<lambda>_. id) adapters
      providerParam rawBody signature timestamp w = (r, w')"
    and "\<forall>i. r \<noteq> Inr \<lparr>wr_outcome = processed, wr_paymentId = i\<rparr>"
    and "distinct (map payment_id (payments (pf_db w)))"
  shows "subscriptions (pf_db w') = subscriptions (pf_db w) \<and> invoices (pf_db w') = invoices (pf_db w) \<and>
     invoiceCounters (pf_db w') = invoiceCounters (pf_db w) \<and> subscriptionEvents (pf_db w') = subscriptionEvents (pf_db w) \<and>
     pf_cache w' = pf_cache w \<and> pf_notifications w' = pf_notifications w \<and>
     length (auditLogs (pf_db w')) \<le> Suc (length (auditLogs (pf_db w))) \<and>
     list_all2 (\<lambda>p p'. p' = p \<or> is_expired (clock 1) p \<and> p' = p\<lparr>payment_status := Pay_EXPIRED\<rparr> \<or>
       payment_status p \<noteq> Pay_PENDING \<and> (\<exists>e. p' = p\<lparr>payment_conflictingEvent := e\<rparr>)) (payments (pf_db w)) (payments (pf_db w'))"
proof -
  have "harmless (clock 1) w w'"
    using assms webhook_event_harmless[OF _ assms(2,3)]
    by (auto simp: webhook_handle_def split: sum.splits if_splits prod.splits)
  then show ?thesis unfolding harmless_def .
qed

lemma webhook_refusal_harmless_witness:
  "subscriptions (pf_db (snd (webhook_handle fx_hmac fx_json (\<lambda>_. Some ''k'') 300 (\<lambda>_. ''d'') (\<lambda>_. 1000) 604800000 ''i1'' (\<lambda>_. id) []
      ''wave'' ''succeeded'' (Some ''k2.succeeded'') (Some ''1'') (fx_platform Sub_TRIAL)))) = [fx_subscription Sub_TRIAL ''PRO'']"
proof -
  let ?run = "webhook_handle fx_hmac fx_json (\<lambda>_. Some ''k'') 300 (\<lambda>_. ''d'') (\<lambda>_. 1000) 604800000 ''i1'' (\<lambda>_. id) []
      ''wave'' ''succeeded'' (Some ''k2.succeeded'') (Some ''1'') (fx_platform Sub_TRIAL)"
  have "fst ?run = Inl (UnauthorizedException ''Signature de webhook invalide'')" by code_simp
  then have no: "\<forall>i. fst ?run \<noteq> Inr \<lparr>wr_outcome = processed, wr_paymentId = i\<rparr>" by simp
  have d: "distinct (map payment_id (payments (pf_db (fx_platform Sub_TRIAL))))" by (simp add: fx_platform_def)
  from webhook_refusal_harmless[OF prod.collapse[symmetric] no d] show ?thesis
    by (simp add: fx_platform_def fx_billing_db_def)
qed

text \<open>What a processed event leaves behind.\<close>

lemma webhook_tx_row:
  assumes "webhook_tx clock grace newId p i ev s = Inr (Some sub, s')" and d: "distinct (map payment_id (payments s))"
  shows "\<exists>q row. find_by payment_id (payment_id p) (payments s) = Some q \<and> find_by payment_id (payment_id p) (payments s') = Some row \<and>
    payment_status row = as_payment_status (evt_status ev) \<and> payment_terms row = payment_terms q"
  using assms
proof (cases rule: webhook_tx_InrE)
  case lost
  then show ?thesis by simp
next
  case (failed q sub' sub2 ent s1)
  have sub: "find_by subscription_id i (subscriptions s1) = Some sub'" using failed(5,7) by simp
  obtain subs evs where "s' = s1\<lparr>subscriptions := subs, subscriptionEvents := evs\<rparr>" using move_subscription_InrD(1)[OF failed(8) sub] by blast
  then show ?thesis using failed(1,3,7) by (simp add: find_by_update_by)
next
  case (paid q sub' sub2 ent row s1 s2)
  have sub: "find_by subscription_id i (subscriptions s1) = Some sub'" using paid(5,7) by simp
  obtain subs evs where s2: "s2 = s1\<lparr>subscriptions := subs, subscriptionEvents := evs\<rparr>" using move_subscription_InrD(1)[OF paid(8) sub] by blast
  have q: "payment_id q = payment_id p" using find_by_SomeD[OF paid(3)] by simp
  have "payments s' = update_by payment_id (payment_id p) (\<lambda>x. (resolve_payment (clock 2) (evt_status ev) x)\<lparr>payment_invoiceId := Some newId\<rparr>) (payments s)"
    by (simp add: generateForPayment_InrD(2)[OF paid(9)] s2 paid(7) q update_by_twice)
  then show ?thesis using paid(1,3) by (simp add: find_by_update_by payment_terms_def resolve_payment_def)
qed

lemma findPaymentByReference_unique:
  assumes "billing_ok s" and "row \<in> set (payments s)" and "payment_provider row = provider"
    and "payment_providerReference row = Some reference"
  shows "findPaymentByReference provider reference s = Some row"
proof -
  obtain x where x: "findPaymentByReference provider reference s = Some x"
    using assms(2-4) by (cases "findPaymentByReference provider reference s") (auto simp: findPaymentByReference_def find_None_iff)
  then have "x \<in> set (payments s)" "payment_provider x = provider" "payment_providerReference x = Some reference"
    unfolding findPaymentByReference_def by (auto dest: find_SomeD)
  then have "x = row" using assms by (intro unique_key_same[of payment_provider payment_providerReference "payments s"]) (auto simp: billing_ok_def)
  with x show ?thesis by simp
qed

lemma webhook_event_processed:
  assumes run: "webhook_event l clock grace newId others provider ev w = (Inr \<lparr>wr_outcome = processed, wr_paymentId = i\<rparr>, w1)"
    and ok: "billing_ok (pf_db w)" and R: "books_rely others"
  shows "\<exists>row. find_by payment_id i (payments (pf_db w1)) = Some row \<and> payment_status row = as_payment_status (evt_status ev) \<and>
    payment_provider row = provider \<and> payment_providerReference row = Some (evt_providerReference ev) \<and> billing_ok (pf_db w1)"
proof -
  obtain p where found: "findPaymentByReference provider (evt_providerReference ev) (pf_db w) = Some p"
    using run by (auto simp: webhook_event_def split: option.splits)
  then have p: "p \<in> set (payments (pf_db w))" "payment_provider p = provider"
    "payment_providerReference p = Some (evt_providerReference ev)" unfolding findPaymentByReference_def by (auto dest: find_SomeD)
  obtain r wq where e: "webhook_expiry clock others p w = (r, wq)" by fastforce
  note x = webhook_expiry_books[OF R ok known_row[OF ok p(1)] e]
  obtain q where r: "r = Inr q" using run by (cases r) (auto simp: webhook_event_def found e)
  have q: "known q (pf_db wq)" "payment_terms q = payment_terms p" and okq: "billing_ok (pf_db wq)"
    using x r by (auto dest: books_step_ok)
  have pend: "webhook_pending l clock grace newId others q ev wq = (Inr \<lparr>wr_outcome = processed, wr_paymentId = i\<rparr>, w1)"
    using run by (auto simp: webhook_event_def found e r webhook_resolved_def Let_def split: if_splits option.splits)
  then obtain si where com: "webhook_commit l clock grace newId others q si ev wq = (Inr \<lparr>wr_outcome = processed, wr_paymentId = i\<rparr>, w1)"
    by (auto simp: webhook_pending_def split: if_splits option.splits)
  let ?w2 = "others 2 wq"
  have b2: "books_step (pf_db wq) (pf_db ?w2)" by (rule books_relyD[OF R okq])
  have ok2: "billing_ok (pf_db ?w2)" by (rule books_step_ok[OF b2])
  then have d2: "distinct (map payment_id (payments (pf_db ?w2)))" by (simp add: billing_ok_def)
  obtain sub s1 where tx: "webhook_tx clock grace newId q si ev (pf_db ?w2) = Inr (Some sub, s1)"
    using com by (auto simp: webhook_commit_def commit_txn_def Let_def split: sum.splits prod.splits option.splits exn.splits)
  have c: "commit_txn (webhook_tx clock grace newId q si ev) (pf_db ?w2) = (Inr (Some sub), s1)" using tx by (simp add: commit_txn_def)
  have kq2: "known q (pf_db ?w2)" by (rule known_step[OF q(1) b2])
  have b3: "books_step (pf_db ?w2) s1" using webhook_tx_books[OF ok2 tx] known_own[OF kq2] by blast
  obtain q' row where row: "find_by payment_id (payment_id q) (payments (pf_db ?w2)) = Some q'"
    "find_by payment_id (payment_id q) (payments s1) = Some row" "payment_status row = as_payment_status (evt_status ev)"
    "payment_terms row = payment_terms q'" using webhook_tx_row[OF tx d2] by blast
  have terms: "payment_terms row = payment_terms p" using kq2 row(1,4) q(2) by (auto simp: known_def)
  define w3 where "w3 = ?w2\<lparr>pf_db := auditLog_record (payment_audit (Some (payment_enterpriseId q)) PAYMENT ''Payment''
        (Some (payment_id q)) None) s1, pf_cache := cache_invalidate (payment_enterpriseId q) (pf_cache ?w2)\<rparr>"
  have i: "i = payment_id q" and w1: "pf_db w1 = pf_db (others 3 w3)" using com by (auto simp: webhook_commit_def c w3_def Let_def)
  have "books_step s1 (pf_db w3)" using books_step_audit[OF books_step_ok[OF b3]] by (simp add: w3_def)
  moreover from this have "books_step (pf_db w3) (pf_db (others 3 w3))" by (intro books_relyD[OF R]) (rule books_step_ok)
  ultimately have b4: "books_step s1 (pf_db w1)" using books_step_trans by (simp add: w1)
  obtain row' where row': "find_by payment_id i (payments (pf_db w1)) = Some row'" "payment_terms row' = payment_terms row"
    "payment_status row \<noteq> Pay_PENDING \<longrightarrow> payment_core row' = payment_core row"
    using b4 row(2) unfolding books_step_def payment_step_def i by blast
  have "payment_status row \<noteq> Pay_PENDING" using row(3) by (cases "evt_status ev") simp_all
  then have "payment_status row' = as_payment_status (evt_status ev)" using row'(3) row(3) payment_core_status[of row' row] by simp
  with row' terms p(2,3) books_step_ok[OF b4] show ?thesis by (auto simp: payment_terms_def)
qed

text \<open>
  A delivery that is repeated after it was processed is acknowledged and changes nothing at all,
  however many requests of any kind came in between or ran inside it: same answer, same payment, no
  second invoice, event, audit entry or notification.
\<close>

theorem webhook_replay:
  assumes "billing_ok (pf_db w)" and "\<And>i v. billing_steps v (others i v)"
    and "webhook_event localeDate clock grace newId others provider ev w = (Inr \<lparr>wr_outcome = processed, wr_paymentId = i\<rparr>, w1)"
    and "billing_steps w1 w2"
  shows "webhook_event localeDate' clock' grace' newId' others' provider ev w2 =
    (Inr \<lparr>wr_outcome = ignored_already_processed, wr_paymentId = i\<rparr>, w2)"
proof -
  have "books_rely others" using billing_steps_books(2) assms(2) by (simp add: books_rely_def)
  from webhook_event_processed[OF assms(3,1) this] obtain row where
    row: "find_by payment_id i (payments (pf_db w1)) = Some row" "payment_status row = as_payment_status (evt_status ev)"
      "payment_provider row = provider" "payment_providerReference row = Some (evt_providerReference ev)" and ok1: "billing_ok (pf_db w1)"
    by blast
  have b: "books_step (pf_db w1) (pf_db w2)" using billing_steps_books(2) assms(4) ok1 by blast
  have np: "as_payment_status (evt_status ev) \<noteq> Pay_PENDING" by (cases "evt_status ev") simp_all
  obtain row2 where row2: "find_by payment_id i (payments (pf_db w2)) = Some row2" "payment_terms row2 = payment_terms row"
    "payment_core row2 = payment_core row" using b row(1,2) np unfolding books_step_def payment_step_def by fastforce
  have st: "payment_status row2 = as_payment_status (evt_status ev)" using payment_core_status[OF row2(3)] row(2) by simp
  have "row2 \<in> set (payments (pf_db w2))" and id: "payment_id row2 = i" using find_by_SomeD[OF row2(1)] by simp_all
  then have "findPaymentByReference provider (evt_providerReference ev) (pf_db w2) = Some row2"
    using row2(2) row(3,4) by (intro findPaymentByReference_unique[OF books_step_ok[OF b]]) (simp_all add: payment_terms_def)
  then show ?thesis using st np id
    by (simp add: webhook_event_def webhook_expiry_def is_expired_def webhook_resolved_def)
qed

lemma webhook_replay_witness:
  "let w1 = snd (fx_webhook (\<lambda>_ w. w) ''succeeded'' (fx_platform Sub_TRIAL)); w2 = snd (fx_webhook (\<lambda>_ w. w) ''failed'' w1)
   in fx_webhook (\<lambda>_ w. w) ''succeeded'' w2 = (Inr \<lparr>wr_outcome = ignored_already_processed, wr_paymentId = ''y1''\<rparr>, w2)"
proof -
  have e: "fx_webhook (\<lambda>_ w. w) ''succeeded'' w = webhook_event (\<lambda>_. ''d'') (\<lambda>_. 1000) 604800000 ''i1'' (\<lambda>_ w. w) WAVE (fx_event Evt_SUCCEEDED) w" for w
    by (rule fx_webhook_event) simp
  let ?run = "webhook_event (\<lambda>_. ''d'') (\<lambda>_. 1000) 604800000 ''i1'' (\<lambda>_ w. w) WAVE (fx_event Evt_SUCCEEDED) (fx_platform Sub_TRIAL)"
  have "fst ?run = Inr \<lparr>wr_outcome = processed, wr_paymentId = ''y1''\<rparr>" by code_simp
  then have run: "?run = (Inr \<lparr>wr_outcome = processed, wr_paymentId = ''y1''\<rparr>, snd ?run)" by (metis prod.collapse)
  have none: "\<And>i v. billing_steps v ((\<lambda>(_ :: nat) w. w) i v)" by (simp add: billing_step_billing_steps.none)
  show ?thesis
    unfolding Let_def e by (rule webhook_replay[OF fx_platform_ok none run fx_once_steps])
qed

text \<open>
  A payment that arrives for a subscription that has meanwhile ended (expired trial, cancelled) is
  blocked for good: the event is answered by a conflict, the transaction is rolled back, and the
  payment stays pending although the provider has collected the money; nothing but an audit entry
  records it, and the next expiry job turns the payment into an expired one.
\<close>

theorem payment_for_ended_subscription_blocked:
  assumes "distinct (map payment_id (payments (pf_db w)))"
    and "findPaymentByReference provider (evt_providerReference ev) (pf_db w) = Some p"
    and "payment_status p = Pay_PENDING" and "\<not> date_before (payment_expiresAt p) (clock 1)"
    and "payment_amount p = evt_amount ev" and "payment_currency p = evt_currency ev" and "evt_status ev = Evt_SUCCEEDED"
    and "payment_subscriptionId p = Some i"
    and "find_by subscription_id i (subscriptions (pf_db w)) = Some sub"
    and "subscription_status sub \<in> {Sub_EXPIRED, Sub_CANCELLED}"
    and "find_by ent_id (payment_enterpriseId p) (enterprises (pf_db w)) \<noteq> None"
  shows "\<exists>message w'. webhook_event localeDate clock grace newId (\<lambda>_. id) provider ev w = (Inl (ConflictException message), w') \<and>
    w' = on_db (auditRejection ''invalid_subscription_transition'' (Some p)) w \<and>
    find_by payment_id (payment_id p) (payments (pf_db w')) = Some p \<and>
    (date_before (payment_expiresAt p) now \<longrightarrow> find_by payment_id (payment_id p) (payments (snd
        (expirePendingPayment (payment_id p) (pf_db w')))) = Some (p\<lparr>payment_status := Pay_EXPIRED\<rparr>) \<and>
      p \<in> set (findExpirablePendingPayments now (pf_db w')))"
proof -
  let ?s = "pf_db w"
  have mem: "p \<in> set (payments ?s)" using assms(2) find_SomeD unfolding findPaymentByReference_def by fast
  have p: "find_by payment_id (payment_id p) (payments ?s) = Some p" by (rule find_by_distinct[OF assms(1) mem])
  define s1 where "s1 = ?s\<lparr>payments := update_by payment_id (payment_id p) (resolve_payment (clock 2) (evt_status ev)) (payments ?s)\<rparr>"
  obtain ent where ent: "find_by ent_id (payment_enterpriseId p) (enterprises ?s) = Some ent" using assms(11) by blast
  have "move_subscription (clock 3) grace (evt_status ev) sub s1 = Inl (InvalidSubscriptionTransitionError (subscription_status sub) Sub_ACTIVE)"
    using assms(7,10) by (auto simp: move_subscription_def webhook_target_def assertSubscriptionTransition_def canTransitionSubscription_def)
  then have "webhook_tx clock grace newId p i ev ?s = Inl (InvalidSubscriptionTransitionError (subscription_status sub) Sub_ACTIVE)"
    by (simp add: webhook_tx_pending[where clock = clock and ev = ev, OF assms(1) p assms(3) s1_def] assms(9) ent)
  then have c: "commit_txn (webhook_tx clock grace newId p i ev) ?s =
      (Inl (InvalidSubscriptionTransitionError (subscription_status sub) Sub_ACTIVE), ?s)" by (simp add: commit_txn_def)
  have e: "webhook_expiry clock (\<lambda>_. id) p w = (Inr p, w)" using assms(4) by (simp add: webhook_expiry_def is_expired_def)
  have r: "\<exists>message. webhook_event localeDate clock grace newId (\<lambda>_. id) provider ev w =
      (Inl (ConflictException message), on_db (auditRejection ''invalid_subscription_transition'' (Some p)) w)"
    using assms(3,5,6,8)
    by (simp add: webhook_event_def assms(2) e webhook_pending_def webhook_commit_def c on_db_def Let_def)
  have pay: "payments (auditRejection x y ?s) = payments ?s" for x y by (simp add: auditRejection_def auditLog_record_def)
  have x: "snd (payment_cas (payment_id p) expire_payment (auditRejection x y ?s)) =
      (auditRejection x y ?s)\<lparr>payments := update_by payment_id (payment_id p) expire_payment (payments ?s)\<rparr>" for x y
    using assms(1,3) p by (subst payment_cas_eq) (simp_all add: pay)
  show ?thesis
    using r p assms(3) mem
    by (auto simp: on_db_def pay expirePendingPayment_def x find_by_update_by expire_payment_def findExpirablePendingPayments_def)
qed

lemma payment_for_ended_subscription_blocked_witness:
  "\<exists>message w'. webhook_event (\<lambda>_. ''d'') (\<lambda>_. 1000) 604800000 ''i1'' (\<lambda>_. id) WAVE (fx_event Evt_SUCCEEDED) (fx_platform Sub_EXPIRED) =
      (Inl (ConflictException message), w') \<and> find_by payment_id ''y1'' (payments (pf_db w')) = Some fx_payment"
proof -
  let ?s = "pf_db (fx_platform Sub_EXPIRED)"
  have a: "distinct (map payment_id (payments ?s))" by (simp add: fx_platform_def)
  have b: "findPaymentByReference WAVE (evt_providerReference (fx_event Evt_SUCCEEDED)) ?s = Some fx_payment" by code_simp
  have c: "payment_status fx_payment = Pay_PENDING" "\<not> date_before (payment_expiresAt fx_payment) 1000"
    "payment_amount fx_payment = evt_amount (fx_event Evt_SUCCEEDED)" "payment_currency fx_payment = evt_currency (fx_event Evt_SUCCEEDED)"
    "evt_status (fx_event Evt_SUCCEEDED) = Evt_SUCCEEDED" "payment_subscriptionId fx_payment = Some ''b1''" by code_simp+
  have d: "find_by subscription_id ''b1'' (subscriptions ?s) = Some (fx_subscription Sub_EXPIRED ''PRO'')"
    "subscription_status (fx_subscription Sub_EXPIRED ''PRO'') \<in> {Sub_EXPIRED, Sub_CANCELLED}"
    "find_by ent_id (payment_enterpriseId fx_payment) (enterprises ?s) \<noteq> None" by code_simp+
  have id: "payment_id fx_payment = ''y1''" by (simp add: fx_payment_def)
  show ?thesis
    using payment_for_ended_subscription_blocked[where clock = "\<lambda>_. 1000" and localeDate = "\<lambda>_. ''d''" and grace = 604800000
        and newId = "''i1''", OF a b c d] unfolding id by blast
qed

definition resolved :: "uuid \<Rightarrow> db \<Rightarrow> bool" where
  "resolved i s \<longleftrightarrow> (\<exists>p. find_by payment_id i (payments s) = Some p \<and> payment_status p \<noteq> Pay_PENDING)"

lemma resolved_step: "resolved i s \<Longrightarrow> books_step s s' \<Longrightarrow> resolved i s'"
  unfolding resolved_def books_step_def payment_step_def by (metis payment_core_status)

lemma row_stays: "find_by payment_id i (payments s) \<noteq> None \<Longrightarrow> books_step s s' \<Longrightarrow> find_by payment_id i (payments s') \<noteq> None"
  unfolding books_step_def payment_step_def by blast

lemma lifecycle_expire_resolves:
  assumes R: "\<And>j. db_rely (others j)" and ok: "billing_ok s" and "find_by payment_id (payment_id p) (payments s) \<noteq> None"
    and "fails \<noteq> Some 0"
  shows "resolved (payment_id p) (snd (lifecycle_expire fails others p s))"
proof -
  have b0: "books_step s (others 0 s)" by (rule db_relyD[OF R ok])
  then have ok0: "billing_ok (others 0 s)" by (rule books_step_ok)
  then have d: "distinct (map payment_id (payments (others 0 s)))" by (simp add: billing_ok_def)
  obtain q where q: "find_by payment_id (payment_id p) (payments (others 0 s)) = Some q" using row_stays[OF assms(3) b0] by blast
  obtain n s1 where c: "payment_cas (payment_id p) expire_payment (others 0 s) = (n, s1)" by fastforce
  have r1: "resolved (payment_id p) s1"
    using c q unfolding payment_cas_eq[OF d] resolved_def
    by (auto simp: find_by_update_by expire_payment_def split: if_splits)
  have "books_step (others 0 s) s1" by (rule expire_books[OF ok0 c])
  then have "resolved (payment_id p) (others 1 s1)" using resolved_step[OF r1] db_relyD[OF R books_step_ok] by blast
  then have "resolved (payment_id p) (auditLog_record a (others 1 s1))" for a by (simp add: resolved_def auditLog_record_def)
  then show ?thesis using r1 \<open>resolved (payment_id p) (others 1 s1)\<close> assms(4)
    by (simp add: lifecycle_expire_def expirePendingPayment_def c Let_def)
qed

lemma lifecycle_expire_all_resolves:
  assumes R: "\<And>i j. db_rely (others i j)"
  shows "billing_ok s \<Longrightarrow> k < length batch \<Longrightarrow> fails (i + k) \<noteq> Some 0 \<Longrightarrow>
    find_by payment_id (payment_id (batch ! k)) (payments s) \<noteq> None \<Longrightarrow>
    resolved (payment_id (batch ! k)) (snd (lifecycle_expire_all fails others i n batch s))"
proof (induction batch arbitrary: i n s k)
  case (Cons p batch)
  obtain e s1 where c: "lifecycle_expire (fails i) (others i) p s = (e, s1)" by fastforce
  have b: "books_step s s1" using lifecycle_expire_books[of "others i" s "fails i" p] R Cons.prems(1) c by simp
  show ?case
  proof (cases k)
    case 0
    then have "resolved (payment_id p) s1"
      using lifecycle_expire_resolves[of "others i" s p "fails i"] R Cons.prems c by simp
    moreover have "books_step s1 (snd (lifecycle_expire_all fails others (Suc i) m batch s1))" for m
      by (rule lifecycle_expire_all_books[OF R books_step_ok[OF b]])
    ultimately show ?thesis using 0 resolved_step by (auto simp: c)
  next
    case (Suc k')
    have "find_by payment_id (payment_id (batch ! k')) (payments s1) \<noteq> None" using row_stays[OF _ b] Cons.prems(4) Suc by simp
    with Cons.IH[OF books_step_ok[OF b]] Cons.prems Suc show ?thesis by (simp add: c)
  qed
qed simp

lemma expired_count_le: "fst (lifecycle_expire_all fails others i n batch s) \<le> n + length batch"
proof (induction batch arbitrary: i n s)
  case (Cons p batch)
  obtain e s1 where "lifecycle_expire (fails i) (others i) p s = (e, s1)" by fastforce
  then show ?case using Cons.IH[of "Suc i" "if e then n + 1 else n" s1] by (auto split: if_splits)
qed simp

text \<open>
  The hourly job ends the wait: under any interleaving of other requests between its statements,
  every payment that was pending past its date when the job read its batch, and whose own statement
  did not fail, is resolved when the job has run (expired, or settled by a concurrent webhook); a
  failure on one payment stops none of the others, and the count is at most the batch.
\<close>

theorem expire_job_resolves:
  assumes "billing_ok s" and "\<And>i j w. billing_steps w (on_db (others i j) w)"
    and "k < length (findExpirablePendingPayments now s)" and "fails k \<noteq> Some 0"
  shows "(\<exists>p. find_by payment_id (payment_id (findExpirablePendingPayments now s ! k))
        (payments (snd (expirePendingPayments fails others now s))) = Some p \<and> payment_status p \<noteq> Pay_PENDING) \<and>
    fst (expirePendingPayments fails others now s) \<le> length (findExpirablePendingPayments now s)"
proof -
  let ?batch = "findExpirablePendingPayments now s"
  have R: "db_rely (others i j)" for i j by (rule rely_of_steps) (use billing_steps_books(2) assms(2) in blast)
  have "?batch ! k \<in> set (payments s)" using nth_mem[OF assms(3)] by (simp add: findExpirablePendingPayments_def)
  then have "find_by payment_id (payment_id (?batch ! k)) (payments s) \<noteq> None" by (simp add: find_by_None_iff)
  then have "resolved (payment_id (?batch ! k)) (snd (lifecycle_expire_all fails others 0 0 ?batch s))"
    by (intro lifecycle_expire_all_resolves[OF R assms(1,3)]) (simp_all add: assms(4))
  then show ?thesis using expired_count_le[of fails others 0 0 ?batch s] by (simp add: expirePendingPayments_def resolved_def)
qed

lemma expire_job_resolves_witness:
  "\<exists>p. find_by payment_id ''y1'' (payments (snd (expirePendingPayments (\<lambda>_. Some 1) (\<lambda>_ _ s. s) 10000 (pf_db (fx_platform Sub_TRIAL))))) = Some p \<and>
     payment_status p \<noteq> Pay_PENDING"
proof -
  have n: "\<And>i j w. billing_steps w (on_db ((\<lambda>(_ :: nat) (_ :: nat) s. s) i j) w)"
    by (simp add: on_db_def billing_step_billing_steps.none)
  have b: "findExpirablePendingPayments 10000 (pf_db (fx_platform Sub_TRIAL)) = [fx_payment]" by code_simp
  have l: "0 < length (findExpirablePendingPayments 10000 (pf_db (fx_platform Sub_TRIAL)))" and f: "Some 1 \<noteq> Some (0 :: nat)"
    by (simp_all add: b)
  from expire_job_resolves[where fails = "\<lambda>_. Some 1", OF fx_platform_ok n l f] show ?thesis
    unfolding b by (simp add: fx_payment_def)
qed

end
