(* ===== verification/Json.thy ===== *)
theory Json
  imports Database
begin

text \<open>
  The JSON texts that the mobile application stores and sends: \<open>JSON.stringify\<close>, \<open>JSON.parse\<close> and the
  message taken from an error body. Numbers are whole numbers (every number the application sends is
  one), an object is the list of its properties in insertion order, properties whose value is
  \<open>undefined\<close> are absent, and characters are those with a code below 256. Of a number with a fraction or
  an exponent \<open>JSON_parse\<close> gives \<open>None\<close>, as of a text that is not JSON.
\<close>

datatype json =
    JNull
  | JBool bool
  | JNum int
  | JStr string
  | JArr "json list"
  | JObj "(string \<times> json) list"

section \<open>Writing\<close>

definition char_code :: "char \<Rightarrow> nat" where
  "char_code c = of_char c"

definition hex_digit :: "nat \<Rightarrow> char" where
  "hex_digit n = (if n < 10 then char_of (48 + n) else char_of (87 + n))"

definition escape_char :: "char \<Rightarrow> string" where
  "escape_char c =
     (if char_code c = 34 then [CHR 0x5C, CHR 0x22]
      else if char_code c = 92 then [CHR 0x5C, CHR 0x5C]
      else if char_code c = 8 then [CHR 0x5C, CHR ''b'']
      else if char_code c = 9 then [CHR 0x5C, CHR ''t'']
      else if char_code c = 10 then [CHR 0x5C, CHR ''n'']
      else if char_code c = 12 then [CHR 0x5C, CHR ''f'']
      else if char_code c = 13 then [CHR 0x5C, CHR ''r'']
      else if char_code c < 32
      then [CHR 0x5C, CHR ''u'', CHR ''0'', CHR ''0'', hex_digit (char_code c div 16), hex_digit (char_code c mod 16)]
      else [c])"

definition quoted :: "string \<Rightarrow> string" where
  "quoted v = CHR 0x22 # concat (map escape_char v) @ [CHR 0x22]"

definition int_text :: "int \<Rightarrow> string" where
  "int_text i = (if i < 0 then CHR ''-'' # nat_digits (nat (- i)) else nat_digits (nat i))"

fun JSON_stringify :: "json \<Rightarrow> string" where
  "JSON_stringify JNull = ''null''"
| "JSON_stringify (JBool b) = (if b then ''true'' else ''false'')"
| "JSON_stringify (JNum i) = int_text i"
| "JSON_stringify (JStr v) = quoted v"
| "JSON_stringify (JArr xs) = ''['' @ join '','' (map JSON_stringify xs) @ '']''"
| "JSON_stringify (JObj ms) = ''{'' @ join '','' (map (\<lambda>(k, v). quoted k @ '':'' @ JSON_stringify v) ms) @ ''}''"

section \<open>Reading\<close>

definition skip_ws :: "string \<Rightarrow> string" where
  "skip_ws v = dropWhile (\<lambda>c. char_code c \<in> {32, 9, 10, 13}) v"

definition hex_value :: "char \<Rightarrow> nat option" where
  "hex_value c = (let n = char_code c in
     if 48 \<le> n \<and> n \<le> 57 then Some (n - 48)
     else if 97 \<le> n \<and> n \<le> 102 then Some (n - 87)
     else if 65 \<le> n \<and> n \<le> 70 then Some (n - 55)
     else None)"

fun parse_escape :: "string \<Rightarrow> (char \<times> string) option" where
  "parse_escape [] = None"
| "parse_escape (c # cs) =
     (if char_code c \<in> {34, 92, 47} then Some (c, cs)
      else if c = CHR ''b'' then Some (char_of (8 :: nat), cs)
      else if c = CHR ''t'' then Some (char_of (9 :: nat), cs)
      else if c = CHR ''n'' then Some (char_of (10 :: nat), cs)
      else if c = CHR ''f'' then Some (char_of (12 :: nat), cs)
      else if c = CHR ''r'' then Some (char_of (13 :: nat), cs)
      else if c = CHR ''u'' then
        (case cs of
           c1 # c2 # c3 # c4 # rest \<Rightarrow>
             (case (hex_value c1, hex_value c2, hex_value c3, hex_value c4) of
                (Some 0, Some 0, Some h, Some l) \<Rightarrow> Some (char_of (16 * h + l), rest)
              | _ \<Rightarrow> None)
         | _ \<Rightarrow> None)
      else None)"

lemma parse_escape_shorter: "parse_escape cs = Some (c, rest) \<Longrightarrow> length rest < length cs"
  by (induction cs rule: parse_escape.induct) (auto split: if_splits list.splits option.splits nat.splits)

function parse_chars :: "string \<Rightarrow> (string \<times> string) option" where
  "parse_chars [] = None"
| "parse_chars (c # cs) =
     (if char_code c = 34 then Some ([], cs)
      else if char_code c = 92 then
        (case parse_escape cs of
           None \<Rightarrow> None
         | Some (d, rest) \<Rightarrow> map_option (\<lambda>(v, rest'). (d # v, rest')) (parse_chars rest))
      else if char_code c < 32 then None
      else map_option (\<lambda>(v, rest). (c # v, rest)) (parse_chars cs))"
  by pat_completeness auto

termination
  by (relation "measure length") (auto dest: parse_escape_shorter)

definition is_digit :: "char \<Rightarrow> bool" where
  "is_digit c \<longleftrightarrow> 48 \<le> char_code c \<and> char_code c \<le> 57"

definition parse_nat :: "string \<Rightarrow> (nat \<times> string) option" where
  "parse_nat v = (let ds = takeWhile is_digit v; rest = dropWhile is_digit v in
     if ds = [] \<or> (hd ds = CHR ''0'' \<and> length ds \<noteq> 1) then None
     else if rest \<noteq> [] \<and> hd rest \<in> {CHR ''.'', CHR ''e'', CHR ''E''} then None
     else Some (digits_value ds, rest))"

definition parse_number :: "string \<Rightarrow> (json \<times> string) option" where
  "parse_number v = (case v of
     CHR ''-'' # rest \<Rightarrow> map_option (\<lambda>(n, rest'). (JNum (- int n), rest')) (parse_nat rest)
   | _ \<Rightarrow> map_option (\<lambda>(n, rest). (JNum (int n), rest)) (parse_nat v))"

text \<open>A property that comes twice keeps its first place and its last value.\<close>

definition add_member :: "string \<Rightarrow> json \<Rightarrow> (string \<times> json) list \<Rightarrow> (string \<times> json) list" where
  "add_member k v ms = (case map_of ms k of
     None \<Rightarrow> (k, v) # ms
   | Some w \<Rightarrow> (k, w) # filter (\<lambda>m. fst m \<noteq> k) ms)"

text \<open>
  The fuel counts nested calls: two per opening bracket and two per element are enough, so twice the
  length of the text always is.
\<close>

fun parse_value :: "nat \<Rightarrow> string \<Rightarrow> (json \<times> string) option"
and parse_elements :: "nat \<Rightarrow> string \<Rightarrow> (json list \<times> string) option"
and parse_members :: "nat \<Rightarrow> string \<Rightarrow> ((string \<times> json) list \<times> string) option" where
  "parse_value 0 v = None"
| "parse_value (Suc n) v = (case skip_ws v of
     [] \<Rightarrow> None
   | c # cs \<Rightarrow>
       if char_code c = 34 then map_option (\<lambda>(t, rest). (JStr t, rest)) (parse_chars cs)
       else if c = CHR ''['' then
         (if take 1 (skip_ws cs) = '']'' then Some (JArr [], drop 1 (skip_ws cs))
          else map_option (\<lambda>(xs, rest). (JArr xs, rest)) (parse_elements n cs))
       else if c = CHR ''{'' then
         (if take 1 (skip_ws cs) = ''}'' then Some (JObj [], drop 1 (skip_ws cs))
          else map_option (\<lambda>(ms, rest). (JObj ms, rest)) (parse_members n cs))
       else if take 4 (c # cs) = ''null'' then Some (JNull, drop 4 (c # cs))
       else if take 4 (c # cs) = ''true'' then Some (JBool True, drop 4 (c # cs))
       else if take 5 (c # cs) = ''false'' then Some (JBool False, drop 5 (c # cs))
       else parse_number (c # cs))"
| "parse_elements 0 v = None"
| "parse_elements (Suc n) v = (case parse_value n v of
     None \<Rightarrow> None
   | Some (x, rest) \<Rightarrow> (case skip_ws rest of
       [] \<Rightarrow> None
     | c # cs \<Rightarrow>
         if c = CHR '']'' then Some ([x], cs)
         else if c = CHR '','' then map_option (\<lambda>(xs, rest'). (x # xs, rest')) (parse_elements n cs)
         else None))"
| "parse_members 0 v = None"
| "parse_members (Suc n) v = (case skip_ws v of
     [] \<Rightarrow> None
   | q # cs \<Rightarrow>
       if char_code q \<noteq> 34 then None
       else (case parse_chars cs of
         None \<Rightarrow> None
       | Some (k, rest) \<Rightarrow>
           if take 1 (skip_ws rest) \<noteq> '':'' then None
           else (case parse_value n (drop 1 (skip_ws rest)) of
             None \<Rightarrow> None
           | Some (x, rest') \<Rightarrow> (case skip_ws rest' of
               [] \<Rightarrow> None
             | c # cs' \<Rightarrow>
                 if c = CHR ''}'' then Some ([(k, x)], cs')
                 else if c = CHR '','' then map_option (\<lambda>(ms, rest''). (add_member k x ms, rest'')) (parse_members n cs')
                 else None))))"

definition JSON_parse :: "string \<Rightarrow> json option" where
  "JSON_parse v = (case parse_value (2 * length v) v of
     Some (x, rest) \<Rightarrow> (if skip_ws rest = [] then Some x else None)
   | None \<Rightarrow> None)"

section \<open>Reading what was written\<close>

lemma char_code_less: "char_code c < 256"
  by (simp add: char_code_def)

lemma char_code_char_of [simp]: "n < 256 \<Longrightarrow> char_code (char_of n) = n"
  by (simp add: char_code_def)

lemma char_of_char_code [simp]: "char_of (char_code c) = c"
  by (simp add: char_code_def)

lemma char_code_eqD: "char_code c = n \<Longrightarrow> c = char_of n"
  by (auto simp: char_code_def)

lemma char_of_quotes: "char_of (34 :: nat) = CHR 0x22" "char_of (92 :: nat) = CHR 0x5C"
  by code_simp+

lemma hex_value_digit: "n < 16 \<Longrightarrow> hex_value (hex_digit n) = Some n"
  by (simp add: hex_value_def hex_digit_def Let_def)

lemma parse_escape_letter:
  "parse_escape (CHR 0x22 # r) = Some (CHR 0x22, r)" "parse_escape (CHR 0x5C # r) = Some (CHR 0x5C, r)"
  "parse_escape (CHR ''b'' # r) = Some (char_of (8 :: nat), r)" "parse_escape (CHR ''t'' # r) = Some (char_of (9 :: nat), r)"
  "parse_escape (CHR ''n'' # r) = Some (char_of (10 :: nat), r)" "parse_escape (CHR ''f'' # r) = Some (char_of (12 :: nat), r)"
  "parse_escape (CHR ''r'' # r) = Some (char_of (13 :: nat), r)"
  by (simp_all add: char_code_def)

lemma parse_escape_unicode:
  assumes "n < 32"
  shows "parse_escape (CHR ''u'' # CHR ''0'' # CHR ''0'' # hex_digit (n div 16) # hex_digit (n mod 16) # r) = Some (char_of n, r)"
proof -
  have "hex_value (CHR ''0'') = Some 0" by (simp add: hex_value_def char_code_def)
  moreover have "hex_value (hex_digit (n div 16)) = Some (n div 16)" "hex_value (hex_digit (n mod 16)) = Some (n mod 16)"
    using assms by (simp_all add: hex_value_digit)
  ultimately show ?thesis by (simp add: char_code_def mult.commute)
qed

lemma parse_chars_backslash:
  "parse_escape cs = Some (d, rest) \<Longrightarrow> parse_chars (CHR 0x5C # cs) = map_option (\<lambda>(v, rest'). (d # v, rest')) (parse_chars rest)"
  by (simp add: char_code_def)

lemma parse_chars_escape: "parse_chars (escape_char c @ r) = map_option (\<lambda>(v, rest). (c # v, rest)) (parse_chars r)"
proof -
  note esc = parse_chars_backslash parse_escape_letter parse_escape_unicode
  consider "c = CHR 0x22" | "c = CHR 0x5C" | "c \<in> char_of ` {8, 9, 10, 12, 13 :: nat}"
    | "char_code c < 32" "char_code c \<notin> {8, 9, 10, 12, 13}" | "char_code c \<notin> {34, 92}" "\<not> char_code c < 32"
    by (cases "char_code c \<in> {8, 9, 10, 12, 13}"; cases "char_code c < 32"; cases "char_code c \<in> {34, 92}")
      (auto simp: char_of_quotes dest: char_code_eqD)
  then show ?thesis
  proof cases
    case 1
    then have "escape_char c = [CHR 0x5C, CHR 0x22]" by (simp add: escape_char_def char_code_def)
    then show ?thesis by (simp add: esc 1 del: parse_escape.simps parse_chars.simps)
  next
    case 2
    then have "escape_char c = [CHR 0x5C, CHR 0x5C]" by (simp add: escape_char_def char_code_def)
    then show ?thesis by (simp add: esc 2 del: parse_escape.simps parse_chars.simps)
  next
    case 3
    then show ?thesis by (auto simp: escape_char_def esc simp del: parse_escape.simps parse_chars.simps)
  next
    case 4
    then have "escape_char c = [CHR 0x5C, CHR ''u'', CHR ''0'', CHR ''0'', hex_digit (char_code c div 16), hex_digit (char_code c mod 16)]"
      by (simp add: escape_char_def)
    then show ?thesis using 4(1) by (simp add: esc del: parse_escape.simps parse_chars.simps)
  next
    case 5
    then show ?thesis by (auto simp: escape_char_def)
  qed
qed

lemma parse_chars_quoted: "parse_chars (concat (map escape_char v) @ CHR 0x22 # r) = Some (v, r)"
proof (induction v)
  case Nil
  show ?case by (simp add: char_code_def)
next
  case (Cons c v)
  then show ?case by (simp add: parse_chars_escape)
qed

text \<open>What may follow a value inside a text: nothing, a comma or a closing bracket.\<close>

definition value_end :: "string \<Rightarrow> bool" where
  "value_end r \<longleftrightarrow> r = [] \<or> hd r \<in> {CHR '','', CHR '']'', CHR ''}''}"

lemma value_end_intros [simp]: "value_end []" "value_end (CHR '','' # r)" "value_end (CHR '']'' # r)" "value_end (CHR ''}'' # r)"
  by (simp_all add: value_end_def)

lemma nat_digits_digits: "set (nat_digits n) \<subseteq> Collect is_digit \<and> nat_digits n \<noteq> [] \<and>
   (hd (nat_digits n) = CHR ''0'' \<longrightarrow> n = 0 \<and> length (nat_digits n) = 1)"
proof (induction n rule: nat_digits.induct)
  case (1 n)
  have d: "is_digit (char_of (48 + n mod 10))" by (simp add: is_digit_def)
  show ?case
  proof (cases "n < 10")
    case True
    have "char_of (48 + n) = CHR ''0'' \<longrightarrow> n = 0"
    proof
      assume "char_of (48 + n) = CHR ''0''"
      then have "char_code (char_of (48 + n)) = char_code (CHR ''0'')" by simp
      then show "n = 0" using True by (simp add: char_code_def)
    qed
    then show ?thesis using True d by (simp add: nat_digits.simps[of n])
  next
    case False
    then have "n div 10 \<noteq> 0" by (simp add: div_eq_0_iff)
    then show ?thesis using 1 False d by (auto simp: nat_digits.simps[of n] hd_append)
  qed
qed

lemma parse_nat_digits:
  assumes "value_end r"
  shows "parse_nat (nat_digits n @ r) = Some (n, r)"
proof -
  have r: "r = [] \<or> \<not> is_digit (hd r) \<and> hd r \<notin> {CHR ''.'', CHR ''e'', CHR ''E''}"
    using assms by (auto simp: value_end_def is_digit_def char_code_def)
  have t: "takeWhile is_digit (nat_digits n @ r) = nat_digits n" "dropWhile is_digit (nat_digits n @ r) = r"
    using nat_digits_digits[of n] r by (cases r; auto simp: takeWhile_append2 dropWhile_append2 subset_iff)+
  show ?thesis using nat_digits_digits[of n] r unfolding parse_nat_def t Let_def by (auto simp: digits_value_nat_digits)
qed

lemma int_text_first: "int_text i = c # cs \<Longrightarrow> c = CHR ''-'' \<or> is_digit c"
  using nat_digits_digits[of "nat i"] by (auto simp: int_text_def split: if_splits)

lemma parse_number_text:
  assumes "value_end r"
  shows "parse_number (int_text i @ r) = Some (JNum i, r)"
proof (cases "i < 0")
  case True
  then show ?thesis using assms by (simp add: int_text_def parse_number_def parse_nat_digits)
next
  case False
  obtain c cs where c: "nat_digits (nat i) = c # cs" "is_digit c"
    using nat_digits_digits[of "nat i"] by (cases "nat_digits (nat i)") auto
  then have "c \<noteq> CHR ''-''" by (auto simp: is_digit_def char_code_def)
  then have "parse_number ((c # cs) @ r) = map_option (\<lambda>(n, rest). (JNum (int n), rest)) (parse_nat ((c # cs) @ r))"
    by (simp add: parse_number_def split: char.splits bool.splits)
  then show ?thesis using False parse_nat_digits[OF assms, of "nat i"] by (simp add: int_text_def c(1))
qed

text \<open>The values a program can hold: no object has the same property twice.\<close>

fun json_ok :: "json \<Rightarrow> bool" where
  "json_ok (JArr xs) = list_all json_ok xs"
| "json_ok (JObj ms) = (distinct (map fst ms) \<and> list_all (\<lambda>(k, v). json_ok v) ms)"
| "json_ok _ = True"

fun json_fuel :: "json \<Rightarrow> nat" where
  "json_fuel (JArr xs) = Suc (sum_list (map (\<lambda>x. Suc (json_fuel x)) xs))"
| "json_fuel (JObj ms) = Suc (sum_list (map (\<lambda>(k, v). Suc (json_fuel v)) ms))"
| "json_fuel _ = 1"

lemma skip_ws_other: "char_code c \<notin> {32, 9, 10, 13} \<Longrightarrow> skip_ws (c # cs) = c # cs"
  by (simp add: skip_ws_def)

lemma skip_ws_end: "value_end r \<Longrightarrow> skip_ws r = r"
  by (cases r) (auto simp: value_end_def skip_ws_def char_code_def)

lemma stringify_first:
  obtains c cs where "JSON_stringify v = c # cs" "char_code c \<notin> {32, 9, 10, 13}" "c \<noteq> CHR '']''"
proof (cases v)
  case (JNum i)
  obtain c cs where c: "int_text i = c # cs"
    using nat_digits_digits by (cases "int_text i") (auto simp: int_text_def split: if_splits)
  from int_text_first[OF c] have "char_code c \<notin> {32, 9, 10, 13}" "c \<noteq> CHR '']''"
    by (auto simp: is_digit_def char_code_def)
  then show thesis using that[of c cs] JNum c by simp
next
  case (JBool b)
  then show thesis using that by (cases b) (simp_all add: char_code_def)
qed (use that in \<open>simp_all add: quoted_def char_code_def\<close>)

lemma skip_ws_stringify: "skip_ws (JSON_stringify v @ r) = JSON_stringify v @ r"
  by (rule stringify_first[of v]) (simp add: skip_ws_other)

definition reads_back :: "json \<Rightarrow> bool" where
  "reads_back v \<longleftrightarrow> (\<forall>n r. json_fuel v \<le> n \<longrightarrow> value_end r \<longrightarrow> parse_value n (JSON_stringify v @ r) = Some (v, r))"

lemma reads_backI:
  assumes "\<And>n r. json_fuel v \<le> Suc n \<Longrightarrow> value_end r \<Longrightarrow> parse_value (Suc n) (JSON_stringify v @ r) = Some (v, r)"
  shows "reads_back v"
  unfolding reads_back_def
proof (intro allI impI)
  fix n r assume "json_fuel v \<le> n" and "value_end r"
  moreover have "0 < json_fuel v" by (cases v) simp_all
  ultimately show "parse_value n (JSON_stringify v @ r) = Some (v, r)" using assms by (cases n) simp_all
qed

lemma reads_backD: "reads_back v \<Longrightarrow> json_fuel v \<le> n \<Longrightarrow> value_end r \<Longrightarrow> parse_value n (JSON_stringify v @ r) = Some (v, r)"
  by (simp add: reads_back_def)

lemma parse_elements_text:
  assumes "xs \<noteq> []" and "\<forall>x\<in>set xs. reads_back x" and "sum_list (map (\<lambda>x. Suc (json_fuel x)) xs) \<le> n"
  shows "parse_elements n (join '','' (map JSON_stringify xs) @ CHR '']'' # r) = Some (xs, r)"
  using assms
proof (induction xs arbitrary: n rule: induct_list012)
  case (2 x)
  then obtain m where m: "n = Suc m" "json_fuel x \<le> m" by (cases n) auto
  then show ?case using 2 by (simp add: reads_backD skip_ws_end)
next
  case (3 x y ys)
  then obtain m where m: "n = Suc m" "json_fuel x \<le> m" "sum_list (map (\<lambda>x. Suc (json_fuel x)) (y # ys)) \<le> m"
    by (cases n) auto
  have "parse_elements m (join '','' (map JSON_stringify (y # ys)) @ CHR '']'' # r) = Some (y # ys, r)"
    using 3 m(3) by (intro "3.IH"(2)) auto
  then show ?case using 3 m(2) by (simp add: m(1) reads_backD skip_ws_end)
qed simp

abbreviation member_text :: "string \<times> json \<Rightarrow> string" where
  "member_text m \<equiv> (case m of (k, v) \<Rightarrow> quoted k @ '':'' @ JSON_stringify v)"

lemma add_member_new: "k \<notin> set (map fst ms) \<Longrightarrow> add_member k v ms = (k, v) # ms"
  by (auto simp: add_member_def map_of_eq_None_iff[symmetric] split: option.splits)

lemma parse_member_step:
  assumes "reads_back v" and "json_fuel v \<le> n" and "value_end (c # rest)"
  shows "parse_members (Suc n) (member_text (k, v) @ c # rest) =
    (if c = CHR ''}'' then Some ([(k, v)], rest)
     else if c = CHR '','' then map_option (\<lambda>(ms, rest''). (add_member k v ms, rest'')) (parse_members n rest)
     else None)"
proof -
  have "skip_ws (CHR '':'' # r) = CHR '':'' # r" for r by (simp add: skip_ws_def char_code_def)
  moreover have "skip_ws (CHR 0x22 # r) = CHR 0x22 # r" "char_code (CHR 0x22) = 34" for r by (simp_all add: skip_ws_def char_code_def)
  ultimately show ?thesis using assms by (simp add: quoted_def parse_chars_quoted reads_backD skip_ws_end del: parse_chars.simps)
qed

lemma parse_members_text:
  assumes "ms \<noteq> []" and "\<forall>(k, v)\<in>set ms. reads_back v" and "distinct (map fst ms)"
    and "sum_list (map (\<lambda>(k, v). Suc (json_fuel v)) ms) \<le> n"
  shows "parse_members n (join '','' (map member_text ms) @ CHR ''}'' # r) = Some (ms, r)"
  using assms
proof (induction ms arbitrary: n rule: induct_list012)
  case (2 m)
  obtain k v where kv: "m = (k, v)" by (cases m)
  then obtain i where i: "n = Suc i" "json_fuel v \<le> i" using 2 by (cases n) auto
  then show ?case using 2 kv parse_member_step[of v i "CHR ''}''" r k] by simp
next
  case (3 m m' ms)
  obtain k v where kv: "m = (k, v)" by (cases m)
  then obtain i where i: "n = Suc i" "json_fuel v \<le> i" "sum_list (map (\<lambda>(k, v). Suc (json_fuel v)) (m' # ms)) \<le> i"
    using 3 by (cases n) auto
  have "parse_members i (join '','' (map member_text (m' # ms)) @ CHR ''}'' # r) = Some (m' # ms, r)"
    using 3 i(3) by (intro "3.IH"(2)) auto
  moreover have "add_member k v (m' # ms) = (k, v) # m' # ms" using 3 kv by (intro add_member_new) auto
  ultimately show ?case using 3 kv i(2) parse_member_step[of v i "CHR '',''" _ k] by (simp add: i(1))
qed simp

lemma parse_value_array:
  assumes "parse_elements n cs = Some (xs, r)" and "take 1 (skip_ws cs) \<noteq> '']''"
  shows "parse_value (Suc n) (CHR ''['' # cs) = Some (JArr xs, r)"
  using assms by (simp add: skip_ws_def char_code_def)

lemma parse_value_object:
  assumes "parse_members n cs = Some (ms, r)" and "take 1 (skip_ws cs) \<noteq> ''}''"
  shows "parse_value (Suc n) (CHR ''{'' # cs) = Some (JObj ms, r)"
  using assms by (simp add: skip_ws_def char_code_def)

lemma parse_value_empty:
  "parse_value (Suc n) (CHR ''['' # CHR '']'' # r) = Some (JArr [], r)"
  "parse_value (Suc n) (CHR ''{'' # CHR ''}'' # r) = Some (JObj [], r)"
  by (simp_all add: skip_ws_def char_code_def)

lemma elements_first:
  assumes "xs \<noteq> []"
  shows "take 1 (skip_ws (join '','' (map JSON_stringify xs) @ r)) \<noteq> '']''"
proof -
  from assms obtain x ys where x: "xs = x # ys" by (cases xs) auto
  obtain c cs where "JSON_stringify x = c # cs" "char_code c \<notin> {32, 9, 10, 13}" "c \<noteq> CHR '']''" by (rule stringify_first)
  then show ?thesis by (cases ys) (simp_all add: x skip_ws_other)
qed

lemma members_first: "ms \<noteq> [] \<Longrightarrow> take 1 (skip_ws (join '','' (map member_text ms) @ r)) \<noteq> ''}''"
  by (induction ms rule: induct_list012) (auto simp: quoted_def skip_ws_def char_code_def)

lemma stringify_reads_back: "json_ok v \<Longrightarrow> reads_back v"
proof (induction v)
  case JNull
  show ?case by (rule reads_backI) (simp add: skip_ws_def char_code_def)
next
  case (JBool b)
  show ?case by (rule reads_backI) (cases b; simp add: skip_ws_def char_code_def)
next
  case (JNum i)
  obtain c cs where c: "int_text i = c # cs" "c = CHR ''-'' \<or> is_digit c"
    using int_text_first nat_digits_digits by (cases "int_text i") (auto simp: int_text_def split: if_splits)
  then have "skip_ws (c # cs @ r) = c # cs @ r" "char_code c \<noteq> 34" "c \<noteq> CHR ''[''" "c \<noteq> CHR ''{''" "c \<noteq> CHR ''n''"
    "c \<noteq> CHR ''t''" "c \<noteq> CHR ''f''" for r
    by (auto simp: skip_ws_def is_digit_def char_code_def)
  then have "parse_value (Suc n) (c # cs @ r) = parse_number (c # cs @ r)" for n r by simp
  then show ?case using parse_number_text[of _ i] c(1) by (intro reads_backI) simp
next
  case (JStr t)
  have "skip_ws (CHR 0x22 # r) = CHR 0x22 # r" "char_code (CHR 0x22) = 34" for r by (simp_all add: skip_ws_def char_code_def)
  then show ?case by (intro reads_backI) (simp add: quoted_def parse_chars_quoted del: parse_chars.simps)
next
  case (JArr xs)
  then have ok: "\<forall>x\<in>set xs. reads_back x" by (auto simp: list_all_iff)
  show ?case
  proof (cases "xs = []")
    case False
    show ?thesis
    proof (rule reads_backI)
      fix n r assume "json_fuel (JArr xs) \<le> Suc n"
      then have "parse_elements n (join '','' (map JSON_stringify xs) @ CHR '']'' # r) = Some (xs, r)"
        by (intro parse_elements_text[OF False ok]) simp
      from parse_value_array[OF this elements_first[OF False]]
      show "parse_value (Suc n) (JSON_stringify (JArr xs) @ r) = Some (JArr xs, r)" by (simp del: parse_value.simps)
    qed
  qed (intro reads_backI, simp add: parse_value_empty del: parse_value.simps)
next
  case (JObj ms)
  then have ok: "\<forall>(k, v)\<in>set ms. reads_back v" and d: "distinct (map fst ms)"
    by (fastforce simp: list_all_iff)+
  show ?case
  proof (cases "ms = []")
    case False
    show ?thesis
    proof (rule reads_backI)
      fix n r assume "json_fuel (JObj ms) \<le> Suc n"
      then have "parse_members n (join '','' (map member_text ms) @ CHR ''}'' # r) = Some (ms, r)"
        by (intro parse_members_text[OF False ok d]) simp
      from parse_value_object[OF this members_first[OF False]]
      show "parse_value (Suc n) (JSON_stringify (JObj ms) @ r) = Some (JObj ms, r)" by (simp del: parse_value.simps)
    qed
  qed (intro reads_backI, simp add: parse_value_empty del: parse_value.simps)
qed

lemma length_join: "xs \<noteq> [] \<Longrightarrow> length (join [c] xs) + 1 = sum_list (map (\<lambda>x. Suc (length x)) xs)"
  by (induction xs rule: induct_list012) auto

lemma sum_doubled: "sum_list (map (\<lambda>x. 2 * f x) xs) = 2 * sum_list (map (f :: 'a \<Rightarrow> nat) xs)"
  by (rule sum_list_const_mult)

lemma json_fuel_bound: "json_fuel v \<le> 2 * length (JSON_stringify v)"
proof (induction v)
  case (JNum i)
  show ?case using nat_digits_digits[of "nat i"] nat_digits_digits[of "nat (- i)"]
    by (auto simp: int_text_def Suc_le_eq length_greater_0_conv)
next
  case (JArr xs)
  have "sum_list (map (\<lambda>x. Suc (json_fuel x)) xs) \<le> sum_list (map (\<lambda>x. 2 * Suc (length (JSON_stringify x))) xs)"
    using JArr by (intro sum_list_mono) fastforce
  also have "\<dots> \<le> 2 * (length (join '','' (map JSON_stringify xs)) + 1)"
    using length_join[of "map JSON_stringify xs" "CHR '',''"]
    unfolding sum_doubled by (cases "xs = []") (simp_all add: comp_def)
  finally show ?case by simp
next
  case (JObj ms)
  have "sum_list (map (\<lambda>(k, v). Suc (json_fuel v)) ms) \<le> sum_list (map (\<lambda>m. 2 * Suc (length (member_text m))) ms)"
    using JObj by (intro sum_list_mono) (fastforce simp: quoted_def)
  also have "\<dots> \<le> 2 * (length (join '','' (map member_text ms)) + 1)"
    using length_join[of "map member_text ms" "CHR '',''"]
    unfolding sum_doubled by (cases "ms = []") (simp_all add: comp_def)
  finally show ?case by simp
qed (simp_all add: quoted_def)

theorem JSON_parse_stringify: "json_ok v \<Longrightarrow> JSON_parse (JSON_stringify v) = Some v"
  using reads_backD[OF stringify_reads_back json_fuel_bound, of v "[]"] by (simp add: JSON_parse_def skip_ws_def)

section \<open>The message of an error body\<close>

text \<open>\<open>String(v)\<close>; inside an array \<open>null\<close> gives the empty text.\<close>

fun js_String :: "json \<Rightarrow> string" where
  "js_String JNull = ''null''"
| "js_String (JBool b) = (if b then ''true'' else ''false'')"
| "js_String (JNum i) = int_text i"
| "js_String (JStr v) = v"
| "js_String (JArr xs) = join '','' (map (\<lambda>x. if x = JNull then [] else js_String x) xs)"
| "js_String (JObj ms) = ''[object Object]''"

text \<open>
  A Nest error carries \<open>message\<close>, a flattened Zod error \<open>fieldErrors\<close> and \<open>formErrors\<close>, each a list of texts;
  the first text found is the message.
\<close>

definition first_text :: "json option \<Rightarrow> string option" where
  "first_text v = (case v of Some (JArr (x # _)) \<Rightarrow> Some (js_String x) | _ \<Rightarrow> None)"

definition first_field_error :: "json option \<Rightarrow> string option" where
  "first_field_error v = (case v of
     Some (JObj byField) \<Rightarrow> (case List.find (\<lambda>(field, errors). first_text (Some errors) \<noteq> None) byField of
        Some (field, errors) \<Rightarrow> first_text (Some errors)
      | None \<Rightarrow> None)
   | _ \<Rightarrow> None)"

definition extractErrorMessage :: "json \<Rightarrow> string \<Rightarrow> string" where
  "extractErrorMessage body fallback = (case body of
     JObj record \<Rightarrow> (case map_of record ''message'' of
        Some (JStr message) \<Rightarrow> message
      | message \<Rightarrow> (case first_text message of
          Some text \<Rightarrow> text
        | None \<Rightarrow> (case first_field_error (map_of record ''fieldErrors'') of
            Some text \<Rightarrow> text
          | None \<Rightarrow> (case first_text (map_of record ''formErrors'') of Some text \<Rightarrow> text | None \<Rightarrow> fallback))))
   | _ \<Rightarrow> fallback)"

lemma extractErrorMessage_nest: "extractErrorMessage (JObj [(''statusCode'', n), (''message'', JStr m)]) d = m"
  by (simp add: extractErrorMessage_def)

lemma extractErrorMessage_zod:
  "extractErrorMessage (JObj [(''formErrors'', JArr []), (''fieldErrors'', JObj [(f, JArr []), (g, JArr (JStr m # ms))])]) d = m"
  by (simp add: extractErrorMessage_def first_text_def first_field_error_def)

end
