(* ===== verification/Offline.thy ===== *)
theory Offline
  imports Json
begin

text \<open>
  The offline store of the mobile application: the SQLite tables \<open>mutation_queue\<close> and \<open>query_cache\<close>, the
  queue of writes and its replay. A replay is asynchronous: between the sending of a request and its
  answer screens may queue further writes and a sign-out may purge the table, so besides the code's own
  sequential functions there is a step relation on the device, with the list that a running
  \<open>processQueue\<close> has read (the module's \<open>isProcessing\<close> is that such a list is there).
\<close>

section \<open>Tables\<close>

datatype http_method = M_POST | M_PATCH | M_DELETE

datatype mutation_scope = Scope_tenant | Scope_auth

datatype mutation_status = Mut_pending | Mut_processing | Mut_failed

record mutation_row =
  mut_id :: nat
  mut_method :: http_method
  mut_path :: string
  mut_body :: "string option"
  mut_scope :: mutation_scope
  mut_status :: mutation_status
  mut_retryCount :: nat
  mut_lastError :: "string option"
  mut_idempotencyKey :: string
  mut_createdAt :: date
  mut_updatedAt :: date

record queued_mutation =
  qm_id :: nat
  qm_method :: http_method
  qm_path :: string
  qm_body :: "json option"
  qm_scope :: mutation_scope
  qm_status :: mutation_status
  qm_retryCount :: nat
  qm_lastError :: "string option"
  qm_idempotencyKey :: string
  qm_createdAt :: date
  qm_updatedAt :: date

text \<open>\<open>mutation_seq\<close> is the row id that AUTOINCREMENT gave last; it is never given again.\<close>

record offline_db =
  query_cache :: "(string \<times> date) option"
  mutation_queue :: "mutation_row list"
  mutation_seq :: nat

definition empty_offline_db :: offline_db where
  "empty_offline_db = \<lparr>query_cache = None, mutation_queue = [], mutation_seq = 0\<rparr>"

section \<open>Idempotency keys\<close>

fun base36 :: "nat \<Rightarrow> string" where
  "base36 n = (let d = n mod 36; c = (if d < 10 then char_of (48 + d) else char_of (87 + d))
     in if n < 36 then [c] else base36 (n div 36) @ [c])"

declare base36.simps [simp del]

text \<open>\<open>uuid\<close> is what \<open>crypto.randomUUID\<close> draws where it exists, \<open>random\<close> the digits of \<open>Math.random\<close>.\<close>

definition generateIdempotencyKey :: "string option \<Rightarrow> date \<Rightarrow> string \<Rightarrow> nat \<Rightarrow> string \<times> nat" where
  "generateIdempotencyKey uuid now random counter = (case uuid of
     Some u \<Rightarrow> (u, counter)
   | None \<Rightarrow> (''mut-'' @ base36 (nat now) @ ''-'' @ base36 (counter + 1) @ ''-'' @ random, counter + 1))"

section \<open>The query cache\<close>

definition readCache :: "offline_db \<Rightarrow> string option" where
  "readCache s = map_option fst (query_cache s)"

definition writeCache :: "date \<Rightarrow> string option \<Rightarrow> offline_db \<Rightarrow> offline_db" where
  "writeCache now data s = s\<lparr>query_cache := map_option (\<lambda>d. (d, now)) data\<rparr>"

section \<open>Rows of the queue\<close>

definition rowToMutation :: "mutation_row \<Rightarrow> exn + queued_mutation" where
  "rowToMutation row =
     (case (case mut_body row of None \<Rightarrow> Inr None
            | Some text \<Rightarrow> (case JSON_parse text of None \<Rightarrow> Inl (JsError ''SyntaxError'') | Some v \<Rightarrow> Inr (Some v))) of
        Inl e \<Rightarrow> Inl e
      | Inr body \<Rightarrow> Inr \<lparr>qm_id = mut_id row, qm_method = mut_method row, qm_path = mut_path row, qm_body = body,
          qm_scope = mut_scope row, qm_status = mut_status row, qm_retryCount = mut_retryCount row,
          qm_lastError = mut_lastError row, qm_idempotencyKey = mut_idempotencyKey row,
          qm_createdAt = mut_createdAt row, qm_updatedAt = mut_updatedAt row\<rparr>)"

record enqueue_input =
  enq_method :: http_method
  enq_path :: string
  enq_body :: "json option"
  enq_scope :: "mutation_scope option"

definition insertMutation :: "date \<Rightarrow> string \<Rightarrow> enqueue_input \<Rightarrow> offline_db \<Rightarrow> (exn + queued_mutation) \<times> offline_db" where
  "insertMutation now key input s =
     (let newId = mutation_seq s + 1;
          row = \<lparr>mut_id = newId, mut_method = enq_method input, mut_path = enq_path input,
            mut_body = map_option JSON_stringify (enq_body input),
            mut_scope = (case enq_scope input of None \<Rightarrow> Scope_tenant | Some scope \<Rightarrow> scope),
            mut_status = Mut_pending, mut_retryCount = 0, mut_lastError = None, mut_idempotencyKey = key,
            mut_createdAt = now, mut_updatedAt = now\<rparr>;
          s' = s\<lparr>mutation_queue := mutation_queue s @ [row], mutation_seq := newId\<rparr>
      in (case find_by mut_id newId (mutation_queue s') of
            None \<Rightarrow> Inl (JsError ''Echec de la lecture de la mutation qui vient d'etre inseree'')
          | Some row \<Rightarrow> rowToMutation row, s'))"

definition listPendingMutations :: "offline_db \<Rightarrow> exn + queued_mutation list" where
  "listPendingMutations s =
     sum_mapM rowToMutation (ascending mut_id (filter (\<lambda>row. mut_status row \<in> {Mut_pending, Mut_processing}) (mutation_queue s)))"

definition listMutations :: "offline_db \<Rightarrow> exn + queued_mutation list" where
  "listMutations s = sum_mapM rowToMutation (ascending mut_id (mutation_queue s))"

definition update_row :: "nat \<Rightarrow> (mutation_row \<Rightarrow> mutation_row) \<Rightarrow> offline_db \<Rightarrow> offline_db" where
  "update_row i f s = s\<lparr>mutation_queue := update_by mut_id i f (mutation_queue s)\<rparr>"

definition markMutationProcessing :: "date \<Rightarrow> nat \<Rightarrow> offline_db \<Rightarrow> offline_db" where
  "markMutationProcessing now i = update_row i (\<lambda>row. row\<lparr>mut_status := Mut_processing, mut_updatedAt := now\<rparr>)"

definition markMutationPending :: "date \<Rightarrow> nat \<Rightarrow> offline_db \<Rightarrow> offline_db" where
  "markMutationPending now i = update_row i (\<lambda>row. row\<lparr>mut_status := Mut_pending, mut_updatedAt := now\<rparr>)"

definition markMutationDone :: "nat \<Rightarrow> offline_db \<Rightarrow> offline_db" where
  "markMutationDone i s = s\<lparr>mutation_queue := filter (\<lambda>row. mut_id row \<noteq> i) (mutation_queue s)\<rparr>"

definition markMutationFailed :: "date \<Rightarrow> nat \<Rightarrow> string \<Rightarrow> offline_db \<Rightarrow> offline_db" where
  "markMutationFailed now i error =
     update_row i (\<lambda>row. row\<lparr>mut_status := Mut_failed, mut_lastError := Some error, mut_updatedAt := now\<rparr>)"

text \<open>The status is left as it is: \<open>processing\<close>, which the next pass reads again.\<close>

definition incrementRetry :: "date \<Rightarrow> nat \<Rightarrow> string \<Rightarrow> offline_db \<Rightarrow> offline_db" where
  "incrementRetry now i error =
     update_row i (\<lambda>row. row\<lparr>mut_retryCount := mut_retryCount row + 1, mut_lastError := Some error, mut_updatedAt := now\<rparr>)"

definition purgeTenantScoped :: "offline_db \<Rightarrow> offline_db" where
  "purgeTenantScoped s = s\<lparr>mutation_queue := filter (\<lambda>row. mut_scope row = Scope_auth) (mutation_queue s)\<rparr>"

section \<open>Queueing a write\<close>

definition path_char :: "char \<Rightarrow> bool" where
  "path_char c \<longleftrightarrow> (let n = char_code c in 48 \<le> n \<and> n \<le> 57 \<or> 65 \<le> n \<and> n \<le> 90 \<or> 97 \<le> n \<and> n \<le> 122) \<or>
     c \<in> {CHR ''-'', CHR ''.'', CHR ''_'', CHR ''~'', CHR ''/''}"

definition VALID_MUTATION_PATH :: "string \<Rightarrow> bool" where
  "VALID_MUTATION_PATH path = (case path of [] \<Rightarrow> False | c # cs \<Rightarrow> c = CHR ''/'' \<and> list_all path_char cs)"

fun js_includes :: "string \<Rightarrow> string \<Rightarrow> bool" where
  "js_includes [] sub \<longleftrightarrow> sub = []"
| "js_includes (c # cs) sub \<longleftrightarrow> take (length sub) (c # cs) = sub \<or> js_includes cs sub"

definition assertValidMutationPath :: "string \<Rightarrow> exn + unit" where
  "assertValidMutationPath path =
     (if \<not> VALID_MUTATION_PATH path \<or> js_includes path ''..'' \<or> js_includes path ''//''
      then Inl (JsError (''Chemin de mutation invalide : '' @ path)) else Inr ())"

definition enqueueMutation :: "date \<Rightarrow> string \<Rightarrow> enqueue_input \<Rightarrow> offline_db \<Rightarrow> (exn + queued_mutation) \<times> offline_db" where
  "enqueueMutation now key input s = (case assertValidMutationPath (enq_path input) of
     Inl e \<Rightarrow> (Inl e, s)
   | Inr _ \<Rightarrow> insertMutation now key input s)"

definition assertMutationSucceeded :: "nat \<Rightarrow> offline_db \<Rightarrow> exn + unit" where
  "assertMutationSucceeded mutationId s = (case listMutations s of
     Inl e \<Rightarrow> Inl e
   | Inr mutations \<Rightarrow> (case List.find (\<lambda>candidate. qm_id candidate = mutationId) mutations of
       None \<Rightarrow> Inr ()
     | Some m \<Rightarrow>
         if qm_status m = Mut_failed
         then Inl (JsError (case qm_lastError m of None \<Rightarrow> ''La modification a ete refusee par le serveur'' | Some text \<Rightarrow> text))
         else Inr ()))"

section \<open>Replay\<close>

definition MAX_TRANSIENT_RETRIES :: nat where "MAX_TRANSIENT_RETRIES = 5"

definition BASE_BACKOFF_MS :: nat where "BASE_BACKOFF_MS = 2000"

definition MAX_BACKOFF_MS :: nat where "MAX_BACKOFF_MS = 60000"

record http_request =
  hr_method :: http_method
  hr_path :: string
  hr_authorization :: string
  hr_idempotencyKey :: string
  hr_body :: "string option"

record http_response =
  rs_status :: nat
  rs_body :: json

text \<open>\<open>apiFetch\<close> throws (no network, the 15 seconds have passed) or gives a response.\<close>

datatype fetch_result = Fetch_failed | Fetched http_response

definition response_ok :: "http_response \<Rightarrow> bool" where
  "response_ok r \<longleftrightarrow> 200 \<le> rs_status r \<and> rs_status r \<le> 299"

definition mutation_request :: "string \<Rightarrow> queued_mutation \<Rightarrow> http_request" where
  "mutation_request accessToken m = \<lparr>hr_method = qm_method m, hr_path = qm_path m,
     hr_authorization = ''Bearer '' @ accessToken, hr_idempotencyKey = qm_idempotencyKey m,
     hr_body = map_option JSON_stringify (qm_body m)\<rparr>"

definition scheduleRetry :: "nat \<Rightarrow> nat" where
  "scheduleRetry retryCount = min (2 ^ retryCount * BASE_BACKOFF_MS) MAX_BACKOFF_MS"

datatype process_outcome = Continue | Stop "nat option"

text \<open>
  \<open>processOne\<close> up to the sending of the request (\<open>None\<close>: there is no token, the pass stops) and from
  its answer on; \<open>Stop (Some d)\<close> also starts a timer of \<open>d\<close> milliseconds.
\<close>

definition processOne_send :: "string option \<Rightarrow> date \<Rightarrow> queued_mutation \<Rightarrow> offline_db \<Rightarrow> (http_request \<times> offline_db) option" where
  "processOne_send accessToken now m s =
     (if \<not> truthy accessToken then None
      else Some (mutation_request (the accessToken) m, markMutationProcessing now (qm_id m) s))"

definition processOne_receive :: "date \<Rightarrow> queued_mutation \<Rightarrow> fetch_result \<Rightarrow> offline_db \<Rightarrow> process_outcome \<times> offline_db" where
  "processOne_receive now m fetched s = (case fetched of
     Fetch_failed \<Rightarrow> (Stop None, markMutationPending now (qm_id m) s)
   | Fetched response \<Rightarrow>
       if response_ok response then (Continue, markMutationDone (qm_id m) s)
       else if rs_status response = 401 then (Stop None, markMutationPending now (qm_id m) s)
       else if 500 \<le> rs_status response \<or> rs_status response = 429 then
         (let nextRetryCount = qm_retryCount m + 1
          in if MAX_TRANSIENT_RETRIES \<le> nextRetryCount
             then (Continue, markMutationFailed now (qm_id m)
                (''HTTP '' @ nat_digits (rs_status response) @ '' apres '' @ nat_digits nextRetryCount @ '' tentatives'') s)
             else (Stop (Some (scheduleRetry nextRetryCount)),
                incrementRetry now (qm_id m) (''HTTP '' @ nat_digits (rs_status response)) s))
       else (Continue, markMutationFailed now (qm_id m)
          (extractErrorMessage (rs_body response) (''HTTP '' @ nat_digits (rs_status response))) s))"

text \<open>
  A whole pass when nothing else touches the store meanwhile. The server is any function of the request
  and its own state; \<open>link i\<close> says what the network does with the request of mutation \<open>i\<close>.
\<close>

datatype link = Link_down | Response_lost | Link_up

definition apiFetch :: "(http_request \<Rightarrow> 's \<Rightarrow> http_response \<times> 's) \<Rightarrow> link \<Rightarrow> http_request \<Rightarrow> 's \<Rightarrow> fetch_result \<times> 's" where
  "apiFetch server l request s = (case l of
     Link_down \<Rightarrow> (Fetch_failed, s)
   | Response_lost \<Rightarrow> (Fetch_failed, snd (server request s))
   | Link_up \<Rightarrow> (let (response, s') = server request s in (Fetched response, s')))"

definition processOne ::
    "(http_request \<Rightarrow> 's \<Rightarrow> http_response \<times> 's) \<Rightarrow> link \<Rightarrow> string option \<Rightarrow> date \<Rightarrow> queued_mutation \<Rightarrow> offline_db \<times> 's \<Rightarrow>
     process_outcome \<times> offline_db \<times> 's" where
  "processOne server l accessToken now m w = (case w of (q, s) \<Rightarrow> (case processOne_send accessToken now m q of
     None \<Rightarrow> (Stop None, q, s)
   | Some (request, q1) \<Rightarrow>
       (let (fetched, s') = apiFetch server l request s; (outcome, q2) = processOne_receive now m fetched q1
        in (outcome, q2, s'))))"

fun process_batch ::
    "(http_request \<Rightarrow> 's \<Rightarrow> http_response \<times> 's) \<Rightarrow> (nat \<Rightarrow> link) \<Rightarrow> string option \<Rightarrow> date \<Rightarrow> queued_mutation list \<Rightarrow> offline_db \<times> 's \<Rightarrow>
     nat option \<times> offline_db \<times> 's" where
  "process_batch server link accessToken now [] w = (None, w)"
| "process_batch server link accessToken now (m # ms) w =
     (case processOne server (link (qm_id m)) accessToken now m w of
        (Continue, w') \<Rightarrow> process_batch server link accessToken now ms w'
      | (Stop timer, w') \<Rightarrow> (timer, w'))"

text \<open>The timer, if one is started, calls \<open>processQueue\<close> again.\<close>

definition processQueue ::
    "(http_request \<Rightarrow> 's \<Rightarrow> http_response \<times> 's) \<Rightarrow> (nat \<Rightarrow> link) \<Rightarrow> string option \<Rightarrow> date \<Rightarrow> offline_db \<times> 's \<Rightarrow>
     (exn + nat option) \<times> offline_db \<times> 's" where
  "processQueue server link accessToken now w = (case listPendingMutations (fst w) of
     Inl e \<Rightarrow> (Inl e, w)
   | Inr pending \<Rightarrow> (let (timer, w') = process_batch server link accessToken now pending w in (Inr timer, w')))"

section \<open>Well-formed queues\<close>

text \<open>
  Rows are in the order of their ids, no id is above the sequence, every stored body is the text of a
  value, and no row has used up its attempts (the last one is not counted).
\<close>

definition waiting :: "mutation_row \<Rightarrow> bool" where
  "waiting row \<longleftrightarrow> mut_status row \<in> {Mut_pending, Mut_processing}"

definition row_ok :: "mutation_row \<Rightarrow> bool" where
  "row_ok row \<longleftrightarrow> (\<forall>text. mut_body row = Some text \<longrightarrow> (\<exists>v. json_ok v \<and> text = JSON_stringify v)) \<and>
     mut_retryCount row < MAX_TRANSIENT_RETRIES"

definition queue_wf :: "offline_db \<Rightarrow> bool" where
  "queue_wf q \<longleftrightarrow> sorted_wrt (<) (map mut_id (mutation_queue q)) \<and>
     (\<forall>row\<in>set (mutation_queue q). mut_id row \<le> mutation_seq q \<and> row_ok row)"

definition mutation_of :: "mutation_row \<Rightarrow> queued_mutation" where
  "mutation_of row = \<lparr>qm_id = mut_id row, qm_method = mut_method row, qm_path = mut_path row,
     qm_body = map_option (\<lambda>text. the (JSON_parse text)) (mut_body row), qm_scope = mut_scope row, qm_status = mut_status row,
     qm_retryCount = mut_retryCount row, qm_lastError = mut_lastError row, qm_idempotencyKey = mut_idempotencyKey row,
     qm_createdAt = mut_createdAt row, qm_updatedAt = mut_updatedAt row\<rparr>"

lemma mutation_of_simps [simp]:
  "qm_id (mutation_of row) = mut_id row" "qm_method (mutation_of row) = mut_method row" "qm_path (mutation_of row) = mut_path row"
  "qm_status (mutation_of row) = mut_status row" "qm_retryCount (mutation_of row) = mut_retryCount row"
  "qm_idempotencyKey (mutation_of row) = mut_idempotencyKey row" "qm_lastError (mutation_of row) = mut_lastError row"
  "qm_scope (mutation_of row) = mut_scope row"
  by (simp_all add: mutation_of_def)

lemma rowToMutation_ok: "row_ok row \<Longrightarrow> rowToMutation row = Inr (mutation_of row)"
  by (auto simp: row_ok_def rowToMutation_def mutation_of_def JSON_parse_stringify split: option.splits)

text \<open>What is sent again is the stored text.\<close>

lemma stored_body_sent: "row_ok row \<Longrightarrow> map_option JSON_stringify (qm_body (mutation_of row)) = mut_body row"
  by (cases "mut_body row") (auto simp: row_ok_def mutation_of_def JSON_parse_stringify)

lemma queue_wf_rows: "queue_wf q \<Longrightarrow> row \<in> set (mutation_queue q) \<Longrightarrow> row_ok row"
  by (simp add: queue_wf_def)

lemma queue_wf_distinct: "queue_wf q \<Longrightarrow> distinct (map mut_id (mutation_queue q))"
  by (simp add: queue_wf_def strict_sorted_iff)

lemma queue_wf_same:
  assumes "queue_wf q" and "row \<in> set (mutation_queue q)" and "row' \<in> set (mutation_queue q)" and "mut_id row = mut_id row'"
  shows "row = row'"
proof -
  have "inj_on mut_id (set (mutation_queue q))" using queue_wf_distinct[OF assms(1)] by (simp add: distinct_map)
  then show ?thesis using assms(2-4) by (auto dest: inj_onD)
qed

lemma ascending_sorted: "sorted_wrt (<) (map key rows) \<Longrightarrow> ascending key (filter P rows) = filter P rows"
  unfolding ascending_def
  by (intro sort_key_id_if_sorted) (simp add: sorted_filter strict_sorted_iff)

lemma listPending_wf:
  assumes "queue_wf q"
  shows "listPendingMutations q = Inr (map mutation_of (filter waiting (mutation_queue q)))"
proof -
  have "ascending mut_id (filter waiting (mutation_queue q)) = filter waiting (mutation_queue q)"
    using assms by (intro ascending_sorted) (simp add: queue_wf_def)
  moreover have "sum_mapM rowToMutation (filter waiting (mutation_queue q)) = Inr (map mutation_of (filter waiting (mutation_queue q)))"
    by (intro sum_mapM_Inr) (use assms in \<open>auto intro: rowToMutation_ok queue_wf_rows\<close>)
  ultimately show ?thesis unfolding listPendingMutations_def waiting_def[symmetric] by simp
qed

lemma listMutations_wf: "queue_wf q \<Longrightarrow> listMutations q = Inr (map mutation_of (mutation_queue q))"
  using ascending_sorted[of mut_id "mutation_queue q" "\<lambda>_. True"]
  by (simp add: listMutations_def queue_wf_def sum_mapM_Inr[of _ _ mutation_of] rowToMutation_ok)

text \<open>Queueing appends one row that is ready to be sent.\<close>

lemma insertMutation_effect:
  assumes "insertMutation now key input q = (Inr m, q')" and "\<And>v. enq_body input = Some v \<Longrightarrow> json_ok v" and "queue_wf q"
  obtains row where "q' = q\<lparr>mutation_queue := mutation_queue q @ [row], mutation_seq := mutation_seq q + 1\<rparr>"
    "row_ok row" "m = mutation_of row" "mut_id row = mutation_seq q + 1" "mut_method row = enq_method input"
    "mut_path row = enq_path input" "mut_body row = map_option JSON_stringify (enq_body input)" "mut_idempotencyKey row = key"
    "mut_status row = Mut_pending" "mut_retryCount row = 0"
proof -
  define row where "row = \<lparr>mut_id = mutation_seq q + 1, mut_method = enq_method input, mut_path = enq_path input,
    mut_body = map_option JSON_stringify (enq_body input),
    mut_scope = (case enq_scope input of None \<Rightarrow> Scope_tenant | Some scope \<Rightarrow> scope),
    mut_status = Mut_pending, mut_retryCount = 0, mut_lastError = None, mut_idempotencyKey = key,
    mut_createdAt = now, mut_updatedAt = now\<rparr>"
  have ok: "row_ok row" using assms(2) by (auto simp: row_ok_def row_def MAX_TRANSIENT_RETRIES_def)
  have "find_by mut_id (mutation_seq q + 1) (mutation_queue q) = None"
    using assms(3) by (fastforce simp: find_by_None_iff queue_wf_def)
  then have "insertMutation now key input q =
      (rowToMutation row, q\<lparr>mutation_queue := mutation_queue q @ [row], mutation_seq := mutation_seq q + 1\<rparr>)"
    by (simp add: insertMutation_def Let_def row_def)
  then have r: "m = mutation_of row" "q' = q\<lparr>mutation_queue := mutation_queue q @ [row], mutation_seq := mutation_seq q + 1\<rparr>"
    using assms(1) rowToMutation_ok[OF ok] by simp_all
  show thesis by (rule that[OF r(2) ok r(1)]) (simp_all add: row_def)
qed

lemma insertMutation_succeeds:
  assumes "queue_wf q" and "\<And>v. enq_body input = Some v \<Longrightarrow> json_ok v"
  obtains m q' where "insertMutation now key input q = (Inr m, q')"
proof -
  have "find_by mut_id (mutation_seq q + 1) (mutation_queue q) = None"
    using assms(1) by (fastforce simp: find_by_None_iff queue_wf_def)
  moreover have "\<exists>m. rowToMutation row = Inr m" if "mut_body row = map_option JSON_stringify (enq_body input)" for row
    using that assms(2) by (cases "enq_body input") (auto simp: rowToMutation_def JSON_parse_stringify)
  ultimately show thesis using that by (fastforce simp: insertMutation_def Let_def)
qed

lemma appended_wf:
  assumes "queue_wf q" and "row_ok row" and "mut_id row = mutation_seq q + 1"
  shows "queue_wf (q\<lparr>mutation_queue := mutation_queue q @ [row], mutation_seq := mutation_seq q + 1\<rparr>)"
  using assms by (auto simp: queue_wf_def sorted_wrt_append intro: le_imp_less_Suc le_SucI)

lemma empty_queue_wf: "queue_wf empty_offline_db"
  by (simp add: queue_wf_def empty_offline_db_def)

lemma enqueueMutation_effect:
  assumes "enqueueMutation now key input q = (Inr m, q')" and "\<And>v. enq_body input = Some v \<Longrightarrow> json_ok v" and "queue_wf q"
  shows "queue_wf q'"
proof -
  have "insertMutation now key input q = (Inr m, q')" using assms(1) by (auto simp: enqueueMutation_def split: sum.splits)
  then show ?thesis using assms(2,3) by (elim insertMutation_effect) (auto intro: appended_wf[simplified])
qed

section \<open>One pass over the queue\<close>

text \<open>What the answer to its request makes of a row: nothing is left of a row whose request succeeded.\<close>

definition after_attempt :: "date \<Rightarrow> fetch_result \<Rightarrow> mutation_row \<Rightarrow> mutation_row list" where
  "after_attempt now fetched row = (case fetched of
     Fetch_failed \<Rightarrow> [row\<lparr>mut_status := Mut_pending, mut_updatedAt := now\<rparr>]
   | Fetched response \<Rightarrow>
       if response_ok response then []
       else if rs_status response = 401 then [row\<lparr>mut_status := Mut_pending, mut_updatedAt := now\<rparr>]
       else if 500 \<le> rs_status response \<or> rs_status response = 429 then
         (if MAX_TRANSIENT_RETRIES \<le> mut_retryCount row + 1
          then [row\<lparr>mut_status := Mut_failed, mut_lastError :=
             Some (''HTTP '' @ nat_digits (rs_status response) @ '' apres '' @ nat_digits (mut_retryCount row + 1) @ '' tentatives''),
             mut_updatedAt := now\<rparr>]
          else [row\<lparr>mut_status := Mut_processing, mut_retryCount := mut_retryCount row + 1,
             mut_lastError := Some (''HTTP '' @ nat_digits (rs_status response)), mut_updatedAt := now\<rparr>])
       else [row\<lparr>mut_status := Mut_failed,
          mut_lastError := Some (extractErrorMessage (rs_body response) (''HTTP '' @ nat_digits (rs_status response))),
          mut_updatedAt := now\<rparr>])"

definition conclusive :: "queued_mutation \<Rightarrow> fetch_result \<Rightarrow> bool" where
  "conclusive m fetched = (case fetched of
     Fetch_failed \<Rightarrow> False
   | Fetched response \<Rightarrow> response_ok response \<or> rs_status response \<noteq> 401 \<and>
       (500 \<le> rs_status response \<or> rs_status response = 429 \<longrightarrow> MAX_TRANSIENT_RETRIES \<le> qm_retryCount m + 1))"

definition replace_row :: "nat \<Rightarrow> (mutation_row \<Rightarrow> mutation_row list) \<Rightarrow> mutation_row list \<Rightarrow> mutation_row list" where
  "replace_row i f rows = concat (map (\<lambda>row. if mut_id row = i then f row else [row]) rows)"

lemma replace_row_simps [simp]:
  "replace_row i f [] = []" "replace_row i f (row # rows) = (if mut_id row = i then f row else [row]) @ replace_row i f rows"
  by (simp_all add: replace_row_def)

lemma update_by_replace: "update_by mut_id i f rows = replace_row i (\<lambda>row. [f row]) rows"
  by (induction rows) simp_all

lemma filter_replace: "filter (\<lambda>row. mut_id row \<noteq> i) rows = replace_row i (\<lambda>row. []) rows"
  by (induction rows) simp_all

lemma replace_row_twice:
  "(\<And>row. mut_id (g row) = mut_id row) \<Longrightarrow> replace_row i f (replace_row i (\<lambda>row. [g row]) rows) = replace_row i (\<lambda>row. f (g row)) rows"
  by (induction rows) simp_all

lemma replace_row_cong:
  "(\<And>row. row \<in> set rows \<Longrightarrow> mut_id row = i \<Longrightarrow> f row = g row) \<Longrightarrow> replace_row i f rows = replace_row i g rows"
  by (induction rows) auto

lemma receive_outcome: "(fst (processOne_receive now m fetched q) = Continue) = conclusive m fetched"
  by (auto simp: processOne_receive_def conclusive_def Let_def split: fetch_result.splits)

lemma receive_effect:
  assumes "\<And>row. row \<in> set (mutation_queue q) \<Longrightarrow> mut_id row = qm_id m \<Longrightarrow> mut_retryCount row = qm_retryCount m"
  shows "mutation_queue (snd (processOne_receive now m fetched (markMutationProcessing now (qm_id m) q))) =
     replace_row (qm_id m) (after_attempt now fetched) (mutation_queue q)"
    and "mutation_seq (snd (processOne_receive now m fetched (markMutationProcessing now (qm_id m) q))) = mutation_seq q"
    and "query_cache (snd (processOne_receive now m fetched (markMutationProcessing now (qm_id m) q))) = query_cache q"
  using assms
  by (auto simp: processOne_receive_def markMutationProcessing_def markMutationPending_def markMutationDone_def
      markMutationFailed_def incrementRetry_def update_row_def update_by_replace filter_replace replace_row_twice Let_def
      after_attempt_def intro!: replace_row_cong split: fetch_result.splits)

text \<open>The exchanges of a pass: the requests in the order of the ids, up to the first that is not conclusive.\<close>

fun exchanges ::
    "(http_request \<Rightarrow> 's \<Rightarrow> http_response \<times> 's) \<Rightarrow> (nat \<Rightarrow> link) \<Rightarrow> string \<Rightarrow> queued_mutation list \<Rightarrow> 's \<Rightarrow>
     (nat \<times> fetch_result) list \<times> 's" where
  "exchanges server link token [] s = ([], s)"
| "exchanges server link token (m # ms) s =
     (let (fetched, s1) = apiFetch server (link (qm_id m)) (mutation_request token m) s
      in if conclusive m fetched
         then (let (tried, s2) = exchanges server link token ms s1 in ((qm_id m, fetched) # tried, s2))
         else ([(qm_id m, fetched)], s1))"

definition after_pass :: "date \<Rightarrow> (nat \<times> fetch_result) list \<Rightarrow> mutation_row list \<Rightarrow> mutation_row list" where
  "after_pass now tried rows =
     concat (map (\<lambda>row. case map_of tried (mut_id row) of None \<Rightarrow> [row] | Some fetched \<Rightarrow> after_attempt now fetched row) rows)"

lemma after_pass_simps [simp]:
  "after_pass now tried [] = []"
  "after_pass now tried (row # rows) =
     (case map_of tried (mut_id row) of None \<Rightarrow> [row] | Some fetched \<Rightarrow> after_attempt now fetched row) @ after_pass now tried rows"
  "after_pass now [] rows = rows"
  by (simp_all add: after_pass_def)

lemma after_pass_append: "after_pass now tried (rows @ rows') = after_pass now tried rows @ after_pass now tried rows'"
  by (simp add: after_pass_def)

lemma after_attempt_same: "row' \<in> set (after_attempt now fetched row) \<Longrightarrow>
   mut_id row' = mut_id row \<and> mut_method row' = mut_method row \<and> mut_path row' = mut_path row \<and> mut_body row' = mut_body row \<and>
   mut_scope row' = mut_scope row \<and> mut_idempotencyKey row' = mut_idempotencyKey row \<and> mut_createdAt row' = mut_createdAt row"
  by (auto simp: after_attempt_def Let_def split: fetch_result.splits if_splits)

lemma after_pass_replace:
  assumes "i \<notin> fst ` set tried"
  shows "after_pass now tried (replace_row i (after_attempt now fetched) rows) = after_pass now ((i, fetched) # tried) rows"
proof (induction rows)
  case (Cons row rows)
  have "after_pass now tried rs = rs" if "\<forall>r\<in>set rs. mut_id r = i" for rs
    using that map_of_eq_None_iff[of tried i] assms by (induction rs) auto
  moreover have "\<forall>r\<in>set (after_attempt now fetched row). mut_id r = i" if "mut_id row = i"
    using after_attempt_same that by blast
  ultimately show ?case using Cons by (simp add: after_pass_append)
qed simp

lemma exchanges_ids: "fst ` set (fst (exchanges server link token ms s)) \<subseteq> qm_id ` set ms"
proof (induction ms arbitrary: s)
  case (Cons m ms)
  obtain fetched s1 where f: "apiFetch server (link (qm_id m)) (mutation_request token m) s = (fetched, s1)" by fastforce
  obtain tried s2 where "exchanges server link token ms s1 = (tried, s2)" by fastforce
  then show ?case using Cons[of s1] f by auto
qed simp

lemma processOne_exchange:
  assumes "truthy (Some token)"
    and "\<forall>row\<in>set (mutation_queue q). mut_id row = qm_id m \<longrightarrow> mut_retryCount row = qm_retryCount m"
    and "apiFetch server l (mutation_request token m) s = (fetched, s1)"
  obtains outcome q1 where "processOne server l (Some token) now m (q, s) = (outcome, q1, s1)"
    "(outcome = Continue) = conclusive m fetched"
    "mutation_queue q1 = replace_row (qm_id m) (after_attempt now fetched) (mutation_queue q)"
    "mutation_seq q1 = mutation_seq q" "query_cache q1 = query_cache q"
proof -
  obtain outcome q1 where r: "processOne_receive now m fetched (markMutationProcessing now (qm_id m) q) = (outcome, q1)" by fastforce
  have o: "processOne server l (Some token) now m (q, s) = (outcome, q1, s1)"
    using assms(1,3) r by (simp add: processOne_def processOne_send_def)
  have c: "(outcome = Continue) = conclusive m fetched"
    using receive_outcome[of now m fetched "markMutationProcessing now (qm_id m) q"] r by simp
  have e: "mutation_queue q1 = replace_row (qm_id m) (after_attempt now fetched) (mutation_queue q)"
    "mutation_seq q1 = mutation_seq q" "query_cache q1 = query_cache q"
    using receive_effect[of q m now fetched] assms(2) r by auto
  show thesis by (rule that[OF o c e])
qed

lemma process_batch_effect:
  assumes "truthy (Some token)" and "distinct (map qm_id ms)"
    and "\<forall>m\<in>set ms. \<forall>row\<in>set (mutation_queue q). mut_id row = qm_id m \<longrightarrow> mut_retryCount row = qm_retryCount m"
    and "exchanges server link token ms s = (tried, s1)"
  shows "\<exists>timer q'. process_batch server link (Some token) now ms (q, s) = (timer, q', s1) \<and>
     mutation_queue q' = after_pass now tried (mutation_queue q) \<and> mutation_seq q' = mutation_seq q \<and> query_cache q' = query_cache q"
  using assms
proof (induction ms arbitrary: q s tried)
  case (Cons m ms)
  obtain fetched s2 where f: "apiFetch server (link (qm_id m)) (mutation_request token m) s = (fetched, s2)" by fastforce
  have acc: "\<forall>row\<in>set (mutation_queue q). mut_id row = qm_id m \<longrightarrow> mut_retryCount row = qm_retryCount m" using Cons.prems(3) by simp
  obtain outcome q1 where one: "processOne server (link (qm_id m)) (Some token) now m (q, s) = (outcome, q1, s2)"
    "(outcome = Continue) = conclusive m fetched"
    "mutation_queue q1 = replace_row (qm_id m) (after_attempt now fetched) (mutation_queue q)"
    "mutation_seq q1 = mutation_seq q" "query_cache q1 = query_cache q"
    by (rule processOne_exchange[OF Cons.prems(1) acc f])
  show ?case
  proof (cases "conclusive m fetched")
    case False
    then have "tried = [(qm_id m, fetched)]" "s1 = s2" using Cons.prems(4) f by simp_all
    then show ?thesis using one False after_pass_replace[of "qm_id m" "[]" now fetched "mutation_queue q"]
      by (cases outcome) simp_all
  next
    case True
    obtain tried' where t: "exchanges server link token ms s2 = (tried', s1)" "tried = (qm_id m, fetched) # tried'"
      using Cons.prems(4) f True by (auto simp: Let_def split: prod.splits)
    have "\<forall>n\<in>set ms. \<forall>row\<in>set (mutation_queue q1). mut_id row = qm_id n \<longrightarrow> mut_retryCount row = qm_retryCount n"
    proof (intro ballI impI)
      fix n row assume n: "n \<in> set ms" and row: "row \<in> set (mutation_queue q1)" "mut_id row = qm_id n"
      moreover have "qm_id n \<noteq> qm_id m" using Cons.prems(2) n by (force simp: image_iff)
      ultimately have "mut_id row \<noteq> qm_id m" by simp
      then have "row \<in> set (mutation_queue q)" using row(1) one(3)
        by (auto simp: replace_row_def dest: after_attempt_same split: if_splits)
      then show "mut_retryCount row = qm_retryCount n" using Cons.prems(3) n row(2) by simp
    qed
    moreover have "distinct (map qm_id ms)" using Cons.prems(2) by simp
    ultimately obtain timer q' where "process_batch server link (Some token) now ms (q1, s2) = (timer, q', s1)"
      "mutation_queue q' = after_pass now tried' (mutation_queue q1)" "mutation_seq q' = mutation_seq q1" "query_cache q' = query_cache q1"
      using Cons.IH[OF Cons.prems(1) _ _ t(1), of q1] by blast
    moreover have "qm_id m \<notin> fst ` set tried'"
      using exchanges_ids[of server link token ms s2] t(1) Cons.prems(2) by auto
    ultimately show ?thesis using one True t(2) after_pass_replace[of "qm_id m" tried' now fetched "mutation_queue q"] by simp
  qed
qed simp

lemma after_attempt_ok: "row_ok row \<Longrightarrow> row' \<in> set (after_attempt now fetched row) \<Longrightarrow> row_ok row'"
  by (auto simp: after_attempt_def row_ok_def waiting_def split: fetch_result.splits if_splits)

lemma after_pass_origin:
  assumes "row' \<in> set (after_pass now tried rows)"
  obtains row where "row \<in> set rows" "mut_id row = mut_id row'" "row' = row \<or> (\<exists>fetched. row' \<in> set (after_attempt now fetched row))"
proof -
  from assms obtain row where row: "row \<in> set rows"
    "row' \<in> set (case map_of tried (mut_id row) of None \<Rightarrow> [row] | Some fetched \<Rightarrow> after_attempt now fetched row)"
    by (auto simp: after_pass_def)
  then show thesis
    by (cases "map_of tried (mut_id row)") (auto intro!: that[OF row(1)] dest: after_attempt_same)
qed

lemma after_pass_sorted: "sorted_wrt (<) (map mut_id rows) \<Longrightarrow> sorted_wrt (<) (map mut_id (after_pass now tried rows))"
proof (induction rows)
  case (Cons row rows)
  let ?rest = "after_pass now tried rows"
  have rest: "\<forall>r\<in>set ?rest. mut_id row < mut_id r"
  proof
    fix r assume "r \<in> set ?rest"
    then obtain r0 where "r0 \<in> set rows" "mut_id r0 = mut_id r" by (rule after_pass_origin)
    then show "mut_id row < mut_id r" using Cons.prems by auto
  qed
  have sorted: "sorted_wrt (<) (map mut_id ?rest)" using Cons by simp
  show ?case
  proof (cases "map_of tried (mut_id row)")
    case None
    then show ?thesis using rest sorted by simp
  next
    case (Some fetched)
    have "after_attempt now fetched row = [] \<or> (\<exists>r. after_attempt now fetched row = [r] \<and> mut_id r = mut_id row)"
      by (simp add: after_attempt_def Let_def split: fetch_result.splits)
    then show ?thesis using Some rest sorted by (elim disjE exE conjE) simp_all
  qed
qed simp

lemma after_pass_wf:
  assumes "queue_wf q" and "mutation_queue q' = after_pass now tried (mutation_queue q)" and "mutation_seq q' = mutation_seq q"
  shows "queue_wf q'"
  unfolding queue_wf_def
proof (intro conjI ballI)
  show "sorted_wrt (<) (map mut_id (mutation_queue q'))"
    using assms by (auto simp: queue_wf_def intro: after_pass_sorted)
  fix row' assume "row' \<in> set (mutation_queue q')"
  then have "row' \<in> set (after_pass now tried (mutation_queue q))" using assms(2) by simp
  then obtain row where row: "row \<in> set (mutation_queue q)" "mut_id row = mut_id row'"
    "row' = row \<or> (\<exists>fetched. row' \<in> set (after_attempt now fetched row))" by (rule after_pass_origin)
  then have r: "mut_id row \<le> mutation_seq q" "row_ok row" using assms(1) unfolding queue_wf_def by blast+
  then show "mut_id row' \<le> mutation_seq q'" using row(2) assms(3) by simp
  show "row_ok row'" using row(3) r(2) after_attempt_ok by blast
qed

lemma exchanges_prefix:
  "\<exists>k. map fst (fst (exchanges server link token ms s)) = take k (map qm_id ms) \<and> (ms \<noteq> [] \<longrightarrow> 0 < k)"
proof (induction ms arbitrary: s)
  case (Cons m ms)
  obtain fetched s1 where f: "apiFetch server (link (qm_id m)) (mutation_request token m) s = (fetched, s1)" by fastforce
  obtain tried s2 where e: "exchanges server link token ms s1 = (tried, s2)" by fastforce
  obtain k where "map fst tried = take k (map qm_id ms)" using Cons[of s1] e by auto
  show ?case
  proof (cases "conclusive m fetched")
    case True
    then show ?thesis using f e \<open>map fst tried = _\<close> by (intro exI[of _ "Suc k"]) simp
  next
    case False
    then show ?thesis using f by (intro exI[of _ 1]) simp
  qed
qed simp

lemma processQueue_exchanges:
  assumes "queue_wf q" and "truthy (Some token)"
    and "exchanges server link token (map mutation_of (filter waiting (mutation_queue q))) s = (tried, s')"
  obtains timer q' where "processQueue server link (Some token) now (q, s) = (Inr timer, q', s')"
    "mutation_queue q' = after_pass now tried (mutation_queue q)" "mutation_seq q' = mutation_seq q" "query_cache q' = query_cache q"
    "queue_wf q'"
proof -
  let ?ms = "map mutation_of (filter waiting (mutation_queue q))"
  have d: "distinct (map qm_id ?ms)"
    using distinct_map_filter[OF queue_wf_distinct[OF assms(1)], of waiting] by (simp add: comp_def)
  have acc: "\<forall>m\<in>set ?ms. \<forall>row\<in>set (mutation_queue q). mut_id row = qm_id m \<longrightarrow> mut_retryCount row = qm_retryCount m"
  proof (intro ballI impI)
    fix m row assume "m \<in> set ?ms" and row: "row \<in> set (mutation_queue q)" "mut_id row = qm_id m"
    then obtain row' where m: "row' \<in> set (mutation_queue q)" "m = mutation_of row'" by auto
    have "mut_id row = mut_id row'" using row(2) m(2) by simp
    from queue_wf_same[OF assms(1) row(1) m(1) this] have "row' = row" by simp
    then show "mut_retryCount row = qm_retryCount m" using m by simp
  qed
  obtain timer q' where r: "process_batch server link (Some token) now ?ms (q, s) = (timer, q', s')"
    "mutation_queue q' = after_pass now tried (mutation_queue q)" "mutation_seq q' = mutation_seq q" "query_cache q' = query_cache q"
    using process_batch_effect[OF assms(2) d acc assms(3)] by blast
  have "processQueue server link (Some token) now (q, s) = (Inr timer, q', s')"
    unfolding processQueue_def using listPending_wf[OF assms(1)] r(1) by (simp del: process_batch.simps)
  then show thesis by (rule that) (use r after_pass_wf[OF assms(1) r(2,3)] in simp_all)
qed

text \<open>
  C34. A pass over the queue sends the waiting mutations in the order in which they were queued and stops at the first that
  gets no final answer; afterwards the rows answered with success are gone, those refused for good are kept as failed
  with the server's message, the one that stopped the pass waits with one more attempt counted only after a server error,
  and every other row is as it was.
\<close>

theorem processQueue_effect:
  assumes "queue_wf q" and "truthy (Some token)"
    and "exchanges server link token (map mutation_of (filter waiting (mutation_queue q))) s = (tried, s')"
  shows "\<exists>timer q' k. processQueue server link (Some token) now (q, s) = (Inr timer, q', s') \<and>
     mutation_queue q' = after_pass now tried (mutation_queue q) \<and> query_cache q' = query_cache q \<and> queue_wf q' \<and>
     map fst tried = take k (map mut_id (filter waiting (mutation_queue q)))"
proof -
  obtain timer q' where r: "processQueue server link (Some token) now (q, s) = (Inr timer, q', s')"
    "mutation_queue q' = after_pass now tried (mutation_queue q)" "query_cache q' = query_cache q" "queue_wf q'"
    by (rule processQueue_exchanges[OF assms])
  moreover obtain k where "map fst tried = take k (map mut_id (filter waiting (mutation_queue q)))"
    using exchanges_prefix[of server link token "map mutation_of (filter waiting (mutation_queue q))" s] assms(3)
    by (auto simp: comp_def)
  ultimately show ?thesis by blast
qed

section \<open>The queue drains\<close>

fun passes ::
    "(http_request \<Rightarrow> 's \<Rightarrow> http_response \<times> 's) \<Rightarrow> string \<Rightarrow> date \<Rightarrow> nat \<Rightarrow> offline_db \<times> 's \<Rightarrow> offline_db \<times> 's" where
  "passes server token now 0 w = w"
| "passes server token now (Suc n) w = passes server token now n (snd (processQueue server (\<lambda>_. Link_up) (Some token) now w))"

definition row_weight :: "mutation_row \<Rightarrow> nat" where
  "row_weight row = (if waiting row then MAX_TRANSIENT_RETRIES - mut_retryCount row else 0)"

abbreviation weight :: "mutation_row list \<Rightarrow> nat" where
  "weight rows \<equiv> sum_list (map row_weight rows)"

definition answered :: "fetch_result \<Rightarrow> bool" where
  "answered fetched \<longleftrightarrow> (\<exists>response. fetched = Fetched response \<and> rs_status response \<noteq> 401)"

lemma after_attempt_weight:
  assumes "answered fetched" and "row_ok row" and "waiting row"
  shows "weight (after_attempt now fetched row) < row_weight row"
  using assms by (auto simp: answered_def after_attempt_def row_ok_def row_weight_def waiting_def)

lemma after_pass_weight:
  assumes "\<forall>(i, fetched)\<in>set tried. answered fetched" and "\<forall>row\<in>set rows. row_ok row"
    and "\<forall>row\<in>set rows. mut_id row \<in> fst ` set tried \<longrightarrow> waiting row"
  shows "weight (after_pass now tried rows) \<le> weight rows"
    and "row \<in> set rows \<Longrightarrow> mut_id row \<in> fst ` set tried \<Longrightarrow> weight (after_pass now tried rows) < weight rows"
proof -
  have "weight (after_pass now tried rows) \<le> weight rows \<and>
    ((\<exists>row\<in>set rows. mut_id row \<in> fst ` set tried) \<longrightarrow> weight (after_pass now tried rows) < weight rows)"
    using assms(2,3)
  proof (induction rows)
    case (Cons row rows)
    show ?case
    proof (cases "map_of tried (mut_id row)")
      case None
      then have "mut_id row \<notin> fst ` set tried" by (simp add: map_of_eq_None_iff)
      then show ?thesis using Cons None by simp
    next
      case (Some fetched)
      then have "answered fetched" "mut_id row \<in> fst ` set tried"
        using assms(1) map_of_SomeD[OF Some] by (auto simp: rev_image_eqI)
      then have "weight (after_attempt now fetched row) < row_weight row" using Cons.prems by (intro after_attempt_weight) auto
      then show ?thesis using Cons Some by auto
    qed
  qed simp
  then show "weight (after_pass now tried rows) \<le> weight rows"
    and "row \<in> set rows \<Longrightarrow> mut_id row \<in> fst ` set tried \<Longrightarrow> weight (after_pass now tried rows) < weight rows" by auto
qed

lemma exchanges_answered:
  assumes "\<forall>request s. rs_status (fst (server request s)) \<noteq> 401"
  shows "\<forall>(i, fetched)\<in>set (fst (exchanges server (\<lambda>_. Link_up) token ms s)). answered fetched"
proof (induction ms arbitrary: s)
  case (Cons m ms)
  obtain response s1 where r: "server (mutation_request token m) s = (response, s1)" by fastforce
  then have "answered (Fetched response)" using assms[rule_format, of "mutation_request token m" s] by (simp add: answered_def)
  moreover obtain tried s2 where "exchanges server (\<lambda>_. Link_up) token ms s1 = (tried, s2)" by fastforce
  ultimately show ?case using Cons[of s1] r by (simp add: apiFetch_def)
qed simp

lemma weight_zero: "\<forall>row\<in>set rows. row_ok row \<Longrightarrow> weight rows = 0 \<longleftrightarrow> filter waiting rows = []"
  by (induction rows) (auto simp: row_weight_def row_ok_def)

lemma weight_bound: "weight rows \<le> MAX_TRANSIENT_RETRIES * length (filter waiting rows)"
proof (induction rows)
  case (Cons row rows)
  have "row_weight row \<le> (if waiting row then MAX_TRANSIENT_RETRIES else 0)" by (simp add: row_weight_def)
  then show ?case using Cons by (cases "waiting row") simp_all
qed simp

lemma pass_progress:
  assumes "queue_wf q" and "truthy (Some token)" and "\<forall>request s. rs_status (fst (server request s)) \<noteq> 401"
  obtains timer q' s' where "processQueue server (\<lambda>_. Link_up) (Some token) now (q, s) = (Inr timer, q', s')" "queue_wf q'"
    "weight (mutation_queue q') < weight (mutation_queue q) \<or> mutation_queue q' = mutation_queue q \<and> filter waiting (mutation_queue q) = []"
proof -
  let ?ms = "map mutation_of (filter waiting (mutation_queue q))"
  obtain tried s' where e: "exchanges server (\<lambda>_. Link_up) token ?ms s = (tried, s')" by fastforce
  obtain timer q' where r: "processQueue server (\<lambda>_. Link_up) (Some token) now (q, s) = (Inr timer, q', s')"
    "mutation_queue q' = after_pass now tried (mutation_queue q)" "queue_wf q'"
    by (rule processQueue_exchanges[OF assms(1,2) e])
  have ans: "\<forall>(i, fetched)\<in>set tried. answered fetched"
    using exchanges_answered[OF assms(3), of token ?ms s] e by simp
  have ok: "\<forall>row\<in>set (mutation_queue q). row_ok row" using assms(1) by (simp add: queue_wf_def)
  obtain k where k: "map fst tried = take k (map qm_id ?ms)" "?ms \<noteq> [] \<longrightarrow> 0 < k"
    using exchanges_prefix[of server "\<lambda>_. Link_up" token ?ms s] e by auto
  have wait: "\<forall>row\<in>set (mutation_queue q). mut_id row \<in> fst ` set tried \<longrightarrow> waiting row"
  proof (intro ballI impI)
    fix row assume row: "row \<in> set (mutation_queue q)" "mut_id row \<in> fst ` set tried"
    have "set (map fst tried) \<subseteq> mut_id ` set (filter waiting (mutation_queue q))" unfolding k(1) using set_take_subset by fastforce
    then obtain row' where "row' \<in> set (mutation_queue q)" "waiting row'" "mut_id row' = mut_id row" using row(2) by auto
    moreover from this have "row' = row" using queue_wf_same[OF assms(1)] row(1) by blast
    ultimately show "waiting row" by simp
  qed
  have "weight (mutation_queue q') < weight (mutation_queue q)" if "filter waiting (mutation_queue q) \<noteq> []"
  proof -
    from that obtain row rest where f: "filter waiting (mutation_queue q) = row # rest" by (cases "filter waiting (mutation_queue q)") auto
    then have "row \<in> set (mutation_queue q)" using filter_eq_ConsD[OF f] by auto
    moreover have "mut_id row \<in> set (map fst tried)" unfolding k(1) using k(2) f by (cases k) simp_all
    ultimately show ?thesis unfolding r(2) by (intro after_pass_weight(2)[OF ans ok wait]) auto
  qed
  moreover have "mutation_queue q' = mutation_queue q" if "filter waiting (mutation_queue q) = []"
    using that e r(2) by simp
  ultimately show thesis using that[OF r(1,3)] by blast
qed

lemma passes_drain:
  assumes "queue_wf q" and "truthy (Some token)" and "\<forall>request s. rs_status (fst (server request s)) \<noteq> 401"
    and "weight (mutation_queue q) \<le> n"
  shows "queue_wf (fst (passes server token now n (q, s))) \<and> filter waiting (mutation_queue (fst (passes server token now n (q, s)))) = []"
  using assms(1,4)
proof (induction n arbitrary: q s)
  case 0
  then show ?case using weight_zero[of "mutation_queue q"] by (simp add: queue_wf_def)
next
  case (Suc n)
  obtain timer q' s' where r: "processQueue server (\<lambda>_. Link_up) (Some token) now (q, s) = (Inr timer, q', s')" "queue_wf q'"
    "weight (mutation_queue q') < weight (mutation_queue q) \<or> mutation_queue q' = mutation_queue q \<and> filter waiting (mutation_queue q) = []"
    by (rule pass_progress[OF Suc.prems(1) assms(2,3)])
  have "\<forall>row\<in>set (mutation_queue q'). row_ok row" using r(2) by (simp add: queue_wf_def)
  then have "filter waiting (mutation_queue q') = [] \<Longrightarrow> weight (mutation_queue q') = 0" using weight_zero by blast
  moreover have "weight (mutation_queue q') < weight (mutation_queue q)" if "filter waiting (mutation_queue q') \<noteq> []"
    using r(3) that by auto
  ultimately have "weight (mutation_queue q') \<le> n"
    using Suc.prems(2) by (cases "filter waiting (mutation_queue q') = []") (linarith+)
  from Suc.IH[OF r(2) this, of s'] show ?case using r(1) by simp
qed

text \<open>
  C35. The queue drains: with a session and a server that answers (with any status but 401), five passes per waiting
  mutation are enough to leave none of them waiting; every row that is still there is marked as failed.
\<close>

theorem queue_drains:
  assumes "queue_wf q" and "truthy (Some token)" and "\<forall>request s. rs_status (fst (server request s)) \<noteq> 401"
    and "MAX_TRANSIENT_RETRIES * length (filter waiting (mutation_queue q)) \<le> n"
  shows "listPendingMutations (fst (passes server token now n (q, s))) = Inr [] \<and>
     (\<forall>row\<in>set (mutation_queue (fst (passes server token now n (q, s)))). mut_status row = Mut_failed)"
proof -
  let ?q = "fst (passes server token now n (q, s))"
  have q: "queue_wf ?q" "filter waiting (mutation_queue ?q) = []"
    using passes_drain[OF assms(1-3), of n now s] weight_bound[of "mutation_queue q"] assms(4) by simp_all
  then have "\<forall>row\<in>set (mutation_queue ?q). \<not> waiting row" by (simp add: filter_empty_conv)
  moreover have "mut_status row = Mut_failed" if "\<not> waiting row" for row
    using that by (cases "mut_status row") (simp_all add: waiting_def)
  ultimately show ?thesis using listPending_wf[OF q(1)] q(2) by simp
qed

section \<open>A queue to try them on\<close>

definition fx_row :: "nat \<Rightarrow> string \<Rightarrow> string \<Rightarrow> mutation_row" where
  "fx_row i path key = \<lparr>mut_id = i, mut_method = M_POST, mut_path = path, mut_body = None, mut_scope = Scope_tenant,
     mut_status = Mut_pending, mut_retryCount = 0, mut_lastError = None, mut_idempotencyKey = key, mut_createdAt = 0,
     mut_updatedAt = 0\<rparr>"

definition fx_queue :: offline_db where
  "fx_queue = \<lparr>query_cache = None, mutation_queue = [fx_row 1 ''/a'' ''k1'', fx_row 2 ''/b'' ''k2''], mutation_seq = 2\<rparr>"

lemma fx_queue_wf: "queue_wf fx_queue"
  by (simp add: queue_wf_def fx_queue_def fx_row_def row_ok_def MAX_TRANSIENT_RETRIES_def)

text \<open>A server that accepts everything and keeps a log of the requests.\<close>

definition fx_log_server :: "http_request \<Rightarrow> http_request list \<Rightarrow> http_response \<times> http_request list" where
  "fx_log_server request log = (\<lparr>rs_status = 201, rs_body = JNull\<rparr>, log @ [request])"

lemma processQueue_effect_witness:
  "\<exists>timer q'. processQueue fx_log_server (\<lambda>i. if i = 1 then Link_up else Response_lost) (Some ''tok'') 5 (fx_queue, []) =
     (Inr timer, q', snd (exchanges fx_log_server (\<lambda>i. if i = 1 then Link_up else Response_lost) ''tok''
        (map mutation_of (filter waiting (mutation_queue fx_queue))) [])) \<and> map mut_id (mutation_queue q') = [2]"
proof -
  let ?e = "exchanges fx_log_server (\<lambda>i. if i = 1 then Link_up else Response_lost) ''tok''
        (map mutation_of (filter waiting (mutation_queue fx_queue))) []"
  have "map mut_id (after_pass 5 (fst ?e) (mutation_queue fx_queue)) = [2]" by code_simp
  then show ?thesis using processQueue_effect[OF fx_queue_wf _ surjective_pairing[of ?e], of 5] by auto
qed

lemma queue_drains_witness:
  "listPendingMutations (fst (passes fx_log_server ''tok'' 5 10 (fx_queue, []))) = Inr [] \<and>
   map hr_path (snd (snd (processQueue fx_log_server (\<lambda>_. Link_up) (Some ''tok'') 5 (fx_queue, [])))) = [''/a'', ''/b'']"
proof -
  have s: "\<forall>request s. rs_status (fst (fx_log_server request s)) \<noteq> 401" by (simp add: fx_log_server_def)
  have "length (filter waiting (mutation_queue fx_queue)) = 2" by code_simp
  then have "MAX_TRANSIENT_RETRIES * length (filter waiting (mutation_queue fx_queue)) \<le> 10" by (simp add: MAX_TRANSIENT_RETRIES_def)
  from queue_drains[OF fx_queue_wf _ s this, of "''tok''" 5 "[]"]
  have "listPendingMutations (fst (passes fx_log_server ''tok'' 5 10 (fx_queue, []))) = Inr []" by simp
  moreover have "map hr_path (snd (snd (processQueue fx_log_server (\<lambda>_. Link_up) (Some ''tok'') 5 (fx_queue, [])))) = [''/a'', ''/b'']"
    by code_simp
  ultimately show ?thesis by simp
qed

end
