(* ===== verification/Replay.thy ===== *)
theory Replay
  imports Offline
begin

text \<open>
  The queue of the mobile application while everything goes on at once: screens queue writes, the sync
  engine and the timers start passes, requests are answered, lost or cut off by the end of the process,
  and a sign-out purges the table. Between two steps of the code that are separated by an \<open>await\<close> any
  other step may come.
\<close>

section \<open>Steps\<close>

text \<open>
  \<open>dev_batch\<close> is what is left of the list that the running \<open>processQueue\<close> has read (\<open>None\<close>: \<open>isProcessing\<close> is
  false), \<open>dev_flight\<close> says that the request of its first mutation has been sent and not yet answered.
\<close>

record device =
  dev_store :: offline_db
  dev_batch :: "queued_mutation list option"
  dev_flight :: bool

definition new_device :: device where
  "new_device = \<lparr>dev_store = empty_offline_db, dev_batch = None, dev_flight = False\<rparr>"

datatype queue_event =
    Ev_enqueued enqueue_input queued_mutation
  | Ev_started
  | Ev_sent queued_mutation http_request
  | Ev_answered queued_mutation fetch_result
  | Ev_finished
  | Ev_purged
  | Ev_killed

inductive queue_step :: "device \<Rightarrow> queue_event \<Rightarrow> device \<Rightarrow> bool" where
  enqueue: "enqueueMutation now key input (dev_store d) = (Inr m, q) \<Longrightarrow> (\<And>v. enq_body input = Some v \<Longrightarrow> json_ok v) \<Longrightarrow>
    queue_step d (Ev_enqueued input m) (d\<lparr>dev_store := q\<rparr>)"
| start: "dev_batch d = None \<Longrightarrow> listPendingMutations (dev_store d) = Inr pending \<Longrightarrow>
    queue_step d Ev_started (d\<lparr>dev_batch := Some pending, dev_flight := False\<rparr>)"
| send: "dev_batch d = Some (m # ms) \<Longrightarrow> \<not> dev_flight d \<Longrightarrow> processOne_send token now m (dev_store d) = Some (request, q) \<Longrightarrow>
    queue_step d (Ev_sent m request) (d\<lparr>dev_store := q, dev_flight := True\<rparr>)"
| no_token: "dev_batch d = Some (m # ms) \<Longrightarrow> \<not> dev_flight d \<Longrightarrow> processOne_send token now m (dev_store d) = None \<Longrightarrow>
    queue_step d Ev_finished (d\<lparr>dev_batch := None\<rparr>)"
| answer: "dev_batch d = Some (m # ms) \<Longrightarrow> dev_flight d \<Longrightarrow> processOne_receive now m fetched (dev_store d) = (outcome, q) \<Longrightarrow>
    queue_step d (Ev_answered m fetched)
      (d\<lparr>dev_store := q, dev_batch := (if outcome = Continue then Some ms else None), dev_flight := False\<rparr>)"
| finish: "dev_batch d = Some [] \<Longrightarrow> queue_step d Ev_finished (d\<lparr>dev_batch := None\<rparr>)"
| purge: "queue_step d Ev_purged (d\<lparr>dev_store := purgeTenantScoped (writeCache now None (dev_store d))\<rparr>)"
| killed: "queue_step d Ev_killed (d\<lparr>dev_batch := None, dev_flight := False\<rparr>)"

inductive_cases queue_stepE: "queue_step d e d'"

inductive queue_run :: "queue_event list \<Rightarrow> device \<Rightarrow> bool" where
  run_start: "queue_run [] new_device"
| run_step: "queue_run es d \<Longrightarrow> queue_step d e d' \<Longrightarrow> queue_run (es @ [e]) d'"

section \<open>Where rows come from\<close>

text \<open>A row, or a mutation of the running pass, still carries what was queued under its id.\<close>

definition queued_as :: "queue_event list \<Rightarrow> nat \<Rightarrow> http_method \<Rightarrow> string \<Rightarrow> string option \<Rightarrow> string \<Rightarrow> bool" where
  "queued_as es i method path text key \<longleftrightarrow> (\<exists>input m. Ev_enqueued input m \<in> set es \<and> qm_id m = i \<and> qm_idempotencyKey m = key \<and>
     enq_method input = method \<and> enq_path input = path \<and> map_option JSON_stringify (enq_body input) = text \<and>
     (\<forall>v. enq_body input = Some v \<longrightarrow> json_ok v))"

definition row_queued :: "queue_event list \<Rightarrow> mutation_row \<Rightarrow> bool" where
  "row_queued es row \<longleftrightarrow>
     queued_as es (mut_id row) (mut_method row) (mut_path row) (mut_body row) (mut_idempotencyKey row)"

definition mutation_queued :: "queue_event list \<Rightarrow> queued_mutation \<Rightarrow> bool" where
  "mutation_queued es m \<longleftrightarrow>
     queued_as es (qm_id m) (qm_method m) (qm_path m) (map_option JSON_stringify (qm_body m)) (qm_idempotencyKey m)"

definition all_queued :: "queue_event list \<Rightarrow> device \<Rightarrow> bool" where
  "all_queued es d \<longleftrightarrow> (\<forall>row\<in>set (mutation_queue (dev_store d)). row_queued es row) \<and>
     (\<forall>ms. dev_batch d = Some ms \<longrightarrow> (\<forall>m\<in>set ms. mutation_queued es m))"

lemma queued_as_more: "queued_as es i method path text key \<Longrightarrow> queued_as (es @ [e]) i method path text key"
  by (auto simp: queued_as_def)

lemma all_queued_more: "all_queued es d \<Longrightarrow> all_queued (es @ [e]) d"
  by (auto simp: all_queued_def row_queued_def mutation_queued_def intro: queued_as_more)

lemma update_row_queued:
  assumes "\<forall>row\<in>set (mutation_queue q). row_queued es row"
    and "\<And>row. mut_id (f row) = mut_id row \<and> mut_method (f row) = mut_method row \<and> mut_path (f row) = mut_path row \<and>
           mut_body (f row) = mut_body row \<and> mut_idempotencyKey (f row) = mut_idempotencyKey row"
  shows "\<forall>row\<in>set (mutation_queue (update_row i f q)). row_queued es row"
  using assms by (auto simp: update_row_def update_by_def row_queued_def)

lemmas marks = markMutationProcessing_def markMutationPending_def markMutationFailed_def incrementRetry_def

lemma receive_queued:
  assumes "\<forall>row\<in>set (mutation_queue q). row_queued es row" and "processOne_receive now m fetched q = (outcome, q')"
  shows "\<forall>row\<in>set (mutation_queue q'). row_queued es row"
  using assms
  by (auto simp: processOne_receive_def marks markMutationDone_def Let_def split: fetch_result.splits if_splits
      dest!: bspec[OF update_row_queued[of q es], rotated 2])

lemma update_row_wf:
  assumes "queue_wf q" and "\<And>row. row_ok row \<Longrightarrow> mut_id row = i \<Longrightarrow> row \<in> set (mutation_queue q) \<Longrightarrow> row_ok (f row)" and "\<And>row. mut_id (f row) = mut_id row"
  shows "queue_wf (update_row i f q)"
proof -
  have "map mut_id (mutation_queue (update_row i f q)) = map mut_id (mutation_queue q)"
    by (simp add: update_row_def map_update_by assms(3))
  then have "sorted_wrt (<) (map mut_id (mutation_queue (update_row i f q)))" using assms(1) by (simp add: queue_wf_def)
  moreover have "\<forall>row\<in>set (mutation_queue (update_row i f q)). mut_id row \<le> mutation_seq q \<and> row_ok row"
    using assms by (auto simp: queue_wf_def update_row_def update_by_def)
  ultimately show ?thesis by (simp add: queue_wf_def update_row_def)
qed

lemma filter_wf: "queue_wf q \<Longrightarrow> queue_wf (q\<lparr>mutation_queue := filter P (mutation_queue q)\<rparr>)"
  by (auto simp: queue_wf_def sorted_wrt_map sorted_wrt_filter)

text \<open>
  The invariant of a run. The mutations of the running pass are as they were read: the number of attempts
  of a row changes only when its own answer arrives.
\<close>

definition as_read :: "offline_db \<Rightarrow> queued_mutation \<Rightarrow> bool" where
  "as_read q m \<longleftrightarrow> qm_id m \<le> mutation_seq q \<and>
     (\<forall>row\<in>set (mutation_queue q). mut_id row = qm_id m \<longrightarrow> mut_retryCount row = qm_retryCount m)"

definition device_ok :: "device \<Rightarrow> bool" where
  "device_ok d \<longleftrightarrow> queue_wf (dev_store d) \<and>
     (\<forall>ms. dev_batch d = Some ms \<longrightarrow> sorted_wrt (<) (map qm_id ms) \<and> (\<forall>m\<in>set ms. as_read (dev_store d) m))"

lemma device_okI:
  assumes "queue_wf q" and "\<And>ms. dev_batch d = Some ms \<Longrightarrow> sorted_wrt (<) (map qm_id ms)"
    and "\<And>ms m. dev_batch d = Some ms \<Longrightarrow> m \<in> set ms \<Longrightarrow> as_read q m" and "dev_store d = q"
  shows "device_ok d"
  using assms by (auto simp: device_ok_def)

lemma device_okD:
  assumes "device_ok d"
  shows "queue_wf (dev_store d)" "dev_batch d = Some ms \<Longrightarrow> sorted_wrt (<) (map qm_id ms)"
    "dev_batch d = Some ms \<Longrightarrow> m \<in> set ms \<Longrightarrow> as_read (dev_store d) m"
  using assms by (auto simp: device_ok_def)

lemma receive_frame:
  assumes "processOne_receive now m fetched q = (outcome, q')"
  shows "mutation_seq q' = mutation_seq q" and "query_cache q' = query_cache q"
    and "row \<in> set (mutation_queue q') \<Longrightarrow> mut_id row \<noteq> qm_id m \<Longrightarrow> row \<in> set (mutation_queue q)"
  using assms
  by (auto simp: processOne_receive_def marks update_row_def update_by_def markMutationDone_def Let_def split: fetch_result.splits if_splits)

lemma receive_wf:
  assumes "processOne_receive now m fetched q = (outcome, q')" and "queue_wf q"
    and "\<forall>row\<in>set (mutation_queue q). mut_id row = qm_id m \<longrightarrow> mut_retryCount row = qm_retryCount m"
  shows "queue_wf q'"
  using assms
  by (auto simp: processOne_receive_def marks markMutationDone_def Let_def row_ok_def split: fetch_result.splits if_splits
      intro!: update_row_wf filter_wf)

lemma enqueued_ok:
  assumes "device_ok d" and "row_ok row" and "mut_id row = mutation_seq (dev_store d) + 1"
    and "q = dev_store d\<lparr>mutation_queue := mutation_queue (dev_store d) @ [row], mutation_seq := mutation_seq (dev_store d) + 1\<rparr>"
  shows "device_ok (d\<lparr>dev_store := q\<rparr>)"
proof (rule device_okI)
  note ok = device_okD[OF assms(1)]
  show "queue_wf q" unfolding assms(4) by (rule appended_wf[OF ok(1) assms(2,3)])
  show "sorted_wrt (<) (map qm_id ms)" if "dev_batch (d\<lparr>dev_store := q\<rparr>) = Some ms" for ms using ok(2) that by simp
  show "as_read q m" if "dev_batch (d\<lparr>dev_store := q\<rparr>) = Some ms" "m \<in> set ms" for ms m
    using ok(3)[of ms m] that assms(3) by (auto simp: as_read_def assms(4))
qed simp

lemma started_ok:
  assumes "device_ok d" and "listPendingMutations (dev_store d) = Inr pending"
  shows "device_ok (d\<lparr>dev_batch := Some pending, dev_flight := False\<rparr>)"
proof -
  have wf: "queue_wf (dev_store d)" by (rule device_okD(1)[OF assms(1)])
  then have pending: "pending = map mutation_of (filter waiting (mutation_queue (dev_store d)))"
    using assms(2) listPending_wf by simp
  have sorted: "sorted_wrt (<) (map qm_id pending)"
    using wf unfolding pending queue_wf_def by (simp add: sorted_wrt_map sorted_wrt_filter)
  have "as_read (dev_store d) m" if m: "m \<in> set pending" for m
  proof -
    obtain row where row: "row \<in> set (mutation_queue (dev_store d))" "m = mutation_of row" using m pending by auto
    then have "mut_id row \<le> mutation_seq (dev_store d)" using wf by (simp add: queue_wf_def)
    moreover have "mut_retryCount row' = mut_retryCount row" if "row' \<in> set (mutation_queue (dev_store d))" "mut_id row' = mut_id row" for row'
      using queue_wf_same[OF wf that(1) row(1) that(2)] by (rule arg_cong)
    ultimately show ?thesis using row(2) by (simp add: as_read_def)
  qed
  then show ?thesis using wf sorted by (simp add: device_ok_def)
qed

lemma sent_ok:
  assumes "device_ok d" and "processOne_send token now m (dev_store d) = Some (request, q)"
  shows "device_ok (d\<lparr>dev_store := q, dev_flight := True\<rparr>)"
proof (rule device_okI)
  note ok = device_okD[OF assms(1)]
  have q: "q = update_row (qm_id m) (\<lambda>row. row\<lparr>mut_status := Mut_processing, mut_updatedAt := now\<rparr>) (dev_store d)"
    using assms(2) by (auto simp: processOne_send_def markMutationProcessing_def split: if_splits)
  show "queue_wf q" unfolding q using ok(1) by (intro update_row_wf) (auto simp: row_ok_def)
  show "sorted_wrt (<) (map qm_id ms)" if "dev_batch (d\<lparr>dev_store := q, dev_flight := True\<rparr>) = Some ms" for ms using ok(2) that by simp
  show "as_read q n" if "dev_batch (d\<lparr>dev_store := q, dev_flight := True\<rparr>) = Some ms" "n \<in> set ms" for ms n
    using ok(3)[of ms n] that unfolding q by (auto simp: as_read_def update_row_def update_by_def)
qed simp

lemma answered_ok:
  assumes "device_ok d" and "dev_batch d = Some (m # ms)" and "processOne_receive now m fetched (dev_store d) = (outcome, q)"
  shows "device_ok (d\<lparr>dev_store := q, dev_batch := (if outcome = Continue then Some ms else None), dev_flight := False\<rparr>)"
proof -
  note ok = device_okD[OF assms(1)] and sorted = device_okD(2)[OF assms(1,2)]
  have wf: "queue_wf q"
    using ok(3)[OF assms(2), of m] by (intro receive_wf[OF assms(3) ok(1)]) (simp add: as_read_def)
  have "as_read q n" if n: "n \<in> set ms" for n
  proof -
    have "qm_id n \<noteq> qm_id m" using sorted n by auto
    then have "row \<in> set (mutation_queue (dev_store d))" if "row \<in> set (mutation_queue q)" "mut_id row = qm_id n" for row
      using receive_frame(3)[OF assms(3) that(1)] that(2) by simp
    then show ?thesis using ok(3)[OF assms(2), of n] n receive_frame(1)[OF assms(3)] by (simp add: as_read_def)
  qed
  then show ?thesis using wf sorted by (auto simp: device_ok_def)
qed

lemma purged_ok: "device_ok d \<Longrightarrow> device_ok (d\<lparr>dev_store := purgeTenantScoped (writeCache now None (dev_store d))\<rparr>)"
  using filter_wf[of "dev_store d" "\<lambda>row. mut_scope row = Scope_auth"]
  by (auto simp: device_ok_def as_read_def purgeTenantScoped_def writeCache_def queue_wf_def)

lemma queue_step_device_ok: "queue_step d e d' \<Longrightarrow> device_ok d \<Longrightarrow> device_ok d'"
proof (induction rule: queue_step.induct)
  case (enqueue now key input d m q)
  have "insertMutation now key input (dev_store d) = (Inr m, q)"
    using enqueue(1) by (auto simp: enqueueMutation_def split: sum.splits)
  then show ?case using enqueue(2,3) device_okD(1) by (elim insertMutation_effect) (auto intro!: enqueued_ok)
next
  case (start d pending)
  then show ?case by (intro started_ok)
next
  case (send d m ms token now request q)
  then show ?case by (intro sent_ok)
next
  case (answer d m ms now fetched outcome q)
  then show ?case by (intro answered_ok)
next
  case (purge d now)
  then show ?case by (rule purged_ok)
qed (simp_all add: device_ok_def)

lemma all_queuedI:
  assumes "\<forall>row\<in>set (mutation_queue (dev_store d)). row_queued es row"
    and "\<And>ms. dev_batch d = Some ms \<Longrightarrow> \<forall>m\<in>set ms. mutation_queued es m"
  shows "all_queued es d"
  using assms by (simp add: all_queued_def)

lemma all_queuedD:
  assumes "all_queued es d"
  shows "\<forall>row\<in>set (mutation_queue (dev_store d)). row_queued es row" "dev_batch d = Some ms \<Longrightarrow> \<forall>m\<in>set ms. mutation_queued es m"
  using assms by (simp_all add: all_queued_def)

lemma queue_step_queued: "queue_step d e d' \<Longrightarrow> device_ok d \<Longrightarrow> all_queued es d \<Longrightarrow> all_queued (es @ [e]) d'"
proof (induction rule: queue_step.induct)
  case (enqueue now key input d m q)
  note more = all_queuedD[OF all_queued_more[OF enqueue.prems(2), of "Ev_enqueued input m"]]
  have "insertMutation now key input (dev_store d) = (Inr m, q)"
    using enqueue(1) by (auto simp: enqueueMutation_def split: sum.splits)
  then obtain row where row: "q = dev_store d\<lparr>mutation_queue := mutation_queue (dev_store d) @ [row], mutation_seq := mutation_seq (dev_store d) + 1\<rparr>"
    "m = mutation_of row" "mut_method row = enq_method input" "mut_path row = enq_path input"
    "mut_body row = map_option JSON_stringify (enq_body input)"
    using enqueue(2) device_okD(1)[OF enqueue.prems(1)] by (elim insertMutation_effect) auto
  have "row_queued (es @ [Ev_enqueued input m]) row"
    unfolding row_queued_def queued_as_def using row(2-5) enqueue(2) by (intro exI[of _ input] exI[of _ m]) auto
  then show ?case using more(1) by (intro all_queuedI) (auto simp: row(1) dest: more(2))
next
  case (start d pending)
  note more = all_queuedD(1)[OF all_queued_more[OF start.prems(2), of Ev_started]]
  have wf: "queue_wf (dev_store d)" by (rule device_okD(1)[OF start.prems(1)])
  have "mutation_queued (es @ [Ev_started]) m" if m: "m \<in> set pending" for m
  proof -
    obtain row where row: "row \<in> set (mutation_queue (dev_store d))" "m = mutation_of row"
      using m start(2) listPending_wf[OF wf] by auto
    then show ?thesis
      using more stored_body_sent[OF queue_wf_rows[OF wf row(1)]] by (simp add: row_queued_def mutation_queued_def)
  qed
  then show ?case using more by (intro all_queuedI) auto
next
  case (send d m ms token now request q)
  note more = all_queuedD[OF all_queued_more[OF send.prems(2), of "Ev_sent m request"]]
  have q: "q = update_row (qm_id m) (\<lambda>row. row\<lparr>mut_status := Mut_processing, mut_updatedAt := now\<rparr>) (dev_store d)"
    using send(3) by (auto simp: processOne_send_def markMutationProcessing_def split: if_splits)
  have "\<forall>row\<in>set (mutation_queue q). row_queued (es @ [Ev_sent m request]) row"
    unfolding q by (rule update_row_queued[OF more(1)]) simp
  then show ?case by (intro all_queuedI) (auto dest: more(2))
next
  case (answer d m ms now fetched outcome q)
  note more = all_queuedD[OF all_queued_more[OF answer.prems(2), of "Ev_answered m fetched"]]
  show ?case using receive_queued[OF more(1) answer(3)] more(2)[OF answer(1)]
    by (intro all_queuedI) (auto split: if_splits)
next
  case (purge d now)
  note more = all_queuedD[OF all_queued_more[OF purge(2), of Ev_purged]]
  show ?case using more by (intro all_queuedI) (auto simp: purgeTenantScoped_def writeCache_def)
qed (auto dest: all_queued_more simp: all_queued_def row_queued_def intro: queued_as_more)

lemma new_device_ok: "device_ok new_device" "all_queued [] new_device"
  by (simp_all add: device_ok_def all_queued_def new_device_def empty_offline_db_def queue_wf_def)

lemma queue_run_ok: "queue_run es d \<Longrightarrow> device_ok d \<and> all_queued es d"
proof (induction rule: queue_run.induct)
  case run_start
  show ?case using new_device_ok by simp
next
  case (run_step es d e d')
  then show ?case using queue_step_device_ok queue_step_queued by blast
qed

inductive_cases queue_run_snocE: "queue_run (es @ [e]) d"

text \<open>
  C7. Whatever happens on the device, every request the queue sends, however often it is repeated and after
  however many restarts, carries the method, the path, the body and the idempotency key with which that
  mutation was queued before: the text that is sent parses to the value that was queued.
\<close>

theorem replays_are_faithful:
  assumes "queue_run (es @ [Ev_sent m request]) d"
  shows "\<exists>input m0. Ev_enqueued input m0 \<in> set es \<and> qm_id m0 = qm_id m \<and> hr_method request = enq_method input \<and>
     hr_path request = enq_path input \<and> hr_idempotencyKey request = qm_idempotencyKey m0 \<and>
     (case hr_body request of None \<Rightarrow> enq_body input = None | Some text \<Rightarrow> JSON_parse text = enq_body input)"
proof -
  from assms obtain d0 where d0: "queue_run es d0" "queue_step d0 (Ev_sent m request) d" by (rule queue_run_snocE) auto
  then have ok: "all_queued es d0" using queue_run_ok by blast
  from d0(2) obtain token now ms q where b: "dev_batch d0 = Some (m # ms)"
    "processOne_send token now m (dev_store d0) = Some (request, q)" by (cases rule: queue_step.cases) auto
  then have "mutation_queued es m" using all_queuedD(2)[OF ok b(1)] by simp
  moreover have "request = mutation_request (the token) m" using b(2) by (simp add: processOne_send_def split: if_splits)
  ultimately obtain input m0 where i: "Ev_enqueued input m0 \<in> set es" "qm_id m0 = qm_id m"
    "hr_idempotencyKey request = qm_idempotencyKey m0" "hr_method request = enq_method input" "hr_path request = enq_path input"
    "hr_body request = map_option JSON_stringify (enq_body input)" "\<forall>v. enq_body input = Some v \<longrightarrow> json_ok v"
    by (auto simp: mutation_queued_def queued_as_def mutation_request_def)
  then show ?thesis
    by (intro exI[of _ input] exI[of _ m0]) (auto simp: JSON_parse_stringify split: option.splits)
qed

text \<open>
  The list that a running pass has read outlives a sign-out: the purge empties the table, but when the
  request in flight is answered the pass goes on with the next mutation and sends it with the token it finds
  then, which after another user has signed in is that user's.
\<close>

theorem pass_outlives_sign_out:
  assumes "dev_batch d = Some (m # m' # ms)" and "dev_flight d" and "response_ok response" and "truthy (Some token)"
  shows "\<exists>d1 d2 d3. queue_step d Ev_purged d1 \<and> filter (\<lambda>row. mut_scope row = Scope_tenant) (mutation_queue (dev_store d1)) = [] \<and>
     queue_step d1 (Ev_answered m (Fetched response)) d2 \<and>
     queue_step d2 (Ev_sent m' (mutation_request token m')) d3"
proof -
  define d1 where "d1 = d\<lparr>dev_store := purgeTenantScoped (writeCache 0 None (dev_store d))\<rparr>"
  obtain outcome q where r: "processOne_receive 0 m (Fetched response) (dev_store d1) = (outcome, q)" by fastforce
  have "conclusive m (Fetched response)" using assms(3) by (simp add: conclusive_def)
  then have "outcome = Continue" using receive_outcome[of 0 m "Fetched response" "dev_store d1"] r by simp
  define d2 where "d2 = d1\<lparr>dev_store := q, dev_batch := Some (m' # ms), dev_flight := False\<rparr>"
  define d3 where "d3 = d2\<lparr>dev_store := markMutationProcessing 0 (qm_id m') (dev_store d2), dev_flight := True\<rparr>"
  have "queue_step d Ev_purged d1" unfolding d1_def by (rule purge)
  moreover have "filter (\<lambda>row. mut_scope row = Scope_tenant) (mutation_queue (dev_store d1)) = []"
    by (simp add: d1_def purgeTenantScoped_def filter_empty_conv)
  moreover have "queue_step d1 (Ev_answered m (Fetched response)) d2"
    using answer[of d1 m "m' # ms" 0 "Fetched response" outcome q] r assms(1,2) \<open>outcome = Continue\<close> by (simp add: d2_def d1_def)
  moreover have "queue_step d2 (Ev_sent m' (mutation_request token m')) d3"
    unfolding d3_def by (rule send[where token = "Some token" and now = 0]) (use assms(4) in \<open>simp_all add: d2_def processOne_send_def\<close>)
  ultimately show ?thesis by blast
qed

section \<open>Runs to try them on\<close>

definition fx_body :: json where
  "fx_body = JObj [(''customerId'', JStr ''c1''), (''notes'', JStr [CHR ''a'', CHR 0x22, CHR 0x0A]),
     (''lines'', JArr [JObj [(''productId'', JStr ''p1''), (''quantity'', JNum 2)]])]"

definition fx_input :: enqueue_input where
  "fx_input = \<lparr>enq_method = M_POST, enq_path = ''/sales'', enq_body = Some fx_body, enq_scope = None\<rparr>"

text \<open>One mutation is queued, read by a pass and sent.\<close>

lemma one_mutation:
  assumes "assertValidMutationPath (enq_path input) = Inr ()" and ok: "\<And>v. enq_body input = Some v \<Longrightarrow> json_ok v" and "truthy (Some token)"
  obtains m d1 d2 d3 where "queue_step new_device (Ev_enqueued input m) d1" "queue_step d1 Ev_started d2"
    "queue_step d2 (Ev_sent m (mutation_request token m)) d3" "qm_idempotencyKey m = key" "qm_path m = enq_path input"
    "qm_method m = enq_method input" "qm_body m = enq_body input" "dev_batch d3 = Some [m]" "dev_flight d3"
proof -
  obtain r q where ins: "insertMutation 0 key input empty_offline_db = (r, q)" by fastforce
  obtain m where r: "r = Inr m" using ins ok
    by (cases "enq_body input") (auto simp: insertMutation_def empty_offline_db_def Let_def rowToMutation_def JSON_parse_stringify)
  from ins have ins: "insertMutation 0 key input empty_offline_db = (Inr m, q)" by (simp add: r)
  obtain row where row: "q = empty_offline_db\<lparr>mutation_queue := mutation_queue empty_offline_db @ [row], mutation_seq := mutation_seq empty_offline_db + 1\<rparr>"
    "m = mutation_of row" "mut_status row = Mut_pending" "mut_idempotencyKey row = key" "mut_path row = enq_path input"
    "mut_method row = enq_method input" "mut_body row = map_option JSON_stringify (enq_body input)"
    by (rule insertMutation_effect[OF ins ok empty_queue_wf])
  have enq: "enqueueMutation 0 key input empty_offline_db = (Inr m, q)" using ins assms(1) by (simp add: enqueueMutation_def)
  have wf: "queue_wf q" by (rule enqueueMutation_effect[OF enq ok empty_queue_wf])
  define d1 where "d1 = new_device\<lparr>dev_store := q\<rparr>"
  have s1: "queue_step new_device (Ev_enqueued input m) d1"
    unfolding d1_def by (rule enqueue[where key = key and now = 0]) (use enq ok in \<open>simp_all add: new_device_def\<close>)
  have pending: "listPendingMutations (dev_store d1) = Inr [m]"
    using listPending_wf[OF wf] row by (simp add: d1_def empty_offline_db_def waiting_def)
  define d2 where "d2 = d1\<lparr>dev_batch := Some [m], dev_flight := False\<rparr>"
  have s2: "queue_step d1 Ev_started d2" unfolding d2_def by (rule start[OF _ pending]) (simp add: d1_def new_device_def)
  define d3 where "d3 = d2\<lparr>dev_store := markMutationProcessing 0 (qm_id m) (dev_store d2), dev_flight := True\<rparr>"
  have s3: "queue_step d2 (Ev_sent m (mutation_request token m)) d3" unfolding d3_def
    by (rule send[where token = "Some token" and now = 0]) (use assms(3) in \<open>simp_all add: d2_def processOne_send_def\<close>)
  have body: "qm_body m = enq_body input" unfolding row(2) using row(7) ok
    by (cases "enq_body input") (simp_all add: mutation_of_def JSON_parse_stringify)
  show thesis by (rule that[OF s1 s2 s3 _ _ _ body]) (simp_all add: row(2) row(4-6) d3_def d2_def)
qed

lemma replays_are_faithful_witness:
  "\<exists>m request d. queue_run [Ev_enqueued fx_input m, Ev_started, Ev_sent m request] d \<and>
     hr_idempotencyKey request = ''k1'' \<and> hr_path request = ''/sales'' \<and> Option.bind (hr_body request) JSON_parse = Some fx_body"
proof -
  have path: "assertValidMutationPath (enq_path fx_input) = Inr ()" unfolding fx_input_def by code_simp
  have ok: "\<And>v. enq_body fx_input = Some v \<Longrightarrow> json_ok v" by (auto simp: fx_input_def fx_body_def)
  obtain m d1 d2 d where s: "queue_step new_device (Ev_enqueued fx_input m) d1" "queue_step d1 Ev_started d2"
    "queue_step d2 (Ev_sent m (mutation_request ''tok'' m)) d" and key: "qm_idempotencyKey m = ''k1''"
    by (rule one_mutation[OF path ok, where token = "''tok''" and key = "''k1''"]) simp_all
  define request where "request = mutation_request ''tok'' m"
  have run: "queue_run ([Ev_enqueued fx_input m, Ev_started] @ [Ev_sent m request]) d" "qm_idempotencyKey m = ''k1''"
    using run_step[OF run_step[OF run_step[OF run_start s(1)] s(2)] s(3)] key by (simp_all add: request_def)
  from replays_are_faithful[OF run(1)] have "hr_path request = ''/sales'' \<and> hr_idempotencyKey request = ''k1'' \<and>
      (case hr_body request of None \<Rightarrow> False | Some text \<Rightarrow> JSON_parse text = Some fx_body)"
    using run(2) by (auto simp: fx_input_def split: option.splits)
  then show ?thesis using run(1) by (intro exI[of _ m] exI[of _ request] exI[of _ d]) (auto split: option.splits)
qed

definition fx_device :: device where
  "fx_device = \<lparr>dev_store = fx_queue, dev_batch = Some (map mutation_of (mutation_queue fx_queue)), dev_flight = True\<rparr>"

lemma pass_outlives_sign_out_witness:
  "\<exists>d1 d2 d3 request. queue_step fx_device Ev_purged d1 \<and>
     queue_step d1 (Ev_answered (mutation_of (fx_row 1 ''/a'' ''k1'')) (Fetched \<lparr>rs_status = 201, rs_body = JNull\<rparr>)) d2 \<and>
     queue_step d2 (Ev_sent (mutation_of (fx_row 2 ''/b'' ''k2'')) request) d3 \<and> hr_authorization request = ''Bearer token of B''"
proof -
  have "dev_batch fx_device = Some [mutation_of (fx_row 1 ''/a'' ''k1''), mutation_of (fx_row 2 ''/b'' ''k2'')]" "dev_flight fx_device"
    by (simp_all add: fx_device_def fx_queue_def)
  from pass_outlives_sign_out[OF this, of "\<lparr>rs_status = 201, rs_body = JNull\<rparr>" "''token of B''"]
  obtain d1 d2 d3 where "queue_step fx_device Ev_purged d1"
    "queue_step d1 (Ev_answered (mutation_of (fx_row 1 ''/a'' ''k1'')) (Fetched \<lparr>rs_status = 201, rs_body = JNull\<rparr>)) d2"
    "queue_step d2 (Ev_sent (mutation_of (fx_row 2 ''/b'' ''k2'')) (mutation_request ''token of B'' (mutation_of (fx_row 2 ''/b'' ''k2'')))) d3"
    by (auto simp: response_ok_def)
  moreover have "hr_authorization (mutation_request ''token of B'' (mutation_of (fx_row 2 ''/b'' ''k2''))) = ''Bearer token of B''"
    by (simp add: mutation_request_def)
  ultimately show ?thesis by blast
qed

end
