(* ===== verification/MobileApp.thy ===== *)
theory MobileApp
  imports Replay
begin

text \<open>
  The rest of the mobile application's own logic: the hooks with which the screens write (one per kind of
  document), what of the query cache may go to disk, and the session with its refresh token, whose end
  purges the offline store.
\<close>

section \<open>Writing from a screen\<close>

text \<open>
  What a hook closes over: the API as the queue sees it, the network, the token of the session, whether the
  device is online, the clock and the key that is drawn.
\<close>

record 's hook =
  hook_server :: "http_request \<Rightarrow> 's \<Rightarrow> http_response \<times> 's"
  hook_link :: "nat \<Rightarrow> link"
  hook_accessToken :: "string option"
  hook_isOnline :: bool
  hook_now :: date
  hook_key :: string

text \<open>
  The body that all hooks share: queue, replay when online, report a refusal, and then invalidate the lists
  and sheets that show the document. The value is the list of the query keys that were invalidated.
\<close>

definition runMutation ::
    "'s hook \<Rightarrow> http_method \<Rightarrow> string \<Rightarrow> json option \<Rightarrow> string list list \<Rightarrow> offline_db \<times> 's \<Rightarrow>
     (exn + string list list) \<times> offline_db \<times> 's" where
  "runMutation h method path body queryKeys w = (case w of (q, s) \<Rightarrow>
     (case enqueueMutation (hook_now h) (hook_key h) \<lparr>enq_method = method, enq_path = path, enq_body = body, enq_scope = None\<rparr> q of
        (Inl e, q1) \<Rightarrow> (Inl e, q1, s)
      | (Inr queued, q1) \<Rightarrow>
     if \<not> hook_isOnline h then (Inr [], q1, s)
     else (case processQueue (hook_server h) (hook_link h) (hook_accessToken h) (hook_now h) (q1, s) of
        (Inl e, w2) \<Rightarrow> (Inl e, w2)
      | (Inr _, w2) \<Rightarrow> (case assertMutationSucceeded (qm_id queued) (fst w2) of
            Inl e \<Rightarrow> (Inl e, w2)
          | Inr _ \<Rightarrow> (Inr queryKeys, w2)))))"

text \<open>\<open>encodeURIComponent\<close> on the characters of the model (two bytes of UTF-8 from code 128 on).\<close>

definition uri_unreserved :: "char \<Rightarrow> bool" where
  "uri_unreserved c \<longleftrightarrow> (let n = char_code c in 48 \<le> n \<and> n \<le> 57 \<or> 65 \<le> n \<and> n \<le> 90 \<or> 97 \<le> n \<and> n \<le> 122) \<or>
     c \<in> set ''-_.!~*'' \<or> char_code c \<in> {39, 40, 41}"

definition hex_upper :: "nat \<Rightarrow> char" where
  "hex_upper n = (if n < 10 then char_of (48 + n) else char_of (55 + n))"

definition percent :: "nat \<Rightarrow> string" where
  "percent b = [CHR ''%'', hex_upper (b div 16), hex_upper (b mod 16)]"

definition encode_char :: "char \<Rightarrow> string" where
  "encode_char c = (let n = char_code c in
     if uri_unreserved c then [c]
     else if n < 128 then percent n
     else percent (192 + n div 64) @ percent (128 + n mod 64))"

definition encodeURIComponent :: "string \<Rightarrow> string" where
  "encodeURIComponent v = concat (map encode_char v)"

subsection \<open>Sales, purchases, invoices\<close>

definition useCreateSale :: "'s hook \<Rightarrow> json \<Rightarrow> offline_db \<times> 's \<Rightarrow> (exn + string list list) \<times> offline_db \<times> 's" where
  "useCreateSale h values = runMutation h M_POST ''/sales'' (Some values) [[''sales'']]"

definition useConfirmSale :: "'s hook \<Rightarrow> string \<Rightarrow> offline_db \<times> 's \<Rightarrow> (exn + string list list) \<times> offline_db \<times> 's" where
  "useConfirmSale h saleId = runMutation h M_POST (''/sales/'' @ encodeURIComponent saleId @ ''/confirm'') None
     [[''sales''], [''sale'', saleId], [''stock''], [''stock-movements'']]"

definition useCancelSale :: "'s hook \<Rightarrow> string \<Rightarrow> offline_db \<times> 's \<Rightarrow> (exn + string list list) \<times> offline_db \<times> 's" where
  "useCancelSale h saleId = runMutation h M_POST (''/sales/'' @ encodeURIComponent saleId @ ''/cancel'') None
     [[''sales''], [''sale'', saleId]]"

definition useCreatePurchase :: "'s hook \<Rightarrow> json \<Rightarrow> offline_db \<times> 's \<Rightarrow> (exn + string list list) \<times> offline_db \<times> 's" where
  "useCreatePurchase h values = runMutation h M_POST ''/purchases'' (Some values) [[''purchases'']]"

definition useConfirmPurchase :: "'s hook \<Rightarrow> string \<Rightarrow> offline_db \<times> 's \<Rightarrow> (exn + string list list) \<times> offline_db \<times> 's" where
  "useConfirmPurchase h purchaseId = runMutation h M_POST (''/purchases/'' @ encodeURIComponent purchaseId @ ''/confirm'') None
     [[''purchases''], [''purchase'', purchaseId], [''stock''], [''stock-movements'']]"

definition useCancelPurchase :: "'s hook \<Rightarrow> string \<Rightarrow> offline_db \<times> 's \<Rightarrow> (exn + string list list) \<times> offline_db \<times> 's" where
  "useCancelPurchase h purchaseId = runMutation h M_POST (''/purchases/'' @ encodeURIComponent purchaseId @ ''/cancel'') None
     [[''purchases''], [''purchase'', purchaseId]]"

definition useCreateInvoice :: "'s hook \<Rightarrow> json \<Rightarrow> offline_db \<times> 's \<Rightarrow> (exn + string list list) \<times> offline_db \<times> 's" where
  "useCreateInvoice h values = runMutation h M_POST ''/invoices'' (Some values) [[''invoices'']]"

definition useMarkInvoicePaid :: "'s hook \<Rightarrow> string \<Rightarrow> offline_db \<times> 's \<Rightarrow> (exn + string list list) \<times> offline_db \<times> 's" where
  "useMarkInvoicePaid h invoiceId = runMutation h M_POST (''/invoices/'' @ encodeURIComponent invoiceId @ ''/mark-paid'') None
     [[''invoices''], [''invoice'', invoiceId]]"

definition useVoidInvoice :: "'s hook \<Rightarrow> string \<Rightarrow> offline_db \<times> 's \<Rightarrow> (exn + string list list) \<times> offline_db \<times> 's" where
  "useVoidInvoice h invoiceId = runMutation h M_POST (''/invoices/'' @ encodeURIComponent invoiceId @ ''/void'') None
     [[''invoices''], [''invoice'', invoiceId]]"

subsection \<open>Stock and accounting\<close>

definition useCreateStockMovement :: "'s hook \<Rightarrow> json \<Rightarrow> offline_db \<times> 's \<Rightarrow> (exn + string list list) \<times> offline_db \<times> 's" where
  "useCreateStockMovement h values = runMutation h M_POST ''/stock/movements'' (Some values) [[''stock''], [''stock-movements'']]"

definition useCreateAccount :: "'s hook \<Rightarrow> json \<Rightarrow> offline_db \<times> 's \<Rightarrow> (exn + string list list) \<times> offline_db \<times> 's" where
  "useCreateAccount h values = runMutation h M_POST ''/accounting/accounts'' (Some values)
     [[''accounting-accounts''], [''accounting-trial-balance'']]"

definition useCreateJournalEntry :: "'s hook \<Rightarrow> json \<Rightarrow> offline_db \<times> 's \<Rightarrow> (exn + string list list) \<times> offline_db \<times> 's" where
  "useCreateJournalEntry h values = runMutation h M_POST ''/accounting/journal-entries'' (Some values)
     [[''journal-entries''], [''accounting-accounts''], [''accounting-trial-balance'']]"

subsection \<open>Customers, suppliers, products\<close>

text \<open>A sheet that has an id is changed, another is created.\<close>

definition useSaveCustomer ::
    "'s hook \<Rightarrow> string option \<Rightarrow> json \<Rightarrow> offline_db \<times> 's \<Rightarrow> (exn + string list list) \<times> offline_db \<times> 's" where
  "useSaveCustomer h customerId values = runMutation h (if truthy customerId then M_PATCH else M_POST)
     (if truthy customerId then ''/customers/'' @ encodeURIComponent (the customerId) else ''/customers'') (Some values) [[''customers'']]"

definition useDeactivateCustomer :: "'s hook \<Rightarrow> string \<Rightarrow> offline_db \<times> 's \<Rightarrow> (exn + string list list) \<times> offline_db \<times> 's" where
  "useDeactivateCustomer h customerId = runMutation h M_DELETE (''/customers/'' @ encodeURIComponent customerId) None [[''customers'']]"

definition useSaveSupplier ::
    "'s hook \<Rightarrow> string option \<Rightarrow> json \<Rightarrow> offline_db \<times> 's \<Rightarrow> (exn + string list list) \<times> offline_db \<times> 's" where
  "useSaveSupplier h supplierId values = runMutation h (if truthy supplierId then M_PATCH else M_POST)
     (if truthy supplierId then ''/suppliers/'' @ encodeURIComponent (the supplierId) else ''/suppliers'') (Some values) [[''suppliers'']]"

definition useDeactivateSupplier :: "'s hook \<Rightarrow> string \<Rightarrow> offline_db \<times> 's \<Rightarrow> (exn + string list list) \<times> offline_db \<times> 's" where
  "useDeactivateSupplier h supplierId = runMutation h M_DELETE (''/suppliers/'' @ encodeURIComponent supplierId) None [[''suppliers'']]"

definition useSaveProduct ::
    "'s hook \<Rightarrow> string option \<Rightarrow> json \<Rightarrow> offline_db \<times> 's \<Rightarrow> (exn + string list list) \<times> offline_db \<times> 's" where
  "useSaveProduct h productId values = runMutation h (if truthy productId then M_PATCH else M_POST)
     (if truthy productId then ''/products/'' @ encodeURIComponent (the productId) else ''/products'') (Some values) [[''products'']]"

definition useDeactivateProduct :: "'s hook \<Rightarrow> string \<Rightarrow> offline_db \<times> 's \<Rightarrow> (exn + string list list) \<times> offline_db \<times> 's" where
  "useDeactivateProduct h productId = runMutation h M_DELETE (''/products/'' @ encodeURIComponent productId) None [[''products'']]"

section \<open>What goes to disk\<close>

text \<open>A query key is a list of values; a key is persisted when one of the prefixes of the list is a prefix of it.\<close>

definition DEHYDRATE_ALLOW_LIST :: "json list list" where
  "DEHYDRATE_ALLOW_LIST = map (map JStr)
     [[''customers''], [''suppliers''], [''products''], [''stock''], [''stock-movements''], [''sales''], [''sale''], [''purchases''],
      [''purchase''], [''invoices''], [''invoice''], [''accounting-accounts''], [''accounting-trial-balance''], [''journal-entries''],
      [''journal-entry''], [''reports-sales''], [''reports-purchases''], [''reports-income-statement''], [''users'', ''me'', ''context'']]"

definition isAllowedToPersist :: "json list \<Rightarrow> bool" where
  "isAllowedToPersist queryKey = list_ex (\<lambda>prefix. take (length prefix) queryKey = prefix) DEHYDRATE_ALLOW_LIST"

section \<open>The session\<close>

datatype session_status = Ses_loading | Ses_authenticated | Ses_unauthenticated

record session =
  ses_status :: session_status
  ses_user :: "json option"
  ses_accessToken :: "string option"

definition INITIAL_SESSION :: session where
  "INITIAL_SESSION = \<lparr>ses_status = Ses_loading, ses_user = None, ses_accessToken = None\<rparr>"

definition UNAUTHENTICATED_SESSION :: session where
  "UNAUTHENTICATED_SESSION = \<lparr>ses_status = Ses_unauthenticated, ses_user = None, ses_accessToken = None\<rparr>"

text \<open>\<open>app_queries\<close> is the cache of the queries in memory; the refresh token lies in the secure store.\<close>

record app =
  app_refreshToken :: "string option"
  app_store :: offline_db
  app_queries :: "(json list \<times> json) list"
  app_session :: session

text \<open>The answers of the authentication routes, requested by path, body and token.\<close>

type_synonym 's auth_api = "string \<Rightarrow> json \<Rightarrow> string option \<Rightarrow> 's \<Rightarrow> fetch_result \<times> 's"

definition postAuth :: "'s auth_api \<Rightarrow> string \<Rightarrow> json \<Rightarrow> string option \<Rightarrow> 's \<Rightarrow> (exn + http_response \<times> json) \<times> 's" where
  "postAuth api path body accessToken s = (case api path body accessToken s of
     (Fetch_failed, s') \<Rightarrow> (Inl (JsError ''fetch''), s')
   | (Fetched res, s') \<Rightarrow> (Inr (res, if rs_status res = 204 then JNull else rs_body res), s'))"

definition safeErrorMessage :: "http_response \<Rightarrow> json \<Rightarrow> string \<Rightarrow> string" where
  "safeErrorMessage res data fallback =
     (if 500 \<le> rs_status res \<or> rs_status res = 429 then fallback else extractErrorMessage data fallback)"

definition fetchCurrentUser :: "'s auth_api \<Rightarrow> string \<Rightarrow> 's \<Rightarrow> (exn + json) \<times> 's" where
  "fetchCurrentUser api accessToken s = (case api ''/auth/me'' JNull (Some accessToken) s of
     (Fetch_failed, s') \<Rightarrow> (Inl (JsError ''fetch''), s')
   | (Fetched res, s') \<Rightarrow>
       if \<not> response_ok res then (Inl (JsError ''Impossible de recuperer le profil utilisateur''), s') else (Inr (rs_body res), s'))"

definition text_property :: "string \<Rightarrow> json \<Rightarrow> string" where
  "text_property k v = (case v of JObj ms \<Rightarrow> (case map_of ms k of Some (JStr t) \<Rightarrow> t | _ \<Rightarrow> []) | _ \<Rightarrow> [])"

text \<open>
  What of the device may fail: reading, writing and deleting the token in the secure store, and the two deletions of the
  offline store.
\<close>

record device_faults =
  df_read :: bool
  df_write :: bool
  df_clear :: bool
  df_cache :: bool
  df_queue :: bool

definition NO_FAULTS :: device_faults where
  "NO_FAULTS = \<lparr>df_read = False, df_write = False, df_clear = False, df_cache = False, df_queue = False\<rparr>"

definition clearStoredRefreshToken :: "device_faults \<Rightarrow> app \<Rightarrow> (exn + unit) \<times> app" where
  "clearStoredRefreshToken f a = (if df_clear f then (Inl (JsError ''SecureStore''), a) else (Inr (), a\<lparr>app_refreshToken := None\<rparr>))"

text \<open>The new refresh token is stored before the profile is asked for.\<close>

definition establishSession ::
    "'s auth_api \<Rightarrow> device_faults \<Rightarrow> string \<Rightarrow> string \<Rightarrow> app \<times> 's \<Rightarrow> (exn + session \<times> json) \<times> app \<times> 's" where
  "establishSession api f accessToken refreshToken w = (case w of (a, s) \<Rightarrow>
     if df_write f then (Inl (JsError ''SecureStore''), a, s)
     else (let a1 = a\<lparr>app_refreshToken := Some refreshToken\<rparr> in
      case fetchCurrentUser api accessToken s of
        (Inl e, s') \<Rightarrow> (Inl e, a1, s')
      | (Inr user, s') \<Rightarrow> (Inr (\<lparr>ses_status = Ses_authenticated, ses_user = Some user, ses_accessToken = Some accessToken\<rparr>, user), a1, s')))"

text \<open>\<open>Promise.allSettled\<close>: both deletions are tried; if one has failed, the purge throws.\<close>

definition purgeOfflineStore :: "device_faults \<Rightarrow> date \<Rightarrow> app \<Rightarrow> (exn + unit) \<times> app" where
  "purgeOfflineStore f now a =
     (let store1 = (if df_cache f then app_store a else writeCache now None (app_store a));
          store2 = (if df_queue f then store1 else purgeTenantScoped store1)
      in (if df_cache f \<or> df_queue f then Inl (JsError ''Echec partiel de la purge du cache hors-ligne'') else Inr (),
          a\<lparr>app_queries := [], app_store := store2\<rparr>))"

definition endSession :: "device_faults \<Rightarrow> date \<Rightarrow> app \<Rightarrow> (exn + unit) \<times> app" where
  "endSession f now a = (case purgeOfflineStore f now a of
     (Inl e, a1) \<Rightarrow> (Inl e, a1)
   | (Inr _, a1) \<Rightarrow> clearStoredRefreshToken f a1)"

text \<open>The body of \<open>restoreSession\<close>, and the handler of whatever it throws. \<open>faults 0\<close> are those of the body, \<open>faults 1\<close> those of the handler.\<close>

definition restore_body :: "'s auth_api \<Rightarrow> device_faults \<Rightarrow> date \<Rightarrow> app \<times> 's \<Rightarrow> (exn + unit) \<times> app \<times> 's" where
  "restore_body api f now w = (case w of (a, s) \<Rightarrow>
     if df_read f then (Inl (JsError ''SecureStore''), a, s)
     else if \<not> truthy (app_refreshToken a)
     then (case purgeOfflineStore f now a of
         (Inl e, a1) \<Rightarrow> (Inl e, a1, s)
       | (Inr _, a1) \<Rightarrow> (Inr (), a1\<lparr>app_session := UNAUTHENTICATED_SESSION\<rparr>, s))
     else (case postAuth api ''/auth/refresh'' (JObj [(''refreshToken'', JStr (the (app_refreshToken a)))]) None s of
         (Inl e, s1) \<Rightarrow> (Inl e, a, s1)
       | (Inr (res, data), s1) \<Rightarrow>
           if \<not> response_ok res then (case endSession f now a of
               (Inl e, a1) \<Rightarrow> (Inl e, a1, s1)
             | (Inr _, a1) \<Rightarrow> (Inr (), a1\<lparr>app_session := UNAUTHENTICATED_SESSION\<rparr>, s1))
           else (case establishSession api f (text_property ''accessToken'' data) (text_property ''refreshToken'' data) (a, s1) of
               (Inl e, a1, s2) \<Rightarrow> (Inl e, a1, s2)
             | (Inr (nextSession, _), a1, s2) \<Rightarrow> (Inr (), a1\<lparr>app_session := nextSession\<rparr>, s2))))"

definition restoreSession :: "'s auth_api \<Rightarrow> (nat \<Rightarrow> device_faults) \<Rightarrow> date \<Rightarrow> app \<times> 's \<Rightarrow> app \<times> 's" where
  "restoreSession api faults now w = (case restore_body api (faults 0) now w of
     (Inr _, w1) \<Rightarrow> w1
   | (Inl _, a1, s1) \<Rightarrow> ((snd (endSession (faults 1) now a1))\<lparr>app_session := UNAUTHENTICATED_SESSION\<rparr>, s1))"

datatype app_login_result = Mfa_required string | Signed_in json

definition app_login :: "'s auth_api \<Rightarrow> device_faults \<Rightarrow> string \<Rightarrow> string \<Rightarrow> app \<times> 's \<Rightarrow> (exn + app_login_result) \<times> app \<times> 's" where
  "app_login api f email password w = (case w of (a, s) \<Rightarrow>
     (case postAuth api ''/auth/login'' (JObj [(''email'', JStr email), (''password'', JStr password)]) None s of
        (Inl e, s1) \<Rightarrow> (Inl e, a, s1)
      | (Inr (res, data), s1) \<Rightarrow>
          if \<not> response_ok res then (Inl (JsError (safeErrorMessage res data ''Impossible de se connecter'')), a, s1)
          else if (case data of JObj ms \<Rightarrow> map_of ms ''mfaRequired'' = Some (JBool True) | _ \<Rightarrow> False)
          then (Inr (Mfa_required (text_property ''challengeToken'' data)), a, s1)
          else (case establishSession api f (text_property ''accessToken'' data) (text_property ''refreshToken'' data) (a, s1) of
              (Inl e, w2) \<Rightarrow> (Inl e, w2)
            | (Inr (nextSession, user), a1, s2) \<Rightarrow> (Inr (Signed_in user), a1\<lparr>app_session := nextSession\<rparr>, s2))))"

definition verifyMfa :: "'s auth_api \<Rightarrow> device_faults \<Rightarrow> string \<Rightarrow> string \<Rightarrow> app \<times> 's \<Rightarrow> (exn + json) \<times> app \<times> 's" where
  "verifyMfa api f challengeToken code w = (case w of (a, s) \<Rightarrow>
     (case postAuth api ''/auth/mfa/verify'' (JObj [(''challengeToken'', JStr challengeToken), (''code'', JStr code)]) None s of
        (Inl e, s1) \<Rightarrow> (Inl e, a, s1)
      | (Inr (res, data), s1) \<Rightarrow>
          if \<not> response_ok res then (Inl (JsError (safeErrorMessage res data ''Code de verification invalide'')), a, s1)
          else (case establishSession api f (text_property ''accessToken'' data) (text_property ''refreshToken'' data) (a, s1) of
              (Inl e, w2) \<Rightarrow> (Inl e, w2)
            | (Inr (nextSession, user), a1, s2) \<Rightarrow> (Inr user, a1\<lparr>app_session := nextSession\<rparr>, s2))))"

text \<open>What the server answers to the sign-out does not matter; a failure of the device leaves the session as it is.\<close>

definition app_logout :: "'s auth_api \<Rightarrow> device_faults \<Rightarrow> date \<Rightarrow> app \<times> 's \<Rightarrow> (exn + unit) \<times> app \<times> 's" where
  "app_logout api f now w = (case w of (a, s) \<Rightarrow>
     if df_read f then (Inl (JsError ''SecureStore''), a, s)
     else (let s1 = (if truthy (app_refreshToken a)
                then snd (postAuth api ''/auth/logout'' (JObj [(''refreshToken'', JStr (the (app_refreshToken a)))])
                  (ses_accessToken (app_session a)) s)
                else s)
      in (case endSession f now a of
            (Inl e, a1) \<Rightarrow> (Inl e, a1, s1)
          | (Inr _, a1) \<Rightarrow> (Inr (), a1\<lparr>app_session := UNAUTHENTICATED_SESSION\<rparr>, s1))))"

section \<open>What a screen is told\<close>

lemma filter_after_pass:
  "filter (\<lambda>row. mut_id row = i) (after_pass now tried rows) = after_pass now tried (filter (\<lambda>row. mut_id row = i) rows)"
proof (induction rows)
  case (Cons row rows)
  have "filter (\<lambda>r. mut_id r = i) (after_attempt now fetched row) = (if mut_id row = i then after_attempt now fetched row else [])" for fetched
    using after_attempt_same[of _ now fetched row] by (auto simp: filter_empty_conv filter_id_conv)
  then show ?case using Cons by (simp split: option.splits)
qed simp

lemma assertMutationSucceeded_wf:
  assumes "queue_wf q"
  shows "assertMutationSucceeded i q = (case find_by mut_id i (mutation_queue q) of
     None \<Rightarrow> Inr ()
   | Some row \<Rightarrow> if mut_status row = Mut_failed
       then Inl (JsError (case mut_lastError row of None \<Rightarrow> ''La modification a ete refusee par le serveur'' | Some text \<Rightarrow> text))
       else Inr ())"
proof -
  have "List.find (\<lambda>m. qm_id m = i) (map mutation_of rows) = map_option mutation_of (find_by mut_id i rows)" for rows
    by (induction rows) simp_all
  then show ?thesis using listMutations_wf[OF assms] by (simp add: assertMutationSucceeded_def split: option.splits)
qed

lemma find_by_first: "find_by key k rows = (case filter (\<lambda>r. key r = k) rows of [] \<Rightarrow> None | r # _ \<Rightarrow> Some r)"
  by (induction rows) auto

text \<open>
  A write from a screen that is online tells the truth: an error is shown exactly when the server has refused
  the mutation for good, with the server's message; otherwise the mutation is gone from the queue, which
  happens only after an answer of success, or still waits to be sent.
\<close>

theorem hook_reports_refusals:
  assumes "queue_wf q" and "assertValidMutationPath path = Inr ()" and "\<And>v. body = Some v \<Longrightarrow> json_ok v"
    and "hook_isOnline h" and "hook_accessToken h = Some token" "token \<noteq> []"
  shows "\<exists>outcome q' s' tried. runMutation h method path body queryKeys (q, s) = (outcome, q', s') \<and> queue_wf q' \<and>
     tried = fst (exchanges (hook_server h) (hook_link h) token (map mutation_of (filter waiting (mutation_queue
        (snd (insertMutation (hook_now h) (hook_key h) \<lparr>enq_method = method, enq_path = path, enq_body = body, enq_scope = None\<rparr> q))))) s) \<and>
     (let mine = filter (\<lambda>row. mut_id row = mutation_seq q + 1) (mutation_queue q') in
      case outcome of
        Inl e \<Rightarrow> (\<exists>row text. mine = [row] \<and> mut_status row = Mut_failed \<and> mut_lastError row = Some text \<and> e = JsError text)
      | Inr ks \<Rightarrow> ks = queryKeys \<and> ((\<exists>row. mine = [row] \<and> waiting row) \<or>
          mine = [] \<and> (\<exists>response. map_of tried (mutation_seq q + 1) = Some (Fetched response) \<and> response_ok response)))"
proof -
  let ?input = "\<lparr>enq_method = method, enq_path = path, enq_body = body, enq_scope = None\<rparr>"
  obtain r q1 where ins: "insertMutation (hook_now h) (hook_key h) ?input q = (r, q1)" by fastforce
  have ok: "json_ok v" if "enq_body ?input = Some v" for v using assms(3) that by simp
  obtain m where m: "insertMutation (hook_now h) (hook_key h) ?input q = (Inr m, q1)"
    by (rule insertMutation_succeeds[OF assms(1), of ?input "hook_now h" "hook_key h"]) (use ins ok in auto)
  obtain row where row: "q1 = q\<lparr>mutation_queue := mutation_queue q @ [row], mutation_seq := mutation_seq q + 1\<rparr>" "row_ok row"
    "m = mutation_of row" "mut_id row = mutation_seq q + 1" "mut_status row = Mut_pending"
    by (rule insertMutation_effect[OF m ok assms(1)])
  have wf1: "queue_wf q1" unfolding row(1) by (rule appended_wf[OF assms(1) row(2,4)])
  have enq: "enqueueMutation (hook_now h) (hook_key h) ?input q = (Inr m, q1)" using m assms(2) by (simp add: enqueueMutation_def)
  obtain tried s' where e: "exchanges (hook_server h) (hook_link h) token (map mutation_of (filter waiting (mutation_queue q1))) s = (tried, s')"
    by fastforce
  obtain timer q' where p: "processQueue (hook_server h) (hook_link h) (Some token) (hook_now h) (q1, s) = (Inr timer, q', s')"
    "mutation_queue q' = after_pass (hook_now h) tried (mutation_queue q1)" "queue_wf q'"
    by (rule processQueue_exchanges[OF wf1 _ e, of "hook_now h"]) (use assms(6) in simp_all)
  define mine where "mine = filter (\<lambda>row. mut_id row = mutation_seq q + 1) (mutation_queue q')"
  have "filter (\<lambda>row. mut_id row = mutation_seq q + 1) (mutation_queue q) = []"
    using assms(1) by (auto simp: filter_empty_conv queue_wf_def)
  then have mine: "mine = (case map_of tried (mutation_seq q + 1) of None \<Rightarrow> [row] | Some fetched \<Rightarrow> after_attempt (hook_now h) fetched row)"
    unfolding mine_def p(2) filter_after_pass using row(4) by (simp add: row(1) split: option.splits)
  have a: "assertMutationSucceeded (qm_id m) q' = (case mine of [] \<Rightarrow> Inr () | r # _ \<Rightarrow>
      if mut_status r = Mut_failed then Inl (JsError (case mut_lastError r of None \<Rightarrow> ''La modification a ete refusee par le serveur'' | Some text \<Rightarrow> text))
      else Inr ())"
    unfolding assertMutationSucceeded_wf[OF p(3)] find_by_first mine_def using row(3,4) by (simp split: list.splits)
  have run: "runMutation h method path body queryKeys (q, s) =
      (case assertMutationSucceeded (qm_id m) q' of Inl e \<Rightarrow> Inl e | Inr _ \<Rightarrow> Inr queryKeys, q', s')"
    using enq p(1) assms(4,5) by (simp add: runMutation_def split: sum.splits)
  have res: "case (case assertMutationSucceeded (qm_id m) q' of Inl e \<Rightarrow> Inl e | Inr _ \<Rightarrow> Inr queryKeys) of
        Inl e \<Rightarrow> (\<exists>row text. mine = [row] \<and> mut_status row = Mut_failed \<and> mut_lastError row = Some text \<and> e = JsError text)
      | Inr ks \<Rightarrow> ks = queryKeys \<and> ((\<exists>row. mine = [row] \<and> waiting row) \<or>
          mine = [] \<and> (\<exists>response. map_of tried (mutation_seq q + 1) = Some (Fetched response) \<and> response_ok response))"
  proof (cases "map_of tried (mutation_seq q + 1)")
    case None
    then show ?thesis unfolding a mine using row(5) by (simp add: waiting_def)
  next
    case (Some fetched)
    then show ?thesis unfolding a mine
      by (auto simp: after_attempt_def waiting_def Let_def split: fetch_result.splits)
  qed
  show ?thesis
    using run res p(3) e ins m unfolding mine_def Let_def
    by (intro exI[of _ "case assertMutationSucceeded (qm_id m) q' of Inl e \<Rightarrow> Inl e | Inr _ \<Rightarrow> Inr queryKeys"] exI[of _ q'] exI[of _ s'] exI[of _ tried]) simp
qed

text \<open>The mutation of the hook is the third of the queue; the first two go out before it.\<close>

definition fx_hook :: "http_request list hook" where
  "fx_hook = \<lparr>hook_server = fx_log_server, hook_link = (\<lambda>_. Link_up), hook_accessToken = Some ''tok'', hook_isOnline = True,
     hook_now = 5, hook_key = ''k3''\<rparr>"

lemma hook_reports_refusals_witness:
  "\<exists>outcome q' s'. runMutation fx_hook M_POST ''/c'' None [[''sales'']] (fx_queue, []) = (outcome, q', s') \<and> queue_wf q'"
proof -
  have "assertValidMutationPath ''/c'' = Inr ()" by code_simp
  moreover have "hook_isOnline fx_hook" "hook_accessToken fx_hook = Some ''tok''" by (simp_all add: fx_hook_def)
  ultimately show ?thesis
    using hook_reports_refusals[OF fx_queue_wf, of "''/c''" None fx_hook "''tok''" M_POST "[[''sales'']]" "[]"] by blast
qed

section \<open>What a session leaves behind\<close>

text \<open>
  The device of a signed-out user: no token, no session, no query in memory or on disk, no mutation of a tenant.
\<close>

definition left_clean :: "app \<Rightarrow> bool" where
  "left_clean a \<longleftrightarrow> \<not> truthy (app_refreshToken a) \<and> app_session a = UNAUTHENTICATED_SESSION \<and> app_queries a = [] \<and>
     readCache (app_store a) = None \<and> (\<forall>row\<in>set (mutation_queue (app_store a)). mut_scope row = Scope_auth)"

definition device_fails :: "device_faults \<Rightarrow> bool" where
  "device_fails f \<longleftrightarrow> df_read f \<or> df_write f \<or> df_clear f \<or> df_cache f \<or> df_queue f"

text \<open>What a purge has deleted, whether it has failed or not.\<close>

definition purged :: "device_faults \<Rightarrow> app \<Rightarrow> bool" where
  "purged f a \<longleftrightarrow> app_queries a = [] \<and> (df_cache f \<or> readCache (app_store a) = None) \<and>
     (df_queue f \<or> (\<forall>row\<in>set (mutation_queue (app_store a)). mut_scope row = Scope_auth))"

lemma purgeOfflineStore_outcome:
  assumes "purgeOfflineStore f now a = (res, a')"
  shows "purged f a'" "app_session a' = app_session a" "app_refreshToken a' = app_refreshToken a" "res = Inr () \<longleftrightarrow> \<not> df_cache f \<and> \<not> df_queue f"
  using assms
  by (auto simp: purgeOfflineStore_def purged_def Let_def purgeTenantScoped_def writeCache_def readCache_def split: if_splits)

lemma endSession_outcome:
  assumes "endSession f now a = (res, a')"
  shows "purged f a'" "app_session a' = app_session a"
    "(\<exists>e. res = Inl e) \<and> device_fails f \<or> res = Inr () \<and> left_clean (a'\<lparr>app_session := UNAUTHENTICATED_SESSION\<rparr>)"
proof -
  obtain r1 a1 where p: "purgeOfflineStore f now a = (r1, a1)" by fastforce
  note purge = purgeOfflineStore_outcome[OF p]
  show "purged f a'" "app_session a' = app_session a"
    using assms purge(1,2) by (auto simp: endSession_def p clearStoredRefreshToken_def purged_def split: sum.splits if_splits)
  show "(\<exists>e. res = Inl e) \<and> device_fails f \<or> res = Inr () \<and> left_clean (a'\<lparr>app_session := UNAUTHENTICATED_SESSION\<rparr>)"
    using assms purge(1,4)
    by (cases r1) (auto simp: endSession_def p clearStoredRefreshToken_def purged_def device_fails_def left_clean_def split: if_splits)
qed

text \<open>
  A new session keeps the store as it is: what was queued before goes on waiting.
\<close>

lemma establishSession_keeps:
  "establishSession api f t r (a, s) = (res, a', s') \<Longrightarrow>
     app_store a' = app_store a \<and> app_queries a' = app_queries a \<and> app_session a' = app_session a \<and>
     (\<forall>ses u. res = Inr (ses, u) \<longrightarrow> ses_status ses = Ses_authenticated \<and> ses_accessToken ses = Some t)"
  by (auto simp: establishSession_def Let_def split: prod.splits sum.splits if_splits)

lemma restore_body_outcome:
  assumes "restore_body api f now (a, s) = (Inr x, a', s')"
  shows "ses_status (app_session a') = Ses_authenticated \<and> app_store a' = app_store a \<and> app_queries a' = app_queries a \<or>
    app_session a' = UNAUTHENTICATED_SESSION \<and> left_clean a'"
proof -
  have read: "\<not> df_read f" using assms by (auto simp: restore_body_def)
  show ?thesis
  proof (cases "truthy (app_refreshToken a)")
    case False
    obtain r a1 where p: "purgeOfflineStore f now a = (r, a1)" by fastforce
    show ?thesis using assms read False purgeOfflineStore_outcome[OF p]
      by (cases r) (auto simp: restore_body_def p purged_def left_clean_def)
  next
    case True
    obtain r a1 where e: "endSession f now a = (r, a1)" by fastforce
    obtain answer s1 where ans: "postAuth api ''/auth/refresh'' (JObj [(''refreshToken'', JStr (the (app_refreshToken a)))]) None s = (answer, s1)"
      by fastforce
    obtain res data where y: "answer = Inr (res, data)"
      using assms read True by (cases answer) (auto simp: restore_body_def ans)
    show ?thesis
    proof (cases "response_ok res")
      case False
      then show ?thesis using assms read True endSession_outcome[OF e]
        by (cases r) (auto simp: restore_body_def ans y e left_clean_def)
    next
      case ok: True
      obtain z a2 s2 where z: "establishSession api f (text_property ''accessToken'' data) (text_property ''refreshToken'' data) (a, s1) = (z, a2, s2)"
        by (metis prod_cases3)
      show ?thesis using assms read True ok establishSession_keeps[OF z]
        by (cases z) (auto simp: restore_body_def ans y z)
    qed
  qed
qed


text \<open>
  C37. A start without a network throws the waiting mutations away: the stored token cannot be exchanged, which the
  application takes for a session that has ended; it purges the queue and the cache and forgets the token, though
  both the token and the mutations were good and the device works.
\<close>

theorem offline_cold_start_loses_queue:
  assumes "app_refreshToken a = Some token" and "token \<noteq> []"
    and "api ''/auth/refresh'' (JObj [(''refreshToken'', JStr token)]) None s = (Fetch_failed, s)"
    and "row \<in> set (mutation_queue (app_store a))" and "waiting row" and "mut_scope row = Scope_tenant"
  shows "let a' = fst (restoreSession api (\<lambda>_. NO_FAULTS) now (a, s)) in
     row \<notin> set (mutation_queue (app_store a')) \<and> app_refreshToken a' = None \<and> app_session a' = UNAUTHENTICATED_SESSION"
  using assms by (simp add: restoreSession_def restore_body_def NO_FAULTS_def postAuth_def endSession_def purgeOfflineStore_def
      purgeTenantScoped_def clearStoredRefreshToken_def Let_def)

definition fx_app :: app where
  "fx_app = \<lparr>app_refreshToken = Some ''r1'', app_store = fx_queue, app_queries = [([JStr ''sales''], JNull)], app_session = INITIAL_SESSION\<rparr>"

lemma offline_cold_start_loses_queue_witness:
  "mutation_queue (app_store fx_app) \<noteq> [] \<and>
   fx_row 1 ''/a'' ''k1'' \<notin> set (mutation_queue (app_store (fst (restoreSession (\<lambda>_ _ _ s. (Fetch_failed, s)) (\<lambda>_. NO_FAULTS) 9 (fx_app, ())))))"
  using offline_cold_start_loses_queue[of fx_app "''r1''" "\<lambda>_ _ _ s. (Fetch_failed, s)" "()" "fx_row 1 ''/a'' ''k1''" 9]
  by (simp add: fx_app_def fx_queue_def fx_row_def waiting_def Let_def)

text \<open>
  A purge that fails in the handler: the sign-in screen shows, the token and the mutations of the tenant are still there.
\<close>

lemma failed_purge_shows_sign_in:
  "let a' = fst (restoreSession (\<lambda>_ _ _ s. (Fetch_failed, s)) (\<lambda>_. NO_FAULTS\<lparr>df_queue := True\<rparr>) 9 (fx_app, ())) in
     app_session a' = UNAUTHENTICATED_SESSION \<and> app_refreshToken a' = Some ''r1'' \<and>
     mutation_queue (app_store a') = mutation_queue (app_store fx_app) \<and> mutation_queue (app_store fx_app) \<noteq> []"
  by code_simp

end
