(* ===== verification/Accounting.thy ===== *)
theory Accounting
  imports Invoicing
begin

text \<open>
  apps/api/src/accounting: the chart of accounts and the append-only journal. Definitions follow
  journal.repository.ts, accounts.repository.ts and their services. An entry is checked for balance
  before the transaction opens, numbered from its enterprise's counter and never modified; account
  balances and the trial balance are computed from the lines at reading. As in Sales, \<open>s0\<close> is the
  database the first statement of the transaction sees.
\<close>

section \<open>Journal views\<close>

record journal_line_view =
  jlv_id :: uuid
  jlv_accountId :: uuid
  jlv_accountCode :: string
  jlv_accountLabel :: string
  jlv_label :: "string option"
  jlv_debitAmount :: int
  jlv_creditAmount :: int

record journal_entry_view =
  jev_id :: uuid
  jev_enterpriseId :: uuid
  jev_number :: string
  jev_entryDate :: date
  jev_reference :: "string option"
  jev_description :: string
  jev_lines :: "journal_line_view list"
  jev_createdAt :: date
  jev_updatedAt :: date
  jev_totalDebit :: int
  jev_totalCredit :: int

record create_journal_entry_result =
  cjr_view :: journal_entry_view
  cjr_created :: bool

definition entry_include :: "db \<Rightarrow> journal_entry \<Rightarrow> exn + (journal_line \<times> account) list" where
  "entry_include s entry =
     sum_mapM (\<lambda>line. case find_by account_id (journalLine_accountId line) (accounts s) of
                 None \<Rightarrow> Inl PrismaUnknown | Some account \<Rightarrow> Inr (line, account)) (journalEntry_lines entry)"

definition toEntryLineView :: "journal_line \<times> account \<Rightarrow> journal_line_view" where
  "toEntryLineView la = (case la of (line, account) \<Rightarrow>
     \<lparr>jlv_id = journalLine_id line, jlv_accountId = journalLine_accountId line,
      jlv_accountCode = account_code account, jlv_accountLabel = account_label account,
      jlv_label = journalLine_label line, jlv_debitAmount = journalLine_debitAmount line,
      jlv_creditAmount = journalLine_creditAmount line\<rparr>)"

definition toEntryView :: "journal_entry \<Rightarrow> (journal_line \<times> account) list \<Rightarrow> journal_entry_view" where
  "toEntryView entry joined =
     (let lines = map toEntryLineView joined;
          totals = foldl (\<lambda>(d, c) line. (d + jlv_debitAmount line, c + jlv_creditAmount line)) (0, 0) lines
      in \<lparr>jev_id = journalEntry_id entry, jev_enterpriseId = journalEntry_enterpriseId entry,
          jev_number = journalEntry_number entry, jev_entryDate = journalEntry_entryDate entry,
          jev_reference = journalEntry_reference entry, jev_description = journalEntry_description entry,
          jev_lines = lines, jev_createdAt = journalEntry_createdAt entry,
          jev_updatedAt = journalEntry_updatedAt entry, jev_totalDebit = fst totals, jev_totalCredit = snd totals\<rparr>)"

section \<open>Creating an entry\<close>

record create_journal_line_input =
  jli_accountId :: uuid
  jli_label :: "string option"
  jli_debitAmount :: int
  jli_creditAmount :: int

record create_journal_entry_input =
  jei_entryDate :: "date option"
  jei_reference :: "string option"
  jei_description :: string
  jei_lines :: "create_journal_line_input list"

definition createJournalEntrySchema :: "create_journal_entry_input \<Rightarrow> bool" where
  "createJournalEntrySchema input \<longleftrightarrow> jei_reference input \<noteq> Some [] \<and> jei_description input \<noteq> [] \<and>
     2 \<le> length (jei_lines input) \<and>
     (\<forall>l\<in>set (jei_lines input). jli_label l \<noteq> Some [] \<and> 0 \<le> jli_debitAmount l \<and> 0 \<le> jli_creditAmount l \<and>
        (0 < jli_debitAmount l) \<noteq> (0 < jli_creditAmount l)) \<and>
     (\<Sum>l\<leftarrow>jei_lines input. jli_debitAmount l) = (\<Sum>l\<leftarrow>jei_lines input. jli_creditAmount l) \<and>
     0 < (\<Sum>l\<leftarrow>jei_lines input. jli_debitAmount l)"

definition journalEntry_findByKey :: "uuid \<Rightarrow> string option \<Rightarrow> db \<Rightarrow> journal_entry option" where
  "journalEntry_findByKey enterpriseId idempotencyKey s =
     List.find (\<lambda>r. journalEntry_enterpriseId r = enterpriseId \<and> journalEntry_idempotencyKey r = idempotencyKey)
       (journalEntries s)"

definition bump_journalEntryCounter :: "uuid \<Rightarrow> db \<Rightarrow> nat \<times> db" where
  "bump_journalEntryCounter e s =
     (let n = next_number (journalEntryCounters s) e
      in (n, s\<lparr>journalEntryCounters := (journalEntryCounters s)(e \<mapsto> n)\<rparr>))"

text \<open>
  The CHECK constraint of migration 20260816150000 on every line; a violation has no Prisma code.
\<close>

definition journal_line_check :: "journal_line \<Rightarrow> bool" where
  "journal_line_check l \<longleftrightarrow> 0 \<le> journalLine_debitAmount l \<and> 0 \<le> journalLine_creditAmount l \<and>
     (0 < journalLine_debitAmount l) \<noteq> (0 < journalLine_creditAmount l)"

definition entry_collides :: "journal_entry \<Rightarrow> db \<Rightarrow> bool" where
  "entry_collides row s \<longleftrightarrow> journalEntry_id row \<in> journalEntry_id ` set (journalEntries s) \<or>
     journalEntry_number row \<in> journalEntry_number ` set (journalEntries s) \<or>
     \<not> distinct (map journalLine_id (journalEntry_lines row)) \<or>
     (\<exists>r\<in>set (journalEntries s). \<exists>l\<in>set (journalEntry_lines r).
        journalLine_id l \<in> journalLine_id ` set (journalEntry_lines row)) \<or>
     clashes_key journalEntry_enterpriseId journalEntry_idempotencyKey row (journalEntries s)"

definition journalEntry_create :: "journal_entry \<Rightarrow> (db, exn, journal_entry) txn" where
  "journalEntry_create row s =
     (if entry_collides row s then Inl (PrismaKnown P2002)
      else if \<exists>l\<in>set (journalEntry_lines row). \<not> journal_line_check l then Inl PrismaUnknown
      else Inr (row, s\<lparr>journalEntries := journalEntries s @ [row]\<rparr>))"

definition new_entry_lines :: "(nat \<Rightarrow> uuid) \<Rightarrow> uuid \<Rightarrow> create_journal_line_input list \<Rightarrow> journal_line list" where
  "new_entry_lines lineIds enterpriseId lines =
     map (\<lambda>(i, line). \<lparr>journalLine_id = lineIds i, journalLine_enterpriseId = enterpriseId,
            journalLine_accountId = jli_accountId line, journalLine_label = jli_label line,
            journalLine_debitAmount = jli_debitAmount line, journalLine_creditAmount = jli_creditAmount line\<rparr>)
       (enumerate 0 lines)"

definition replayed_entry :: "db \<Rightarrow> journal_entry \<Rightarrow> exn + create_journal_entry_result" where
  "replayed_entry s existing = (case entry_include s existing of
     Inl e \<Rightarrow> Inl e | Inr joined \<Rightarrow> Inr \<lparr>cjr_view = toEntryView existing joined, cjr_created = False\<rparr>)"

definition journal_create_tx ::
    "bool \<Rightarrow> uuid \<Rightarrow> (nat \<Rightarrow> uuid) \<Rightarrow> date \<Rightarrow> uuid \<Rightarrow> create_journal_entry_input \<Rightarrow> string option \<Rightarrow> db \<Rightarrow>
     (db, exn, create_journal_entry_result) txn" where
  "journal_create_tx alive newId lineIds now enterpriseId input idempotencyKey s0 s =
     (case (if truthy idempotencyKey then journalEntry_findByKey enterpriseId idempotencyKey s0 else None) of
        Some existing \<Rightarrow> (case replayed_entry s0 existing of Inl e \<Rightarrow> Inl e | Inr r \<Rightarrow> Inr (r, s))
      | None \<Rightarrow>
     (let accountIds = js_set (map jli_accountId (jei_lines input));
          found = filter (\<lambda>a. account_id a \<in> set accountIds) (accounts s);
          accountsById = (\<lambda>i. find_by account_id i found)
      in case List.find (\<lambda>i. case accountsById i of None \<Rightarrow> True | Some a \<Rightarrow> account_enterpriseId a \<noteq> enterpriseId)
                accountIds of
           Some accountId \<Rightarrow> Inl (NotFoundException (''Compte introuvable : '' @ accountId))
         | None \<Rightarrow>
     (let (sequenceNumber, s1) = bump_journalEntryCounter enterpriseId s
      in case journalEntry_create
             \<lparr>journalEntry_id = newId, journalEntry_enterpriseId = enterpriseId,
              journalEntry_number = document_number ''ECR'' enterpriseId sequenceNumber,
              journalEntry_entryDate = given (jei_entryDate input) now,
              journalEntry_reference = jei_reference input, journalEntry_description = jei_description input,
              journalEntry_idempotencyKey = idempotencyKey, journalEntry_createdAt = now,
              journalEntry_updatedAt = now,
              journalEntry_lines = new_entry_lines lineIds enterpriseId (jei_lines input)\<rparr> s1 of
           Inr (entry, s2) \<Rightarrow> (case entry_include s2 entry of
               Inl e \<Rightarrow> Inl e
             | Inr joined \<Rightarrow> Inr (\<lparr>cjr_view = toEntryView entry joined, cjr_created = True\<rparr>, s2))
         | Inl error \<Rightarrow>
             if truthy idempotencyKey \<and> error = PrismaKnown P2002 then
               if \<not> alive then Inl PrismaUnknown
               else (case journalEntry_findByKey enterpriseId idempotencyKey s of
                       Some existing \<Rightarrow> (case replayed_entry s existing of Inl e \<Rightarrow> Inl e | Inr r \<Rightarrow> Inr (r, s1))
                     | None \<Rightarrow> Inl error)
             else Inl error)))"

text \<open>The balance and the lines are checked before any transaction is opened.\<close>

definition journal_create ::
    "tenant_store option \<Rightarrow> bool \<Rightarrow> uuid \<Rightarrow> (nat \<Rightarrow> uuid) \<Rightarrow> date \<Rightarrow> uuid \<Rightarrow> create_journal_entry_input \<Rightarrow>
     string option \<Rightarrow> db \<Rightarrow> db \<Rightarrow> (exn + create_journal_entry_result) \<times> db" where
  "journal_create store alive newId lineIds now enterpriseId input idempotencyKey s0 s =
     (let totalDebit = foldl (\<lambda>sum line. sum + jli_debitAmount line) 0 (jei_lines input);
          totalCredit = foldl (\<lambda>sum line. sum + jli_creditAmount line) 0 (jei_lines input)
      in if totalDebit \<noteq> totalCredit \<or> totalDebit \<le> 0
         then (Inl (ConflictException ''Ecriture desequilibree : le total des debits doit etre egal au total des credits''), s)
         else if \<exists>line\<in>set (jei_lines input). (0 < jli_debitAmount line) = (0 < jli_creditAmount line)
         then (Inl (ConflictException ''Une ligne doit porter soit un debit, soit un credit, jamais les deux ni aucun des deux''), s)
         else tenant_run store (journal_create_tx alive newId lineIds now enterpriseId input idempotencyKey s0) s)"

definition journal_service_create ::
    "tenant_store option \<Rightarrow> bool \<Rightarrow> uuid \<Rightarrow> (nat \<Rightarrow> uuid) \<Rightarrow> date \<Rightarrow> uuid \<Rightarrow> uuid \<Rightarrow> create_journal_entry_input \<Rightarrow>
     string option \<Rightarrow> db \<Rightarrow> db \<Rightarrow> (exn + journal_entry_view) \<times> db" where
  "journal_service_create store alive newId lineIds now enterpriseId userId input idempotencyKey s0 s =
     (case journal_create store alive newId lineIds now enterpriseId input idempotencyKey s0 s of
        (Inl e, s') \<Rightarrow> (Inl e, s')
      | (Inr r, s') \<Rightarrow>
          (Inr (cjr_view r),
           if cjr_created r
           then auditLog_record (audit_entry userId enterpriseId CREATE_JOURNAL_ENTRY ''JournalEntry'' (jev_id (cjr_view r))) s'
           else s'))"

section \<open>Reading the journal\<close>

record list_journal_query =
  jq_page :: nat
  jq_pageSize :: nat
  jq_search :: "string option"
  jq_accountId :: "uuid option"

definition journal_where :: "(string \<Rightarrow> string \<Rightarrow> bool) \<Rightarrow> uuid \<Rightarrow> list_journal_query \<Rightarrow> journal_entry \<Rightarrow> bool" where
  "journal_where ilike enterpriseId query entry =
     (journalEntry_enterpriseId entry = enterpriseId \<and>
      (truthy (jq_accountId query) \<longrightarrow>
         (\<exists>l\<in>set (journalEntry_lines entry). journalLine_accountId l = the (jq_accountId query))) \<and>
      (truthy (jq_search query) \<longrightarrow>
         ilike (journalEntry_number entry) (the (jq_search query)) \<or>
         ilike (journalEntry_description entry) (the (jq_search query)) \<or>
         contains_opt ilike (journalEntry_reference entry) (the (jq_search query))))"

definition journal_view_of :: "db \<Rightarrow> journal_entry \<Rightarrow> exn + journal_entry_view" where
  "journal_view_of s entry = (case entry_include s entry of
     Inl e \<Rightarrow> Inl e | Inr joined \<Rightarrow> Inr (toEntryView entry joined))"

definition journal_findMany ::
    "(string \<Rightarrow> string \<Rightarrow> bool) \<Rightarrow> uuid \<Rightarrow> list_journal_query \<Rightarrow> db \<Rightarrow> exn + journal_entry_view page_result" where
  "journal_findMany ilike enterpriseId query s =
     (let matching = filter (journal_where ilike enterpriseId query) (journalEntries s);
          found = page_rows (jq_page query) (jq_pageSize query) (descending journalEntry_entryDate matching)
      in case sum_mapM (journal_view_of s) found of
           Inl e \<Rightarrow> Inl e
         | Inr items \<Rightarrow> Inr \<lparr>result_items = items, result_total = length matching,
             result_page = jq_page query, result_pageSize = jq_pageSize query\<rparr>)"

definition journal_findByIdOrThrow :: "uuid \<Rightarrow> uuid \<Rightarrow> db \<Rightarrow> exn + journal_entry_view" where
  "journal_findByIdOrThrow enterpriseId i s = (case find_by journalEntry_id i (journalEntries s) of
     None \<Rightarrow> Inl (NotFoundException ''Ecriture introuvable'')
   | Some entry \<Rightarrow> (case entry_include s entry of
       Inl e \<Rightarrow> Inl e
     | Inr joined \<Rightarrow>
         if journalEntry_enterpriseId entry \<noteq> enterpriseId then Inl (NotFoundException ''Ecriture introuvable'')
         else Inr (toEntryView entry joined)))"

section \<open>Accounts\<close>

record account_view =
  av_account :: account
  av_totalDebit :: int
  av_totalCredit :: int
  av_balance :: int

record trial_balance_view =
  tb_accounts :: "account_view list"
  tb_totalDebit :: int
  tb_totalCredit :: int

text \<open>\<open>/^[1-8][0-9]\{0,7\}$/\<close>.\<close>

definition account_code_ok :: "string \<Rightarrow> bool" where
  "account_code_ok c = (case c of [] \<Rightarrow> False
     | d # ds \<Rightarrow> d \<in> set ''12345678'' \<and> length ds \<le> 7 \<and> (\<forall>x\<in>set ds. x \<in> set ''0123456789''))"

definition account_lines :: "uuid \<Rightarrow> db \<Rightarrow> journal_line list" where
  "account_lines enterpriseId s =
     filter (\<lambda>l. journalLine_enterpriseId l = enterpriseId) (concat (map journalEntry_lines (journalEntries s)))"

definition aggregateBalances :: "uuid \<Rightarrow> uuid list \<Rightarrow> db \<Rightarrow> (uuid \<rightharpoonup> int \<times> int)" where
  "aggregateBalances enterpriseId accountIds s =
     (if accountIds = [] then Map.empty
      else let lines = filter (\<lambda>l. journalLine_accountId l \<in> set accountIds) (account_lines enterpriseId s);
               groups = map (\<lambda>a. (a,
                   \<Sum>l\<leftarrow>filter (\<lambda>l. journalLine_accountId l = a) lines. journalLine_debitAmount l,
                   \<Sum>l\<leftarrow>filter (\<lambda>l. journalLine_accountId l = a) lines. journalLine_creditAmount l))
                 (remdups (map journalLine_accountId lines))
           in foldl (\<lambda>balances (a, d, c). balances(a \<mapsto> (d, c))) Map.empty groups)"

definition toAccountView :: "account \<Rightarrow> (uuid \<rightharpoonup> int \<times> int) \<Rightarrow> account_view" where
  "toAccountView account balances =
     (let (totalDebit, totalCredit) = (case balances (account_id account) of None \<Rightarrow> (0, 0) | Some p \<Rightarrow> p)
      in \<lparr>av_account = account, av_totalDebit = totalDebit, av_totalCredit = totalCredit,
          av_balance = totalDebit - totalCredit\<rparr>)"

definition accounts_where :: "(string \<Rightarrow> string \<Rightarrow> bool) \<Rightarrow> uuid \<Rightarrow> string option \<Rightarrow> account \<Rightarrow> bool" where
  "accounts_where ilike enterpriseId search a =
     (account_enterpriseId a = enterpriseId \<and>
      (truthy search \<longrightarrow> ilike (account_code a) (the search) \<or> ilike (account_label a) (the search)))"

definition accounts_findMany ::
    "(string \<Rightarrow> string \<Rightarrow> bool) \<Rightarrow> (string \<Rightarrow> 'k::linorder) \<Rightarrow> uuid \<Rightarrow> list_stock_query \<Rightarrow> db \<Rightarrow> account_view page_result" where
  "accounts_findMany ilike collate enterpriseId query s =
     (let matching = filter (accounts_where ilike enterpriseId (lsq_search query)) (accounts s);
          found = page_rows (lsq_page query) (lsq_pageSize query) (ascending (\<lambda>a. collate (account_code a)) matching);
          balances = aggregateBalances enterpriseId (map account_id found) s
      in \<lparr>result_items = map (\<lambda>a. toAccountView a balances) found, result_total = length matching,
          result_page = lsq_page query, result_pageSize = lsq_pageSize query\<rparr>)"

definition getAccountOrThrow :: "uuid \<Rightarrow> uuid \<Rightarrow> db \<Rightarrow> exn + account" where
  "getAccountOrThrow enterpriseId i s = (case find_by account_id i (accounts s) of
     None \<Rightarrow> Inl (NotFoundException ''Compte introuvable'')
   | Some account \<Rightarrow>
       if account_enterpriseId account \<noteq> enterpriseId then Inl (NotFoundException ''Compte introuvable'')
       else Inr account)"

definition accounts_findByIdOrThrow :: "uuid \<Rightarrow> uuid \<Rightarrow> db \<Rightarrow> exn + account_view" where
  "accounts_findByIdOrThrow enterpriseId i s = (case getAccountOrThrow enterpriseId i s of
     Inl e \<Rightarrow> Inl e | Inr account \<Rightarrow> Inr (toAccountView account (aggregateBalances enterpriseId [i] s)))"

definition account_create :: "account \<Rightarrow> (db, exn, account) txn" where
  "account_create row s =
     (if account_id row \<in> account_id ` set (accounts s) \<or>
         (\<exists>r\<in>set (accounts s). account_enterpriseId r = account_enterpriseId row \<and> account_code r = account_code row)
      then Inl (PrismaKnown P2002)
      else Inr (row, s\<lparr>accounts := accounts s @ [row]\<rparr>))"

definition account_update :: "uuid \<Rightarrow> (account \<Rightarrow> account) \<Rightarrow> (db, exn, account) txn" where
  "account_update i f s = (case find_by account_id i (accounts s) of
     None \<Rightarrow> Inl (PrismaKnown P2025)
   | Some a \<Rightarrow> Inr (f a, s\<lparr>accounts := update_by account_id i f (accounts s)\<rparr>))"

definition accounts_create ::
    "tenant_store option \<Rightarrow> uuid \<Rightarrow> date \<Rightarrow> uuid \<Rightarrow> string \<Rightarrow> string \<Rightarrow> db \<Rightarrow> (exn + account_view) \<times> db" where
  "accounts_create store newId now enterpriseId code label s =
     (case withUniqueCodeConflictMapped ''Ce code de compte est deja utilise''
             (tenant_run store (account_create
               \<lparr>account_id = newId, account_enterpriseId = enterpriseId, account_code = code,
                account_label = label, account_createdAt = now, account_updatedAt = now\<rparr>) s) of
        (Inl e, s') \<Rightarrow> (Inl e, s')
      | (Inr account, s') \<Rightarrow> (Inr (toAccountView account Map.empty), s'))"

definition accounts_updateById ::
    "tenant_store option \<Rightarrow> date \<Rightarrow> uuid \<Rightarrow> uuid \<Rightarrow> string \<Rightarrow> db \<Rightarrow> (exn + account_view) \<times> db" where
  "accounts_updateById store now enterpriseId i label s =
     (case tenant_read store (getAccountOrThrow enterpriseId i) s of
        Inl e \<Rightarrow> (Inl e, s)
      | Inr _ \<Rightarrow>
     (case tenant_run store (account_update i (\<lambda>a. a\<lparr>account_label := label, account_updatedAt := now\<rparr>)) s of
        (Inl e, s') \<Rightarrow> (Inl e, s')
      | (Inr account, s') \<Rightarrow> (Inr (toAccountView account (aggregateBalances enterpriseId [i] s')), s')))"

definition trialBalance :: "(string \<Rightarrow> 'k::linorder) \<Rightarrow> uuid \<Rightarrow> db \<Rightarrow> trial_balance_view" where
  "trialBalance collate enterpriseId s =
     (let found = ascending (\<lambda>a. collate (account_code a))
                    (filter (\<lambda>a. account_enterpriseId a = enterpriseId) (accounts s));
          balances = aggregateBalances enterpriseId (map account_id found) s;
          views = map (\<lambda>a. toAccountView a balances) found;
          totals = foldl (\<lambda>(d, c) view. (d + av_totalDebit view, c + av_totalCredit view)) (0, 0) views
      in \<lparr>tb_accounts = views, tb_totalDebit = fst totals, tb_totalCredit = snd totals\<rparr>)"

definition accounts_service_create ::
    "tenant_store option \<Rightarrow> uuid \<Rightarrow> date \<Rightarrow> uuid \<Rightarrow> uuid \<Rightarrow> string \<Rightarrow> string \<Rightarrow> db \<Rightarrow> (exn + account_view) \<times> db" where
  "accounts_service_create store newId now enterpriseId userId code label s =
     audited userId enterpriseId CREATE_ACCOUNT ''Account'' (\<lambda>v. account_id (av_account v))
       (accounts_create store newId now enterpriseId code label s)"

definition accounts_service_update ::
    "tenant_store option \<Rightarrow> date \<Rightarrow> uuid \<Rightarrow> uuid \<Rightarrow> uuid \<Rightarrow> string \<Rightarrow> db \<Rightarrow> (exn + account_view) \<times> db" where
  "accounts_service_update store now enterpriseId userId i label s =
     audited userId enterpriseId UPDATE_ACCOUNT ''Account'' (\<lambda>v. account_id (av_account v))
       (accounts_updateById store now enterpriseId i label s)"

section \<open>Shape of the outcomes\<close>

definition new_entry ::
    "uuid \<Rightarrow> (nat \<Rightarrow> uuid) \<Rightarrow> date \<Rightarrow> uuid \<Rightarrow> create_journal_entry_input \<Rightarrow> string option \<Rightarrow> db \<Rightarrow> journal_entry" where
  "new_entry newId lineIds now e input k s =
     \<lparr>journalEntry_id = newId, journalEntry_enterpriseId = e,
      journalEntry_number = document_number ''ECR'' e (next_number (journalEntryCounters s) e),
      journalEntry_entryDate = given (jei_entryDate input) now, journalEntry_reference = jei_reference input,
      journalEntry_description = jei_description input, journalEntry_idempotencyKey = k,
      journalEntry_createdAt = now, journalEntry_updatedAt = now,
      journalEntry_lines = new_entry_lines lineIds e (jei_lines input)\<rparr>"

lemma new_entry_simps [simp]:
  "journalEntry_id (new_entry newId lineIds now e input k s) = newId"
  "journalEntry_enterpriseId (new_entry newId lineIds now e input k s) = e"
  "journalEntry_number (new_entry newId lineIds now e input k s) = document_number ''ECR'' e (next_number (journalEntryCounters s) e)"
  "journalEntry_idempotencyKey (new_entry newId lineIds now e input k s) = k"
  "journalEntry_lines (new_entry newId lineIds now e input k s) = new_entry_lines lineIds e (jei_lines input)"
  by (simp_all add: new_entry_def)

lemma new_entry_lines_simps [simp]:
  "map journalLine_enterpriseId (new_entry_lines lineIds e lines) = replicate (length lines) e"
  "map journalLine_accountId (new_entry_lines lineIds e lines) = map jli_accountId lines"
  "map journalLine_debitAmount (new_entry_lines lineIds e lines) = map jli_debitAmount lines"
  "map journalLine_creditAmount (new_entry_lines lineIds e lines) = map jli_creditAmount lines"
  by (rule nth_equalityI; simp add: new_entry_lines_def nth_enumerate_eq)+

lemma new_entry_lines_mem:
  assumes "l \<in> set (new_entry_lines lineIds e lines)"
  shows "journalLine_enterpriseId l = e"
    and "journalLine_accountId l \<in> jli_accountId ` set lines"
  using assms by (auto simp: new_entry_lines_def in_set_enumerate_eq)

definition recorded_db :: "journal_entry \<Rightarrow> db \<Rightarrow> db" where
  "recorded_db row s = s\<lparr>journalEntryCounters := (journalEntryCounters s)
       (journalEntry_enterpriseId row \<mapsto> next_number (journalEntryCounters s) (journalEntry_enterpriseId row)),
     journalEntries := journalEntries s @ [row]\<rparr>"

lemma replayed_entry_InrD: "replayed_entry sx m = Inr r \<Longrightarrow> \<not> cjr_created r"
  by (auto simp: replayed_entry_def split: sum.splits)

lemma entry_collides_counters [simp]:
  "entry_collides row (s\<lparr>journalEntryCounters := c\<rparr>) = entry_collides row s"
  by (simp add: entry_collides_def)

text \<open>The first account that is missing or foreign, looked up in the rows the \<open>findMany\<close> returned.\<close>

lemma first_foreign_account:
  "List.find (\<lambda>i. case find_by account_id i (filter (\<lambda>a. account_id a \<in> set (js_set (map jli_accountId lines))) (accounts s)) of
       None \<Rightarrow> True | Some p \<Rightarrow> account_enterpriseId p \<noteq> e) (js_set (map jli_accountId lines)) =
   List.find (\<lambda>i. \<not> owned_account e i s) (js_set (map jli_accountId lines))"
proof (rule find_cong[OF refl])
  fix i assume "i \<in> set (js_set (map jli_accountId lines))"
  from find_by_filter_mem[OF this, of account_id "accounts s"]
  show "(case find_by account_id i (filter (\<lambda>a. account_id a \<in> set (js_set (map jli_accountId lines))) (accounts s)) of
       None \<Rightarrow> True | Some p \<Rightarrow> account_enterpriseId p \<noteq> e) = (\<not> owned_account e i s)"
    by (simp add: owned_account_def split: option.splits)
qed

text \<open>On PostgreSQL (\<open>alive = False\<close>) the transaction either changes nothing or records one new entry.\<close>

lemma journal_create_tx_InrE:
  assumes "journal_create_tx False newId lineIds now e input k s0 s = Inr (r, s')"
  obtains (same) "s' = s" "\<not> cjr_created r"
  | (insert) "\<forall>line\<in>set (jei_lines input). owned_account e (jli_accountId line) s"
      "\<not> entry_collides (new_entry newId lineIds now e input k s) s"
      "\<forall>l\<in>set (new_entry_lines lineIds e (jei_lines input)). journal_line_check l"
      "s' = recorded_db (new_entry newId lineIds now e input k s) s" "cjr_created r"
      "\<exists>joined. entry_include s (new_entry newId lineIds now e input k s) = Inr joined \<and>
         cjr_view r = toEntryView (new_entry newId lineIds now e input k s) joined"
proof (cases "truthy k \<and> journalEntry_findByKey e k s0 \<noteq> None")
  case True
  then obtain m where "truthy k" "journalEntry_findByKey e k s0 = Some m" by auto
  with assms have "s' = s \<and> replayed_entry s0 m = Inr r"
    by (auto simp: journal_create_tx_def split: sum.splits)
  then show thesis using same replayed_entry_InrD by blast
next
  case False
  let ?ids = "js_set (map jli_accountId (jei_lines input))"
  let ?row = "new_entry newId lineIds now e input k s"
  have first: "(if truthy k then journalEntry_findByKey e k s0 else None) = None" using False by auto
  let ?s1 = "s\<lparr>journalEntryCounters := (journalEntryCounters s)(e \<mapsto> next_number (journalEntryCounters s) e)\<rparr>"
  from assms have "List.find (\<lambda>i. \<not> owned_account e i s) ?ids = None"
    and c: "\<exists>joined. journalEntry_create ?row ?s1 = Inr (?row, recorded_db ?row s) \<and> s' = recorded_db ?row s \<and>
      entry_include (recorded_db ?row s) ?row = Inr joined \<and> r = \<lparr>cjr_view = toEntryView ?row joined, cjr_created = True\<rparr>"
    unfolding journal_create_tx_def first option.case(1) Let_def first_foreign_account bump_journalEntryCounter_def prod.case
      new_entry_def[symmetric]
    by (auto simp: journalEntry_create_def recorded_db_def split: option.splits sum.splits if_splits)
  moreover have "entry_include (recorded_db ?row s) ?row = entry_include s ?row"
    by (simp add: entry_include_def recorded_db_def)
  ultimately show thesis
    by (intro insert) (auto simp: find_None_iff journalEntry_create_def split: if_splits)
qed

lemma journal_create_InrD:
  assumes "journal_create store alive newId lineIds now e input k s0 s = (Inr r, s')"
  shows "journal_create_tx alive newId lineIds now e input k s0 s = Inr (r, s')"
    and "(\<Sum>l\<leftarrow>jei_lines input. jli_debitAmount l) = (\<Sum>l\<leftarrow>jei_lines input. jli_creditAmount l)"
    and "0 < (\<Sum>l\<leftarrow>jei_lines input. jli_debitAmount l)"
  using assms
  by (auto simp: journal_create_def Let_def foldl_sum dest!: tenant_run_InrD split: if_splits)

lemma journal_create_InlD: "journal_create store alive newId lineIds now e input k s0 s = (Inl err, s') \<Longrightarrow> s' = s"
  by (auto simp: journal_create_def Let_def dest: tenant_run_InlD split: if_splits)

section \<open>Steps of the accounting\<close>

definition keeps_account :: "(account \<Rightarrow> account) \<Rightarrow> bool" where
  "keeps_account f \<longleftrightarrow> (\<forall>a. account_id (f a) = account_id a \<and> account_enterpriseId (f a) = account_enterpriseId a \<and>
     account_code (f a) = account_code a)"

inductive accounting_step :: "uuid \<Rightarrow> db \<Rightarrow> db \<Rightarrow> bool" for e where
  same: "accounting_step e s s"
| account_new: "account_enterpriseId a = e \<Longrightarrow> account_create a s = Inr (a, s') \<Longrightarrow> accounting_step e s s'"
| account_set: "keeps_account f \<Longrightarrow> owned_account e i s \<Longrightarrow> account_update i f s = Inr (a, s') \<Longrightarrow> accounting_step e s s'"
| entry: "journal_create store False newId lineIds now e input k s0 s = (Inr r, s') \<Longrightarrow> accounting_step e s s'"
| audit: "accounting_step e s s' \<Longrightarrow> audit_enterpriseId a = Some e \<Longrightarrow> accounting_step e s (auditLog_record a s')"

lemma journal_service_create_step:
  "accounting_step e s (snd (journal_service_create store False newId lineIds now e u input k s0 s))"
  by (auto simp: journal_service_create_def split: prod.splits sum.splits
      dest: journal_create_InlD intro: accounting_step.same accounting_step.entry)
    (rule accounting_step.audit, rule accounting_step.entry, assumption, simp add: audit_entry_def)

lemma accounts_services_step:
  "accounting_step e s (snd (accounts_service_create store newId now e u code label s))"
  "accounting_step e s (snd (accounts_service_update store now e u i label s))"
proof -
  let ?a = "\<lparr>account_id = newId, account_enterpriseId = e, account_code = code, account_label = label,
      account_createdAt = now, account_updatedAt = now\<rparr>"
  have "accounting_step e s (snd (tenant_run store (account_create ?a) s))"
    by (rule tenant_run_invariant[where P = "accounting_step e s", OF _ accounting_step.same])
      (auto intro: accounting_step.account_new[of ?a] simp: account_create_def split: if_splits)
  then show "accounting_step e s (snd (accounts_service_create store newId now e u code label s))"
    by (auto simp: accounts_service_create_def accounts_create_def audited_def withUniqueCodeConflictMapped_def audit_entry_def
        split: prod.splits sum.splits intro!: accounting_step.audit)
  have k: "keeps_account (\<lambda>a. a\<lparr>account_label := label, account_updatedAt := now\<rparr>)" by (simp add: keeps_account_def)
  have "accounting_step e s (snd (tenant_run store (account_update i (\<lambda>a. a\<lparr>account_label := label, account_updatedAt := now\<rparr>)) s))"
    if "owned_account e i s"
    by (rule tenant_run_invariant[where P = "accounting_step e s", OF accounting_step.account_set[OF k that] accounting_step.same])
  moreover have "owned_account e i s" if "tenant_read store (getAccountOrThrow e i) s = Inr a" for a
    using tenant_read_InrD[OF that] by (auto simp: getAccountOrThrow_def owned_defs split: option.splits if_splits)
  ultimately show "accounting_step e s (snd (accounts_service_update store now e u i label s))"
    by (auto simp: accounts_service_update_def accounts_updateById_def audited_def audit_entry_def
        split: prod.splits sum.splits intro!: accounting_step.audit intro: accounting_step.same)
qed

section \<open>Invariants\<close>

definition entry_debit :: "journal_entry \<Rightarrow> int" where
  "entry_debit r = (\<Sum>l\<leftarrow>journalEntry_lines r. journalLine_debitAmount l)"

definition entry_credit :: "journal_entry \<Rightarrow> int" where
  "entry_credit r = (\<Sum>l\<leftarrow>journalEntry_lines r. journalLine_creditAmount l)"

definition entry_wf :: "db \<Rightarrow> journal_entry \<Rightarrow> bool" where
  "entry_wf s r \<longleftrightarrow> entry_debit r = entry_credit r \<and> 0 < entry_debit r \<and>
     (\<forall>l\<in>set (journalEntry_lines r). journal_line_check l \<and> journalLine_enterpriseId l = journalEntry_enterpriseId r \<and>
        owned_account (journalEntry_enterpriseId r) (journalLine_accountId l) s)"

definition accounting_wf :: "db \<Rightarrow> bool" where
  "accounting_wf s \<longleftrightarrow> distinct (map account_id (accounts s)) \<and>
     unique_key account_enterpriseId (\<lambda>a. Some (account_code a)) (accounts s) \<and>
     distinct (map journalEntry_id (journalEntries s)) \<and> distinct (map journalEntry_number (journalEntries s)) \<and>
     unique_key journalEntry_enterpriseId journalEntry_idempotencyKey (journalEntries s) \<and>
     (\<forall>r\<in>set (journalEntries s). entry_wf s r)"

lemma account_writes:
  "account_create a s = Inr (b, s') \<Longrightarrow> b = a \<and> account_id a \<notin> account_id ` set (accounts s) \<and>
     \<not> (\<exists>r\<in>set (accounts s). account_enterpriseId r = account_enterpriseId a \<and> account_code r = account_code a) \<and>
     s' = s\<lparr>accounts := accounts s @ [a]\<rparr>"
  "account_update i f s = Inr (b, s') \<Longrightarrow> s' = s\<lparr>accounts := update_by account_id i f (accounts s)\<rparr>"
  by (auto simp: account_create_def account_update_def split: if_splits option.splits)

lemma owned_account_append: "owned_account e i s \<Longrightarrow> owned_account e i (s\<lparr>accounts := accounts s @ [a]\<rparr>)"
  by (auto simp: owned_defs split: option.splits)

lemma owned_account_set:
  "keeps_account f \<Longrightarrow> owned_account e i (s\<lparr>accounts := update_by account_id j f (accounts s)\<rparr>) = owned_account e i s"
  by (simp add: owned_defs keeps_account_def find_by_update_by split: option.splits)

lemma owned_account_recorded [simp]: "owned_account e i (recorded_db row s) = owned_account e i s"
  by (simp add: recorded_db_def)

lemma entry_wf_mono:
  assumes "entry_wf s r" and "\<And>e i. owned_account e i s \<Longrightarrow> owned_account e i s'"
  shows "entry_wf s' r"
  using assms by (auto simp: entry_wf_def)

lemma accounting_wf_audit [simp]: "accounting_wf (auditLog_record a s) = accounting_wf s"
proof -
  have "entry_wf (auditLog_record a s) = entry_wf s" by (simp add: entry_wf_def fun_eq_iff)
  moreover have "accounts (auditLog_record a s) = accounts s" "journalEntries (auditLog_record a s) = journalEntries s"
    by (simp_all add: auditLog_record_def)
  ultimately show ?thesis by (simp add: accounting_wf_def)
qed

lemma accounting_step_wf: "accounting_step e s s' \<Longrightarrow> accounting_wf s \<Longrightarrow> accounting_wf s'"
proof (induction rule: accounting_step.induct)
  case (same s)
  then show ?case .
next
  case (account_new a s s')
  then have s': "s' = s\<lparr>accounts := accounts s @ [a]\<rparr>" and fresh: "account_id a \<notin> account_id ` set (accounts s)"
    "\<not> (\<exists>r\<in>set (accounts s). account_enterpriseId r = account_enterpriseId a \<and> account_code r = account_code a)"
    by (auto dest!: account_writes(1))
  have "entry_wf s' r" if "r \<in> set (journalEntries s)" for r
    using entry_wf_mono[of s r s'] that account_new.prems owned_account_append unfolding s' accounting_wf_def by blast
  with account_new.prems fresh show ?case
    by (auto simp: s' accounting_wf_def unique_key_append1 clashes_key_def)
next
  case (account_set f i s a s')
  then have s': "s' = s\<lparr>accounts := update_by account_id i f (accounts s)\<rparr>" by (auto dest!: account_writes(2))
  have "entry_wf s' r" if "r \<in> set (journalEntries s)" for r
    using entry_wf_mono[of s r s'] that account_set owned_account_set unfolding s' accounting_wf_def by blast
  with account_set show ?case
    by (auto simp: s' accounting_wf_def keeps_account_def map_update_by unique_key_update_by)
next
  case (entry store newId lineIds now input k s0 s r s')
  note d = journal_create_InrD[OF entry.hyps]
  from d(1) show ?case
  proof (cases rule: journal_create_tx_InrE)
    case same
    with entry.prems show ?thesis by simp
  next
    case insert
    let ?row = "new_entry newId lineIds now e input k s"
    have "journalLine_enterpriseId l = e \<and> owned_account e (journalLine_accountId l) s"
      if "l \<in> set (new_entry_lines lineIds e (jei_lines input))" for l
      using new_entry_lines_mem[OF that] insert(1) by auto
    then have "entry_wf s' ?row"
      using insert(3) d(2,3) by (auto simp: insert(4) entry_wf_def entry_debit_def entry_credit_def)
    moreover have "entry_wf s' r" if "r \<in> set (journalEntries s)" for r
      using entry_wf_mono[of s r s'] that entry.prems unfolding insert(4) accounting_wf_def by auto
    moreover have rows: "journalEntries s' = journalEntries s @ [?row]" "accounts s' = accounts s"
      by (simp_all add: insert(4) recorded_db_def)
    ultimately have "\<forall>r\<in>set (journalEntries s'). entry_wf s' r" by auto
    with rows entry.prems insert(2) show ?thesis
      by (simp add: accounting_wf_def entry_collides_def unique_key_append1)
  qed
next
  case (audit s s' a)
  then show ?case by simp
qed

text \<open>What a step does to the journal.\<close>

lemma accounting_step_entries:
  "accounting_step e s s' \<Longrightarrow>
   journalEntries s' = journalEntries s \<and> journalEntryCounters s' = journalEntryCounters s \<or>
   (\<exists>row. journalEntry_enterpriseId row = e \<and>
      journalEntry_number row = document_number ''ECR'' e (next_number (journalEntryCounters s) e) \<and>
      journalEntry_id row \<notin> journalEntry_id ` set (journalEntries s) \<and>
      journalEntries s' = journalEntries s @ [row] \<and>
      journalEntryCounters s' = (journalEntryCounters s)(e \<mapsto> next_number (journalEntryCounters s) e))"
proof (induction rule: accounting_step.induct)
  case (entry store newId lineIds now input k s0 s r s')
  from journal_create_InrD(1)[OF entry] show ?case
    by (cases rule: journal_create_tx_InrE) (auto simp: recorded_db_def entry_collides_def)
qed (auto simp: auditLog_record_def dest!: account_writes)

lemma accounting_step_frame:
  "accounting_step e s s' \<Longrightarrow> stockMovements s' = stockMovements s \<and> sales s' = sales s \<and> purchases s' = purchases s \<and>
     salesInvoices s' = salesInvoices s \<and> salesInvoiceCounters s' = salesInvoiceCounters s \<and>
     products s' = products s \<and> customers s' = customers s \<and> suppliers s' = suppliers s \<and> enterprises s' = enterprises s"
proof (induction rule: accounting_step.induct)
  case (entry store newId lineIds now input k s0 s r s')
  from journal_create_InrD(1)[OF entry] show ?case
    by (cases rule: journal_create_tx_InrE) (auto simp: recorded_db_def)
qed (auto simp: auditLog_record_def dest!: account_writes)

lemma accounting_step_other:
  "accounting_step e s s' \<Longrightarrow> e' \<noteq> e \<Longrightarrow>
   card_of account_id account_enterpriseId e' j (accounts s') = card_of account_id account_enterpriseId e' j (accounts s)"
proof (induction rule: accounting_step.induct)
  case (account_set f i s a s')
  then show ?case
    by (auto simp: keeps_account_def intro!: card_of_update dest!: account_writes(2) owned_SomeD)
next
  case (entry store newId lineIds now input k s0 s r s')
  from journal_create_InrD(1)[OF entry.hyps] show ?case
    by (cases rule: journal_create_tx_InrE) (auto simp: recorded_db_def)
qed (auto simp: auditLog_record_def card_of_append dest!: account_writes(1))

section \<open>Numbering\<close>

definition entry_numbers :: "uuid \<Rightarrow> db \<Rightarrow> string list" where
  "entry_numbers e s = map journalEntry_number (filter (\<lambda>r. journalEntry_enterpriseId r = e) (journalEntries s))"

definition last_entry_number :: "uuid \<Rightarrow> db \<Rightarrow> nat" where
  "last_entry_number e s = (case journalEntryCounters s e of None \<Rightarrow> 0 | Some n \<Rightarrow> n)"

interpretation entry_numbering:
  gapless_numbering entry_numbers last_entry_number "document_number ''ECR''" "\<lambda>s s'. \<exists>e. accounting_step e s s'"
proof unfold_locales
  fix s s' e assume "\<exists>e. accounting_step e s s'"
  then obtain e' where "accounting_step e' s s'" by blast
  from accounting_step_entries[OF this]
  show "entry_numbers e s' = entry_numbers e s \<and> last_entry_number e s' = last_entry_number e s \<or>
      entry_numbers e s' = entry_numbers e s @ [document_number ''ECR'' e (Suc (last_entry_number e s))] \<and>
      last_entry_number e s' = Suc (last_entry_number e s)"
    by (cases "e = e'") (auto simp: entry_numbers_def last_entry_number_def next_number_def split: option.splits)
next
  fix e m n assume "document_number ''ECR'' e m = document_number ''ECR'' e n"
  then show "m = n" by (rule injD[OF inj_document_number])
qed

text \<open>Entries are final as soon as they exist.\<close>

interpretation settled_entries:
  settled_documents "\<lambda>s s'. \<exists>e. accounting_step e s s'" "\<lambda>i s. find_by journalEntry_id i (journalEntries s)" "\<lambda>_. True"
  by unfold_locales (auto dest!: accounting_step_entries)

section \<open>Balances\<close>

lemma aggregateBalances_eq:
  "(case aggregateBalances e ids s a of None \<Rightarrow> (0, 0) | Some p \<Rightarrow> p) =
   (if a \<in> set ids
    then (\<Sum>l\<leftarrow>filter (\<lambda>l. journalLine_accountId l = a) (account_lines e s). journalLine_debitAmount l,
          \<Sum>l\<leftarrow>filter (\<lambda>l. journalLine_accountId l = a) (account_lines e s). journalLine_creditAmount l)
    else (0, 0))"
proof (cases "ids = []")
  case True
  then show ?thesis by (simp add: aggregateBalances_def)
next
  case False
  define lines where "lines = filter (\<lambda>l. journalLine_accountId l \<in> set ids) (account_lines e s)"
  define g where "g = (\<lambda>a. (\<Sum>l\<leftarrow>filter (\<lambda>l. journalLine_accountId l = a) lines. journalLine_debitAmount l,
      \<Sum>l\<leftarrow>filter (\<lambda>l. journalLine_accountId l = a) lines. journalLine_creditAmount l))"
  have fold: "foldl (\<lambda>balances (a, d, c). balances(a \<mapsto> (d, c))) m (map (\<lambda>a. (a, fst (g a), snd (g a))) as) a =
      (if a \<in> set as then Some (g a) else m a)" for m as
    by (induction as arbitrary: m) auto
  have agg: "aggregateBalances e ids s a = (if a \<in> journalLine_accountId ` set lines then Some (g a) else None)"
    using False fold[of Map.empty "remdups (map journalLine_accountId lines)"]
    by (simp add: aggregateBalances_def Let_def lines_def g_def)
  have none: "g a = (0, 0)" if "a \<notin> journalLine_accountId ` set lines"
  proof -
    have "filter (\<lambda>l. journalLine_accountId l = a) lines = []" using that by (auto simp: filter_empty_conv)
    then show ?thesis by (simp add: g_def)
  qed
  have "filter (\<lambda>l. journalLine_accountId l = a) lines =
      (if a \<in> set ids then filter (\<lambda>l. journalLine_accountId l = a) (account_lines e s) else [])"
    by (auto simp: lines_def filter_empty_conv intro!: filter_cong)
  then have "g a = (if a \<in> set ids
    then (\<Sum>l\<leftarrow>filter (\<lambda>l. journalLine_accountId l = a) (account_lines e s). journalLine_debitAmount l,
          \<Sum>l\<leftarrow>filter (\<lambda>l. journalLine_accountId l = a) (account_lines e s). journalLine_creditAmount l)
    else (0, 0))" by (simp add: g_def)
  moreover have "(case aggregateBalances e ids s a of None \<Rightarrow> (0, 0) | Some p \<Rightarrow> p) = g a"
    using none by (cases "a \<in> journalLine_accountId ` set lines") (simp_all add: agg)
  ultimately show ?thesis by simp
qed

lemma toAccountView_totals:
  "av_totalDebit (toAccountView a (aggregateBalances e ids s)) = (if account_id a \<in> set ids
     then \<Sum>l\<leftarrow>filter (\<lambda>l. journalLine_accountId l = account_id a) (account_lines e s). journalLine_debitAmount l else 0)"
  "av_totalCredit (toAccountView a (aggregateBalances e ids s)) = (if account_id a \<in> set ids
     then \<Sum>l\<leftarrow>filter (\<lambda>l. journalLine_accountId l = account_id a) (account_lines e s). journalLine_creditAmount l else 0)"
  "av_account (toAccountView a b) = a"
  using aggregateBalances_eq[of e ids s "account_id a"]
  by (auto simp: toAccountView_def split: prod.splits)

lemma foldl_pair_sum:
  fixes f g :: "'r \<Rightarrow> int"
  shows "foldl (\<lambda>(d, c) v. (d + f v, c + g v)) (x, y) vs = (x + (\<Sum>v\<leftarrow>vs. f v), y + (\<Sum>v\<leftarrow>vs. g v))"
  by (induction vs arbitrary: x y) auto

text \<open>Summing an enterprise's lines account by account gives all of them, when every line has its account.\<close>

lemma sum_by_account:
  fixes f :: "journal_line \<Rightarrow> int"
  assumes "accounting_wf s"
  shows "(\<Sum>a\<leftarrow>ascending key (filter (\<lambda>a. account_enterpriseId a = e) (accounts s)).
           \<Sum>l\<leftarrow>filter (\<lambda>l. journalLine_accountId l = account_id a) (account_lines e s). f l) =
         (\<Sum>l\<leftarrow>account_lines e s. f l)"
proof -
  let ?as = "ascending key (filter (\<lambda>a. account_enterpriseId a = e) (accounts s))"
  have d: "distinct (map account_id ?as)"
    using assms by (auto simp: accounting_wf_def ascending_def distinct_map intro: inj_on_subset)
  have sub: "journalLine_accountId ` set (account_lines e s) \<subseteq> set (map account_id ?as)"
  proof
    fix i assume "i \<in> journalLine_accountId ` set (account_lines e s)"
    then obtain r l where "r \<in> set (journalEntries s)" "l \<in> set (journalEntry_lines r)"
      "journalLine_enterpriseId l = e" "journalLine_accountId l = i" by (auto simp: account_lines_def)
    with assms have "owned_account e i s" by (auto simp: accounting_wf_def entry_wf_def)
    then show "i \<in> set (map account_id ?as)" by (auto dest!: owned_SomeD find_by_SomeD)
  qed
  have "(\<Sum>a\<leftarrow>?as. \<Sum>l\<leftarrow>filter (\<lambda>l. journalLine_accountId l = account_id a) (account_lines e s). f l) =
      (\<Sum>i\<leftarrow>map account_id ?as. \<Sum>l\<leftarrow>filter (\<lambda>l. journalLine_accountId l = i) (account_lines e s). f l)"
    by (simp add: o_def)
  also have "\<dots> = (\<Sum>i\<in>set (map account_id ?as). \<Sum>l\<leftarrow>filter (\<lambda>l. journalLine_accountId l = i) (account_lines e s). f l)"
    by (rule sum_list_distinct_conv_sum_set[OF d])
  also have "\<dots> = (\<Sum>l\<leftarrow>account_lines e s. f l)" by (rule sum_groups_superset[OF _ sub]) simp
  finally show ?thesis .
qed

lemma filter_lines_of_entries:
  assumes "\<forall>r\<in>set rs. \<forall>l\<in>set (journalEntry_lines r). journalLine_enterpriseId l = journalEntry_enterpriseId r"
  shows "filter (\<lambda>l. journalLine_enterpriseId l = e) (concat (map journalEntry_lines rs)) =
         concat (map journalEntry_lines (filter (\<lambda>r. journalEntry_enterpriseId r = e) rs))"
  using assms by (induction rs) (auto simp: filter_empty_conv intro!: filter_True)

lemma account_lines_sums:
  assumes "\<forall>r\<in>set (journalEntries s). entry_wf s r"
  shows "(\<Sum>l\<leftarrow>account_lines e s. journalLine_debitAmount l) =
           (\<Sum>r\<leftarrow>filter (\<lambda>r. journalEntry_enterpriseId r = e) (journalEntries s). entry_debit r)"
    and "(\<Sum>l\<leftarrow>account_lines e s. journalLine_creditAmount l) =
           (\<Sum>r\<leftarrow>filter (\<lambda>r. journalEntry_enterpriseId r = e) (journalEntries s). entry_credit r)"
proof -
  have c: "account_lines e s = concat (map journalEntry_lines (filter (\<lambda>r. journalEntry_enterpriseId r = e) (journalEntries s)))"
    unfolding account_lines_def using assms by (intro filter_lines_of_entries) (auto simp: entry_wf_def)
  have "(\<Sum>l\<leftarrow>concat (map journalEntry_lines rs). journalLine_debitAmount l) = (\<Sum>r\<leftarrow>rs. entry_debit r)"
    "(\<Sum>l\<leftarrow>concat (map journalEntry_lines rs). journalLine_creditAmount l) = (\<Sum>r\<leftarrow>rs. entry_credit r)" for rs
    by (induction rs) (simp_all add: entry_debit_def entry_credit_def)
  then show "(\<Sum>l\<leftarrow>account_lines e s. journalLine_debitAmount l) =
           (\<Sum>r\<leftarrow>filter (\<lambda>r. journalEntry_enterpriseId r = e) (journalEntries s). entry_debit r)"
    and "(\<Sum>l\<leftarrow>account_lines e s. journalLine_creditAmount l) =
           (\<Sum>r\<leftarrow>filter (\<lambda>r. journalEntry_enterpriseId r = e) (journalEntries s). entry_credit r)"
    unfolding c by blast+
qed

section \<open>What a creation does\<close>

lemma entry_include_lines: "entry_include s row = Inr joined \<Longrightarrow> map fst joined = journalEntry_lines row"
  unfolding entry_include_def sum_mapM_lookup by (auto simp: o_def split: if_splits)

lemma toEntryView_totals:
  assumes "entry_include s row = Inr joined"
  shows "jev_totalDebit (toEntryView row joined) = entry_debit row"
    and "jev_totalCredit (toEntryView row joined) = entry_credit row"
proof -
  have "jlv_debitAmount (toEntryLineView la) = journalLine_debitAmount (fst la)"
    "jlv_creditAmount (toEntryLineView la) = journalLine_creditAmount (fst la)" for la
    by (simp_all add: toEntryLineView_def split: prod.splits)
  then have "map jlv_debitAmount (map toEntryLineView joined) = map journalLine_debitAmount (map fst joined)"
    "map jlv_creditAmount (map toEntryLineView joined) = map journalLine_creditAmount (map fst joined)" by simp_all
  then show "jev_totalDebit (toEntryView row joined) = entry_debit row"
    and "jev_totalCredit (toEntryView row joined) = entry_credit row"
    by (simp_all add: toEntryView_def Let_def foldl_pair_sum entry_debit_def entry_credit_def
        entry_include_lines[OF assms] del: map_map)
qed

lemma new_entry_totals:
  "entry_debit (new_entry newId lineIds now e input k s) = (\<Sum>l\<leftarrow>jei_lines input. jli_debitAmount l)"
  "entry_credit (new_entry newId lineIds now e input k s) = (\<Sum>l\<leftarrow>jei_lines input. jli_creditAmount l)"
  by (simp_all add: entry_debit_def entry_credit_def)

lemma new_entry_check:
  "(\<forall>l\<in>set (new_entry_lines lineIds e lines). journal_line_check l) \<longleftrightarrow>
   (\<forall>l\<in>set lines. 0 \<le> jli_debitAmount l \<and> 0 \<le> jli_creditAmount l \<and> (0 < jli_debitAmount l) \<noteq> (0 < jli_creditAmount l))"
  unfolding new_entry_lines_def journal_line_check_def
  by (simp add: all_set_conv_all_nth nth_enumerate_eq)

text \<open>
  A request without key: the first rule it breaks is its answer, else the entry is recorded.
\<close>

lemma journal_create_tx_eq:
  assumes "\<not> truthy k" and "\<forall>line\<in>set (jei_lines input). owned_account e (jli_accountId line) s"
  shows "journal_create_tx alive newId lineIds now e input k s0 s =
    (let row = new_entry newId lineIds now e input k s
     in if entry_collides row s then Inl (PrismaKnown P2002)
        else if \<exists>l\<in>set (journalEntry_lines row). \<not> journal_line_check l then Inl PrismaUnknown
        else case entry_include s row of Inl err \<Rightarrow> Inl err
          | Inr joined \<Rightarrow> Inr (\<lparr>cjr_view = toEntryView row joined, cjr_created = True\<rparr>, recorded_db row s))"
proof -
  let ?ids = "js_set (map jli_accountId (jei_lines input))"
  let ?row = "new_entry newId lineIds now e input k s"
  have first: "(if truthy k then journalEntry_findByKey e k s0 else None) = None" using assms(1) by simp
  have none: "List.find (\<lambda>i. \<not> owned_account e i s) ?ids = None"
    using assms(2) by (auto simp: find_None_iff)
  have inc: "entry_include (recorded_db ?row s) ?row = entry_include s ?row"
    by (simp add: entry_include_def recorded_db_def)
  show ?thesis
    unfolding journal_create_tx_def first option.case(1) Let_def first_foreign_account none bump_journalEntryCounter_def prod.case
      new_entry_def[symmetric] inc[symmetric]
    using assms(1) by (auto simp: journalEntry_create_def recorded_db_def split: sum.splits)
qed

lemma journal_create_tx_foreign:
  assumes "\<not> truthy k" and "\<exists>line\<in>set (jei_lines input). \<not> owned_account e (jli_accountId line) s"
  shows "\<exists>err. journal_create_tx alive newId lineIds now e input k s0 s = Inl err"
proof -
  have first: "(if truthy k then journalEntry_findByKey e k s0 else None) = None" using assms(1) by simp
  have "List.find (\<lambda>i. \<not> owned_account e i s) (js_set (map jli_accountId (jei_lines input))) \<noteq> None"
    using assms(2) by (auto simp: find_None_iff)
  then show ?thesis unfolding journal_create_tx_def first option.case(1) Let_def first_foreign_account by auto
qed

lemma entry_include_owned:
  "\<forall>line\<in>set (jei_lines input). owned_account e (jli_accountId line) s \<Longrightarrow>
   \<exists>joined. entry_include s (new_entry newId lineIds now e input k s) = Inr joined"
  unfolding entry_include_def sum_mapM_lookup
  by (auto dest!: new_entry_lines_mem(2) owned_SomeD)

section \<open>Properties\<close>

text \<open>
  C26. The trial balance balances: whatever the enterprise has recorded, the total of the debits it
  displays equals the total of the credits, both are the sums over its journal entries, each
  account's balance is its debits minus its credits, and the balances of all accounts sum to zero.
\<close>

theorem trial_balance_balances:
  assumes "accounting_wf s"
  shows "tb_totalDebit (trialBalance collate e s) = tb_totalCredit (trialBalance collate e s) \<and>
         tb_totalDebit (trialBalance collate e s) =
           (\<Sum>r\<leftarrow>filter (\<lambda>r. journalEntry_enterpriseId r = e) (journalEntries s). entry_debit r) \<and>
         (\<Sum>v\<leftarrow>tb_accounts (trialBalance collate e s). av_balance v) = 0"
proof -
  let ?as = "ascending (\<lambda>a. collate (account_code a)) (filter (\<lambda>a. account_enterpriseId a = e) (accounts s))"
  let ?b = "aggregateBalances e (map account_id ?as) s"
  let ?vs = "map (\<lambda>a. toAccountView a ?b) ?as"
  have vs: "tb_accounts (trialBalance collate e s) = ?vs" by (simp add: trialBalance_def Let_def)
  have tb: "tb_totalDebit (trialBalance collate e s) = (\<Sum>v\<leftarrow>?vs. av_totalDebit v)"
    "tb_totalCredit (trialBalance collate e s) = (\<Sum>v\<leftarrow>?vs. av_totalCredit v)"
    unfolding trialBalance_def Let_def foldl_pair_sum by simp_all
  have "(\<Sum>v\<leftarrow>?vs. av_totalDebit v) = (\<Sum>a\<leftarrow>?as. \<Sum>l\<leftarrow>filter (\<lambda>l. journalLine_accountId l = account_id a) (account_lines e s).
      journalLine_debitAmount l)"
    "(\<Sum>v\<leftarrow>?vs. av_totalCredit v) = (\<Sum>a\<leftarrow>?as. \<Sum>l\<leftarrow>filter (\<lambda>l. journalLine_accountId l = account_id a) (account_lines e s).
      journalLine_creditAmount l)"
    by (auto simp: toAccountView_totals o_def intro!: arg_cong[where f = sum_list])
  then have d: "(\<Sum>v\<leftarrow>?vs. av_totalDebit v) = (\<Sum>r\<leftarrow>filter (\<lambda>r. journalEntry_enterpriseId r = e) (journalEntries s). entry_debit r)"
    and c: "(\<Sum>v\<leftarrow>?vs. av_totalCredit v) = (\<Sum>r\<leftarrow>filter (\<lambda>r. journalEntry_enterpriseId r = e) (journalEntries s). entry_credit r)"
    using assms account_lines_sums[of s e] by (simp_all only: sum_by_account[OF assms]) (simp_all add: accounting_wf_def)
  have "map entry_debit (filter (\<lambda>r. journalEntry_enterpriseId r = e) (journalEntries s)) =
      map entry_credit (filter (\<lambda>r. journalEntry_enterpriseId r = e) (journalEntries s))"
    unfolding map_eq_conv using assms by (auto simp: accounting_wf_def entry_wf_def)
  then have eq: "(\<Sum>v\<leftarrow>?vs. av_totalDebit v) = (\<Sum>v\<leftarrow>?vs. av_totalCredit v)" unfolding c d by (rule arg_cong)
  have "av_balance (toAccountView a b) = av_totalDebit (toAccountView a b) - av_totalCredit (toAccountView a b)" for a b
    by (simp add: toAccountView_def split: prod.splits)
  then have "(\<Sum>v\<leftarrow>map (\<lambda>a. toAccountView a b) as. av_balance v) =
      (\<Sum>v\<leftarrow>map (\<lambda>a. toAccountView a b) as. av_totalDebit v) - (\<Sum>v\<leftarrow>map (\<lambda>a. toAccountView a b) as. av_totalCredit v)" for as b
    by (induction as) simp_all
  then have "(\<Sum>v\<leftarrow>?vs. av_balance v) = 0" using eq by simp
  then show ?thesis unfolding vs tb using eq d by simp
qed

definition fx_entry :: journal_entry where
  "fx_entry = \<lparr>journalEntry_id = ''j1'', journalEntry_enterpriseId = ''e1'', journalEntry_number = ''ECR-E1-000001'',
     journalEntry_entryDate = 1, journalEntry_reference = None, journalEntry_description = ''Vente'',
     journalEntry_idempotencyKey = None, journalEntry_createdAt = 1, journalEntry_updatedAt = 1,
     journalEntry_lines =
       [\<lparr>journalLine_id = ''l1'', journalLine_enterpriseId = ''e1'', journalLine_accountId = ''a1'',
         journalLine_label = None, journalLine_debitAmount = 1180, journalLine_creditAmount = 0\<rparr>,
        \<lparr>journalLine_id = ''l2'', journalLine_enterpriseId = ''e1'', journalLine_accountId = ''a2'',
         journalLine_label = None, journalLine_debitAmount = 0, journalLine_creditAmount = 1180\<rparr>]\<rparr>"

definition fx_accounting_db :: db where
  "fx_accounting_db = fx_db\<lparr>journalEntries := [fx_entry], journalEntryCounters := [''e1'' \<mapsto> 1]\<rparr>"

lemma fx_accounting_db_wf: "accounting_wf fx_accounting_db" "accounting_wf fx_db"
  by (simp_all add: accounting_wf_def fx_accounting_db_def fx_db_def empty_db_def fx_account_def fx_entry_def unique_key_def entry_wf_def
      entry_debit_def entry_credit_def journal_line_check_def owned_defs)

lemma trial_balance_balances_witness:
  "tb_totalDebit (trialBalance digits_value ''e1'' fx_accounting_db) = 1180 \<and>
   tb_totalCredit (trialBalance digits_value ''e1'' fx_accounting_db) = 1180"
  using trial_balance_balances[OF fx_accounting_db_wf(1), of digits_value "''e1''"]
  by (simp add: fx_accounting_db_def fx_entry_def entry_debit_def)

text \<open>
  C27. Recording an entry without key succeeds exactly when its debits equal its credits and are
  positive, every line carries a debit or a credit, never both and never a negative amount, every
  account is the enterprise's own, and the new identifiers and number are not taken. Then one entry is
  appended, with the next number of the enterprise and these very lines; the accounts and the other
  entries do not change. Otherwise nothing changes.
\<close>

theorem journal_create_effect:
  assumes "\<not> truthy k"
    and "journal_service_create (Some st) alive newId lineIds now e u input k s0 s = (res, s')"
  shows "((\<exists>view. res = Inr view) \<longleftrightarrow>
      (\<Sum>l\<leftarrow>jei_lines input. jli_debitAmount l) = (\<Sum>l\<leftarrow>jei_lines input. jli_creditAmount l) \<and>
      0 < (\<Sum>l\<leftarrow>jei_lines input. jli_debitAmount l) \<and>
      (\<forall>l\<in>set (jei_lines input). 0 \<le> jli_debitAmount l \<and> 0 \<le> jli_creditAmount l \<and>
         (0 < jli_debitAmount l) \<noteq> (0 < jli_creditAmount l) \<and> owned_account e (jli_accountId l) s) \<and>
      \<not> entry_collides (new_entry newId lineIds now e input k s) s) \<and>
    (case res of
       Inl err \<Rightarrow> s' = s
     | Inr view \<Rightarrow> jev_totalDebit view = (\<Sum>l\<leftarrow>jei_lines input. jli_debitAmount l) \<and>
         jev_totalCredit view = jev_totalDebit view \<and>
         journalEntries s' = journalEntries s @ [new_entry newId lineIds now e input k s] \<and>
         journalEntryCounters s' = (journalEntryCounters s)(e \<mapsto> next_number (journalEntryCounters s) e) \<and>
         accounts s' = accounts s)"
proof -
  let ?row = "new_entry newId lineIds now e input k s"
  let ?D = "\<Sum>l\<leftarrow>jei_lines input. jli_debitAmount l" and ?C = "\<Sum>l\<leftarrow>jei_lines input. jli_creditAmount l"
  let ?own = "\<forall>line\<in>set (jei_lines input). owned_account e (jli_accountId line) s"
  note defs = journal_service_create_def journal_create_def tenant_run_Some commit_txn_def Let_def foldl_sum
  consider (sums) "?D \<noteq> ?C \<or> ?D \<le> 0"
    | (sides) "\<not> (?D \<noteq> ?C \<or> ?D \<le> 0)" "\<exists>l\<in>set (jei_lines input). (0 < jli_debitAmount l) = (0 < jli_creditAmount l)"
    | (tx) "\<not> (?D \<noteq> ?C \<or> ?D \<le> 0)" "\<not> (\<exists>l\<in>set (jei_lines input). (0 < jli_debitAmount l) = (0 < jli_creditAmount l))"
    by blast
  then show ?thesis
  proof cases
    case sums
    then show ?thesis using assms(2) by (auto simp: defs)
  next
    case sides
    then show ?thesis using assms(2) by (auto simp: defs)
  next
    case tx
    note conds = tx(1)[THEN if_not_P] tx(2)[THEN if_not_P]
    show ?thesis
    proof (cases ?own)
      case False
      then obtain err where "journal_create_tx alive newId lineIds now e input k s0 s = Inl err"
        using journal_create_tx_foreign[OF assms(1)] by blast
      with assms(2) False show ?thesis unfolding defs conds[simplified] by (auto simp: conds[simplified])
    next
      case True
      from entry_include_owned[OF this] obtain joined where j: "entry_include s ?row = Inr joined" by blast
      have run: "journal_create_tx alive newId lineIds now e input k s0 s =
        (if entry_collides ?row s then Inl (PrismaKnown P2002)
         else if \<exists>l\<in>set (journalEntry_lines ?row). \<not> journal_line_check l then Inl PrismaUnknown
         else Inr (\<lparr>cjr_view = toEntryView ?row joined, cjr_created = True\<rparr>, recorded_db ?row s))"
        unfolding journal_create_tx_eq[OF assms(1) True] Let_def j by simp
      have check: "(\<exists>l\<in>set (journalEntry_lines ?row). \<not> journal_line_check l) \<longleftrightarrow>
          \<not> (\<forall>l\<in>set (jei_lines input). 0 \<le> jli_debitAmount l \<and> 0 \<le> jli_creditAmount l)"
        using new_entry_check[of lineIds e "jei_lines input"] tx(2) by auto
      have "(res, s') = (if entry_collides ?row s then (Inl (PrismaKnown P2002), s)
          else if \<not> (\<forall>l\<in>set (jei_lines input). 0 \<le> jli_debitAmount l \<and> 0 \<le> jli_creditAmount l) then (Inl PrismaUnknown, s)
          else (Inr (toEntryView ?row joined), auditLog_record (audit_entry u e CREATE_JOURNAL_ENTRY ''JournalEntry''
            (jev_id (toEntryView ?row joined))) (recorded_db ?row s)))"
        using assms(2) tx unfolding journal_service_create_def journal_create_def Let_def foldl_sum tenant_run_Some
          commit_txn_def run check by (auto split: if_splits)
      then show ?thesis
        using tx True toEntryView_totals[OF j] new_entry_totals[of newId lineIds now e input k s]
        by (auto simp: auditLog_record_def recorded_db_def split: if_splits)
    qed
  qed
qed

definition fx_entry_input :: create_journal_entry_input where
  "fx_entry_input = \<lparr>jei_entryDate = Some 5, jei_reference = None, jei_description = ''Vente'',
     jei_lines = [\<lparr>jli_accountId = ''a1'', jli_label = None, jli_debitAmount = 500, jli_creditAmount = 0\<rparr>,
                  \<lparr>jli_accountId = ''a2'', jli_label = None, jli_debitAmount = 0, jli_creditAmount = 500\<rparr>]\<rparr>"

definition fx_entry_run :: "(exn + journal_entry_view) \<times> db" where
  "fx_entry_run = journal_service_create fx_store False ''j2'' (\<lambda>i. if i = 0 then ''l3'' else ''l4'') 6 ''e1'' ''u1''
     fx_entry_input None fx_accounting_db fx_accounting_db"

lemma journal_create_effect_witness:
  "map journalEntry_number (journalEntries (snd fx_entry_run)) = [''ECR-E1-000001'', ''ECR-E1-000002''] \<and>
   (\<exists>view. fst fx_entry_run = Inr view \<and> jev_totalDebit view = 500 \<and> jev_totalCredit view = 500)"
proof -
  let ?row = "new_entry ''j2'' (\<lambda>i. if i = 0 then ''l3'' else ''l4'') 6 ''e1'' fx_entry_input None fx_accounting_db"
  have t: "\<not> truthy None" by simp
  note e = journal_create_effect[OF t trans[OF fx_entry_run_def[unfolded fx_store_def, symmetric] surjective_pairing]]
  have n: "journalEntry_number ?row = ''ECR-E1-000002''" by code_simp
  have "\<not> entry_collides ?row fx_accounting_db" by code_simp
  then have "\<exists>view. fst fx_entry_run = Inr view"
    using e by (auto simp: fx_entry_input_def fx_accounting_db_def fx_db_def empty_db_def fx_account_def owned_defs)
  with e n show ?thesis by (auto simp: fx_entry_input_def fx_accounting_db_def fx_entry_def)
qed

text \<open>
  Whatever the accounting does, for any enterprise, the journal entries of each enterprise carry
  the numbers 1, 2, 3, ... of its counter, in order, none missing and none repeated.
\<close>

theorem entry_numbers_gapless:
  assumes "(\<lambda>s s'. \<exists>e. accounting_step e s s')\<^sup>*\<^sup>* s s'"
    and "entry_numbers e s = map (document_number ''ECR'' e) [1..<Suc (last_entry_number e s)]"
  shows "entry_numbers e s' = map (document_number ''ECR'' e) [1..<Suc (last_entry_number e s')] \<and>
         distinct (entry_numbers e s')"
  using entry_numbering.steps_gapless[OF assms] entry_numbering.gapless_distinct by blast

lemma entry_numbers_gapless_witness:
  "entry_numbers ''e1'' (snd fx_entry_run) =
   map (document_number ''ECR'' ''e1'') [1..<Suc (last_entry_number ''e1'' (snd fx_entry_run))]"
proof -
  have "accounting_step ''e1'' fx_accounting_db (snd fx_entry_run)"
    unfolding fx_entry_run_def by (rule journal_service_create_step)
  then have "(\<lambda>s s'. \<exists>e. accounting_step e s s')\<^sup>*\<^sup>* fx_accounting_db (snd fx_entry_run)" by blast
  moreover have "entry_numbers ''e1'' fx_accounting_db =
      map (document_number ''ECR'' ''e1'') [1..<Suc (last_entry_number ''e1'' fx_accounting_db)]" by code_simp
  ultimately show ?thesis using entry_numbers_gapless by blast
qed

text \<open>
  The journal is append-only: an entry, once recorded, is found again unchanged after any
  sequence of accounting operations of any enterprise, and every entry in a well-formed journal stays
  balanced.
\<close>

theorem journal_append_only:
  assumes "(\<lambda>s s'. \<exists>e. accounting_step e s s')\<^sup>*\<^sup>* s s'" and "accounting_wf s"
  shows "accounting_wf s' \<and>
    (\<forall>i r. find_by journalEntry_id i (journalEntries s) = Some r \<longrightarrow>
       find_by journalEntry_id i (journalEntries s') = Some r \<and> entry_debit r = entry_credit r)"
proof -
  have "accounting_wf s'" using assms
    by (induction rule: rtranclp_induct) (auto dest: accounting_step_wf)
  moreover have "entry_debit r = entry_credit r" if "find_by journalEntry_id i (journalEntries s) = Some r" for i r
    using assms(2) find_by_SomeD[OF that] by (auto simp: accounting_wf_def entry_wf_def)
  ultimately show ?thesis using settled_entries.steps_final[OF assms(1)] by blast
qed

lemma journal_append_only_witness:
  "find_by journalEntry_id ''j1'' (journalEntries (snd fx_entry_run)) = Some fx_entry"
proof -
  have "accounting_step ''e1'' fx_accounting_db (snd fx_entry_run)"
    unfolding fx_entry_run_def by (rule journal_service_create_step)
  then have "(\<lambda>s s'. \<exists>e. accounting_step e s s')\<^sup>*\<^sup>* fx_accounting_db (snd fx_entry_run)" by blast
  from journal_append_only[OF this fx_accounting_db_wf(1)] show ?thesis
    by (simp add: fx_accounting_db_def fx_entry_def)
qed

end
