(* ===== verification/Purchases.thy ===== *)
theory Purchases
  imports Sales
begin

text \<open>
  apps/api/src/purchases: the mirror of the sales. A purchase is created as a draft with the costs
  the caller gives and the tax rates of the catalogue, confirmed (which brings the stock in) or
  cancelled. Definitions follow purchases.repository.ts and purchases.service.ts; \<open>s0\<close> is the
  database the first statement of the transaction sees, as in Sales.
\<close>

section \<open>Views\<close>

record purchase_line_view =
  plv_id :: uuid
  plv_productId :: uuid
  plv_productCode :: string
  plv_productName :: string
  plv_quantity :: int
  plv_unitCostExcludingTax :: int
  plv_vatRateBasisPoints :: int
  plv_totals :: line_totals

record purchase_view =
  pv_id :: uuid
  pv_enterpriseId :: uuid
  pv_supplierId :: uuid
  pv_supplierName :: string
  pv_status :: purchase_status
  pv_purchaseDate :: date
  pv_notes :: "string option"
  pv_confirmedAt :: "date option"
  pv_cancelledAt :: "date option"
  pv_lines :: "purchase_line_view list"
  pv_createdAt :: date
  pv_updatedAt :: date
  pv_totals :: doc_totals

record purchase_list_item =
  pli_id :: uuid
  pli_supplierId :: uuid
  pli_supplierName :: string
  pli_status :: purchase_status
  pli_purchaseDate :: date
  pli_linesCount :: nat
  pli_createdAt :: date
  pli_totals :: doc_totals

record create_purchase_result =
  cpr_view :: purchase_view
  cpr_created :: bool

text \<open>\<open>include: \{ lines: \{ include: \{ product: true \} \}, supplier: true \}\<close>.\<close>

record purchase_payload =
  payload_purchase :: purchase
  payload_lines :: "(purchase_line \<times> product) list"
  payload_supplier :: supplier

definition purchase_include :: "db \<Rightarrow> purchase \<Rightarrow> exn + purchase_payload" where
  "purchase_include s purchase =
     (case sum_mapM (\<lambda>line. case find_by product_id (purchaseLine_productId line) (products s) of
                       None \<Rightarrow> Inl PrismaUnknown | Some product \<Rightarrow> Inr (line, product)) (purchase_lines purchase) of
        Inl e \<Rightarrow> Inl e
      | Inr lines \<Rightarrow> (case find_by supplier_id (purchase_supplierId purchase) (suppliers s) of
          None \<Rightarrow> Inl PrismaUnknown
        | Some supplier \<Rightarrow>
            Inr \<lparr>payload_purchase = purchase, payload_lines = lines, payload_supplier = supplier\<rparr>))"

definition purchase_line_totals :: "purchase_line \<Rightarrow> line_totals" where
  "purchase_line_totals line =
     lineTotals (purchaseLine_quantity line) (purchaseLine_unitCostExcludingTax line) (purchaseLine_vatRateBasisPoints line)"

definition toPurchaseLineView :: "purchase_line \<times> product \<Rightarrow> purchase_line_view" where
  "toPurchaseLineView lp = (case lp of (line, product) \<Rightarrow>
     \<lparr>plv_id = purchaseLine_id line, plv_productId = purchaseLine_productId line,
      plv_productCode = product_code product, plv_productName = product_name product,
      plv_quantity = purchaseLine_quantity line,
      plv_unitCostExcludingTax = purchaseLine_unitCostExcludingTax line,
      plv_vatRateBasisPoints = purchaseLine_vatRateBasisPoints line,
      plv_totals = purchase_line_totals line\<rparr>)"

definition toPurchaseView :: "purchase_payload \<Rightarrow> purchase_view" where
  "toPurchaseView payload =
     (let purchase = payload_purchase payload;
          lines = map toPurchaseLineView (payload_lines payload)
      in \<lparr>pv_id = purchase_id purchase, pv_enterpriseId = purchase_enterpriseId purchase,
          pv_supplierId = purchase_supplierId purchase,
          pv_supplierName = supplier_name (payload_supplier payload), pv_status = purchase_status purchase,
          pv_purchaseDate = purchase_purchaseDate purchase, pv_notes = purchase_notes purchase,
          pv_confirmedAt = purchase_confirmedAt purchase, pv_cancelledAt = purchase_cancelledAt purchase,
          pv_lines = lines, pv_createdAt = purchase_createdAt purchase, pv_updatedAt = purchase_updatedAt purchase,
          pv_totals = reduce_totals (map plv_totals lines)\<rparr>)"

section \<open>Creation\<close>

record create_purchase_line_input =
  purchaseInput_productId :: uuid
  purchaseInput_quantity :: int
  purchaseInput_unitCostExcludingTax :: int

record create_purchase_input =
  purchaseInput_supplierId :: uuid
  purchaseInput_notes :: "string option"
  purchaseInput_lines :: "create_purchase_line_input list"

definition createPurchaseSchema :: "create_purchase_input \<Rightarrow> bool" where
  "createPurchaseSchema input \<longleftrightarrow> purchaseInput_notes input \<noteq> Some [] \<and> purchaseInput_lines input \<noteq> [] \<and>
     (\<forall>line\<in>set (purchaseInput_lines input).
        1 \<le> purchaseInput_quantity line \<and> 0 \<le> purchaseInput_unitCostExcludingTax line)"

definition purchase_findByKey :: "uuid \<Rightarrow> string option \<Rightarrow> db \<Rightarrow> purchase option" where
  "purchase_findByKey enterpriseId idempotencyKey s =
     List.find (\<lambda>r. purchase_enterpriseId r = enterpriseId \<and> purchase_idempotencyKey r = idempotencyKey) (purchases s)"

text \<open>\<open>tx.purchase.create\<close>: primary keys of the purchase and of its lines, and the idempotency constraint.\<close>

definition purchase_create :: "purchase \<Rightarrow> (db, exn, purchase) txn" where
  "purchase_create row s =
     (if purchase_id row \<in> purchase_id ` set (purchases s) \<or>
         \<not> distinct (map purchaseLine_id (purchase_lines row)) \<or>
         (\<exists>r\<in>set (purchases s). \<exists>l\<in>set (purchase_lines r). purchaseLine_id l \<in> purchaseLine_id ` set (purchase_lines row)) \<or>
         clashes_key purchase_enterpriseId purchase_idempotencyKey row (purchases s)
      then Inl (PrismaKnown P2002)
      else Inr (row, s\<lparr>purchases := purchases s @ [row]\<rparr>))"

text \<open>The lines to create: the cost is the caller's, the tax rate the product's.\<close>

definition new_purchase_lines :: "(nat \<Rightarrow> uuid) \<Rightarrow> uuid \<Rightarrow> (uuid \<Rightarrow> product option) \<Rightarrow> create_purchase_line_input list \<Rightarrow> purchase_line list" where
  "new_purchase_lines lineIds enterpriseId productsById lines =
     map (\<lambda>(i, line). let product = the (productsById (purchaseInput_productId line)) in
            \<lparr>purchaseLine_id = lineIds i, purchaseLine_enterpriseId = enterpriseId,
             purchaseLine_productId = purchaseInput_productId line, purchaseLine_quantity = purchaseInput_quantity line,
             purchaseLine_unitCostExcludingTax = purchaseInput_unitCostExcludingTax line,
             purchaseLine_vatRateBasisPoints = product_vatRateBasisPoints product\<rparr>)
       (enumerate 0 lines)"

definition replayed_purchase :: "db \<Rightarrow> purchase \<Rightarrow> exn + create_purchase_result" where
  "replayed_purchase s existing = (case purchase_include s existing of
     Inl e \<Rightarrow> Inl e | Inr payload \<Rightarrow> Inr \<lparr>cpr_view = toPurchaseView payload, cpr_created = False\<rparr>)"

definition purchases_create ::
    "bool \<Rightarrow> uuid \<Rightarrow> (nat \<Rightarrow> uuid) \<Rightarrow> date \<Rightarrow> uuid \<Rightarrow> create_purchase_input \<Rightarrow> string option \<Rightarrow> db \<Rightarrow>
     (db, exn, create_purchase_result) txn" where
  "purchases_create alive newId lineIds now enterpriseId input idempotencyKey s0 s =
     (case (if truthy idempotencyKey then purchase_findByKey enterpriseId idempotencyKey s0 else None) of
        Some existing \<Rightarrow> (case replayed_purchase s0 existing of Inl e \<Rightarrow> Inl e | Inr r \<Rightarrow> Inr (r, s))
      | None \<Rightarrow>
     (case find_by supplier_id (purchaseInput_supplierId input) (suppliers s) of
        None \<Rightarrow> Inl (NotFoundException ''Fournisseur introuvable'')
      | Some supplier \<Rightarrow>
     if supplier_enterpriseId supplier \<noteq> enterpriseId then Inl (NotFoundException ''Fournisseur introuvable'')
     else
     (let productIds = js_set (map purchaseInput_productId (purchaseInput_lines input));
          found = filter (\<lambda>p. product_id p \<in> set productIds) (products s);
          productsById = (\<lambda>i. find_by product_id i found)
      in case List.find (\<lambda>i. case productsById i of None \<Rightarrow> True | Some p \<Rightarrow> product_enterpriseId p \<noteq> enterpriseId)
                productIds of
           Some productId \<Rightarrow> Inl (NotFoundException (''Produit introuvable : '' @ productId))
         | None \<Rightarrow>
     (case purchase_create
             \<lparr>purchase_id = newId, purchase_enterpriseId = enterpriseId, purchase_supplierId = purchaseInput_supplierId input,
              purchase_status = Purchase_DRAFT, purchase_purchaseDate = now, purchase_notes = purchaseInput_notes input,
              purchase_confirmedAt = None, purchase_cancelledAt = None, purchase_idempotencyKey = idempotencyKey,
              purchase_createdAt = now, purchase_updatedAt = now,
              purchase_lines = new_purchase_lines lineIds enterpriseId productsById (purchaseInput_lines input)\<rparr> s of
        Inr (purchase, s') \<Rightarrow> (case purchase_include s' purchase of
            Inl e \<Rightarrow> Inl e
          | Inr payload \<Rightarrow> Inr (\<lparr>cpr_view = toPurchaseView payload, cpr_created = True\<rparr>, s'))
      | Inl error \<Rightarrow>
          if truthy idempotencyKey \<and> error = PrismaKnown P2002 then
            if \<not> alive then Inl PrismaUnknown
            else (case purchase_findByKey enterpriseId idempotencyKey s of
                    Some existing \<Rightarrow> (case replayed_purchase s existing of Inl e \<Rightarrow> Inl e | Inr r \<Rightarrow> Inr (r, s))
                  | None \<Rightarrow> Inl error)
          else Inl error))))"

section \<open>Reading\<close>

record list_purchases_query =
  plq_page :: nat
  plq_pageSize :: nat
  plq_search :: "string option"
  plq_status :: "purchase_status option"

definition purchase_where :: "(string \<Rightarrow> string \<Rightarrow> bool) \<Rightarrow> uuid \<Rightarrow> list_purchases_query \<Rightarrow> db \<Rightarrow> purchase \<Rightarrow> bool" where
  "purchase_where ilike enterpriseId query s purchase =
     (purchase_enterpriseId purchase = enterpriseId \<and>
      (case plq_status query of None \<Rightarrow> True | Some st \<Rightarrow> purchase_status purchase = st) \<and>
      (truthy (plq_search query) \<longrightarrow>
         (case find_by supplier_id (purchase_supplierId purchase) (suppliers s) of
            None \<Rightarrow> False | Some c \<Rightarrow> ilike (supplier_name c) (the (plq_search query)))))"

definition toPurchaseListItem :: "db \<Rightarrow> purchase \<Rightarrow> exn + purchase_list_item" where
  "toPurchaseListItem s purchase = (case find_by supplier_id (purchase_supplierId purchase) (suppliers s) of
     None \<Rightarrow> Inl PrismaUnknown
   | Some supplier \<Rightarrow> Inr
       \<lparr>pli_id = purchase_id purchase, pli_supplierId = purchase_supplierId purchase,
        pli_supplierName = supplier_name supplier, pli_status = purchase_status purchase,
        pli_purchaseDate = purchase_purchaseDate purchase, pli_linesCount = length (purchase_lines purchase),
        pli_createdAt = purchase_createdAt purchase,
        pli_totals = reduce_totals (map purchase_line_totals (purchase_lines purchase))\<rparr>)"

definition purchases_findMany ::
    "(string \<Rightarrow> string \<Rightarrow> bool) \<Rightarrow> uuid \<Rightarrow> list_purchases_query \<Rightarrow> db \<Rightarrow> exn + purchase_list_item page_result" where
  "purchases_findMany ilike enterpriseId query s =
     (let matching = filter (purchase_where ilike enterpriseId query s) (purchases s);
          found = page_rows (plq_page query) (plq_pageSize query) (descending purchase_createdAt matching)
      in case sum_mapM (toPurchaseListItem s) found of
           Inl e \<Rightarrow> Inl e
         | Inr items \<Rightarrow> Inr \<lparr>result_items = items, result_total = length matching,
             result_page = plq_page query, result_pageSize = plq_pageSize query\<rparr>)"

definition getPurchaseOrThrow :: "uuid \<Rightarrow> uuid \<Rightarrow> db \<Rightarrow> exn + purchase_payload" where
  "getPurchaseOrThrow enterpriseId purchaseId s = (case find_by purchase_id purchaseId (purchases s) of
     None \<Rightarrow> Inl (NotFoundException ''Achat introuvable'')
   | Some purchase \<Rightarrow> (case purchase_include s purchase of
       Inl e \<Rightarrow> Inl e
     | Inr payload \<Rightarrow>
         if purchase_enterpriseId purchase \<noteq> enterpriseId then Inl (NotFoundException ''Achat introuvable'')
         else Inr payload))"

definition purchases_findByIdOrThrow :: "uuid \<Rightarrow> uuid \<Rightarrow> db \<Rightarrow> exn + purchase_view" where
  "purchases_findByIdOrThrow enterpriseId purchaseId s = (case getPurchaseOrThrow enterpriseId purchaseId s of
     Inl e \<Rightarrow> Inl e | Inr payload \<Rightarrow> Inr (toPurchaseView payload))"

section \<open>Confirmation and cancellation\<close>

text \<open>\<open>tx.purchase.update(\{ where: \{ id \}, data, include \})\<close>.\<close>

definition purchase_update :: "uuid \<Rightarrow> (purchase \<Rightarrow> purchase) \<Rightarrow> (db, exn, purchase_payload) txn" where
  "purchase_update purchaseId f s = (case find_by purchase_id purchaseId (purchases s) of
     None \<Rightarrow> Inl (PrismaKnown P2025)
   | Some purchase \<Rightarrow> (let s' = s\<lparr>purchases := update_by purchase_id purchaseId f (purchases s)\<rparr> in
       case purchase_include s' (f purchase) of Inl e \<Rightarrow> Inl e | Inr payload \<Rightarrow> Inr (payload, s')))"

definition purchase_movement :: "uuid \<Rightarrow> purchase_line \<Rightarrow> create_movement_input" where
  "purchase_movement purchaseId line =
     \<lparr>input_productId = purchaseLine_productId line, input_type = Mov_IN,
      input_quantity = purchaseLine_quantity line, input_note = Some (''Achat '' @ purchaseId)\<rparr>"

definition purchases_confirm_tx :: "bool \<Rightarrow> (uuid \<Rightarrow> uuid) \<Rightarrow> date \<Rightarrow> uuid \<Rightarrow> uuid \<Rightarrow> (db, exn, purchase_view) txn" where
  "purchases_confirm_tx alive movementIds now enterpriseId purchaseId s =
     (case getPurchaseOrThrow enterpriseId purchaseId s of
        Inl e \<Rightarrow> Inl e
      | Inr payload \<Rightarrow>
     if purchase_status (payload_purchase payload) \<noteq> Purchase_DRAFT
     then Inl (ConflictException ''Seul un achat en brouillon peut etre confirme'')
     else
     (case sum_foldM (\<lambda>s (line, product).
             if product_trackStock product
             then post_movement alive now enterpriseId s
                    (movementIds (purchaseLine_id line), purchase_movement (purchase_id (payload_purchase payload)) line)
             else Inr s) s (payload_lines payload) of
        Inl e \<Rightarrow> Inl e
      | Inr s1 \<Rightarrow>
     (case purchase_update purchaseId (\<lambda>purchase. purchase\<lparr>purchase_status := Purchase_CONFIRMED, purchase_confirmedAt := Some now,
                                          purchase_updatedAt := now\<rparr>) s1 of
        Inl e \<Rightarrow> Inl e
      | Inr (confirmed, s2) \<Rightarrow> Inr (toPurchaseView confirmed, s2))))"

definition purchases_confirm ::
    "tenant_store option \<Rightarrow> (nat \<Rightarrow> bool) \<Rightarrow> bool \<Rightarrow> (uuid \<Rightarrow> uuid) \<Rightarrow> date \<Rightarrow> uuid \<Rightarrow> uuid \<Rightarrow> db \<Rightarrow>
     (exn + purchase_view) \<times> db" where
  "purchases_confirm store abort alive movementIds now enterpriseId purchaseId =
     serializable_409 ''Conflit de concurrence, veuillez reessayer'' store abort
       (purchases_confirm_tx alive movementIds now enterpriseId purchaseId)"

definition purchases_cancel :: "date \<Rightarrow> uuid \<Rightarrow> uuid \<Rightarrow> (db, exn, purchase_view) txn" where
  "purchases_cancel now enterpriseId purchaseId s =
     (case getPurchaseOrThrow enterpriseId purchaseId s of
        Inl e \<Rightarrow> Inl e
      | Inr payload \<Rightarrow>
     if purchase_status (payload_purchase payload) \<noteq> Purchase_DRAFT
     then Inl (BadRequestException ''Seul un achat en brouillon peut etre annule'')
     else
     (case purchase_update purchaseId (\<lambda>purchase. purchase\<lparr>purchase_status := Purchase_CANCELLED, purchase_cancelledAt := Some now,
                                          purchase_updatedAt := now\<rparr>) s of
        Inl e \<Rightarrow> Inl e
      | Inr (cancelled, s') \<Rightarrow> Inr (toPurchaseView cancelled, s')))"

section \<open>The service\<close>

definition purchases_service_create ::
    "tenant_store option \<Rightarrow> bool \<Rightarrow> uuid \<Rightarrow> (nat \<Rightarrow> uuid) \<Rightarrow> date \<Rightarrow> uuid \<Rightarrow> uuid \<Rightarrow> create_purchase_input \<Rightarrow>
     string option \<Rightarrow> db \<Rightarrow> db \<Rightarrow> (exn + purchase_view) \<times> db" where
  "purchases_service_create store alive newId lineIds now enterpriseId userId input idempotencyKey s0 s =
     (case tenant_run store (purchases_create alive newId lineIds now enterpriseId input idempotencyKey s0) s of
        (Inl e, s') \<Rightarrow> (Inl e, s')
      | (Inr r, s') \<Rightarrow>
          (Inr (cpr_view r),
           if cpr_created r
           then auditLog_record (audit_entry userId enterpriseId CREATE_PURCHASE ''Purchase'' (pv_id (cpr_view r))) s'
           else s'))"

definition purchases_service_confirm ::
    "tenant_store option \<Rightarrow> (nat \<Rightarrow> bool) \<Rightarrow> bool \<Rightarrow> (uuid \<Rightarrow> uuid) \<Rightarrow> date \<Rightarrow> uuid \<Rightarrow> uuid \<Rightarrow> uuid \<Rightarrow> db \<Rightarrow>
     (exn + purchase_view) \<times> db" where
  "purchases_service_confirm store abort alive movementIds now enterpriseId userId purchaseId s =
     (case purchases_confirm store abort alive movementIds now enterpriseId purchaseId s of
        (Inl e, s') \<Rightarrow> (Inl e, s')
      | (Inr purchase, s') \<Rightarrow>
          (Inr purchase, auditLog_record (audit_entry userId enterpriseId CONFIRM_PURCHASE ''Purchase'' (pv_id purchase)) s'))"

definition purchases_service_cancel ::
    "tenant_store option \<Rightarrow> date \<Rightarrow> uuid \<Rightarrow> uuid \<Rightarrow> uuid \<Rightarrow> db \<Rightarrow> (exn + purchase_view) \<times> db" where
  "purchases_service_cancel store now enterpriseId userId purchaseId s =
     (case tenant_run store (purchases_cancel now enterpriseId purchaseId) s of
        (Inl e, s') \<Rightarrow> (Inl e, s')
      | (Inr purchase, s') \<Rightarrow>
          (Inr purchase, auditLog_record (audit_entry userId enterpriseId CANCEL_PURCHASE ''Purchase'' (pv_id purchase)) s'))"

section \<open>Joins\<close>

definition purchase_payload_of :: "db \<Rightarrow> purchase \<Rightarrow> purchase_payload" where
  "purchase_payload_of s purchase =
     \<lparr>payload_purchase = purchase,
      payload_lines = map (\<lambda>line. (line, the (find_by product_id (purchaseLine_productId line) (products s)))) (purchase_lines purchase),
      payload_supplier = the (find_by supplier_id (purchase_supplierId purchase) (suppliers s))\<rparr>"

lemma purchase_include_eq:
  "purchase_include s purchase =
   (if (\<forall>line\<in>set (purchase_lines purchase). find_by product_id (purchaseLine_productId line) (products s) \<noteq> None) \<and>
       find_by supplier_id (purchase_supplierId purchase) (suppliers s) \<noteq> None
    then Inr (purchase_payload_of s purchase) else Inl PrismaUnknown)"
  by (auto simp: purchase_include_def sum_mapM_lookup purchase_payload_of_def split: option.splits)

lemma purchase_payload_of_purchase [simp]: "payload_purchase (purchase_payload_of s purchase) = purchase"
  by (simp add: purchase_payload_of_def)

lemma toPurchaseView_payload_of [simp]:
  "pv_id (toPurchaseView (purchase_payload_of s purchase)) = purchase_id purchase"
  "pv_status (toPurchaseView (purchase_payload_of s purchase)) = purchase_status purchase"
  "pv_enterpriseId (toPurchaseView (purchase_payload_of s purchase)) = purchase_enterpriseId purchase"
  "pv_totals (toPurchaseView (purchase_payload_of s purchase)) = reduce_totals (map purchase_line_totals (purchase_lines purchase))"
  by (simp_all add: toPurchaseView_def Let_def purchase_payload_of_def o_def toPurchaseLineView_def)

lemma getPurchaseOrThrow_Inr_iff:
  "getPurchaseOrThrow e i s = Inr payload \<longleftrightarrow>
   (\<exists>purchase. find_by purchase_id i (purchases s) = Some purchase \<and> purchase_enterpriseId purchase = e \<and>
      purchase_include s purchase = Inr payload \<and> payload = purchase_payload_of s purchase)"
  by (auto simp: getPurchaseOrThrow_def purchase_include_eq split: option.splits)

section \<open>Well-formed purchases\<close>

definition purchase_wf :: "db \<Rightarrow> purchase \<Rightarrow> bool" where
  "purchase_wf s purchase \<longleftrightarrow> owned_supplier (purchase_enterpriseId purchase) (purchase_supplierId purchase) s \<and>
     purchase_lines purchase \<noteq> [] \<and> distinct (map purchaseLine_id (purchase_lines purchase)) \<and>
     (\<forall>line\<in>set (purchase_lines purchase). 1 \<le> purchaseLine_quantity line \<and>
        purchaseLine_enterpriseId line = purchase_enterpriseId purchase \<and>
        owned_product (purchase_enterpriseId purchase) (purchaseLine_productId line) s)"

definition purchases_wf :: "db \<Rightarrow> bool" where
  "purchases_wf s \<longleftrightarrow> distinct (map purchase_id (purchases s)) \<and>
     unique_key purchase_enterpriseId purchase_idempotencyKey (purchases s) \<and> (\<forall>purchase\<in>set (purchases s). purchase_wf s purchase)"

lemma purchase_wf_mono:
  assumes "purchase_wf s purchase"
    and "\<And>e i. owned_product e i s \<Longrightarrow> owned_product e i s'"
    and "\<And>e i. owned_supplier e i s \<Longrightarrow> owned_supplier e i s'"
  shows "purchase_wf s' purchase"
  using assms by (auto simp: purchase_wf_def)

lemma purchases_wf_mono:
  assumes "purchases_wf s" and "purchases s' = purchases s"
    and "\<And>e i. owned_product e i s \<Longrightarrow> owned_product e i s'"
    and "\<And>e i. owned_supplier e i s \<Longrightarrow> owned_supplier e i s'"
  shows "purchases_wf s'"
  using assms purchase_wf_mono unfolding purchases_wf_def by metis

lemma purchase_wf_includes: "purchase_wf s purchase \<Longrightarrow> purchase_include s purchase = Inr (purchase_payload_of s purchase)"
  by (fastforce simp: purchase_wf_def purchase_include_eq dest: owned_SomeD)

section \<open>Confirmation\<close>

text \<open>The lines that move stock, the postings they become, and what they ask of each product.\<close>

definition tracked_purchase_lines :: "db \<Rightarrow> purchase \<Rightarrow> purchase_line list" where
  "tracked_purchase_lines s purchase =
     filter (\<lambda>line. product_trackStock (the (find_by product_id (purchaseLine_productId line) (products s)))) (purchase_lines purchase)"

definition purchase_postings :: "(uuid \<Rightarrow> uuid) \<Rightarrow> db \<Rightarrow> purchase \<Rightarrow> (uuid \<times> create_movement_input) list" where
  "purchase_postings movementIds s purchase =
     map (\<lambda>line. (movementIds (purchaseLine_id line), purchase_movement (purchase_id purchase) line)) (tracked_purchase_lines s purchase)"

definition purchase_supply :: "db \<Rightarrow> purchase \<Rightarrow> uuid \<Rightarrow> int" where
  "purchase_supply s purchase p =
     (\<Sum>line\<leftarrow>filter (\<lambda>line. purchaseLine_productId line = p) (tracked_purchase_lines s purchase). purchaseLine_quantity line)"

lemma purchase_loop_eq:
  "sum_foldM (\<lambda>s (line, product).
       if product_trackStock product
       then post_movement alive now e s (movementIds (purchaseLine_id line), purchase_movement (purchase_id purchase) line)
       else Inr s) s1 (payload_lines (purchase_payload_of s purchase)) =
   sum_foldM (post_movement alive now e) s1 (purchase_postings movementIds s purchase)"
proof -
  have "(\<lambda>s (line, product).
       if product_trackStock product
       then post_movement alive now e s (movementIds (purchaseLine_id line), purchase_movement (purchase_id purchase) line)
       else Inr s) =
     (\<lambda>s lp. if product_trackStock (snd lp)
       then post_movement alive now e s (movementIds (purchaseLine_id (fst lp)), purchase_movement (purchase_id purchase) (fst lp))
       else Inr s)" by (auto simp: fun_eq_iff)
  then show ?thesis
    by (simp add: sum_foldM_filter purchase_payload_of_def purchase_postings_def tracked_purchase_lines_def filter_map
        sum_foldM_map o_def)
qed

lemma purchase_movement_simps [simp]:
  "input_productId (purchase_movement i line) = purchaseLine_productId line"
  "movement_delta (purchase_movement i line) = purchaseLine_quantity line"
  by (simp_all add: purchase_movement_def movement_delta_def)

lemma moved_purchase_postings:
  "stock_ledger.moved p (purchase_postings movementIds s purchase) = purchase_supply s purchase p"
proof -
  have "(\<Sum>m\<leftarrow>filter (\<lambda>m. input_productId (snd m) = p)
          (map (\<lambda>line. (movementIds (purchaseLine_id line), purchase_movement i line)) ls). movement_delta (snd m)) =
        (\<Sum>line\<leftarrow>filter (\<lambda>line. purchaseLine_productId line = p) ls. purchaseLine_quantity line)" for i ls
    by (induction ls) auto
  then show ?thesis by (simp add: purchase_postings_def purchase_supply_def)
qed

definition confirmed_purchase :: "date \<Rightarrow> purchase \<Rightarrow> purchase" where
  "confirmed_purchase now purchase =
     purchase\<lparr>purchase_status := Purchase_CONFIRMED, purchase_confirmedAt := Some now, purchase_updatedAt := now\<rparr>"

definition cancelled_purchase :: "date \<Rightarrow> purchase \<Rightarrow> purchase" where
  "cancelled_purchase now purchase =
     purchase\<lparr>purchase_status := Purchase_CANCELLED, purchase_cancelledAt := Some now, purchase_updatedAt := now\<rparr>"

lemma settled_purchase_simps [simp]:
  "purchase_id (confirmed_purchase now purchase) = purchase_id purchase" "purchase_id (cancelled_purchase now purchase) = purchase_id purchase"
  "purchase_enterpriseId (confirmed_purchase now purchase) = purchase_enterpriseId purchase"
  "purchase_enterpriseId (cancelled_purchase now purchase) = purchase_enterpriseId purchase"
  "purchase_supplierId (confirmed_purchase now purchase) = purchase_supplierId purchase"
  "purchase_supplierId (cancelled_purchase now purchase) = purchase_supplierId purchase"
  "purchase_idempotencyKey (confirmed_purchase now purchase) = purchase_idempotencyKey purchase"
  "purchase_idempotencyKey (cancelled_purchase now purchase) = purchase_idempotencyKey purchase"
  "purchase_lines (confirmed_purchase now purchase) = purchase_lines purchase"
  "purchase_lines (cancelled_purchase now purchase) = purchase_lines purchase"
  "purchase_status (confirmed_purchase now purchase) = Purchase_CONFIRMED"
  "purchase_status (cancelled_purchase now purchase) = Purchase_CANCELLED"
  by (simp_all add: confirmed_purchase_def cancelled_purchase_def)

lemmas settled_purchase_folds = confirmed_purchase_def[symmetric, abs_def] cancelled_purchase_def[symmetric, abs_def]

text \<open>
  The confirmation of an existing purchase, once the joins are known to succeed: postings, then the
  status.
\<close>

lemma purchases_confirm_tx_eq:
  "purchases_confirm_tx alive movementIds now e i s =
   (case getPurchaseOrThrow e i s of Inl err \<Rightarrow> Inl err | Inr payload \<Rightarrow>
      (let purchase = payload_purchase payload in
       if purchase_status purchase \<noteq> Purchase_DRAFT
       then Inl (ConflictException ''Seul un achat en brouillon peut etre confirme'')
       else case sum_foldM (post_movement alive now e) s (purchase_postings movementIds s purchase) of
         Inl err \<Rightarrow> Inl err
       | Inr s1 \<Rightarrow> Inr (toPurchaseView (purchase_payload_of s (confirmed_purchase now purchase)),
           s1\<lparr>purchases := update_by purchase_id i (confirmed_purchase now) (purchases s1)\<rparr>)))"
proof (cases "getPurchaseOrThrow e i s")
  case (Inl err)
  then show ?thesis by (simp add: purchases_confirm_tx_def)
next
  case (Inr payload)
  then obtain purchase where f: "find_by purchase_id i (purchases s) = Some purchase" "purchase_enterpriseId purchase = e"
    "purchase_include s purchase = Inr payload" and payload: "payload = purchase_payload_of s purchase"
    by (auto simp: getPurchaseOrThrow_Inr_iff)
  have upd: "purchase_update i (confirmed_purchase now) s1 = Inr (purchase_payload_of s (confirmed_purchase now purchase),
      s1\<lparr>purchases := update_by purchase_id i (confirmed_purchase now) (purchases s1)\<rparr>)"
    if "sum_foldM (post_movement alive now e) s (purchase_postings movementIds s purchase) = Inr s1" for s1
    using f posts_append[OF that]
    by (auto simp: purchase_update_def purchase_include_eq purchase_payload_of_def split: if_splits)
  show ?thesis
    unfolding purchases_confirm_tx_def Inr payload sum.case purchase_payload_of_purchase Let_def purchase_loop_eq settled_purchase_folds
    by (auto simp: upd split: sum.splits)
qed

lemma purchases_confirm_tx_InrE:
  assumes "purchases_confirm_tx alive movementIds now e i s = Inr (view, s')"
  obtains purchase s1 where "find_by purchase_id i (purchases s) = Some purchase" "purchase_enterpriseId purchase = e"
    "purchase_status purchase = Purchase_DRAFT"
    "sum_foldM (post_movement alive now e) s (purchase_postings movementIds s purchase) = Inr s1"
    "s1 = s\<lparr>stockMovements := stockMovements s @ posted now e (purchase_postings movementIds s purchase)\<rparr>"
    "s' = s1\<lparr>purchases := update_by purchase_id i (confirmed_purchase now) (purchases s)\<rparr>"
    "view = toPurchaseView (purchase_payload_of s (confirmed_purchase now purchase))"
proof -
  obtain payload where p: "getPurchaseOrThrow e i s = Inr payload"
    using assms by (auto simp: purchases_confirm_tx_eq split: sum.splits)
  then obtain purchase where f: "find_by purchase_id i (purchases s) = Some purchase" "purchase_enterpriseId purchase = e"
    and payload: "payload = purchase_payload_of s purchase"
    by (auto simp: getPurchaseOrThrow_Inr_iff)
  from assms obtain s1 where d: "purchase_status purchase = Purchase_DRAFT"
    and s1: "sum_foldM (post_movement alive now e) s (purchase_postings movementIds s purchase) = Inr s1"
    and r: "view = toPurchaseView (purchase_payload_of s (confirmed_purchase now purchase))"
      "s' = s1\<lparr>purchases := update_by purchase_id i (confirmed_purchase now) (purchases s1)\<rparr>"
    by (auto simp: purchases_confirm_tx_eq p payload Let_def split: sum.splits if_splits)
  from posts_append[OF s1] have "purchases s1 = purchases s" by simp
  with r that[OF f d s1 posts_append[OF s1]] show thesis by simp
qed

lemma purchases_confirm_not_P2034: "purchases_confirm_tx alive movementIds now e i s \<noteq> Inl (PrismaKnown P2034)"
  using posts_not_P2034
  by (auto simp: purchases_confirm_tx_eq getPurchaseOrThrow_def purchase_include_eq Let_def split: sum.splits option.splits)

lemma purchases_confirm_eq:
  "purchases_confirm (Some st) abort alive movementIds now e i s =
   (if abort 1 \<and> abort 2 \<and> abort 3
    then (Inl (ConflictException ''Conflit de concurrence, veuillez reessayer''), s)
    else commit_txn (purchases_confirm_tx alive movementIds now e i) s)"
  unfolding purchases_confirm_def by (rule serializable_409_eq) (rule purchases_confirm_not_P2034)

lemma purchases_confirm_None:
  "purchases_confirm None abort alive movementIds now e i s =
   (Inl (JsError ''Aucun TenantContext actif : cette operation doit s'executer dans une requete authentifiee''), s)"
  by (simp add: purchases_confirm_def serializable_409_None)

section \<open>Cancellation\<close>

lemma purchases_cancel_InrE:
  assumes "purchases_cancel now e i s = Inr (view, s')"
  obtains purchase where "find_by purchase_id i (purchases s) = Some purchase" "purchase_enterpriseId purchase = e"
    "purchase_status purchase = Purchase_DRAFT" "s' = s\<lparr>purchases := update_by purchase_id i (cancelled_purchase now) (purchases s)\<rparr>"
    "view = toPurchaseView (purchase_payload_of s (cancelled_purchase now purchase))"
proof -
  obtain payload where p: "getPurchaseOrThrow e i s = Inr payload"
    using assms by (auto simp: purchases_cancel_def split: sum.splits)
  then obtain purchase where f: "find_by purchase_id i (purchases s) = Some purchase" "purchase_enterpriseId purchase = e"
    and inc: "purchase_include s purchase = Inr payload" and payload: "payload = purchase_payload_of s purchase"
    by (auto simp: getPurchaseOrThrow_Inr_iff)
  have "purchase_update i (cancelled_purchase now) s = Inr (purchase_payload_of s (cancelled_purchase now purchase),
      s\<lparr>purchases := update_by purchase_id i (cancelled_purchase now) (purchases s)\<rparr>)"
    using f inc by (auto simp: purchase_update_def purchase_include_eq purchase_payload_of_def split: if_splits)
  with assms have "purchase_status purchase = Purchase_DRAFT" "s' = s\<lparr>purchases := update_by purchase_id i (cancelled_purchase now) (purchases s)\<rparr>"
    "view = toPurchaseView (purchase_payload_of s (cancelled_purchase now purchase))"
    by (auto simp: purchases_cancel_def p payload settled_purchase_folds split: if_splits)
  with f that show thesis by blast
qed

section \<open>Creation\<close>

definition new_purchase ::
    "uuid \<Rightarrow> (nat \<Rightarrow> uuid) \<Rightarrow> date \<Rightarrow> uuid \<Rightarrow> create_purchase_input \<Rightarrow> string option \<Rightarrow> db \<Rightarrow> purchase" where
  "new_purchase newId lineIds now e input k s =
     \<lparr>purchase_id = newId, purchase_enterpriseId = e, purchase_supplierId = purchaseInput_supplierId input,
      purchase_status = Purchase_DRAFT, purchase_purchaseDate = now, purchase_notes = purchaseInput_notes input,
      purchase_confirmedAt = None, purchase_cancelledAt = None, purchase_idempotencyKey = k,
      purchase_createdAt = now, purchase_updatedAt = now,
      purchase_lines = new_purchase_lines lineIds e (\<lambda>i. find_by product_id i (products s)) (purchaseInput_lines input)\<rparr>"

lemma new_purchase_simps [simp]:
  "purchase_id (new_purchase newId lineIds now e input k s) = newId"
  "purchase_enterpriseId (new_purchase newId lineIds now e input k s) = e"
  "purchase_supplierId (new_purchase newId lineIds now e input k s) = purchaseInput_supplierId input"
  "purchase_status (new_purchase newId lineIds now e input k s) = Purchase_DRAFT"
  "purchase_idempotencyKey (new_purchase newId lineIds now e input k s) = k"
  "purchase_lines (new_purchase newId lineIds now e input k s) =
     new_purchase_lines lineIds e (\<lambda>i. find_by product_id i (products s)) (purchaseInput_lines input)"
  by (simp_all add: new_purchase_def)

lemma new_purchase_lines_cong:
  "(\<And>line. line \<in> set lines \<Longrightarrow> f (purchaseInput_productId line) = g (purchaseInput_productId line)) \<Longrightarrow>
   new_purchase_lines lineIds e f lines = new_purchase_lines lineIds e g lines"
  by (auto simp: new_purchase_lines_def Let_def in_set_enumerate_eq)

lemma map_new_purchase_lines:
  "map purchaseLine_id (new_purchase_lines lineIds e f lines) = map lineIds [0..<length lines]"
  by (rule nth_equalityI) (simp_all add: new_purchase_lines_def nth_enumerate_eq Let_def)

lemma new_purchase_lines_length [simp]: "length (new_purchase_lines lineIds e f lines) = length lines"
  by (simp add: new_purchase_lines_def)

lemma new_purchase_lines_nth:
  "n < length lines \<Longrightarrow> new_purchase_lines lineIds e f lines ! n =
     \<lparr>purchaseLine_id = lineIds n, purchaseLine_enterpriseId = e, purchaseLine_productId = purchaseInput_productId (lines ! n),
      purchaseLine_quantity = purchaseInput_quantity (lines ! n),
      purchaseLine_unitCostExcludingTax = purchaseInput_unitCostExcludingTax (lines ! n),
      purchaseLine_vatRateBasisPoints = product_vatRateBasisPoints (the (f (purchaseInput_productId (lines ! n))))\<rparr>"
  by (simp add: new_purchase_lines_def nth_enumerate_eq Let_def)

lemma new_purchase_lines_mem:
  assumes "l \<in> set (new_purchase_lines lineIds e f lines)"
  shows "\<exists>line\<in>set lines. purchaseLine_enterpriseId l = e \<and> purchaseLine_productId l = purchaseInput_productId line \<and>
           purchaseLine_quantity l = purchaseInput_quantity line"
  using assms by (auto simp: in_set_conv_nth[of l] new_purchase_lines_nth)

lemma new_purchase_lines_Nil_iff [simp]: "new_purchase_lines lineIds e f lines = [] \<longleftrightarrow> lines = []"
  by (simp flip: length_0_conv)

text \<open>Creation without a replay, as a decision list.\<close>

definition purchase_collides :: "purchase \<Rightarrow> db \<Rightarrow> bool" where
  "purchase_collides row s \<longleftrightarrow> purchase_id row \<in> purchase_id ` set (purchases s) \<or>
     \<not> distinct (map purchaseLine_id (purchase_lines row)) \<or>
     (\<exists>r\<in>set (purchases s). \<exists>l\<in>set (purchase_lines r). purchaseLine_id l \<in> purchaseLine_id ` set (purchase_lines row)) \<or>
     clashes_key purchase_enterpriseId purchase_idempotencyKey row (purchases s)"

lemma purchases_create_fresh_eq:
  assumes "\<not> (truthy k \<and> purchase_findByKey e k s0 \<noteq> None)"
  shows "purchases_create alive newId lineIds now e input k s0 s =
   (if \<not> owned_supplier e (purchaseInput_supplierId input) s then Inl (NotFoundException ''Fournisseur introuvable'')
    else case List.find (\<lambda>i. \<not> owned_product e i s) (js_set (map purchaseInput_productId (purchaseInput_lines input))) of
      Some i \<Rightarrow> Inl (NotFoundException (''Produit introuvable : '' @ i))
    | None \<Rightarrow>
        let row = new_purchase newId lineIds now e input k s in
        if \<not> purchase_collides row s
        then Inr (\<lparr>cpr_view = toPurchaseView (purchase_payload_of s row), cpr_created = True\<rparr>, s\<lparr>purchases := purchases s @ [row]\<rparr>)
        else if truthy k \<and> \<not> alive then Inl PrismaUnknown
        else if truthy k then (case purchase_findByKey e k s of
               Some existing \<Rightarrow> (case replayed_purchase s existing of Inl err \<Rightarrow> Inl err | Inr r \<Rightarrow> Inr (r, s))
             | None \<Rightarrow> Inl (PrismaKnown P2002))
        else Inl (PrismaKnown P2002))"
proof -
  let ?ids = "js_set (map purchaseInput_productId (purchaseInput_lines input))"
  let ?found = "filter (\<lambda>p. product_id p \<in> set ?ids) (products s)"
  let ?row = "new_purchase newId lineIds now e input k s"
  have first: "(if truthy k then purchase_findByKey e k s0 else None) = None" using assms by auto
  have byId: "i \<in> set ?ids \<Longrightarrow> find_by product_id i ?found = find_by product_id i (products s)" for i
    by (rule find_by_filter_mem)
  have bad: "List.find (\<lambda>i. case find_by product_id i ?found of None \<Rightarrow> True | Some p \<Rightarrow> product_enterpriseId p \<noteq> e) ?ids =
      List.find (\<lambda>i. \<not> owned_product e i s) ?ids"
    by (rule find_cong) (auto simp: byId[simplified] owned_product_def split: option.splits)
  have lines: "new_purchase_lines lineIds e (\<lambda>i. find_by product_id i ?found) (purchaseInput_lines input) =
      new_purchase_lines lineIds e (\<lambda>i. find_by product_id i (products s)) (purchaseInput_lines input)"
    by (rule new_purchase_lines_cong) (rule byId, simp)
  have inc: "purchase_include (s\<lparr>purchases := purchases s @ [?row]\<rparr>) ?row = Inr (purchase_payload_of s ?row)"
    if "owned_supplier e (purchaseInput_supplierId input) s" "List.find (\<lambda>i. \<not> owned_product e i s) ?ids = None"
    using that by (force simp: purchase_include_eq purchase_payload_of_def find_None_iff in_set_conv_nth new_purchase_lines_nth
        dest: owned_SomeD)
  show ?thesis
    unfolding purchases_create_def first option.case(1) Let_def bad lines new_purchase_def[symmetric]
    by (cases "find_by supplier_id (purchaseInput_supplierId input) (suppliers s)")
      (auto simp: owned_supplier_def purchase_create_def purchase_collides_def inc
        split: option.splits)
qed

lemma replayed_purchase_InrD:
  "replayed_purchase sx m = Inr r \<Longrightarrow> r = \<lparr>cpr_view = toPurchaseView (purchase_payload_of sx m), cpr_created = False\<rparr>"
  by (auto simp: replayed_purchase_def purchase_include_eq split: if_splits)

lemma purchases_create_InrE:
  assumes "purchases_create alive newId lineIds now e input k s0 s = Inr (r, s')"
  obtains (same) sx m where "s' = s" "sx = s0 \<or> sx = s" "truthy k" "purchase_findByKey e k sx = Some m"
      "r = \<lparr>cpr_view = toPurchaseView (purchase_payload_of sx m), cpr_created = False\<rparr>"
  | (insert) "\<not> (truthy k \<and> purchase_findByKey e k s0 \<noteq> None)"
      "owned_supplier e (purchaseInput_supplierId input) s"
      "\<forall>line\<in>set (purchaseInput_lines input). owned_product e (purchaseInput_productId line) s"
      "\<not> purchase_collides (new_purchase newId lineIds now e input k s) s"
      "s' = s\<lparr>purchases := purchases s @ [new_purchase newId lineIds now e input k s]\<rparr>"
      "r = \<lparr>cpr_view = toPurchaseView (purchase_payload_of s (new_purchase newId lineIds now e input k s)), cpr_created = True\<rparr>"
proof (cases "truthy k \<and> purchase_findByKey e k s0 \<noteq> None")
  case True
  then obtain m where m: "truthy k" "purchase_findByKey e k s0 = Some m" by auto
  with assms have "s' = s \<and> replayed_purchase s0 m = Inr r"
    by (auto simp: purchases_create_def split: sum.splits)
  then show thesis using same m replayed_purchase_InrD by blast
next
  case False
  from assms have c: "s' = s \<and> truthy k \<and> (\<exists>m. purchase_findByKey e k s = Some m \<and> replayed_purchase s m = Inr r) \<or>
      owned_supplier e (purchaseInput_supplierId input) s \<and>
      (\<forall>line\<in>set (purchaseInput_lines input). owned_product e (purchaseInput_productId line) s) \<and>
      \<not> purchase_collides (new_purchase newId lineIds now e input k s) s \<and>
      s' = s\<lparr>purchases := purchases s @ [new_purchase newId lineIds now e input k s]\<rparr> \<and>
      r = \<lparr>cpr_view = toPurchaseView (purchase_payload_of s (new_purchase newId lineIds now e input k s)), cpr_created = True\<rparr>"
    unfolding purchases_create_fresh_eq[OF False] Let_def
    by (auto simp: find_None_iff split: if_splits option.splits sum.splits)
  then show thesis using same insert False replayed_purchase_InrD by blast
qed

section \<open>Invariants\<close>

lemma purchases_create_wf:
  assumes "purchases_create alive newId lineIds now e input k s0 s = Inr (r, s')" and "createPurchaseSchema input"
    and "purchases_wf s"
  shows "purchases_wf s'"
  using assms(1)
proof (cases rule: purchases_create_InrE)
  case same
  with assms(3) show ?thesis by simp
next
  case insert
  let ?row = "new_purchase newId lineIds now e input k s"
  have "purchase_wf s' ?row"
    using insert assms(2)
    by (fastforce simp: purchase_wf_def createPurchaseSchema_def owned_defs purchase_collides_def dest: new_purchase_lines_mem)
  moreover have "purchase_wf s' purchase" if "purchase \<in> set (purchases s)" for purchase
    using that assms(3) by (auto simp: insert(5) purchases_wf_def purchase_wf_def owned_defs)
  ultimately show ?thesis
    using insert(4) assms(3) by (simp add: insert(5) purchases_wf_def unique_key_append1 purchase_collides_def)
qed

lemma purchases_settle_wf:
  assumes "purchases_wf s" and "purchases s' = update_by purchase_id i f (purchases s)" and "products s' = products s"
    and "suppliers s' = suppliers s" and "f = confirmed_purchase now \<or> f = cancelled_purchase now"
  shows "purchases_wf s'"
proof -
  have w: "purchase_wf s' purchase" "purchase_wf s' (f purchase)" if "purchase_wf s purchase" for purchase
    using that assms(3-5) by (auto simp: purchase_wf_def owned_defs split: option.splits)
  have "\<forall>purchase\<in>set (purchases s'). purchase_wf s' purchase"
    unfolding assms(2) using assms(1) w by (intro Ball_update_by) (auto simp: purchases_wf_def)
  then show ?thesis
    using assms by (auto simp: purchases_wf_def map_update_by unique_key_update_by)
qed

lemma purchases_confirm_invariants:
  assumes "purchases_confirm_tx alive movementIds now e i s = Inr (view, s')"
  shows "purchases_wf s \<Longrightarrow> purchases_wf s'" and "movements_wf s \<Longrightarrow> movements_wf s'"
    and "stock_nonneg s \<Longrightarrow> stock_nonneg s'"
proof -
  obtain purchase s1 where s1: "sum_foldM (post_movement alive now e) s (purchase_postings movementIds s purchase) = Inr s1"
    and a: "s1 = s\<lparr>stockMovements := stockMovements s @ posted now e (purchase_postings movementIds s purchase)\<rparr>"
    and s': "s' = s1\<lparr>purchases := update_by purchase_id i (confirmed_purchase now) (purchases s)\<rparr>"
    using assms by (elim purchases_confirm_tx_InrE) blast
  show "purchases_wf s'" if "purchases_wf s" by (rule purchases_settle_wf[OF that]) (auto simp: s' a)
  have "stockMovements s' = stockMovements s1" by (simp add: s')
  then show "movements_wf s'" if "movements_wf s"
    using posts_invariants(1)[OF s1 that] by (simp add: movements_wf_def)
  show "stock_nonneg s'" if "stock_nonneg s"
    using posts_invariants(2)[OF s1 that] by (simp add: stock_nonneg_def stock_on_hand_def s')
qed

lemma purchases_cancel_wf:
  assumes "purchases_cancel now e i s = Inr (view, s')" and "purchases_wf s"
  shows "purchases_wf s'"
  using assms(1) by (elim purchases_cancel_InrE) (auto intro: purchases_settle_wf[OF assms(2)])

section \<open>Properties\<close>

text \<open>The postings of a well-formed purchase meet the ledger's conditions.\<close>

lemma purchase_postings_ready:
  assumes wf: "purchase_wf s purchase" and e: "purchase_enterpriseId purchase = e"
    and ids: "inj_on movementIds (purchaseLine_id ` set (purchase_lines purchase))"
      "movementIds ` purchaseLine_id ` set (purchase_lines purchase) \<inter> movement_id ` set (stockMovements s) = {}"
  shows "\<forall>m\<in>set (purchase_postings movementIds s purchase). 0 \<le> movement_delta (snd m)"
    and "\<forall>m\<in>set (purchase_postings movementIds s purchase).
           tracked e (input_productId (snd m)) s \<and> fst m \<notin> movement_id ` set (stockMovements s)"
    and "distinct (map fst (purchase_postings movementIds s purchase))"
proof -
  let ?ms = "purchase_postings movementIds s purchase"
  have sub: "set (tracked_purchase_lines s purchase) \<subseteq> set (purchase_lines purchase)"
    by (auto simp: tracked_purchase_lines_def)
  show "\<forall>m\<in>set ?ms. 0 \<le> movement_delta (snd m)"
    using wf sub by (fastforce simp: purchase_postings_def purchase_wf_def)
  show "\<forall>m\<in>set ?ms. tracked e (input_productId (snd m)) s \<and> fst m \<notin> movement_id ` set (stockMovements s)"
  proof
    fix m assume "m \<in> set ?ms"
    then obtain line where l: "line \<in> set (tracked_purchase_lines s purchase)"
      and m: "m = (movementIds (purchaseLine_id line), purchase_movement (purchase_id purchase) line)"
      by (auto simp: purchase_postings_def)
    obtain pr where "find_by product_id (purchaseLine_productId line) (products s) = Some pr" "product_enterpriseId pr = e"
      using l sub wf e by (fastforce simp: purchase_wf_def dest: owned_SomeD)
    then show "tracked e (input_productId (snd m)) s \<and> fst m \<notin> movement_id ` set (stockMovements s)"
      using l sub ids(2) by (auto simp: m tracked_def tracked_purchase_lines_def)
  qed
  have "distinct (map purchaseLine_id (tracked_purchase_lines s purchase))"
    using wf by (simp add: tracked_purchase_lines_def purchase_wf_def distinct_map_filter)
  moreover have "inj_on movementIds (purchaseLine_id ` set (tracked_purchase_lines s purchase))"
    using ids(1) sub by (meson image_mono inj_on_subset)
  ultimately have "distinct (map movementIds (map purchaseLine_id (tracked_purchase_lines s purchase)))"
    by (simp only: distinct_map set_map)
  then show "distinct (map fst ?ms)" by (simp add: purchase_postings_def o_def)
qed

text \<open>
  C23. Confirming a draft purchase never fails for lack of stock: in a state where no balance is
  negative it always succeeds (unless the engine cancels all three attempts), stores the purchase as
  confirmed and raises every balance of the enterprise by exactly what the purchase's tracked lines
  bring, leaving the other enterprises' balances alone.
\<close>

theorem purchases_confirm_succeeds:
  assumes wf: "purchases_wf s" and nn: "stock_nonneg s"
    and purchase: "find_by purchase_id i (purchases s) = Some purchase" "purchase_enterpriseId purchase = e"
      "purchase_status purchase = Purchase_DRAFT"
    and ids: "inj_on movementIds (purchaseLine_id ` set (purchase_lines purchase))"
      "movementIds ` purchaseLine_id ` set (purchase_lines purchase) \<inter> movement_id ` set (stockMovements s) = {}"
    and run: "\<not> (abort 1 \<and> abort 2 \<and> abort 3)"
  shows "\<exists>view s'. purchases_service_confirm (Some st) abort alive movementIds now e u i s = (Inr view, s') \<and>
           pv_status view = Purchase_CONFIRMED \<and>
           find_by purchase_id i (purchases s') = Some (confirmed_purchase now purchase) \<and>
           (\<forall>e' p. stock_on_hand e' p s' = stock_on_hand e' p s + (if e' = e then purchase_supply s purchase p else 0))"
proof -
  let ?ms = "purchase_postings movementIds s purchase"
  have mem: "purchase_wf s purchase" using wf find_by_SomeD[OF purchase(1)] by (auto simp: purchases_wf_def)
  have get: "getPurchaseOrThrow e i s = Inr (purchase_payload_of s purchase)"
    using purchase purchase_wf_includes[OF mem] by (simp add: getPurchaseOrThrow_def)
  have "\<forall>m\<in>set ?ms. 0 \<le> stock_on_hand e (input_productId (snd m)) s" using nn by (simp add: stock_nonneg_iff)
  from stock_ledger.posts_in[OF purchase_postings_ready[OF mem purchase(2) ids] this, of alive now]
  obtain s1 where s1: "sum_foldM (post_movement alive now e) s ?ms = Inr s1" by auto
  note s1' = posts_append[OF s1]
  have "stock_on_hand e' p s1 = stock_on_hand e' p s + (if e' = e then purchase_supply s purchase p else 0)" for e' p
    using stock_ledger.posts_level[OF s1, of p] moved_purchase_postings[of p movementIds s purchase]
      stock_on_hand_other[of e' e p s now ?ms] by (auto simp: s1')
  then show ?thesis
    using run purchase
    by (simp add: purchases_service_confirm_def purchases_confirm_eq commit_txn_def purchases_confirm_tx_eq get Let_def s1
        s1' find_by_update_by auditLog_record_def stock_on_hand_def)
qed

definition fx_purchase :: "uuid \<Rightarrow> string option \<Rightarrow> purchase_status \<Rightarrow> purchase" where
  "fx_purchase i k st =
     \<lparr>purchase_id = i, purchase_enterpriseId = ''e1'', purchase_supplierId = ''s1'', purchase_status = st,
      purchase_purchaseDate = 0, purchase_notes = None, purchase_confirmedAt = None, purchase_cancelledAt = None,
      purchase_idempotencyKey = k, purchase_createdAt = 0, purchase_updatedAt = 0,
      purchase_lines = [\<lparr>purchaseLine_id = ''la'', purchaseLine_enterpriseId = ''e1'', purchaseLine_productId = ''p1'',
        purchaseLine_quantity = 5, purchaseLine_unitCostExcludingTax = 600, purchaseLine_vatRateBasisPoints = 1800\<rparr>]\<rparr>"

definition fx_purchases_db :: db where
  "fx_purchases_db = fx_db\<lparr>purchases := [fx_purchase ''h1'' None Purchase_DRAFT]\<rparr>"

lemma purchases_confirm_succeeds_witness:
  "\<exists>view s'. purchases_service_confirm (Some \<lparr>store_tenantId = ''e1'', store_userId = ''u1'', store_isSuperAdmin = False\<rparr>)
       (\<lambda>i. i = 1) False (\<lambda>l. ''m'' @ l) 9 ''e1'' ''u1'' ''h1'' fx_purchases_db = (Inr view, s') \<and>
     stock_on_hand ''e1'' ''p1'' s' = 15"
proof -
  let ?p = "fx_purchase ''h1'' None Purchase_DRAFT"
  have wf: "purchases_wf fx_purchases_db"
    by (simp add: purchases_wf_def purchase_wf_def fx_purchases_db_def fx_purchase_def fx_db_simps owned_defs unique_key_def)
  have nn: "stock_nonneg fx_purchases_db"
    by (simp add: stock_nonneg_def fx_purchases_db_def fx_db_simps stock_on_hand_def signed_quantity_def)
  have p: "find_by purchase_id ''h1'' (purchases fx_purchases_db) = Some ?p" "purchase_enterpriseId ?p = ''e1''"
    "purchase_status ?p = Purchase_DRAFT"
    by (simp_all add: fx_purchases_db_def fx_purchase_def)
  have ids: "inj_on (\<lambda>l. ''m'' @ l) (purchaseLine_id ` set (purchase_lines ?p))"
    "(\<lambda>l. ''m'' @ l) ` purchaseLine_id ` set (purchase_lines ?p) \<inter> movement_id ` set (stockMovements fx_purchases_db) = {}"
    by (simp_all add: inj_on_def fx_purchases_db_def fx_purchase_def fx_db_simps)
  have run: "\<not> ((1::nat) = 1 \<and> (2::nat) = 1 \<and> (3::nat) = 1)" by simp
  have "purchase_supply fx_purchases_db ?p ''p1'' = 5" "stock_on_hand ''e1'' ''p1'' fx_purchases_db = 10"
    by (simp_all add: purchase_supply_def tracked_purchase_lines_def fx_purchases_db_def fx_purchase_def fx_db_simps
        stock_on_hand_def signed_quantity_def)
  with purchases_confirm_succeeds[where abort = "\<lambda>i. i = 1", OF wf nn p ids run,
      where st = "\<lparr>store_tenantId = ''e1'', store_userId = ''u1'', store_isSuperAdmin = False\<rparr>" and
      alive = False and now = 9 and u = "''u1''"]
  show ?thesis by fastforce
qed

end
