(* ===== verification/Calendar.thy ===== *)
theory Calendar
  imports Prelude "HOL-Library.AList"
begin

text \<open>
  The UTC calendar behind \<open>Date\<close> (ECMAScript's \<open>Day\<close>, \<open>DayFromYear\<close>, \<open>YearFromTime\<close>,
  \<open>MonthFromTime\<close>, \<open>DateFromTime\<close>) as far as reports/reports.repository.ts uses it:
  \<open>toISOString().slice(0, 10)\<close> and \<open>Date.UTC(year, month, 1)\<close>. Dates are milliseconds since 1970.
\<close>

section \<open>Days, years and months\<close>

definition msPerDay :: int where
  "msPerDay = 86400000"

definition Day :: "int \<Rightarrow> int" where
  "Day t = t div msPerDay"

definition DayFromYear :: "int \<Rightarrow> int" where
  "DayFromYear y = 365 * (y - 1970) + (y - 1969) div 4 - (y - 1901) div 100 + (y - 1601) div 400"

text \<open>The year a day lies in: 400 years have 146097 days, so the estimate is off by at most one.\<close>

definition YearFromDay :: "int \<Rightarrow> int" where
  "YearFromDay d = (let y = 1970 + (400 * d) div 146097
     in if d < DayFromYear y then y - 1 else if DayFromYear (y + 1) \<le> d then y + 1 else y)"

definition leap_year :: "int \<Rightarrow> bool" where
  "leap_year y \<longleftrightarrow> y mod 4 = 0 \<and> (y mod 100 \<noteq> 0 \<or> y mod 400 = 0)"

text \<open>The first day of month \<open>m\<close> (counted from 0) within its year.\<close>

definition monthStart :: "bool \<Rightarrow> nat \<Rightarrow> int" where
  "monthStart leap m =
     [0, 31, 59, 90, 120, 151, 181, 212, 243, 273, 304, 334] ! m + (if leap \<and> 2 \<le> m then 1 else 0)"

definition monthOf :: "bool \<Rightarrow> int \<Rightarrow> nat" where
  "monthOf leap n =
     (if n < monthStart leap 1 then 0 else if n < monthStart leap 2 then 1 else if n < monthStart leap 3 then 2 else if n < monthStart leap 4 then 3
       else if n < monthStart leap 5 then 4 else if n < monthStart leap 6 then 5 else if n < monthStart leap 7 then 6
       else if n < monthStart leap 8 then 7 else if n < monthStart leap 9 then 8 else if n < monthStart leap 10 then 9
       else if n < monthStart leap 11 then 10 else 11)"

record ymd =
  ymd_year :: int
  ymd_month :: nat
  ymd_date :: int

definition ymd_of_day :: "int \<Rightarrow> ymd" where
  "ymd_of_day d =
     (let y = YearFromDay d; n = d - DayFromYear y; m = monthOf (leap_year y) n
      in \<lparr>ymd_year = y, ymd_month = m, ymd_date = n - monthStart (leap_year y) m + 1\<rparr>)"

definition day_of_ymd :: "ymd \<Rightarrow> int" where
  "day_of_ymd c = DayFromYear (ymd_year c) + monthStart (leap_year (ymd_year c)) (ymd_month c) + ymd_date c - 1"

text \<open>\<open>new Date(Date.UTC(year, month, 1))\<close>.\<close>

definition Date_UTC :: "int \<Rightarrow> nat \<Rightarrow> int" where
  "Date_UTC y m = msPerDay * day_of_ymd \<lparr>ymd_year = y, ymd_month = m, ymd_date = 1\<rparr>"

section \<open>ISO strings\<close>

text \<open>The date part of \<open>toISOString()\<close>; a year outside 0..9999 takes a sign and six digits.\<close>

definition iso_year :: "int \<Rightarrow> string" where
  "iso_year y =
     (if 0 \<le> y \<and> y \<le> 9999 then padStart 4 CHR ''0'' (nat_digits (nat y))
      else (if y < 0 then ''-'' else ''+'') @ padStart 6 CHR ''0'' (nat_digits (nat \<bar>y\<bar>)))"

definition iso_date :: "int \<Rightarrow> string" where
  "iso_date t = (let c = ymd_of_day (Day t)
     in iso_year (ymd_year c) @ ''-'' @ padStart 2 CHR ''0'' (nat_digits (Suc (ymd_month c))) @ ''-'' @
        padStart 2 CHR ''0'' (nat_digits (nat (ymd_date c))) @ ''T'')"

definition dayKey :: "int \<Rightarrow> string" where
  "dayKey t = take 10 (iso_date t)"

section \<open>The calendar is sound\<close>

lemma div_range:
  fixes x k :: int
  shows "0 < k \<Longrightarrow> x - (k - 1) \<le> k * (x div k) \<and> k * (x div k) \<le> x"
  using mult_div_mod_eq[of k x] pos_mod_bound[of k x] pos_mod_sign[of k x] by linarith

lemma DayFromYear_bounds:
  "146097 * (y - 1970) - 799 \<le> 400 * DayFromYear y \<and> 400 * DayFromYear y \<le> 146097 * (y - 1970) + 799"
proof -
  define a b c where "a = (y - 1969) div 4" and "b = (y - 1901) div 100" and "c = (y - 1601) div 400"
  have "y - 1972 \<le> 4 * a" "4 * a \<le> y - 1969" "y - 2000 \<le> 100 * b" "100 * b \<le> y - 1901"
    "y - 2000 \<le> 400 * c" "400 * c \<le> y - 1601"
    using div_range[of 4 "y - 1969"] div_range[of 100 "y - 1901"] div_range[of 400 "y - 1601"]
    by (simp_all add: a_def b_def c_def)
  moreover have "DayFromYear y = 365 * (y - 1970) + a - b + c" by (simp add: DayFromYear_def a_def b_def c_def)
  ultimately have "146097 * (y - 1970) - 799 \<le> 400 * DayFromYear y" and "400 * DayFromYear y \<le> 146097 * (y - 1970) + 799"
    by simp_all
  then show ?thesis by blast
qed

lemma YearFromDay_bounds: "DayFromYear (YearFromDay d) \<le> d \<and> d < DayFromYear (YearFromDay d + 1)"
proof -
  define q where "q = (400 * d) div 146097"
  have q: "400 * d - 146096 \<le> 146097 * q" "146097 * q \<le> 400 * d"
    using div_range[of 146097 "400 * d"] by (simp_all add: q_def)
  have "400 * DayFromYear (1970 + q - 1) \<le> 400 * d"
    using DayFromYear_bounds[of "1970 + q - 1", THEN conjunct2] q by (simp add: algebra_simps)
  then have below: "DayFromYear (1970 + q - 1) \<le> d" by simp
  have "400 * d < 400 * DayFromYear (1970 + q + 1 + 1)"
    using DayFromYear_bounds[of "1970 + q + 1 + 1", THEN conjunct1] q by (simp add: algebra_simps)
  then have above: "d < DayFromYear (1970 + q + 1 + 1)" by simp
  consider "d < DayFromYear (1970 + q)" | "DayFromYear (1970 + q) \<le> d" "DayFromYear (1970 + q + 1) \<le> d"
    | "DayFromYear (1970 + q) \<le> d" "d < DayFromYear (1970 + q + 1)" by linarith
  then show ?thesis unfolding YearFromDay_def Let_def q_def[symmetric]
    by cases (use below above in simp_all)
qed

lemma div_pred:
  fixes x k :: int
  assumes "0 < k"
  shows "x div k = (x - 1) div k + (if x mod k = 0 then 1 else 0)"
proof -
  have x: "x - 1 = k * (x div k) + (x mod k - 1)" using mult_div_mod_eq[of k x] by linarith
  have r: "0 \<le> x mod k" "x mod k < k" using assms by simp_all
  show ?thesis
  proof (cases "x mod k = 0")
    case True
    then have "x - 1 = k * (x div k - 1) + (k - 1)" using x by (simp add: right_diff_distrib)
    then have "(x - 1) div k = x div k - 1" by (rule int_div_pos_eq) (use assms in auto)
    with True show ?thesis by simp
  next
    case False
    with r have "(x - 1) div k = x div k" by (intro int_div_pos_eq[OF x]) auto
    with False show ?thesis by simp
  qed
qed

lemma div_shift:
  fixes y c k :: int
  assumes "0 < k" and "k dvd c" and "c' = c + 1"
  shows "(y - c) div k = (y - c') div k + (if y mod k = 0 then 1 else 0)"
proof -
  have "(y - c) mod k = y mod k" using assms(2) by (simp add: mod_diff_eq[symmetric, of y c] dvd_imp_mod_0)
  then show ?thesis using div_pred[OF assms(1), of "y - c"] by (simp add: diff_diff_eq assms(3))
qed

lemma DayFromYear_Suc: "DayFromYear (y + 1) = DayFromYear y + (if leap_year y then 366 else 365)"
proof -
  have d: "(y - 1968) div 4 = (y - 1969) div 4 + (if y mod 4 = 0 then 1 else 0)"
    "(y - 1900) div 100 = (y - 1901) div 100 + (if y mod 100 = 0 then 1 else 0)"
    "(y - 1600) div 400 = (y - 1601) div 400 + (if y mod 400 = 0 then 1 else 0)"
    by (rule div_shift; simp)+
  have n: "y + 1 - 1970 = y - 1970 + 1" "y + 1 - 1969 = y - 1968" "y + 1 - 1901 = y - 1900" "y + 1 - 1601 = y - 1600"
    by simp_all
  have "400 dvd y \<Longrightarrow> 100 dvd y" "100 dvd y \<Longrightarrow> 4 dvd y"
    by (rule dvd_trans[of 100 400 y], simp, assumption) (rule dvd_trans[of 4 100 y], simp, assumption)
  then have imp: "y mod 400 = 0 \<Longrightarrow> y mod 100 = 0" "y mod 100 = 0 \<Longrightarrow> y mod 4 = 0"
    by (simp_all only: mod_eq_0_iff_dvd)
  have sum: "(R \<longrightarrow> Q) \<and> (Q \<longrightarrow> P) \<Longrightarrow>
      A + (a + (if P then 1 else 0)) - (b + (if Q then 1 else 0)) + (c + (if R then 1 else 0)) =
      A + a - b + c + (if P \<and> (\<not> Q \<or> R) then 1 else 0)" for A a b c :: int and P Q R
    by (cases P; cases Q; cases R) simp_all
  have "DayFromYear (y + 1) = 365 * (y - 1970 + 1) + (y - 1969) div 4 - (y - 1901) div 100 + (y - 1601) div 400 +
      (if leap_year y then 1 else 0)"
    unfolding DayFromYear_def leap_year_def n d using imp by (intro sum) blast
  moreover have "365 * (z + 1) + a - b + c + (if P then 1 else 0) = 365 * z + a - b + c + (if P then 366 else 365)"
    for z a b c :: int and P by (cases P) simp_all
  ultimately show ?thesis by (simp only: DayFromYear_def[of y])
qed

lemma monthStart_eq:
  "monthStart leap 0 = 0" "monthStart leap 1 = 31" "monthStart leap (Suc 0) = 31" "monthStart leap 2 = 59 + (if leap then 1 else 0)"
  "monthStart leap 3 = 90 + (if leap then 1 else 0)" "monthStart leap 4 = 120 + (if leap then 1 else 0)"
  "monthStart leap 5 = 151 + (if leap then 1 else 0)" "monthStart leap 6 = 181 + (if leap then 1 else 0)"
  "monthStart leap 7 = 212 + (if leap then 1 else 0)" "monthStart leap 8 = 243 + (if leap then 1 else 0)"
  "monthStart leap 9 = 273 + (if leap then 1 else 0)" "monthStart leap 10 = 304 + (if leap then 1 else 0)"
  "monthStart leap 11 = 334 + (if leap then 1 else 0)"
  by (simp_all add: monthStart_def)

lemma monthOf_bounds:
  assumes "0 \<le> n" and "n < (if leap then 366 else 365)"
  shows "monthOf leap n < 12 \<and> monthStart leap (monthOf leap n) \<le> n \<and> n < monthStart leap (monthOf leap n) + 31"
proof -
  have step: "P (if b then x else y)" if "b \<Longrightarrow> P x" "\<not> b \<Longrightarrow> P y" for P :: "nat \<Rightarrow> bool" and b x y
    using that by simp
  show ?thesis unfolding monthOf_def
    by (rule step[where P = "\<lambda>m. m < 12 \<and> monthStart leap m \<le> n \<and> n < monthStart leap m + 31"],
        use assms in \<open>simp add: monthStart_eq split: if_splits\<close>)+
      (use assms in \<open>simp add: monthStart_eq split: if_splits\<close>)
qed

lemma ymd_of_day_range:
  shows "ymd_month (ymd_of_day d) < 12" and "1 \<le> ymd_date (ymd_of_day d)" and "ymd_date (ymd_of_day d) \<le> 31"
    and "day_of_ymd (ymd_of_day d) = d"
proof -
  let ?y = "YearFromDay d" and ?n = "d - DayFromYear (YearFromDay d)"
  have "0 \<le> ?n" "?n < (if leap_year ?y then 366 else 365)"
    using YearFromDay_bounds[of d] DayFromYear_Suc[of ?y] by auto
  from monthOf_bounds[OF this]
  show "ymd_month (ymd_of_day d) < 12" and "1 \<le> ymd_date (ymd_of_day d)" and "ymd_date (ymd_of_day d) \<le> 31"
    and "day_of_ymd (ymd_of_day d) = d"
    by (auto simp: ymd_of_day_def day_of_ymd_def Let_def)
qed

section \<open>Keys are days\<close>

lemma length_nat_digits: "n < 10 ^ Suc k \<Longrightarrow> length (nat_digits n) \<le> Suc k"
proof (induction n arbitrary: k rule: nat_digits.induct)
  case (1 n)
  show ?case
  proof (cases "n < 10")
    case True
    then show ?thesis by (simp add: nat_digits.simps[of n])
  next
    case False
    with 1 obtain j where k: "k = Suc j" by (cases k) auto
    have "n div 10 < 10 ^ Suc j" using 1(2) by (simp add: k less_mult_imp_div_less)
    from 1(1)[OF False this] show ?thesis by (simp add: nat_digits.simps[of n] False k)
  qed
qed

lemma length_padStart: "0 < k \<Longrightarrow> n < 10 ^ k \<Longrightarrow> length (padStart k CHR ''0'' (nat_digits n)) = k"
  using length_nat_digits[of n "k - 1"] by (simp add: padStart_def)

lemma length_fields:
  "n < 100 \<Longrightarrow> length (padStart 2 CHR ''0'' (nat_digits n)) = 2"
  "n < 10000 \<Longrightarrow> length (padStart 4 CHR ''0'' (nat_digits n)) = 4"
  using length_padStart[of 2 n] length_padStart[of 4 n] by simp_all

lemma padStart_digits_inject:
  "padStart k CHR ''0'' (nat_digits m) = padStart k CHR ''0'' (nat_digits n) \<Longrightarrow> m = n"
  by (metis digits_value_nat_digits digits_value_zeros padStart_def)

text \<open>Two instants of the years 0 to 9999 have the same key exactly when they lie on the same UTC day.\<close>

definition four_digit_year :: "int \<Rightarrow> bool" where
  "four_digit_year t \<longleftrightarrow> 0 \<le> YearFromDay (Day t) \<and> YearFromDay (Day t) \<le> 9999"

lemma dayKey_eq:
  assumes "four_digit_year t"
  shows "dayKey t = (let c = ymd_of_day (Day t)
     in padStart 4 CHR ''0'' (nat_digits (nat (ymd_year c))) @ ''-'' @ padStart 2 CHR ''0'' (nat_digits (Suc (ymd_month c))) @ ''-'' @
        padStart 2 CHR ''0'' (nat_digits (nat (ymd_date c))))"
proof -
  let ?c = "ymd_of_day (Day t)"
  have y: "0 \<le> ymd_year ?c" "ymd_year ?c \<le> 9999"
    using assms by (simp_all add: four_digit_year_def ymd_of_day_def Let_def)
  then have "length (padStart 4 CHR ''0'' (nat_digits (nat (ymd_year ?c)))) = 4" by (intro length_fields) simp
  moreover have "length (padStart 2 CHR ''0'' (nat_digits (Suc (ymd_month ?c)))) = 2"
    using ymd_of_day_range(1)[of "Day t"] by (intro length_fields) simp
  moreover have "length (padStart 2 CHR ''0'' (nat_digits (nat (ymd_date ?c)))) = 2"
    using ymd_of_day_range(3)[of "Day t"] by (intro length_fields) simp
  ultimately show ?thesis using y unfolding dayKey_def iso_date_def iso_year_def Let_def by simp
qed

lemma dayKey_iff:
  assumes "four_digit_year t" and "four_digit_year u"
  shows "dayKey t = dayKey u \<longleftrightarrow> Day t = Day u"
proof
  assume "Day t = Day u"
  then show "dayKey t = dayKey u" by (simp add: dayKey_def iso_date_def)
next
  assume e: "dayKey t = dayKey u"
  let ?c = "ymd_of_day (Day t)" and ?d = "ymd_of_day (Day u)"
  have y: "0 \<le> ymd_year ?c" "ymd_year ?c \<le> 9999" "0 \<le> ymd_year ?d" "ymd_year ?d \<le> 9999"
    using assms by (simp_all add: four_digit_year_def ymd_of_day_def Let_def)
  have l4: "length (padStart 4 CHR ''0'' (nat_digits (nat (ymd_year ?c)))) = length (padStart 4 CHR ''0'' (nat_digits (nat (ymd_year ?d))))"
    using y length_fields(2)[of "nat (ymd_year ?c)"] length_fields(2)[of "nat (ymd_year ?d)"] by simp
  have l2: "length (padStart 2 CHR ''0'' (nat_digits (Suc (ymd_month ?c)))) = length (padStart 2 CHR ''0'' (nat_digits (Suc (ymd_month ?d))))"
    using length_fields(1)[of "Suc (ymd_month ?c)"] length_fields(1)[of "Suc (ymd_month ?d)"]
      ymd_of_day_range(1)[of "Day t"] ymd_of_day_range(1)[of "Day u"] by simp
  from e have "nat (ymd_year ?c) = nat (ymd_year ?d) \<and> Suc (ymd_month ?c) = Suc (ymd_month ?d) \<and> nat (ymd_date ?c) = nat (ymd_date ?d)"
    unfolding dayKey_eq[OF assms(1)] dayKey_eq[OF assms(2)] Let_def
    using l4 l2 by (auto dest!: padStart_digits_inject)
  then have "ymd_year ?c = ymd_year ?d \<and> ymd_month ?c = ymd_month ?d \<and> ymd_date ?c = ymd_date ?d"
    using y ymd_of_day_range(2)[of "Day t"] ymd_of_day_range(2)[of "Day u"] by auto
  then have "?c = ?d" by simp
  then show "Day t = Day u" using ymd_of_day_range(4) by metis
qed

text \<open>The first day of the month and of the year of an instant are not after it.\<close>

lemma Date_UTC_le:
  "Date_UTC (ymd_year (ymd_of_day (Day t))) (ymd_month (ymd_of_day (Day t))) \<le> t"
  "Date_UTC (ymd_year (ymd_of_day (Day t))) 0 \<le> t"
proof -
  let ?c = "ymd_of_day (Day t)"
  have m: "msPerDay * Day t \<le> t"
    using div_mult_mod_eq[of t msPerDay] pos_mod_sign[of msPerDay t] by (simp add: Day_def msPerDay_def)
  have "day_of_ymd \<lparr>ymd_year = ymd_year ?c, ymd_month = ymd_month ?c, ymd_date = 1\<rparr> \<le> Day t"
    using ymd_of_day_range(2,4)[of "Day t"] by (simp add: day_of_ymd_def)
  moreover have "day_of_ymd \<lparr>ymd_year = ymd_year ?c, ymd_month = 0, ymd_date = 1\<rparr> \<le> Day t"
    using YearFromDay_bounds[of "Day t"] by (simp add: day_of_ymd_def monthStart_def ymd_of_day_def Let_def)
  ultimately show "Date_UTC (ymd_year ?c) (ymd_month ?c) \<le> t" "Date_UTC (ymd_year ?c) 0 \<le> t"
    unfolding Date_UTC_def using m by (auto simp: msPerDay_def)
qed

end
