(* ===== verification/Reports.thy ===== *)
theory Reports
  imports Accounting Purchases Calendar "HOL-Library.Multiset"
begin

text \<open>
  apps/api/src/reports/reports.repository.ts: the sales and purchases reports with their points per
  UTC day, and the income statement. Read-only: each report is a function of the database. A
  JavaScript \<open>Map\<close> is an association list in insertion order, \<open>AList.update\<close> its \<open>set\<close>.
\<close>

section \<open>Periods\<close>

record report_period_query =
  rq_dateFrom :: "date option"
  rq_dateTo :: "date option"

definition startOfCurrentMonth :: "date \<Rightarrow> date" where
  "startOfCurrentMonth now = (let c = ymd_of_day (Day now) in Date_UTC (ymd_year c) (ymd_month c))"

definition startOfCurrentYear :: "date \<Rightarrow> date" where
  "startOfCurrentYear now = Date_UTC (ymd_year (ymd_of_day (Day now))) 0"

section \<open>Points per day\<close>

record report_daily_point =
  rdp_date :: string
  rdp_count :: nat
  rdp_totals :: doc_totals

record daily_accumulator =
  acc_byDay :: "(string \<times> report_daily_point) list"
  acc_count :: nat
  acc_totals :: doc_totals

definition add_totals :: "doc_totals \<Rightarrow> doc_totals \<Rightarrow> doc_totals" where
  "add_totals a b =
     \<lparr>totalExcludingTax = totalExcludingTax a + totalExcludingTax b, totalVat = totalVat a + totalVat b,
      totalIncludingTax = totalIncludingTax a + totalIncludingTax b\<rparr>"

definition zero_totals :: doc_totals where
  "zero_totals = \<lparr>totalExcludingTax = 0, totalVat = 0, totalIncludingTax = 0\<rparr>"

definition new_DailyAccumulator :: daily_accumulator where
  "new_DailyAccumulator = \<lparr>acc_byDay = [], acc_count = 0, acc_totals = zero_totals\<rparr>"

definition accumulator_add :: "date \<Rightarrow> doc_totals \<Rightarrow> daily_accumulator \<Rightarrow> daily_accumulator" where
  "accumulator_add date totals acc =
     (let key = dayKey date;
          point = (case map_of (acc_byDay acc) key of
              None \<Rightarrow> \<lparr>rdp_date = key, rdp_count = 0, rdp_totals = zero_totals\<rparr> | Some p \<Rightarrow> p);
          point' = point\<lparr>rdp_count := rdp_count point + 1, rdp_totals := add_totals (rdp_totals point) totals\<rparr>
      in \<lparr>acc_byDay = AList.update key point' (acc_byDay acc), acc_count = acc_count acc + 1,
          acc_totals = add_totals (acc_totals acc) totals\<rparr>)"

record report_view =
  rv_dateFrom :: date
  rv_dateTo :: date
  rv_count :: nat
  rv_totals :: doc_totals
  rv_byDay :: "report_daily_point list"

definition accumulator_build :: "(string \<Rightarrow> 'k::linorder) \<Rightarrow> date \<Rightarrow> date \<Rightarrow> daily_accumulator \<Rightarrow> report_view" where
  "accumulator_build collate dateFrom dateTo acc =
     \<lparr>rv_dateFrom = dateFrom, rv_dateTo = dateTo, rv_count = acc_count acc, rv_totals = acc_totals acc,
      rv_byDay = ascending (\<lambda>p. collate (rdp_date p)) (map snd (acc_byDay acc))\<rparr>"

section \<open>The reports\<close>

definition sale_in_period :: "uuid \<Rightarrow> date \<Rightarrow> date \<Rightarrow> sale \<Rightarrow> bool" where
  "sale_in_period enterpriseId dateFrom dateTo v \<longleftrightarrow> sale_enterpriseId v = enterpriseId \<and>
     sale_status v = Sale_CONFIRMED \<and> dateFrom \<le> sale_saleDate v \<and> sale_saleDate v \<le> dateTo"

definition salesReport ::
    "(string \<Rightarrow> 'k::linorder) \<Rightarrow> date \<Rightarrow> uuid \<Rightarrow> report_period_query \<Rightarrow> db \<Rightarrow> report_view" where
  "salesReport collate now enterpriseId query s =
     (let dateFrom = given (rq_dateFrom query) (startOfCurrentMonth now);
          dateTo = given (rq_dateTo query) now;
          found = filter (sale_in_period enterpriseId dateFrom dateTo) (sales s);
          acc = foldl (\<lambda>acc v. accumulator_add (sale_saleDate v) (reduce_totals (map sale_line_totals (sale_lines v))) acc)
                  new_DailyAccumulator found
      in accumulator_build collate dateFrom dateTo acc)"

definition purchase_in_period :: "uuid \<Rightarrow> date \<Rightarrow> date \<Rightarrow> purchase \<Rightarrow> bool" where
  "purchase_in_period enterpriseId dateFrom dateTo v \<longleftrightarrow> purchase_enterpriseId v = enterpriseId \<and>
     purchase_status v = Purchase_CONFIRMED \<and> dateFrom \<le> purchase_purchaseDate v \<and> purchase_purchaseDate v \<le> dateTo"

definition purchasesReport ::
    "(string \<Rightarrow> 'k::linorder) \<Rightarrow> date \<Rightarrow> uuid \<Rightarrow> report_period_query \<Rightarrow> db \<Rightarrow> report_view" where
  "purchasesReport collate now enterpriseId query s =
     (let dateFrom = given (rq_dateFrom query) (startOfCurrentMonth now);
          dateTo = given (rq_dateTo query) now;
          found = filter (purchase_in_period enterpriseId dateFrom dateTo) (purchases s);
          acc = foldl (\<lambda>acc v. accumulator_add (purchase_purchaseDate v)
                    (reduce_totals (map purchase_line_totals (purchase_lines v))) acc)
                  new_DailyAccumulator found
      in accumulator_build collate dateFrom dateTo acc)"

section \<open>The income statement\<close>

record income_statement_line =
  isl_accountId :: uuid
  isl_accountCode :: string
  isl_accountLabel :: string
  isl_amount :: int

record income_statement_view =
  is_dateFrom :: date
  is_dateTo :: date
  is_totalRevenue :: int
  is_totalExpenses :: int
  is_netResult :: int
  is_revenueByAccount :: "income_statement_line list"
  is_expensesByAccount :: "income_statement_line list"

record account_sums =
  as_accountCode :: string
  as_accountLabel :: string
  as_debit :: int
  as_credit :: int

definition startsWith :: "char \<Rightarrow> string \<Rightarrow> bool" where
  "startsWith c code = (take 1 code = [c])"

text \<open>\<open>findMany\<close> with \<open>include: \{ account \}\<close>: the lines of the period with the account they refer to.\<close>

definition statement_lines :: "uuid \<Rightarrow> date \<Rightarrow> date \<Rightarrow> db \<Rightarrow> (journal_line \<times> account) list" where
  "statement_lines enterpriseId dateFrom dateTo s =
     concat (map (\<lambda>entry. List.map_filter (\<lambda>line.
         case find_by account_id (journalLine_accountId line) (accounts s) of
           None \<Rightarrow> None
         | Some account \<Rightarrow>
             if journalLine_enterpriseId line = enterpriseId \<and>
                (startsWith CHR ''6'' (account_code account) \<or> startsWith CHR ''7'' (account_code account))
             then Some (line, account) else None) (journalEntry_lines entry))
       (filter (\<lambda>entry. dateFrom \<le> journalEntry_entryDate entry \<and> journalEntry_entryDate entry \<le> dateTo)
          (journalEntries s)))"

definition add_statement_line ::
    "(uuid \<times> account_sums) list \<Rightarrow> journal_line \<times> account \<Rightarrow> (uuid \<times> account_sums) list" where
  "add_statement_line byAccount la = (case la of (line, account) \<Rightarrow>
     let entry = (case map_of byAccount (journalLine_accountId line) of
           None \<Rightarrow> \<lparr>as_accountCode = account_code account, as_accountLabel = account_label account, as_debit = 0, as_credit = 0\<rparr>
         | Some e \<Rightarrow> e)
     in AList.update (journalLine_accountId line)
          (entry\<lparr>as_debit := as_debit entry + journalLine_debitAmount line,
                 as_credit := as_credit entry + journalLine_creditAmount line\<rparr>) byAccount)"

definition incomeStatement ::
    "(string \<Rightarrow> 'k::linorder) \<Rightarrow> date \<Rightarrow> uuid \<Rightarrow> report_period_query \<Rightarrow> db \<Rightarrow> income_statement_view" where
  "incomeStatement collate now enterpriseId query s =
     (let dateFrom = given (rq_dateFrom query) (startOfCurrentYear now);
          dateTo = given (rq_dateTo query) now;
          byAccount = foldl add_statement_line [] (statement_lines enterpriseId dateFrom dateTo s);
          revenue = map (\<lambda>(accountId, e). \<lparr>isl_accountId = accountId, isl_accountCode = as_accountCode e,
                       isl_accountLabel = as_accountLabel e, isl_amount = as_credit e - as_debit e\<rparr>)
                      (filter (\<lambda>(accountId, e). startsWith CHR ''7'' (as_accountCode e)) byAccount);
          expenses = map (\<lambda>(accountId, e). \<lparr>isl_accountId = accountId, isl_accountCode = as_accountCode e,
                       isl_accountLabel = as_accountLabel e, isl_amount = as_debit e - as_credit e\<rparr>)
                      (filter (\<lambda>(accountId, e). \<not> startsWith CHR ''7'' (as_accountCode e)) byAccount);
          revenueByAccount = ascending (\<lambda>l. collate (isl_accountCode l)) revenue;
          expensesByAccount = ascending (\<lambda>l. collate (isl_accountCode l)) expenses;
          totalRevenue = foldl (\<lambda>sum line. sum + isl_amount line) 0 revenueByAccount;
          totalExpenses = foldl (\<lambda>sum line. sum + isl_amount line) 0 expensesByAccount
      in \<lparr>is_dateFrom = dateFrom, is_dateTo = dateTo, is_totalRevenue = totalRevenue,
          is_totalExpenses = totalExpenses, is_netResult = totalRevenue - totalExpenses,
          is_revenueByAccount = revenueByAccount, is_expensesByAccount = expensesByAccount\<rparr>)"

section \<open>Updating an association list\<close>

lemma sum_update:
  fixes f :: "'k \<times> 'v \<Rightarrow> int"
  assumes "distinct (map fst al)"
  shows "(\<Sum>x\<leftarrow>AList.update k v al. f x) =
    (\<Sum>x\<leftarrow>al. f x) + f (k, v) - (case map_of al k of None \<Rightarrow> 0 | Some w \<Rightarrow> f (k, w))"
  using assms
proof (induction al)
  case Nil
  then show ?case by simp
next
  case (Cons x al)
  then show ?case by (cases x) (auto split: option.splits dest: map_of_SomeD)
qed

section \<open>The points are the days\<close>

definition sum_totals :: "doc_totals list \<Rightarrow> doc_totals" where
  "sum_totals ts =
     \<lparr>totalExcludingTax = (\<Sum>t\<leftarrow>ts. totalExcludingTax t), totalVat = (\<Sum>t\<leftarrow>ts. totalVat t),
      totalIncludingTax = (\<Sum>t\<leftarrow>ts. totalIncludingTax t)\<rparr>"

lemma add_totals_simps [simp]:
  "totalExcludingTax (add_totals a b) = totalExcludingTax a + totalExcludingTax b"
  "totalVat (add_totals a b) = totalVat a + totalVat b"
  "totalIncludingTax (add_totals a b) = totalIncludingTax a + totalIncludingTax b"
  "totalExcludingTax zero_totals = 0" "totalVat zero_totals = 0" "totalIncludingTax zero_totals = 0"
  "sum_totals [] = zero_totals" "sum_totals (ts @ [t]) = add_totals (sum_totals ts) t"
  by (simp_all add: add_totals_def zero_totals_def sum_totals_def)

definition point_of_key :: "(date \<times> doc_totals) list \<Rightarrow> string \<Rightarrow> report_daily_point" where
  "point_of_key xs k = (let day = filter (\<lambda>x. dayKey (fst x) = k) xs
     in \<lparr>rdp_date = k, rdp_count = length day, rdp_totals = sum_totals (map snd day)\<rparr>)"

definition accumulated :: "(date \<times> doc_totals) list \<Rightarrow> daily_accumulator" where
  "accumulated xs = foldl (\<lambda>acc x. accumulator_add (fst x) (snd x) acc) new_DailyAccumulator xs"

lemma accumulated_snoc: "accumulated (xs @ [x]) = accumulator_add (fst x) (snd x) (accumulated xs)"
  by (simp add: accumulated_def)

lemma accumulated_byDay:
  "distinct (map fst (acc_byDay (accumulated xs))) \<and>
   map_of (acc_byDay (accumulated xs)) k = (if k \<in> dayKey ` fst ` set xs then Some (point_of_key xs k) else None)"
proof (induction xs arbitrary: k rule: rev_induct)
  case Nil
  then show ?case by (simp add: accumulated_def new_DailyAccumulator_def)
next
  case (snoc x xs)
  have none: "k \<notin> dayKey ` fst ` set xs \<Longrightarrow> point_of_key xs k = \<lparr>rdp_date = k, rdp_count = 0, rdp_totals = zero_totals\<rparr>" for k
  proof -
    assume "k \<notin> dayKey ` fst ` set xs"
    then have "filter (\<lambda>x. dayKey (fst x) = k) xs = []" by (force simp: filter_empty_conv)
    then show ?thesis by (simp add: point_of_key_def)
  qed
  have step: "point_of_key (xs @ [x]) (dayKey (fst x)) = (point_of_key xs (dayKey (fst x)))
      \<lparr>rdp_count := rdp_count (point_of_key xs (dayKey (fst x))) + 1,
       rdp_totals := add_totals (rdp_totals (point_of_key xs (dayKey (fst x)))) (snd x)\<rparr>"
    by (simp add: point_of_key_def Let_def)
  have other: "k \<noteq> dayKey (fst x) \<Longrightarrow> point_of_key (xs @ [x]) k = point_of_key xs k" for k
    by (simp add: point_of_key_def Let_def)
  show ?case
    using snoc.IH[of k] snoc.IH[of "dayKey (fst x)"] none[of "dayKey (fst x)"] other[of k] step
    by (auto simp: accumulated_snoc accumulator_add_def Let_def update_conv' distinct_update)
qed

lemma accumulated_totals:
  "acc_count (accumulated xs) = length xs" "acc_totals (accumulated xs) = sum_totals (map snd xs)"
  by (induction xs rule: rev_induct)
    (simp_all add: accumulated_snoc accumulator_add_def Let_def, simp_all add: accumulated_def new_DailyAccumulator_def)

lemma set_byDay:
  "set (map snd (acc_byDay (accumulated xs))) = point_of_key xs ` dayKey ` fst ` set xs"
proof -
  let ?al = "acc_byDay (accumulated xs)"
  have d: "distinct (map fst ?al)" using accumulated_byDay by blast
  have "snd ` set ?al = ran (map_of ?al)" by (simp add: ran_distinct[OF d])
  also have "\<dots> = point_of_key xs ` dayKey ` fst ` set xs"
    using accumulated_byDay[of xs] by (auto simp: ran_def split: if_splits)
  finally show ?thesis by simp
qed

lemma byDay_dates: "map rdp_date (map snd (acc_byDay (accumulated xs))) = map fst (acc_byDay (accumulated xs))"
proof -
  have "rdp_date (snd x) = fst x" if "x \<in> set (acc_byDay (accumulated xs))" for x
  proof -
    have "snd x = point_of_key xs (fst x)"
      using accumulated_byDay[of xs "fst x"] map_of_is_SomeI[of "acc_byDay (accumulated xs)" "fst x" "snd x"] that
      by (auto split: if_splits)
    then show ?thesis by (simp add: point_of_key_def Let_def)
  qed
  then show ?thesis by simp
qed

lemma byDay_sums:
  fixes f :: "report_daily_point \<Rightarrow> int"
  assumes "\<And>p t. f (p\<lparr>rdp_count := rdp_count p + 1, rdp_totals := add_totals (rdp_totals p) t\<rparr>) = f p + g t"
    and "\<And>k. f \<lparr>rdp_date = k, rdp_count = 0, rdp_totals = zero_totals\<rparr> = 0"
  shows "(\<Sum>p\<leftarrow>map snd (acc_byDay (accumulated xs)). f p) = (\<Sum>x\<leftarrow>xs. g (snd x))"
proof (induction xs rule: rev_induct)
  case Nil
  then show ?case by (simp add: accumulated_def new_DailyAccumulator_def)
next
  case (snoc x xs)
  have d: "distinct (map fst (acc_byDay (accumulated xs)))" using accumulated_byDay by blast
  show ?case
    using snoc sum_update[OF d, of "\<lambda>x. f (snd x)"]
    by (auto simp: accumulated_snoc accumulator_add_def Let_def o_def assms[simplified] split: option.splits)
qed

definition build_spec :: "(date \<times> doc_totals) list \<Rightarrow> report_view \<Rightarrow> bool" where
  "build_spec xs r \<longleftrightarrow> rv_count r = length xs \<and> rv_totals r = sum_totals (map snd xs) \<and>
     distinct (map rdp_date (rv_byDay r)) \<and>
     set (rv_byDay r) = (\<lambda>x. let day = filter (\<lambda>y. Day (fst y) = Day (fst x)) xs
        in \<lparr>rdp_date = dayKey (fst x), rdp_count = length day, rdp_totals = sum_totals (map snd day)\<rparr>) ` set xs \<and>
     (\<Sum>p\<leftarrow>rv_byDay r. int (rdp_count p)) = int (rv_count r) \<and>
     sum_totals (map rdp_totals (rv_byDay r)) = rv_totals r"

lemma sum_ascending: "(\<Sum>p\<leftarrow>ascending k ps. f p) = (\<Sum>p\<leftarrow>ps. (f p :: int))"
  by (simp only: ascending_def sum_mset_sum_list[symmetric] mset_map mset_sort)

lemma build_correct:
  assumes "\<forall>x\<in>set xs. four_digit_year (fst x)"
  shows "build_spec xs (accumulator_build collate a b (accumulated xs))"
proof -
  let ?r = "accumulator_build collate a b (accumulated xs)" and ?al = "acc_byDay (accumulated xs)"
  have day: "rv_byDay ?r = ascending (\<lambda>p. collate (rdp_date p)) (map snd ?al)" by (simp add: accumulator_build_def)
  have "distinct (map fst ?al)" using accumulated_byDay by blast
  then have "distinct (map rdp_date (map snd ?al))" unfolding byDay_dates .
  moreover have "mset (map rdp_date (rv_byDay ?r)) = mset (map rdp_date (map snd ?al))"
    by (simp only: day mset_map ascending_def mset_sort)
  ultimately have dist: "distinct (map rdp_date (rv_byDay ?r))" using mset_eq_imp_distinct_iff by blast
  have pt: "point_of_key xs (dayKey (fst x)) = (let day = filter (\<lambda>y. Day (fst y) = Day (fst x)) xs
        in \<lparr>rdp_date = dayKey (fst x), rdp_count = length day, rdp_totals = sum_totals (map snd day)\<rparr>)"
    if "x \<in> set xs" for x
  proof -
    have "filter (\<lambda>y. dayKey (fst y) = dayKey (fst x)) xs = filter (\<lambda>y. Day (fst y) = Day (fst x)) xs"
      using assms that by (intro filter_cong) (auto simp: dayKey_iff)
    then show ?thesis by (simp add: point_of_key_def)
  qed
  have "set (rv_byDay ?r) = (\<lambda>x. point_of_key xs (dayKey (fst x))) ` set xs"
    unfolding day set_ascending set_byDay image_image ..
  also have "\<dots> = (\<lambda>x. let day = filter (\<lambda>y. Day (fst y) = Day (fst x)) xs
        in \<lparr>rdp_date = dayKey (fst x), rdp_count = length day, rdp_totals = sum_totals (map snd day)\<rparr>) ` set xs"
    using pt by (rule image_cong[OF refl])
  finally have points: "set (rv_byDay ?r) = \<dots>" .
  have sums: "(\<Sum>p\<leftarrow>rv_byDay ?r. int (rdp_count p)) = (\<Sum>x\<leftarrow>xs. 1)"
    "(\<Sum>p\<leftarrow>rv_byDay ?r. totalExcludingTax (rdp_totals p)) = (\<Sum>x\<leftarrow>xs. totalExcludingTax (snd x))"
    "(\<Sum>p\<leftarrow>rv_byDay ?r. totalVat (rdp_totals p)) = (\<Sum>x\<leftarrow>xs. totalVat (snd x))"
    "(\<Sum>p\<leftarrow>rv_byDay ?r. totalIncludingTax (rdp_totals p)) = (\<Sum>x\<leftarrow>xs. totalIncludingTax (snd x))"
    unfolding day sum_ascending by (rule byDay_sums; simp)+
  then show ?thesis
    using dist points unfolding build_spec_def
    by (simp add: sum_totals_def o_def sum_list_triv) (simp add: accumulator_build_def accumulated_totals sum_totals_def o_def)
qed

section \<open>The income statement is the journal\<close>

definition period_lines :: "uuid \<Rightarrow> date \<Rightarrow> date \<Rightarrow> db \<Rightarrow> journal_line list" where
  "period_lines e dateFrom dateTo s = concat (map journalEntry_lines (filter (\<lambda>entry.
     journalEntry_enterpriseId entry = e \<and> dateFrom \<le> journalEntry_entryDate entry \<and> journalEntry_entryDate entry \<le> dateTo)
     (journalEntries s)))"

definition account_class :: "char \<Rightarrow> db \<Rightarrow> journal_line \<Rightarrow> bool" where
  "account_class c s l = (case find_by account_id (journalLine_accountId l) (accounts s) of
     None \<Rightarrow> False | Some a \<Rightarrow> startsWith c (account_code a))"

lemma startsWith_disjoint: "startsWith CHR ''6'' v \<Longrightarrow> startsWith CHR ''7'' v \<Longrightarrow> False"
  by (simp add: startsWith_def)

lemma statement_lines_eq:
  assumes "accounting_wf s"
  shows "statement_lines e a b s = map (\<lambda>l. (l, the (find_by account_id (journalLine_accountId l) (accounts s))))
     (filter (\<lambda>l. account_class CHR ''6'' s l \<or> account_class CHR ''7'' s l) (period_lines e a b s))"
proof -
  let ?g = "\<lambda>line. case find_by account_id (journalLine_accountId line) (accounts s) of
           None \<Rightarrow> None
         | Some account \<Rightarrow>
             if journalLine_enterpriseId line = e \<and>
                (startsWith CHR ''6'' (account_code account) \<or> startsWith CHR ''7'' (account_code account))
             then Some (line, account) else None"
  let ?h = "\<lambda>l. (l, the (find_by account_id (journalLine_accountId l) (accounts s)))"
  let ?c = "\<lambda>l. account_class CHR ''6'' s l \<or> account_class CHR ''7'' s l"
  have mine: "List.map_filter ?g ls = map ?h (filter ?c ls)" if "\<forall>l\<in>set ls. journalLine_enterpriseId l = e" for ls
    using that by (induction ls) (auto simp: map_filter_simps account_class_def split: option.splits)
  have foreign: "List.map_filter ?g ls = []" if "\<forall>l\<in>set ls. journalLine_enterpriseId l \<noteq> e" for ls
    using that by (induction ls) (auto simp: map_filter_simps split: option.splits)
  have wf: "\<forall>r\<in>set (journalEntries s). \<forall>l\<in>set (journalEntry_lines r). journalLine_enterpriseId l = journalEntry_enterpriseId r"
    using assms by (auto simp: accounting_wf_def entry_wf_def)
  have "concat (map (\<lambda>r. List.map_filter ?g (journalEntry_lines r))
         (filter (\<lambda>r. a \<le> journalEntry_entryDate r \<and> journalEntry_entryDate r \<le> b) rs)) =
      map ?h (filter ?c (concat (map journalEntry_lines
         (filter (\<lambda>r. journalEntry_enterpriseId r = e \<and> a \<le> journalEntry_entryDate r \<and> journalEntry_entryDate r \<le> b) rs))))"
    if "\<forall>r\<in>set rs. \<forall>l\<in>set (journalEntry_lines r). journalLine_enterpriseId l = journalEntry_enterpriseId r" for rs
    using that by (induction rs) (auto simp: mine foreign)
  from this[OF wf] show ?thesis by (simp only: statement_lines_def period_lines_def)
qed

text \<open>
  Adding the lines account by account keeps, for a class of accounts, the sum of the amounts: all
  lines of an account carry the same code.
\<close>

lemma add_statement_line_eq:
  "map_of al (journalLine_accountId line) = None \<Longrightarrow> add_statement_line al (line, account) =
     AList.update (journalLine_accountId line) \<lparr>as_accountCode = account_code account, as_accountLabel = account_label account,
       as_debit = journalLine_debitAmount line, as_credit = journalLine_creditAmount line\<rparr> al"
  "map_of al (journalLine_accountId line) = Some e \<Longrightarrow> add_statement_line al (line, account) =
     AList.update (journalLine_accountId line) (e\<lparr>as_debit := as_debit e + journalLine_debitAmount line,
       as_credit := as_credit e + journalLine_creditAmount line\<rparr>) al"
  by (simp_all add: add_statement_line_def)

lemma set_update_subset: "set (AList.update k v al) \<subseteq> insert (k, v) (set al)"
  by (induction al) auto

definition statement_sum :: "(string \<Rightarrow> bool) \<Rightarrow> (int \<Rightarrow> int \<Rightarrow> int) \<Rightarrow> (uuid \<times> account_sums) list \<Rightarrow> int" where
  "statement_sum P f al = (\<Sum>x\<leftarrow>al. if P (as_accountCode (snd x)) then f (as_debit (snd x)) (as_credit (snd x)) else 0)"

lemma add_statement_line_sum:
  assumes "\<And>d c d' c'. f (d + d') (c + c') = f d c + f d' c'" and "distinct (map fst al)"
    and "\<forall>(i, e)\<in>set al. as_accountCode e = as_code i" and "as_code (journalLine_accountId line) = account_code account"
  shows "distinct (map fst (add_statement_line al (line, account)))"
    and "\<forall>(i, e)\<in>set (add_statement_line al (line, account)). as_accountCode e = as_code i"
    and "statement_sum P f (add_statement_line al (line, account)) = statement_sum P f al +
      (if P (account_code account) then f (journalLine_debitAmount line) (journalLine_creditAmount line) else 0)"
proof -
  let ?i = "journalLine_accountId line"
  have f0: "f 0 0 = 0" using assms(1)[of 0 0 0 0] by simp
  note up = sum_update[OF assms(2), of "\<lambda>x. if P (as_accountCode (snd x)) then f (as_debit (snd x)) (as_credit (snd x)) else 0" ?i]
  have "distinct (map fst (add_statement_line al (line, account))) \<and>
    (\<forall>(i, e)\<in>set (add_statement_line al (line, account)). as_accountCode e = as_code i) \<and>
    statement_sum P f (add_statement_line al (line, account)) = statement_sum P f al +
      (if P (account_code account) then f (journalLine_debitAmount line) (journalLine_creditAmount line) else 0)"
  proof (cases "map_of al ?i")
    case None
    with assms(2-4) set_update_subset[of ?i _ al] up f0 show ?thesis
      by (fastforce simp: add_statement_line_eq(1) statement_sum_def distinct_update)
  next
    case (Some e)
    from bspec[OF assms(3) map_of_SomeD[OF this]] assms(4) have "as_accountCode e = account_code account" by simp
    with Some assms(2-4) set_update_subset[of ?i _ al] up f0 show ?thesis
      by (fastforce simp: add_statement_line_eq(2) statement_sum_def distinct_update assms(1))
  qed
  then show "distinct (map fst (add_statement_line al (line, account)))"
    and "\<forall>(i, e)\<in>set (add_statement_line al (line, account)). as_accountCode e = as_code i"
    and "statement_sum P f (add_statement_line al (line, account)) = statement_sum P f al +
      (if P (account_code account) then f (journalLine_debitAmount line) (journalLine_creditAmount line) else 0)"
    by blast+
qed

lemma statement_sums:
  assumes "\<And>d c d' c'. f (d + d') (c + c') = f d c + f d' c'"
    and "\<forall>la\<in>set las. as_code (journalLine_accountId (fst la)) = account_code (snd la)"
  shows "statement_sum P f (foldl add_statement_line [] las) =
    (\<Sum>la\<leftarrow>las. if P (account_code (snd la)) then f (journalLine_debitAmount (fst la)) (journalLine_creditAmount (fst la)) else 0)"
proof -
  have "statement_sum P f (foldl add_statement_line al las) = statement_sum P f al +
    (\<Sum>la\<leftarrow>las. if P (account_code (snd la)) then f (journalLine_debitAmount (fst la)) (journalLine_creditAmount (fst la)) else 0)"
    if "distinct (map fst al)" "\<forall>(i, e)\<in>set al. as_accountCode e = as_code i" for al
    using that assms(2)
  proof (induction las arbitrary: al)
    case Nil
    then show ?case by simp
  next
    case (Cons la las)
    obtain line account where la: "la = (line, account)" by (cases la)
    have c: "as_code (journalLine_accountId line) = account_code account" using Cons.prems(3) la by simp
    note step = add_statement_line_sum[where f = f and as_code = as_code, OF assms(1) Cons.prems(1,2) c]
    show ?case using Cons.IH[OF step(1,2)] Cons.prems(3) step(3) by (simp add: la)
  qed
  from this[of "[]"] show ?thesis by (simp add: statement_sum_def)
qed

lemma sum_filter_if: "(\<Sum>x\<leftarrow>filter P xs. f x) = (\<Sum>x\<leftarrow>xs. if P x then f x else (0::int))"
  by (induction xs) auto

lemma incomeStatement_totals:
  assumes "accounting_wf s" and "a = given (rq_dateFrom query) (startOfCurrentYear now)"
    and "b = given (rq_dateTo query) now"
  shows "is_totalRevenue (incomeStatement collate now e query s) =
      (\<Sum>l\<leftarrow>filter (account_class CHR ''7'' s) (period_lines e a b s). journalLine_creditAmount l - journalLine_debitAmount l)"
    and "is_totalExpenses (incomeStatement collate now e query s) =
      (\<Sum>l\<leftarrow>filter (account_class CHR ''6'' s) (period_lines e a b s). journalLine_debitAmount l - journalLine_creditAmount l)"
proof -
  let ?las = "statement_lines e a b s" and ?al = "foldl add_statement_line [] (statement_lines e a b s)"
  let ?code = "\<lambda>i. account_code (the (find_by account_id i (accounts s)))"
  let ?c6 = "account_class CHR ''6'' s" and ?c7 = "account_class CHR ''7'' s"
  have code: "\<forall>la\<in>set ?las. ?code (journalLine_accountId (fst la)) = account_code (snd la)"
    by (auto simp: statement_lines_eq[OF assms(1)])
  have found: "find_by account_id (journalLine_accountId l) (accounts s) \<noteq> None" if "l \<in> set (period_lines e a b s)" for l
    using assms(1) that by (auto simp: period_lines_def accounting_wf_def entry_wf_def dest!: owned_SomeD)
  have 6: "(\<not> startsWith CHR ''7'' (?code (journalLine_accountId l)) \<and> (?c6 l \<or> ?c7 l)) = ?c6 l"
    and 7: "(startsWith CHR ''7'' (?code (journalLine_accountId l)) \<and> (?c6 l \<or> ?c7 l)) = ?c7 l"
    if "l \<in> set (period_lines e a b s)" for l
    using found[OF that] by (auto simp: account_class_def startsWith_def split: option.splits)
  have split: "(\<Sum>la\<leftarrow>?las. if P (account_code (snd la)) then g (fst la) else 0) =
      (\<Sum>l\<leftarrow>filter (\<lambda>l. P (?code (journalLine_accountId l)) \<and> (?c6 l \<or> ?c7 l)) (period_lines e a b s). g l)"
    for P and g :: "journal_line \<Rightarrow> int"
    by (simp add: statement_lines_eq[OF assms(1)] sum_filter_if o_def) (rule arg_cong[where f = sum_list], simp)
  have "is_totalRevenue (incomeStatement collate now e query s) =
      statement_sum (startsWith CHR ''7'') (\<lambda>d c. c - d) ?al"
    by (simp add: incomeStatement_def Let_def assms(2,3)[symmetric] foldl_sum sum_ascending o_def case_prod_unfold sum_filter_if statement_sum_def)
  also have "\<dots> = (\<Sum>l\<leftarrow>filter ?c7 (period_lines e a b s). journalLine_creditAmount l - journalLine_debitAmount l)"
    using 7 split[of "startsWith CHR ''7''" "\<lambda>l. journalLine_creditAmount l - journalLine_debitAmount l"]
    by (subst statement_sums[OF _ code]) (simp_all cong: filter_cong)
  finally show "is_totalRevenue (incomeStatement collate now e query s) = \<dots>" .
  have "is_totalExpenses (incomeStatement collate now e query s) =
      statement_sum (\<lambda>v. \<not> startsWith CHR ''7'' v) (\<lambda>d c. d - c) ?al"
    by (simp add: incomeStatement_def Let_def assms(2,3)[symmetric] foldl_sum sum_ascending o_def case_prod_unfold sum_filter_if statement_sum_def)
  also have "\<dots> = (\<Sum>l\<leftarrow>filter ?c6 (period_lines e a b s). journalLine_debitAmount l - journalLine_creditAmount l)"
    using 6 split[of "\<lambda>v. \<not> startsWith CHR ''7'' v" "\<lambda>l. journalLine_debitAmount l - journalLine_creditAmount l"]
    by (subst statement_sums[OF _ code]) (simp_all cong: filter_cong)
  finally show "is_totalExpenses (incomeStatement collate now e query s) = \<dots>" .
qed

lemma period_lines_balance:
  assumes "accounting_wf s"
  shows "(\<Sum>l\<leftarrow>period_lines e a b s. journalLine_debitAmount l - journalLine_creditAmount l) = 0"
proof -
  have "(\<Sum>l\<leftarrow>concat (map journalEntry_lines rs). journalLine_debitAmount l - journalLine_creditAmount l) = 0"
    if "\<forall>r\<in>set rs. entry_debit r = entry_credit r" for rs
    using that by (induction rs) (simp_all add: sum_list_subtractf entry_debit_def entry_credit_def)
  then show ?thesis unfolding period_lines_def using assms by (auto simp: accounting_wf_def entry_wf_def)
qed

section \<open>Properties\<close>

text \<open>
  The sales and purchases reports: over the confirmed documents of the period, the count and the
  totals are those of the documents; there is one point per UTC day with a document, and it carries
  the number and the totals of exactly the documents of that day; the points add up to the report.
\<close>

theorem reports_group_by_day:
  assumes "\<forall>v\<in>set (sales s). four_digit_year (sale_saleDate v)"
    and "\<forall>v\<in>set (purchases s). four_digit_year (purchase_purchaseDate v)"
    and "a = given (rq_dateFrom query) (startOfCurrentMonth now)" and "b = given (rq_dateTo query) now"
  shows "build_spec (map (\<lambda>v. (sale_saleDate v, reduce_totals (map sale_line_totals (sale_lines v))))
           (filter (sale_in_period e a b) (sales s))) (salesReport collate now e query s) \<and>
         build_spec (map (\<lambda>v. (purchase_purchaseDate v, reduce_totals (map purchase_line_totals (purchase_lines v))))
           (filter (purchase_in_period e a b) (purchases s))) (purchasesReport collate now e query s)"
proof
  let ?xs = "map (\<lambda>v. (sale_saleDate v, reduce_totals (map sale_line_totals (sale_lines v)))) (filter (sale_in_period e a b) (sales s))"
  have "salesReport collate now e query s = accumulator_build collate a b (accumulated ?xs)"
    by (simp add: salesReport_def Let_def assms(3,4)[symmetric] accumulated_def foldl_map)
  then show "build_spec ?xs (salesReport collate now e query s)"
    using build_correct[of ?xs] assms(1) by auto
  let ?ys = "map (\<lambda>v. (purchase_purchaseDate v, reduce_totals (map purchase_line_totals (purchase_lines v)))) (filter (purchase_in_period e a b) (purchases s))"
  have "purchasesReport collate now e query s = accumulator_build collate a b (accumulated ?ys)"
    by (simp add: purchasesReport_def Let_def assms(3,4)[symmetric] accumulated_def foldl_map)
  then show "build_spec ?ys (purchasesReport collate now e query s)"
    using build_correct[of ?ys] assms(2) by auto
qed

definition fx_report_db :: db where
  "fx_report_db = fx_db\<lparr>sales := map (\<lambda>(i, d, q). \<lparr>sale_id = i, sale_enterpriseId = ''e1'', sale_customerId = ''c1'',
     sale_status = Sale_CONFIRMED, sale_saleDate = d, sale_notes = None, sale_confirmedAt = Some 0, sale_cancelledAt = None,
     sale_idempotencyKey = None, sale_createdAt = 0, sale_updatedAt = 0,
     sale_lines = [\<lparr>saleLine_id = i, saleLine_enterpriseId = ''e1'', saleLine_productId = ''p1'',
       saleLine_quantity = q, saleLine_unitPriceExcludingTax = 1000, saleLine_vatRateBasisPoints = 1800\<rparr>]\<rparr>)
     [(''v1'', 1709164800000, 1), (''v2'', 1709251199999, 2), (''v3'', 1709251200000, 3)]\<rparr>"

lemma reports_group_by_day_witness:
  "rv_totals (salesReport length 1709300000000 ''e1'' \<lparr>rq_dateFrom = Some 0, rq_dateTo = None\<rparr> fx_report_db) =
     \<lparr>totalExcludingTax = 6000, totalVat = 1080, totalIncludingTax = 7080\<rparr> \<and>
   \<lparr>rdp_date = ''2024-02-29'', rdp_count = 2, rdp_totals = \<lparr>totalExcludingTax = 3000, totalVat = 540, totalIncludingTax = 3540\<rparr>\<rparr>
     \<in> set (rv_byDay (salesReport length 1709300000000 ''e1'' \<lparr>rq_dateFrom = Some 0, rq_dateTo = None\<rparr> fx_report_db))"
proof -
  let ?q = "\<lparr>rq_dateFrom = Some 0, rq_dateTo = None\<rparr>"
  have "\<forall>v\<in>set (sales fx_report_db). four_digit_year (sale_saleDate v)" by code_simp
  moreover have "\<forall>v\<in>set (purchases fx_report_db). four_digit_year (purchase_purchaseDate v)" by code_simp
  ultimately have spec: "build_spec (map (\<lambda>v. (sale_saleDate v, reduce_totals (map sale_line_totals (sale_lines v))))
      (filter (sale_in_period ''e1'' 0 1709300000000) (sales fx_report_db))) (salesReport length 1709300000000 ''e1'' ?q fx_report_db)"
    using reports_group_by_day[of fx_report_db 0 ?q 1709300000000 1709300000000 "''e1''" length] by (simp add: given_def)
  have xs: "map (\<lambda>v. (sale_saleDate v, reduce_totals (map sale_line_totals (sale_lines v))))
      (filter (sale_in_period ''e1'' 0 1709300000000) (sales fx_report_db)) =
      [(1709164800000, \<lparr>totalExcludingTax = 1000, totalVat = 180, totalIncludingTax = 1180\<rparr>),
       (1709251199999, \<lparr>totalExcludingTax = 2000, totalVat = 360, totalIncludingTax = 2360\<rparr>),
       (1709251200000, \<lparr>totalExcludingTax = 3000, totalVat = 540, totalIncludingTax = 3540\<rparr>)]" by code_simp
  have key: "dayKey 1709164800000 = ''2024-02-29''" by code_simp
  show ?thesis using spec unfolding xs build_spec_def by (simp add: Day_def msPerDay_def sum_totals_def key)
qed

text \<open>
  C28. The income statement is consistent with double entry: its revenue and its expenses are the
  sums of the period's lines on accounts of class 7 and 6, and its net result is what the other
  accounts (the balance sheet) gained over the period.
\<close>

theorem income_statement_balances:
  assumes "accounting_wf s" and "a = given (rq_dateFrom query) (startOfCurrentYear now)"
    and "b = given (rq_dateTo query) now"
  shows "let v = incomeStatement collate now e query s; lines = period_lines e a b s in
    is_totalRevenue v = (\<Sum>l\<leftarrow>filter (account_class CHR ''7'' s) lines. journalLine_creditAmount l - journalLine_debitAmount l) \<and>
    is_totalExpenses v = (\<Sum>l\<leftarrow>filter (account_class CHR ''6'' s) lines. journalLine_debitAmount l - journalLine_creditAmount l) \<and>
    is_netResult v = (\<Sum>l\<leftarrow>filter (\<lambda>l. \<not> account_class CHR ''6'' s l \<and> \<not> account_class CHR ''7'' s l) lines.
      journalLine_debitAmount l - journalLine_creditAmount l)"
proof -
  let ?v = "incomeStatement collate now e query s" and ?ls = "period_lines e a b s"
  let ?c6 = "account_class CHR ''6'' s" and ?c7 = "account_class CHR ''7'' s"
  note tot = incomeStatement_totals[OF assms, of collate e]
  have excl: "\<not> (?c6 l \<and> ?c7 l)" for l
    by (auto simp: account_class_def startsWith_def split: option.splits)
  have "(\<Sum>l\<leftarrow>ls. journalLine_debitAmount l - journalLine_creditAmount l) =
      (\<Sum>l\<leftarrow>filter ?c6 ls. journalLine_debitAmount l - journalLine_creditAmount l) -
      (\<Sum>l\<leftarrow>filter ?c7 ls. journalLine_creditAmount l - journalLine_debitAmount l) +
      (\<Sum>l\<leftarrow>filter (\<lambda>l. \<not> ?c6 l \<and> \<not> ?c7 l) ls. journalLine_debitAmount l - journalLine_creditAmount l)" for ls
  proof (induction ls)
    case (Cons l ls)
    then show ?case using excl[of l] by auto
  qed simp
  from this[of ?ls] period_lines_balance[OF assms(1), of e a b]
  have "is_totalRevenue ?v - is_totalExpenses ?v =
      (\<Sum>l\<leftarrow>filter (\<lambda>l. \<not> ?c6 l \<and> \<not> ?c7 l) ?ls. journalLine_debitAmount l - journalLine_creditAmount l)"
    unfolding tot by simp
  moreover have "is_netResult ?v = is_totalRevenue ?v - is_totalExpenses ?v" by (simp add: incomeStatement_def Let_def)
  ultimately show ?thesis using tot by (simp add: Let_def)
qed

lemma income_statement_balances_witness:
  "is_netResult (incomeStatement length 5 ''e1'' \<lparr>rq_dateFrom = Some 0, rq_dateTo = None\<rparr> fx_accounting_db) = 1180"
proof -
  have p: "period_lines ''e1'' 0 5 fx_accounting_db = journalEntry_lines fx_entry" by code_simp
  have f: "filter (\<lambda>l. \<not> account_class CHR ''6'' fx_accounting_db l \<and> \<not> account_class CHR ''7'' fx_accounting_db l)
      (journalEntry_lines fx_entry) = [hd (journalEntry_lines fx_entry)]" by code_simp
  show ?thesis
    using income_statement_balances[OF fx_accounting_db_wf(1), of 0 "\<lparr>rq_dateFrom = Some 0, rq_dateTo = None\<rparr>" 5 5 length "''e1''"]
    by (simp add: given_def Let_def p f) (simp add: fx_entry_def)
qed

end
