(* ===== verification/Access.thy ===== *)
theory Access
  imports Tenant
begin

text \<open>
  Who may do what: packages/permissions (the catalogue of permissions and the default roles),
  apps/api/src/common/guards/permissions.guard.ts, auth/guards and auth/token.service.ts. The JWT library is
  the pair of parameters \<open>jwt_sign\<close> and \<open>jwt_verify\<close> over the claims the code puts into tokens;
  roles live in their own record, next to the database of the other components.
\<close>

section \<open>Catalogue\<close>

type_synonym permission_key = string

definition PERMISSION_KEYS :: "permission_key list" where
  "PERMISSION_KEYS = [
     ''clients.read'', ''clients.create'', ''clients.update'', ''clients.delete'',
     ''suppliers.read'', ''suppliers.create'', ''suppliers.update'', ''suppliers.delete'',
     ''products.read'', ''products.create'', ''products.update'', ''products.delete'',
     ''sales.read'', ''sales.create'', ''sales.update'', ''sales.delete'',
     ''purchases.read'', ''purchases.create'', ''purchases.update'', ''purchases.delete'',
     ''invoicing.read'', ''invoicing.create'', ''invoicing.update'', ''invoicing.delete'',
     ''stock.read'', ''stock.create'', ''stock.update'', ''stock.delete'',
     ''accounting.read'', ''accounting.create'', ''accounting.update'',
     ''reports.read'', ''users.manage'', ''settings.manage'', ''billing.manage'']"

definition isPermissionKey :: "string \<Rightarrow> bool" where
  "isPermissionKey value \<longleftrightarrow> value \<in> set PERMISSION_KEYS"

datatype role_name = ADMIN | COMPTABLE | COMMERCIAL | CAISSIER | MAGASINIER | GESTIONNAIRE | LECTEUR

definition DEFAULT_ROLE_NAMES :: "role_name list" where
  "DEFAULT_ROLE_NAMES = [ADMIN, COMPTABLE, COMMERCIAL, CAISSIER, MAGASINIER, GESTIONNAIRE, LECTEUR]"

definition ALL_READ :: "permission_key list" where
  "ALL_READ = [''clients.read'', ''suppliers.read'', ''products.read'', ''sales.read'', ''purchases.read'',
     ''invoicing.read'', ''stock.read'', ''accounting.read'', ''reports.read'']"

definition ALL_PERMISSIONS :: "permission_key list" where
  "ALL_PERMISSIONS = [
     ''clients.read'', ''clients.create'', ''clients.update'', ''clients.delete'',
     ''suppliers.read'', ''suppliers.create'', ''suppliers.update'', ''suppliers.delete'',
     ''products.read'', ''products.create'', ''products.update'', ''products.delete'',
     ''sales.read'', ''sales.create'', ''sales.update'', ''sales.delete'',
     ''purchases.read'', ''purchases.create'', ''purchases.update'', ''purchases.delete'',
     ''invoicing.read'', ''invoicing.create'', ''invoicing.update'', ''invoicing.delete'',
     ''stock.read'', ''stock.create'', ''stock.update'', ''stock.delete'',
     ''accounting.read'', ''accounting.create'', ''accounting.update'',
     ''reports.read'', ''users.manage'', ''settings.manage'', ''billing.manage'']"

fun DEFAULT_ROLE_PERMISSIONS :: "role_name \<Rightarrow> permission_key list" where
  "DEFAULT_ROLE_PERMISSIONS ADMIN = ALL_PERMISSIONS"
| "DEFAULT_ROLE_PERMISSIONS COMPTABLE = [
     ''accounting.read'', ''accounting.create'', ''accounting.update'', ''reports.read'',
     ''clients.read'', ''suppliers.read'', ''sales.read'', ''purchases.read'',
     ''invoicing.read'', ''invoicing.create'', ''invoicing.update'', ''invoicing.delete'']"
| "DEFAULT_ROLE_PERMISSIONS COMMERCIAL = [''clients.read'', ''clients.create'', ''clients.update'', ''sales.read'',
     ''sales.create'', ''sales.update'', ''invoicing.read'', ''invoicing.create'', ''products.read'', ''reports.read'']"
| "DEFAULT_ROLE_PERMISSIONS CAISSIER = [''sales.read'', ''sales.create'', ''invoicing.read'', ''invoicing.create'',
     ''invoicing.update'', ''stock.read'', ''clients.read'']"
| "DEFAULT_ROLE_PERMISSIONS MAGASINIER = [''stock.read'', ''stock.create'', ''stock.update'', ''stock.delete'',
     ''products.read'', ''products.update'', ''purchases.read'', ''suppliers.read'']"
| "DEFAULT_ROLE_PERMISSIONS GESTIONNAIRE = [
     ''clients.read'', ''clients.create'', ''clients.update'', ''clients.delete'',
     ''suppliers.read'', ''suppliers.create'', ''suppliers.update'', ''suppliers.delete'',
     ''products.read'', ''products.create'', ''products.update'', ''products.delete'',
     ''sales.read'', ''sales.create'', ''sales.update'', ''sales.delete'',
     ''purchases.read'', ''purchases.create'', ''purchases.update'', ''purchases.delete'',
     ''invoicing.read'', ''invoicing.create'', ''invoicing.update'', ''invoicing.delete'',
     ''stock.read'', ''stock.create'', ''stock.update'', ''stock.delete'',
     ''accounting.read'', ''reports.read'']"
| "DEFAULT_ROLE_PERMISSIONS LECTEUR = ALL_READ"

section \<open>Roles of an enterprise\<close>

text \<open>A permission is its identifier in \<open>permissions\<close>; \<open>rolePermissions\<close> and \<open>userRoles\<close> join them.\<close>

record role =
  role_id :: uuid
  role_enterpriseId :: uuid
  role_label :: string
  role_isSystem :: bool

record rbac =
  permissions :: "(uuid \<times> permission_key) list"
  roles :: "role list"
  rolePermissions :: "(uuid \<times> uuid) list"
  userRoles :: "(uuid \<times> uuid) list"

record authenticated_user =
  au_id :: uuid
  au_enterpriseId :: "uuid option"
  au_isSuperAdmin :: bool

definition grant_count :: "uuid \<Rightarrow> uuid \<Rightarrow> permission_key \<Rightarrow> rbac \<Rightarrow> nat" where
  "grant_count enterpriseId userId required r = length (filter (\<lambda>(roleId, permissionId).
     (\<exists>p\<in>set (permissions r). p = (permissionId, required)) \<and>
     (\<exists>role\<in>set (roles r). role_id role = roleId \<and> role_enterpriseId role = enterpriseId) \<and>
     (\<exists>ur\<in>set (userRoles r). ur = (userId, roleId))) (rolePermissions r))"

text \<open>
  The decorators of the handler and of its class arrive as \<open>required\<close> and \<open>exempted\<close>; the query runs
  on the rows of the tenant of the request.
\<close>

definition PermissionsGuard_canActivate ::
    "tenant_store option \<Rightarrow> permission_key option \<Rightarrow> bool \<Rightarrow> authenticated_user option \<Rightarrow> rbac \<Rightarrow> exn + unit" where
  "PermissionsGuard_canActivate store required exempted user r =
     (if \<not> truthy required
      then if exempted then Inr () else Inl (ForbiddenException ''Permission refusee'')
      else case user of
        None \<Rightarrow> Inl (ForbiddenException ''Permission refusee'')
      | Some u \<Rightarrow>
          if \<not> truthy (au_enterpriseId u) then Inl (ForbiddenException ''Permission refusee'')
          else (case getRequiredTenantId store of
              Inl e \<Rightarrow> Inl e
            | Inr tenantId \<Rightarrow>
                if grant_count (the (au_enterpriseId u)) (au_id u) (the required)
                     (r\<lparr>roles := filter (\<lambda>role. role_enterpriseId role = tenantId) (roles r)\<rparr>) = 0
                then Inl (ForbiddenException ''Permission refusee'') else Inr ()))"

definition SuperAdminGuard_canActivate :: "authenticated_user option \<Rightarrow> exn + unit" where
  "SuperAdminGuard_canActivate user = (case user of
     None \<Rightarrow> Inl (ForbiddenException ''Reserve au Super Admin'')
   | Some u \<Rightarrow> if \<not> au_isSuperAdmin u then Inl (ForbiddenException ''Reserve au Super Admin'') else Inr ())"

section \<open>Tokens\<close>

text \<open>
  The claims of both kinds of token: an access token has \<open>typ\<close>, a challenge token has \<open>type\<close>. The
  library checks issuer, audience, algorithm and expiry, and returns the claims.
\<close>

record jwt_claims =
  claim_sub :: uuid
  claim_typ :: "string option"
  claim_type :: "string option"
  claim_enterpriseId :: "uuid option"
  claim_isSuperAdmin :: bool

definition access_claims :: "uuid \<Rightarrow> uuid option \<Rightarrow> bool \<Rightarrow> jwt_claims" where
  "access_claims i enterpriseId isSuperAdmin =
     \<lparr>claim_sub = i, claim_typ = Some ''access'', claim_type = None, claim_enterpriseId = enterpriseId,
      claim_isSuperAdmin = isSuperAdmin\<rparr>"

definition challenge_claims :: "uuid \<Rightarrow> jwt_claims" where
  "challenge_claims i =
     \<lparr>claim_sub = i, claim_typ = None, claim_type = Some ''mfa_challenge'', claim_enterpriseId = None, claim_isSuperAdmin = False\<rparr>"

definition signAccessToken :: "(jwt_claims \<Rightarrow> string) \<Rightarrow> uuid \<Rightarrow> uuid option \<Rightarrow> bool \<Rightarrow> string" where
  "signAccessToken jwt_sign i enterpriseId isSuperAdmin = jwt_sign (access_claims i enterpriseId isSuperAdmin)"

definition verifyAccessToken :: "(string \<Rightarrow> jwt_claims option) \<Rightarrow> string \<Rightarrow> exn + access_token_payload" where
  "verifyAccessToken jwt_verify token = (case jwt_verify token of
     None \<Rightarrow> Inl (JsError ''jwt'')
   | Some c \<Rightarrow> if claim_typ c \<noteq> Some ''access'' then Inl (JsError ''Jeton invalide : type incorrect'')
       else Inr \<lparr>token_sub = claim_sub c, token_enterpriseId = claim_enterpriseId c, token_isSuperAdmin = claim_isSuperAdmin c\<rparr>)"

definition signMfaChallengeToken :: "(jwt_claims \<Rightarrow> string) \<Rightarrow> uuid \<Rightarrow> string" where
  "signMfaChallengeToken jwt_sign i = jwt_sign (challenge_claims i)"

definition verifyMfaChallengeToken :: "(string \<Rightarrow> jwt_claims option) \<Rightarrow> string \<Rightarrow> exn + uuid" where
  "verifyMfaChallengeToken jwt_verify token = (case jwt_verify token of
     None \<Rightarrow> Inl (JsError ''jwt'')
   | Some c \<Rightarrow> if claim_type c \<noteq> Some ''mfa_challenge'' then Inl (JsError ''Jeton de defi MFA invalide'') else Inr (claim_sub c))"

section \<open>The authentication guard\<close>

definition active_account :: "user \<Rightarrow> db \<Rightarrow> bool" where
  "active_account user s \<longleftrightarrow> user_status user = Usr_ACTIVE \<and>
     (case user_enterpriseId user of None \<Rightarrow> True
      | Some e \<Rightarrow> (case find_by ent_id e (enterprises s) of None \<Rightarrow> True | Some enterprise \<Rightarrow> ent_status enterprise = Ent_ACTIVE))"

type_synonym status_cache = "uuid \<Rightarrow> (bool \<times> int) option"

text \<open>\<open>now\<close> before and \<open>now'\<close> after the database read; \<open>others\<close> is what the process does to the cache meanwhile.\<close>

definition isAccountActive ::
    "int \<Rightarrow> int \<Rightarrow> int \<Rightarrow> (status_cache \<Rightarrow> status_cache) \<Rightarrow> db \<Rightarrow> uuid \<Rightarrow> status_cache \<Rightarrow> bool \<times> status_cache" where
  "isAccountActive ttl now now' others s userId cache =
     (let cached = (case cache userId of None \<Rightarrow> None | Some (active, expiresAt) \<Rightarrow> if now < expiresAt then Some active else None)
      in case cached of
           Some active \<Rightarrow> (active, cache)
         | None \<Rightarrow>
             (let active = (case find_by user_id userId (users s) of None \<Rightarrow> False | Some user \<Rightarrow> active_account user s)
              in (active, if 0 < ttl then (others cache)(userId \<mapsto> (active, now' + ttl)) else others cache)))"

definition JwtAuthGuard_canActivate ::
    "(string \<Rightarrow> jwt_claims option) \<Rightarrow> int \<Rightarrow> int \<Rightarrow> int \<Rightarrow> (status_cache \<Rightarrow> status_cache) \<Rightarrow> db \<Rightarrow> string option \<Rightarrow>
     status_cache \<Rightarrow> (exn + authenticated_user) \<times> status_cache" where
  "JwtAuthGuard_canActivate jwt_verify ttl now now' others s authHeader cache =
     (case bearer_token authHeader of
        None \<Rightarrow> (Inl (UnauthorizedException ''Authentification requise''), cache)
      | Some token \<Rightarrow> (case verifyAccessToken jwt_verify token of
          Inl e \<Rightarrow> (Inl (UnauthorizedException ''Jeton invalide ou expire''), cache)
        | Inr payload \<Rightarrow>
            (let (active, cache') = isAccountActive ttl now now' others s (token_sub payload) cache
             in if \<not> active then (Inl (UnauthorizedException ''Compte ou entreprise suspendu(e)''), cache')
                else (Inr \<lparr>au_id = token_sub payload, au_enterpriseId = token_enterpriseId payload,
                           au_isSuperAdmin = token_isSuperAdmin payload\<rparr>, cache'))))"

section \<open>Lemmas\<close>

lemma verify_sign_access:
  assumes "\<And>c. jwt_verify (jwt_sign c) = Some c"
  shows "verifyAccessToken jwt_verify (signAccessToken jwt_sign i e a) =
      Inr \<lparr>token_sub = i, token_enterpriseId = e, token_isSuperAdmin = a\<rparr>"
    and "\<exists>x. verifyAccessToken jwt_verify (signMfaChallengeToken jwt_sign i) = Inl x"
    and "verifyMfaChallengeToken jwt_verify (signMfaChallengeToken jwt_sign i) = Inr i"
    and "\<exists>x. verifyMfaChallengeToken jwt_verify (signAccessToken jwt_sign i e a) = Inl x"
  by (simp_all add: verifyAccessToken_def signAccessToken_def access_claims_def signMfaChallengeToken_def
      challenge_claims_def verifyMfaChallengeToken_def assms)

lemma grant_count_pos:
  "0 < grant_count e u k r \<longleftrightarrow> (\<exists>roleId permissionId role. (roleId, permissionId) \<in> set (rolePermissions r) \<and>
     (permissionId, k) \<in> set (permissions r) \<and> role \<in> set (roles r) \<and> role_id role = roleId \<and>
     role_enterpriseId role = e \<and> (u, roleId) \<in> set (userRoles r))"
proof -
  have "0 < grant_count e u k r \<longleftrightarrow> (\<exists>x\<in>set (rolePermissions r). (case x of (roleId, permissionId) \<Rightarrow>
     (\<exists>p\<in>set (permissions r). p = (permissionId, k)) \<and>
     (\<exists>role\<in>set (roles r). role_id role = roleId \<and> role_enterpriseId role = e) \<and>
     (\<exists>ur\<in>set (userRoles r). ur = (u, roleId))))"
    unfolding grant_count_def length_greater_0_conv by (simp add: filter_empty_conv)
  then show ?thesis by fastforce
qed

lemma isPermissionKey_all: "set ALL_PERMISSIONS = set PERMISSION_KEYS"
  by (simp only: ALL_PERMISSIONS_def PERMISSION_KEYS_def)

end
