(* ===== verification/Controllers.thy ===== *)
theory Controllers
  imports Reports Entitlements Access
begin

text \<open>
  The HTTP interface of the ERP: for every controller its routes, the decorators each route carries
  (method, permission, feature) and the service call behind it, preceded by the validation of the body
  or of the query; then the chain every request goes through: tenant middleware, JwtAuthGuard,
  PermissionsGuard, FeatureGuard, SubscriptionAccessGuard, pipe, service. Values are the ones the
  schemas produce (trimmed, coerced, defaults filled in); the format of a uuid and of an email is not
  modelled, nor are request logging and rate limits.
\<close>

section \<open>What a request brings and draws\<close>

text \<open>
  \<open>contains\<close> and \<open>collate\<close> are the database's case-insensitive match and its order on text;
  \<open>aborted i\<close> says that the \<open>i\<close>-th attempt of a serializable transaction is cancelled, \<open>fault\<close> an error
  of the driver while an invoice is inserted, \<open>seen\<close> the state in which the first statement of a
  transaction ran. A transaction does not answer after a violated constraint, as in PostgreSQL.
\<close>

record 'k request_env =
  contains :: "string \<Rightarrow> string \<Rightarrow> bool"
  collate :: "string \<Rightarrow> 'k"
  request_now :: date
  new_id :: uuid
  line_ids :: "nat \<Rightarrow> uuid"
  movement_ids :: "uuid \<Rightarrow> uuid"
  aborted :: "nat \<Rightarrow> bool"
  fault :: "exn option"
  seen :: db

record route_metadata =
  meta_method :: string
  meta_permission :: permission_key
  meta_feature :: string

definition route_meta :: "string \<Rightarrow> permission_key \<Rightarrow> string \<Rightarrow> route_metadata" where
  "route_meta m p f = \<lparr>meta_method = m, meta_permission = p, meta_feature = f\<rparr>"

datatype ('l, 'd) answer = Listed "'l page_result" | One 'd

definition answering :: "('a \<Rightarrow> 'b) \<Rightarrow> (exn + 'a) \<times> db \<Rightarrow> (exn + 'b) \<times> db" where
  "answering f = map_prod (map_sum id f) id"

text \<open>A reading route runs in a transaction of the tenant and leaves the database alone.\<close>

definition reading :: "tenant_store option \<Rightarrow> (db \<Rightarrow> exn + 'a) \<Rightarrow> db \<Rightarrow> (exn + 'a) \<times> db" where
  "reading store f s = (tenant_read store f s, s)"

definition ZodValidationPipe :: "bool \<Rightarrow> ('s \<Rightarrow> (exn + 'a) \<times> 's) \<Rightarrow> 's \<Rightarrow> (exn + 'a) \<times> 's" where
  "ZodValidationPipe valid handler s = (if \<not> valid then (Inl (BadRequestException ''validation''), s) else handler s)"

definition page_query :: "nat \<Rightarrow> nat \<Rightarrow> string option \<Rightarrow> bool" where
  "page_query page pageSize search \<longleftrightarrow> 1 \<le> page \<and> 1 \<le> pageSize \<and> pageSize \<le> 100 \<and> search \<noteq> Some []"

definition listCardsQuerySchema :: "list_cards_query \<Rightarrow> bool" where
  "listCardsQuerySchema q = page_query (lcq_page q) (lcq_pageSize q) (lcq_search q)"

section \<open>Products, customers, suppliers\<close>

datatype products_route =
    Products_list list_cards_query
  | Products_get uuid
  | Products_create create_product_input
  | Products_update uuid update_product_input
  | Products_deactivate uuid

fun products_meta :: "products_route \<Rightarrow> route_metadata" where
  "products_meta (Products_list _) = route_meta ''GET'' ''products.read'' ''products''"
| "products_meta (Products_get _) = route_meta ''GET'' ''products.read'' ''products''"
| "products_meta (Products_create _) = route_meta ''POST'' ''products.create'' ''products''"
| "products_meta (Products_update _ _) = route_meta ''PATCH'' ''products.update'' ''products''"
| "products_meta (Products_deactivate _) = route_meta ''DELETE'' ''products.delete'' ''products''"

fun ProductsController ::
    "('k::linorder) request_env \<Rightarrow> tenant_store option \<Rightarrow> uuid \<Rightarrow> uuid \<Rightarrow> products_route \<Rightarrow> db \<Rightarrow>
     (exn + (product, product) answer) \<times> db" where
  "ProductsController env store e u (Products_list q) = ZodValidationPipe (listCardsQuerySchema q)
     (reading store (\<lambda>s. Inr (Listed (products_findMany (contains env) (collate env) e q s))))"
| "ProductsController env store e u (Products_get i) =
     reading store (\<lambda>s. map_sum id One (products_findByIdOrThrow e i s))"
| "ProductsController env store e u (Products_create body) = ZodValidationPipe (createProductSchema body)
     (answering One \<circ> products_service_create store (new_id env) (request_now env) e u body)"
| "ProductsController env store e u (Products_update i body) = ZodValidationPipe (updateProductSchema body)
     (answering One \<circ> products_service_update store (request_now env) e u i body)"
| "ProductsController env store e u (Products_deactivate i) =
     answering One \<circ> products_service_deactivate store (request_now env) e u i"

definition createCustomerSchema :: "create_customer_input \<Rightarrow> bool" where
  "createCustomerSchema c \<longleftrightarrow> ci_name c \<noteq> [] \<and> ci_country c \<noteq> [] \<and> ci_email c \<noteq> Some [] \<and> ci_phone c \<noteq> Some [] \<and>
     ci_address c \<noteq> Some [] \<and> ci_city c \<noteq> Some [] \<and> ci_ninea c \<noteq> Some [] \<and> ci_rccm c \<noteq> Some [] \<and> ci_notes c \<noteq> Some []"

definition updateCustomerSchema :: "update_customer_input \<Rightarrow> bool" where
  "updateCustomerSchema c \<longleftrightarrow> cu_name c \<noteq> Some [] \<and> cu_country c \<noteq> Some [] \<and> cu_email c \<noteq> Some [] \<and>
     cu_phone c \<noteq> Some [] \<and> cu_address c \<noteq> Some [] \<and> cu_city c \<noteq> Some [] \<and> cu_ninea c \<noteq> Some [] \<and>
     cu_rccm c \<noteq> Some [] \<and> cu_notes c \<noteq> Some []"

datatype customers_route =
    Customers_list list_cards_query
  | Customers_get uuid
  | Customers_create create_customer_input
  | Customers_update uuid update_customer_input
  | Customers_deactivate uuid

fun customers_meta :: "customers_route \<Rightarrow> route_metadata" where
  "customers_meta (Customers_list _) = route_meta ''GET'' ''clients.read'' ''clients''"
| "customers_meta (Customers_get _) = route_meta ''GET'' ''clients.read'' ''clients''"
| "customers_meta (Customers_create _) = route_meta ''POST'' ''clients.create'' ''clients''"
| "customers_meta (Customers_update _ _) = route_meta ''PATCH'' ''clients.update'' ''clients''"
| "customers_meta (Customers_deactivate _) = route_meta ''DELETE'' ''clients.delete'' ''clients''"

fun CustomersController ::
    "('k::linorder) request_env \<Rightarrow> tenant_store option \<Rightarrow> uuid \<Rightarrow> uuid \<Rightarrow> customers_route \<Rightarrow> db \<Rightarrow>
     (exn + (customer, customer) answer) \<times> db" where
  "CustomersController env store e u (Customers_list q) = ZodValidationPipe (listCardsQuerySchema q)
     (reading store (\<lambda>s. Inr (Listed (customers_findMany (contains env) (collate env) e q s))))"
| "CustomersController env store e u (Customers_get i) =
     reading store (\<lambda>s. map_sum id One (customers_findByIdOrThrow e i s))"
| "CustomersController env store e u (Customers_create body) = ZodValidationPipe (createCustomerSchema body)
     (answering One \<circ> customers_service_create store (new_id env) (request_now env) e u body)"
| "CustomersController env store e u (Customers_update i body) = ZodValidationPipe (updateCustomerSchema body)
     (answering One \<circ> customers_service_update store (request_now env) e u i body)"
| "CustomersController env store e u (Customers_deactivate i) =
     answering One \<circ> customers_service_deactivate store (request_now env) e u i"

definition createSupplierSchema :: "create_supplier_input \<Rightarrow> bool" where
  "createSupplierSchema c \<longleftrightarrow> si_name c \<noteq> [] \<and> si_country c \<noteq> [] \<and> si_email c \<noteq> Some [] \<and> si_phone c \<noteq> Some [] \<and>
     si_address c \<noteq> Some [] \<and> si_city c \<noteq> Some [] \<and> si_ninea c \<noteq> Some [] \<and> si_rccm c \<noteq> Some [] \<and> si_notes c \<noteq> Some []"

definition updateSupplierSchema :: "update_supplier_input \<Rightarrow> bool" where
  "updateSupplierSchema c \<longleftrightarrow> su_name c \<noteq> Some [] \<and> su_country c \<noteq> Some [] \<and> su_email c \<noteq> Some [] \<and>
     su_phone c \<noteq> Some [] \<and> su_address c \<noteq> Some [] \<and> su_city c \<noteq> Some [] \<and> su_ninea c \<noteq> Some [] \<and>
     su_rccm c \<noteq> Some [] \<and> su_notes c \<noteq> Some []"

datatype suppliers_route =
    Suppliers_list list_cards_query
  | Suppliers_get uuid
  | Suppliers_create create_supplier_input
  | Suppliers_update uuid update_supplier_input
  | Suppliers_deactivate uuid

fun suppliers_meta :: "suppliers_route \<Rightarrow> route_metadata" where
  "suppliers_meta (Suppliers_list _) = route_meta ''GET'' ''suppliers.read'' ''suppliers''"
| "suppliers_meta (Suppliers_get _) = route_meta ''GET'' ''suppliers.read'' ''suppliers''"
| "suppliers_meta (Suppliers_create _) = route_meta ''POST'' ''suppliers.create'' ''suppliers''"
| "suppliers_meta (Suppliers_update _ _) = route_meta ''PATCH'' ''suppliers.update'' ''suppliers''"
| "suppliers_meta (Suppliers_deactivate _) = route_meta ''DELETE'' ''suppliers.delete'' ''suppliers''"

fun SuppliersController ::
    "('k::linorder) request_env \<Rightarrow> tenant_store option \<Rightarrow> uuid \<Rightarrow> uuid \<Rightarrow> suppliers_route \<Rightarrow> db \<Rightarrow>
     (exn + (supplier, supplier) answer) \<times> db" where
  "SuppliersController env store e u (Suppliers_list q) = ZodValidationPipe (listCardsQuerySchema q)
     (reading store (\<lambda>s. Inr (Listed (suppliers_findMany (contains env) (collate env) e q s))))"
| "SuppliersController env store e u (Suppliers_get i) =
     reading store (\<lambda>s. map_sum id One (suppliers_findByIdOrThrow e i s))"
| "SuppliersController env store e u (Suppliers_create body) = ZodValidationPipe (createSupplierSchema body)
     (answering One \<circ> suppliers_service_create store (new_id env) (request_now env) e u body)"
| "SuppliersController env store e u (Suppliers_update i body) = ZodValidationPipe (updateSupplierSchema body)
     (answering One \<circ> suppliers_service_update store (request_now env) e u i body)"
| "SuppliersController env store e u (Suppliers_deactivate i) =
     answering One \<circ> suppliers_service_deactivate store (request_now env) e u i"

section \<open>Stock\<close>

datatype stock_route =
    Stock_list list_stock_query
  | Stock_get uuid
  | Stock_movements uuid nat nat
  | Stock_move create_movement_input "string option"

datatype stock_answer =
    Stock_levels "stock_level page_result"
  | Stock_level_of stock_level
  | Stock_history "stock_movement page_result"
  | Stock_moved create_movement_result

fun stock_meta :: "stock_route \<Rightarrow> route_metadata" where
  "stock_meta (Stock_list _) = route_meta ''GET'' ''stock.read'' ''stock''"
| "stock_meta (Stock_get _) = route_meta ''GET'' ''stock.read'' ''stock''"
| "stock_meta (Stock_movements _ _ _) = route_meta ''GET'' ''stock.read'' ''stock''"
| "stock_meta (Stock_move _ _) = route_meta ''POST'' ''stock.create'' ''stock''"

fun StockController ::
    "('k::linorder) request_env \<Rightarrow> tenant_store option \<Rightarrow> uuid \<Rightarrow> uuid \<Rightarrow> stock_route \<Rightarrow> db \<Rightarrow> (exn + stock_answer) \<times> db" where
  "StockController env store e u (Stock_list q) =
     ZodValidationPipe (page_query (lsq_page q) (lsq_pageSize q) (lsq_search q))
       (reading store (\<lambda>s. Inr (Stock_levels (findLevels (contains env) (collate env) e q s))))"
| "StockController env store e u (Stock_get productId) =
     reading store (\<lambda>s. map_sum id Stock_level_of (getLevel e productId s))"
| "StockController env store e u (Stock_movements productId page pageSize) =
     ZodValidationPipe (page_query page pageSize None)
       (reading store (\<lambda>s. map_sum id Stock_history (findMovements e productId page pageSize s)))"
| "StockController env store e u (Stock_move body k) = ZodValidationPipe (createStockMovementSchema body)
     (answering Stock_moved \<circ> stock_createMovement store (aborted env) False (new_id env) (request_now env) e u body k)"

section \<open>Sales and purchases\<close>

datatype sales_route =
    Sales_list list_sales_query
  | Sales_get uuid
  | Sales_create create_sale_input "string option"
  | Sales_confirm uuid
  | Sales_cancel uuid

fun sales_meta :: "sales_route \<Rightarrow> route_metadata" where
  "sales_meta (Sales_list _) = route_meta ''GET'' ''sales.read'' ''sales''"
| "sales_meta (Sales_get _) = route_meta ''GET'' ''sales.read'' ''sales''"
| "sales_meta (Sales_create _ _) = route_meta ''POST'' ''sales.create'' ''sales''"
| "sales_meta (Sales_confirm _) = route_meta ''POST'' ''sales.update'' ''sales''"
| "sales_meta (Sales_cancel _) = route_meta ''POST'' ''sales.delete'' ''sales''"

fun SalesController ::
    "('k::linorder) request_env \<Rightarrow> tenant_store option \<Rightarrow> uuid \<Rightarrow> uuid \<Rightarrow> sales_route \<Rightarrow> db \<Rightarrow>
     (exn + (sale_list_item, sale_view) answer) \<times> db" where
  "SalesController env store e u (Sales_list q) =
     ZodValidationPipe (page_query (slq_page q) (slq_pageSize q) (slq_search q))
       (reading store (\<lambda>s. map_sum id Listed (sales_findMany (contains env) e q s)))"
| "SalesController env store e u (Sales_get i) = reading store (\<lambda>s. map_sum id One (sales_findByIdOrThrow e i s))"
| "SalesController env store e u (Sales_create body k) = ZodValidationPipe (createSaleSchema body)
     (answering One \<circ> sales_service_create store False (new_id env) (line_ids env) (request_now env) e u body k (seen env))"
| "SalesController env store e u (Sales_confirm i) =
     answering One \<circ> sales_service_confirm store (aborted env) False (movement_ids env) (request_now env) e u i"
| "SalesController env store e u (Sales_cancel i) =
     answering One \<circ> sales_service_cancel store (request_now env) e u i"

datatype purchases_route =
    Purchases_list list_purchases_query
  | Purchases_get uuid
  | Purchases_create create_purchase_input "string option"
  | Purchases_confirm uuid
  | Purchases_cancel uuid

fun purchases_meta :: "purchases_route \<Rightarrow> route_metadata" where
  "purchases_meta (Purchases_list _) = route_meta ''GET'' ''purchases.read'' ''purchases''"
| "purchases_meta (Purchases_get _) = route_meta ''GET'' ''purchases.read'' ''purchases''"
| "purchases_meta (Purchases_create _ _) = route_meta ''POST'' ''purchases.create'' ''purchases''"
| "purchases_meta (Purchases_confirm _) = route_meta ''POST'' ''purchases.update'' ''purchases''"
| "purchases_meta (Purchases_cancel _) = route_meta ''POST'' ''purchases.delete'' ''purchases''"

fun PurchasesController ::
    "('k::linorder) request_env \<Rightarrow> tenant_store option \<Rightarrow> uuid \<Rightarrow> uuid \<Rightarrow> purchases_route \<Rightarrow> db \<Rightarrow>
     (exn + (purchase_list_item, purchase_view) answer) \<times> db" where
  "PurchasesController env store e u (Purchases_list q) =
     ZodValidationPipe (page_query (plq_page q) (plq_pageSize q) (plq_search q))
       (reading store (\<lambda>s. map_sum id Listed (purchases_findMany (contains env) e q s)))"
| "PurchasesController env store e u (Purchases_get i) =
     reading store (\<lambda>s. map_sum id One (purchases_findByIdOrThrow e i s))"
| "PurchasesController env store e u (Purchases_create body k) = ZodValidationPipe (createPurchaseSchema body)
     (answering One \<circ> purchases_service_create store False (new_id env) (line_ids env) (request_now env) e u body k (seen env))"
| "PurchasesController env store e u (Purchases_confirm i) =
     answering One \<circ> purchases_service_confirm store (aborted env) False (movement_ids env) (request_now env) e u i"
| "PurchasesController env store e u (Purchases_cancel i) =
     answering One \<circ> purchases_service_cancel store (request_now env) e u i"

section \<open>Invoices\<close>

datatype invoicing_route =
    Invoices_list list_sales_invoices_query
  | Invoices_get uuid
  | Invoices_create uuid "string option"
  | Invoices_mark_paid uuid
  | Invoices_void uuid

fun invoicing_meta :: "invoicing_route \<Rightarrow> route_metadata" where
  "invoicing_meta (Invoices_list _) = route_meta ''GET'' ''invoicing.read'' ''invoicing''"
| "invoicing_meta (Invoices_get _) = route_meta ''GET'' ''invoicing.read'' ''invoicing''"
| "invoicing_meta (Invoices_create _ _) = route_meta ''POST'' ''invoicing.create'' ''invoicing''"
| "invoicing_meta (Invoices_mark_paid _) = route_meta ''POST'' ''invoicing.update'' ''invoicing''"
| "invoicing_meta (Invoices_void _) = route_meta ''POST'' ''invoicing.delete'' ''invoicing''"

fun InvoicingController ::
    "('k::linorder) request_env \<Rightarrow> tenant_store option \<Rightarrow> uuid \<Rightarrow> uuid \<Rightarrow> invoicing_route \<Rightarrow> db \<Rightarrow>
     (exn + (sales_invoice_list_item, sales_invoice_view) answer) \<times> db" where
  "InvoicingController env store e u (Invoices_list q) =
     ZodValidationPipe (page_query (siq_page q) (siq_pageSize q) (siq_search q) \<and> siq_status q \<noteq> Some Inv_DRAFT)
       (reading store (\<lambda>s. map_sum id Listed (invoicing_findMany (contains env) e q s)))"
| "InvoicingController env store e u (Invoices_get i) =
     reading store (\<lambda>s. map_sum id One (invoicing_findByIdOrThrow e i s))"
| "InvoicingController env store e u (Invoices_create saleId k) = (\<lambda>s. answering One
     (invoicing_service_create store (fault env) (new_id env) (request_now env) e u saleId k (seen env) s s))"
| "InvoicingController env store e u (Invoices_mark_paid i) =
     answering One \<circ> invoicing_service_markPaid store (request_now env) e u i"
| "InvoicingController env store e u (Invoices_void i) =
     answering One \<circ> invoicing_service_void store (request_now env) e u i"

section \<open>Accounting and reports\<close>

datatype accounts_route =
    Accounts_list list_stock_query
  | Accounts_get uuid
  | Accounts_create string string
  | Accounts_update uuid string

fun accounts_meta :: "accounts_route \<Rightarrow> route_metadata" where
  "accounts_meta (Accounts_list _) = route_meta ''GET'' ''accounting.read'' ''accounting''"
| "accounts_meta (Accounts_get _) = route_meta ''GET'' ''accounting.read'' ''accounting''"
| "accounts_meta (Accounts_create _ _) = route_meta ''POST'' ''accounting.create'' ''accounting''"
| "accounts_meta (Accounts_update _ _) = route_meta ''PATCH'' ''accounting.update'' ''accounting''"

fun AccountsController ::
    "('k::linorder) request_env \<Rightarrow> tenant_store option \<Rightarrow> uuid \<Rightarrow> uuid \<Rightarrow> accounts_route \<Rightarrow> db \<Rightarrow>
     (exn + (account_view, account_view) answer) \<times> db" where
  "AccountsController env store e u (Accounts_list q) =
     ZodValidationPipe (page_query (lsq_page q) (lsq_pageSize q) (lsq_search q))
       (reading store (\<lambda>s. Inr (Listed (accounts_findMany (contains env) (collate env) e q s))))"
| "AccountsController env store e u (Accounts_get i) =
     reading store (\<lambda>s. map_sum id One (accounts_findByIdOrThrow e i s))"
| "AccountsController env store e u (Accounts_create code label) =
     ZodValidationPipe (account_code_ok code \<and> label \<noteq> [])
       (answering One \<circ> accounts_service_create store (new_id env) (request_now env) e u code label)"
| "AccountsController env store e u (Accounts_update i label) = ZodValidationPipe (label \<noteq> [])
     (answering One \<circ> accounts_service_update store (request_now env) e u i label)"

datatype journal_route =
    Journal_list list_journal_query
  | Journal_get uuid
  | Journal_create create_journal_entry_input "string option"

fun journal_meta :: "journal_route \<Rightarrow> route_metadata" where
  "journal_meta (Journal_list _) = route_meta ''GET'' ''accounting.read'' ''accounting''"
| "journal_meta (Journal_get _) = route_meta ''GET'' ''accounting.read'' ''accounting''"
| "journal_meta (Journal_create _ _) = route_meta ''POST'' ''accounting.create'' ''accounting''"

fun JournalController ::
    "('k::linorder) request_env \<Rightarrow> tenant_store option \<Rightarrow> uuid \<Rightarrow> uuid \<Rightarrow> journal_route \<Rightarrow> db \<Rightarrow>
     (exn + (journal_entry_view, journal_entry_view) answer) \<times> db" where
  "JournalController env store e u (Journal_list q) =
     ZodValidationPipe (page_query (jq_page q) (jq_pageSize q) (jq_search q))
       (reading store (\<lambda>s. map_sum id Listed (journal_findMany (contains env) e q s)))"
| "JournalController env store e u (Journal_get i) =
     reading store (\<lambda>s. map_sum id One (journal_findByIdOrThrow e i s))"
| "JournalController env store e u (Journal_create body k) = ZodValidationPipe (createJournalEntrySchema body)
     (answering One \<circ> journal_service_create store False (new_id env) (line_ids env) (request_now env) e u body k (seen env))"

definition trial_balance_meta :: route_metadata where
  "trial_balance_meta = route_meta ''GET'' ''accounting.read'' ''accounting''"

definition TrialBalanceController ::
    "('k::linorder) request_env \<Rightarrow> tenant_store option \<Rightarrow> uuid \<Rightarrow> db \<Rightarrow> (exn + trial_balance_view) \<times> db" where
  "TrialBalanceController env store e = reading store (\<lambda>s. Inr (trialBalance (collate env) e s))"

datatype reports_route =
    Report_sales report_period_query
  | Report_purchases report_period_query
  | Report_income_statement report_period_query

datatype report_answer = Grouped report_view | Statement income_statement_view

definition reports_meta :: "reports_route \<Rightarrow> route_metadata" where
  "reports_meta r = route_meta ''GET'' ''reports.read'' ''reports''"

fun ReportsController ::
    "('k::linorder) request_env \<Rightarrow> tenant_store option \<Rightarrow> uuid \<Rightarrow> reports_route \<Rightarrow> db \<Rightarrow> (exn + report_answer) \<times> db" where
  "ReportsController env store e (Report_sales q) =
     reading store (\<lambda>s. Inr (Grouped (salesReport (collate env) (request_now env) e q s)))"
| "ReportsController env store e (Report_purchases q) =
     reading store (\<lambda>s. Inr (Grouped (purchasesReport (collate env) (request_now env) e q s)))"
| "ReportsController env store e (Report_income_statement q) =
     reading store (\<lambda>s. Inr (Statement (incomeStatement (collate env) (request_now env) e q s)))"

section \<open>The application\<close>

datatype route =
    Products products_route
  | Customers customers_route
  | Suppliers suppliers_route
  | Stock stock_route
  | Sales sales_route
  | Purchases purchases_route
  | Invoices invoicing_route
  | Accounts accounts_route
  | Journal journal_route
  | Trial_balance
  | Reports reports_route

datatype api_answer =
    Product_answer "(product, product) answer"
  | Customer_answer "(customer, customer) answer"
  | Supplier_answer "(supplier, supplier) answer"
  | Stock_answer stock_answer
  | Sale_answer "(sale_list_item, sale_view) answer"
  | Purchase_answer "(purchase_list_item, purchase_view) answer"
  | Invoice_answer "(sales_invoice_list_item, sales_invoice_view) answer"
  | Account_answer "(account_view, account_view) answer"
  | Journal_answer "(journal_entry_view, journal_entry_view) answer"
  | Trial_balance_answer trial_balance_view
  | Report_answer report_answer

fun metadata :: "route \<Rightarrow> route_metadata" where
  "metadata (Products r) = products_meta r"
| "metadata (Customers r) = customers_meta r"
| "metadata (Suppliers r) = suppliers_meta r"
| "metadata (Stock r) = stock_meta r"
| "metadata (Sales r) = sales_meta r"
| "metadata (Purchases r) = purchases_meta r"
| "metadata (Invoices r) = invoicing_meta r"
| "metadata (Accounts r) = accounts_meta r"
| "metadata (Journal r) = journal_meta r"
| "metadata Trial_balance = trial_balance_meta"
| "metadata (Reports r) = reports_meta r"

fun controller ::
    "('k::linorder) request_env \<Rightarrow> tenant_store option \<Rightarrow> uuid \<Rightarrow> uuid \<Rightarrow> route \<Rightarrow> db \<Rightarrow> (exn + api_answer) \<times> db" where
  "controller env store e u (Products r) s = answering Product_answer (ProductsController env store e u r s)"
| "controller env store e u (Customers r) s = answering Customer_answer (CustomersController env store e u r s)"
| "controller env store e u (Suppliers r) s = answering Supplier_answer (SuppliersController env store e u r s)"
| "controller env store e u (Stock r) s = answering Stock_answer (StockController env store e u r s)"
| "controller env store e u (Sales r) s = answering Sale_answer (SalesController env store e u r s)"
| "controller env store e u (Purchases r) s = answering Purchase_answer (PurchasesController env store e u r s)"
| "controller env store e u (Invoices r) s = answering Invoice_answer (InvoicingController env store e u r s)"
| "controller env store e u (Accounts r) s = answering Account_answer (AccountsController env store e u r s)"
| "controller env store e u (Journal r) s = answering Journal_answer (JournalController env store e u r s)"
| "controller env store e u Trial_balance s = answering Trial_balance_answer (TrialBalanceController env store e s)"
| "controller env store e u (Reports r) s = answering Report_answer (ReportsController env store e r s)"

text \<open>One process of the API: the database, the roles and its two caches.\<close>

record server =
  server_db :: db
  server_rbac :: rbac
  server_status :: status_cache
  server_entitlements :: entitlements_cache

record server_config =
  jwt_verify :: "string \<Rightarrow> jwt_claims option"
  accountStatusCacheTtlMs :: int
  entitlementsCacheTtlMs :: int
  entitlementsCacheMaxEntries :: nat

text \<open>
  The guards in the order of \<open>@UseGuards\<close>. FeatureGuard and SubscriptionAccessGuard ask for the
  entitlements one after the other; the second is skipped by a GET.
\<close>

definition plan_guards ::
    "server_config \<Rightarrow> date \<Rightarrow> tenant_store option \<Rightarrow> route_metadata \<Rightarrow> db \<Rightarrow> entitlements_cache \<Rightarrow> (exn + unit) \<times> entitlements_cache" where
  "plan_guards cfg now store m s cache =
     (let getCurrent = entitlements_getCurrent (entitlementsCacheTtlMs cfg) (entitlementsCacheMaxEntries cfg) store now now id s;
          (cur, cache1) = getCurrent cache
      in case FeatureGuard_canActivate (Some (meta_feature m)) cur of
           Inl e \<Rightarrow> (Inl e, cache1)
         | Inr _ \<Rightarrow>
             if meta_method m = ''GET'' then (Inr (), cache1)
             else (let (cur', cache2) = getCurrent cache1 in (SubscriptionAccessGuard_canActivate (meta_method m) cur', cache2)))"

definition guards ::
    "server_config \<Rightarrow> date \<Rightarrow> string option \<Rightarrow> route_metadata \<Rightarrow> server \<Rightarrow> (exn + authenticated_user) \<times> server" where
  "guards cfg now authHeader m srv =
     (let store = tenant_context_use (verifyAccessToken (jwt_verify cfg)) authHeader;
          (who, status) = JwtAuthGuard_canActivate (jwt_verify cfg) (accountStatusCacheTtlMs cfg) now now id (server_db srv)
             authHeader (server_status srv);
          srv1 = srv\<lparr>server_status := status\<rparr>
      in case who of
           Inl e \<Rightarrow> (Inl e, srv1)
         | Inr user \<Rightarrow> (case PermissionsGuard_canActivate store (Some (meta_permission m)) False (Some user) (server_rbac srv) of
             Inl e \<Rightarrow> (Inl e, srv1)
           | Inr _ \<Rightarrow> (let (allowed, cache) = plan_guards cfg now store m (server_db srv) (server_entitlements srv)
               in (case allowed of Inl e \<Rightarrow> Inl e | Inr _ \<Rightarrow> Inr user, srv1\<lparr>server_entitlements := cache\<rparr>))))"

definition api_request ::
    "server_config \<Rightarrow> ('k::linorder) request_env \<Rightarrow> string option \<Rightarrow> route \<Rightarrow> server \<Rightarrow> (exn + api_answer) \<times> server" where
  "api_request cfg env authHeader r srv =
     (case guards cfg (request_now env) authHeader (metadata r) srv of
        (Inl e, srv1) \<Rightarrow> (Inl e, srv1)
      | (Inr user, srv1) \<Rightarrow>
          (let store = tenant_context_use (verifyAccessToken (jwt_verify cfg)) authHeader;
               (answer, s') = controller env store (the (au_enterpriseId user)) (au_id user) r (server_db srv1)
           in (answer, srv1\<lparr>server_db := s'\<rparr>)))"

end
