(* ===== verification/Requests.thy ===== *)
theory Requests
  imports Controllers
begin

text \<open>
  What holds of every request, whatever its route: the invariants of all components together, the
  separation of the enterprises, and who is let through. Each request is one transition of the server.
\<close>

section \<open>The invariant of the whole database\<close>

definition erp_wf :: "db \<Rightarrow> bool" where
  "erp_wf s \<longleftrightarrow> catalog_wf s \<and> movements_wf s \<and> stock_nonneg s \<and> sales_wf s \<and> purchases_wf s \<and> invoices_wf s \<and> accounting_wf s"

lemma erp_wfI:
  "catalog_wf s \<Longrightarrow> movements_wf s \<Longrightarrow> stock_nonneg s \<Longrightarrow> sales_wf s \<Longrightarrow> purchases_wf s \<Longrightarrow> invoices_wf s \<Longrightarrow>
   accounting_wf s \<Longrightarrow> erp_wf s"
  by (simp add: erp_wf_def)

lemma erp_wfD:
  "erp_wf s \<Longrightarrow> catalog_wf s" "erp_wf s \<Longrightarrow> movements_wf s" "erp_wf s \<Longrightarrow> stock_nonneg s" "erp_wf s \<Longrightarrow> sales_wf s"
  "erp_wf s \<Longrightarrow> purchases_wf s" "erp_wf s \<Longrightarrow> invoices_wf s" "erp_wf s \<Longrightarrow> accounting_wf s"
  by (simp_all add: erp_wf_def)

text \<open>Each part of the invariant only looks at some tables.\<close>

lemma movements_wf_frame: "movements_wf s \<Longrightarrow> stockMovements s' = stockMovements s \<Longrightarrow> movements_wf s'"
  by (simp add: movements_wf_def)

lemma stock_nonneg_frame: "stock_nonneg s \<Longrightarrow> stockMovements s' = stockMovements s \<Longrightarrow> stock_nonneg s'"
  by (simp add: stock_nonneg_def stock_on_hand_def)

lemma catalog_wf_frame:
  "catalog_wf s \<Longrightarrow> products s' = products s \<Longrightarrow> customers s' = customers s \<Longrightarrow> suppliers s' = suppliers s \<Longrightarrow> catalog_wf s'"
  by (simp add: catalog_wf_def)

lemma accounting_wf_frame:
  "accounting_wf s \<Longrightarrow> accounts s' = accounts s \<Longrightarrow> journalEntries s' = journalEntries s \<Longrightarrow> accounting_wf s'"
  by (auto simp: accounting_wf_def entry_wf_def owned_account_def)

lemma invoices_wf_frame:
  "invoices_wf s \<Longrightarrow> salesInvoices s' = salesInvoices s \<Longrightarrow> sales s' = sales s \<Longrightarrow> invoices_wf s'"
  by (simp add: invoices_wf_def)

lemma sales_wf_frame:
  "sales_wf s \<Longrightarrow> sales s' = sales s \<Longrightarrow> products s' = products s \<Longrightarrow> customers s' = customers s \<Longrightarrow> sales_wf s'"
  by (simp add: sales_wf_def sale_wf_def owned_defs)

lemma purchases_wf_frame:
  "purchases_wf s \<Longrightarrow> purchases s' = purchases s \<Longrightarrow> products s' = products s \<Longrightarrow> suppliers s' = suppliers s \<Longrightarrow> purchases_wf s'"
  by (simp add: purchases_wf_def purchase_wf_def owned_defs)

lemmas wf_frames = movements_wf_frame stock_nonneg_frame catalog_wf_frame accounting_wf_frame invoices_wf_frame
  sales_wf_frame purchases_wf_frame

lemma erp_wf_audit: "erp_wf s \<Longrightarrow> erp_wf (auditLog_record a s)"
  by (rule erp_wfI; (rule wf_frames, erule erp_wfD; simp add: auditLog_record_def))

lemma catalog_step_erp_wf:
  assumes "catalog_step e s s'" and "erp_wf s"
  shows "erp_wf s'"
proof (rule erp_wfI)
  note f = catalog_step_frame[OF assms(1)] and o = catalog_step_owned[OF assms(1)] and w = erp_wfD[OF assms(2)]
  show "catalog_wf s'" by (rule catalog_step_wf[OF assms(1) w(1)])
  show "movements_wf s'" "stock_nonneg s'" "invoices_wf s'" "accounting_wf s'"
    using f by (auto intro: wf_frames w)
  show "sales_wf s'" using f by (intro sales_wf_mono[OF w(4) _ o(1,2)]) simp_all
  show "purchases_wf s'" using f by (intro purchases_wf_mono[OF w(5) _ o(1,3)]) simp_all
qed

lemma accounting_step_erp_wf:
  assumes "accounting_step e s s'" and "erp_wf s"
  shows "erp_wf s'"
proof (rule erp_wfI)
  note f = accounting_step_frame[OF assms(1)] and w = erp_wfD[OF assms(2)]
  show "catalog_wf s'" "movements_wf s'" "stock_nonneg s'" "invoices_wf s'" "sales_wf s'" "purchases_wf s'"
    using f by (auto intro: catalog_wf_frame[OF w(1)] movements_wf_frame[OF w(2)] stock_nonneg_frame[OF w(3)]
        sales_wf_frame[OF w(4)] purchases_wf_frame[OF w(5)] invoices_wf_frame[OF w(6)])
  show "accounting_wf s'" by (rule accounting_step_wf[OF assms(1) w(7)])
qed

text \<open>A confirmed sale stays the same, so the invoices stay attached to one.\<close>

lemma invoices_wf_settled_sale:
  assumes "invoices_wf s" and "find_by sale_id i (sales s) = Some sale" and "sale_status sale = Sale_DRAFT"
    and "sales s' = update_by sale_id i f (sales s)" and "salesInvoices s' = salesInvoices s" and "\<And>r. sale_id (f r) = sale_id r"
  shows "invoices_wf s'"
proof (rule invoices_wf_mono[OF assms(1,5)])
  fix j r assume "find_by sale_id j (sales s) = Some r" and "sale_status r = Sale_CONFIRMED"
  then show "find_by sale_id j (sales s') = Some r" using assms(2,3,6) by (auto simp: assms(4) find_by_update_by)
qed

lemma sales_confirm_erp_wf:
  assumes "sales_confirm_tx alive ids now e i s = Inr (view, s')" and "erp_wf s"
  shows "erp_wf s'"
proof (rule erp_wfI)
  note w = erp_wfD[OF assms(2)]
  from assms(1) obtain sale s1 where sale: "find_by sale_id i (sales s) = Some sale" "sale_status sale = Sale_DRAFT"
    and s1: "s1 = s\<lparr>stockMovements := stockMovements s @ posted now e (sale_postings ids s sale)\<rparr>"
    and s': "s' = s1\<lparr>sales := update_by sale_id i (confirmed_sale now) (sales s)\<rparr>"
    by (elim sales_confirm_tx_InrE)
  show "invoices_wf s'" by (rule invoices_wf_settled_sale[OF w(6) sale, where f = "confirmed_sale now"]) (simp_all add: s' s1)
  show "catalog_wf s'" by (rule catalog_wf_frame[OF w(1)]) (simp_all add: s' s1)
  show "purchases_wf s'" by (rule purchases_wf_frame[OF w(5)]) (simp_all add: s' s1)
  show "accounting_wf s'" by (rule accounting_wf_frame[OF w(7)]) (simp_all add: s' s1)
qed (use erp_wfD[OF assms(2)] sales_confirm_invariants[OF assms(1)] in blast)+

lemma sales_cancel_erp_wf:
  assumes "sales_cancel now e i s = Inr (view, s')" and "erp_wf s"
  shows "erp_wf s'"
proof (rule erp_wfI)
  note w = erp_wfD[OF assms(2)]
  from assms(1) obtain sale where sale: "find_by sale_id i (sales s) = Some sale" "sale_status sale = Sale_DRAFT"
    and s': "s' = s\<lparr>sales := update_by sale_id i (cancelled_sale now) (sales s)\<rparr>" by (elim sales_cancel_InrE)
  show "invoices_wf s'" by (rule invoices_wf_settled_sale[OF w(6) sale, where f = "cancelled_sale now"]) (simp_all add: s')
  show "sales_wf s'" by (rule sales_cancel_wf[OF assms(1) w(4)])
  show "catalog_wf s'" by (rule catalog_wf_frame[OF w(1)]) (simp_all add: s')
  show "purchases_wf s'" by (rule purchases_wf_frame[OF w(5)]) (simp_all add: s')
  show "accounting_wf s'" by (rule accounting_wf_frame[OF w(7)]) (simp_all add: s')
  show "movements_wf s'" by (rule movements_wf_frame[OF w(2)]) (simp add: s')
  show "stock_nonneg s'" by (rule stock_nonneg_frame[OF w(3)]) (simp add: s')
qed

lemma sales_create_erp_wf:
  assumes "sales_create alive newId lineIds now e input k s0 s = Inr (r, s')" and "createSaleSchema input" and "erp_wf s"
  shows "erp_wf s'"
proof (rule erp_wfI)
  note w = erp_wfD[OF assms(3)]
  from assms(1) obtain rows where s': "s' = s\<lparr>sales := sales s @ rows\<rparr>"
    by (elim sales_create_InrE) (auto intro: that[of "[]"])
  show "invoices_wf s'" by (rule invoices_wf_mono[OF w(6)]) (simp_all add: s' find_by_append)
  show "sales_wf s'" by (rule sales_create_wf[OF assms(1,2) w(4)])
  show "catalog_wf s'" by (rule catalog_wf_frame[OF w(1)]) (simp_all add: s')
  show "purchases_wf s'" by (rule purchases_wf_frame[OF w(5)]) (simp_all add: s')
  show "accounting_wf s'" by (rule accounting_wf_frame[OF w(7)]) (simp_all add: s')
  show "movements_wf s'" by (rule movements_wf_frame[OF w(2)]) (simp add: s')
  show "stock_nonneg s'" by (rule stock_nonneg_frame[OF w(3)]) (simp add: s')
qed

text \<open>The writes of the purchases touch their own table and the movements only.\<close>

lemma purchases_write_erp_wf:
  assumes "erp_wf s" and "s' = s\<lparr>stockMovements := ms, purchases := rows\<rparr>" and "purchases_wf s'" "movements_wf s'" "stock_nonneg s'"
  shows "erp_wf s'"
proof (rule erp_wfI)
  note w = erp_wfD[OF assms(1)]
  show "catalog_wf s'" by (rule catalog_wf_frame[OF w(1)]) (simp_all add: assms(2))
  show "sales_wf s'" by (rule sales_wf_frame[OF w(4)]) (simp_all add: assms(2))
  show "invoices_wf s'" by (rule invoices_wf_frame[OF w(6)]) (simp_all add: assms(2))
  show "accounting_wf s'" by (rule accounting_wf_frame[OF w(7)]) (simp_all add: assms(2))
qed fact+

lemma purchases_confirm_erp_wf:
  assumes "purchases_confirm_tx alive ids now e i s = Inr (view, s')" and "erp_wf s"
  shows "erp_wf s'"
proof -
  note w = erp_wfD[OF assms(2)] and v = purchases_confirm_invariants[OF assms(1)]
  from assms(1) obtain ms rows where "s' = s\<lparr>stockMovements := ms, purchases := rows\<rparr>"
    by (elim purchases_confirm_tx_InrE) blast
  then show ?thesis by (rule purchases_write_erp_wf[OF assms(2) _ v(1)[OF w(5)] v(2)[OF w(2)] v(3)[OF w(3)]])
qed

lemma purchases_rows_erp_wf:
  assumes "s' = s\<lparr>purchases := rows\<rparr>" and "purchases_wf s'" and "erp_wf s"
  shows "erp_wf s'"
proof -
  note w = erp_wfD[OF assms(3)]
  have "s' = s\<lparr>stockMovements := stockMovements s, purchases := rows\<rparr>" by (simp add: assms(1))
  then show ?thesis by (rule purchases_write_erp_wf[OF assms(3) _ assms(2)])
      (rule movements_wf_frame[OF w(2)] stock_nonneg_frame[OF w(3)]; simp add: assms(1))+
qed

lemma purchases_cancel_erp_wf:
  assumes "purchases_cancel now e i s = Inr (view, s')" and "erp_wf s"
  shows "erp_wf s'"
  using assms(1) by (rule purchases_cancel_InrE)
    (erule purchases_rows_erp_wf[OF _ purchases_cancel_wf[OF assms(1) erp_wfD(5)[OF assms(2)]] assms(2)])

lemma purchases_create_erp_wf:
  assumes "purchases_create alive newId lineIds now e input k s0 s = Inr (r, s')" and "createPurchaseSchema input" and "erp_wf s"
  shows "erp_wf s'"
proof -
  from assms(1) obtain rows where "s' = s\<lparr>purchases := purchases s @ rows\<rparr>"
    by (elim purchases_create_InrE) (auto intro: that[of "[]"])
  then show ?thesis by (rule purchases_rows_erp_wf[OF _ purchases_create_wf[OF assms(1,2) erp_wfD(5)[OF assms(3)]] assms(3)])
qed

text \<open>Invoicing writes its table, its counters and the audit log.\<close>

lemma invoice_tx_shape:
  assumes "invoice_create_tx flt newId now e saleId k s0 s = Inr (r, s1)"
  shows "s1 = s \<or> (\<exists>row. salesInvoice_enterpriseId row = e \<and>
    s1 = s\<lparr>salesInvoiceCounters := (salesInvoiceCounters s)(e \<mapsto> next_number (salesInvoiceCounters s) e),
            salesInvoices := salesInvoices s @ [row]\<rparr>)"
  using assms by (rule invoice_create_tx_InrE) (auto simp: issued_db_def intro!: exI[where P = "\<lambda>row. _ row \<and> _ row"])

lemma invoicing_create_shape:
  assumes "invoicing_service_create store flt newId now e u saleId k s0 s s = (res, s')"
  shows "s' = s \<or> (\<exists>r s1. invoice_create_tx flt newId now e saleId k s0 s = Inr (r, s1) \<and>
    (s' = s1 \<or> (\<exists>a. audit_enterpriseId a = Some e \<and> s' = auditLog_record a s1)))"
proof (cases "tenant_run store (invoice_create_tx flt newId now e saleId k s0) s")
  case (Pair o1 s1)
  show ?thesis
  proof (cases o1)
    case (Inl err)
    then show ?thesis using assms Pair by (auto simp: invoicing_service_create_def invoicing_create_def
        split: prod.splits sum.splits if_splits dest: invoice_recover_InrD)
  next
    case (Inr r)
    have "audit_enterpriseId (audit_entry u e CREATE_INVOICE ''SalesInvoice'' i) = Some e" for i by (simp add: audit_entry_def)
    then have "s' = s1 \<or> (\<exists>a. audit_enterpriseId a = Some e \<and> s' = auditLog_record a s1)"
      using assms Pair Inr by (auto simp: invoicing_service_create_def invoicing_create_def split: if_splits)
    moreover have "invoice_create_tx flt newId now e saleId k s0 s = Inr (r, s1)"
      using tenant_run_InrD[where store = store and t = "invoice_create_tx flt newId now e saleId k s0"] Pair Inr by simp
    ultimately show ?thesis by blast
  qed
qed

section \<open>What a request of an enterprise may do\<close>

inductive erp_moves :: "(create_sale_input \<Rightarrow> string option \<Rightarrow> bool) \<Rightarrow> uuid \<Rightarrow> db \<Rightarrow> db \<Rightarrow> bool" for P e where
  same: "erp_moves P e s s"
| audit: "erp_moves P e s s' \<Longrightarrow> audit_enterpriseId a = Some e \<Longrightarrow> erp_moves P e s (auditLog_record a s')"
| catalog: "catalog_step e s s' \<Longrightarrow> erp_moves P e s s'"
| accounting: "accounting_step e s s' \<Longrightarrow> erp_moves P e s s'"
| movement: "applyMovement False newId now e input k s = Inr (r, s') \<Longrightarrow> erp_moves P e s s'"
| sale: "sales_create False newId lineIds now e sale_input k s0 s = Inr (sr, s') \<Longrightarrow> createSaleSchema sale_input \<Longrightarrow>
    P sale_input k \<Longrightarrow> erp_moves P e s s'"
| sale_confirm: "sales_confirm_tx False ids now e i s = Inr (sv, s') \<Longrightarrow> erp_moves P e s s'"
| sale_cancel: "sales_cancel now e i s = Inr (sv, s') \<Longrightarrow> erp_moves P e s s'"
| purchase: "purchases_create False newId lineIds now e purchase_input k s0 s = Inr (pr, s') \<Longrightarrow>
    createPurchaseSchema purchase_input \<Longrightarrow> erp_moves P e s s'"
| purchase_confirm: "purchases_confirm_tx False ids now e i s = Inr (pv, s') \<Longrightarrow> erp_moves P e s s'"
| purchase_cancel: "purchases_cancel now e i s = Inr (pv, s') \<Longrightarrow> erp_moves P e s s'"
| invoice: "invoicing_service_create store flt newId now e u saleId k s0 s s = (res, s') \<Longrightarrow> erp_moves P e s s'"
| invoice_paid: "invoicing_markPaid now e i s = Inr (iv, s') \<Longrightarrow> erp_moves P e s s'"
| invoice_void: "invoicing_void now e i s = Inr (iv, s') \<Longrightarrow> erp_moves P e s s'"

text \<open>Every route is such a step.\<close>

lemma answering_snd [simp]: "snd (answering f r) = snd r"
  by (simp add: answering_def)

lemma reading_snd [simp]: "snd (reading store f s) = s"
  by (simp add: reading_def)

lemma ZodValidationPipe_step:
  "(valid \<Longrightarrow> erp_moves P e s (snd (handler s))) \<Longrightarrow> erp_moves P e s (snd (ZodValidationPipe valid handler s))"
  by (simp add: ZodValidationPipe_def erp_moves.same)

lemma audited_step: "erp_moves P e s (snd r) \<Longrightarrow> erp_moves P e s (snd (audited u e a res f r))"
  by (auto simp: audited_def audit_entry_def split: prod.splits sum.splits intro!: erp_moves.audit)

lemma tenant_run_step:
  "(\<And>a s'. t s = Inr (a, s') \<Longrightarrow> erp_moves P e s s') \<Longrightarrow> erp_moves P e s (snd (tenant_run store t s))"
  by (rule tenant_run_invariant[where P = "erp_moves P e s"]) (auto intro: erp_moves.same)

lemma commit_txn_step: "(\<And>a s'. t s = Inr (a, s') \<Longrightarrow> erp_moves P e s s') \<Longrightarrow> erp_moves P e s (snd (commit_txn t s))"
  by (rule commit_txn_invariant[where P = "erp_moves P e s"]) (auto intro: erp_moves.same)

lemma step_audit: "erp_moves P e s s' \<Longrightarrow> erp_moves P e s (auditLog_record (audit_entry u e a res i) s')"
  by (simp add: erp_moves.audit audit_entry_def)

lemma sales_create_step:
  assumes "createSaleSchema input" and "P input k"
  shows "erp_moves P e s (snd (sales_service_create store False newId lineIds now e u input k s0 s))"
proof -
  have "erp_moves P e s (snd (tenant_run store (sales_create False newId lineIds now e input k s0) s))"
    by (rule tenant_run_step) (erule erp_moves.sale; rule assms)
  then show ?thesis by (auto simp: sales_service_create_def split: prod.splits sum.splits intro!: step_audit)
qed

lemma purchases_create_step:
  assumes "createPurchaseSchema input"
  shows "erp_moves P e s (snd (purchases_service_create store False newId lineIds now e u input k s0 s))"
proof -
  have "erp_moves P e s (snd (tenant_run store (purchases_create False newId lineIds now e input k s0) s))"
    by (rule tenant_run_step) (rule erp_moves.purchase[OF _ assms])
  then show ?thesis by (auto simp: purchases_service_create_def split: prod.splits sum.splits intro!: step_audit)
qed

lemma settle_steps:
  "erp_moves P e s (snd (sales_service_cancel store now e u i s))"
  "erp_moves P e s (snd (purchases_service_cancel store now e u i s))"
  "erp_moves P e s (snd (invoicing_service_markPaid store now e u i s))"
  "erp_moves P e s (snd (invoicing_service_void store now e u i s))"
proof -
  have "erp_moves P e s (snd (tenant_run store (sales_cancel now e i) s))" by (rule tenant_run_step) (rule erp_moves.sale_cancel)
  then show "erp_moves P e s (snd (sales_service_cancel store now e u i s))"
    by (auto simp: sales_service_cancel_def split: prod.splits sum.splits intro!: step_audit)
  have "erp_moves P e s (snd (tenant_run store (purchases_cancel now e i) s))" by (rule tenant_run_step) (rule erp_moves.purchase_cancel)
  then show "erp_moves P e s (snd (purchases_service_cancel store now e u i s))"
    by (auto simp: purchases_service_cancel_def split: prod.splits sum.splits intro!: step_audit)
  show "erp_moves P e s (snd (invoicing_service_markPaid store now e u i s))" "erp_moves P e s (snd (invoicing_service_void store now e u i s))"
    unfolding invoicing_service_markPaid_def invoicing_service_void_def
    by (rule audited_step, rule tenant_run_step, erule erp_moves.invoice_paid erp_moves.invoice_void)+
qed

lemma serializable_steps:
  "erp_moves P e s (snd (sales_service_confirm store abrt False ids now e u i s))"
  "erp_moves P e s (snd (purchases_service_confirm store abrt False ids now e u i s))"
  "erp_moves P e s (snd (stock_createMovement store abrt False newId now e u input k s))"
proof -
  have "erp_moves P e s (snd (sales_confirm store abrt False ids now e i s))"
    using commit_txn_step[where t = "sales_confirm_tx False ids now e i", OF erp_moves.sale_confirm]
    by (cases store) (simp_all add: sales_confirm_None sales_confirm_eq erp_moves.same)
  then show "erp_moves P e s (snd (sales_service_confirm store abrt False ids now e u i s))"
    by (auto simp: sales_service_confirm_def split: prod.splits sum.splits intro!: step_audit)
  have "erp_moves P e s (snd (purchases_confirm store abrt False ids now e i s))"
    using commit_txn_step[where t = "purchases_confirm_tx False ids now e i", OF erp_moves.purchase_confirm]
    by (cases store) (simp_all add: purchases_confirm_None purchases_confirm_eq erp_moves.same)
  then show "erp_moves P e s (snd (purchases_service_confirm store abrt False ids now e u i s))"
    by (auto simp: purchases_service_confirm_def split: prod.splits sum.splits intro!: step_audit)
  have "erp_moves P e s (snd (createMovement store abrt False newId now e input k s))"
    using commit_txn_step[where t = "applyMovement False newId now e input k", OF erp_moves.movement]
    by (cases store) (simp_all add: createMovement_None createMovement_eq erp_moves.same)
  then show "erp_moves P e s (snd (stock_createMovement store abrt False newId now e u input k s))"
    by (auto simp: stock_createMovement_def split: prod.splits sum.splits intro!: step_audit)
qed

text \<open>The only sale a route can create is the one of its own body.\<close>

lemma controller_moves: "erp_moves (\<lambda>v k. r = Sales (Sales_create v k)) e s (snd (controller env store e u r s))"
proof (cases r)
  case (Products x)
  then show ?thesis by (cases x) (auto simp: products_services_step[THEN erp_moves.catalog] intro!: erp_moves.same ZodValidationPipe_step)
next
  case (Customers x)
  then show ?thesis by (cases x) (auto simp: customers_services_step[THEN erp_moves.catalog] intro!: erp_moves.same ZodValidationPipe_step)
next
  case (Suppliers x)
  then show ?thesis by (cases x) (auto simp: suppliers_services_step[THEN erp_moves.catalog] intro!: erp_moves.same ZodValidationPipe_step)
next
  case (Stock x)
  then show ?thesis by (cases x) (auto simp: serializable_steps intro!: erp_moves.same ZodValidationPipe_step)
next
  case (Sales x)
  then show ?thesis
    by (cases x) (auto simp: serializable_steps settle_steps sales_create_step intro!: erp_moves.same ZodValidationPipe_step)
next
  case (Purchases x)
  then show ?thesis
    by (cases x) (auto simp: serializable_steps settle_steps purchases_create_step intro!: erp_moves.same ZodValidationPipe_step)
next
  case (Invoices x)
  then show ?thesis
    by (cases x) (auto simp: settle_steps intro!: erp_moves.same ZodValidationPipe_step erp_moves.invoice[OF prod.collapse[symmetric]])
next
  case (Accounts x)
  then show ?thesis by (cases x) (auto simp: accounts_services_step[THEN erp_moves.accounting] intro!: erp_moves.same ZodValidationPipe_step)
next
  case (Journal x)
  then show ?thesis by (cases x) (auto simp: journal_service_create_step[THEN erp_moves.accounting] intro!: erp_moves.same ZodValidationPipe_step)
next
  case Trial_balance
  then show ?thesis by (simp add: TrialBalanceController_def erp_moves.same)
next
  case (Reports x)
  then show ?thesis by (cases x) (simp_all add: erp_moves.same)
qed

abbreviation erp_step :: "uuid \<Rightarrow> db \<Rightarrow> db \<Rightarrow> bool" where
  "erp_step \<equiv> erp_moves (\<lambda>_ _. True)"

lemma erp_moves_step: "erp_moves P e s s' \<Longrightarrow> erp_step e s s'"
  by (induction rule: erp_moves.induct) (auto intro: erp_moves.intros)

lemma controller_step: "erp_step e s (snd (controller env store e u r s))"
  by (rule erp_moves_step[OF controller_moves])

section \<open>The steps keep the invariant\<close>

lemma invoices_step_erp_wf:
  assumes "invoicing_step s s'" and "s' = s\<lparr>salesInvoices := rows, salesInvoiceCounters := c, auditLogs := logs\<rparr>" and "erp_wf s"
  shows "erp_wf s'"
proof (rule erp_wfI)
  note w = erp_wfD[OF assms(3)]
  show "invoices_wf s'" by (rule invoicing_step_wf[OF assms(1) w(6)]) (simp add: assms(2))
  show "catalog_wf s'" by (rule catalog_wf_frame[OF w(1)]) (simp_all add: assms(2))
  show "sales_wf s'" by (rule sales_wf_frame[OF w(4)]) (simp_all add: assms(2))
  show "purchases_wf s'" by (rule purchases_wf_frame[OF w(5)]) (simp_all add: assms(2))
  show "accounting_wf s'" by (rule accounting_wf_frame[OF w(7)]) (simp_all add: assms(2))
  show "movements_wf s'" by (rule movements_wf_frame[OF w(2)]) (simp add: assms(2))
  show "stock_nonneg s'" by (rule stock_nonneg_frame[OF w(3)]) (simp add: assms(2))
qed

lemma invoice_erp_wf:
  assumes "invoicing_service_create store flt newId now e u saleId k s0 s s = (res, s')" and "erp_wf s"
  shows "erp_wf s'"
proof -
  note st = invoicing_step.create[OF assms(1)]
  from invoicing_create_shape[OF assms(1)] show ?thesis
  proof (elim disjE exE conjE)
    fix r s1 assume tx: "invoice_create_tx flt newId now e saleId k s0 s = Inr (r, s1)"
    have same: "s = s\<lparr>salesInvoiceCounters := salesInvoiceCounters s, salesInvoices := salesInvoices s\<rparr>" by simp
    from invoice_tx_shape[OF tx] have "\<exists>rows c. s1 = s\<lparr>salesInvoiceCounters := c, salesInvoices := rows\<rparr>"
      using same by blast
    then obtain rows c where s1: "s1 = s\<lparr>salesInvoiceCounters := c, salesInvoices := rows\<rparr>" by blast
    show "erp_wf s'" if "s' = s1"
      by (rule invoices_step_erp_wf[OF st _ assms(2), where rows = rows and c = c and logs = "auditLogs s"]) (simp add: that s1)
    show "erp_wf s'" if "s' = auditLog_record a s1" for a
      by (rule invoices_step_erp_wf[OF st _ assms(2), where rows = rows and c = c and logs = "auditLogs s @ [a]"]) (simp add: that s1 auditLog_record_def)
  qed (simp add: assms(2))
qed

lemma invoice_settle_erp_wf:
  assumes "f = paid_invoice now \<or> f = voided_invoice now" and "erp_wf s"
  shows "erp_wf (settle_invoice i f s)"
proof (rule erp_wfI)
  note w = erp_wfD[OF assms(2)]
  let ?s = "settle_invoice i f s"
  have k: "salesInvoice_id (f r) = salesInvoice_id r \<and> salesInvoice_saleId (f r) = salesInvoice_saleId r \<and>
     salesInvoice_number (f r) = salesInvoice_number r \<and> salesInvoice_enterpriseId (f r) = salesInvoice_enterpriseId r \<and>
     salesInvoice_idempotencyKey (f r) = salesInvoice_idempotencyKey r" for r
    using assms(1) by auto
  show "invoices_wf ?s" using w(6) unfolding invoices_wf_def settle_invoice_def
    by (simp add: map_update_by k unique_key_update_by) (intro Ball_update_by; simp add: k cong: option.case_cong)
  show "catalog_wf ?s" by (rule catalog_wf_frame[OF w(1)]) (simp_all add: settle_invoice_def)
  show "sales_wf ?s" by (rule sales_wf_frame[OF w(4)]) (simp_all add: settle_invoice_def)
  show "purchases_wf ?s" by (rule purchases_wf_frame[OF w(5)]) (simp_all add: settle_invoice_def)
  show "accounting_wf ?s" by (rule accounting_wf_frame[OF w(7)]) (simp_all add: settle_invoice_def)
  show "movements_wf ?s" by (rule movements_wf_frame[OF w(2)]) (simp add: settle_invoice_def)
  show "stock_nonneg ?s" by (rule stock_nonneg_frame[OF w(3)]) (simp add: settle_invoice_def)
qed

lemma movement_erp_wf:
  assumes "applyMovement False newId now e input k s = Inr (r, s')" and "erp_wf s"
  shows "erp_wf s'"
proof (rule erp_wfI)
  note w = erp_wfD[OF assms(2)]
  obtain rows where s': "s' = s\<lparr>stockMovements := rows\<rparr>"
    using assms(1) by (rule applyMovement_InrE) (auto intro: that[of "stockMovements s"] that)
  show "movements_wf s'" "stock_nonneg s'" using applyMovement_invariants[OF assms(1)] w by blast+
  show "catalog_wf s'" by (rule catalog_wf_frame[OF w(1)]) (simp_all add: s')
  show "sales_wf s'" by (rule sales_wf_frame[OF w(4)]) (simp_all add: s')
  show "purchases_wf s'" by (rule purchases_wf_frame[OF w(5)]) (simp_all add: s')
  show "accounting_wf s'" by (rule accounting_wf_frame[OF w(7)]) (simp_all add: s')
  show "invoices_wf s'" by (rule invoices_wf_frame[OF w(6)]) (simp_all add: s')
qed

lemma erp_step_wf: "erp_step e s s' \<Longrightarrow> erp_wf s \<Longrightarrow> erp_wf s'"
proof (induction rule: erp_moves.induct)
  case (invoice_paid now i s iv s')
  then show ?case by (auto dest!: invoicing_settle_InrD intro: invoice_settle_erp_wf)
next
  case (invoice_void now i s iv s')
  then show ?case by (auto dest!: invoicing_settle_InrD intro: invoice_settle_erp_wf)
qed (blast intro: erp_wf_audit catalog_step_erp_wf accounting_step_erp_wf movement_erp_wf sales_create_erp_wf
    sales_confirm_erp_wf sales_cancel_erp_wf purchases_create_erp_wf purchases_confirm_erp_wf purchases_cancel_erp_wf invoice_erp_wf)+

section \<open>Separation of the enterprises\<close>

text \<open>
  What an enterprise can see: the rows its row level security policy lets through, its own counters
  and the audit entries about it; the tables of the platform are seen whole.
\<close>

definition tenant_view :: "uuid \<Rightarrow> db \<Rightarrow> db" where
  "tenant_view e s = (rls e s)\<lparr>
     salesInvoiceCounters := (salesInvoiceCounters s) |` {e}, journalEntryCounters := (journalEntryCounters s) |` {e},
     auditLogs := filter (\<lambda>a. audit_enterpriseId a = Some e) (auditLogs s)\<rparr>"

lemma filter_map_foreign:
  "\<forall>r\<in>set rows. g r = r \<or> \<not> P r \<and> \<not> P (g r) \<Longrightarrow> filter P (map g rows) = filter P rows"
  by (induction rows) auto

lemma filter_update_foreign:
  assumes "distinct (map key rows)" and "find_by key i rows = Some r" and "tenant r \<noteq> e'" and "\<And>x. tenant (f x) = tenant x"
  shows "filter (\<lambda>x. tenant x = e') (update_by key i f rows) = filter (\<lambda>x. tenant x = e') rows"
  unfolding update_by_def
proof (rule filter_map_foreign, rule ballI)
  fix x assume x: "x \<in> set rows"
  show "(if key x = i then f x else x) = x \<or> \<not> tenant x = e' \<and> \<not> tenant (if key x = i then f x else x) = e'"
  proof (cases "key x = i")
    case True
    then have "x = r" using find_by_distinct[OF assms(1) x] assms(2) by simp
    then show ?thesis using assms(3,4) by simp
  qed simp
qed

definition separate :: "uuid \<Rightarrow> db \<Rightarrow> db \<Rightarrow> bool" where
  "separate e s s' \<longleftrightarrow> (\<forall>e'. e' \<noteq> e \<longrightarrow> tenant_view e' s' = tenant_view e' s)"

lemma separate_refl: "separate e s s"
  by (simp add: separate_def)

lemma separate_trans: "separate e s s1 \<Longrightarrow> separate e s1 s2 \<Longrightarrow> separate e s s2"
  by (simp add: separate_def)

lemma separate_appends:
  "audit_enterpriseId a = Some e \<Longrightarrow> separate e s (auditLog_record a s)"
  "product_enterpriseId p = e \<Longrightarrow> separate e s (s\<lparr>products := products s @ [p]\<rparr>)"
  "customer_enterpriseId c = e \<Longrightarrow> separate e s (s\<lparr>customers := customers s @ [c]\<rparr>)"
  "supplier_enterpriseId x = e \<Longrightarrow> separate e s (s\<lparr>suppliers := suppliers s @ [x]\<rparr>)"
  "\<forall>m\<in>set ms. movement_enterpriseId m = e \<Longrightarrow> separate e s (s\<lparr>stockMovements := stockMovements s @ ms\<rparr>)"
  "sale_enterpriseId v = e \<Longrightarrow> separate e s (s\<lparr>sales := sales s @ [v]\<rparr>)"
  "purchase_enterpriseId w = e \<Longrightarrow> separate e s (s\<lparr>purchases := purchases s @ [w]\<rparr>)"
  "account_enterpriseId b = e \<Longrightarrow> separate e s (s\<lparr>accounts := accounts s @ [b]\<rparr>)"
  by (auto simp: separate_def tenant_view_def rls_def auditLog_record_def filter_empty_conv)

lemma restrict_other: "e' \<noteq> e \<Longrightarrow> m(e \<mapsto> n) |` {e'} = m |` {e'}"
  by (rule ext) (simp add: restrict_map_def)

lemma separate_numbered:
  "salesInvoice_enterpriseId r = e \<Longrightarrow>
   separate e s (s\<lparr>salesInvoiceCounters := (salesInvoiceCounters s)(e \<mapsto> n), salesInvoices := salesInvoices s @ [r]\<rparr>)"
  "journalEntry_enterpriseId q = e \<Longrightarrow>
   separate e s (s\<lparr>journalEntryCounters := (journalEntryCounters s)(e \<mapsto> n), journalEntries := journalEntries s @ [q]\<rparr>)"
  by (simp_all add: separate_def tenant_view_def rls_def restrict_other)

lemma separate_updates:
  assumes "erp_wf s"
  shows "owned_product e i s \<Longrightarrow> keeps_product f \<Longrightarrow> separate e s (set_products i f s)"
    and "owned_customer e i s \<Longrightarrow> keeps_customer g \<Longrightarrow> separate e s (s\<lparr>customers := update_by customer_id i g (customers s)\<rparr>)"
    and "owned_supplier e i s \<Longrightarrow> keeps_supplier h \<Longrightarrow> separate e s (s\<lparr>suppliers := update_by supplier_id i h (suppliers s)\<rparr>)"
    and "owned_account e i s \<Longrightarrow> keeps_account k \<Longrightarrow> separate e s (s\<lparr>accounts := update_by account_id i k (accounts s)\<rparr>)"
proof -
  note w = erp_wfD(1)[OF assms, unfolded catalog_wf_def] erp_wfD(7)[OF assms, unfolded accounting_wf_def]
  show "separate e s (set_products i f s)" if owned: "owned_product e i s" and keep: "keeps_product f"
  proof -
    obtain r where r: "find_by product_id i (products s) = Some r" "product_enterpriseId r = e"
      using owned by (auto simp: owned_product_def split: option.splits)
    have "\<And>x. product_enterpriseId (f x) = product_enterpriseId x" using keep by (simp add: keeps_product_def)
    then show ?thesis using filter_update_foreign[of product_id "products s" i r product_enterpriseId _ f] w(1) r
      by (simp add: separate_def tenant_view_def rls_def set_products_def)
  qed
  show "separate e s (s\<lparr>customers := update_by customer_id i g (customers s)\<rparr>)" if owned: "owned_customer e i s" and keep: "keeps_customer g"
  proof -
    obtain r where r: "find_by customer_id i (customers s) = Some r" "customer_enterpriseId r = e"
      using owned by (auto simp: owned_customer_def split: option.splits)
    have "\<And>x. customer_enterpriseId (g x) = customer_enterpriseId x" using keep by (simp add: keeps_customer_def)
    then show ?thesis using filter_update_foreign[of customer_id "customers s" i r customer_enterpriseId _ g] w(1) r
      by (simp add: separate_def tenant_view_def rls_def)
  qed
  show "separate e s (s\<lparr>suppliers := update_by supplier_id i h (suppliers s)\<rparr>)" if owned: "owned_supplier e i s" and keep: "keeps_supplier h"
  proof -
    obtain r where r: "find_by supplier_id i (suppliers s) = Some r" "supplier_enterpriseId r = e"
      using owned by (auto simp: owned_supplier_def split: option.splits)
    have "\<And>x. supplier_enterpriseId (h x) = supplier_enterpriseId x" using keep by (simp add: keeps_supplier_def)
    then show ?thesis using filter_update_foreign[of supplier_id "suppliers s" i r supplier_enterpriseId _ h] w(1) r
      by (simp add: separate_def tenant_view_def rls_def)
  qed
  show "separate e s (s\<lparr>accounts := update_by account_id i k (accounts s)\<rparr>)" if owned: "owned_account e i s" and keep: "keeps_account k"
  proof -
    obtain r where r: "find_by account_id i (accounts s) = Some r" "account_enterpriseId r = e"
      using owned by (auto simp: owned_account_def split: option.splits)
    have "\<And>x. account_enterpriseId (k x) = account_enterpriseId x" using keep by (simp add: keeps_account_def)
    then show ?thesis using filter_update_foreign[of account_id "accounts s" i r account_enterpriseId _ k] w(2) r
      by (simp add: separate_def tenant_view_def rls_def)
  qed
qed

lemma separate_documents:
  assumes "erp_wf s"
  shows "find_by sale_id i (sales s) = Some sale \<Longrightarrow> sale_enterpriseId sale = e \<Longrightarrow> (\<And>x. sale_enterpriseId (f x) = sale_enterpriseId x) \<Longrightarrow>
      separate e s (s\<lparr>sales := update_by sale_id i f (sales s)\<rparr>)"
    and "find_by purchase_id i (purchases s) = Some purchase \<Longrightarrow> purchase_enterpriseId purchase = e \<Longrightarrow>
      (\<And>x. purchase_enterpriseId (g x) = purchase_enterpriseId x) \<Longrightarrow>
      separate e s (s\<lparr>purchases := update_by purchase_id i g (purchases s)\<rparr>)"
    and "find_by salesInvoice_id i (salesInvoices s) = Some ivc \<Longrightarrow> salesInvoice_enterpriseId ivc = e \<Longrightarrow>
      (\<And>x. salesInvoice_enterpriseId (h x) = salesInvoice_enterpriseId x) \<Longrightarrow> separate e s (settle_invoice i h s)"
proof -
  note w = erp_wfD(4)[OF assms, unfolded sales_wf_def] erp_wfD(5)[OF assms, unfolded purchases_wf_def]
    erp_wfD(6)[OF assms, unfolded invoices_wf_def]
  show "find_by sale_id i (sales s) = Some sale \<Longrightarrow> sale_enterpriseId sale = e \<Longrightarrow> (\<And>x. sale_enterpriseId (f x) = sale_enterpriseId x) \<Longrightarrow>
      separate e s (s\<lparr>sales := update_by sale_id i f (sales s)\<rparr>)"
    using filter_update_foreign[of sale_id "sales s" i sale sale_enterpriseId _ f] w(1)
    by (simp add: separate_def tenant_view_def rls_def)
  show "find_by purchase_id i (purchases s) = Some purchase \<Longrightarrow> purchase_enterpriseId purchase = e \<Longrightarrow>
      (\<And>x. purchase_enterpriseId (g x) = purchase_enterpriseId x) \<Longrightarrow>
      separate e s (s\<lparr>purchases := update_by purchase_id i g (purchases s)\<rparr>)"
    using filter_update_foreign[of purchase_id "purchases s" i purchase purchase_enterpriseId _ g] w(2)
    by (simp add: separate_def tenant_view_def rls_def)
  show "find_by salesInvoice_id i (salesInvoices s) = Some ivc \<Longrightarrow> salesInvoice_enterpriseId ivc = e \<Longrightarrow>
      (\<And>x. salesInvoice_enterpriseId (h x) = salesInvoice_enterpriseId x) \<Longrightarrow> separate e s (settle_invoice i h s)"
    using filter_update_foreign[of salesInvoice_id "salesInvoices s" i ivc salesInvoice_enterpriseId _ h] w(3)
    by (simp add: separate_def tenant_view_def rls_def settle_invoice_def)
qed

lemma catalog_step_separate: "catalog_step e s s' \<Longrightarrow> erp_wf s \<Longrightarrow> separate e s s'"
proof (induction rule: catalog_step.induct)
  case (audit s s' a)
  then show ?case by (intro separate_trans[OF _ separate_appends(1)]) auto
qed (auto simp: separate_refl dest!: card_writes product_write_InrD intro!: separate_appends separate_updates)

lemma accounting_step_separate: "accounting_step e s s' \<Longrightarrow> erp_wf s \<Longrightarrow> separate e s s'"
proof (induction rule: accounting_step.induct)
  case (audit s s' a)
  then show ?case by (intro separate_trans[OF _ separate_appends(1)]) auto
next
  case (entry store newId lineIds now input k s0 s r s')
  from journal_create_InrD(1)[OF entry(1)] show ?case
  proof (cases rule: journal_create_tx_InrE)
    case insert
    have "journalEntry_enterpriseId (new_entry newId lineIds now e input k s) = e" by simp
    from separate_numbered(2)[OF this] show ?thesis by (simp add: insert recorded_db_def)
  qed (simp add: separate_refl)
qed (auto simp: separate_refl dest!: account_writes intro!: separate_appends separate_updates)

lemma confirm_separate:
  assumes "sales_confirm_tx alive ids now e i s = Inr (view, s')" and "erp_wf s"
  shows "separate e s s'"
proof -
  from assms(1) obtain sale ms where sale: "find_by sale_id i (sales s) = Some sale" "sale_enterpriseId sale = e"
    and s': "s' = (s\<lparr>stockMovements := stockMovements s @ posted now e ms\<rparr>)\<lparr>sales := update_by sale_id i (confirmed_sale now) (sales s)\<rparr>"
    by (elim sales_confirm_tx_InrE) simp
  let ?t = "s\<lparr>sales := update_by sale_id i (confirmed_sale now) (sales s)\<rparr>"
  have "separate e s ?t" by (rule separate_documents(1)[OF assms(2) sale]) simp
  moreover have "separate e ?t (?t\<lparr>stockMovements := stockMovements ?t @ posted now e ms\<rparr>)"
    by (rule separate_appends(5)) (simp add: posted_def)
  moreover have "s' = ?t\<lparr>stockMovements := stockMovements ?t @ posted now e ms\<rparr>" by (rule db.equality) (simp_all add: s')
  ultimately show ?thesis using separate_trans by blast
qed

lemma purchases_confirm_separate:
  assumes "purchases_confirm_tx alive ids now e i s = Inr (view, s')" and "erp_wf s"
  shows "separate e s s'"
proof -
  from assms(1) obtain purchase ms where p: "find_by purchase_id i (purchases s) = Some purchase" "purchase_enterpriseId purchase = e"
    and s': "s' = (s\<lparr>stockMovements := stockMovements s @ posted now e ms\<rparr>)\<lparr>purchases := update_by purchase_id i (confirmed_purchase now) (purchases s)\<rparr>"
    by (elim purchases_confirm_tx_InrE) simp
  let ?t = "s\<lparr>purchases := update_by purchase_id i (confirmed_purchase now) (purchases s)\<rparr>"
  have "separate e s ?t" by (rule separate_documents(2)[OF assms(2) p]) simp
  moreover have "separate e ?t (?t\<lparr>stockMovements := stockMovements ?t @ posted now e ms\<rparr>)"
    by (rule separate_appends(5)) (simp add: posted_def)
  moreover have "s' = ?t\<lparr>stockMovements := stockMovements ?t @ posted now e ms\<rparr>" by (rule db.equality) (simp_all add: s')
  ultimately show ?thesis using separate_trans by blast
qed

lemma erp_step_separate: "erp_step e s s' \<Longrightarrow> erp_wf s \<Longrightarrow> separate e s s'"
proof (induction rule: erp_moves.induct)
  case (audit s s' a)
  then show ?case by (intro separate_trans[OF _ separate_appends(1)]) auto
next
  case (movement newId now input k s r s')
  then show ?case using separate_appends(5)[of "[new_movement newId now e input k]" e s]
    by (auto simp: separate_refl elim: applyMovement_InrE)
next
  case (sale newId lineIds now sale_input k s0 s sr s')
  then show ?case using separate_appends(6)[of "new_sale newId lineIds now e sale_input k s" e s]
    by (auto simp: separate_refl elim: sales_create_InrE)
next
  case (purchase newId lineIds now purchase_input k s0 s pr s')
  then show ?case using separate_appends(7)[of "new_purchase newId lineIds now e purchase_input k s" e s]
    by (auto simp: separate_refl elim: purchases_create_InrE)
next
  case (sale_cancel now i s sv s')
  then show ?case by (elim sales_cancel_InrE) (simp add: separate_documents(1))
next
  case (purchase_cancel now i s pv s')
  then show ?case by (elim purchases_cancel_InrE) (simp add: separate_documents(2))
next
  case (invoice store flt newId now u saleId k s0 s res s')
  have tx: "separate e s s1" if "invoice_create_tx flt newId now e saleId k s0 s = Inr (r, s1)" for r s1
    using invoice_tx_shape[OF that] separate_numbered(1) separate_refl by blast
  from invoicing_create_shape[OF invoice(1)] show ?case
    using tx separate_refl separate_trans separate_appends(1) by blast
next
  case (invoice_paid now i s iv s')
  then show ?case by (auto dest!: invoicing_settle_InrD simp: separate_documents(3))
next
  case (invoice_void now i s iv s')
  then show ?case by (auto dest!: invoicing_settle_InrD simp: separate_documents(3))
qed (blast intro: separate_refl catalog_step_separate accounting_step_separate confirm_separate purchases_confirm_separate)+

end
