(* ===== verification/Gateway.thy ===== *)
theory Gateway
  imports Requests
begin

text \<open>
  The requests of any number of users against one server: which database an answer leaves, who gets an
  answer at all, and that neither the books nor another enterprise are ever disturbed. The theory
  interprets \<open>tenant_isolated\<close> on the requests of the whole application.
\<close>

section \<open>The chain of guards\<close>

lemma guards_db [simp]: "server_db (snd (guards cfg now h m srv)) = server_db srv"
  by (simp add: guards_def Let_def split: prod.splits sum.splits)

lemma guards_user:
  assumes "fst (guards cfg now h m srv) = Inr user"
  obtains token payload e where "bearer_token h = Some token" "verifyAccessToken (jwt_verify cfg) token = Inr payload"
    "token_enterpriseId payload = Some e" "e \<noteq> []" "au_enterpriseId user = Some e" "au_id user = token_sub payload"
    "tenant_context_use (verifyAccessToken (jwt_verify cfg)) h =
       Some \<lparr>store_tenantId = e, store_userId = token_sub payload, store_isSuperAdmin = token_isSuperAdmin payload\<rparr>"
proof -
  from assms obtain c where who: "JwtAuthGuard_canActivate (jwt_verify cfg) (accountStatusCacheTtlMs cfg) now now id (server_db srv) h
        (server_status srv) = (Inr user, c)"
    and perm: "PermissionsGuard_canActivate (tenant_context_use (verifyAccessToken (jwt_verify cfg)) h) (Some (meta_permission m)) False
        (Some user) (server_rbac srv) = Inr ()"
    by (auto simp: guards_def Let_def split: prod.splits sum.splits)
  from who obtain token payload where p: "bearer_token h = Some token" "verifyAccessToken (jwt_verify cfg) token = Inr payload"
    "user = \<lparr>au_id = token_sub payload, au_enterpriseId = token_enterpriseId payload, au_isSuperAdmin = token_isSuperAdmin payload\<rparr>"
    by (auto simp: JwtAuthGuard_canActivate_def split: option.splits sum.splits prod.splits if_splits)
  from perm have "truthy (au_enterpriseId user)" if "truthy (Some (meta_permission m))"
    using that by (auto simp: PermissionsGuard_canActivate_def split: if_splits)
  moreover have "truthy (Some (meta_permission m))" using perm by (auto simp: PermissionsGuard_canActivate_def split: if_splits)
  ultimately obtain e where e: "token_enterpriseId payload = Some e" "e \<noteq> []"
    using p(3) by (cases "token_enterpriseId payload") auto
  then show thesis using p by (intro that[OF p(1,2) e]) (simp_all add: tenant_context_use_def)
qed

text \<open>A request leaves the database as it was or runs its controller for the enterprise of its token.\<close>

definition actor :: "server_config \<Rightarrow> string option \<Rightarrow> uuid option" where
  "actor cfg h = map_option store_tenantId (tenant_context_use (verifyAccessToken (jwt_verify cfg)) h)"

lemma api_request_db:
  "server_db (snd (api_request cfg env h r srv)) = server_db srv \<or>
   (\<exists>e store u. actor cfg h = Some e \<and> server_db (snd (api_request cfg env h r srv)) = snd (controller env store e u r (server_db srv)))"
proof (cases "guards cfg (request_now env) h (metadata r) srv")
  case (Pair who srv1)
  have db: "server_db srv1 = server_db srv" using guards_db[of cfg "request_now env" h "metadata r" srv] Pair by simp
  show ?thesis
  proof (cases who)
    case (Inl err)
    then show ?thesis using Pair db by (simp add: api_request_def)
  next
    case (Inr user)
    then have "fst (guards cfg (request_now env) h (metadata r) srv) = Inr user" using Pair by simp
    then obtain e where "au_enterpriseId user = Some e" "actor cfg h = Some e"
      by (rule guards_user) (simp add: actor_def)
    moreover have "server_db (snd (api_request cfg env h r srv)) = snd (controller env
        (tenant_context_use (verifyAccessToken (jwt_verify cfg)) h) (the (au_enterpriseId user)) (au_id user) r (server_db srv))"
      using Pair Inr db by (simp add: api_request_def Let_def split: prod.splits)
    ultimately show ?thesis by auto
  qed
qed

type_synonym 'k api_call = "'k request_env \<times> string option \<times> route"

definition serve :: "server_config \<Rightarrow> ('k::linorder) api_call \<Rightarrow> server \<Rightarrow> server" where
  "serve cfg call srv = (case call of (env, h, r) \<Rightarrow> snd (api_request cfg env h r srv))"

definition serve_all :: "server_config \<Rightarrow> ('k::linorder) api_call list \<Rightarrow> server \<Rightarrow> server" where
  "serve_all cfg calls srv = foldl (\<lambda>srv call. serve cfg call srv) srv calls"

lemma serve_step:
  "server_db (serve cfg (env, h, r) srv) = server_db srv \<or>
   (\<exists>e. actor cfg h = Some e \<and> erp_step e (server_db srv) (server_db (serve cfg (env, h, r) srv)))"
proof -
  have s: "serve cfg (env, h, r) srv = snd (api_request cfg env h r srv)" by (simp add: serve_def)
  from api_request_db[of cfg env h r srv] show ?thesis unfolding s
    by (elim disjE exE conjE) (simp_all add: controller_step)
qed

lemma serve_wf: "erp_wf (server_db srv) \<Longrightarrow> erp_wf (server_db (serve cfg call srv))"
proof (cases call)
  case (fields env h r)
  then show "erp_wf (server_db srv) \<Longrightarrow> ?thesis"
    using serve_step[of cfg env h r srv] erp_step_wf[where s = "server_db srv"] by (elim disjE exE conjE) simp_all
qed

interpretation api: tenant_isolated "\<lambda>e (srv :: server). tenant_view e (server_db srv)" "\<lambda>(env, h, r). actor cfg h" "serve cfg"
  "\<lambda>srv :: server. erp_wf (server_db srv)" for cfg
proof
  fix srv :: server and e and q :: "('k::linorder) api_call"
  obtain env h r where q: "q = (env, h, r)" by (cases q)
  assume ok: "erp_wf (server_db srv)" and "(case q of (env, h, r) \<Rightarrow> actor cfg h) \<noteq> Some e"
  then have "actor cfg h \<noteq> Some e" by (simp add: q)
  then show "tenant_view e (server_db (serve cfg q srv)) = tenant_view e (server_db srv)"
    using serve_step[of cfg env h r srv] erp_step_separate[OF _ ok] unfolding separate_def q by auto
next
  fix srv :: server and q :: "('k::linorder) api_call"
  assume "erp_wf (server_db srv)"
  then show "erp_wf (server_db (serve cfg q srv))" by (rule serve_wf)
qed

lemma serve_all_runs: "serve_all cfg calls srv = api.runs cfg calls srv"
  by (simp add: serve_all_def)

section \<open>Who gets an answer\<close>

text \<open>
  What the guards know: a cached answer while it has not expired, the database otherwise.
\<close>

definition account_active :: "uuid \<Rightarrow> db \<Rightarrow> bool" where
  "account_active u s = (case find_by user_id u (users s) of None \<Rightarrow> False | Some user \<Rightarrow> active_account user s)"

definition known_active :: "int \<Rightarrow> uuid \<Rightarrow> server \<Rightarrow> bool" where
  "known_active now u srv = (case server_status srv u of
     Some (active, expiresAt) \<Rightarrow> if now < expiresAt then active else account_active u (server_db srv)
   | None \<Rightarrow> account_active u (server_db srv))"

definition known_plan :: "int \<Rightarrow> uuid \<Rightarrow> server \<Rightarrow> exn + entitlements" where
  "known_plan now e srv = (case map_of (server_entitlements srv) e of
     Some entry \<Rightarrow> if now < ce_expiresAt entry then Inr (ce_value entry) else entitlements_resolve e (server_db srv)
   | None \<Rightarrow> entitlements_resolve e (server_db srv))"

lemma isAccountActive_known:
  "fst (isAccountActive ttl now now' others (server_db srv) u (server_status srv)) = known_active now u srv"
  by (auto simp: isAccountActive_def known_active_def account_active_def Let_def split: option.splits)

lemma getCurrent_known:
  "fst (entitlements_getCurrent ttl n (Some st) now now' others (server_db srv) (server_entitlements srv)) =
   known_plan now (store_tenantId st) srv"
  by (auto simp: entitlements_getCurrent_def getRequiredTenantId_def cache_lookup_def known_plan_def split: option.splits sum.splits)

lemma map_of_cache_store: "map_of (cache_store n k entry c) k = Some entry"
  by (simp add: cache_store_def update_conv)

lemma getCurrent_again:
  assumes "entitlements_getCurrent ttl n (Some st) now now id s c = (Inr v, c')"
  shows "fst (entitlements_getCurrent ttl n (Some st) now now id s c') = Inr v"
  using assms
  by (auto simp: entitlements_getCurrent_def getRequiredTenantId_def cache_lookup_def map_of_cache_store update_conv
      split: option.splits sum.splits if_splits)

lemma plan_guards_known:
  assumes "plan_guards cfg now (Some st) m (server_db srv) (server_entitlements srv) = (Inr (), c)" and "meta_feature m \<noteq> []"
  shows "\<exists>v. known_plan now (store_tenantId st) srv = Inr v \<and> meta_feature m \<in> set (entl_features v) \<and>
    (meta_method m = ''GET'' \<or> (\<forall>status. entl_subscriptionStatus v = Some status \<longrightarrow> status \<notin> set BLOCKING_STATUSES))"
proof -
  let ?get = "entitlements_getCurrent (entitlementsCacheTtlMs cfg) (entitlementsCacheMaxEntries cfg) (Some st) now now id (server_db srv)"
  obtain cur c1 where get: "?get (server_entitlements srv) = (cur, c1)" by fastforce
  then obtain v where v: "cur = Inr v" "meta_feature m \<in> set (entl_features v)"
    using assms by (auto simp: plan_guards_def FeatureGuard_canActivate_def split: sum.splits if_splits)
  have known: "known_plan now (store_tenantId st) srv = Inr v"
    using getCurrent_known[of "entitlementsCacheTtlMs cfg" "entitlementsCacheMaxEntries cfg" st now now id srv] get v(1) by simp
  show ?thesis
  proof (cases "meta_method m = ''GET''")
    case False
    obtain c2 where "?get c1 = (Inr v, c2)" using getCurrent_again get v(1) by (metis prod.collapse)
    then have "SubscriptionAccessGuard_canActivate (meta_method m) (Inr v) = Inr ()"
      using assms(1) get v False by (auto simp: plan_guards_def FeatureGuard_canActivate_def split: sum.splits if_splits)
    then have "\<forall>status. entl_subscriptionStatus v = Some status \<longrightarrow> status \<notin> set BLOCKING_STATUSES"
      using False by (auto simp: SubscriptionAccessGuard_canActivate_def split: if_splits option.splits)
    then show ?thesis using known v(2) by blast
  qed (use known v(2) in blast)
qed

lemma metadata_nonempty: "meta_feature (metadata r) \<noteq> []" "meta_permission (metadata r) \<noteq> []"
proof -
  have "meta_feature (metadata r) \<noteq> [] \<and> meta_permission (metadata r) \<noteq> []"
  proof (cases r)
    case (Products x) then show ?thesis by (cases x) (simp_all add: route_meta_def)
  next
    case (Customers x) then show ?thesis by (cases x) (simp_all add: route_meta_def)
  next
    case (Suppliers x) then show ?thesis by (cases x) (simp_all add: route_meta_def)
  next
    case (Stock x) then show ?thesis by (cases x) (simp_all add: route_meta_def)
  next
    case (Sales x) then show ?thesis by (cases x) (simp_all add: route_meta_def)
  next
    case (Purchases x) then show ?thesis by (cases x) (simp_all add: route_meta_def)
  next
    case (Invoices x) then show ?thesis by (cases x) (simp_all add: route_meta_def)
  next
    case (Accounts x) then show ?thesis by (cases x) (simp_all add: route_meta_def)
  next
    case (Journal x) then show ?thesis by (cases x) (simp_all add: route_meta_def)
  next
    case Trial_balance then show ?thesis by (simp add: route_meta_def trial_balance_meta_def)
  next
    case (Reports x) then show ?thesis by (simp add: route_meta_def reports_meta_def)
  qed
  then show "meta_feature (metadata r) \<noteq> []" "meta_permission (metadata r) \<noteq> []" by simp_all
qed

definition has_grant :: "uuid \<Rightarrow> uuid \<Rightarrow> permission_key \<Rightarrow> rbac \<Rightarrow> bool" where
  "has_grant e u k r \<longleftrightarrow> (\<exists>role\<in>set (roles r). role_enterpriseId role = e \<and> (u, role_id role) \<in> set (userRoles r) \<and>
     (\<exists>permissionId. (role_id role, permissionId) \<in> set (rolePermissions r) \<and> (permissionId, k) \<in> set (permissions r)))"

lemma PermissionsGuard_grant:
  assumes "PermissionsGuard_canActivate (Some st) (Some k) False (Some user) r = Inr ()" and "k \<noteq> []"
    and "au_enterpriseId user = Some e"
  shows "has_grant e (au_id user) k r"
proof -
  have "0 < grant_count e (au_id user) k (r\<lparr>roles := filter (\<lambda>role. role_enterpriseId role = store_tenantId st) (roles r)\<rparr>)"
    using assms by (auto simp: PermissionsGuard_canActivate_def getRequiredTenantId_def split: if_splits)
  then show ?thesis unfolding grant_count_pos has_grant_def by auto
qed

lemma guards_known:
  assumes "fst (guards cfg now h m srv) = Inr user" and "meta_permission m \<noteq> []" "meta_feature m \<noteq> []"
  obtains token payload e v where "bearer_token h = Some token" "verifyAccessToken (jwt_verify cfg) token = Inr payload"
    "token_enterpriseId payload = Some e" "known_active now (token_sub payload) srv"
    "has_grant e (token_sub payload) (meta_permission m) (server_rbac srv)"
    "known_plan now e srv = Inr v" "meta_feature m \<in> set (entl_features v)"
    "meta_method m = ''GET'' \<or> (\<forall>status. entl_subscriptionStatus v = Some status \<longrightarrow> status \<notin> set BLOCKING_STATUSES)"
proof -
  from assms(1) obtain token payload e where p: "bearer_token h = Some token" "verifyAccessToken (jwt_verify cfg) token = Inr payload"
    "token_enterpriseId payload = Some e" and u: "au_enterpriseId user = Some e" "au_id user = token_sub payload"
    and st: "tenant_context_use (verifyAccessToken (jwt_verify cfg)) h =
       Some \<lparr>store_tenantId = e, store_userId = token_sub payload, store_isSuperAdmin = token_isSuperAdmin payload\<rparr>"
    by (rule guards_user)
  let ?st = "\<lparr>store_tenantId = e, store_userId = token_sub payload, store_isSuperAdmin = token_isSuperAdmin payload\<rparr>"
  have act: "known_active now (token_sub payload) srv"
    using assms(1) isAccountActive_known[of "accountStatusCacheTtlMs cfg" now now id srv "token_sub payload"]
    by (auto simp: guards_def Let_def JwtAuthGuard_canActivate_def p split: prod.splits sum.splits if_splits)
  from assms(1) have perm: "PermissionsGuard_canActivate (Some ?st) (Some (meta_permission m)) False (Some user) (server_rbac srv) = Inr ()"
    by (auto simp: guards_def Let_def st split: prod.splits sum.splits)
  from assms(1) obtain c' where plan: "plan_guards cfg now (Some ?st) m (server_db srv) (server_entitlements srv) = (Inr (), c')"
    by (auto simp: guards_def Let_def st split: prod.splits sum.splits)
  show thesis
    using act PermissionsGuard_grant[OF perm assms(2) u(1)] plan_guards_known[OF plan assms(3)] p u(2) that by auto
qed

lemma reading_route: "meta_method (metadata r) = ''GET'' \<Longrightarrow> snd (controller env store e u r s) = s"
proof -
  assume get: "meta_method (metadata r) = ''GET''"
  show ?thesis
  proof (cases r)
    case (Products x) then show ?thesis using get by (cases x) (simp_all add: route_meta_def ZodValidationPipe_def)
  next
    case (Customers x) then show ?thesis using get by (cases x) (simp_all add: route_meta_def ZodValidationPipe_def)
  next
    case (Suppliers x) then show ?thesis using get by (cases x) (simp_all add: route_meta_def ZodValidationPipe_def)
  next
    case (Stock x) then show ?thesis using get by (cases x) (simp_all add: route_meta_def ZodValidationPipe_def)
  next
    case (Sales x) then show ?thesis using get by (cases x) (simp_all add: route_meta_def ZodValidationPipe_def)
  next
    case (Purchases x) then show ?thesis using get by (cases x) (simp_all add: route_meta_def ZodValidationPipe_def)
  next
    case (Invoices x) then show ?thesis using get by (cases x) (simp_all add: route_meta_def ZodValidationPipe_def)
  next
    case (Accounts x) then show ?thesis using get by (cases x) (simp_all add: route_meta_def ZodValidationPipe_def)
  next
    case (Journal x) then show ?thesis using get by (cases x) (simp_all add: route_meta_def ZodValidationPipe_def)
  next
    case Trial_balance then show ?thesis by (simp add: TrialBalanceController_def)
  next
    case (Reports x) then show ?thesis by (cases x) simp_all
  qed
qed

lemma request_needs_guards:
  assumes "(\<exists>a. fst (api_request cfg env h r srv) = Inr a) \<or> server_db (snd (api_request cfg env h r srv)) \<noteq> server_db srv"
  obtains user where "fst (guards cfg (request_now env) h (metadata r) srv) = Inr user"
proof (cases "guards cfg (request_now env) h (metadata r) srv")
  case (Pair who srv1)
  then have "server_db srv1 = server_db srv" using guards_db[of cfg "request_now env" h "metadata r" srv] by simp
  then show thesis using assms Pair that by (cases who) (auto simp: api_request_def)
qed

lemma reading_request:
  assumes "meta_method (metadata r) = ''GET''"
  shows "server_db (snd (api_request cfg env h r srv)) = server_db srv"
proof (cases "guards cfg (request_now env) h (metadata r) srv")
  case (Pair who srv1)
  then have "server_db srv1 = server_db srv" using guards_db[of cfg "request_now env" h "metadata r" srv] by simp
  moreover have "s' = s" if "controller env store e u r s = (a, s')" for store e u s a s'
    using reading_route[OF assms, of env store e u s] that by simp
  ultimately show ?thesis using Pair by (cases who) (auto simp: api_request_def Let_def split: prod.splits)
qed

section \<open>The properties of the application\<close>

lemma stock_nonneg_everywhere: "stock_nonneg s \<Longrightarrow> 0 \<le> stock_on_hand e p s"
  by (cases "\<exists>m\<in>set (stockMovements s). movement_enterpriseId m = e \<and> movement_productId m = p")
    (auto simp: stock_nonneg_def stock_on_hand_no_movement)

lemma books_of_wf:
  assumes "erp_wf s"
  shows "0 \<le> stock_on_hand e p s" "\<forall>r\<in>set (journalEntries s). entry_debit r = entry_credit r \<and> 0 < entry_debit r"
    "distinct (map journalEntry_number (journalEntries s))" "distinct (map salesInvoice_number (salesInvoices s))"
    "distinct (map salesInvoice_saleId (salesInvoices s))"
proof -
  note w = erp_wfD[OF assms]
  show "0 \<le> stock_on_hand e p s" by (rule stock_nonneg_everywhere[OF w(3)])
  show "\<forall>r\<in>set (journalEntries s). entry_debit r = entry_credit r \<and> 0 < entry_debit r"
    using w(7) unfolding accounting_wf_def entry_wf_def by blast
  show "distinct (map journalEntry_number (journalEntries s))" using w(7) by (simp add: accounting_wf_def)
  show "distinct (map salesInvoice_number (salesInvoices s))" using w(6) by (simp add: invoices_wf_def)
  show "distinct (map salesInvoice_saleId (salesInvoices s))" using w(6) by (simp add: invoices_wf_def)
qed

text \<open>
  C3. Whatever requests arrive, from whomever and in whatever order, and whether they are answered or
  refused: no quantity on hand is ever negative, every journal entry is balanced and not empty, invoice
  numbers and entry numbers are never given twice, no sale is invoiced twice, and every other rule of
  the components' tables is kept.
\<close>

theorem books_stay_in_order:
  assumes "erp_wf (server_db srv)"
  shows "let s = server_db (serve_all cfg calls srv) in erp_wf s \<and> (\<forall>e p. 0 \<le> stock_on_hand e p s) \<and>
     (\<forall>r\<in>set (journalEntries s). entry_debit r = entry_credit r \<and> 0 < entry_debit r) \<and>
     distinct (map journalEntry_number (journalEntries s)) \<and> distinct (map salesInvoice_number (salesInvoices s)) \<and>
     distinct (map salesInvoice_saleId (salesInvoices s))"
proof -
  have wf: "erp_wf (server_db (serve_all cfg calls srv))"
    using api.runs_ok[OF assms] by (simp add: serve_all_runs)
  show ?thesis unfolding Let_def by (intro conjI allI wf books_of_wf[OF wf])
qed

text \<open>
  C4. What an enterprise sees of the database (its rows of every table, its counters, its audit log) is
  not changed by any sequence of requests whose tokens are not its own.
\<close>

theorem enterprises_are_separate:
  assumes "erp_wf (server_db srv)" and "\<forall>(env, h, r)\<in>set calls. actor cfg h \<noteq> Some e"
  shows "tenant_view e (server_db (serve_all cfg calls srv)) = tenant_view e (server_db srv)"
  unfolding serve_all_runs using assms by (intro api.views_unaffected) auto


section \<open>A server to try them on\<close>

definition gx_user :: user where
  "gx_user = \<lparr>user_id = ''u1'', user_email = ''a@b'', user_passwordHash = ''x'', user_firstName = ''A'',
     user_lastName = ''B'', user_phone = None, user_enterpriseId = Some ''e1'',
     user_isSuperAdmin = False, user_status = Usr_ACTIVE, user_mfaEnabled = False, user_mfaSecret = None,
     user_emailVerifiedAt = Some 0, user_failedLoginCount = 0, user_lockedUntil = None, user_lastLoginAt = None,
     user_createdAt = 0\<rparr>"

definition gx_server :: server where
  "gx_server = \<lparr>server_db = (fx_billing_db Sub_ACTIVE ''PRO'')\<lparr>users := [gx_user]\<rparr>,
     server_rbac = \<lparr>permissions = [(''q1'', ''sales.create'')], roles = [\<lparr>role_id = ''r1'', role_enterpriseId = ''e1'',
       role_label = ''Ventes'', role_isSystem = True\<rparr>], rolePermissions = [(''r1'', ''q1'')], userRoles = [(''u1'', ''r1'')]\<rparr>,
     server_status = Map.empty, server_entitlements = []\<rparr>"

definition gx_config :: server_config where
  "gx_config = \<lparr>jwt_verify = (\<lambda>t. if t = ''tok'' then Some (access_claims ''u1'' (Some ''e1'') False) else None),
     accountStatusCacheTtlMs = 5000, entitlementsCacheTtlMs = 5000, entitlementsCacheMaxEntries = 10\<rparr>"

definition gx_env :: "nat request_env" where
  "gx_env = \<lparr>contains = (\<lambda>_ _. True), collate = length, request_now = 5, new_id = ''v1'', line_ids = (\<lambda>i. replicate (Suc i) CHR ''l''),
     movement_ids = (\<lambda>i. CHR ''m'' # i), aborted = (\<lambda>_. False), fault = None, seen = server_db gx_server\<rparr>"

definition gx_sale :: create_sale_input where
  "gx_sale = \<lparr>saleInput_customerId = ''c1'', saleInput_notes = None,
     saleInput_lines = [\<lparr>saleInput_productId = ''p1'', saleInput_quantity = 2\<rparr>]\<rparr>"

definition gx_calls :: "nat api_call list" where
  "gx_calls = [(gx_env, Some ''Bearer tok'', Sales (Sales_create gx_sale (Some ''k1''))),
     (gx_env, Some ''Bearer tok'', Sales (Sales_create gx_sale (Some ''k1''))), (gx_env, None, Trial_balance)]"

lemma gx_server_wf: "erp_wf (server_db gx_server)"
proof (rule erp_wfI)
  let ?s = "server_db gx_server"
  have s: "products ?s = products fx_db" "customers ?s = customers fx_db" "suppliers ?s = suppliers fx_db"
    "stockMovements ?s = stockMovements fx_db" "accounts ?s = accounts fx_db" "journalEntries ?s = []" "sales ?s = []"
    "purchases ?s = []" "salesInvoices ?s = []"
    by (simp_all add: gx_server_def fx_billing_db_def fx_db_def empty_db_def)
  show "catalog_wf ?s" by (rule catalog_wf_frame[OF fx_db_catalog_wf]) (simp_all add: s)
  show "movements_wf ?s" by (simp add: movements_wf_def s fx_db_simps unique_key_def)
  show "stock_nonneg ?s" by (simp add: stock_nonneg_def stock_on_hand_def s fx_db_simps signed_quantity_def)
  show "sales_wf ?s" "purchases_wf ?s" "invoices_wf ?s"
    by (simp_all add: sales_wf_def purchases_wf_def invoices_wf_def s unique_key_def)
  show "accounting_wf ?s"
    by (rule accounting_wf_frame[OF fx_accounting_db_wf(2)]) (simp_all add: s fx_db_def empty_db_def)
qed

lemma gx_calls_run: "map sale_id (sales (server_db (serve_all gx_config gx_calls gx_server))) = [''v1'']"
  by code_simp

lemma books_stay_in_order_witness:
  "erp_wf (server_db (serve_all gx_config gx_calls gx_server)) \<and>
   map sale_id (sales (server_db (serve_all gx_config gx_calls gx_server))) = [''v1'']"
  using books_stay_in_order[OF gx_server_wf, of gx_config gx_calls] gx_calls_run by (simp add: Let_def)

lemma enterprises_are_separate_witness:
  "tenant_view ''e2'' (server_db (serve_all gx_config gx_calls gx_server)) = tenant_view ''e2'' (server_db gx_server) \<and>
   map sale_id (sales (server_db (serve_all gx_config gx_calls gx_server))) = [''v1'']"
proof -
  have other: "\<forall>(env, h, r)\<in>set gx_calls. actor gx_config h \<noteq> Some ''e2''"
    by (simp add: gx_calls_def actor_def gx_config_def tenant_context_use_def bearer_token_def verifyAccessToken_def access_claims_def)
  show ?thesis using enterprises_are_separate[OF gx_server_wf other] gx_calls_run by simp
qed


end
