(* ===== verification/MobileSync.thy ===== *)
theory MobileSync
  imports Gateway Replay
begin

text \<open>
  The mobile queue and the API together: a write queued on the device becomes a request, the request is lost,
  delayed past its time-out, processed by the API, or processed with its answer lost, and is sent again under
  the same idempotency key. The theory follows the creation of a sale through all of it.
\<close>

section \<open>From the request to the route\<close>

definition is_ws :: "char \<Rightarrow> bool" where
  "is_ws c \<longleftrightarrow> char_code c \<in> {32, 9, 10, 11, 12, 13, 160}"

definition js_trim :: "string \<Rightarrow> string" where
  "js_trim v = rev (dropWhile is_ws (rev (dropWhile is_ws v)))"

text \<open>What \<open>createSaleSchema\<close> accepts of a body, and the value it produces.\<close>

definition parse_sale_line :: "json \<Rightarrow> create_sale_line_input option" where
  "parse_sale_line v = (case v of
     JObj ms \<Rightarrow> (case (map_of ms ''productId'', map_of ms ''quantity'') of
        (Some (JStr p), Some (JNum n)) \<Rightarrow> Some \<lparr>saleInput_productId = p, saleInput_quantity = n\<rparr>
      | _ \<Rightarrow> None)
   | _ \<Rightarrow> None)"

definition parse_notes :: "json option \<Rightarrow> string option option" where
  "parse_notes v = (case v of None \<Rightarrow> Some None | Some (JStr n) \<Rightarrow> Some (Some (js_trim n)) | _ \<Rightarrow> None)"

definition parse_sale :: "json \<Rightarrow> create_sale_input option" where
  "parse_sale v = (case v of
     JObj ms \<Rightarrow> (case (map_of ms ''customerId'', parse_notes (map_of ms ''notes''), map_of ms ''lines'') of
        (Some (JStr c), Some notes, Some (JArr xs)) \<Rightarrow>
          map_option (\<lambda>ls. \<lparr>saleInput_customerId = c, saleInput_notes = notes, saleInput_lines = ls\<rparr>) (those (map parse_sale_line xs))
      | _ \<Rightarrow> None)
   | _ \<Rightarrow> None)"

text \<open>The body that \<open>useCreateSale\<close> queues.\<close>

definition sale_body :: "create_sale_input \<Rightarrow> json" where
  "sale_body v = JObj ([(''customerId'', JStr (saleInput_customerId v))] @
     (case saleInput_notes v of None \<Rightarrow> [] | Some n \<Rightarrow> [(''notes'', JStr n)]) @
     [(''lines'', JArr (map (\<lambda>l. JObj [(''productId'', JStr (saleInput_productId l)), (''quantity'', JNum (saleInput_quantity l))])
        (saleInput_lines v)))])"

lemma sale_body_ok: "json_ok (sale_body v)"
  by (simp add: sale_body_def list_all_iff split: option.splits)

lemma parse_sale_body:
  assumes "\<And>n. saleInput_notes v = Some n \<Longrightarrow> js_trim n = n"
  shows "parse_sale (sale_body v) = Some v"
proof -
  have "those (map (parse_sale_line \<circ> (\<lambda>l. JObj [(''productId'', JStr (saleInput_productId l)), (''quantity'', JNum (saleInput_quantity l))])) ls) = Some ls"
    for ls :: "create_sale_line_input list"
    by (induction ls) (simp_all add: parse_sale_line_def)
  then show ?thesis using assms
    by (cases "saleInput_notes v") (simp_all add: parse_sale_def sale_body_def parse_notes_def)
qed

function path_segments :: "string \<Rightarrow> string list" where
  "path_segments [] = []"
| "path_segments (c # cs) = takeWhile (\<lambda>d. d \<noteq> CHR ''/'') cs # path_segments (dropWhile (\<lambda>d. d \<noteq> CHR ''/'') cs)"
  by pat_completeness auto

termination
  by (relation "measure length") (auto simp: less_Suc_eq_le length_dropWhile_le)

text \<open>
  The routes of the sales that the queue uses; \<open>Bad_body\<close> is a body that the schema rejects, which the pipe
  only finds out after the guards.
\<close>

datatype matched = No_route | Bad_body | Route route

definition match_sales :: "http_request \<Rightarrow> matched" where
  "match_sales rq =
     (if hr_method rq \<noteq> M_POST then No_route
      else case path_segments (hr_path rq) of
        [a] \<Rightarrow> if a \<noteq> ''sales'' then No_route
          else (case Option.bind (Option.bind (hr_body rq) JSON_parse) parse_sale of
              None \<Rightarrow> Bad_body
            | Some v \<Rightarrow> Route (Sales (Sales_create v (Some (hr_idempotencyKey rq)))))
      | [a, i, b] \<Rightarrow> if a = ''sales'' \<and> b = ''confirm'' then Route (Sales (Sales_confirm i))
          else if a = ''sales'' \<and> b = ''cancel'' then Route (Sales (Sales_cancel i))
          else No_route
      | _ \<Rightarrow> No_route)"

definition http_status :: "exn \<Rightarrow> nat" where
  "http_status e = (case e of NotFoundException _ \<Rightarrow> 404 | BadRequestException _ \<Rightarrow> 400 | ConflictException _ \<Rightarrow> 409
     | ForbiddenException _ \<Rightarrow> 403 | UnauthorizedException _ \<Rightarrow> 401 | _ \<Rightarrow> 500)"

definition exn_message :: "exn \<Rightarrow> string" where
  "exn_message e = (case e of NotFoundException m \<Rightarrow> m | BadRequestException m \<Rightarrow> m | ConflictException m \<Rightarrow> m
     | ForbiddenException m \<Rightarrow> m | UnauthorizedException m \<Rightarrow> m | InternalServerErrorException m \<Rightarrow> m | _ \<Rightarrow> ''Internal server error'')"

definition refusal :: "exn \<Rightarrow> http_response" where
  "refusal e = \<lparr>rs_status = http_status e,
     rs_body = JObj [(''statusCode'', JNum (int (http_status e))), (''message'', JStr (exn_message e))]\<rparr>"

text \<open>The queue does not read the body of a successful answer.\<close>

definition api_http :: "server_config \<Rightarrow> ('k::linorder) request_env \<Rightarrow> http_request \<Rightarrow> server \<Rightarrow> http_response \<times> server" where
  "api_http cfg env rq srv = (case match_sales rq of
     No_route \<Rightarrow> (refusal (NotFoundException ''Cannot find the route''), srv)
   | Bad_body \<Rightarrow> (let (who, srv') = guards cfg (request_now env) (Some (hr_authorization rq)) (route_meta ''POST'' ''sales.create'' ''sales'') srv
       in (case who of Inl e \<Rightarrow> refusal e | Inr _ \<Rightarrow> refusal (BadRequestException ''validation''), srv'))
   | Route r \<Rightarrow> (let (answer, srv') = api_request cfg env (Some (hr_authorization rq)) r srv
       in (case answer of Inl e \<Rightarrow> refusal e | Inr _ \<Rightarrow> \<lparr>rs_status = 201, rs_body = JNull\<rparr>, srv')))"

lemma refusal_not_ok [simp]: "\<not> response_ok (refusal e)"
  by (simp add: response_ok_def refusal_def http_status_def split: exn.splits)

section \<open>Sales that a request leaves behind\<close>

text \<open>What never changes of a sale: its id, enterprise, key, customer, and the products and quantities of its lines.\<close>

type_synonym order = "uuid \<times> uuid \<times> string option \<times> uuid \<times> (uuid \<times> int) list"

definition order_of :: "sale \<Rightarrow> order" where
  "order_of sale = (sale_id sale, sale_enterpriseId sale, sale_idempotencyKey sale, sale_customerId sale,
     map (\<lambda>l. (saleLine_productId l, saleLine_quantity l)) (sale_lines sale))"

definition ordered :: "uuid \<Rightarrow> uuid \<Rightarrow> create_sale_input \<Rightarrow> string option \<Rightarrow> order" where
  "ordered i e v k = (i, e, k, saleInput_customerId v, map (\<lambda>l. (saleInput_productId l, saleInput_quantity l)) (saleInput_lines v))"

abbreviation orders :: "db \<Rightarrow> order list" where
  "orders s \<equiv> map order_of (sales s)"

lemma orders_update: "(\<And>sale. order_of (f sale) = order_of sale) \<Longrightarrow> map order_of (update_by sale_id i f rows) = map order_of rows"
  by (induction rows) auto

lemma order_of_settled: "order_of (confirmed_sale now sale) = order_of sale" "order_of (cancelled_sale now sale) = order_of sale"
  by (simp_all add: order_of_def confirmed_sale_def cancelled_sale_def)

lemma order_of_new_sale: "order_of (new_sale newId lineIds now e v k s) = ordered newId e v k"
proof -
  have "map (\<lambda>l. (saleLine_productId l, saleLine_quantity l)) (new_sale_lines lineIds e p ls) =
      map (\<lambda>l. (saleInput_productId l, saleInput_quantity l)) ls" for p ls
    by (rule nth_equalityI) (simp_all add: new_sale_lines_def nth_enumerate_eq Let_def)
  then show ?thesis by (simp add: order_of_def ordered_def new_sale_def)
qed

lemma erp_moves_orders:
  assumes "erp_moves P e s s'"
  obtains new where "orders s' = orders s @ new" "\<forall>d\<in>set new. \<exists>i v k. P v k \<and> d = ordered i e v k"
proof -
  have "\<exists>new. orders s' = orders s @ new \<and> (\<forall>d\<in>set new. \<exists>i v k. P v k \<and> d = ordered i e v k)"
    using assms
  proof (induction rule: erp_moves.induct)
    case (audit s s' a)
    then show ?case by (simp add: auditLog_record_def)
  next
    case (catalog s s')
    then show ?case using catalog_step_frame by fastforce
  next
    case (accounting s s')
    then show ?case using accounting_step_frame by fastforce
  next
    case (movement newId now input k s r s')
    then show ?case by (auto elim: applyMovement_InrE)
  next
    case (sale newId lineIds now v k s0 s sr s')
    from sale(1) show ?case
    proof (cases rule: sales_create_InrE)
      case insert
      then show ?thesis using sale(3) by (auto simp: order_of_new_sale)
    qed simp
  next
    case (sale_confirm ids now i s sv s')
    then show ?case by (elim sales_confirm_tx_InrE) (simp add: orders_update order_of_settled)
  next
    case (sale_cancel now i s sv s')
    then show ?case by (elim sales_cancel_InrE) (simp add: orders_update order_of_settled)
  next
    case (purchase newId lineIds now v k s0 s pr s')
    then show ?case by (elim purchases_create_InrE) auto
  next
    case (purchase_confirm ids now i s pv s')
    then show ?case by (elim purchases_confirm_tx_InrE) simp
  next
    case (purchase_cancel now i s pv s')
    then show ?case by (elim purchases_cancel_InrE) simp
  next
    case (invoice store flt newId now u saleId k s0 s res s')
    have "sales s' = sales s" using invoicing_create_shape[OF invoice] invoice_tx_shape
      by (elim disjE exE conjE) (fastforce simp: auditLog_record_def)+
    then show ?case by simp
  next
    case (invoice_paid now i s iv s')
    then show ?case by (auto simp: settle_invoice_def dest!: invoicing_settle_InrD)
  next
    case (invoice_void now i s iv s')
    then show ?case by (auto simp: settle_invoice_def dest!: invoicing_settle_InrD)
  qed simp
  then show thesis using that by blast
qed

text \<open>A creation that is answered leaves a sale with its key, the first or the repeated time.\<close>

lemma create_answer_order:
  assumes "fst (controller env store e u (Sales (Sales_create v (Some k))) s) = Inr a" and "k \<noteq> []"
    and "set (orders (seen env)) \<subseteq> set (orders s)"
  shows "\<exists>i c ls. (i, e, Some k, c, ls) \<in> set (orders (snd (controller env store e u (Sales (Sales_create v (Some k))) s)))"
proof -
  let ?tx = "sales_create False (new_id env) (line_ids env) (request_now env) e v (Some k) (seen env)"
  let ?s' = "snd (controller env store e u (Sales (Sales_create v (Some k))) s)"
  have valid: "createSaleSchema v" using assms(1) by (auto simp: answering_def ZodValidationPipe_def split: if_splits)
  from assms(1) obtain r s1 where tx: "tenant_run store ?tx s = (Inr r, s1)"
    by (auto simp: answering_def ZodValidationPipe_def sales_service_create_def split: if_splits prod.splits sum.splits)
  have s': "sales ?s' = sales s1"
    using tx valid by (auto simp: ZodValidationPipe_def sales_service_create_def auditLog_record_def split: prod.splits)
  from tenant_run_InrD[OF tx] show ?thesis
  proof (cases rule: sales_create_InrE)
    case (same sx m)
    then have "m \<in> set (sales sx)" "sale_enterpriseId m = e" "sale_idempotencyKey m = Some k"
      by (auto simp: sale_findByKey_def dest!: find_SomeD)
    then have "\<exists>i c ls. (i, e, Some k, c, ls) \<in> set (orders sx)" by (force simp: order_of_def)
    moreover have "set (orders sx) \<subseteq> set (orders ?s')" using same(1,2) assms(3) unfolding s' by auto
    ultimately show ?thesis by blast
  next
    case insert
    then show ?thesis using s' by (auto simp: order_of_new_sale ordered_def)
  qed
qed

lemma api_request_answer:
  assumes "fst (api_request cfg env h r srv) = Inr a"
  obtains e store u b where "actor cfg h = Some e" "fst (controller env store e u r (server_db srv)) = Inr b"
    "server_db (snd (api_request cfg env h r srv)) = snd (controller env store e u r (server_db srv))"
proof (cases "guards cfg (request_now env) h (metadata r) srv")
  case (Pair who srv1)
  have db: "server_db srv1 = server_db srv" using guards_db[of cfg "request_now env" h "metadata r" srv] Pair by simp
  obtain user where user: "who = Inr user" using assms Pair by (cases who) (auto simp: api_request_def)
  then have "fst (guards cfg (request_now env) h (metadata r) srv) = Inr user" using Pair by simp
  then obtain e where e: "au_enterpriseId user = Some e" "actor cfg h = Some e" by (rule guards_user) (simp add: actor_def)
  let ?c = "controller env (tenant_context_use (verifyAccessToken (jwt_verify cfg)) h) e (au_id user) r (server_db srv)"
  have "fst (api_request cfg env h r srv) = fst ?c" "server_db (snd (api_request cfg env h r srv)) = snd ?c"
    using Pair user db e(1) by (simp_all add: api_request_def Let_def split: prod.splits)
  then show thesis using that[OF e(2)] assms by metis
qed

text \<open>What an HTTP request does to the sales, and what its success means.\<close>

lemma api_http_moves:
  assumes "actor cfg (Some (hr_authorization rq)) = Some e"
  shows "erp_moves (\<lambda>v k. match_sales rq = Route (Sales (Sales_create v k))) e (server_db srv) (server_db (snd (api_http cfg env rq srv)))"
proof (cases "match_sales rq")
  case No_route
  then show ?thesis by (simp add: api_http_def erp_moves.same)
next
  case Bad_body
  obtain who srv' where g: "guards cfg (request_now env) (Some (hr_authorization rq)) (route_meta ''POST'' ''sales.create'' ''sales'') srv = (who, srv')"
    by fastforce
  then have "server_db srv' = server_db srv" using guards_db by (metis snd_conv)
  then have "server_db (snd (api_http cfg env rq srv)) = server_db srv" using g Bad_body by (simp add: api_http_def)
  then show ?thesis by (simp add: erp_moves.same)
next
  case (Route r)
  have "snd (api_http cfg env rq srv) = snd (api_request cfg env (Some (hr_authorization rq)) r srv)"
    using Route by (simp add: api_http_def split: prod.splits)
  then show ?thesis using api_request_db[of cfg env "Some (hr_authorization rq)" r srv] assms controller_moves[where r = r]
    by (auto simp: Route erp_moves.same)
qed

lemma api_http_created:
  assumes "response_ok (fst (api_http cfg env rq srv))" and "match_sales rq = Route (Sales (Sales_create v (Some k)))" and "k \<noteq> []"
    and "actor cfg (Some (hr_authorization rq)) = Some e" and "set (orders (seen env)) \<subseteq> set (orders (server_db srv))"
  shows "\<exists>i c ls. (i, e, Some k, c, ls) \<in> set (orders (server_db (snd (api_http cfg env rq srv))))"
proof -
  let ?a = "api_request cfg env (Some (hr_authorization rq)) (Sales (Sales_create v (Some k))) srv"
  have s: "snd (api_http cfg env rq srv) = snd ?a" using assms(2) by (simp add: api_http_def split: prod.splits)
  have "\<exists>a. fst ?a = Inr a" using assms(1,2) by (auto simp: api_http_def split: prod.splits sum.splits)
  then obtain a where "fst ?a = Inr a" by blast
  then obtain e' store u b where r: "actor cfg (Some (hr_authorization rq)) = Some e'"
    "fst (controller env store e' u (Sales (Sales_create v (Some k))) (server_db srv)) = Inr b"
    "server_db (snd ?a) = snd (controller env store e' u (Sales (Sales_create v (Some k))) (server_db srv))"
    by (rule api_request_answer)
  then have "e' = e" using assms(4) by simp
  then show ?thesis using create_answer_order[OF r(2) assms(3,5)] r(3) s by simp
qed

section \<open>The device and the server\<close>

text \<open>
  \<open>w_wire\<close> holds the requests that are on their way, numbered by the attempt that sent them; \<open>w_replies\<close> the
  answers on their way back. A request may arrive long after its attempt has timed out, or never.
\<close>

record world =
  w_device :: device
  w_server :: server
  w_attempt :: nat
  w_wire :: "(nat \<times> http_request) list"
  w_replies :: "(nat \<times> http_request \<times> http_response) list"

text \<open>
  The steps: of the device (a queued write draws a key that nobody has used before), of the network, of the
  API on a request of the device, and of everybody else: other clients of any enterprise, whose new sales
  do not carry one of this device's keys, and the rest of the application, which leaves the sales alone.
\<close>

inductive world_run :: "server_config \<Rightarrow> uuid \<Rightarrow> queue_event list \<Rightarrow> world \<Rightarrow> bool" for cfg e where
  world_start: "erp_wf (server_db srv) \<Longrightarrow>
    world_run cfg e [] \<lparr>w_device = new_device, w_server = srv, w_attempt = 0, w_wire = [], w_replies = []\<rparr>"
| world_enqueue: "world_run cfg e es w \<Longrightarrow> queue_step (w_device w) (Ev_enqueued input m) d \<Longrightarrow> qm_idempotencyKey m \<noteq> [] \<Longrightarrow>
    (\<And>input' m'. Ev_enqueued input' m' \<in> set es \<Longrightarrow> qm_idempotencyKey m' \<noteq> qm_idempotencyKey m) \<Longrightarrow>
    (\<And>sale. sale \<in> set (sales (server_db (w_server w))) \<Longrightarrow> sale_idempotencyKey sale \<noteq> Some (qm_idempotencyKey m)) \<Longrightarrow>
    world_run cfg e (es @ [Ev_enqueued input m]) (w\<lparr>w_device := d\<rparr>)"
| world_send: "world_run cfg e es w \<Longrightarrow> queue_step (w_device w) (Ev_sent m rq) d \<Longrightarrow>
    actor cfg (Some (hr_authorization rq)) = Some e \<Longrightarrow>
    world_run cfg e (es @ [Ev_sent m rq]) (w\<lparr>w_device := d, w_attempt := w_attempt w + 1, w_wire := w_wire w @ [(w_attempt w + 1, rq)]\<rparr>)"
| world_arrive: "world_run cfg e es w \<Longrightarrow> w_wire w = before @ (n, rq) # after \<Longrightarrow>
    set (orders (seen env)) \<subseteq> set (orders (server_db (w_server w))) \<Longrightarrow>
    api_http cfg (env :: nat request_env) rq (w_server w) = (response, srv) \<Longrightarrow>
    world_run cfg e es (w\<lparr>w_server := srv, w_wire := before @ after, w_replies := w_replies w @ [(n, rq, response)]\<rparr>)"
| world_answer: "world_run cfg e es w \<Longrightarrow> (w_attempt w, rq, response) \<in> set (w_replies w) \<Longrightarrow>
    queue_step (w_device w) (Ev_answered m (Fetched response)) d \<Longrightarrow>
    world_run cfg e (es @ [Ev_answered m (Fetched response)]) (w\<lparr>w_device := d\<rparr>)"
| world_fail: "world_run cfg e es w \<Longrightarrow> queue_step (w_device w) (Ev_answered m Fetch_failed) d \<Longrightarrow>
    world_run cfg e (es @ [Ev_answered m Fetch_failed]) (w\<lparr>w_device := d\<rparr>)"
| world_device: "world_run cfg e es w \<Longrightarrow> queue_step (w_device w) ev d \<Longrightarrow> ev \<in> {Ev_started, Ev_finished, Ev_purged, Ev_killed} \<Longrightarrow>
    world_run cfg e (es @ [ev]) (w\<lparr>w_device := d\<rparr>)"
| world_others: "world_run cfg e es w \<Longrightarrow>
    erp_moves (\<lambda>v k. \<forall>input m. Ev_enqueued input m \<in> set es \<longrightarrow> k \<noteq> Some (qm_idempotencyKey m)) e' (server_db (w_server w)) (server_db srv) \<Longrightarrow>
    world_run cfg e es (w\<lparr>w_server := srv\<rparr>)"
| world_elsewhere: "world_run cfg e es w \<Longrightarrow> sales (server_db srv) = sales (server_db (w_server w)) \<Longrightarrow> erp_wf (server_db srv) \<Longrightarrow>
    world_run cfg e es (w\<lparr>w_server := srv\<rparr>)"

section \<open>What the requests of the device stand for\<close>

definition request_queued :: "queue_event list \<Rightarrow> http_request \<Rightarrow> bool" where
  "request_queued es rq \<longleftrightarrow> (\<exists>i. queued_as es i (hr_method rq) (hr_path rq) (hr_body rq) (hr_idempotencyKey rq))"

text \<open>The event that queued the creation of the sale \<open>v\<close> under the key \<open>k\<close>.\<close>

definition sale_queued :: "queue_event list \<Rightarrow> string \<Rightarrow> create_sale_input \<Rightarrow> bool" where
  "sale_queued es k v \<longleftrightarrow> (\<exists>input m b. Ev_enqueued input m \<in> set es \<and> qm_idempotencyKey m = k \<and> enq_method input = M_POST \<and>
     path_segments (enq_path input) = [''sales''] \<and> enq_body input = Some b \<and> parse_sale b = Some v)"

definition keys_once :: "queue_event list \<Rightarrow> bool" where
  "keys_once es \<longleftrightarrow> (\<forall>input m input' m'. Ev_enqueued input m \<in> set es \<longrightarrow> Ev_enqueued input' m' \<in> set es \<longrightarrow>
     qm_idempotencyKey m = qm_idempotencyKey m' \<longrightarrow> input = input' \<and> m = m') \<and>
     (\<forall>input m. Ev_enqueued input m \<in> set es \<longrightarrow> qm_idempotencyKey m \<noteq> [])"

text \<open>A request whose route is the creation of a sale is the one that was queued.\<close>

lemma request_queued_sale:
  assumes "request_queued es rq" and "match_sales rq = Route (Sales (Sales_create v k))"
  shows "k = Some (hr_idempotencyKey rq) \<and> sale_queued es (hr_idempotencyKey rq) v"
proof -
  obtain i input m where q: "Ev_enqueued input m \<in> set es" "qm_idempotencyKey m = hr_idempotencyKey rq" "enq_method input = hr_method rq"
    "enq_path input = hr_path rq" "map_option JSON_stringify (enq_body input) = hr_body rq" "\<forall>b. enq_body input = Some b \<longrightarrow> json_ok b"
    using assms(1) by (auto simp: request_queued_def queued_as_def)
  have s: "hr_method rq = M_POST" "path_segments (hr_path rq) = [''sales'']" "k = Some (hr_idempotencyKey rq)"
    "Option.bind (Option.bind (hr_body rq) JSON_parse) parse_sale = Some v"
    using assms(2) by (auto simp: match_sales_def split: if_splits list.splits option.splits)
  from s(4) obtain b where b: "enq_body input = Some b" "parse_sale b = Some v"
    using q(5,6) by (cases "enq_body input") (auto simp: JSON_parse_stringify q(5)[symmetric])
  have "sale_queued es (hr_idempotencyKey rq) v"
    unfolding sale_queued_def using q(1-4) s(1,2) b by (intro exI[of _ input] exI[of _ m] exI[of _ b]) simp
  then show ?thesis using s(3) by simp
qed

lemma request_matches:
  assumes "request_queued es rq" and "sale_queued es (hr_idempotencyKey rq) v" and "keys_once es"
  shows "match_sales rq = Route (Sales (Sales_create v (Some (hr_idempotencyKey rq))))"
proof -
  obtain i input m where q: "Ev_enqueued input m \<in> set es" "qm_idempotencyKey m = hr_idempotencyKey rq" "enq_method input = hr_method rq"
    "enq_path input = hr_path rq" "map_option JSON_stringify (enq_body input) = hr_body rq" "\<forall>b. enq_body input = Some b \<longrightarrow> json_ok b"
    using assms(1) by (auto simp: request_queued_def queued_as_def)
  obtain input' m' b where p: "Ev_enqueued input' m' \<in> set es" "qm_idempotencyKey m' = hr_idempotencyKey rq" "enq_method input' = M_POST"
    "path_segments (enq_path input') = [''sales'']" "enq_body input' = Some b" "parse_sale b = Some v"
    using assms(2) by (auto simp: sale_queued_def)
  have "input = input'" using assms(3) q(1,2) p(1,2) unfolding keys_once_def by metis
  moreover from this have "hr_body rq = Some (JSON_stringify b)" "json_ok b" using q(5,6) p(5) by auto
  ultimately show ?thesis using q(3,4) p by (simp add: match_sales_def JSON_parse_stringify)
qed

section \<open>The invariant\<close>

definition known :: "queue_event list \<Rightarrow> string \<Rightarrow> bool" where
  "known es k \<longleftrightarrow> (\<exists>input m. Ev_enqueued input m \<in> set es \<and> qm_idempotencyKey m = k)"

definition has_order :: "uuid \<Rightarrow> string \<Rightarrow> db \<Rightarrow> bool" where
  "has_order e k s \<longleftrightarrow> (\<exists>i c ls. (i, e, Some k, c, ls) \<in> set (orders s))"

definition flying :: "device \<Rightarrow> http_request \<Rightarrow> bool" where
  "flying d rq \<longleftrightarrow> (\<forall>m ms. dev_batch d = Some (m # ms) \<longrightarrow> dev_flight d \<longrightarrow> hr_idempotencyKey rq = qm_idempotencyKey m)"

definition wire_ok :: "server_config \<Rightarrow> uuid \<Rightarrow> queue_event list \<Rightarrow> world \<Rightarrow> bool" where
  "wire_ok cfg e es w \<longleftrightarrow> (\<forall>(n, rq)\<in>set (w_wire w). n \<le> w_attempt w \<and> request_queued es rq \<and>
     actor cfg (Some (hr_authorization rq)) = Some e \<and> (n = w_attempt w \<longrightarrow> flying (w_device w) rq))"

definition replies_ok :: "uuid \<Rightarrow> queue_event list \<Rightarrow> world \<Rightarrow> bool" where
  "replies_ok e es w \<longleftrightarrow> (\<forall>(n, rq, response)\<in>set (w_replies w). n \<le> w_attempt w \<and> request_queued es rq \<and>
     (n = w_attempt w \<longrightarrow> flying (w_device w) rq) \<and>
     (response_ok response \<longrightarrow> (\<forall>v. sale_queued es (hr_idempotencyKey rq) v \<longrightarrow> has_order e (hr_idempotencyKey rq) (server_db (w_server w)))))"

text \<open>A sale of the enterprise with one of the device's keys is the one queued under that key.\<close>

definition orders_faithful :: "uuid \<Rightarrow> queue_event list \<Rightarrow> db \<Rightarrow> bool" where
  "orders_faithful e es s \<longleftrightarrow> (\<forall>i k c ls. (i, e, Some k, c, ls) \<in> set (orders s) \<longrightarrow> known es k \<longrightarrow>
     (\<exists>v. sale_queued es k v \<and> (i, e, Some k, c, ls) = ordered i e v (Some k)))"

definition confirmed_ok :: "uuid \<Rightarrow> queue_event list \<Rightarrow> db \<Rightarrow> bool" where
  "confirmed_ok e es s \<longleftrightarrow> (\<forall>m response. Ev_answered m (Fetched response) \<in> set es \<longrightarrow> response_ok response \<longrightarrow>
     known es (qm_idempotencyKey m) \<and> (\<forall>v. sale_queued es (qm_idempotencyKey m) v \<longrightarrow> has_order e (qm_idempotencyKey m) s))"

definition world_ok :: "server_config \<Rightarrow> uuid \<Rightarrow> queue_event list \<Rightarrow> world \<Rightarrow> bool" where
  "world_ok cfg e es w \<longleftrightarrow> device_ok (w_device w) \<and> all_queued es (w_device w) \<and> keys_once es \<and> erp_wf (server_db (w_server w)) \<and>
     wire_ok cfg e es w \<and> replies_ok e es w \<and> orders_faithful e es (server_db (w_server w)) \<and> confirmed_ok e es (server_db (w_server w))"

lemma world_okI:
  assumes "device_ok (w_device w)" "all_queued es (w_device w)" "keys_once es" "erp_wf (server_db (w_server w))" "wire_ok cfg e es w"
    "replies_ok e es w" "orders_faithful e es (server_db (w_server w))" "confirmed_ok e es (server_db (w_server w))"
  shows "world_ok cfg e es w"
  using assms by (simp add: world_ok_def)

lemma world_okD:
  assumes "world_ok cfg e es w"
  shows "device_ok (w_device w)" "all_queued es (w_device w)" "keys_once es" "erp_wf (server_db (w_server w))" "wire_ok cfg e es w"
    "replies_ok e es w" "orders_faithful e es (server_db (w_server w))" "confirmed_ok e es (server_db (w_server w))"
  using assms by (simp_all add: world_ok_def)

text \<open>Events that queue nothing add nothing to what is known.\<close>

lemma request_queued_more: "request_queued es rq \<Longrightarrow> request_queued (es @ [ev]) rq"
  by (auto simp: request_queued_def intro: queued_as_more)

lemma request_queued_known: "request_queued es rq \<Longrightarrow> known es (hr_idempotencyKey rq)"
  by (auto simp: request_queued_def queued_as_def known_def)

lemma quiet_event:
  assumes "\<And>input m. ev \<noteq> Ev_enqueued input m"
  shows "known (es @ [ev]) k = known es k" "sale_queued (es @ [ev]) k v = sale_queued es k v" "keys_once (es @ [ev]) = keys_once es"
proof -
  have ev: "Ev_enqueued input m = ev \<longleftrightarrow> False" for input m using assms by metis
  show "known (es @ [ev]) k = known es k" "sale_queued (es @ [ev]) k v = sale_queued es k v" "keys_once (es @ [ev]) = keys_once es"
    by (simp_all add: known_def sale_queued_def keys_once_def ev)
qed

lemma other_key:
  assumes "k \<noteq> qm_idempotencyKey m"
  shows "known (es @ [Ev_enqueued input m]) k = known es k" "sale_queued (es @ [Ev_enqueued input m]) k v = sale_queued es k v"
  using assms by (auto simp: known_def sale_queued_def)

lemma flying_step: "queue_step d ev d' \<Longrightarrow> \<forall>m rq'. ev \<noteq> Ev_sent m rq' \<Longrightarrow> flying d rq \<Longrightarrow> flying d' rq"
  by (cases rule: queue_step.cases) (auto simp: flying_def)

lemma has_order_kept: "has_order e k s \<Longrightarrow> set (orders s) \<subseteq> set (orders s') \<Longrightarrow> has_order e k s'"
  unfolding has_order_def by blast

text \<open>A step of the device that neither queues nor sends nor brings a success.\<close>

lemma world_ok_device:
  assumes ok: "world_ok cfg e es w" and step: "queue_step (w_device w) ev d"
    and quiet: "\<And>input m. ev \<noteq> Ev_enqueued input m" "\<And>m rq. ev \<noteq> Ev_sent m rq"
    and success: "\<And>m response. ev = Ev_answered m (Fetched response) \<Longrightarrow> response_ok response \<Longrightarrow>
      known es (qm_idempotencyKey m) \<and> (\<forall>v. sale_queued es (qm_idempotencyKey m) v \<longrightarrow> has_order e (qm_idempotencyKey m) (server_db (w_server w)))"
  shows "world_ok cfg e (es @ [ev]) (w\<lparr>w_device := d\<rparr>)"
proof (rule world_okI)
  note o = world_okD[OF ok] and q = quiet_event[of ev es, OF quiet(1)]
  have fly: "flying (w_device w) rq \<Longrightarrow> flying d rq" for rq using flying_step[OF step] quiet(2) by blast
  show "device_ok (w_device (w\<lparr>w_device := d\<rparr>))" using queue_step_device_ok[OF step o(1)] by simp
  show "all_queued (es @ [ev]) (w_device (w\<lparr>w_device := d\<rparr>))" using queue_step_queued[OF step o(1,2)] by simp
  show "keys_once (es @ [ev])" "erp_wf (server_db (w_server (w\<lparr>w_device := d\<rparr>)))" using o(3,4) q by simp_all
  show "wire_ok cfg e (es @ [ev]) (w\<lparr>w_device := d\<rparr>)" using o(5) fly by (auto simp: wire_ok_def intro: request_queued_more)
  show "replies_ok e (es @ [ev]) (w\<lparr>w_device := d\<rparr>)" using o(6) fly q by (auto simp: replies_ok_def intro: request_queued_more)
  show "orders_faithful e (es @ [ev]) (server_db (w_server (w\<lparr>w_device := d\<rparr>)))" using o(7) q by (simp add: orders_faithful_def)
  show "confirmed_ok e (es @ [ev]) (server_db (w_server (w\<lparr>w_device := d\<rparr>)))" using o(8) q success by (auto simp: confirmed_ok_def)
qed

lemma world_ok_enqueue:
  assumes ok: "world_ok cfg e es w" and step: "queue_step (w_device w) (Ev_enqueued input m) d" and key: "qm_idempotencyKey m \<noteq> []"
    and fresh: "\<And>input' m'. Ev_enqueued input' m' \<in> set es \<Longrightarrow> qm_idempotencyKey m' \<noteq> qm_idempotencyKey m"
    and unused: "\<And>sale. sale \<in> set (sales (server_db (w_server w))) \<Longrightarrow> sale_idempotencyKey sale \<noteq> Some (qm_idempotencyKey m)"
  shows "world_ok cfg e (es @ [Ev_enqueued input m]) (w\<lparr>w_device := d\<rparr>)"
proof (rule world_okI)
  let ?es = "es @ [Ev_enqueued input m]"
  note o = world_okD[OF ok]
  have new: "\<not> known es (qm_idempotencyKey m)" using fresh by (auto simp: known_def)
  have old: "sale_queued ?es k v = sale_queued es k v" if "known es k" for k v
    using new that by (intro other_key(2)) auto
  have fly: "flying (w_device w) rq \<Longrightarrow> flying d rq" for rq using flying_step[OF step] by blast
  show "device_ok (w_device (w\<lparr>w_device := d\<rparr>))" using queue_step_device_ok[OF step o(1)] by simp
  show "all_queued ?es (w_device (w\<lparr>w_device := d\<rparr>))" using queue_step_queued[OF step o(1,2)] by simp
  show "erp_wf (server_db (w_server (w\<lparr>w_device := d\<rparr>)))" using o(4) by simp
  have k1: "input1 = input2 \<and> m1 = m2" if "Ev_enqueued input1 m1 \<in> set ?es" "Ev_enqueued input2 m2 \<in> set ?es"
    "qm_idempotencyKey m1 = qm_idempotencyKey m2" for input1 m1 input2 m2
  proof (cases "Ev_enqueued input1 m1 \<in> set es \<and> Ev_enqueued input2 m2 \<in> set es")
    case True
    then show ?thesis using o(3) that(3) unfolding keys_once_def by blast
  next
    case False
    then show ?thesis using that fresh[of input1 m1] fresh[of input2 m2] by auto
  qed
  moreover have "qm_idempotencyKey m1 \<noteq> []" if "Ev_enqueued input1 m1 \<in> set ?es" for input1 m1
    using that key o(3) unfolding keys_once_def by auto
  ultimately show "keys_once ?es" unfolding keys_once_def by blast
  show "wire_ok cfg e ?es (w\<lparr>w_device := d\<rparr>)" using o(5) fly by (auto simp: wire_ok_def intro: request_queued_more)
  show "replies_ok e ?es (w\<lparr>w_device := d\<rparr>)"
    using o(6) fly old[OF request_queued_known] by (auto simp: replies_ok_def intro: request_queued_more)
  have "known es k" if d: "(i, e, Some k, c, ls) \<in> set (orders (server_db (w_server w)))" and k: "known ?es k" for i k c ls
  proof -
    obtain sale where "sale \<in> set (sales (server_db (w_server w)))" "sale_idempotencyKey sale = Some k"
      using d by (auto simp: order_of_def)
    then have "k \<noteq> qm_idempotencyKey m" using unused by blast
    then show ?thesis using k other_key(1)[of k m] by simp
  qed
  then show "orders_faithful e ?es (server_db (w_server (w\<lparr>w_device := d\<rparr>)))"
    using o(7) old unfolding orders_faithful_def by simp
  have "known ?es k" if "known es k" for k using that by (auto simp: known_def)
  then show "confirmed_ok e ?es (server_db (w_server (w\<lparr>w_device := d\<rparr>)))"
    using o(8) old by (simp add: confirmed_ok_def)
qed

lemma world_ok_send:
  assumes ok: "world_ok cfg e es w" and step: "queue_step (w_device w) (Ev_sent m rq) d" and actor: "actor cfg (Some (hr_authorization rq)) = Some e"
  shows "world_ok cfg e (es @ [Ev_sent m rq])
    (w\<lparr>w_device := d, w_attempt := w_attempt w + 1, w_wire := w_wire w @ [(w_attempt w + 1, rq)]\<rparr>)"
proof (rule world_okI)
  let ?w = "w\<lparr>w_device := d, w_attempt := w_attempt w + 1, w_wire := w_wire w @ [(w_attempt w + 1, rq)]\<rparr>" and ?es = "es @ [Ev_sent m rq]"
  note o = world_okD[OF ok]
  have q: "known ?es k = known es k" "sale_queued ?es k v = sale_queued es k v" "keys_once ?es = keys_once es" for k v
    by (rule quiet_event; simp)+
  from step obtain token now ms s where b: "dev_batch (w_device w) = Some (m # ms)"
    "processOne_send token now m (dev_store (w_device w)) = Some (rq, s)" "d = w_device w\<lparr>dev_store := s, dev_flight := True\<rparr>"
    by (cases rule: queue_step.cases) auto
  have rq: "rq = mutation_request (the token) m" using b(2) by (simp add: processOne_send_def split: if_splits)
  have "mutation_queued es m" using all_queuedD(2)[OF o(2) b(1)] by simp
  then have "request_queued es rq" by (auto simp: mutation_queued_def request_queued_def rq mutation_request_def)
  moreover have "flying d rq" by (auto simp: flying_def b rq mutation_request_def)
  ultimately show "wire_ok cfg e ?es ?w" using o(5) actor by (auto simp: wire_ok_def intro: request_queued_more)
  show "replies_ok e ?es ?w" using o(6) q by (auto simp: replies_ok_def intro: request_queued_more)
  show "device_ok (w_device ?w)" using queue_step_device_ok[OF step o(1)] by simp
  show "all_queued ?es (w_device ?w)" using queue_step_queued[OF step o(1,2)] by simp
  show "keys_once ?es" "erp_wf (server_db (w_server ?w))" using o(3,4) q by simp_all
  show "orders_faithful e ?es (server_db (w_server ?w))" using o(7) q by (simp add: orders_faithful_def)
  show "confirmed_ok e ?es (server_db (w_server ?w))" using o(8) q by (simp add: confirmed_ok_def)
qed

text \<open>The database moves on: sales stay, and a new one with a key of the device is the one queued under it.\<close>

lemma orders_faithful_moves:
  assumes "orders_faithful e es s" and "erp_moves P e' s s'"
    and "\<And>v k. P v (Some k) \<Longrightarrow> e' = e \<Longrightarrow> known es k \<Longrightarrow> sale_queued es k v"
  shows "orders_faithful e es s' \<and> set (orders s) \<subseteq> set (orders s')"
proof -
  obtain new where new: "orders s' = orders s @ new" "\<forall>d\<in>set new. \<exists>i v k. P v k \<and> d = ordered i e' v k"
    using assms(2) by (rule erp_moves_orders)
  have "\<exists>v. sale_queued es k v \<and> (i, e, Some k, c, ls) = ordered i e v (Some k)"
    if d: "(i, e, Some k, c, ls) \<in> set (orders s')" and k: "known es k" for i k c ls
  proof (cases "(i, e, Some k, c, ls) \<in> set (orders s)")
    case True
    then show ?thesis using assms(1) k unfolding orders_faithful_def by blast
  next
    case False
    then have "(i, e, Some k, c, ls) \<in> set new" using d new(1) by simp
    then obtain i' v k' where n: "P v k'" "(i, e, Some k, c, ls) = ordered i' e' v k'" using new(2) by blast
    then have "k' = Some k" "e' = e" "i' = i" by (simp_all add: ordered_def)
    then show ?thesis using assms(3) n k by blast
  qed
  then show ?thesis using new(1) unfolding orders_faithful_def by simp
qed

lemma world_ok_server:
  assumes ok: "world_ok cfg e es w" and wf: "erp_wf (server_db srv)" and faithful: "orders_faithful e es (server_db srv)"
    and kept: "set (orders (server_db (w_server w))) \<subseteq> set (orders (server_db srv))"
  shows "world_ok cfg e es (w\<lparr>w_server := srv\<rparr>)"
proof (rule world_okI)
  note o = world_okD[OF ok]
  have h: "has_order e k (server_db (w_server w)) \<Longrightarrow> has_order e k (server_db srv)" for k using has_order_kept[OF _ kept] by blast
  show "wire_ok cfg e es (w\<lparr>w_server := srv\<rparr>)" using o(5) by (simp add: wire_ok_def)
  show "replies_ok e es (w\<lparr>w_server := srv\<rparr>)" using o(6) h by (fastforce simp: replies_ok_def)
  show "confirmed_ok e es (server_db (w_server (w\<lparr>w_server := srv\<rparr>)))" using o(8) h by (auto simp: confirmed_ok_def)
qed (use world_okD[OF ok] wf faithful in simp_all)

lemma world_ok_arrive:
  assumes ok: "world_ok cfg e es w" and wire: "w_wire w = before @ (n, rq) # after"
    and seen: "set (orders (seen env)) \<subseteq> set (orders (server_db (w_server w)))" and http: "api_http cfg env rq (w_server w) = (response, srv)"
  shows "world_ok cfg e es (w\<lparr>w_server := srv, w_wire := before @ after, w_replies := w_replies w @ [(n, rq, response)]\<rparr>)"
proof -
  note o = world_okD[OF ok]
  have rq: "n \<le> w_attempt w" "request_queued es rq" "actor cfg (Some (hr_authorization rq)) = Some e" "n = w_attempt w \<longrightarrow> flying (w_device w) rq"
    using o(5) wire by (auto simp: wire_ok_def)
  have moves: "erp_moves (\<lambda>v k. match_sales rq = Route (Sales (Sales_create v k))) e (server_db (w_server w)) (server_db srv)"
    using api_http_moves[OF rq(3), where env = env and srv = "w_server w"] http by simp
  have "sale_queued es k v" if "match_sales rq = Route (Sales (Sales_create v (Some k)))" for v k
    using request_queued_sale[OF rq(2) that] by simp
  then have f: "orders_faithful e es (server_db srv)" "set (orders (server_db (w_server w))) \<subseteq> set (orders (server_db srv))"
    using orders_faithful_moves[OF o(7) moves] by blast+
  have wf: "erp_wf (server_db srv)" by (rule erp_step_wf[OF erp_moves_step[OF moves] o(4)])
  have created: "has_order e (hr_idempotencyKey rq) (server_db srv)" if "response_ok response" "sale_queued es (hr_idempotencyKey rq) v" for v
  proof -
    have "hr_idempotencyKey rq \<noteq> []" using that(2) o(3) by (auto simp: sale_queued_def keys_once_def)
    then show ?thesis
      using api_http_created[OF _ request_matches[OF rq(2) that(2) o(3)] _ rq(3) seen] that(1) http by (simp add: has_order_def)
  qed
  note s = world_okD[OF world_ok_server[OF ok wf f]]
  show ?thesis
  proof (rule world_okI)
    show "wire_ok cfg e es (w\<lparr>w_server := srv, w_wire := before @ after, w_replies := w_replies w @ [(n, rq, response)]\<rparr>)"
      using s(5) wire by (auto simp: wire_ok_def)
    show "replies_ok e es (w\<lparr>w_server := srv, w_wire := before @ after, w_replies := w_replies w @ [(n, rq, response)]\<rparr>)"
      using s(6) rq created by (auto simp: replies_ok_def)
  qed (use s in simp_all)
qed

lemma world_run_ok: "world_run cfg e es w \<Longrightarrow> world_ok cfg e es w"
proof (induction rule: world_run.induct)
  case (world_start srv)
  then show ?case using new_device_ok
    by (simp add: world_ok_def keys_once_def wire_ok_def replies_ok_def orders_faithful_def confirmed_ok_def known_def)
next
  case (world_enqueue es w input m d)
  then show ?case by (intro world_ok_enqueue)
next
  case (world_send es w m rq d)
  then show ?case by (intro world_ok_send)
next
  case (world_arrive es w before n rq after env response srv)
  then show ?case by (intro world_ok_arrive)
next
  case (world_answer es w rq response m d)
  note o = world_okD[OF world_answer.IH]
  from world_answer(3) obtain now ms q outcome where b: "dev_batch (w_device w) = Some (m # ms)" "dev_flight (w_device w)"
    by (cases rule: queue_step.cases) auto
  have r: "request_queued es rq" "flying (w_device w) rq"
    "response_ok response \<Longrightarrow> sale_queued es (hr_idempotencyKey rq) v \<Longrightarrow> has_order e (hr_idempotencyKey rq) (server_db (w_server w))" for v
    using o(6) world_answer(2) by (fastforce simp: replies_ok_def)+
  have key: "hr_idempotencyKey rq = qm_idempotencyKey m" using r(2) b by (simp add: flying_def)
  show ?case
  proof (rule world_ok_device[OF world_answer.IH world_answer(3)])
    fix m' response' assume ev: "Ev_answered m (Fetched response) = Ev_answered m' (Fetched response')" and "response_ok response'"
    then show "known es (qm_idempotencyKey m') \<and>
        (\<forall>v. sale_queued es (qm_idempotencyKey m') v \<longrightarrow> has_order e (qm_idempotencyKey m') (server_db (w_server w)))"
      using request_queued_known[OF r(1)] r(3) key by auto
  qed simp_all
next
  case (world_fail es w m d)
  then show ?case by (intro world_ok_device) auto
next
  case (world_device es w ev d)
  then show ?case by (intro world_ok_device) auto
next
  case (world_others es w e' srv)
  note o = world_okD[OF world_others.IH]
  have "orders_faithful e es (server_db srv) \<and> set (orders (server_db (w_server w))) \<subseteq> set (orders (server_db srv))"
    by (rule orders_faithful_moves[OF o(7) world_others(2)]) (auto simp: known_def)
  then show ?case using world_ok_server[OF world_others.IH erp_step_wf[OF erp_moves_step[OF world_others(2)] o(4)]] by blast
next
  case (world_elsewhere es w srv)
  note o = world_okD[OF world_elsewhere.IH]
  show ?case using world_elsewhere(2,3) o(7) by (intro world_ok_server[OF world_elsewhere.IH]) (simp_all add: orders_faithful_def)
qed

lemma unique_key_at_most_one:
  "unique_key tenant key rows \<Longrightarrow> length (filter (\<lambda>r. tenant r = t \<and> key r = Some k) rows) \<le> 1"
proof (induction rows)
  case (Cons r rows)
  show ?case
  proof (cases "tenant r = t \<and> key r = Some k")
    case True
    have "\<not> (tenant x = t \<and> key x = Some k)" if x: "x \<in> set rows" for x
    proof
      assume "tenant x = t \<and> key x = Some k"
      then have "(tenant r, key r) \<in> (\<lambda>r. (tenant r, key r)) ` set (filter (\<lambda>r. key r \<noteq> None) rows)"
        using True x by (intro rev_image_eqI[of x]) simp_all
      then show False using Cons.prems True by (simp add: unique_key_def)
    qed
    then have "filter (\<lambda>r. tenant r = t \<and> key r = Some k) rows = []" by (simp add: filter_empty_conv)
    then show ?thesis using True by simp
  next
    case False
    then show ?thesis using Cons by (auto simp: unique_key_def split: if_splits)
  qed
qed simp

text \<open>
  C6. A sale queued on the device is created exactly once: however often its request is lost, delayed, repeated or
  processed without its answer coming back, and whatever everybody else does meanwhile, the enterprise never
  has two sales with its key; every sale with that key has the customer, the products and the quantities that
  were queued; and once an answer of success has arrived there is one.
\<close>

theorem mobile_sale_exactly_once:
  assumes "world_run cfg e es w" and "Ev_enqueued input m \<in> set es" and "enq_method input = M_POST" and "enq_path input = ''/sales''"
    and "enq_body input = Some (sale_body v)" and "\<And>n. saleInput_notes v = Some n \<Longrightarrow> js_trim n = n"
  shows "let found = filter (\<lambda>sale. sale_enterpriseId sale = e \<and> sale_idempotencyKey sale = Some (qm_idempotencyKey m))
           (sales (server_db (w_server w))) in
     length found \<le> 1 \<and>
     (\<forall>sale\<in>set found. sale_customerId sale = saleInput_customerId v \<and>
        map (\<lambda>l. (saleLine_productId l, saleLine_quantity l)) (sale_lines sale) =
        map (\<lambda>l. (saleInput_productId l, saleInput_quantity l)) (saleInput_lines v)) \<and>
     ((\<exists>m' response. Ev_answered m' (Fetched response) \<in> set es \<and> response_ok response \<and>
         qm_idempotencyKey m' = qm_idempotencyKey m) \<longrightarrow> found \<noteq> [])"
proof -
  let ?s = "server_db (w_server w)" and ?k = "qm_idempotencyKey m"
  define found where "found = filter (\<lambda>sale. sale_enterpriseId sale = e \<and> sale_idempotencyKey sale = Some ?k) (sales ?s)"
  note o = world_okD[OF world_run_ok[OF assms(1)]]
  have "path_segments ''/sales'' = [''sales'']" by code_simp
  then have q: "sale_queued es ?k v"
    unfolding sale_queued_def using assms(2-5) parse_sale_body[OF assms(6)] by (intro exI[of _ input] exI[of _ m]) simp
  have known: "known es ?k" using assms(2) by (auto simp: known_def)
  have same: "v' = v" if v': "sale_queued es ?k v'" for v'
  proof -
    obtain input' m' b where "Ev_enqueued input' m' \<in> set es" "qm_idempotencyKey m' = ?k" "enq_body input' = Some b" "parse_sale b = Some v'"
      using v' by (auto simp: sale_queued_def)
    moreover from this have "input' = input" using o(3) assms(2) unfolding keys_once_def by blast
    moreover have "parse_sale (sale_body v) = Some v" by (rule parse_sale_body[OF assms(6)])
    ultimately show ?thesis using assms(5) by simp
  qed
  have "unique_key sale_enterpriseId sale_idempotencyKey (sales ?s)" using erp_wfD(4)[OF o(4)] by (simp add: sales_wf_def)
  then have one: "length found \<le> 1" unfolding found_def by (rule unique_key_at_most_one)
  have "sale_customerId sale = saleInput_customerId v \<and> map (\<lambda>l. (saleLine_productId l, saleLine_quantity l)) (sale_lines sale) =
      map (\<lambda>l. (saleInput_productId l, saleInput_quantity l)) (saleInput_lines v)" if "sale \<in> set found" for sale
  proof -
    let ?ls = "map (\<lambda>l. (saleLine_productId l, saleLine_quantity l)) (sale_lines sale)"
    have f: "sale \<in> set (sales ?s)" "sale_enterpriseId sale = e" "sale_idempotencyKey sale = Some ?k" using that by (simp_all add: found_def)
    have "order_of sale \<in> set (orders ?s)" using f(1) by simp
    moreover have "order_of sale = (sale_id sale, e, Some ?k, sale_customerId sale, ?ls)" using f by (simp add: order_of_def)
    ultimately have "(sale_id sale, e, Some ?k, sale_customerId sale, ?ls) \<in> set (orders ?s)" by metis
    from o(7)[unfolded orders_faithful_def, rule_format, OF this known] show ?thesis using same by (auto simp: ordered_def)
  qed
  moreover have "found \<noteq> []" if "\<exists>m' response. Ev_answered m' (Fetched response) \<in> set es \<and> response_ok response \<and> qm_idempotencyKey m' = ?k"
  proof -
    have "has_order e ?k ?s" using that o(8) q unfolding confirmed_ok_def by metis
    then show ?thesis by (auto simp: has_order_def order_of_def found_def filter_empty_conv)
  qed
  ultimately show ?thesis using one unfolding found_def Let_def by blast
qed

definition gx_input :: enqueue_input where
  "gx_input = \<lparr>enq_method = M_POST, enq_path = ''/sales'', enq_body = Some (sale_body gx_sale), enq_scope = None\<rparr>"

lemma gx_created:
  assumes "hr_authorization rq = ''Bearer tok''" and "match_sales rq = Route (Sales (Sales_create gx_sale (Some ''k1'')))"
  shows "response_ok (fst (api_http gx_config gx_env rq gx_server))"
proof -
  have "(case fst (api_request gx_config gx_env (Some ''Bearer tok'') (Sales (Sales_create gx_sale (Some ''k1''))) gx_server) of
      Inl _ \<Rightarrow> False | Inr _ \<Rightarrow> True)" by code_simp
  then obtain a srv where "api_request gx_config gx_env (Some ''Bearer tok'') (Sales (Sales_create gx_sale (Some ''k1''))) gx_server = (Inr a, srv)"
    by (cases "api_request gx_config gx_env (Some ''Bearer tok'') (Sales (Sales_create gx_sale (Some ''k1''))) gx_server")
      (auto split: sum.splits)
  then show ?thesis using assms by (simp add: api_http_def response_ok_def)
qed

lemma mobile_sale_exactly_once_witness:
  "\<exists>es w sale. world_run gx_config ''e1'' es w \<and>
     filter (\<lambda>sale. sale_enterpriseId sale = ''e1'' \<and> sale_idempotencyKey sale = Some ''k1'') (sales (server_db (w_server w))) = [sale] \<and>
     sale_customerId sale = ''c1'' \<and> map (\<lambda>l. (saleLine_productId l, saleLine_quantity l)) (sale_lines sale) = [(''p1'', 2)]"
proof -
  have path: "assertValidMutationPath (enq_path gx_input) = Inr ()" unfolding gx_input_def by code_simp
  have ok: "\<And>v. enq_body gx_input = Some v \<Longrightarrow> json_ok v" by (auto simp: gx_input_def sale_body_ok)
  obtain m d1 d2 d3 where s: "queue_step new_device (Ev_enqueued gx_input m) d1" "queue_step d1 Ev_started d2"
    "queue_step d2 (Ev_sent m (mutation_request ''tok'' m)) d3" and m: "qm_idempotencyKey m = ''k1''" "qm_path m = enq_path gx_input"
    "qm_method m = enq_method gx_input" "qm_body m = enq_body gx_input" and d3: "dev_batch d3 = Some [m]" "dev_flight d3"
    by (rule one_mutation[OF path ok, where token = "''tok''" and key = "''k1''"]) simp_all
  define rq where "rq = mutation_request ''tok'' m"
  have rq: "hr_method rq = M_POST" "hr_path rq = ''/sales''" "hr_authorization rq = ''Bearer tok''" "hr_idempotencyKey rq = ''k1''"
    "hr_body rq = Some (JSON_stringify (sale_body gx_sale))"
    using m by (simp_all add: rq_def mutation_request_def gx_input_def)
  have trimmed: "\<And>n. saleInput_notes gx_sale = Some n \<Longrightarrow> js_trim n = n" by (simp add: gx_sale_def)
  have seg: "path_segments ''/sales'' = [''sales'']" by code_simp
  have route: "match_sales rq = Route (Sales (Sales_create gx_sale (Some ''k1'')))"
    by (simp add: match_sales_def rq seg JSON_parse_stringify[OF sale_body_ok] parse_sale_body[OF trimmed])
  obtain response srv where http: "api_http gx_config gx_env rq gx_server = (response, srv)" by fastforce
  have good: "response_ok response" using gx_created[OF rq(3) route] http by simp
  have actor: "actor gx_config (Some (hr_authorization rq)) = Some ''e1''"
    by (simp add: rq actor_def gx_config_def tenant_context_use_def bearer_token_def verifyAccessToken_def access_claims_def)
  obtain outcome q where r: "processOne_receive 0 m (Fetched response) (dev_store d3) = (outcome, q)" by fastforce
  from answer[OF d3 r] obtain d4 where s4: "queue_step d3 (Ev_answered m (Fetched response)) d4" by blast
  let ?w = "\<lambda>d srv n ws rs. \<lparr>w_device = d, w_server = srv, w_attempt = n, w_wire = ws, w_replies = rs\<rparr>"
  have "world_run gx_config ''e1'' [] (?w new_device gx_server 0 [] [])" by (rule world_start[OF gx_server_wf])
  from world_enqueue[OF this, of gx_input m d1] s(1) m(1)
  have "world_run gx_config ''e1'' [Ev_enqueued gx_input m] (?w d1 gx_server 0 [] [])"
    by (simp add: gx_server_def fx_billing_db_def fx_db_def empty_db_def)
  from world_device[OF this, of Ev_started d2] s(2)
  have "world_run gx_config ''e1'' [Ev_enqueued gx_input m, Ev_started] (?w d2 gx_server 0 [] [])" by simp
  from world_send[OF this, of m rq d3] s(3) actor
  have "world_run gx_config ''e1'' [Ev_enqueued gx_input m, Ev_started, Ev_sent m rq] (?w d3 gx_server 1 [(1, rq)] [])" by (simp add: rq_def)
  from world_arrive[OF this, of "[]" 1 rq "[]" gx_env response srv] http
  have "world_run gx_config ''e1'' [Ev_enqueued gx_input m, Ev_started, Ev_sent m rq] (?w d3 srv 1 [] [(1, rq, response)])"
    by (simp add: gx_env_def)
  from world_answer[OF this, of rq response m d4] s4
  have run: "world_run gx_config ''e1'' [Ev_enqueued gx_input m, Ev_started, Ev_sent m rq, Ev_answered m (Fetched response)]
      (?w d4 srv 1 [] [(1, rq, response)])" by simp
  let ?found = "filter (\<lambda>sale. sale_enterpriseId sale = ''e1'' \<and> sale_idempotencyKey sale = Some ''k1'') (sales (server_db srv))"
  have "length ?found \<le> 1 \<and> (\<forall>sale\<in>set ?found. sale_customerId sale = ''c1'' \<and>
        map (\<lambda>l. (saleLine_productId l, saleLine_quantity l)) (sale_lines sale) = [(''p1'', 2)]) \<and> ?found \<noteq> []"
    using mobile_sale_exactly_once[OF run, of gx_input m gx_sale] m(1) good by (auto simp: gx_input_def gx_sale_def Let_def)
  then obtain sale where "?found = [sale]" by (cases ?found) auto
  then show ?thesis using run \<open>length ?found \<le> 1 \<and> _\<close>
    by (intro exI[of _ "[Ev_enqueued gx_input m, Ev_started, Ev_sent m rq, Ev_answered m (Fetched response)]"]
        exI[of _ "?w d4 srv 1 [] [(1, rq, response)]"] exI[of _ sale]) simp
qed

end
