(* ===== verification/Auth.thy ===== *)
theory Auth
  imports Access Subscriptions
begin

text \<open>
  apps/api/src/auth: sign-in with its lockout, the second factor, the rotation of refresh tokens with
  detection of reuse, sign-out, password reset, verification of the email, and invitations. Password
  hashing (\<open>verify_password\<close>, \<open>hash_password\<close>), SHA-256 (\<open>hashToken\<close>), TOTP (\<open>mfa_ok\<close>, on the stored
  secret) and the JWT library are parameters; so are the random tokens and identifiers drawn. Before each
  write that follows a read, \<open>others\<close> is what concurrent requests do to the database.
\<close>

section \<open>Audit and rows\<close>

definition auth_audit :: "uuid option \<Rightarrow> uuid option \<Rightarrow> audit_action \<Rightarrow> string \<Rightarrow> uuid option \<Rightarrow> string option \<Rightarrow> db \<Rightarrow> db" where
  "auth_audit userId enterpriseId action resource resourceId reason =
     auditLog_record \<lparr>audit_userId = userId, audit_enterpriseId = enterpriseId, audit_action = action,
       audit_resource = resource, audit_resourceId = resourceId, audit_reason = reason\<rparr>"

definition user_update :: "uuid \<Rightarrow> (user \<Rightarrow> user) \<Rightarrow> (db, exn, user) txn" where
  "user_update i f s = (case find_by user_id i (users s) of
     None \<Rightarrow> Inl (PrismaKnown P2025)
   | Some u \<Rightarrow> Inr (f u, s\<lparr>users := update_by user_id i f (users s)\<rparr>))"

definition refreshToken_create :: "refresh_token \<Rightarrow> (db, exn, refresh_token) txn" where
  "refreshToken_create row s =
     (if \<exists>t\<in>set (refreshTokens s). refreshToken_tokenHash t = refreshToken_tokenHash row \<or> refreshToken_id t = refreshToken_id row
      then Inl (PrismaKnown P2002) else Inr (row, s\<lparr>refreshTokens := refreshTokens s @ [row]\<rparr>))"

definition refreshToken_update :: "uuid \<Rightarrow> (refresh_token \<Rightarrow> refresh_token) \<Rightarrow> (db, exn, unit) txn" where
  "refreshToken_update i f s = (case find_by refreshToken_id i (refreshTokens s) of
     None \<Rightarrow> Inl (PrismaKnown P2025)
   | Some t \<Rightarrow> Inr ((), s\<lparr>refreshTokens := update_by refreshToken_id i f (refreshTokens s)\<rparr>))"

text \<open>\<open>updateMany\<close> on the tokens of a family, or of a user, that are not revoked yet.\<close>

definition revoke_token :: "date \<Rightarrow> refresh_token \<Rightarrow> refresh_token" where
  "revoke_token now t = t\<lparr>refreshToken_status := Tok_REVOKED, refreshToken_revokedAt := Some now\<rparr>"

definition revoke_where :: "(refresh_token \<Rightarrow> bool) \<Rightarrow> date \<Rightarrow> db \<Rightarrow> db" where
  "revoke_where P now s = s\<lparr>refreshTokens := map (\<lambda>t. if P t \<and> refreshToken_status t \<noteq> Tok_REVOKED
     then revoke_token now t else t) (refreshTokens s)\<rparr>"

definition revoke_family :: "uuid \<Rightarrow> date \<Rightarrow> db \<Rightarrow> db" where
  "revoke_family familyId = revoke_where (\<lambda>t. refreshToken_familyId t = familyId)"

section \<open>Sessions\<close>

definition new_refresh_token :: "(string \<Rightarrow> string) \<Rightarrow> int \<Rightarrow> date \<Rightarrow> uuid \<Rightarrow> uuid \<Rightarrow> uuid \<Rightarrow> string \<Rightarrow> refresh_token" where
  "new_refresh_token hashToken ttl now newId userId familyId raw =
     \<lparr>refreshToken_id = newId, refreshToken_userId = userId, refreshToken_familyId = familyId,
      refreshToken_tokenHash = hashToken raw, refreshToken_status = Tok_ACTIVE, refreshToken_expiresAt = now + ttl,
      refreshToken_replacedByTokenId = None, refreshToken_revokedAt = None\<rparr>"

text \<open>What a request draws: the identifier and the raw value of a token, the identifier of its family.\<close>

record fresh =
  fresh_id :: uuid
  fresh_raw :: string
  fresh_family :: uuid

definition issueTokenPair ::
    "(string \<Rightarrow> string) \<Rightarrow> (jwt_claims \<Rightarrow> string) \<Rightarrow> int \<Rightarrow> date \<Rightarrow> fresh \<Rightarrow> uuid \<Rightarrow> uuid option \<Rightarrow> bool \<Rightarrow> db \<Rightarrow>
     (exn + string \<times> string) \<times> db" where
  "issueTokenPair hashToken jwt_sign ttl now fr userId enterpriseId isSuperAdmin s =
     (case refreshToken_create (new_refresh_token hashToken ttl now (fresh_id fr) userId (fresh_family fr) (fresh_raw fr)) s of
        Inl e \<Rightarrow> (Inl e, s)
      | Inr (_, s1) \<Rightarrow> (Inr (signAccessToken jwt_sign userId enterpriseId isSuperAdmin, fresh_raw fr), s1))"

definition MAX_FAILED_LOGIN_ATTEMPTS :: int where "MAX_FAILED_LOGIN_ATTEMPTS = 5"
definition LOCKOUT_DURATION_MS :: int where "LOCKOUT_DURATION_MS = 900000"

abbreviation GENERIC_LOGIN_ERROR :: exn where
  "GENERIC_LOGIN_ERROR \<equiv> UnauthorizedException ''Identifiants invalides''"

datatype login_result = mfa_required string | signed_in string string

definition is_locked :: "date \<Rightarrow> user \<Rightarrow> bool" where
  "is_locked now user = (case user_lockedUntil user of None \<Rightarrow> False | Some t \<Rightarrow> now < t)"

definition failed_login :: "date \<Rightarrow> user \<Rightarrow> user \<Rightarrow> user" where
  "failed_login now seen row = row\<lparr>user_failedLoginCount := user_failedLoginCount seen + 1,
     user_lockedUntil := (if MAX_FAILED_LOGIN_ATTEMPTS \<le> user_failedLoginCount seen + 1 then Some (now + LOCKOUT_DURATION_MS)
       else user_lockedUntil seen)\<rparr>"

definition login_wrong_password :: "date \<Rightarrow> user \<Rightarrow> db \<Rightarrow> (exn + login_result) \<times> db" where
  "login_wrong_password now user s =
     (case user_update (user_id user) (failed_login now user) s of
        Inl e \<Rightarrow> (Inl e, s)
      | Inr (_, s1) \<Rightarrow>
          (Inl GENERIC_LOGIN_ERROR,
           auth_audit (Some (user_id user)) (user_enterpriseId user) LOGIN_FAILED ''User'' (Some (user_id user)) None
             (if MAX_FAILED_LOGIN_ATTEMPTS \<le> user_failedLoginCount user + 1
              then auth_audit (Some (user_id user)) (user_enterpriseId user) ACCOUNT_LOCKED ''User'' (Some (user_id user)) None s1
              else s1)))"

definition login_right_password ::
    "(string \<Rightarrow> string) \<Rightarrow> (jwt_claims \<Rightarrow> string) \<Rightarrow> int \<Rightarrow> date \<Rightarrow> fresh \<Rightarrow> (nat \<Rightarrow> db \<Rightarrow> db) \<Rightarrow> user \<Rightarrow> db \<Rightarrow>
     (exn + login_result) \<times> db" where
  "login_right_password hashToken jwt_sign ttl now fr others user s =
     (case user_update (user_id user) (\<lambda>r. r\<lparr>user_failedLoginCount := 0, user_lockedUntil := None, user_lastLoginAt := Some now\<rparr>) s of
        Inl e \<Rightarrow> (Inl e, s)
      | Inr (_, s1) \<Rightarrow>
          if user_isSuperAdmin user
          then if \<not> user_mfaEnabled user
               then (Inl GENERIC_LOGIN_ERROR,
                     auth_audit (Some (user_id user)) None LOGIN_FAILED ''User'' (Some (user_id user)) (Some ''mfa_not_configured'') s1)
               else (Inr (mfa_required (signMfaChallengeToken jwt_sign (user_id user))), s1)
          else (case issueTokenPair hashToken jwt_sign ttl now fr (user_id user) (user_enterpriseId user)
                       (user_isSuperAdmin user) (others 1 s1) of
              (Inl e, s2) \<Rightarrow> (Inl e, s2)
            | (Inr (accessToken, refreshToken), s2) \<Rightarrow>
                (Inr (signed_in accessToken refreshToken),
                 auth_audit (Some (user_id user)) (user_enterpriseId user) LOGIN ''User'' (Some (user_id user)) None s2)))"

definition login ::
    "(string \<Rightarrow> string \<Rightarrow> bool) \<Rightarrow> (string \<Rightarrow> string) \<Rightarrow> (jwt_claims \<Rightarrow> string) \<Rightarrow> int \<Rightarrow> date \<Rightarrow> fresh \<Rightarrow> (nat \<Rightarrow> db \<Rightarrow> db) \<Rightarrow>
     string \<Rightarrow> string \<Rightarrow> db \<Rightarrow> (exn + login_result) \<times> db" where
  "login verify_password hashToken jwt_sign ttl now fr others email password s =
     (case find_by user_email email (users s) of
        None \<Rightarrow> (Inl GENERIC_LOGIN_ERROR, auth_audit None None LOGIN_FAILED ''User'' None None s)
      | Some user \<Rightarrow>
          if is_locked now user
          then (Inl GENERIC_LOGIN_ERROR, auth_audit (Some (user_id user)) (user_enterpriseId user) LOGIN_FAILED ''User''
                  (Some (user_id user)) (Some ''locked'') s)
          else if \<not> active_account user s
          then (Inl GENERIC_LOGIN_ERROR, auth_audit (Some (user_id user)) (user_enterpriseId user) LOGIN_FAILED ''User''
                  (Some (user_id user)) (Some ''account_inactive'') s)
          else if \<not> verify_password (user_passwordHash user) password
          then login_wrong_password now user (others 0 s)
          else login_right_password hashToken jwt_sign ttl now fr others user (others 0 s))"

definition verifyMfaAndIssueTokens ::
    "(string \<Rightarrow> jwt_claims option) \<Rightarrow> (string \<Rightarrow> string \<Rightarrow> bool) \<Rightarrow> (string \<Rightarrow> string) \<Rightarrow> (jwt_claims \<Rightarrow> string) \<Rightarrow> int \<Rightarrow> date \<Rightarrow>
     fresh \<Rightarrow> string \<Rightarrow> string \<Rightarrow> db \<Rightarrow> (exn + string \<times> string) \<times> db" where
  "verifyMfaAndIssueTokens jwt_verify mfa_ok hashToken jwt_sign ttl now fr challengeToken code s =
     (case verifyMfaChallengeToken jwt_verify challengeToken of
        Inl e \<Rightarrow> (Inl (UnauthorizedException ''Defi MFA invalide ou expire''), s)
      | Inr userId \<Rightarrow> (case find_by user_id userId (users s) of
          None \<Rightarrow> (Inl (UnauthorizedException ''Defi MFA invalide ou expire''), s)
        | Some user \<Rightarrow>
            if \<not> user_mfaEnabled user \<or> \<not> truthy (user_mfaSecret user)
            then (Inl (UnauthorizedException ''Defi MFA invalide ou expire''), s)
            else if \<not> mfa_ok (the (user_mfaSecret user)) code
            then (Inl (UnauthorizedException ''Code MFA invalide''),
                  auth_audit (Some (user_id user)) None MFA_CHALLENGE_FAILED ''User'' (Some (user_id user)) None s)
            else (case issueTokenPair hashToken jwt_sign ttl now fr (user_id user) (user_enterpriseId user) (user_isSuperAdmin user) s of
                (Inl e, s1) \<Rightarrow> (Inl e, s1)
              | (Inr tokens, s1) \<Rightarrow> (Inr tokens, auth_audit (Some (user_id user)) None LOGIN ''User'' (Some (user_id user)) None s1))))"

definition refresh ::
    "(string \<Rightarrow> string) \<Rightarrow> (jwt_claims \<Rightarrow> string) \<Rightarrow> int \<Rightarrow> date \<Rightarrow> fresh \<Rightarrow> (nat \<Rightarrow> db \<Rightarrow> db) \<Rightarrow> string \<Rightarrow> db \<Rightarrow>
     (exn + string \<times> string) \<times> db" where
  "refresh hashToken jwt_sign ttl now fr others rawToken s =
     (case find_by refreshToken_tokenHash (hashToken rawToken) (refreshTokens s) of
        None \<Rightarrow> (Inl (UnauthorizedException ''Jeton de rafraichissement invalide''), s)
      | Some existing \<Rightarrow> (case find_by user_id (refreshToken_userId existing) (users s) of
          None \<Rightarrow> (Inl PrismaUnknown, s)
        | Some user \<Rightarrow>
            if refreshToken_status existing \<noteq> Tok_ACTIVE
            then (Inl (UnauthorizedException ''Session compromise, veuillez vous reconnecter''),
                  auth_audit (Some (refreshToken_userId existing)) (user_enterpriseId user) REFRESH_TOKEN_REUSE_DETECTED
                    ''RefreshToken'' (Some (refreshToken_id existing)) None
                    (revoke_family (refreshToken_familyId existing) now (others 0 s)))
            else if refreshToken_expiresAt existing < now
            then (case refreshToken_update (refreshToken_id existing) (revoke_token now) (others 0 s) of
                Inl e \<Rightarrow> (Inl e, others 0 s)
              | Inr (_, s1) \<Rightarrow> (Inl (UnauthorizedException ''Session expiree''), s1))
            else if \<not> active_account user s
            then (Inl (UnauthorizedException ''Compte ou entreprise suspendu(e)''),
                  auth_audit (Some (refreshToken_userId existing)) (user_enterpriseId user) REFRESH_REJECTED_INACTIVE_ACCOUNT
                    ''RefreshToken'' (Some (refreshToken_id existing)) None
                    (revoke_family (refreshToken_familyId existing) now (others 0 s)))
            else (case refreshToken_create (new_refresh_token hashToken ttl now (fresh_id fr) (refreshToken_userId existing)
                         (refreshToken_familyId existing) (fresh_raw fr)) (others 0 s) of
                Inl e \<Rightarrow> (Inl e, others 0 s)
              | Inr (newToken, s1) \<Rightarrow> (case refreshToken_update (refreshToken_id existing)
                    (\<lambda>t. t\<lparr>refreshToken_status := Tok_ROTATED, refreshToken_replacedByTokenId := Some (refreshToken_id newToken)\<rparr>)
                    (others 1 s1) of
                  Inl e \<Rightarrow> (Inl e, others 1 s1)
                | Inr (_, s2) \<Rightarrow> (Inr (signAccessToken jwt_sign (user_id user) (user_enterpriseId user) (user_isSuperAdmin user),
                    fresh_raw fr), s2)))))"

definition logout :: "(string \<Rightarrow> string) \<Rightarrow> date \<Rightarrow> (nat \<Rightarrow> db \<Rightarrow> db) \<Rightarrow> string \<Rightarrow> uuid \<Rightarrow> db \<Rightarrow> db" where
  "logout hashToken now others rawToken currentUserId s =
     (case find_by refreshToken_tokenHash (hashToken rawToken) (refreshTokens s) of
        None \<Rightarrow> s
      | Some existing \<Rightarrow>
          if refreshToken_userId existing \<noteq> currentUserId then s
          else let s1 = revoke_family (refreshToken_familyId existing) now (others 0 s)
          in auth_audit (Some currentUserId)
               (case find_by user_id currentUserId (users s1) of None \<Rightarrow> None | Some user \<Rightarrow> user_enterpriseId user)
               LOGOUT ''User'' (Some currentUserId) None s1)"

section \<open>Account recovery\<close>

definition PASSWORD_RESET_TTL_MS :: int where "PASSWORD_RESET_TTL_MS = 3600000"
definition EMAIL_VERIFICATION_TTL_MS :: int where "EMAIL_VERIFICATION_TTL_MS = 86400000"
definition INVITATION_TTL_MS :: int where "INVITATION_TTL_MS = 604800000"

abbreviation GENERIC_TOKEN_ERROR :: exn where
  "GENERIC_TOKEN_ERROR \<equiv> UnauthorizedException ''Jeton invalide ou expire''"

definition new_auth_token :: "(string \<Rightarrow> string) \<Rightarrow> int \<Rightarrow> date \<Rightarrow> uuid \<Rightarrow> uuid \<Rightarrow> auth_token_type \<Rightarrow> string \<Rightarrow> auth_token" where
  "new_auth_token hashToken ttl now newId userId type raw =
     \<lparr>authToken_id = newId, authToken_userId = userId, authToken_type = type, authToken_tokenHash = hashToken raw,
      authToken_expiresAt = now + ttl, authToken_consumedAt = None\<rparr>"

definition authToken_create :: "auth_token \<Rightarrow> (db, exn, auth_token) txn" where
  "authToken_create row s =
     (if \<exists>t\<in>set (authTokens s). authToken_tokenHash t = authToken_tokenHash row \<or> authToken_id t = authToken_id row
      then Inl (PrismaKnown P2002) else Inr (row, s\<lparr>authTokens := authTokens s @ [row]\<rparr>))"

definition consume :: "date \<Rightarrow> auth_token \<Rightarrow> auth_token" where
  "consume now t = t\<lparr>authToken_consumedAt := Some now\<rparr>"

definition authToken_consume :: "uuid \<Rightarrow> date \<Rightarrow> (db, exn, unit) txn" where
  "authToken_consume i now s = (case find_by authToken_id i (authTokens s) of
     None \<Rightarrow> Inl (PrismaKnown P2025)
   | Some t \<Rightarrow> Inr ((), s\<lparr>authTokens := update_by authToken_id i (consume now) (authTokens s)\<rparr>))"

definition findValidToken :: "(string \<Rightarrow> string) \<Rightarrow> date \<Rightarrow> string \<Rightarrow> auth_token_type \<Rightarrow> db \<Rightarrow> auth_token option" where
  "findValidToken hashToken now rawToken type s =
     (case find_by authToken_tokenHash (hashToken rawToken) (authTokens s) of
        None \<Rightarrow> None
      | Some t \<Rightarrow> if authToken_type t \<noteq> type \<or> authToken_consumedAt t \<noteq> None \<or> authToken_expiresAt t < now then None else Some t)"

text \<open>The mails sent are returned: recipient and raw token.\<close>

definition requestPasswordReset ::
    "(string \<Rightarrow> string) \<Rightarrow> date \<Rightarrow> fresh \<Rightarrow> string \<Rightarrow> db \<Rightarrow> (exn + (string \<times> string) list) \<times> db" where
  "requestPasswordReset hashToken now fr email s =
     (case find_by user_email email (users s) of
        None \<Rightarrow> (Inr [], s)
      | Some user \<Rightarrow>
          (let invalidated = s\<lparr>authTokens := map (\<lambda>t. if authToken_userId t = user_id user \<and> authToken_type t = PASSWORD_RESET \<and>
                   authToken_consumedAt t = None then consume now t else t) (authTokens s)\<rparr>
           in case authToken_create (new_auth_token hashToken PASSWORD_RESET_TTL_MS now (fresh_id fr) (user_id user)
                     PASSWORD_RESET (fresh_raw fr)) invalidated of
                Inl e \<Rightarrow> (Inl e, s)
              | Inr (_, s1) \<Rightarrow> (Inr [(user_email user, fresh_raw fr)],
                  auth_audit (Some (user_id user)) (user_enterpriseId user) PASSWORD_RESET_REQUESTED ''User'' (Some (user_id user)) None s1)))"

definition resetPassword_tx :: "(string \<Rightarrow> string) \<Rightarrow> date \<Rightarrow> auth_token \<Rightarrow> string \<Rightarrow> (db, exn, unit) txn" where
  "resetPassword_tx hash_password now authToken newPassword s =
     (case user_update (authToken_userId authToken) (\<lambda>u. u\<lparr>user_passwordHash := hash_password newPassword,
              user_failedLoginCount := 0, user_lockedUntil := None\<rparr>) s of
        Inl e \<Rightarrow> Inl e
      | Inr (_, s1) \<Rightarrow> (case authToken_consume (authToken_id authToken) now s1 of
          Inl e \<Rightarrow> Inl e
        | Inr (_, s2) \<Rightarrow> Inr ((), revoke_where (\<lambda>t. refreshToken_userId t = authToken_userId authToken) now s2)))"

definition resetPassword ::
    "(string \<Rightarrow> string) \<Rightarrow> (string \<Rightarrow> string) \<Rightarrow> date \<Rightarrow> (nat \<Rightarrow> db \<Rightarrow> db) \<Rightarrow> string \<Rightarrow> string \<Rightarrow> db \<Rightarrow> (exn + unit) \<times> db" where
  "resetPassword hashToken hash_password now others rawToken newPassword s =
     (case findValidToken hashToken now rawToken PASSWORD_RESET s of
        None \<Rightarrow> (Inl GENERIC_TOKEN_ERROR, s)
      | Some authToken \<Rightarrow> (case commit_txn (resetPassword_tx hash_password now authToken newPassword) (others 0 s) of
          (Inl e, s1) \<Rightarrow> (Inl e, s1)
        | (Inr _, s1) \<Rightarrow> (Inr (), auth_audit (Some (authToken_userId authToken)) None PASSWORD_RESET_COMPLETED ''User''
            (Some (authToken_userId authToken)) None s1)))"

definition issueEmailVerificationToken :: "(string \<Rightarrow> string) \<Rightarrow> date \<Rightarrow> fresh \<Rightarrow> uuid \<Rightarrow> db \<Rightarrow> (exn + string) \<times> db" where
  "issueEmailVerificationToken hashToken now fr userId s =
     (case authToken_create (new_auth_token hashToken EMAIL_VERIFICATION_TTL_MS now (fresh_id fr) userId EMAIL_VERIFICATION (fresh_raw fr)) s of
        Inl e \<Rightarrow> (Inl e, s) | Inr (_, s1) \<Rightarrow> (Inr (fresh_raw fr), s1))"

definition verifyEmail_tx :: "date \<Rightarrow> auth_token \<Rightarrow> (db, exn, unit) txn" where
  "verifyEmail_tx now authToken s = (case authToken_consume (authToken_id authToken) now s of
     Inl e \<Rightarrow> Inl e
   | Inr (_, s1) \<Rightarrow> (case user_update (authToken_userId authToken) (\<lambda>u. u\<lparr>user_emailVerifiedAt := Some now\<rparr>) s1 of
       Inl e \<Rightarrow> Inl e | Inr (_, s2) \<Rightarrow> Inr ((), s2)))"

definition verifyEmail :: "(string \<Rightarrow> string) \<Rightarrow> date \<Rightarrow> (nat \<Rightarrow> db \<Rightarrow> db) \<Rightarrow> string \<Rightarrow> db \<Rightarrow> (exn + unit) \<times> db" where
  "verifyEmail hashToken now others rawToken s =
     (case findValidToken hashToken now rawToken EMAIL_VERIFICATION s of
        None \<Rightarrow> (Inl GENERIC_TOKEN_ERROR, s)
      | Some authToken \<Rightarrow> (case commit_txn (verifyEmail_tx now authToken) (others 0 s) of
          (Inl e, s1) \<Rightarrow> (Inl e, s1)
        | (Inr _, s1) \<Rightarrow> (Inr (), auth_audit (Some (authToken_userId authToken)) None EMAIL_VERIFIED ''User''
            (Some (authToken_userId authToken)) None s1)))"

section \<open>Invitations\<close>

definition acceptInvitation_tx :: "(string \<Rightarrow> string) \<Rightarrow> date \<Rightarrow> auth_token \<Rightarrow> string \<Rightarrow> (db, exn, user) txn" where
  "acceptInvitation_tx hash_password now authToken password s = (case authToken_consume (authToken_id authToken) now s of
     Inl e \<Rightarrow> Inl e
   | Inr (_, s1) \<Rightarrow> user_update (authToken_userId authToken) (\<lambda>u. u\<lparr>user_passwordHash := hash_password password,
        user_status := Usr_ACTIVE, user_emailVerifiedAt := Some now\<rparr>) s1)"

definition acceptInvitation ::
    "(string \<Rightarrow> string) \<Rightarrow> (string \<Rightarrow> string) \<Rightarrow> (jwt_claims \<Rightarrow> string) \<Rightarrow> int \<Rightarrow> date \<Rightarrow> fresh \<Rightarrow> (nat \<Rightarrow> db \<Rightarrow> db) \<Rightarrow>
     string \<Rightarrow> string \<Rightarrow> db \<Rightarrow> (exn + string \<times> string) \<times> db" where
  "acceptInvitation hashToken hash_password jwt_sign ttl now fr others rawToken password s =
     (case findValidToken hashToken now rawToken INVITATION s of
        None \<Rightarrow> (Inl GENERIC_TOKEN_ERROR, s)
      | Some authToken \<Rightarrow> (case commit_txn (acceptInvitation_tx hash_password now authToken password) (others 0 s) of
          (Inl e, s1) \<Rightarrow> (Inl e, s1)
        | (Inr user, s1) \<Rightarrow> issueTokenPair hashToken jwt_sign ttl now fr (user_id user) (user_enterpriseId user) (user_isSuperAdmin user)
            (auth_audit (Some (user_id user)) (user_enterpriseId user) INVITATION_ACCEPTED ''User'' (Some (user_id user)) None s1)))"

record invite_input =
  inv_email :: string
  inv_firstName :: string
  inv_lastName :: string
  inv_roleId :: uuid

definition user_create :: "user \<Rightarrow> (db, exn, user) txn" where
  "user_create row s =
     (if \<exists>u\<in>set (users s). user_email u = user_email row \<or> user_id u = user_id row
      then Inl (PrismaKnown P2002) else Inr (row, s\<lparr>users := users s @ [row]\<rparr>))"

definition invited_user :: "uuid \<Rightarrow> date \<Rightarrow> invite_input \<Rightarrow> uuid \<Rightarrow> string \<Rightarrow> user" where
  "invited_user newId now input enterpriseId passwordHash =
     \<lparr>user_id = newId, user_email = inv_email input, user_passwordHash = passwordHash,
      user_firstName = inv_firstName input, user_lastName = inv_lastName input, user_phone = None, user_enterpriseId = Some enterpriseId,
      user_isSuperAdmin = False, user_status = Usr_PENDING_INVITE, user_mfaEnabled = False, user_mfaSecret = None,
      user_emailVerifiedAt = None, user_failedLoginCount = 0, user_lockedUntil = None, user_lastLoginAt = None,
      user_createdAt = now\<rparr>"

text \<open>The transaction of the tenant: the role must be one of the inviter's enterprise.\<close>

definition invite_tx ::
    "(string \<Rightarrow> string) \<Rightarrow> string \<Rightarrow> date \<Rightarrow> uuid \<Rightarrow> fresh \<Rightarrow> uuid \<Rightarrow> invite_input \<Rightarrow> db \<times> rbac \<Rightarrow> exn + user \<times> (db \<times> rbac)" where
  "invite_tx hashToken passwordHash now newUserId fr inviterEnterpriseId input = (\<lambda>(s, r).
     (case find_by role_id (inv_roleId input) (roles r) of
        None \<Rightarrow> Inl (ForbiddenException ''Role invalide'')
      | Some role \<Rightarrow>
          if role_enterpriseId role \<noteq> inviterEnterpriseId then Inl (ForbiddenException ''Role invalide'')
          else (case user_create (invited_user newUserId now input inviterEnterpriseId passwordHash) s of
              Inl e \<Rightarrow> Inl e
            | Inr (created, s1) \<Rightarrow> (case authToken_create (new_auth_token hashToken INVITATION_TTL_MS now (fresh_id fr)
                    (user_id created) INVITATION (fresh_raw fr)) s1 of
                Inl e \<Rightarrow> Inl e
              | Inr (_, s2) \<Rightarrow> Inr (created, (s2, r\<lparr>userRoles := userRoles r @ [(user_id created, role_id role)]\<rparr>))))))"

definition invite ::
    "(string \<Rightarrow> string) \<Rightarrow> string \<Rightarrow> date \<Rightarrow> uuid \<Rightarrow> fresh \<Rightarrow> tenant_store option \<Rightarrow> uuid \<Rightarrow> invite_input \<Rightarrow> db \<times> rbac \<Rightarrow>
     (exn + uuid) \<times> (db \<times> rbac)" where
  "invite hashToken passwordHash now newUserId fr store inviterEnterpriseId input = (\<lambda>(s, r).
     (if find_by user_email (inv_email input) (users s) \<noteq> None
      then (Inl (ConflictException ''Un compte existe deja avec cet email''), (s, r))
      else (case getRequiredTenantId store of
          Inl e \<Rightarrow> (Inl e, (s, r))
        | Inr _ \<Rightarrow> (case commit_txn (invite_tx hashToken passwordHash now newUserId fr inviterEnterpriseId input) (s, r) of
            (Inl e, st) \<Rightarrow> (Inl e, st)
          | (Inr user, (s1, r1)) \<Rightarrow> (Inr (user_id user),
              (auth_audit (Some (user_id user)) (Some inviterEnterpriseId) USER_INVITED ''User'' (Some (user_id user)) None s1, r1))))))"

section \<open>Suspension of an enterprise\<close>

definition setEnterpriseStatus :: "uuid \<Rightarrow> enterprise_status \<Rightarrow> (db, exn, enterprise) txn" where
  "setEnterpriseStatus enterpriseId status s = (case find_by ent_id enterpriseId (enterprises s) of
     None \<Rightarrow> Inl (PrismaKnown P2025)
   | Some e \<Rightarrow> Inr (e\<lparr>ent_status := status\<rparr>,
       s\<lparr>enterprises := update_by ent_id enterpriseId (\<lambda>r. r\<lparr>ent_status := status\<rparr>) (enterprises s)\<rparr>))"

definition revokeAllRefreshTokensForEnterprise :: "uuid \<Rightarrow> date \<Rightarrow> db \<Rightarrow> db" where
  "revokeAllRefreshTokensForEnterprise enterpriseId now s =
     revoke_where (\<lambda>t. \<exists>u\<in>set (users s). user_id u = refreshToken_userId t \<and> user_enterpriseId u = Some enterpriseId) now s"

definition suspendEnterprise :: "date \<Rightarrow> (nat \<Rightarrow> db \<Rightarrow> db) \<Rightarrow> uuid \<Rightarrow> uuid \<Rightarrow> db \<Rightarrow> (exn + enterprise_status) \<times> db" where
  "suspendEnterprise now others actorUserId enterpriseId s =
     (case findEnterpriseWithCurrentSubscription enterpriseId s of
        Inl e \<Rightarrow> (Inl e, s)
      | Inr None \<Rightarrow> (Inl (NotFoundException ''Entreprise introuvable''), s)
      | Inr (Some _) \<Rightarrow> (case setEnterpriseStatus enterpriseId Ent_SUSPENDED (others 0 s) of
          Inl e \<Rightarrow> (Inl e, others 0 s)
        | Inr (updated, s1) \<Rightarrow> (Inr (ent_status updated),
            auditLog_record (audit_entry actorUserId enterpriseId SUSPEND_ACCOUNT ''Enterprise'' enterpriseId)
              (revokeAllRefreshTokensForEnterprise enterpriseId now (others 1 s1)))))"

definition reactivateEnterprise :: "(nat \<Rightarrow> db \<Rightarrow> db) \<Rightarrow> uuid \<Rightarrow> uuid \<Rightarrow> db \<Rightarrow> (exn + enterprise_status) \<times> db" where
  "reactivateEnterprise others actorUserId enterpriseId s =
     (case findEnterpriseWithCurrentSubscription enterpriseId s of
        Inl e \<Rightarrow> (Inl e, s)
      | Inr None \<Rightarrow> (Inl (NotFoundException ''Entreprise introuvable''), s)
      | Inr (Some _) \<Rightarrow> (case setEnterpriseStatus enterpriseId Ent_ACTIVE (others 0 s) of
          Inl e \<Rightarrow> (Inl e, others 0 s)
        | Inr (updated, s1) \<Rightarrow> (Inr (ent_status updated),
            auditLog_record (audit_entry actorUserId enterpriseId REACTIVATE_ACCOUNT ''Enterprise'' enterpriseId) s1)))"

section \<open>The Super Admin's reading\<close>

record platform_overview =
  po_totalEnterprises :: nat
  po_activeEnterprises :: nat
  po_suspendedEnterprises :: nat
  po_newEnterprisesLast30Days :: nat
  po_totalUsers :: nat
  po_activeSubscriptions :: nat
  po_expiredSubscriptions :: nat
  po_pendingPayments :: nat
  po_failedPayments :: nat
  po_totalRevenue :: int

text \<open>\<open>count(\{ where \})\<close> and the status of an enterprise's current subscription.\<close>

definition count_where :: "('r \<Rightarrow> bool) \<Rightarrow> 'r list \<Rightarrow> nat" where
  "count_where P rows = length (filter P rows)"

definition current_status :: "enterprise \<Rightarrow> db \<Rightarrow> subscription_status option" where
  "current_status e s = (case ent_currentSubscriptionId e of None \<Rightarrow> None
     | Some i \<Rightarrow> map_option subscription_status (find_by subscription_id i (subscriptions s)))"

definition getPlatformOverview :: "date \<Rightarrow> db \<Rightarrow> platform_overview" where
  "getPlatformOverview now s =
     \<lparr>po_totalEnterprises = length (enterprises s),
      po_activeEnterprises = count_where (\<lambda>e. ent_status e = Ent_ACTIVE) (enterprises s),
      po_suspendedEnterprises = count_where (\<lambda>e. ent_status e = Ent_SUSPENDED) (enterprises s),
      po_newEnterprisesLast30Days = count_where (\<lambda>e. now - 30 * 24 * 3600000 \<le> ent_createdAt e) (enterprises s),
      po_totalUsers = count_where (\<lambda>u. user_enterpriseId u \<noteq> None) (users s),
      po_activeSubscriptions = count_where (\<lambda>e. current_status e s = Some Sub_ACTIVE) (enterprises s),
      po_expiredSubscriptions = count_where (\<lambda>e. current_status e s = Some Sub_EXPIRED) (enterprises s),
      po_pendingPayments = count_where (\<lambda>p. payment_status p = Pay_PENDING) (payments s),
      po_failedPayments = count_where (\<lambda>p. payment_status p = Pay_FAILED) (payments s),
      po_totalRevenue = (\<Sum>p\<leftarrow>filter (\<lambda>p. payment_status p = Pay_SUCCEEDED) (payments s). payment_amount p)\<rparr>"

definition cross_tenant_audit :: "uuid \<Rightarrow> string \<Rightarrow> db \<Rightarrow> db" where
  "cross_tenant_audit actorUserId resource = auth_audit (Some actorUserId) None CROSS_TENANT_ACCESS resource None None"

definition superAdmin_getOverview :: "date \<Rightarrow> uuid \<Rightarrow> db \<Rightarrow> platform_overview \<times> db" where
  "superAdmin_getOverview now actorUserId s = (getPlatformOverview now s, cross_tenant_audit actorUserId ''PlatformOverview'' s)"

record enterprise_list_entry =
  ele_id :: uuid
  ele_name :: string
  ele_status :: enterprise_status
  ele_createdAt :: date
  ele_planCode :: "string option"
  ele_planName :: "string option"
  ele_subscriptionStatus :: "subscription_status option"

definition enterprise_entry :: "enterprise \<Rightarrow> (subscription \<times> plan) option \<Rightarrow> enterprise_list_entry" where
  "enterprise_entry e current =
     \<lparr>ele_id = ent_id e, ele_name = ent_name e, ele_status = ent_status e, ele_createdAt = ent_createdAt e,
      ele_planCode = map_option (plan_code \<circ> snd) current, ele_planName = map_option (plan_name \<circ> snd) current,
      ele_subscriptionStatus = map_option (subscription_status \<circ> fst) current\<rparr>"

fun enterprise_entries :: "enterprise list \<Rightarrow> db \<Rightarrow> exn + enterprise_list_entry list" where
  "enterprise_entries [] s = Inr []"
| "enterprise_entries (e # es) s = (case current_subscription e s of
     Inl err \<Rightarrow> Inl err
   | Inr current \<Rightarrow> (case enterprise_entries es s of Inl err \<Rightarrow> Inl err | Inr rest \<Rightarrow> Inr (enterprise_entry e current # rest)))"

definition superAdmin_listEnterprises :: "uuid \<Rightarrow> db \<Rightarrow> (exn + enterprise_list_entry list) \<times> db" where
  "superAdmin_listEnterprises actorUserId s =
     (case enterprise_entries (descending ent_createdAt (enterprises s)) s of
        Inl e \<Rightarrow> (Inl e, s)
      | Inr entries \<Rightarrow> (Inr entries, cross_tenant_audit actorUserId ''Enterprise'' s))"

end
