(* ===== verification/Provisioning.thy ===== *)
theory Provisioning
  imports Payments Auth Gateway
begin

text \<open>
  apps/api/src/provisioning: the registration of an enterprise, which creates in one transaction the
  enterprise, its trial subscription, its administrator, its roles, its chart of accounts and its settings.
  The password hash, SHA-256, the JWT library and the identifiers and tokens drawn are parameters.
\<close>

section \<open>Tables next to those of the ERP\<close>

datatype setting_scope = Setting_PLATFORM | Setting_ENTERPRISE

record setting =
  setting_id :: uuid
  setting_scope :: setting_scope
  setting_enterpriseId :: "uuid option"
  setting_key :: string
  setting_value :: "(string \<times> string) list"
  setting_updatedAt :: date

record onboarding_state =
  onboarding_enterpriseId :: uuid
  onboarding_currentStep :: int
  onboarding_completedAt :: "date option"

record tenancy =
  ten_db :: db
  ten_rbac :: rbac
  ten_settings :: "setting list"
  ten_onboarding :: "onboarding_state list"
  ten_notifications :: "notification list"

section \<open>The request\<close>

record register_input =
  rin_firstName :: string
  rin_lastName :: string
  rin_email :: string
  rin_phone :: "string option"
  rin_password :: string
  rin_enterpriseName :: string
  rin_legalName :: "string option"
  rin_ninea :: "string option"
  rin_rccm :: "string option"
  rin_sector :: "string option"
  rin_address :: "string option"
  rin_city :: "string option"
  rin_country :: string
  rin_enterprisePhone :: "string option"
  rin_enterpriseEmail :: "string option"
  rin_planId :: uuid

text \<open>
  What \<open>registerSchema\<close> asks of the trimmed values; the formats of emails and identifiers are left out. The
  optional texts of the enterprise may be empty.
\<close>

definition char_between :: "nat \<Rightarrow> nat \<Rightarrow> char \<Rightarrow> bool" where
  "char_between lo hi c \<longleftrightarrow> lo \<le> of_char c \<and> of_char c \<le> (hi :: nat)"

definition passwordSchema :: "string \<Rightarrow> bool" where
  "passwordSchema v \<longleftrightarrow> 10 \<le> length v \<and> list_ex (char_between 97 122) v \<and> list_ex (char_between 65 90) v \<and>
     list_ex (char_between 48 57) v"

definition registerSchema :: "register_input \<Rightarrow> bool" where
  "registerSchema i \<longleftrightarrow> rin_firstName i \<noteq> [] \<and> rin_lastName i \<noteq> [] \<and> rin_email i \<noteq> [] \<and> passwordSchema (rin_password i) \<and>
     rin_enterpriseName i \<noteq> [] \<and> length (rin_country i) = 2 \<and> rin_enterpriseEmail i \<noteq> Some []"

text \<open>The identifiers drawn by one registration.\<close>

record register_ids =
  rid_enterprise :: uuid
  rid_subscription :: uuid
  rid_user :: uuid
  rid_role :: "role_name \<Rightarrow> uuid"
  rid_account :: "string \<Rightarrow> uuid"
  rid_setting :: uuid

section \<open>Insertions\<close>

definition enterprise_create :: "enterprise \<Rightarrow> (db, exn, enterprise) txn" where
  "enterprise_create row s =
     (if ent_id row \<in> ent_id ` set (enterprises s) \<or> clashes_key ent_country ent_ninea row (enterprises s) \<or>
         clashes_key ent_country ent_rccm row (enterprises s)
      then Inl (PrismaKnown P2002) else Inr (row, s\<lparr>enterprises := enterprises s @ [row]\<rparr>))"

definition subscription_create :: "subscription \<Rightarrow> (db, exn, subscription) txn" where
  "subscription_create row s =
     (if subscription_id row \<in> subscription_id ` set (subscriptions s) then Inl (PrismaKnown P2002)
      else if find_by plan_id (subscription_planId row) (plans s) = None then Inl (PrismaKnown P2003)
      else Inr (row, s\<lparr>subscriptions := subscriptions s @ [row]\<rparr>))"

definition set_currentSubscription :: "uuid \<Rightarrow> uuid \<Rightarrow> (db, exn, unit) txn" where
  "set_currentSubscription enterpriseId subscriptionId s =
     (if find_by ent_id enterpriseId (enterprises s) = None then Inl (PrismaKnown P2025)
      else if \<exists>r\<in>set (enterprises s). ent_id r \<noteq> enterpriseId \<and> ent_currentSubscriptionId r = Some subscriptionId
      then Inl (PrismaKnown P2002)
      else Inr ((), s\<lparr>enterprises := update_by ent_id enterpriseId (\<lambda>r. r\<lparr>ent_currentSubscriptionId := Some subscriptionId\<rparr>)
        (enterprises s)\<rparr>))"

definition accounts_createMany :: "account list \<Rightarrow> db \<Rightarrow> exn + db" where
  "accounts_createMany rows s = sum_foldM (\<lambda>s row. case account_create row s of Inl e \<Rightarrow> Inl e | Inr (_, s') \<Rightarrow> Inr s') s rows"

definition role_create :: "role \<Rightarrow> (rbac, exn, role) txn" where
  "role_create row r =
     (if \<exists>x\<in>set (roles r). role_id x = role_id row \<or> role_enterpriseId x = role_enterpriseId row \<and> role_label x = role_label row
      then Inl (PrismaKnown P2002) else Inr (row, r\<lparr>roles := roles r @ [row]\<rparr>))"

definition rolePermission_createMany :: "(uuid \<times> uuid) list \<Rightarrow> rbac \<Rightarrow> exn + rbac" where
  "rolePermission_createMany rows r =
     (if \<not> distinct rows \<or> (\<exists>x\<in>set rows. x \<in> set (rolePermissions r)) then Inl (PrismaKnown P2002)
      else Inr (r\<lparr>rolePermissions := rolePermissions r @ rows\<rparr>))"

definition userRole_create :: "uuid \<times> uuid \<Rightarrow> rbac \<Rightarrow> exn + rbac" where
  "userRole_create row r =
     (if row \<in> set (userRoles r) then Inl (PrismaKnown P2002) else Inr (r\<lparr>userRoles := userRoles r @ [row]\<rparr>))"

definition setting_create :: "setting \<Rightarrow> setting list \<Rightarrow> exn + setting list" where
  "setting_create row rows =
     (if \<exists>x\<in>set rows. setting_id x = setting_id row \<or> setting_enterpriseId x \<noteq> None \<and> setting_scope x = setting_scope row \<and>
        setting_enterpriseId x = setting_enterpriseId row \<and> setting_key x = setting_key row
      then Inl (PrismaKnown P2002) else Inr (rows @ [row]))"

section \<open>Roles and permissions\<close>

fun role_text :: "role_name \<Rightarrow> string" where
  "role_text ADMIN = ''ADMIN''" | "role_text COMPTABLE = ''COMPTABLE''" | "role_text COMMERCIAL = ''COMMERCIAL''"
| "role_text CAISSIER = ''CAISSIER''" | "role_text MAGASINIER = ''MAGASINIER''"
| "role_text GESTIONNAIRE = ''GESTIONNAIRE''" | "role_text LECTEUR = ''LECTEUR''"

definition requiredKeys :: "permission_key list" where
  "requiredKeys = js_set (concat (map DEFAULT_ROLE_PERMISSIONS DEFAULT_ROLE_NAMES))"

text \<open>\<open>new Map(permissions.map((p) => [p.key, p.id]))\<close> on the rows whose key is required: the last row wins.\<close>

definition permissionIdByKey :: "rbac \<Rightarrow> permission_key \<Rightarrow> uuid option" where
  "permissionIdByKey r = map_of (rev (map (\<lambda>(i, k). (k, i)) (filter (\<lambda>(i, k). k \<in> set requiredKeys) (permissions r))))"

definition seed_role :: "register_ids \<Rightarrow> uuid \<Rightarrow> uuid \<Rightarrow> (permission_key \<Rightarrow> uuid option) \<Rightarrow> rbac \<Rightarrow> role_name \<Rightarrow> exn + rbac" where
  "seed_role ids enterpriseId adminUserId idByKey r roleName =
     (case role_create \<lparr>role_id = rid_role ids roleName, role_enterpriseId = enterpriseId, role_label = role_text roleName,
              role_isSystem = True\<rparr> r of
        Inl e \<Rightarrow> Inl e
      | Inr (role, r1) \<Rightarrow>
          (let permissionIds = map (\<lambda>key. the (idByKey key)) (DEFAULT_ROLE_PERMISSIONS roleName)
           in case (if permissionIds = [] then Inr r1
                    else rolePermission_createMany (map (\<lambda>permissionId. (role_id role, permissionId)) permissionIds) r1) of
                Inl e \<Rightarrow> Inl e
              | Inr r2 \<Rightarrow> if roleName = ADMIN then userRole_create (adminUserId, role_id role) r2 else Inr r2))"

definition seedDefaultRoles :: "register_ids \<Rightarrow> uuid \<Rightarrow> uuid \<Rightarrow> rbac \<Rightarrow> exn + rbac" where
  "seedDefaultRoles ids enterpriseId adminUserId r =
     (let missing = filter (\<lambda>key. permissionIdByKey r key = None) requiredKeys
      in if missing \<noteq> []
         then Inl (InternalServerErrorException ''Catalogue de permissions non initialise'')
         else sum_foldM (seed_role ids enterpriseId adminUserId (permissionIdByKey r)) r DEFAULT_ROLE_NAMES)"

section \<open>The transaction\<close>

definition TRIAL_DAY_MS :: int where "TRIAL_DAY_MS = 24 * 3600000"

definition SYSCOHADA_ACCOUNT_CLASSES :: "(string \<times> string) list" where
  "SYSCOHADA_ACCOUNT_CLASSES = [
     (''1'', ''Comptes de ressources durables''), (''2'', ''Comptes d'actif immobilise''), (''3'', ''Comptes de stocks''),
     (''4'', ''Comptes de tiers''), (''5'', ''Comptes de tresorerie''), (''6'', ''Comptes de charges des activites ordinaires''),
     (''7'', ''Comptes de produits des activites ordinaires''), (''8'', ''Comptes des autres charges et autres produits'')]"

definition new_enterprise :: "register_ids \<Rightarrow> date \<Rightarrow> register_input \<Rightarrow> enterprise" where
  "new_enterprise ids now i =
     \<lparr>ent_id = rid_enterprise ids, ent_name = rin_enterpriseName i, ent_legalName = rin_legalName i, ent_ninea = rin_ninea i,
      ent_rccm = rin_rccm i, ent_address = rin_address i, ent_city = rin_city i, ent_country = rin_country i,
      ent_phone = rin_enterprisePhone i, ent_email = rin_enterpriseEmail i, ent_sector = rin_sector i, ent_currency = ''XOF'',
      ent_status = Ent_ACTIVE, ent_currentSubscriptionId = None, ent_createdAt = now\<rparr>"

definition trial_subscription :: "register_ids \<Rightarrow> date \<Rightarrow> plan \<Rightarrow> uuid \<Rightarrow> subscription" where
  "trial_subscription ids now plan enterpriseId =
     \<lparr>subscription_id = rid_subscription ids, subscription_enterpriseId = enterpriseId, subscription_planId = plan_id plan,
      subscription_status = Sub_TRIAL, subscription_startDate = now,
      subscription_trialEndDate = Some (now + plan_trialDays plan * TRIAL_DAY_MS), subscription_renewalDate = None,
      subscription_cancelledAt = None\<rparr>"

definition new_admin :: "register_ids \<Rightarrow> date \<Rightarrow> string \<Rightarrow> register_input \<Rightarrow> uuid \<Rightarrow> user" where
  "new_admin ids now passwordHash i enterpriseId =
     \<lparr>user_id = rid_user ids, user_email = rin_email i, user_passwordHash = passwordHash, user_firstName = rin_firstName i,
      user_lastName = rin_lastName i, user_phone = rin_phone i, user_enterpriseId = Some enterpriseId, user_isSuperAdmin = False,
      user_status = Usr_ACTIVE, user_mfaEnabled = False, user_mfaSecret = None, user_emailVerifiedAt = None,
      user_failedLoginCount = 0, user_lockedUntil = None, user_lastLoginAt = None, user_createdAt = now\<rparr>"

definition class_accounts :: "register_ids \<Rightarrow> date \<Rightarrow> uuid \<Rightarrow> account list" where
  "class_accounts ids now enterpriseId = map (\<lambda>(code, label).
     \<lparr>account_id = rid_account ids code, account_enterpriseId = enterpriseId, account_code = code, account_label = label,
      account_createdAt = now, account_updatedAt = now\<rparr>) SYSCOHADA_ACCOUNT_CLASSES"

definition commercial_defaults :: "register_ids \<Rightarrow> date \<Rightarrow> enterprise \<Rightarrow> setting" where
  "commercial_defaults ids now enterprise =
     \<lparr>setting_id = rid_setting ids, setting_scope = Setting_ENTERPRISE, setting_enterpriseId = Some (ent_id enterprise),
      setting_key = ''commercial.defaults'',
      setting_value = [(''currency'', ent_currency enterprise), (''locale'', ''fr-SN''), (''timezone'', ''Africa/Dakar'')],
      setting_updatedAt = now\<rparr>"

definition register_tx ::
    "register_ids \<Rightarrow> date \<Rightarrow> plan \<Rightarrow> string \<Rightarrow> register_input \<Rightarrow> (tenancy, exn, uuid \<times> uuid \<times> string) txn" where
  "register_tx ids now plan passwordHash input w =
     (case enterprise_create (new_enterprise ids now input) (ten_db w) of Inl e \<Rightarrow> Inl e | Inr (enterprise, s1) \<Rightarrow>
     (case subscription_create (trial_subscription ids now plan (ent_id enterprise)) s1 of Inl e \<Rightarrow> Inl e | Inr (subscription, s2) \<Rightarrow>
     (case set_currentSubscription (ent_id enterprise) (subscription_id subscription) s2 of Inl e \<Rightarrow> Inl e | Inr (_, s3) \<Rightarrow>
     (case user_create (new_admin ids now passwordHash input (ent_id enterprise)) s3 of Inl e \<Rightarrow> Inl e | Inr (user, s4) \<Rightarrow>
     (case seedDefaultRoles ids (ent_id enterprise) (user_id user) (ten_rbac w) of Inl e \<Rightarrow> Inl e | Inr r \<Rightarrow>
     (case accounts_createMany (class_accounts ids now (ent_id enterprise)) s4 of Inl e \<Rightarrow> Inl e | Inr s5 \<Rightarrow>
     (case setting_create (commercial_defaults ids now enterprise) (ten_settings w) of Inl e \<Rightarrow> Inl e | Inr settings \<Rightarrow>
        Inr ((user_id user, ent_id enterprise, user_email user),
          w\<lparr>ten_db := auditLog_record (audit_entry (user_id user) (ent_id enterprise) ENTERPRISE_PROVISIONED ''Enterprise''
               (ent_id enterprise)) s5,
            ten_rbac := r, ten_settings := settings\<rparr>))))))))"

section \<open>The registration\<close>

text \<open>The welcome: whatever fails here is only logged. The mail, which alone carries the token, is not kept.\<close>

definition send_welcome :: "(string \<Rightarrow> string) \<Rightarrow> date \<Rightarrow> fresh \<Rightarrow> uuid \<Rightarrow> uuid \<Rightarrow> string \<Rightarrow> tenancy \<Rightarrow> tenancy" where
  "send_welcome hashToken now fr userId enterpriseId email w =
     (case issueEmailVerificationToken hashToken now fr userId (ten_db w) of
        (Inl e, s) \<Rightarrow> w\<lparr>ten_db := s\<rparr>
      | (Inr verificationToken, s) \<Rightarrow> w\<lparr>ten_db := s, ten_notifications := ten_notifications w @
          [\<lparr>ntf_userId = userId, ntf_enterpriseId = enterpriseId, ntf_type = WELCOME, ntf_to = email,
            ntf_subject = ''Bienvenue sur la plateforme'',
            ntf_body = ''Votre entreprise a ete creee. Un email de verification vous a ete envoye.''\<rparr>]\<rparr>)"

text \<open>
  \<open>others\<close> is what the rest of the system does between the reading of the plan and the transaction (the
  password is hashed meanwhile); \<open>frv\<close> and \<open>frs\<close> draw the verification and the refresh token.
\<close>

definition register ::
    "(string \<Rightarrow> string) \<Rightarrow> (string \<Rightarrow> string) \<Rightarrow> (jwt_claims \<Rightarrow> string) \<Rightarrow> int \<Rightarrow> register_ids \<Rightarrow> fresh \<Rightarrow> fresh \<Rightarrow>
     (tenancy \<Rightarrow> tenancy) \<Rightarrow> date \<Rightarrow> register_input \<Rightarrow> tenancy \<Rightarrow> (exn + string \<times> string) \<times> tenancy" where
  "register hash_password hashToken jwt_sign ttl ids frv frs others now input w =
     (case find_by plan_id (rin_planId input) (plans (ten_db w)) of
        None \<Rightarrow> (Inl (NotFoundException ''Forfait introuvable''), w)
      | Some plan \<Rightarrow>
          if \<not> plan_isActive plan then (Inl (NotFoundException ''Forfait introuvable''), w)
          else (case commit_txn (register_tx ids now plan (hash_password (rin_password input)) input) (others w) of
              (Inl e, w1) \<Rightarrow> (Inl (if e = PrismaKnown P2002
                 then ConflictException ''Un compte existe deja avec cet email, ou NINEA/RCCM deja utilise pour ce pays'' else e), w1)
            | (Inr (userId, enterpriseId, email), w1) \<Rightarrow>
                (let w2 = send_welcome hashToken now frv userId enterpriseId email w1
                 in case issueTokenPair hashToken jwt_sign ttl now frs userId (Some enterpriseId) False (ten_db w2) of
                      (result, s) \<Rightarrow> (result, w2\<lparr>ten_db := s\<rparr>))))"

text \<open>The route validates the body before the service sees it.\<close>

definition ProvisioningController_register ::
    "(string \<Rightarrow> string) \<Rightarrow> (string \<Rightarrow> string) \<Rightarrow> (jwt_claims \<Rightarrow> string) \<Rightarrow> int \<Rightarrow> register_ids \<Rightarrow> fresh \<Rightarrow> fresh \<Rightarrow>
     (tenancy \<Rightarrow> tenancy) \<Rightarrow> date \<Rightarrow> register_input \<Rightarrow> tenancy \<Rightarrow> (exn + string \<times> string) \<times> tenancy" where
  "ProvisioningController_register hash_password hashToken jwt_sign ttl ids frv frs others now body =
     ZodValidationPipe (registerSchema body) (register hash_password hashToken jwt_sign ttl ids frv frs others now body)"

section \<open>What the insertions leave\<close>

definition default_role :: "register_ids \<Rightarrow> uuid \<Rightarrow> role_name \<Rightarrow> role" where
  "default_role ids enterpriseId n =
     \<lparr>role_id = rid_role ids n, role_enterpriseId = enterpriseId, role_label = role_text n, role_isSystem = True\<rparr>"

lemma default_role_simps [simp]:
  "role_id (default_role ids e n) = rid_role ids n" "role_enterpriseId (default_role ids e n) = e"
  "role_label (default_role ids e n) = role_text n"
  by (simp_all add: default_role_def)

lemma seed_role_InrD:
  assumes "seed_role ids e u idByKey r n = Inr r'"
  shows "roles r' = roles r @ [default_role ids e n]" "permissions r' = permissions r"
    "rolePermissions r' = rolePermissions r @ map (\<lambda>key. (rid_role ids n, the (idByKey key))) (DEFAULT_ROLE_PERMISSIONS n)"
    "userRoles r' = userRoles r @ (if n = ADMIN then [(u, rid_role ids n)] else [])"
    "rid_role ids n \<notin> role_id ` set (roles r)"
  using assms by (auto simp: seed_role_def role_create_def rolePermission_createMany_def userRole_create_def default_role_def
      Let_def split: if_splits sum.splits)

lemma seed_roles:
  assumes "sum_foldM (seed_role ids e u idByKey) r ns = Inr r'"
  shows "roles r' = roles r @ map (default_role ids e) ns \<and> permissions r' = permissions r \<and>
    rolePermissions r' = rolePermissions r @ concat (map (\<lambda>n. map (\<lambda>key. (rid_role ids n, the (idByKey key))) (DEFAULT_ROLE_PERMISSIONS n)) ns) \<and>
    userRoles r' = userRoles r @ concat (map (\<lambda>n. if n = ADMIN then [(u, rid_role ids n)] else []) ns) \<and>
    distinct (map (rid_role ids) ns) \<and> rid_role ids ` set ns \<inter> role_id ` set (roles r) = {}"
  using assms
proof (induction ns arbitrary: r)
  case (Cons n ns)
  then obtain r1 where r1: "seed_role ids e u idByKey r n = Inr r1" "sum_foldM (seed_role ids e u idByKey) r1 ns = Inr r'"
    by (auto split: sum.splits)
  note first = seed_role_InrD[OF r1(1)] and rest = Cons.IH[OF r1(2)]
  have "rid_role ids n \<notin> rid_role ids ` set ns" using first(1) rest by auto
  then show ?case using first rest by auto
qed simp

lemma all_role_names: "set DEFAULT_ROLE_NAMES = UNIV" "count_list DEFAULT_ROLE_NAMES ADMIN = 1"
proof -
  have "n \<in> set DEFAULT_ROLE_NAMES" for n by (cases n) (simp_all add: DEFAULT_ROLE_NAMES_def)
  then show "set DEFAULT_ROLE_NAMES = UNIV" by blast
qed (simp add: DEFAULT_ROLE_NAMES_def)

lemma requiredKeys_role: "k \<in> set (DEFAULT_ROLE_PERMISSIONS n) \<Longrightarrow> k \<in> set requiredKeys"
  using all_role_names(1) unfolding requiredKeys_def set_js_set set_concat set_map by blast

lemma permissionIdByKey_SomeD: "permissionIdByKey r k = Some i \<Longrightarrow> (i, k) \<in> set (permissions r)"
  by (auto simp: permissionIdByKey_def dest: map_of_SomeD)

text \<open>The roles after a seeding that succeeded.\<close>

lemma seedDefaultRoles_InrD:
  assumes "seedDefaultRoles ids e u r = Inr r'"
  shows "roles r' = roles r @ map (default_role ids e) DEFAULT_ROLE_NAMES" "permissions r' = permissions r"
    "set (rolePermissions r') = set (rolePermissions r) \<union>
       {(rid_role ids n, the (permissionIdByKey r k)) | n k. k \<in> set (DEFAULT_ROLE_PERMISSIONS n)}"
    "userRoles r' = userRoles r @ [(u, rid_role ids ADMIN)]" "inj (rid_role ids)" "rid_role ids n \<notin> role_id ` set (roles r)"
    "k \<in> set (DEFAULT_ROLE_PERMISSIONS n) \<Longrightarrow> (the (permissionIdByKey r k), k) \<in> set (permissions r)"
proof -
  from assms have known: "filter (\<lambda>key. permissionIdByKey r key = None) requiredKeys = []"
    and fold: "sum_foldM (seed_role ids e u (permissionIdByKey r)) r DEFAULT_ROLE_NAMES = Inr r'"
    by (auto simp: seedDefaultRoles_def Let_def split: if_splits)
  note seeded = seed_roles[OF fold]
  show "roles r' = roles r @ map (default_role ids e) DEFAULT_ROLE_NAMES" "permissions r' = permissions r" using seeded by simp_all
  show "set (rolePermissions r') = set (rolePermissions r) \<union>
       {(rid_role ids n, the (permissionIdByKey r k)) | n k. k \<in> set (DEFAULT_ROLE_PERMISSIONS n)}"
    using seeded all_role_names(1) by auto
  show "userRoles r' = userRoles r @ [(u, rid_role ids ADMIN)]" using seeded by (simp add: DEFAULT_ROLE_NAMES_def)
  show "inj (rid_role ids)" using seeded all_role_names(1) by (metis distinct_map)
  show "rid_role ids n \<notin> role_id ` set (roles r)" using seeded all_role_names(1) by blast
  show "(the (permissionIdByKey r k), k) \<in> set (permissions r)" if "k \<in> set (DEFAULT_ROLE_PERMISSIONS n)"
  proof -
    have "permissionIdByKey r k \<noteq> None" using known requiredKeys_role[OF that] by (auto simp: filter_empty_conv)
    then show ?thesis using permissionIdByKey_SomeD[of r k] by auto
  qed
qed

text \<open>When a seeding succeeds.\<close>

lemma distinct_permissions: "distinct (DEFAULT_ROLE_PERMISSIONS n)"
proof -
  have "list_all (\<lambda>n. distinct (DEFAULT_ROLE_PERMISSIONS n)) DEFAULT_ROLE_NAMES" by code_simp
  then show ?thesis using all_role_names(1) by (simp add: list_all_iff)
qed

lemma role_text_inj: "role_text m = role_text n \<longleftrightarrow> m = n"
  by (cases m; cases n) simp_all

lemma seed_role_alt:
  "seed_role ids e u idByKey r n = (case role_create (default_role ids e n) r of
     Inl x \<Rightarrow> Inl x
   | Inr (role, r1) \<Rightarrow>
       (case (if DEFAULT_ROLE_PERMISSIONS n = [] then Inr r1
              else rolePermission_createMany (map (\<lambda>k. (role_id role, the (idByKey k))) (DEFAULT_ROLE_PERMISSIONS n)) r1) of
          Inl x \<Rightarrow> Inl x
        | Inr r2 \<Rightarrow> if n = ADMIN then userRole_create (u, role_id role) r2 else Inr r2))"
  by (simp add: seed_role_def default_role_def Let_def comp_def split: sum.splits prod.splits)

lemma seed_roles_succeed:
  assumes "distinct ns" and "inj (rid_role ids)" and "inj_on (\<lambda>k. the (idByKey k)) (set requiredKeys)"
    and "rid_role ids ` set ns \<inter> role_id ` set (roles r) = {}" and "rid_role ids ` set ns \<inter> fst ` set (rolePermissions r) = {}"
    and "\<forall>role\<in>set (roles r). role_enterpriseId role = e \<longrightarrow> role_label role \<notin> role_text ` set ns"
    and "(u, rid_role ids ADMIN) \<notin> set (userRoles r) \<or> ADMIN \<notin> set ns"
  shows "\<exists>r'. sum_foldM (seed_role ids e u idByKey) r ns = Inr r'"
  using assms(1,4-)
proof (induction ns arbitrary: r)
  case (Cons n ns)
  have one: "inj_on (\<lambda>k. the (idByKey k)) (set (DEFAULT_ROLE_PERMISSIONS n))"
    by (rule inj_on_subset[OF assms(3)]) (use requiredKeys_role in blast)
  have links: "distinct (map (\<lambda>k. (rid_role ids n, the (idByKey k))) (DEFAULT_ROLE_PERMISSIONS n))"
    using distinct_permissions[of n] one by (auto simp: distinct_map inj_on_def)
  let ?rows = "map (\<lambda>k. (rid_role ids n, the (idByKey k))) (DEFAULT_ROLE_PERMISSIONS n)"
  have free: "\<forall>x\<in>set (roles r). role_id x \<noteq> rid_role ids n" "\<And>x. x \<in> set ?rows \<Longrightarrow> x \<notin> set (rolePermissions r)"
    "n = ADMIN \<Longrightarrow> (u, rid_role ids n) \<notin> set (userRoles r)"
  proof -
    show "\<forall>x\<in>set (roles r). role_id x \<noteq> rid_role ids n" using Cons.prems(2) by force
    show "x \<notin> set (rolePermissions r)" if "x \<in> set ?rows" for x using Cons.prems(3) that by force
    show "(u, rid_role ids n) \<notin> set (userRoles r)" if "n = ADMIN" using Cons.prems(5) that by simp
  qed
  have label: "\<not> (role_enterpriseId role = e \<and> role_label role = role_text n)" if "role \<in> set (roles r)" for role
    using Cons.prems(4) that by auto
  have "role_create (default_role ids e n) r = Inr (default_role ids e n, r\<lparr>roles := roles r @ [default_role ids e n]\<rparr>)"
    using free(1) label by (auto simp: role_create_def)
  moreover have "\<not> (\<exists>x\<in>set ?rows. x \<in> set (rolePermissions r))" using free(2) by blast
  then have "\<exists>r2. (if DEFAULT_ROLE_PERMISSIONS n = [] then Inr (r\<lparr>roles := roles r @ [default_role ids e n]\<rparr>)
      else rolePermission_createMany ?rows (r\<lparr>roles := roles r @ [default_role ids e n]\<rparr>)) = Inr r2 \<and> userRoles r2 = userRoles r"
    using links by (simp only: rolePermission_createMany_def rbac.simps if_False simp_thms) simp
  then obtain r2 where "(if DEFAULT_ROLE_PERMISSIONS n = [] then Inr (r\<lparr>roles := roles r @ [default_role ids e n]\<rparr>)
      else rolePermission_createMany ?rows (r\<lparr>roles := roles r @ [default_role ids e n]\<rparr>)) = Inr r2" "userRoles r2 = userRoles r" by blast
  moreover obtain r1 where "(if n = ADMIN then userRole_create (u, rid_role ids n) r2 else Inr r2) = Inr r1"
    using calculation(3) free(3) by (cases "n = ADMIN") (simp_all add: userRole_create_def)
  ultimately have r1: "seed_role ids e u idByKey r n = Inr r1"
    by (simp only: seed_role_alt sum.case prod.case default_role_simps)
  note r1D = seed_role_InrD[OF r1]
  have fresh: "rid_role ids m \<noteq> rid_role ids n" if "m \<in> set ns" for m using Cons.prems(1) assms(2) that by (auto dest: injD)
  have "\<exists>r'. sum_foldM (seed_role ids e u idByKey) r1 ns = Inr r'"
  proof (rule Cons.IH)
    show "distinct ns" using Cons.prems(1) by simp
    show "rid_role ids ` set ns \<inter> role_id ` set (roles r1) = {}" using Cons.prems(2) by (auto simp: r1D(1) dest: fresh fresh[symmetric])
    show "rid_role ids ` set ns \<inter> fst ` set (rolePermissions r1) = {}"
      using Cons.prems(3) unfolding r1D(3) by (auto dest: fresh fresh[symmetric])
    show "\<forall>role\<in>set (roles r1). role_enterpriseId role = e \<longrightarrow> role_label role \<notin> role_text ` set ns"
      using Cons.prems(1,4) by (auto simp: r1D(1) role_text_inj)
    show "(u, rid_role ids ADMIN) \<notin> set (userRoles r1) \<or> ADMIN \<notin> set ns"
      using Cons.prems(1,5) by (auto simp: r1D(4))
  qed
  then show ?case using r1 by simp
qed simp

lemma seedDefaultRoles_succeeds:
  assumes "inj (rid_role ids)" and "\<forall>k\<in>set requiredKeys. permissionIdByKey r k \<noteq> None"
    and "distinct (map fst (permissions r))" and "\<forall>n. rid_role ids n \<notin> role_id ` set (roles r) \<union> fst ` set (rolePermissions r)"
    and "e \<notin> role_enterpriseId ` set (roles r)" and "u \<notin> fst ` set (userRoles r)"
  shows "\<exists>r'. seedDefaultRoles ids e u r = Inr r'"
proof -
  have known: "(the (permissionIdByKey r k), k) \<in> set (permissions r)" if "k \<in> set requiredKeys" for k
    by (rule permissionIdByKey_SomeD) (use assms(2) that in simp)
  have "inj_on (\<lambda>k. the (permissionIdByKey r k)) (set requiredKeys)"
    by (rule inj_onI, rule eq_key_imp_eq_value[OF assms(3)], erule known, erule ssubst, erule known)
  note injective = this
  have "\<exists>r'. sum_foldM (seed_role ids e u (permissionIdByKey r)) r DEFAULT_ROLE_NAMES = Inr r'"
  proof (rule seed_roles_succeed[OF _ assms(1) injective])
    show "distinct DEFAULT_ROLE_NAMES" by (simp add: DEFAULT_ROLE_NAMES_def)
    show "rid_role ids ` set DEFAULT_ROLE_NAMES \<inter> role_id ` set (roles r) = {}"
      "rid_role ids ` set DEFAULT_ROLE_NAMES \<inter> fst ` set (rolePermissions r) = {}" using assms(4) by blast+
    show "\<forall>role\<in>set (roles r). role_enterpriseId role = e \<longrightarrow> role_label role \<notin> role_text ` set DEFAULT_ROLE_NAMES"
      using assms(5) by (metis image_eqI)
    show "(u, rid_role ids ADMIN) \<notin> set (userRoles r) \<or> ADMIN \<notin> set DEFAULT_ROLE_NAMES"
      using assms(6) by (metis fst_conv image_eqI)
  qed
  moreover have "filter (\<lambda>key. permissionIdByKey r key = None) requiredKeys = []"
    using assms(2) by (auto simp: filter_empty_conv)
  ultimately show ?thesis by (simp add: seedDefaultRoles_def Let_def)
qed

lemma accounts_createMany_InrD:
  assumes "accounts_createMany rows s = Inr s'"
  shows "s' = s\<lparr>accounts := accounts s @ rows\<rparr>" "erp_wf s \<Longrightarrow> erp_wf s'"
proof -
  have "s' = s\<lparr>accounts := accounts s @ rows\<rparr> \<and> (erp_wf s \<longrightarrow> erp_wf s')"
    using assms unfolding accounts_createMany_def
  proof (induction rows arbitrary: s)
    case (Cons a rows)
    from Cons.prems obtain b s1 where "account_create a s = Inr (b, s1)"
      and fold: "sum_foldM (\<lambda>s row. case account_create row s of Inl e \<Rightarrow> Inl e | Inr (_, s') \<Rightarrow> Inr s') s1 rows = Inr s'"
      by (auto split: sum.splits)
    then have s1: "account_create a s = Inr (a, s1)" using account_writes(1) by metis
    have "erp_wf s \<Longrightarrow> erp_wf s1"
      by (rule accounting_step_erp_wf[OF accounting_step.account_new[OF refl s1]])
    moreover have "s' = s\<lparr>accounts := accounts s @ a # rows\<rparr>" using Cons.IH[OF fold] account_writes(1)[OF s1] by simp
    ultimately show ?case using Cons.IH[OF fold] by blast
  qed simp
  then show "s' = s\<lparr>accounts := accounts s @ rows\<rparr>" "erp_wf s \<Longrightarrow> erp_wf s'" by blast+
qed

definition admitted_enterprise :: "register_ids \<Rightarrow> date \<Rightarrow> register_input \<Rightarrow> enterprise" where
  "admitted_enterprise ids now input = (new_enterprise ids now input)\<lparr>ent_currentSubscriptionId := Some (rid_subscription ids)\<rparr>"

definition registered_db :: "register_ids \<Rightarrow> date \<Rightarrow> plan \<Rightarrow> string \<Rightarrow> register_input \<Rightarrow> db \<Rightarrow> db" where
  "registered_db ids now plan passwordHash input s = s\<lparr>
     enterprises := enterprises s @ [admitted_enterprise ids now input],
     users := users s @ [new_admin ids now passwordHash input (rid_enterprise ids)],
     accounts := accounts s @ class_accounts ids now (rid_enterprise ids),
     subscriptions := subscriptions s @ [trial_subscription ids now plan (rid_enterprise ids)],
     auditLogs := auditLogs s @ [audit_entry (rid_user ids) (rid_enterprise ids) ENTERPRISE_PROVISIONED ''Enterprise'' (rid_enterprise ids)]\<rparr>"

lemma register_tx_InrE:
  assumes "register_tx ids now plan passwordHash input w = Inr (v, w')"
  obtains r where "v = (rid_user ids, rid_enterprise ids, rin_email input)"
    "w' = w\<lparr>ten_db := registered_db ids now plan passwordHash input (ten_db w), ten_rbac := r,
       ten_settings := ten_settings w @ [commercial_defaults ids now (new_enterprise ids now input)]\<rparr>"
    "seedDefaultRoles ids (rid_enterprise ids) (rid_user ids) (ten_rbac w) = Inr r"
    "rid_enterprise ids \<notin> ent_id ` set (enterprises (ten_db w))" "rid_user ids \<notin> user_id ` set (users (ten_db w))"
    "rin_email input \<notin> user_email ` set (users (ten_db w))"
    "rid_subscription ids \<notin> subscription_id ` set (subscriptions (ten_db w))"
    "find_by plan_id (plan_id plan) (plans (ten_db w)) \<noteq> None"
    "erp_wf (ten_db w) \<Longrightarrow> erp_wf (registered_db ids now plan passwordHash input (ten_db w))"
proof -
  let ?s = "ten_db w" and ?e = "rid_enterprise ids"
  let ?s4 = "?s\<lparr>subscriptions := subscriptions ?s @ [trial_subscription ids now plan ?e],
    enterprises := enterprises ?s @ [admitted_enterprise ids now input],
    users := users ?s @ [new_admin ids now passwordHash input ?e]\<rparr>"
  have ids: "ent_id (new_enterprise ids now input) = ?e" "subscription_id (trial_subscription ids now plan ?e) = rid_subscription ids"
    "user_id (new_admin ids now passwordHash input ?e) = rid_user ids" "user_email (new_admin ids now passwordHash input ?e) = rin_email input"
    "subscription_planId (trial_subscription ids now plan ?e) = plan_id plan"
    by (simp_all add: new_enterprise_def trial_subscription_def new_admin_def)
  from assms have fresh: "?e \<notin> ent_id ` set (enterprises ?s)"
    by (auto simp: register_tx_def enterprise_create_def ids split: if_splits)
  then have linked: "update_by ent_id ?e (\<lambda>r. r\<lparr>ent_currentSubscriptionId := Some (rid_subscription ids)\<rparr>)
      (enterprises ?s @ [new_enterprise ids now input]) = enterprises ?s @ [admitted_enterprise ids now input]"
    by (auto simp: update_by_def admitted_enterprise_def ids image_iff intro!: map_idI)
  from assms obtain r s5 where v: "v = (rid_user ids, ?e, rin_email input)"
    and seed: "seedDefaultRoles ids ?e (rid_user ids) (ten_rbac w) = Inr r"
    and accs: "accounts_createMany (class_accounts ids now ?e) ?s4 = Inr s5"
    and w': "w' = w\<lparr>ten_db := auditLog_record (audit_entry (rid_user ids) ?e ENTERPRISE_PROVISIONED ''Enterprise'' ?e) s5, ten_rbac := r,
      ten_settings := ten_settings w @ [commercial_defaults ids now (new_enterprise ids now input)]\<rparr>"
    and free: "\<forall>u\<in>set (users ?s). user_email u \<noteq> rin_email input \<and> user_id u \<noteq> rid_user ids" "rid_subscription ids \<notin> subscription_id ` set (subscriptions ?s)"
      "find_by plan_id (plan_id plan) (plans ?s) \<noteq> None"
    by (auto simp: register_tx_def enterprise_create_def subscription_create_def set_currentSubscription_def user_create_def
        setting_create_def ids linked split: if_splits sum.splits)
  have db: "auditLog_record (audit_entry (rid_user ids) ?e ENTERPRISE_PROVISIONED ''Enterprise'' ?e) s5 =
      registered_db ids now plan passwordHash input ?s"
    unfolding accounts_createMany_InrD(1)[OF accs] by (rule db.equality) (simp_all add: registered_db_def auditLog_record_def)
  have "erp_wf (registered_db ids now plan passwordHash input ?s)" if wf: "erp_wf ?s"
  proof -
    have "erp_wf ?s4" by (rule erp_wfI; (rule wf_frames, rule erp_wfD[OF wf]; simp))
    then have "erp_wf s5" by (rule accounts_createMany_InrD(2)[OF accs])
    then show ?thesis unfolding db[symmetric] by (rule erp_wf_audit)
  qed
  moreover have "rid_user ids \<notin> user_id ` set (users ?s)" "rin_email input \<notin> user_email ` set (users ?s)" using free(1) by auto
  ultimately show thesis using that[OF v] w' db seed fresh free(2,3) by simp
qed

section \<open>After a registration\<close>

lemma send_welcome_frame:
  obtains a where "ten_db (send_welcome hashToken now fr u e email w) = (ten_db w)\<lparr>authTokens := a\<rparr>"
    "ten_rbac (send_welcome hashToken now fr u e email w) = ten_rbac w"
    "ten_settings (send_welcome hashToken now fr u e email w) = ten_settings w"
proof -
  let ?s = "snd (issueEmailVerificationToken hashToken now fr u (ten_db w))"
  have "?s = (ten_db w)\<lparr>authTokens := authTokens ?s\<rparr>"
    by (auto simp: issueEmailVerificationToken_def authToken_create_def split: sum.splits)
  then show thesis using that[of "authTokens ?s"] by (simp add: send_welcome_def split: prod.splits sum.splits)
qed

lemma issueTokenPair_frame:
  assumes "issueTokenPair hashToken jwt_sign ttl now fr u e a s = (res, s')"
  shows "s' = s\<lparr>refreshTokens := refreshTokens s'\<rparr>"
    and "res = Inr (accessToken, refreshToken) \<Longrightarrow> accessToken = signAccessToken jwt_sign u e a"
  using assms by (auto simp: issueTokenPair_def refreshToken_create_def split: sum.splits if_splits)

text \<open>A registration leaves everything alone, or commits its transaction and adds two tokens and a notification.\<close>

lemma register_cases:
  assumes "register hash_password hashToken jwt_sign ttl ids frv frs others now input w = (res, w')"
  obtains (refused) e where "res = Inl e" "w' = w \<or> w' = others w"
  | (committed) plan r a b where "find_by plan_id (rin_planId input) (plans (ten_db w)) = Some plan" "plan_isActive plan"
      "register_tx ids now plan (hash_password (rin_password input)) input (others w) =
        Inr ((rid_user ids, rid_enterprise ids, rin_email input), (others w)\<lparr>
          ten_db := registered_db ids now plan (hash_password (rin_password input)) input (ten_db (others w)), ten_rbac := r,
          ten_settings := ten_settings (others w) @ [commercial_defaults ids now (new_enterprise ids now input)]\<rparr>)"
      "ten_db w' = (registered_db ids now plan (hash_password (rin_password input)) input (ten_db (others w)))
        \<lparr>authTokens := a, refreshTokens := b\<rparr>" "ten_rbac w' = r"
      "ten_settings w' = ten_settings (others w) @ [commercial_defaults ids now (new_enterprise ids now input)]"
      "\<And>accessToken refreshToken. res = Inr (accessToken, refreshToken) \<Longrightarrow>
         accessToken = signAccessToken jwt_sign (rid_user ids) (Some (rid_enterprise ids)) False"
      "seedDefaultRoles ids (rid_enterprise ids) (rid_user ids) (ten_rbac (others w)) = Inr r"
      "erp_wf (ten_db (others w)) \<Longrightarrow> erp_wf (registered_db ids now plan (hash_password (rin_password input)) input (ten_db (others w)))"
      "rid_enterprise ids \<notin> ent_id ` set (enterprises (ten_db (others w)))" "rid_user ids \<notin> user_id ` set (users (ten_db (others w)))"
      "rid_subscription ids \<notin> subscription_id ` set (subscriptions (ten_db (others w)))"
proof (cases "find_by plan_id (rin_planId input) (plans (ten_db w))")
  case None
  then show thesis using assms refused by (auto simp: register_def)
next
  case (Some plan)
  show thesis
  proof (cases "plan_isActive plan")
    case False
    then show thesis using assms Some refused by (auto simp: register_def)
  next
    case active: True
    show thesis
    proof (cases "register_tx ids now plan (hash_password (rin_password input)) input (others w)")
      case (Inl e)
      then show thesis using assms Some active refused by (auto simp: register_def commit_txn_def)
    next
      case (Inr x)
      obtain v w1 where x: "x = (v, w1)" by fastforce
      from register_tx_InrE[OF Inr[unfolded x]] obtain r where tx: "v = (rid_user ids, rid_enterprise ids, rin_email input)"
        "w1 = (others w)\<lparr>ten_db := registered_db ids now plan (hash_password (rin_password input)) input (ten_db (others w)),
          ten_rbac := r, ten_settings := ten_settings (others w) @ [commercial_defaults ids now (new_enterprise ids now input)]\<rparr>"
        "seedDefaultRoles ids (rid_enterprise ids) (rid_user ids) (ten_rbac (others w)) = Inr r"
        "erp_wf (ten_db (others w)) \<Longrightarrow> erp_wf (registered_db ids now plan (hash_password (rin_password input)) input (ten_db (others w)))"
        "rid_enterprise ids \<notin> ent_id ` set (enterprises (ten_db (others w)))" "rid_user ids \<notin> user_id ` set (users (ten_db (others w)))"
        "rid_subscription ids \<notin> subscription_id ` set (subscriptions (ten_db (others w)))"
        by blast
      let ?w2 = "send_welcome hashToken now frv (rid_user ids) (rid_enterprise ids) (rin_email input) w1"
      obtain s' where pair: "issueTokenPair hashToken jwt_sign ttl now frs (rid_user ids) (Some (rid_enterprise ids)) False (ten_db ?w2) =
          (res, s')" "w' = ?w2\<lparr>ten_db := s'\<rparr>"
        using assms Some active Inr x tx(1) by (auto simp: register_def commit_txn_def Let_def split: prod.splits)
      obtain a where "ten_db ?w2 = (ten_db w1)\<lparr>authTokens := a\<rparr>" "ten_rbac ?w2 = ten_rbac w1" "ten_settings ?w2 = ten_settings w1"
        by (rule send_welcome_frame)
      then show thesis
        using committed[OF Some active, where r = r and a = a and b = "refreshTokens s'"] Inr x tx pair issueTokenPair_frame[OF pair(1)] by simp
    qed
  qed
qed

section \<open>Properties\<close>

text \<open>Every row that names an enterprise, a user, a role or a permission names one that exists; permissions have one key each.\<close>

definition references_ok :: "tenancy \<Rightarrow> bool" where
  "references_ok w \<longleftrightarrow>
     (\<forall>a\<in>set (accounts (ten_db w)). account_enterpriseId a \<in> ent_id ` set (enterprises (ten_db w))) \<and>
     (\<forall>a\<in>set (auditLogs (ten_db w)). \<forall>e. audit_enterpriseId a = Some e \<longrightarrow> e \<in> ent_id ` set (enterprises (ten_db w))) \<and>
     (\<forall>role\<in>set (roles (ten_rbac w)). role_enterpriseId role \<in> ent_id ` set (enterprises (ten_db w))) \<and>
     (\<forall>(u, i)\<in>set (userRoles (ten_rbac w)). u \<in> user_id ` set (users (ten_db w)) \<and> i \<in> role_id ` set (roles (ten_rbac w))) \<and>
     (\<forall>(i, p)\<in>set (rolePermissions (ten_rbac w)). i \<in> role_id ` set (roles (ten_rbac w))) \<and>
     (\<forall>x\<in>set (ten_settings w). \<forall>e. setting_enterpriseId x = Some e \<longrightarrow> e \<in> ent_id ` set (enterprises (ten_db w))) \<and>
     distinct (map fst (permissions (ten_rbac w)))"

lemma references_okD:
  assumes "references_ok w"
  shows "\<forall>(i, p)\<in>set (rolePermissions (ten_rbac w)). i \<in> role_id ` set (roles (ten_rbac w))"
    "\<forall>(u, i)\<in>set (userRoles (ten_rbac w)). i \<in> role_id ` set (roles (ten_rbac w))"
    "distinct (map fst (permissions (ten_rbac w)))"
    "u \<notin> user_id ` set (users (ten_db w)) \<Longrightarrow> u \<notin> fst ` set (userRoles (ten_rbac w))"
  using assms by (auto simp: references_ok_def)

text \<open>What a role may do.\<close>

definition role_keys :: "uuid \<Rightarrow> rbac \<Rightarrow> permission_key set" where
  "role_keys i r = {k. \<exists>p. (i, p) \<in> set (rolePermissions r) \<and> (p, k) \<in> set (permissions r)}"

lemma seeded_role_keys:
  assumes "seedDefaultRoles ids e u r = Inr r'" and "distinct (map fst (permissions r))"
    and "\<forall>(i, p)\<in>set (rolePermissions r). i \<in> role_id ` set (roles r)"
  shows "role_keys (rid_role ids n) r' = set (DEFAULT_ROLE_PERMISSIONS n)"
proof -
  note s = seedDefaultRoles_InrD[OF assms(1)]
  have old: "(rid_role ids n, p) \<notin> set (rolePermissions r)" for p using assms(3) s(6)[of n] by blast
  have key: "k' = k" if "k \<in> set (DEFAULT_ROLE_PERMISSIONS n)" "(the (permissionIdByKey r k), k') \<in> set (permissions r)" for k k'
    using s(7)[OF that(1)] that(2) assms(2) by (metis eq_key_imp_eq_value)
  show ?thesis unfolding role_keys_def s(2,3) using old key s(7) injD[OF s(5)] by auto blast+
qed

lemma seeded_grant:
  assumes "seedDefaultRoles ids e u r = Inr r'" and "u \<notin> fst ` set (userRoles r)"
  shows "has_grant e u k r' \<longleftrightarrow> k \<in> role_keys (rid_role ids ADMIN) r'"
proof -
  note s = seedDefaultRoles_InrD[OF assms(1)]
  have mine: "(u, i) \<in> set (userRoles r') \<longleftrightarrow> i = rid_role ids ADMIN" for i using assms(2) s(4) by force
  have "default_role ids e ADMIN \<in> set (roles r')" using s(1) all_role_names(1) by simp
  then show ?thesis unfolding has_grant_def role_keys_def mine by (auto intro!: bexI[of _ "default_role ids e ADMIN"])
qed

lemma other_grants:
  assumes "seedDefaultRoles ids e u r = Inr r'" and "e' \<noteq> e" and "\<forall>(i, p)\<in>set (rolePermissions r). i \<in> role_id ` set (roles r)"
    and "\<forall>(v, i)\<in>set (userRoles r). i \<in> role_id ` set (roles r)"
  shows "has_grant e' v k r' \<longleftrightarrow> has_grant e' v k r"
proof -
  note s = seedDefaultRoles_InrD[OF assms(1)]
  have old: "role \<in> set (roles r') \<and> role_enterpriseId role = e' \<longleftrightarrow> role \<in> set (roles r) \<and> role_enterpriseId role = e'" for role
    using s(1) assms(2) by auto
  have new: "role \<in> set (roles r) \<Longrightarrow> role_id role \<noteq> rid_role ids n" for role n using s(6)[of n] by (metis image_eqI)
  have "(v, role_id role) \<in> set (userRoles r') \<longleftrightarrow> (v, role_id role) \<in> set (userRoles r)" if "role \<in> set (roles r)" for role
    using s(4) new[OF that] by auto
  moreover have "(role_id role, p) \<in> set (rolePermissions r') \<longleftrightarrow> (role_id role, p) \<in> set (rolePermissions r)" if "role \<in> set (roles r)" for role p
    using s(3) new[OF that] by auto
  ultimately show ?thesis unfolding has_grant_def s(2) using old by blast
qed

text \<open>The enterprise that a registration leaves behind, in the database and in the roles.\<close>

definition provisioned :: "register_ids \<Rightarrow> date \<Rightarrow> plan \<Rightarrow> register_input \<Rightarrow> tenancy \<Rightarrow> bool" where
  "provisioned ids now plan input w \<longleftrightarrow> (let s = ten_db w; r = ten_rbac w; e = rid_enterprise ids in
     (\<exists>row sub plan'. find_by ent_id e (enterprises s) = Some row \<and> ent_name row = rin_enterpriseName input \<and> ent_status row = Ent_ACTIVE \<and>
        current_subscription row s = Inr (Some (sub, plan')) \<and> plan_id plan' = plan_id plan \<and> subscription_status sub = Sub_TRIAL \<and>
        subscription_trialEndDate sub = Some (now + plan_trialDays plan * TRIAL_DAY_MS)) \<and>
     (\<exists>u. find_by user_email (rin_email input) (users s) = Some u \<and> user_id u = rid_user ids \<and> user_enterpriseId u = Some e \<and>
        active_account u s) \<and>
     (\<forall>k. has_grant e (rid_user ids) k r \<longleftrightarrow> k \<in> set PERMISSION_KEYS) \<and>
     map role_label (filter (\<lambda>role. role_enterpriseId role = e) (roles r)) = map role_text DEFAULT_ROLE_NAMES \<and>
     (\<forall>n. role_keys (rid_role ids n) r = set (DEFAULT_ROLE_PERMISSIONS n)) \<and>
     map account_code (filter (\<lambda>a. account_enterpriseId a = e) (accounts s)) = map fst SYSCOHADA_ACCOUNT_CLASSES \<and>
     map audit_action (filter (\<lambda>a. audit_enterpriseId a = Some e) (auditLogs s)) = [ENTERPRISE_PROVISIONED] \<and>
     map setting_key (filter (\<lambda>x. setting_enterpriseId x = Some e) (ten_settings w)) = [''commercial.defaults''])"

lemma default_role_simps_map:
  "map role_label (map (default_role ids e) ns) = map role_text ns"
  "filter (\<lambda>role. role_enterpriseId role = e) (map (default_role ids e) ns) = map (default_role ids e) ns"
  by (simp_all add: comp_def filter_id_conv)

lemma no_rows_yet:
  assumes "references_ok w" and "e \<notin> ent_id ` set (enterprises (ten_db w))"
  shows "filter (\<lambda>a. account_enterpriseId a = e) (accounts (ten_db w)) = []"
    "filter (\<lambda>a. audit_enterpriseId a = Some e) (auditLogs (ten_db w)) = []"
    "filter (\<lambda>role. role_enterpriseId role = e) (roles (ten_rbac w)) = []"
    "filter (\<lambda>x. setting_enterpriseId x = Some e) (ten_settings w) = []"
  using assms unfolding references_ok_def filter_empty_conv by (blast, blast, blast, blast)

lemma provisioned_registered:
  assumes tx: "register_tx ids now plan passwordHash input w = Inr (v, w1)" and ok: "references_ok w"
    and db: "ten_db w' = (ten_db w1)\<lparr>authTokens := a, refreshTokens := b\<rparr>" and rest: "ten_rbac w' = ten_rbac w1" "ten_settings w' = ten_settings w1"
  shows "provisioned ids now plan input w'"
proof -
  let ?e = "rid_enterprise ids" and ?s = "ten_db w" and ?r = "ten_rbac w'"
  from tx obtain r where w1: "w1 = w\<lparr>ten_db := registered_db ids now plan passwordHash input ?s, ten_rbac := r,
       ten_settings := ten_settings w @ [commercial_defaults ids now (new_enterprise ids now input)]\<rparr>"
    and seed: "seedDefaultRoles ids ?e (rid_user ids) (ten_rbac w) = Inr r"
    and fresh: "?e \<notin> ent_id ` set (enterprises ?s)" "rid_user ids \<notin> user_id ` set (users ?s)" "rin_email input \<notin> user_email ` set (users ?s)"
      "rid_subscription ids \<notin> subscription_id ` set (subscriptions ?s)" "find_by plan_id (plan_id plan) (plans ?s) \<noteq> None"
    by (rule register_tx_InrE)
  have r: "?r = r" using rest(1) w1 by simp
  have tables: "enterprises (ten_db w') = enterprises ?s @ [admitted_enterprise ids now input]"
    "users (ten_db w') = users ?s @ [new_admin ids now passwordHash input ?e]"
    "subscriptions (ten_db w') = subscriptions ?s @ [trial_subscription ids now plan ?e]" "plans (ten_db w') = plans ?s"
    "accounts (ten_db w') = accounts ?s @ class_accounts ids now ?e"
    "auditLogs (ten_db w') = auditLogs ?s @ [audit_entry (rid_user ids) ?e ENTERPRISE_PROVISIONED ''Enterprise'' ?e]"
    "ten_settings w' = ten_settings w @ [commercial_defaults ids now (new_enterprise ids now input)]"
    unfolding db rest w1 by (simp_all add: registered_db_def)
  have none: "find_by ent_id ?e (enterprises ?s) = None" "find_by user_email (rin_email input) (users ?s) = None"
    "find_by subscription_id (rid_subscription ids) (subscriptions ?s) = None"
    unfolding find_by_None_iff by (rule fresh)+
  have row: "find_by ent_id ?e (enterprises (ten_db w')) = Some (admitted_enterprise ids now input)"
    using none(1) unfolding tables by (simp add: admitted_enterprise_def new_enterprise_def)
  have user: "find_by user_email (rin_email input) (users (ten_db w')) = Some (new_admin ids now passwordHash input ?e)"
    using none(2) unfolding tables by (simp add: new_admin_def)
  obtain plan' where plan': "find_by plan_id (plan_id plan) (plans ?s) = Some plan'"
    using fresh(5) by (cases "find_by plan_id (plan_id plan) (plans ?s)") simp_all
  then have same: "plan_id plan' = plan_id plan" by (rule find_by_SomeD[THEN conjunct2])
  have sub: "current_subscription (admitted_enterprise ids now input) (ten_db w') = Inr (Some (trial_subscription ids now plan ?e, plan'))"
    using none(3) plan' unfolding current_subscription_def tables by (simp add: admitted_enterprise_def trial_subscription_def)
  have active: "active_account (new_admin ids now passwordHash input ?e) (ten_db w')"
    unfolding active_account_def using row by (simp add: new_admin_def admitted_enterprise_def new_enterprise_def)
  have keys: "\<forall>n. role_keys (rid_role ids n) r = set (DEFAULT_ROLE_PERMISSIONS n)"
    using seeded_role_keys[OF seed references_okD(3,1)[OF ok]] by blast
  have grants: "\<forall>k. has_grant ?e (rid_user ids) k r \<longleftrightarrow> k \<in> set PERMISSION_KEYS"
    using seeded_grant[OF seed references_okD(4)[OF ok fresh(2)]] keys isPermissionKey_all DEFAULT_ROLE_PERMISSIONS.simps(1) by metis
  have labels: "map role_label (filter (\<lambda>role. role_enterpriseId role = ?e) (roles r)) = map role_text DEFAULT_ROLE_NAMES"
    unfolding seedDefaultRoles_InrD(1)[OF seed] filter_append no_rows_yet(3)[OF ok fresh(1)] default_role_simps_map append_Nil ..
  have logs: "map account_code (filter (\<lambda>a. account_enterpriseId a = ?e) (accounts (ten_db w'))) = map fst SYSCOHADA_ACCOUNT_CLASSES"
    "map audit_action (filter (\<lambda>a. audit_enterpriseId a = Some ?e) (auditLogs (ten_db w'))) = [ENTERPRISE_PROVISIONED]"
    "map setting_key (filter (\<lambda>x. setting_enterpriseId x = Some ?e) (ten_settings w')) = [''commercial.defaults'']"
    unfolding tables filter_append no_rows_yet[OF ok fresh(1)]
    by (simp_all add: class_accounts_def SYSCOHADA_ACCOUNT_CLASSES_def audit_entry_def commercial_defaults_def new_enterprise_def)
  have first: "\<exists>row sub plan'. find_by ent_id ?e (enterprises (ten_db w')) = Some row \<and> ent_name row = rin_enterpriseName input \<and>
      ent_status row = Ent_ACTIVE \<and> current_subscription row (ten_db w') = Inr (Some (sub, plan')) \<and> plan_id plan' = plan_id plan \<and>
      subscription_status sub = Sub_TRIAL \<and> subscription_trialEndDate sub = Some (now + plan_trialDays plan * TRIAL_DAY_MS)"
    by (rule exI[of _ "admitted_enterprise ids now input"], rule exI[of _ "trial_subscription ids now plan ?e"], rule exI[of _ plan'])
      (simp add: row sub same, simp add: admitted_enterprise_def new_enterprise_def trial_subscription_def)
  have second: "\<exists>u. find_by user_email (rin_email input) (users (ten_db w')) = Some u \<and> user_id u = rid_user ids \<and>
      user_enterpriseId u = Some ?e \<and> active_account u (ten_db w')"
    by (rule exI[of _ "new_admin ids now passwordHash input ?e"]) (simp add: user active, simp add: new_admin_def)
  show ?thesis unfolding provisioned_def Let_def r by (intro conjI first second keys grants labels logs)
qed

text \<open>
  C8. A registration is all or nothing: it is refused and leaves everything as it was, or it leaves an active
  enterprise with its trial, an active administrator who has every permission of the catalogue, the default
  roles with exactly their permissions, the eight SYSCOHADA accounts, one setting and one audit entry.
\<close>

theorem provisioning_all_or_nothing:
  assumes "register hash_password hashToken jwt_sign ttl ids frv frs others now input w = (res, w')" and "references_ok (others w)"
  shows "(\<exists>e. res = Inl e) \<and> (w' = w \<or> w' = others w) \<or>
     (\<exists>plan. find_by plan_id (rin_planId input) (plans (ten_db w)) = Some plan \<and> plan_isActive plan \<and> provisioned ids now plan input w')"
  using assms(1)
proof (cases rule: register_cases)
  case (committed plan r a b)
  then have "provisioned ids now plan input w'"
    using provisioned_registered[OF committed(3) assms(2), where w' = w' and a = a and b = b] by simp
  then show ?thesis using committed(1,2) by blast
qed simp

text \<open>The identifiers and the refresh token drawn are new, and the permissions have been seeded.\<close>

definition newly_drawn :: "(string \<Rightarrow> string) \<Rightarrow> register_ids \<Rightarrow> fresh \<Rightarrow> tenancy \<Rightarrow> bool" where
  "newly_drawn hashToken ids frs w \<longleftrightarrow> (let s = ten_db w; r = ten_rbac w in
     rid_enterprise ids \<notin> ent_id ` set (enterprises s) \<and> rid_user ids \<notin> user_id ` set (users s) \<and>
     rid_subscription ids \<notin> subscription_id ` set (subscriptions s) \<and> Some (rid_subscription ids) \<notin> ent_currentSubscriptionId ` set (enterprises s) \<and>
     inj (rid_role ids) \<and> (\<forall>n. rid_role ids n \<notin> role_id ` set (roles r)) \<and>
     inj (rid_account ids) \<and> (\<forall>code. rid_account ids code \<notin> account_id ` set (accounts s)) \<and>
     rid_setting ids \<notin> setting_id ` set (ten_settings w) \<and> fresh_id frs \<notin> refreshToken_id ` set (refreshTokens s) \<and>
     hashToken (fresh_raw frs) \<notin> refreshToken_tokenHash ` set (refreshTokens s))"

lemma newly_drawnD:
  assumes "newly_drawn hashToken ids frs w"
  shows "rid_enterprise ids \<notin> ent_id ` set (enterprises (ten_db w))" "rid_user ids \<notin> user_id ` set (users (ten_db w))"
    "rid_subscription ids \<notin> subscription_id ` set (subscriptions (ten_db w))"
    "Some (rid_subscription ids) \<notin> ent_currentSubscriptionId ` set (enterprises (ten_db w))"
    "inj (rid_role ids)" "\<forall>n. rid_role ids n \<notin> role_id ` set (roles (ten_rbac w))"
    "inj (rid_account ids)" "\<forall>code. rid_account ids code \<notin> account_id ` set (accounts (ten_db w))"
    "rid_setting ids \<notin> setting_id ` set (ten_settings w)" "fresh_id frs \<notin> refreshToken_id ` set (refreshTokens (ten_db w))"
    "hashToken (fresh_raw frs) \<notin> refreshToken_tokenHash ` set (refreshTokens (ten_db w))"
  using assms unfolding newly_drawn_def Let_def by blast+

definition catalogue_seeded :: "rbac \<Rightarrow> bool" where
  "catalogue_seeded r \<longleftrightarrow> distinct (map fst (permissions r)) \<and> (\<forall>k\<in>set PERMISSION_KEYS. \<exists>i. (i, k) \<in> set (permissions r))"

definition already_registered :: "register_input \<Rightarrow> db \<Rightarrow> bool" where
  "already_registered input s \<longleftrightarrow> rin_email input \<in> user_email ` set (users s) \<or>
     (\<exists>e\<in>set (enterprises s). ent_country e = rin_country input \<and>
        (rin_ninea input \<noteq> None \<and> ent_ninea e = rin_ninea input \<or> rin_rccm input \<noteq> None \<and> ent_rccm e = rin_rccm input))"

lemma accounts_createMany_succeeds:
  assumes "distinct (map account_id rows)" "distinct (map account_code rows)" and "\<forall>a\<in>set rows. account_enterpriseId a = e"
    and "\<forall>a\<in>set rows. account_id a \<notin> account_id ` set (accounts s)"
    and "\<forall>b\<in>set (accounts s). account_enterpriseId b = e \<longrightarrow> account_code b \<notin> account_code ` set rows"
  shows "accounts_createMany rows s = Inr (s\<lparr>accounts := accounts s @ rows\<rparr>)"
  using assms unfolding accounts_createMany_def
proof (induction rows arbitrary: s)
  case (Cons a rows)
  have "account_create a s = Inr (a, s\<lparr>accounts := accounts s @ [a]\<rparr>)"
  proof -
    have "account_id a \<notin> account_id ` set (accounts s)" using Cons.prems(4) by simp
    moreover have "\<not> (\<exists>r\<in>set (accounts s). account_enterpriseId r = account_enterpriseId a \<and> account_code r = account_code a)"
      using Cons.prems(3,5) by (metis image_eqI list.set_intros(1))
    ultimately show ?thesis by (simp add: account_create_def)
  qed
  moreover have "sum_foldM (\<lambda>s row. case account_create row s of Inl e \<Rightarrow> Inl e | Inr (_, s') \<Rightarrow> Inr s')
      (s\<lparr>accounts := accounts s @ [a]\<rparr>) rows =
    Inr ((s\<lparr>accounts := accounts s @ [a]\<rparr>)\<lparr>accounts := accounts (s\<lparr>accounts := accounts s @ [a]\<rparr>) @ rows\<rparr>)"
  proof (rule Cons.IH)
    show "distinct (map account_id rows)" "distinct (map account_code rows)" "\<forall>a\<in>set rows. account_enterpriseId a = e"
      using Cons.prems(1-3) by simp_all
    show "\<forall>b\<in>set rows. account_id b \<notin> account_id ` set (accounts (s\<lparr>accounts := accounts s @ [a]\<rparr>))"
      using Cons.prems(1,4) by (simp, metis image_eqI)
    show "\<forall>b\<in>set (accounts (s\<lparr>accounts := accounts s @ [a]\<rparr>)). account_enterpriseId b = e \<longrightarrow> account_code b \<notin> account_code ` set rows"
      using Cons.prems(2,5) by simp
  qed
  ultimately show ?case by simp
qed simp

lemma class_accounts_succeed:
  assumes "inj (rid_account ids)" "\<forall>code. rid_account ids code \<notin> account_id ` set (accounts s)" and "e \<notin> account_enterpriseId ` set (accounts s)"
  shows "accounts_createMany (class_accounts ids now e) s = Inr (s\<lparr>accounts := accounts s @ class_accounts ids now e\<rparr>)"
proof (rule accounts_createMany_succeeds)
  have classes: "map account_id (class_accounts ids now e) = map (rid_account ids) (map fst SYSCOHADA_ACCOUNT_CLASSES)"
    "map account_code (class_accounts ids now e) = map fst SYSCOHADA_ACCOUNT_CLASSES"
    by (simp_all add: class_accounts_def SYSCOHADA_ACCOUNT_CLASSES_def)
  have codes: "distinct (map fst SYSCOHADA_ACCOUNT_CLASSES)" by (simp add: SYSCOHADA_ACCOUNT_CLASSES_def)
  show "distinct (map account_id (class_accounts ids now e))" unfolding classes using codes assms(1)
    by (subst distinct_map) (blast intro: inj_on_subset)
  show "distinct (map account_code (class_accounts ids now e))" unfolding classes by (rule codes)
  show "\<forall>a\<in>set (class_accounts ids now e). account_enterpriseId a = e" by (auto simp: class_accounts_def)
  show "\<forall>a\<in>set (class_accounts ids now e). account_id a \<notin> account_id ` set (accounts s)"
  proof -
    have "\<forall>a\<in>set (class_accounts ids now e). account_id a \<in> range (rid_account ids)" by (auto simp: class_accounts_def)
    then show ?thesis using assms(2) by (metis rangeE)
  qed
  show "\<forall>b\<in>set (accounts s). account_enterpriseId b = e \<longrightarrow> account_code b \<notin> account_code ` set (class_accounts ids now e)"
    using assms(3) by (metis image_eqI)
qed

lemma requiredKeys_known: "set requiredKeys \<subseteq> set PERMISSION_KEYS"
proof -
  have "list_all (\<lambda>n. list_all (\<lambda>k. k \<in> set PERMISSION_KEYS) (DEFAULT_ROLE_PERMISSIONS n)) DEFAULT_ROLE_NAMES" by code_simp
  then show ?thesis unfolding requiredKeys_def set_js_set by (auto simp: list_all_iff)
qed

lemma seeding_succeeds:
  assumes "newly_drawn hashToken ids frs w" and "catalogue_seeded (ten_rbac w)" and "references_ok w"
  shows "\<exists>r. seedDefaultRoles ids (rid_enterprise ids) (rid_user ids) (ten_rbac w) = Inr r"
proof (rule seedDefaultRoles_succeeds)
  let ?r = "ten_rbac w"
  note new = newly_drawnD[OF assms(1)] and refs = references_okD[OF assms(3)]
  show "inj (rid_role ids)" by (rule new)
  show "distinct (map fst (permissions ?r))" using assms(2) by (simp add: catalogue_seeded_def)
  show "\<forall>k\<in>set requiredKeys. permissionIdByKey ?r k \<noteq> None"
  proof
    fix k assume k: "k \<in> set requiredKeys"
    then obtain i where "(i, k) \<in> set (permissions ?r)" using requiredKeys_known assms(2) by (auto simp: catalogue_seeded_def)
    then have "k \<in> fst ` set (rev (map (\<lambda>(i, k). (k, i)) (filter (\<lambda>(i, k). k \<in> set requiredKeys) (permissions ?r))))"
      using k by force
    then show "permissionIdByKey ?r k \<noteq> None" by (simp only: permissionIdByKey_def map_of_eq_None_iff not_not)
  qed
  show "\<forall>n. rid_role ids n \<notin> role_id ` set (roles ?r) \<union> fst ` set (rolePermissions ?r)" using new(6) refs(1) by fastforce
  show "rid_enterprise ids \<notin> role_enterpriseId ` set (roles ?r)" using no_rows_yet(3)[OF assms(3) new(1)] by (auto simp: filter_empty_conv)
  show "rid_user ids \<notin> fst ` set (userRoles ?r)" by (rule refs(4)[OF new(2)])
qed

lemma register_tx_value:
  assumes drawn: "newly_drawn hashToken ids frs w" and seeded: "catalogue_seeded (ten_rbac w)" and ok: "references_ok w"
    and plan: "find_by plan_id (plan_id plan) (plans (ten_db w)) \<noteq> None"
  shows "already_registered input (ten_db w) \<Longrightarrow> register_tx ids now plan passwordHash input w = Inl (PrismaKnown P2002)"
    and "\<not> already_registered input (ten_db w) \<Longrightarrow> \<exists>x. register_tx ids now plan passwordHash input w = Inr x"
proof -
  let ?s = "ten_db w" and ?e = "rid_enterprise ids"
  let ?row = "new_enterprise ids now input" and ?sub = "trial_subscription ids now plan ?e" and ?user = "new_admin ids now passwordHash input ?e"
  let ?taken = "\<exists>e\<in>set (enterprises ?s). ent_country e = rin_country input \<and>
      (rin_ninea input \<noteq> None \<and> ent_ninea e = rin_ninea input \<or> rin_rccm input \<noteq> None \<and> ent_rccm e = rin_rccm input)"
  note new = newly_drawnD[OF drawn]
  have ids: "ent_id ?row = ?e" "subscription_id ?sub = rid_subscription ids" "subscription_planId ?sub = plan_id plan"
    "user_id ?user = rid_user ids" "user_email ?user = rin_email input"
    by (simp_all add: new_enterprise_def trial_subscription_def new_admin_def)
  have first: "enterprise_create ?row ?s = (if ?taken then Inl (PrismaKnown P2002) else Inr (?row, ?s\<lparr>enterprises := enterprises ?s @ [?row]\<rparr>))"
    using new(1) by (auto simp: enterprise_create_def clashes_key_def new_enterprise_def)
  have second: "subscription_create ?sub (?s\<lparr>enterprises := xs\<rparr>) = Inr (?sub, ?s\<lparr>enterprises := xs, subscriptions := subscriptions ?s @ [?sub]\<rparr>)" for xs
    using new(3) plan by (simp add: subscription_create_def ids)
  have linked: "update_by ent_id ?e (\<lambda>r. r\<lparr>ent_currentSubscriptionId := Some (rid_subscription ids)\<rparr>) (enterprises ?s @ [?row]) =
      enterprises ?s @ [admitted_enterprise ids now input]"
    using new(1) by (auto simp: update_by_def admitted_enterprise_def ids image_iff intro!: map_idI)
  have third: "set_currentSubscription ?e (rid_subscription ids) (?s\<lparr>enterprises := enterprises ?s @ [?row], subscriptions := subs\<rparr>) =
      Inr ((), ?s\<lparr>enterprises := enterprises ?s @ [admitted_enterprise ids now input], subscriptions := subs\<rparr>)" for subs
  proof -
    have "find_by ent_id ?e (enterprises ?s @ [?row]) \<noteq> None" unfolding find_by_None_iff by (simp add: ids)
    moreover have "\<not> (\<exists>r\<in>set (enterprises ?s @ [?row]). ent_id r \<noteq> ?e \<and> ent_currentSubscriptionId r = Some (rid_subscription ids))"
      using new(4) by (auto simp: ids intro: rev_image_eqI)
    ultimately show ?thesis by (simp add: set_currentSubscription_def linked)
  qed
  let ?s3 = "?s\<lparr>enterprises := enterprises ?s @ [admitted_enterprise ids now input], subscriptions := subscriptions ?s @ [?sub]\<rparr>"
  have users: "users ?s3 = users ?s" by simp
  have fourth: "user_create ?user ?s3 = (if rin_email input \<in> user_email ` set (users ?s) then Inl (PrismaKnown P2002)
      else Inr (?user, ?s3\<lparr>users := users ?s @ [?user]\<rparr>))"
    using new(2) unfolding user_create_def ids users by (auto intro: rev_image_eqI)
  obtain r where fifth: "seedDefaultRoles ids ?e (rid_user ids) (ten_rbac w) = Inr r" using seeding_succeeds[OF drawn seeded ok] by blast
  have "?e \<notin> account_enterpriseId ` set (accounts ?s)" using no_rows_yet(1)[OF ok new(1)] by (auto simp: filter_empty_conv)
  then have sixth: "\<exists>s5. accounts_createMany (class_accounts ids now ?e) (?s3\<lparr>users := xs\<rparr>) = Inr s5" for xs
    using class_accounts_succeed[where s = "?s3\<lparr>users := xs\<rparr>", OF new(7)] new(8) by simp
  have seventh: "\<exists>xs. setting_create (commercial_defaults ids now ?row) (ten_settings w) = Inr xs"
  proof -
    have "\<not> (\<exists>x\<in>set (ten_settings w). setting_enterpriseId x = Some ?e)" using no_rows_yet(4)[OF ok new(1)] by (simp add: filter_empty_conv)
    then show ?thesis using new(9) by (auto simp: setting_create_def commercial_defaults_def ids intro: rev_image_eqI)
  qed
  show "register_tx ids now plan passwordHash input w = Inl (PrismaKnown P2002)" if "already_registered input ?s"
  proof (cases ?taken)
    case True
    then show ?thesis by (simp only: register_tx_def first if_True sum.case)
  next
    case False
    then have "rin_email input \<in> user_email ` set (users ?s)" using that by (simp only: already_registered_def) blast
    with False show ?thesis unfolding register_tx_def first by (simp only: if_False sum.case prod.case ids second third fourth if_True)
  qed
  show "\<exists>x. register_tx ids now plan passwordHash input w = Inr x" if "\<not> already_registered input ?s"
  proof -
    obtain s5 xs where "accounts_createMany (class_accounts ids now ?e) (?s3\<lparr>users := users ?s @ [?user]\<rparr>) = Inr s5"
      "setting_create (commercial_defaults ids now ?row) (ten_settings w) = Inr xs" using sixth seventh by blast
    then show ?thesis using that unfolding register_tx_def already_registered_def by (simp add: first ids second third fourth fifth)
  qed
qed

lemma register_outcome:
  assumes plan: "find_by plan_id (rin_planId input) (plans (ten_db w)) = Some plan" "plan_isActive plan"
      "find_by plan_id (rin_planId input) (plans (ten_db (others w))) \<noteq> None"
    and drawn: "newly_drawn hashToken ids frs (others w)" and seeded: "catalogue_seeded (ten_rbac (others w))" and ok: "references_ok (others w)"
  shows "fst (register hash_password hashToken jwt_sign ttl ids frv frs others now input w) =
     (if already_registered input (ten_db (others w))
      then Inl (ConflictException ''Un compte existe deja avec cet email, ou NINEA/RCCM deja utilise pour ce pays'')
      else Inr (signAccessToken jwt_sign (rid_user ids) (Some (rid_enterprise ids)) False, fresh_raw frs))"
proof -
  let ?tx = "register_tx ids now plan (hash_password (rin_password input)) input (others w)"
  have "plan_id plan = rin_planId input" by (rule find_by_SomeD[OF plan(1), THEN conjunct2])
  then have "find_by plan_id (plan_id plan) (plans (ten_db (others w))) \<noteq> None" using plan(3) by simp
  note outcome = register_tx_value[OF drawn seeded ok this, of input now "hash_password (rin_password input)"]
  show ?thesis
  proof (cases "already_registered input (ten_db (others w))")
    case True
    then show ?thesis using plan outcome(1) by (simp add: register_def commit_txn_def)
  next
    case False
    then obtain v w1 where tx: "?tx = Inr (v, w1)" using outcome(2) by (metis surj_pair)
    then have v: "v = (rid_user ids, rid_enterprise ids, rin_email input)"
      and tokens: "refreshTokens (ten_db w1) = refreshTokens (ten_db (others w))"
      by (rule register_tx_InrE, simp add: registered_db_def)+
    let ?w2 = "send_welcome hashToken now frv (rid_user ids) (rid_enterprise ids) (rin_email input) w1"
    obtain a where "ten_db ?w2 = (ten_db w1)\<lparr>authTokens := a\<rparr>" by (rule send_welcome_frame)
    then have "refreshTokens (ten_db ?w2) = refreshTokens (ten_db (others w))" using tokens by simp
    then have "fst (issueTokenPair hashToken jwt_sign ttl now frs (rid_user ids) (Some (rid_enterprise ids)) False (ten_db ?w2)) =
        Inr (signAccessToken jwt_sign (rid_user ids) (Some (rid_enterprise ids)) False, fresh_raw frs)"
      using newly_drawnD(10,11)[OF drawn] by (auto simp: issueTokenPair_def refreshToken_create_def new_refresh_token_def intro: rev_image_eqI)
    then show ?thesis using plan False tx v by (auto simp: register_def commit_txn_def Let_def split: prod.splits)
  qed
qed

section \<open>A platform to register on\<close>

definition px_rbac :: rbac where
  "px_rbac = \<lparr>permissions = map (\<lambda>k. (k, k)) PERMISSION_KEYS,
     roles = [\<lparr>role_id = ''r1'', role_enterpriseId = ''e1'', role_label = ''ADMIN'', role_isSystem = True\<rparr>],
     rolePermissions = [(''r1'', ''sales.read'')], userRoles = [(''u1'', ''r1'')]\<rparr>"

definition px_tenancy :: tenancy where
  "px_tenancy = \<lparr>ten_db = server_db gx_server, ten_rbac = px_rbac, ten_settings = [], ten_onboarding = [], ten_notifications = []\<rparr>"

definition px_ids :: register_ids where
  "px_ids = \<lparr>rid_enterprise = ''e9'', rid_subscription = ''b9'', rid_user = ''u9'', rid_role = (\<lambda>n. ''role '' @ role_text n),
     rid_account = (\<lambda>code. ''account '' @ code), rid_setting = ''x9''\<rparr>"

definition px_fresh :: fresh where "px_fresh = \<lparr>fresh_id = ''t9'', fresh_raw = ''raw9'', fresh_family = ''f9''\<rparr>"

definition px_input :: register_input where
  "px_input = \<lparr>rin_firstName = ''Awa'', rin_lastName = ''Diop'', rin_email = ''awa@diop'', rin_phone = None, rin_password = ''Motdepasse1'',
     rin_enterpriseName = ''Diop'', rin_legalName = None, rin_ninea = Some ''999'', rin_rccm = None, rin_sector = None,
     rin_address = None, rin_city = None, rin_country = ''SN'', rin_enterprisePhone = None, rin_enterpriseEmail = None, rin_planId = ''PRO''\<rparr>"

lemma px_simps:
  "enterprises (ten_db px_tenancy) = [(fx_enterprise ''e1'')\<lparr>ent_currentSubscriptionId := Some ''b1''\<rparr>, fx_enterprise ''e2'']"
  "users (ten_db px_tenancy) = [gx_user]" "accounts (ten_db px_tenancy) = [fx_account ''a1'' ''411'', fx_account ''a2'' ''701'']"
  "auditLogs (ten_db px_tenancy) = []" "refreshTokens (ten_db px_tenancy) = []" "ten_rbac px_tenancy = px_rbac" "ten_settings px_tenancy = []"
  "plans (ten_db px_tenancy) = [fx_plan ''PRO'' ''PRO'' 10, fx_plan ''FREE'' ''FREE'' 1]"
  "subscriptions (ten_db px_tenancy) = [fx_subscription Sub_ACTIVE ''PRO'']"
  by (simp_all add: px_tenancy_def gx_server_def fx_billing_db_def fx_db_def empty_db_def fx_enterprise_def update_by_def)

lemma px_references: "references_ok px_tenancy"
  by (simp add: references_ok_def px_simps px_rbac_def fx_enterprise_def fx_account_def gx_user_def distinct_map comp_def) code_simp

lemma px_drawn: "newly_drawn id px_ids px_fresh px_tenancy"
  by (auto simp: newly_drawn_def px_simps px_rbac_def px_ids_def px_fresh_def fx_enterprise_def fx_account_def gx_user_def fx_subscription_def
      inj_def role_text_inj)

lemma px_catalogue: "catalogue_seeded px_rbac"
proof -
  have "distinct PERMISSION_KEYS" by code_simp
  then show ?thesis by (auto simp: catalogue_seeded_def px_rbac_def comp_def)
qed

lemma px_plan: "find_by plan_id (rin_planId px_input) (plans (ten_db px_tenancy)) = Some (fx_plan ''PRO'' ''PRO'' 10)"
  "plan_isActive (fx_plan ''PRO'' ''PRO'' 10)"
  by (simp_all add: px_simps px_input_def fx_plan_def)

lemma px_new: "\<not> already_registered px_input (ten_db px_tenancy)"
  by (simp add: already_registered_def px_simps px_input_def fx_enterprise_def gx_user_def)

definition px_sign :: "jwt_claims \<Rightarrow> string" where "px_sign c = ''jwt''"

lemma px_registered:
  obtains w' where "register id id px_sign 1000 px_ids px_fresh px_fresh id 5 px_input px_tenancy =
    (Inr (signAccessToken px_sign ''u9'' (Some ''e9'') False, ''raw9''), w')"
proof -
  have "fst (register id id px_sign 1000 px_ids px_fresh px_fresh id 5 px_input px_tenancy) =
      Inr (signAccessToken px_sign ''u9'' (Some ''e9'') False, ''raw9'')"
    using register_outcome[where others = id and w = px_tenancy and plan = "fx_plan ''PRO'' ''PRO'' 10" and hashToken = id and
      ids = px_ids and frs = px_fresh, simplified id_apply, OF px_plan _ px_drawn] px_plan px_catalogue px_references px_new
    by (simp add: px_ids_def px_fresh_def px_simps(6))
  then show thesis using that by (metis prod.collapse)
qed

text \<open>
  C9. Who may register: on a platform whose permissions are seeded, a registration for an active plan fails with
  the conflict exactly when the email is already that of a user or the NINEA or RCCM given is already that of an
  enterprise of the same country; otherwise it always succeeds.
\<close>

theorem registration_admission:
  assumes plan: "find_by plan_id (rin_planId input) (plans (ten_db w)) = Some plan" "plan_isActive plan"
      "find_by plan_id (rin_planId input) (plans (ten_db (others w))) \<noteq> None"
    and drawn: "newly_drawn hashToken ids frs (others w)" and seeded: "catalogue_seeded (ten_rbac (others w))" and ok: "references_ok (others w)"
  shows "fst (register hash_password hashToken jwt_sign ttl ids frv frs others now input w) =
     (if already_registered input (ten_db (others w))
      then Inl (ConflictException ''Un compte existe deja avec cet email, ou NINEA/RCCM deja utilise pour ce pays'')
      else Inr (signAccessToken jwt_sign (rid_user ids) (Some (rid_enterprise ids)) False, fresh_raw frs))"
  using assms by (rule register_outcome)

theorem registration_admission_witness:
  "fst (register id id px_sign 1000 px_ids px_fresh px_fresh id 5 px_input px_tenancy) =
     Inr (signAccessToken px_sign ''u9'' (Some ''e9'') False, ''raw9'') \<and>
   fst (register id id px_sign 1000 px_ids px_fresh px_fresh id 5 (px_input\<lparr>rin_ninea := Some ''123''\<rparr>) px_tenancy) =
     Inl (ConflictException ''Un compte existe deja avec cet email, ou NINEA/RCCM deja utilise pour ce pays'')"
proof -
  note admission = registration_admission[where others = id and w = px_tenancy and plan = "fx_plan ''PRO'' ''PRO'' 10" and hashToken = id and
      ids = px_ids and frs = px_fresh, simplified id_apply, OF _ px_plan(2) _ px_drawn]
  show ?thesis using admission[where input = px_input] admission[where input = "px_input\<lparr>rin_ninea := Some ''123''\<rparr>"]
      px_plan px_catalogue px_references px_new
    by (simp add: px_ids_def px_fresh_def already_registered_def px_simps(1) fx_enterprise_def px_input_def px_simps(6))
qed

lemma registered_separate: "separate (rid_enterprise ids) s (registered_db ids now plan passwordHash input s)"
  by (auto simp: separate_def tenant_view_def rls_def registered_db_def admitted_enterprise_def new_enterprise_def new_admin_def
      trial_subscription_def class_accounts_def audit_entry_def filter_empty_conv SYSCOHADA_ACCOUNT_CLASSES_def)

lemma erp_wf_tokens: "erp_wf s \<Longrightarrow> erp_wf (s\<lparr>authTokens := a, refreshTokens := b\<rparr>)"
  by (rule erp_wfI; (rule wf_frames, erule erp_wfD; simp))

lemma view_tokens:
  "(tenant_view e s)\<lparr>authTokens := authTokens s, refreshTokens := refreshTokens s\<rparr> = tenant_view e s"
  "(tenant_view e (s\<lparr>authTokens := a, refreshTokens := b\<rparr>))\<lparr>authTokens := x, refreshTokens := y\<rparr> =
     (tenant_view e s)\<lparr>authTokens := x, refreshTokens := y\<rparr>"
  by (simp_all add: tenant_view_def rls_def)

text \<open>
  A NINEA left blank is a text like any other: the schema lets it pass, and after one enterprise of the country
  registered with it the route answers every other with the conflict.
\<close>

lemma blank_ninea_blocks:
  assumes plan: "find_by plan_id (rin_planId body) (plans (ten_db w)) = Some plan" "plan_isActive plan"
    and "newly_drawn hashToken ids frs w" "catalogue_seeded (ten_rbac w)" "references_ok w"
    and "registerSchema body" "rin_ninea body = Some []"
    and "row \<in> set (enterprises (ten_db w))" "ent_country row = rin_country body" "ent_ninea row = Some []"
  shows "fst (ProvisioningController_register hash_password hashToken jwt_sign ttl ids frv frs id now body w) =
    Inl (ConflictException ''Un compte existe deja avec cet email, ou NINEA/RCCM deja utilise pour ce pays'')"
proof -
  have "already_registered body (ten_db w)" using assms(7-10) unfolding already_registered_def by auto
  then show ?thesis
    using register_outcome[where others = id and w = w and plan = plan and hashToken = hashToken and ids = ids and frs = frs and input = body] assms(1-6)
    by (simp add: ProvisioningController_register_def ZodValidationPipe_def)
qed

lemma blank_ninea_allowed: "registerSchema (px_input\<lparr>rin_ninea := Some []\<rparr>)"
  by code_simp

text \<open>
  C10. A registration disturbs nobody: the books stay in order, and whatever it answers, no other enterprise sees
  a change in its rows, its counters or its audit log, and no user's rights in another enterprise change.
\<close>

theorem registration_disturbs_nobody:
  assumes "register hash_password hashToken jwt_sign ttl ids frv frs others now input w = (res, w')" and "references_ok (others w)"
    and "erp_wf (ten_db w)" "erp_wf (ten_db (others w))"
  shows "erp_wf (ten_db w') \<and>
     (w' = w \<or> (\<forall>e'. e' \<noteq> rid_enterprise ids \<longrightarrow>
        (tenant_view e' (ten_db w'))\<lparr>authTokens := authTokens (ten_db (others w)), refreshTokens := refreshTokens (ten_db (others w))\<rparr> =
          tenant_view e' (ten_db (others w)) \<and>
        (\<forall>u k. has_grant e' u k (ten_rbac w') \<longleftrightarrow> has_grant e' u k (ten_rbac (others w)))))"
  using assms(1)
proof (cases rule: register_cases)
  case (refused e)
  from refused(2) show ?thesis
  proof
    assume "w' = others w"
    then show ?thesis using assms(4) by (simp only: view_tokens(1) simp_thms)
  qed (use assms(3) in simp)
next
  case (committed plan r a b)
  let ?s = "ten_db (others w)" and ?t = "registered_db ids now plan (hash_password (rin_password input)) input (ten_db (others w))"
  note seed = committed(8) and wf = committed(9)[OF assms(4)]
  have view: "tenant_view e' ?t = tenant_view e' ?s" if "e' \<noteq> rid_enterprise ids" for e'
    using registered_separate that unfolding separate_def by blast
  have "erp_wf (ten_db w')" unfolding committed(4) by (rule erp_wf_tokens[OF wf])
  moreover have "(tenant_view e' (ten_db w'))\<lparr>authTokens := authTokens ?s, refreshTokens := refreshTokens ?s\<rparr> = tenant_view e' ?s"
    if "e' \<noteq> rid_enterprise ids" for e'
    unfolding committed(4) view_tokens(2) view[OF that] by (rule view_tokens(1))
  moreover have "has_grant e' u k (ten_rbac w') \<longleftrightarrow> has_grant e' u k (ten_rbac (others w))" if "e' \<noteq> rid_enterprise ids" for e' u k
    unfolding committed(5) by (rule other_grants[OF seed that references_okD(1,2)[OF assms(2)]])
  ultimately show ?thesis by blast
qed

section \<open>The new administrator at work\<close>

lemma metadata_permission: "meta_permission (metadata r) \<in> set PERMISSION_KEYS"
proof (cases r)
  case (Products x) then show ?thesis by (cases x) (simp_all add: route_meta_def PERMISSION_KEYS_def)
next
  case (Customers x) then show ?thesis by (cases x) (simp_all add: route_meta_def PERMISSION_KEYS_def)
next
  case (Suppliers x) then show ?thesis by (cases x) (simp_all add: route_meta_def PERMISSION_KEYS_def)
next
  case (Stock x) then show ?thesis by (cases x) (simp_all add: route_meta_def PERMISSION_KEYS_def)
next
  case (Sales x) then show ?thesis by (cases x) (simp_all add: route_meta_def PERMISSION_KEYS_def)
next
  case (Purchases x) then show ?thesis by (cases x) (simp_all add: route_meta_def PERMISSION_KEYS_def)
next
  case (Invoices x) then show ?thesis by (cases x) (simp_all add: route_meta_def PERMISSION_KEYS_def)
next
  case (Accounts x) then show ?thesis by (cases x) (simp_all add: route_meta_def PERMISSION_KEYS_def)
next
  case (Journal x) then show ?thesis by (cases x) (simp_all add: route_meta_def PERMISSION_KEYS_def)
next
  case Trial_balance then show ?thesis by (simp add: route_meta_def trial_balance_meta_def PERMISSION_KEYS_def)
next
  case (Reports x) then show ?thesis by (simp add: route_meta_def reports_meta_def PERMISSION_KEYS_def)
qed

text \<open>A guard that has nothing in its caches asks the database; then it keeps the answer.\<close>

lemma getCurrent_miss:
  assumes "map_of cache e = None" and "entitlements_resolve e s = Inr v"
  obtains c where "entitlements_getCurrent ttl n (Some \<lparr>store_tenantId = e, store_userId = u, store_isSuperAdmin = a\<rparr>) now now id s cache = (Inr v, c)"
    "fst (entitlements_getCurrent ttl n (Some \<lparr>store_tenantId = e, store_userId = u, store_isSuperAdmin = a\<rparr>) now now id s c) = Inr v"
proof -
  have hit: "map_of (cache_store n e x c) e = Some x" for x c
    by (simp add: cache_store_def update_Some_unfold update_conv)
  show thesis
    using that assms hit by (simp add: entitlements_getCurrent_def getRequiredTenantId_def cache_lookup_def split: if_splits)
qed

lemma plan_guards_pass:
  assumes "map_of cache e = None" and "entitlements_resolve e s = Inr v" and "meta_feature m \<in> set (entl_features v)"
    and "\<And>status. entl_subscriptionStatus v = Some status \<Longrightarrow> status \<notin> set BLOCKING_STATUSES"
  shows "fst (plan_guards cfg now (Some \<lparr>store_tenantId = e, store_userId = u, store_isSuperAdmin = a\<rparr>) m s cache) = Inr ()"
proof -
  let ?get = "entitlements_getCurrent (entitlementsCacheTtlMs cfg) (entitlementsCacheMaxEntries cfg)
    (Some \<lparr>store_tenantId = e, store_userId = u, store_isSuperAdmin = a\<rparr>) now now id s"
  obtain c where c: "?get cache = (Inr v, c)" "fst (?get c) = Inr v" by (rule getCurrent_miss[OF assms(1,2)])
  then obtain c' where again: "?get c = (Inr v, c')" by (metis prod.collapse)
  have allowed: "SubscriptionAccessGuard_canActivate (meta_method m) (Inr v) = Inr ()"
    using assms(4) by (auto simp: SubscriptionAccessGuard_canActivate_def split: option.splits)
  show ?thesis using c(1) again allowed assms(3)
    by (simp add: plan_guards_def FeatureGuard_canActivate_def Let_def split: prod.splits)
qed

lemma guards_pass:
  assumes token: "bearer_token h = Some token" "verifyAccessToken (jwt_verify cfg) token =
      Inr \<lparr>token_sub = u, token_enterpriseId = Some e, token_isSuperAdmin = a\<rparr>" "e \<noteq> []"
    and account: "server_status srv u = None" "find_by user_id u (users (server_db srv)) = Some row" "active_account row (server_db srv)"
    and grant: "has_grant e u (meta_permission m) (server_rbac srv)" "meta_permission m \<noteq> []"
    and plan: "map_of (server_entitlements srv) e = None" "entitlements_resolve e (server_db srv) = Inr v" "meta_feature m \<in> set (entl_features v)"
      "\<And>status. entl_subscriptionStatus v = Some status \<Longrightarrow> status \<notin> set BLOCKING_STATUSES"
  shows "fst (guards cfg now h m srv) = Inr \<lparr>au_id = u, au_enterpriseId = Some e, au_isSuperAdmin = a\<rparr>"
proof -
  let ?user = "\<lparr>au_id = u, au_enterpriseId = Some e, au_isSuperAdmin = a\<rparr>"
  let ?st = "\<lparr>store_tenantId = e, store_userId = u, store_isSuperAdmin = a\<rparr>"
  have store: "tenant_context_use (verifyAccessToken (jwt_verify cfg)) h = Some ?st"
    using token by (simp add: tenant_context_use_def)
  obtain c where jwt: "JwtAuthGuard_canActivate (jwt_verify cfg) (accountStatusCacheTtlMs cfg) now now id (server_db srv) h (server_status srv) =
      (Inr ?user, c)"
    using token account by (simp add: JwtAuthGuard_canActivate_def isAccountActive_def)
  let ?r = "(server_rbac srv)\<lparr>roles := filter (\<lambda>role. role_enterpriseId role = e) (roles (server_rbac srv))\<rparr>"
  have "0 < grant_count e u (meta_permission m) ?r"
    using grant(1) unfolding grant_count_pos has_grant_def by auto
  then have perm: "PermissionsGuard_canActivate (Some ?st) (Some (meta_permission m)) False (Some ?user) (server_rbac srv) = Inr ()"
    using token(3) grant(2) by (simp add: PermissionsGuard_canActivate_def getRequiredTenantId_def)
  obtain c' where "plan_guards cfg now (Some ?st) m (server_db srv) (server_entitlements srv) = (Inr (), c')"
    using plan_guards_pass[OF plan, of cfg now u a] by (metis prod.collapse)
  then show ?thesis using store jwt perm by (simp add: guards_def Let_def)
qed

lemma registered_entitlements:
  assumes "rid_enterprise ids \<notin> ent_id ` set (enterprises s)" "rid_subscription ids \<notin> subscription_id ` set (subscriptions s)"
    and "find_by plan_id (plan_id plan) (plans s) = Some plan'"
    and "s' = (registered_db ids now plan passwordHash input s)\<lparr>authTokens := a, refreshTokens := b\<rparr>"
  shows "entitlements_resolve (rid_enterprise ids) s' = Inr (entitlements_of (trial_subscription ids now plan (rid_enterprise ids)) plan')"
proof -
  let ?e = "rid_enterprise ids" and ?sub = "trial_subscription ids now plan (rid_enterprise ids)"
  have row: "enterprises (rls ?e s') = [admitted_enterprise ids now input]"
  proof -
    have "filter (\<lambda>r. ent_id r = ?e) (enterprises s) = []" using assms(1) unfolding filter_empty_conv by (metis image_eqI)
    then show ?thesis by (simp add: assms(4) rls_def registered_db_def admitted_enterprise_def new_enterprise_def)
  qed
  have "find_by subscription_id (rid_subscription ids) (filter (\<lambda>r. subscription_enterpriseId r = ?e) (subscriptions s)) = None"
    using assms(2) by (auto simp: find_by_None_iff)
  then have sub: "find_by subscription_id (rid_subscription ids) (subscriptions (rls ?e s')) = Some ?sub"
    by (simp add: assms(4) rls_def registered_db_def trial_subscription_def)
  have "plans (rls ?e s') = plans s" by (simp add: assms(4) rls_def registered_db_def)
  then show ?thesis using row sub assms(3)
    by (simp add: entitlements_resolve_def Let_def current_subscription_def admitted_enterprise_def new_enterprise_def trial_subscription_def)
qed

text \<open>
  What a registration sets up is enough to work: with the access token it answers, the new administrator
  gets through all guards of every route whose feature the chosen plan has, as long as the trial lasts.
\<close>

theorem new_admin_may_work:
  assumes reg: "register hash_password hashToken jwt_sign ttl ids frv frs others now input w = (Inr (accessToken, refreshToken), w')"
    and ok: "references_ok (others w)" and "rid_enterprise ids \<noteq> []"
    and plan: "find_by plan_id (rin_planId input) (plans (ten_db (others w))) = Some plan" "(meta_feature (metadata r), True) \<in> set (plan_features plan)"
    and jwt: "jwt_verify cfg (jwt_sign (access_claims (rid_user ids) (Some (rid_enterprise ids)) False)) =
      Some (access_claims (rid_user ids) (Some (rid_enterprise ids)) False)"
    and srv: "server_db srv = ten_db w'" "server_rbac srv = ten_rbac w'" "server_status srv (rid_user ids) = None"
      "map_of (server_entitlements srv) (rid_enterprise ids) = None"
  shows "fst (guards cfg later (Some (''Bearer '' @ accessToken)) (metadata r) srv) =
     Inr \<lparr>au_id = rid_user ids, au_enterpriseId = Some (rid_enterprise ids), au_isSuperAdmin = False\<rparr>"
  using reg
proof (cases rule: register_cases)
  case (committed plan0 rb a b)
  let ?e = "rid_enterprise ids" and ?s = "ten_db (others w)"
  note fresh = committed(10,11,12)
  have prov: "provisioned ids now plan0 input w'"
    using provisioned_registered[OF committed(3) ok, where w' = w' and a = a and b = b] committed(4-6) by simp
  have token: "accessToken = jwt_sign (access_claims (rid_user ids) (Some ?e) False)"
    using committed(7) by (simp add: signAccessToken_def)
  have row: "find_by user_id (rid_user ids) (users (ten_db w')) = Some (new_admin ids now (hash_password (rin_password input)) input ?e)"
    using fresh(2) unfolding committed(4) find_by_None_iff[symmetric] by (simp add: registered_db_def new_admin_def)
  obtain u where "find_by user_email (rin_email input) (users (ten_db w')) = Some u" "active_account u (ten_db w')"
    using prov unfolding provisioned_def Let_def by blast
  have "find_by ent_id ?e (enterprises (ten_db w')) = Some (admitted_enterprise ids now input)"
    using fresh(1) unfolding committed(4) find_by_None_iff[symmetric]
    by (simp add: registered_db_def admitted_enterprise_def new_enterprise_def)
  then have active: "active_account (new_admin ids now (hash_password (rin_password input)) input ?e) (ten_db w')"
    by (simp add: active_account_def new_admin_def admitted_enterprise_def new_enterprise_def)
  have grant: "has_grant ?e (rid_user ids) (meta_permission (metadata r)) (ten_rbac w')"
    using prov metadata_permission[of r] by (simp add: provisioned_def Let_def)
  have "plan_id plan0 = rin_planId input" by (rule find_by_SomeD[OF committed(1), THEN conjunct2])
  then have entl: "entitlements_resolve ?e (ten_db w') = Inr (entitlements_of (trial_subscription ids now plan0 ?e) plan)"
    using registered_entitlements[OF fresh(1,3) _ committed(4)] plan(1) by simp
  have feature: "meta_feature (metadata r) \<in> set (entl_features (entitlements_of (trial_subscription ids now plan0 ?e) plan))"
    using plan(2) by (force simp: entitlements_of_def)
  show ?thesis
    by (rule guards_pass[where token = accessToken and row = "new_admin ids now (hash_password (rin_password input)) input ?e"
          and v = "entitlements_of (trial_subscription ids now plan0 ?e) plan"])
      (use srv row active grant entl feature metadata_nonempty(2) assms(3) jwt in \<open>simp_all add: bearer_token_def token verifyAccessToken_def
        access_claims_def entitlements_of_def trial_subscription_def BLOCKING_STATUSES_def\<close>)
qed simp

definition px_server :: "tenancy \<Rightarrow> server" where
  "px_server w = \<lparr>server_db = ten_db w, server_rbac = ten_rbac w, server_status = Map.empty, server_entitlements = []\<rparr>"

theorem provisioning_all_or_nothing_witness:
  "\<exists>w' plan. fst (register id id px_sign 1000 px_ids px_fresh px_fresh id 5 px_input px_tenancy) =
       Inr (signAccessToken px_sign ''u9'' (Some ''e9'') False, ''raw9'') \<and> provisioned px_ids 5 plan px_input w'"
proof -
  obtain w' where w': "register id id px_sign 1000 px_ids px_fresh px_fresh id 5 px_input px_tenancy =
    (Inr (signAccessToken px_sign ''u9'' (Some ''e9'') False, ''raw9''), w')" by (rule px_registered)
  then show ?thesis using provisioning_all_or_nothing[OF w'] px_references by auto
qed

theorem registration_disturbs_nobody_witness:
  "\<exists>w'. snd (register id id px_sign 1000 px_ids px_fresh px_fresh id 5 px_input px_tenancy) = w' \<and> erp_wf (ten_db w') \<and>
     (has_grant ''e1'' ''u1'' ''sales.read'' (ten_rbac w') \<longleftrightarrow> has_grant ''e1'' ''u1'' ''sales.read'' px_rbac)"
proof -
  obtain w' where w': "register id id px_sign 1000 px_ids px_fresh px_fresh id 5 px_input px_tenancy =
    (Inr (signAccessToken px_sign ''u9'' (Some ''e9'') False, ''raw9''), w')" by (rule px_registered)
  have wf: "erp_wf (ten_db px_tenancy)" using gx_server_wf by (simp add: px_tenancy_def)
  have "rid_enterprise px_ids \<noteq> ''e1''" by (simp add: px_ids_def)
  then have "erp_wf (ten_db w') \<and> (has_grant ''e1'' ''u1'' ''sales.read'' (ten_rbac w') \<longleftrightarrow> has_grant ''e1'' ''u1'' ''sales.read'' px_rbac)"
    using registration_disturbs_nobody[OF w'] px_references wf by (metis id_apply px_simps(6))
  then show ?thesis using w' by simp
qed

theorem new_admin_may_work_witness:
  "\<exists>w'. snd (register id id px_sign 1000 px_ids px_fresh px_fresh id 5 px_input px_tenancy) = w' \<and>
     fst (guards (gx_config\<lparr>jwt_verify := (\<lambda>_. Some (access_claims ''u9'' (Some ''e9'') False))\<rparr>) 7 (Some ''Bearer jwt'')
       (metadata (Sales (Sales_create gx_sale None))) (px_server w')) =
     Inr \<lparr>au_id = ''u9'', au_enterpriseId = Some ''e9'', au_isSuperAdmin = False\<rparr>"
proof -
  let ?cfg = "gx_config\<lparr>jwt_verify := (\<lambda>_. Some (access_claims ''u9'' (Some ''e9'') False))\<rparr>"
  obtain w' where w': "register id id px_sign 1000 px_ids px_fresh px_fresh id 5 px_input px_tenancy =
    (Inr (signAccessToken px_sign ''u9'' (Some ''e9'') False, ''raw9''), w')" by (rule px_registered)
  have plan: "(meta_feature (metadata (Sales (Sales_create gx_sale None))), True) \<in> set (plan_features (fx_plan ''PRO'' ''PRO'' 10))"
    by (simp add: route_meta_def fx_plan_def)
  have "fst (guards ?cfg 7 (Some (''Bearer '' @ signAccessToken px_sign ''u9'' (Some ''e9'') False))
       (metadata (Sales (Sales_create gx_sale None))) (px_server w')) =
     Inr \<lparr>au_id = rid_user px_ids, au_enterpriseId = Some (rid_enterprise px_ids), au_isSuperAdmin = False\<rparr>"
    by (rule new_admin_may_work[OF w' _ _ _ plan]) (simp_all add: px_plan px_references, simp_all add: px_ids_def px_server_def)
  then show ?thesis using w' by (simp add: signAccessToken_def px_sign_def px_ids_def)
qed

end
