(* ===== verification/PlansAdmin.thy ===== *)
theory PlansAdmin
  imports Gateway
begin

text \<open>
  apps/api/src/plans-admin and apps/api/src/plans: the catalogue of plans, its edition by super
  administrators and its public list. The features and limits that may be switched are rows of two tables
  that no code of the application writes: they are a parameter, as pairs of key and label. What a plan
  says of them is kept by key in the plan itself. Each write is followed by its audit entry, outside of
  the write's transaction.
\<close>

section \<open>Views and input\<close>

record catalogue =
  cat_features :: "(string \<times> string) list"
  cat_limits :: "(string \<times> string) list"

record plan_admin_view =
  pav_id :: uuid
  pav_code :: string
  pav_name :: string
  pav_description :: "string option"
  pav_priceMonthly :: int
  pav_priceYearly :: "int option"
  pav_trialDays :: int
  pav_isActive :: bool
  pav_sortOrder :: int
  pav_features :: "(string \<times> string \<times> bool) list"
  pav_limits :: "(string \<times> string \<times> int option) list"

definition plan_toView :: "catalogue \<Rightarrow> plan \<Rightarrow> plan_admin_view" where
  "plan_toView cat plan =
     \<lparr>pav_id = plan_id plan, pav_code = plan_code plan, pav_name = plan_name plan, pav_description = plan_description plan,
      pav_priceMonthly = plan_priceMonthly plan, pav_priceYearly = plan_priceYearly plan, pav_trialDays = plan_trialDays plan,
      pav_isActive = plan_isActive plan, pav_sortOrder = plan_sortOrder plan,
      pav_features = map (\<lambda>(key, enabled). (key, given (map_of (cat_features cat) key) [], enabled)) (plan_features plan),
      pav_limits = map (\<lambda>(key, value). (key, given (map_of (cat_limits cat) key) [], value)) (plan_limits plan)\<rparr>"

record create_plan_input =
  cpi_code :: string
  cpi_name :: string
  cpi_description :: "string option"
  cpi_priceMonthly :: int
  cpi_priceYearly :: "int option"
  cpi_trialDays :: int
  cpi_isActive :: bool
  cpi_sortOrder :: int

text \<open>A key that is absent from the body of an update is \<open>None\<close>; no key can be set back to null.\<close>

record update_plan_input =
  upi_code :: "string option"
  upi_name :: "string option"
  upi_description :: "string option"
  upi_priceMonthly :: "int option"
  upi_priceYearly :: "int option"
  upi_trialDays :: "int option"
  upi_isActive :: "bool option"
  upi_sortOrder :: "int option"

definition createPlanSchema :: "create_plan_input \<Rightarrow> bool" where
  "createPlanSchema i \<longleftrightarrow> cpi_code i \<noteq> [] \<and> cpi_name i \<noteq> [] \<and> cpi_description i \<noteq> Some [] \<and> 0 \<le> cpi_priceMonthly i \<and>
     (\<forall>p\<in>set_option (cpi_priceYearly i). 0 \<le> p) \<and> 0 \<le> cpi_trialDays i"

definition updatePlanSchema :: "update_plan_input \<Rightarrow> bool" where
  "updatePlanSchema i \<longleftrightarrow> upi_code i \<noteq> Some [] \<and> upi_name i \<noteq> Some [] \<and> upi_description i \<noteq> Some [] \<and>
     (\<forall>p\<in>set_option (upi_priceMonthly i). 0 \<le> p) \<and> (\<forall>p\<in>set_option (upi_priceYearly i). 0 \<le> p) \<and>
     (\<forall>d\<in>set_option (upi_trialDays i). 0 \<le> d)"

definition setPlanLimitSchema :: "int option \<Rightarrow> bool" where
  "setPlanLimitSchema value \<longleftrightarrow> (\<forall>v\<in>set_option value. 0 \<le> v)"

section \<open>The repository\<close>

definition plansAdmin_findAll :: "catalogue \<Rightarrow> db \<Rightarrow> plan_admin_view list" where
  "plansAdmin_findAll cat s = map (plan_toView cat) (sort_key plan_sortOrder (plans s))"

definition plansAdmin_findByIdOrThrow :: "catalogue \<Rightarrow> uuid \<Rightarrow> db \<Rightarrow> exn + plan_admin_view" where
  "plansAdmin_findByIdOrThrow cat i s = (case find_by plan_id i (plans s) of
     None \<Rightarrow> Inl (NotFoundException ''Plan introuvable'')
   | Some plan \<Rightarrow> Inr (plan_toView cat plan))"

definition plan_create :: "plan \<Rightarrow> (db, exn, plan) txn" where
  "plan_create row s =
     (if plan_id row \<in> plan_id ` set (plans s) \<or> plan_code row \<in> plan_code ` set (plans s)
      then Inl (PrismaKnown P2002) else Inr (row, s\<lparr>plans := plans s @ [row]\<rparr>))"

definition plan_update :: "uuid \<Rightarrow> (plan \<Rightarrow> plan) \<Rightarrow> (db, exn, plan) txn" where
  "plan_update i f s = (case find_by plan_id i (plans s) of
     None \<Rightarrow> Inl (PrismaKnown P2025)
   | Some plan \<Rightarrow>
       if \<exists>p\<in>set (plans s). plan_id p \<noteq> i \<and> plan_code p = plan_code (f plan) then Inl (PrismaKnown P2002)
       else Inr (f plan, s\<lparr>plans := update_by plan_id i f (plans s)\<rparr>))"

definition new_plan :: "uuid \<Rightarrow> create_plan_input \<Rightarrow> plan" where
  "new_plan newId i = \<lparr>plan_id = newId, plan_code = cpi_code i, plan_name = cpi_name i, plan_description = cpi_description i,
     plan_priceMonthly = cpi_priceMonthly i, plan_priceYearly = cpi_priceYearly i, plan_trialDays = cpi_trialDays i,
     plan_isActive = cpi_isActive i, plan_sortOrder = cpi_sortOrder i, plan_features = [], plan_limits = []\<rparr>"

definition edited_plan :: "update_plan_input \<Rightarrow> plan \<Rightarrow> plan" where
  "edited_plan i p = p\<lparr>
     plan_code := given (upi_code i) (plan_code p), plan_name := given (upi_name i) (plan_name p),
     plan_description := given_opt (upi_description i) (plan_description p),
     plan_priceMonthly := given (upi_priceMonthly i) (plan_priceMonthly p),
     plan_priceYearly := given_opt (upi_priceYearly i) (plan_priceYearly p),
     plan_trialDays := given (upi_trialDays i) (plan_trialDays p), plan_isActive := given (upi_isActive i) (plan_isActive p),
     plan_sortOrder := given (upi_sortOrder i) (plan_sortOrder p)\<rparr>"

definition plan_code_conflict :: "exn \<Rightarrow> exn" where
  "plan_code_conflict e = (if e = PrismaKnown P2002 then ConflictException ''Ce code de plan est deja utilise'' else e)"

definition plansAdmin_create :: "catalogue \<Rightarrow> uuid \<Rightarrow> create_plan_input \<Rightarrow> db \<Rightarrow> (exn + plan_admin_view) \<times> db" where
  "plansAdmin_create cat newId input s = (case plan_create (new_plan newId input) s of
     Inl e \<Rightarrow> (Inl (plan_code_conflict e), s)
   | Inr (plan, s') \<Rightarrow> (Inr (plan_toView cat plan), s'))"

text \<open>\<open>others i\<close> is what the rest of the system does to the database between two of the queries.\<close>

definition plansAdmin_update ::
    "catalogue \<Rightarrow> (nat \<Rightarrow> db \<Rightarrow> db) \<Rightarrow> uuid \<Rightarrow> update_plan_input \<Rightarrow> db \<Rightarrow> (exn + plan_admin_view) \<times> db" where
  "plansAdmin_update cat others i input s = (case plansAdmin_findByIdOrThrow cat i s of
     Inl e \<Rightarrow> (Inl e, s)
   | Inr _ \<Rightarrow> (let s1 = others 0 s in case plan_update i (edited_plan input) s1 of
       Inl e \<Rightarrow> (Inl (plan_code_conflict e), s1)
     | Inr (plan, s2) \<Rightarrow> (Inr (plan_toView cat plan), s2)))"

text \<open>The upsert of a row of the plan: what it says of the key, in the place it had or at the end.\<close>

definition planFeature_upsert :: "uuid \<Rightarrow> string \<Rightarrow> bool \<Rightarrow> (db, exn, unit) txn" where
  "planFeature_upsert planId key enabled s = (case find_by plan_id planId (plans s) of
     None \<Rightarrow> Inl (PrismaKnown P2003)
   | Some _ \<Rightarrow> Inr ((), s\<lparr>plans := update_by plan_id planId
       (\<lambda>p. p\<lparr>plan_features := AList.update key enabled (plan_features p)\<rparr>) (plans s)\<rparr>))"

definition planLimit_upsert :: "uuid \<Rightarrow> string \<Rightarrow> int option \<Rightarrow> (db, exn, unit) txn" where
  "planLimit_upsert planId key value s = (case find_by plan_id planId (plans s) of
     None \<Rightarrow> Inl (PrismaKnown P2003)
   | Some _ \<Rightarrow> Inr ((), s\<lparr>plans := update_by plan_id planId
       (\<lambda>p. p\<lparr>plan_limits := AList.update key value (plan_limits p)\<rparr>) (plans s)\<rparr>))"

definition plansAdmin_setFeature ::
    "catalogue \<Rightarrow> (nat \<Rightarrow> db \<Rightarrow> db) \<Rightarrow> uuid \<Rightarrow> string \<Rightarrow> bool \<Rightarrow> db \<Rightarrow> (exn + plan_admin_view) \<times> db" where
  "plansAdmin_setFeature cat others planId featureKey enabled s = (case plansAdmin_findByIdOrThrow cat planId s of
     Inl e \<Rightarrow> (Inl e, s)
   | Inr _ \<Rightarrow> if map_of (cat_features cat) featureKey = None
       then (Inl (NotFoundException (''Feature inconnue : '' @ featureKey)), s)
       else (let s1 = others 0 s in case planFeature_upsert planId featureKey enabled s1 of
           Inl e \<Rightarrow> (Inl e, s1)
         | Inr (_, s2) \<Rightarrow> (let s3 = others 1 s2 in (plansAdmin_findByIdOrThrow cat planId s3, s3))))"

definition plansAdmin_setLimit ::
    "catalogue \<Rightarrow> (nat \<Rightarrow> db \<Rightarrow> db) \<Rightarrow> uuid \<Rightarrow> string \<Rightarrow> int option \<Rightarrow> db \<Rightarrow> (exn + plan_admin_view) \<times> db" where
  "plansAdmin_setLimit cat others planId limitKey value s = (case plansAdmin_findByIdOrThrow cat planId s of
     Inl e \<Rightarrow> (Inl e, s)
   | Inr _ \<Rightarrow> if map_of (cat_limits cat) limitKey = None
       then (Inl (NotFoundException (''Limite inconnue : '' @ limitKey)), s)
       else (let s1 = others 0 s in case planLimit_upsert planId limitKey value s1 of
           Inl e \<Rightarrow> (Inl e, s1)
         | Inr (_, s2) \<Rightarrow> (let s3 = others 1 s2 in (plansAdmin_findByIdOrThrow cat planId s3, s3))))"

section \<open>The service and its routes\<close>

definition plan_audit :: "uuid \<Rightarrow> audit_action \<Rightarrow> string \<Rightarrow> (exn + plan_admin_view) \<times> db \<Rightarrow> (exn + plan_admin_view) \<times> db" where
  "plan_audit actorUserId action resource outcome = (case outcome of
     (Inl e, s) \<Rightarrow> (Inl e, s)
   | (Inr plan, s) \<Rightarrow> (Inr plan, auditLog_record
       \<lparr>audit_userId = Some actorUserId, audit_enterpriseId = None, audit_action = action, audit_resource = resource,
        audit_resourceId = Some (pav_id plan), audit_reason = None\<rparr> s))"

datatype plans_route =
    Plans_list
  | Plans_create create_plan_input
  | Plans_update uuid update_plan_input
  | Plans_setFeature uuid string bool
  | Plans_setLimit uuid string "int option"

fun plansAdmin_service ::
    "catalogue \<Rightarrow> uuid \<Rightarrow> (nat \<Rightarrow> db \<Rightarrow> db) \<Rightarrow> uuid \<Rightarrow> plans_route \<Rightarrow> db \<Rightarrow> (exn + plan_admin_view list) \<times> db" where
  "plansAdmin_service cat newId others userId Plans_list s = (Inr (plansAdmin_findAll cat s), s)"
| "plansAdmin_service cat newId others userId (Plans_create body) s = ZodValidationPipe (createPlanSchema body)
     (\<lambda>s. answering (\<lambda>v. [v]) (plan_audit userId CREATE_PLAN ''Plan'' (plansAdmin_create cat newId body s))) s"
| "plansAdmin_service cat newId others userId (Plans_update i body) s = ZodValidationPipe (updatePlanSchema body)
     (\<lambda>s. answering (\<lambda>v. [v]) (plan_audit userId UPDATE_PLAN ''Plan'' (plansAdmin_update cat others i body s))) s"
| "plansAdmin_service cat newId others userId (Plans_setFeature i key enabled) s =
     answering (\<lambda>v. [v]) (plan_audit userId UPDATE_PLAN_FEATURE ''PlanFeature'' (plansAdmin_setFeature cat others i key enabled s))"
| "plansAdmin_service cat newId others userId (Plans_setLimit i key value) s = ZodValidationPipe (setPlanLimitSchema value)
     (\<lambda>s. answering (\<lambda>v. [v]) (plan_audit userId UPDATE_PLAN_LIMIT ''PlanLimit'' (plansAdmin_setLimit cat others i key value s))) s"

text \<open>Behind JwtAuthGuard and SuperAdminGuard, in this order.\<close>

definition plans_admin_request ::
    "server_config \<Rightarrow> catalogue \<Rightarrow> date \<Rightarrow> uuid \<Rightarrow> (nat \<Rightarrow> db \<Rightarrow> db) \<Rightarrow> string option \<Rightarrow> plans_route \<Rightarrow> server \<Rightarrow>
     (exn + plan_admin_view list) \<times> server" where
  "plans_admin_request cfg cat now newId others authHeader r srv =
     (case JwtAuthGuard_canActivate (jwt_verify cfg) (accountStatusCacheTtlMs cfg) now now id (server_db srv) authHeader (server_status srv) of
        (Inl e, c) \<Rightarrow> (Inl e, srv\<lparr>server_status := c\<rparr>)
      | (Inr user, c) \<Rightarrow> (case SuperAdminGuard_canActivate (Some user) of
          Inl e \<Rightarrow> (Inl e, srv\<lparr>server_status := c\<rparr>)
        | Inr _ \<Rightarrow> (case plansAdmin_service cat newId others (au_id user) r (server_db srv) of
            (outcome, s) \<Rightarrow> (outcome, srv\<lparr>server_db := s, server_status := c\<rparr>))))"

section \<open>The public list\<close>

record public_plan =
  pub_id :: uuid
  pub_code :: string
  pub_name :: string
  pub_description :: "string option"
  pub_priceMonthly :: int
  pub_priceYearly :: "int option"
  pub_trialDays :: int
  pub_maxUsers :: "int option"

definition plans_listActive :: "db \<Rightarrow> public_plan list" where
  "plans_listActive s = map (\<lambda>plan.
     \<lparr>pub_id = plan_id plan, pub_code = plan_code plan, pub_name = plan_name plan, pub_description = plan_description plan,
      pub_priceMonthly = plan_priceMonthly plan, pub_priceYearly = plan_priceYearly plan, pub_trialDays = plan_trialDays plan,
      pub_maxUsers = (case filter (\<lambda>(key, _). key = ''users'') (plan_limits plan) of [] \<Rightarrow> None | (_, value) # _ \<Rightarrow> value)\<rparr>)
     (sort_key plan_sortOrder (filter plan_isActive (plans s)))"

section \<open>The catalogue stays in order\<close>

definition plan_wf :: "catalogue \<Rightarrow> plan \<Rightarrow> bool" where
  "plan_wf cat p \<longleftrightarrow> plan_code p \<noteq> [] \<and> 0 \<le> plan_priceMonthly p \<and> (\<forall>x\<in>set_option (plan_priceYearly p). 0 \<le> x) \<and> 0 \<le> plan_trialDays p \<and>
     distinct (map fst (plan_features p)) \<and> fst ` set (plan_features p) \<subseteq> fst ` set (cat_features cat) \<and>
     distinct (map fst (plan_limits p)) \<and> fst ` set (plan_limits p) \<subseteq> fst ` set (cat_limits cat) \<and>
     (\<forall>(k, v)\<in>set (plan_limits p). \<forall>x\<in>set_option v. 0 \<le> x)"

definition catalogue_wf :: "catalogue \<Rightarrow> plan list \<Rightarrow> bool" where
  "catalogue_wf cat ps \<longleftrightarrow> distinct (map plan_id ps) \<and> distinct (map plan_code ps) \<and> (\<forall>p\<in>set ps. plan_wf cat p)"

lemma set_update_distinct: "distinct (map fst xs) \<Longrightarrow> set (AList.update k v xs) = insert (k, v) {x \<in> set xs. fst x \<noteq> k}"
  by (induction xs) (auto simp: rev_image_eqI)

lemma plan_wf_new: "createPlanSchema i \<Longrightarrow> plan_wf cat (new_plan newId i)"
  by (auto simp: createPlanSchema_def plan_wf_def new_plan_def)

lemma plan_wf_edited: "updatePlanSchema i \<Longrightarrow> plan_wf cat p \<Longrightarrow> plan_wf cat (edited_plan i p)"
  by (auto simp: updatePlanSchema_def plan_wf_def edited_plan_def given_def given_opt_def split: option.splits)

lemma edited_plan_id [simp]: "plan_id (edited_plan i p) = plan_id p"
  by (simp add: edited_plan_def)

lemma plan_wf_feature:
  "k \<in> fst ` set (cat_features cat) \<Longrightarrow> plan_wf cat p \<Longrightarrow> plan_wf cat (p\<lparr>plan_features := AList.update k b (plan_features p)\<rparr>)"
  by (auto simp: plan_wf_def distinct_update set_update_distinct)

lemma plan_wf_limit:
  "k \<in> fst ` set (cat_limits cat) \<Longrightarrow> setPlanLimitSchema v \<Longrightarrow> plan_wf cat p \<Longrightarrow>
   plan_wf cat (p\<lparr>plan_limits := AList.update k v (plan_limits p)\<rparr>)"
  by (auto simp: plan_wf_def distinct_update set_update_distinct setPlanLimitSchema_def)

lemma catalogue_wf_update:
  assumes "catalogue_wf cat ps" and "\<And>p. plan_id (f p) = plan_id p" and "\<And>p. plan_wf cat p \<Longrightarrow> plan_wf cat (f p)"
    and "find_by plan_id i ps = Some plan" and "\<not> (\<exists>p\<in>set ps. plan_id p \<noteq> i \<and> plan_code p = plan_code (f plan))"
  shows "catalogue_wf cat (update_by plan_id i f ps)"
proof -
  have unique: "p = plan" if "p \<in> set ps" "plan_id p = i" for p
    using assms(1,4) that find_by_distinct[of plan_id ps p] by (simp add: catalogue_wf_def)
  have "inj_on (\<lambda>p. plan_code (if plan_id p = i then f p else p)) (set ps)"
  proof (rule inj_onI)
    fix p q
    assume pq: "p \<in> set ps" "q \<in> set ps"
      "plan_code (if plan_id p = i then f p else p) = plan_code (if plan_id q = i then f q else q)"
    have inj: "inj_on plan_code (set ps)" using assms(1) by (simp add: catalogue_wf_def distinct_map)
    consider "plan_id p = i" "plan_id q = i" | "plan_id p = i" "plan_id q \<noteq> i" | "plan_id p \<noteq> i" "plan_id q = i" | "plan_id p \<noteq> i" "plan_id q \<noteq> i"
      by blast
    then show "p = q"
    proof cases
      case 1
      then show ?thesis using unique[OF pq(1)] unique[OF pq(2)] by simp
    next
      case 2
      have "p = plan" using unique[OF pq(1)] 2(1) by simp
      then have "plan_code q = plan_code (f plan)" using pq(3) 2 by simp
      then show ?thesis using assms(5) pq(2) 2(2) by blast
    next
      case 3
      have "q = plan" using unique[OF pq(2)] 3(2) by simp
      then have "plan_code p = plan_code (f plan)" using pq(3) 3 by simp
      then show ?thesis using assms(5) pq(1) 3(1) by blast
    next
      case 4
      then have "plan_code p = plan_code q" using pq(3) by simp
      then show ?thesis by (rule inj_onD[OF inj _ pq(1,2)])
    qed
  qed
  moreover have "distinct ps" using assms(1) by (simp add: catalogue_wf_def distinct_map)
  ultimately have "distinct (map plan_code (update_by plan_id i f ps))"
    unfolding update_by_def map_map distinct_map comp_def by blast
  moreover have "map plan_id (update_by plan_id i f ps) = map plan_id ps" by (rule map_update_by) (rule assms(2))
  moreover have "\<forall>p\<in>set (update_by plan_id i f ps). plan_wf cat p"
    by (rule Ball_update_by) (use assms(1,3) in \<open>simp_all add: catalogue_wf_def\<close>)
  ultimately show ?thesis using assms(1) by (simp add: catalogue_wf_def)
qed

lemma catalogue_wf_same_code:
  assumes "catalogue_wf cat ps" and "find_by plan_id i ps = Some plan"
  shows "\<not> (\<exists>p\<in>set ps. plan_id p \<noteq> i \<and> plan_code p = plan_code plan)"
proof -
  have "inj_on plan_code (set ps)" using assms(1) by (simp add: catalogue_wf_def distinct_map)
  then show ?thesis using find_by_SomeD[OF assms(2)] by (metis inj_onD)
qed

lemma plan_create_wf:
  assumes "plan_create row s = Inr (p, s')" and "catalogue_wf cat (plans s)" and "plan_wf cat row"
  shows "catalogue_wf cat (plans s')"
proof -
  have "plans s' = plans s @ [row]" "plan_id row \<notin> plan_id ` set (plans s)" "plan_code row \<notin> plan_code ` set (plans s)"
    using assms(1) by (auto simp: plan_create_def split: if_splits)
  then show ?thesis using assms(2,3) by (simp add: catalogue_wf_def)
qed

lemma plan_update_wf:
  assumes "plan_update i f s = Inr (p, s')" and "catalogue_wf cat (plans s)" and "\<And>p. plan_id (f p) = plan_id p"
    and "\<And>p. plan_wf cat p \<Longrightarrow> plan_wf cat (f p)"
  shows "catalogue_wf cat (plans s')"
proof -
  obtain plan where "find_by plan_id i (plans s) = Some plan" "s' = s\<lparr>plans := update_by plan_id i f (plans s)\<rparr>"
    "\<not> (\<exists>p\<in>set (plans s). plan_id p \<noteq> i \<and> plan_code p = plan_code (f plan))"
    using assms(1) by (auto simp: plan_update_def split: option.splits if_splits)
  then show ?thesis using catalogue_wf_update[OF assms(2-4)] by simp
qed

lemma plan_switch_wf:
  assumes "find_by plan_id i (plans s) = Some plan" and "catalogue_wf cat (plans s)" and "\<And>p. plan_id (f p) = plan_id p"
    and "\<And>p. plan_code (f p) = plan_code p" and "\<And>p. plan_wf cat p \<Longrightarrow> plan_wf cat (f p)"
  shows "catalogue_wf cat (update_by plan_id i f (plans s))"
  by (rule catalogue_wf_update[where plan = plan]) (use assms catalogue_wf_same_code[OF assms(2,1)] in simp_all)

lemma plansAdmin_create_wf:
  assumes "catalogue_wf cat (plans s)" and "createPlanSchema input"
  shows "catalogue_wf cat (plans (snd (plansAdmin_create cat newId input s)))"
  using assms plan_create_wf[OF _ assms(1) plan_wf_new[OF assms(2)]]
  by (simp add: plansAdmin_create_def split: sum.splits prod.splits)

lemma plansAdmin_update_wf:
  assumes "catalogue_wf cat (plans s)" and others: "\<And>i s. catalogue_wf cat (plans s) \<Longrightarrow> catalogue_wf cat (plans (others i s))"
    and "updatePlanSchema input"
  shows "catalogue_wf cat (plans (snd (plansAdmin_update cat others i input s)))"
proof -
  have "catalogue_wf cat (plans s')" if "plan_update i (edited_plan input) (others 0 s) = Inr (p, s')" for p s'
    by (rule plan_update_wf[OF that others[OF assms(1)]]) (simp_all add: plan_wf_edited[OF assms(3)])
  then show ?thesis using assms(1) others[OF assms(1)]
    by (simp add: plansAdmin_update_def Let_def split: sum.splits prod.splits)
qed

lemma plansAdmin_setFeature_wf:
  assumes "catalogue_wf cat (plans s)" and others: "\<And>i s. catalogue_wf cat (plans s) \<Longrightarrow> catalogue_wf cat (plans (others i s))"
  shows "catalogue_wf cat (plans (snd (plansAdmin_setFeature cat others i k b s)))"
proof (cases "map_of (cat_features cat) k = None")
  case False
  then have k: "k \<in> fst ` set (cat_features cat)" by (simp add: map_of_eq_None_iff)
  have "catalogue_wf cat (plans s')" if "planFeature_upsert i k b (others 0 s) = Inr (p, s')" for p s'
    using that plan_switch_wf[OF _ others[OF assms(1)]] plan_wf_feature[OF k] by (auto simp: planFeature_upsert_def split: option.splits)
  then show ?thesis using assms(1) others[OF assms(1)] others
    by (simp add: plansAdmin_setFeature_def Let_def split: sum.splits prod.splits)
qed (use assms(1) in \<open>simp add: plansAdmin_setFeature_def split: sum.splits\<close>)

lemma plansAdmin_setLimit_wf:
  assumes "catalogue_wf cat (plans s)" and others: "\<And>i s. catalogue_wf cat (plans s) \<Longrightarrow> catalogue_wf cat (plans (others i s))"
    and "setPlanLimitSchema v"
  shows "catalogue_wf cat (plans (snd (plansAdmin_setLimit cat others i k v s)))"
proof (cases "map_of (cat_limits cat) k = None")
  case False
  then have k: "k \<in> fst ` set (cat_limits cat)" by (simp add: map_of_eq_None_iff)
  have "catalogue_wf cat (plans s')" if "planLimit_upsert i k v (others 0 s) = Inr (p, s')" for p s'
    using that plan_switch_wf[OF _ others[OF assms(1)]] plan_wf_limit[OF k assms(3)] by (auto simp: planLimit_upsert_def split: option.splits)
  then show ?thesis using assms(1) others[OF assms(1)] others
    by (simp add: plansAdmin_setLimit_def Let_def split: sum.splits prod.splits)
qed (use assms(1) in \<open>simp add: plansAdmin_setLimit_def split: sum.splits\<close>)

lemma audited_plans [simp]: "plans (snd (plan_audit u a res outcome)) = plans (snd outcome)"
  by (simp add: plan_audit_def auditLog_record_def split: prod.splits sum.splits)

lemma plansAdmin_service_wf:
  assumes "catalogue_wf cat (plans s)" and others: "\<And>i s. catalogue_wf cat (plans s) \<Longrightarrow> catalogue_wf cat (plans (others i s))"
  shows "catalogue_wf cat (plans (snd (plansAdmin_service cat newId others u r s)))"
  using assms(1) by (cases r)
    (simp_all add: ZodValidationPipe_def plansAdmin_create_wf plansAdmin_update_wf plansAdmin_setFeature_wf plansAdmin_setLimit_wf others)

section \<open>Who edits\<close>

fun plans_action :: "plans_route \<Rightarrow> audit_action" where
  "plans_action (Plans_create _) = CREATE_PLAN"
| "plans_action (Plans_update _ _) = UPDATE_PLAN"
| "plans_action (Plans_setFeature _ _ _) = UPDATE_PLAN_FEATURE"
| "plans_action _ = UPDATE_PLAN_LIMIT"

lemma plan_audit_last:
  assumes "plan_audit u action resource outcome = (Inr v, s')"
  shows "auditLogs s' \<noteq> [] \<and> audit_userId (last (auditLogs s')) = Some u \<and> audit_action (last (auditLogs s')) = action"
  using assms by (auto simp: plan_audit_def auditLog_record_def split: prod.splits sum.splits)

lemma plansAdmin_service_audited:
  assumes "plansAdmin_service cat newId others u r s = (Inr views, s')" and "r \<noteq> Plans_list"
  shows "auditLogs s' \<noteq> [] \<and> audit_userId (last (auditLogs s')) = Some u \<and> audit_action (last (auditLogs s')) = plans_action r"
proof -
  have trace: "auditLogs s' \<noteq> [] \<and> audit_userId (last (auditLogs s')) = Some u \<and> audit_action (last (auditLogs s')) = action"
    if out: "answering (\<lambda>v. [v]) (plan_audit u action resource outcome) = (Inr views, s')" for action resource outcome
  proof -
    have "snd (plan_audit u action resource outcome) = s'" using arg_cong[OF out, of snd] by simp
    then obtain res where "plan_audit u action resource outcome = (res, s')" by (metis prod.collapse)
    moreover then obtain v where "res = Inr v" using out by (cases res) (simp_all add: answering_def)
    ultimately show ?thesis using plan_audit_last by blast
  qed
  show ?thesis using assms by (cases r) (auto simp: ZodValidationPipe_def dest!: trace split: if_splits)
qed

section \<open>Properties\<close>

text \<open>
  The catalogue of plans stays in order under any sequence of requests, interleaved with anything that keeps
  it in order: identifiers and codes are unique, prices, trials and limits are not negative, a plan says at
  most one thing of a feature or limit, and only of those the platform knows.
\<close>

definition plansAdmin_serve ::
    "server_config \<Rightarrow> catalogue \<Rightarrow> date \<times> uuid \<times> (nat \<Rightarrow> db \<Rightarrow> db) \<times> string option \<times> plans_route \<Rightarrow> server \<Rightarrow> server" where
  "plansAdmin_serve cfg cat call srv = (case call of (now, newId, others, h, r) \<Rightarrow> snd (plans_admin_request cfg cat now newId others h r srv))"

lemma plans_admin_request_wf:
  assumes "catalogue_wf cat (plans (server_db srv))"
    and "\<And>i s. catalogue_wf cat (plans s) \<Longrightarrow> catalogue_wf cat (plans (others i s))"
  shows "catalogue_wf cat (plans (server_db (snd (plans_admin_request cfg cat now newId others h r srv))))"
proof -
  have "catalogue_wf cat (plans s')" if "plansAdmin_service cat newId others u r (server_db srv) = (res, s')" for u res s'
    using plansAdmin_service_wf[of cat "server_db srv" others newId u r] assms that by simp
  then show ?thesis using assms(1) by (simp add: plans_admin_request_def split: prod.splits sum.splits)
qed

theorem catalogue_stays_in_order:
  assumes "catalogue_wf cat (plans (server_db srv))"
    and "\<And>now newId others h r i s. (now, newId, others, h, r) \<in> set calls \<Longrightarrow> catalogue_wf cat (plans s) \<Longrightarrow>
      catalogue_wf cat (plans (others i s))"
  shows "catalogue_wf cat (plans (server_db (fold (plansAdmin_serve cfg cat) calls srv)))"
  using assms
proof (induction calls arbitrary: srv)
  case (Cons call calls)
  obtain now newId others h r where call: "call = (now, newId, others, h, r)" by (metis prod_cases5)
  have "catalogue_wf cat (plans (server_db (plansAdmin_serve cfg cat call srv)))"
    unfolding plansAdmin_serve_def call prod.case
    by (rule plans_admin_request_wf[OF Cons.prems(1)]) (use Cons.prems(2) call in \<open>meson list.set_intros(1)\<close>)
  then show ?case using Cons.IH Cons.prems(2) by (metis (no_types, lifting) fold_simps(2) list.set_intros(2))
qed simp

text \<open>
  C18. Only a super administrator edits the catalogue, and never without a trace: unless the request carries a
  verified token of an active account with the super administrator's claim, it is refused and the database
  stays as it was; and an edit that is answered has left, as the newest audit entry, who did what.
\<close>

theorem plan_edits_are_audited:
  assumes "plans_admin_request cfg cat now newId others h r srv = (res, srv')"
  shows "(\<exists>e. res = Inl e) \<and> server_db srv' = server_db srv \<or>
     (\<exists>token payload. bearer_token h = Some token \<and> verifyAccessToken (jwt_verify cfg) token = Inr payload \<and> token_isSuperAdmin payload \<and>
        fst (isAccountActive (accountStatusCacheTtlMs cfg) now now id (server_db srv) (token_sub payload) (server_status srv)) \<and>
        (\<forall>views. res = Inr views \<longrightarrow> r = Plans_list \<and> server_db srv' = server_db srv \<or>
           auditLogs (server_db srv') \<noteq> [] \<and> audit_userId (last (auditLogs (server_db srv'))) = Some (token_sub payload) \<and>
           audit_action (last (auditLogs (server_db srv'))) = plans_action r))"
proof (cases "JwtAuthGuard_canActivate (jwt_verify cfg) (accountStatusCacheTtlMs cfg) now now id (server_db srv) h (server_status srv)")
  case (Pair who c)
  show ?thesis
  proof (cases who)
    case (Inl e)
    then show ?thesis using assms Pair by (auto simp: plans_admin_request_def)
  next
    case (Inr user)
    from Pair Inr obtain token payload where p: "bearer_token h = Some token" "verifyAccessToken (jwt_verify cfg) token = Inr payload"
      "user = \<lparr>au_id = token_sub payload, au_enterpriseId = token_enterpriseId payload, au_isSuperAdmin = token_isSuperAdmin payload\<rparr>"
      "fst (isAccountActive (accountStatusCacheTtlMs cfg) now now id (server_db srv) (token_sub payload) (server_status srv))"
      by (auto simp: JwtAuthGuard_canActivate_def split: option.splits sum.splits prod.splits if_splits)
    show ?thesis
    proof (cases "token_isSuperAdmin payload")
      case False
      then show ?thesis using assms Pair Inr p(3) by (auto simp: plans_admin_request_def SuperAdminGuard_canActivate_def)
    next
      case True
      obtain s' where out: "plansAdmin_service cat newId others (token_sub payload) r (server_db srv) = (res, s')" "server_db srv' = s'"
        using assms Pair Inr p(3) True
        by (cases "plansAdmin_service cat newId others (token_sub payload) r (server_db srv)")
          (auto simp: plans_admin_request_def SuperAdminGuard_canActivate_def)
      have "r = Plans_list \<Longrightarrow> s' = server_db srv" using out(1) by auto
      moreover have "r \<noteq> Plans_list \<Longrightarrow> res = Inr views \<Longrightarrow> auditLogs s' \<noteq> [] \<and>
          audit_userId (last (auditLogs s')) = Some (token_sub payload) \<and> audit_action (last (auditLogs s')) = plans_action r" for views
        using out(1) plansAdmin_service_audited by simp
      ultimately have "\<forall>views. res = Inr views \<longrightarrow> r = Plans_list \<and> server_db srv' = server_db srv \<or>
           auditLogs (server_db srv') \<noteq> [] \<and> audit_userId (last (auditLogs (server_db srv'))) = Some (token_sub payload) \<and>
           audit_action (last (auditLogs (server_db srv'))) = plans_action r" unfolding out(2) by blast
      then show ?thesis using p(1,2,4) True by blast
    qed
  qed
qed

text \<open>The subscription of an enterprise and its plan, as the entitlements see them.\<close>

definition subscribed :: "uuid \<Rightarrow> db \<Rightarrow> (subscription \<times> plan) option" where
  "subscribed e s = (case find_by ent_id e (enterprises (rls e s)) of None \<Rightarrow> None
     | Some enterprise \<Rightarrow> (case current_subscription enterprise (rls e s) of Inr x \<Rightarrow> x | Inl _ \<Rightarrow> None))"

lemma subscribed_resolve: "subscribed e s = Some (sub, plan) \<Longrightarrow> entitlements_resolve e s = Inr (entitlements_of sub plan)"
  by (auto simp: subscribed_def entitlements_resolve_def Let_def split: option.splits sum.splits)

lemma subscribed_plan: "subscribed e s = Some (sub, plan) \<Longrightarrow> find_by plan_id (plan_id plan) (plans s) = Some plan"
  by (auto simp: subscribed_def current_subscription_def rls_def split: option.splits sum.splits) (metis find_by_SomeD)

lemma subscribed_switch:
  assumes "subscribed e s = Some (sub, plan)" and "\<And>p. plan_id (f p) = plan_id p"
  shows "subscribed e (s\<lparr>plans := update_by plan_id i f (plans s), auditLogs := logs\<rparr>) =
    Some (sub, if plan_id plan = i then f plan else plan)"
proof -
  let ?t = "s\<lparr>plans := update_by plan_id i f (plans s), auditLogs := logs\<rparr>"
  have same: "enterprises (rls e ?t) = enterprises (rls e s)" "subscriptions (rls e ?t) = subscriptions (rls e s)" by (simp_all add: rls_def)
  have plans: "plans (rls e ?t) = update_by plan_id i f (plans (rls e s))" by (simp add: rls_def)
  obtain enterprise j where ent: "find_by ent_id e (enterprises (rls e s)) = Some enterprise" "ent_currentSubscriptionId enterprise = Some j"
    "find_by subscription_id j (subscriptions (rls e s)) = Some sub" "find_by plan_id (subscription_planId sub) (plans (rls e s)) = Some plan"
    using assms(1) by (auto simp: subscribed_def current_subscription_def split: option.splits sum.splits)
  then have "plan_id plan = subscription_planId sub" using find_by_SomeD by fastforce
  then have "find_by plan_id (subscription_planId sub) (plans (rls e ?t)) = Some (if plan_id plan = i then f plan else plan)"
    unfolding plans find_by_update_by[of plan_id f, OF assms(2)] using ent(4) by auto
  then show ?thesis using ent unfolding subscribed_def current_subscription_def same by simp
qed

lemma entl_features_set: "set (entl_features (entitlements_of sub plan)) = {k. (k, True) \<in> set (plan_features plan)}"
  by (force simp: entitlements_of_def)

lemma switched_features:
  assumes "distinct (map fst (plan_features plan))"
  shows "set (entl_features (entitlements_of sub (plan\<lparr>plan_features := AList.update key enabled (plan_features plan)\<rparr>))) =
    (if enabled then insert key (set (entl_features (entitlements_of sub plan))) else set (entl_features (entitlements_of sub plan)) - {key})"
  unfolding entl_features_set by (auto simp: set_update_distinct[OF assms])

lemma feature_switch_db:
  assumes "plans_admin_request cfg cat now newId (\<lambda>_ s. s) h (Plans_setFeature planId key enabled) srv = (Inr views, srv')"
  obtains logs where "server_db srv' = (server_db srv)\<lparr>plans := update_by plan_id planId
    (\<lambda>p. p\<lparr>plan_features := AList.update key enabled (plan_features p)\<rparr>) (plans (server_db srv)), auditLogs := logs\<rparr>"
proof -
  let ?s = "server_db srv"
  obtain u s' where out: "plansAdmin_service cat newId (\<lambda>_ s. s) u (Plans_setFeature planId key enabled) ?s = (Inr views, s')" "server_db srv' = s'"
    using assms by (auto simp: plans_admin_request_def split: prod.splits sum.splits)
  then obtain v s2 where "plansAdmin_setFeature cat (\<lambda>_ s. s) planId key enabled ?s = (Inr v, s2)" "\<exists>a. auditLog_record a s2 = s'"
    by (cases "plansAdmin_setFeature cat (\<lambda>_ s. s) planId key enabled ?s")
      (simp add: answering_def plan_audit_def split: sum.splits, blast)
  then have "\<exists>logs. s' = ?s\<lparr>plans := update_by plan_id planId
      (\<lambda>p. p\<lparr>plan_features := AList.update key enabled (plan_features p)\<rparr>) (plans ?s), auditLogs := logs\<rparr>"
    by (auto simp: plansAdmin_setFeature_def planFeature_upsert_def auditLog_record_def Let_def split: sum.splits if_splits option.splits)
  then show thesis using that out(2) by blast
qed

text \<open>
  C17. Switching a feature of a plan changes exactly that: for the enterprises subscribed to the plan the guard of
  this feature lets pass or refuses as switched, and every other answer of the guard, for any enterprise and any
  feature, stays the same.
\<close>

theorem feature_switch_exact:
  assumes "plans_admin_request cfg cat now newId (\<lambda>_ s. s) h (Plans_setFeature planId key enabled) srv = (Inr views, srv')"
    and "catalogue_wf cat (plans (server_db srv))" and "subscribed e (server_db srv) = Some (sub, plan)" and "k \<noteq> []"
  shows "FeatureGuard_canActivate (Some k) (entitlements_resolve e (server_db srv')) =
     (if plan_id plan = planId \<and> k = key
      then if enabled then Inr () else Inl (ForbiddenException (''Fonctionnalite non disponible pour votre forfait : '' @ k))
      else FeatureGuard_canActivate (Some k) (entitlements_resolve e (server_db srv)))"
proof -
  let ?f = "\<lambda>p. p\<lparr>plan_features := AList.update key enabled (plan_features p)\<rparr>"
  obtain logs where s': "server_db srv' = (server_db srv)\<lparr>plans := update_by plan_id planId ?f (plans (server_db srv)), auditLogs := logs\<rparr>"
    using assms(1) by (rule feature_switch_db)
  have after: "entitlements_resolve e (server_db srv') = Inr (entitlements_of sub (if plan_id plan = planId then ?f plan else plan))"
    unfolding s' by (rule subscribed_resolve, rule subscribed_switch[OF assms(3)]) simp
  have "plan \<in> set (plans (server_db srv))" using subscribed_plan[OF assms(3)] find_by_SomeD by fast
  then have "distinct (map fst (plan_features plan))" using assms(2) by (simp add: catalogue_wf_def plan_wf_def)
  note features = switched_features[OF this, of sub key enabled]
  show ?thesis
    unfolding after subscribed_resolve[OF assms(3)] using assms(4) features by (auto simp: FeatureGuard_canActivate_def)
qed

text \<open>
  C19. The public list keeps its word: the seats it announces for an active plan are the seats the guard grants an
  enterprise subscribed to it, and no number announced means no limit.
\<close>

lemma entl_limit:
  assumes "distinct (map fst xs)"
  shows "map_of (foldl (\<lambda>m (k, v). AList.update k v m) ys xs) k = (case map_of xs k of None \<Rightarrow> map_of ys k | Some v \<Rightarrow> Some v)"
  using assms
proof (induction xs arbitrary: ys)
  case (Cons x xs)
  obtain a b where x: "x = (a, b)" by fastforce
  have "map_of (foldl (\<lambda>m (k, v). AList.update k v m) (AList.update a b ys) xs) k =
      (case map_of xs k of None \<Rightarrow> map_of (AList.update a b ys) k | Some v \<Rightarrow> Some v)"
    using Cons by simp
  moreover have "k = a \<Longrightarrow> map_of xs k = None" using Cons.prems x by (simp add: map_of_eq_None_iff)
  ultimately show ?case using x by (cases "k = a") (simp_all add: update_conv' split: option.splits)
qed simp

lemma map_of_filter_head:
  "(case filter (\<lambda>(key, _). key = k) xs of [] \<Rightarrow> None | (_, value) # _ \<Rightarrow> value) = (case map_of xs k of None \<Rightarrow> None | Some v \<Rightarrow> v)"
  by (induction xs) auto

theorem advertised_seats_enforced:
  assumes "catalogue_wf cat (plans s)" and "pub \<in> set (plans_listActive s)"
    and "subscribed e s = Some (sub, plan)" and "plan_id plan = pub_id pub" and "store_tenantId st = e"
  shows "LimitGuard_canActivate (Some st) (Some ''users'') (entitlements_resolve e s) s =
     (case pub_maxUsers pub of
        None \<Rightarrow> Inr ()
      | Some n \<Rightarrow> if n \<le> int (length (filter (\<lambda>u. user_enterpriseId u = Some e) (users s)))
          then Inl (ForbiddenException ''Quota atteint pour users'') else Inr ())"
proof -
  from assms(2) obtain p where p: "p \<in> set (plans s)" "pub_id pub = plan_id p"
    "pub_maxUsers pub = (case filter (\<lambda>(key, _). key = ''users'') (plan_limits p) of [] \<Rightarrow> None | (_, value) # _ \<Rightarrow> value)"
    by (auto simp: plans_listActive_def)
  have "p = plan" using subscribed_plan[OF assms(3)] assms(1,4) p(1,2) find_by_distinct[of plan_id "plans s" p] by (simp add: catalogue_wf_def)
  then have pub: "pub_maxUsers pub = (case map_of (plan_limits plan) ''users'' of None \<Rightarrow> None | Some v \<Rightarrow> v)"
    using p(3) by (simp add: map_of_filter_head)
  have "distinct (map fst (plan_limits plan))" using assms(1) p(1) \<open>p = plan\<close> by (simp add: catalogue_wf_def plan_wf_def)
  then have "map_of (entl_limits (entitlements_of sub plan)) ''users'' = map_of (plan_limits plan) ''users''"
    by (simp add: entitlements_of_def entl_limit split: option.splits)
  then show ?thesis unfolding subscribed_resolve[OF assms(3)]
    by (simp add: LimitGuard_canActivate_def pub USAGE_COUNTERS_def getRequiredTenantId_def rls_def assms(5) split: option.splits)
qed

section \<open>A catalogue to try them on\<close>

definition ax_catalogue :: catalogue where
  "ax_catalogue = \<lparr>cat_features = [(''sales'', ''Ventes''), (''stock'', ''Stocks'')], cat_limits = [(''users'', ''Utilisateurs'')]\<rparr>"

definition ax_admin :: user where
  "ax_admin = gx_user\<lparr>user_id := ''u0'', user_email := ''root@erp'', user_enterpriseId := None, user_isSuperAdmin := True\<rparr>"

definition ax_server :: server where
  "ax_server = gx_server\<lparr>server_db := (server_db gx_server)\<lparr>users := [gx_user, ax_admin]\<rparr>\<rparr>"

definition ax_config :: server_config where
  "ax_config = gx_config\<lparr>jwt_verify := (\<lambda>t. if t = ''root'' then Some (access_claims ''u0'' None True) else jwt_verify gx_config t)\<rparr>"

definition ax_input :: create_plan_input where
  "ax_input = \<lparr>cpi_code = ''MINI'', cpi_name = ''Mini'', cpi_description = None, cpi_priceMonthly = 5000, cpi_priceYearly = None,
     cpi_trialDays = 7, cpi_isActive = True, cpi_sortOrder = 1\<rparr>"

definition ax_calls :: "(date \<times> uuid \<times> (nat \<Rightarrow> db \<Rightarrow> db) \<times> string option \<times> plans_route) list" where
  "ax_calls = [(1, ''n1'', \<lambda>_ s. s, Some ''Bearer root'', Plans_create ax_input), (2, ''n2'', \<lambda>_ s. s, Some ''Bearer root'', Plans_create ax_input),
     (3, ''n3'', \<lambda>_ s. s, Some ''Bearer root'', Plans_setFeature ''n1'' ''stock'' True), (4, ''n4'', \<lambda>_ s. s, Some ''Bearer tok'', Plans_create ax_input)]"

lemma ax_plans: "plans (server_db ax_server) = [fx_plan ''PRO'' ''PRO'' 10, fx_plan ''FREE'' ''FREE'' 1]"
  by (simp add: ax_server_def gx_server_def fx_billing_db_def)

lemma ax_catalogue_wf: "catalogue_wf ax_catalogue (plans (server_db ax_server))"
  by (simp add: catalogue_wf_def plan_wf_def ax_plans fx_plan_def ax_catalogue_def)

theorem catalogue_stays_in_order_witness:
  "catalogue_wf ax_catalogue (plans (server_db (fold (plansAdmin_serve ax_config ax_catalogue) ax_calls ax_server))) \<and>
   map plan_code (plans (server_db (fold (plansAdmin_serve ax_config ax_catalogue) ax_calls ax_server))) = [''PRO'', ''FREE'', ''MINI'']"
proof
  show "catalogue_wf ax_catalogue (plans (server_db (fold (plansAdmin_serve ax_config ax_catalogue) ax_calls ax_server)))"
    by (rule catalogue_stays_in_order[OF ax_catalogue_wf]) (auto simp: ax_calls_def)
  show "map plan_code (plans (server_db (fold (plansAdmin_serve ax_config ax_catalogue) ax_calls ax_server))) = [''PRO'', ''FREE'', ''MINI'']"
    by code_simp
qed

theorem plan_edits_are_audited_witness:
  "audit_userId (last (auditLogs (server_db (snd (plans_admin_request ax_config ax_catalogue 1 ''n1'' (\<lambda>_ s. s) (Some ''Bearer root'')
      (Plans_setFeature ''PRO'' ''stock'' True) ax_server))))) = Some ''u0''"
proof -
  have "\<not> (case fst (plans_admin_request ax_config ax_catalogue 1 ''n1'' (\<lambda>_ s. s) (Some ''Bearer root'') (Plans_setFeature ''PRO'' ''stock'' True) ax_server)
      of Inl _ \<Rightarrow> True | Inr _ \<Rightarrow> False)" by code_simp
  then obtain views srv' where out: "plans_admin_request ax_config ax_catalogue 1 ''n1'' (\<lambda>_ s. s) (Some ''Bearer root'')
      (Plans_setFeature ''PRO'' ''stock'' True) ax_server = (Inr views, srv')"
    by (metis prod.collapse sum.case(1) sum.exhaust)
  have token: "bearer_token (Some ''Bearer root'') = Some token \<Longrightarrow> verifyAccessToken (jwt_verify ax_config) token = Inr payload \<Longrightarrow>
      token_sub payload = ''u0''" for token payload
    by (auto simp: bearer_token_def verifyAccessToken_def ax_config_def access_claims_def)
  show ?thesis using plan_edits_are_audited[OF out] token unfolding out by auto
qed

theorem feature_switch_exact_witness:
  "FeatureGuard_canActivate (Some ''stock'') (entitlements_resolve ''e1'' (server_db (snd (plans_admin_request ax_config ax_catalogue 1 ''n1'' (\<lambda>_ s. s)
      (Some ''Bearer root'') (Plans_setFeature ''PRO'' ''stock'' True) ax_server)))) = Inr () \<and>
   FeatureGuard_canActivate (Some ''stock'') (entitlements_resolve ''e1'' (server_db ax_server)) \<noteq> Inr ()"
proof
  have "\<not> (case fst (plans_admin_request ax_config ax_catalogue 1 ''n1'' (\<lambda>_ s. s) (Some ''Bearer root'') (Plans_setFeature ''PRO'' ''stock'' True) ax_server)
      of Inl _ \<Rightarrow> True | Inr _ \<Rightarrow> False)" by code_simp
  then obtain views srv' where out: "plans_admin_request ax_config ax_catalogue 1 ''n1'' (\<lambda>_ s. s) (Some ''Bearer root'')
      (Plans_setFeature ''PRO'' ''stock'' True) ax_server = (Inr views, srv')"
    by (metis prod.collapse sum.case(1) sum.exhaust)
  have sub: "subscribed ''e1'' (server_db ax_server) = Some (fx_subscription Sub_ACTIVE ''PRO'', fx_plan ''PRO'' ''PRO'' 10)" by code_simp
  show "FeatureGuard_canActivate (Some ''stock'') (entitlements_resolve ''e1'' (server_db (snd (plans_admin_request ax_config ax_catalogue 1 ''n1''
      (\<lambda>_ s. s) (Some ''Bearer root'') (Plans_setFeature ''PRO'' ''stock'' True) ax_server)))) = Inr ()"
    using feature_switch_exact[OF out ax_catalogue_wf sub, of "''stock''"] unfolding out by (simp add: fx_plan_def)
  show "FeatureGuard_canActivate (Some ''stock'') (entitlements_resolve ''e1'' (server_db ax_server)) \<noteq> Inr ()" by code_simp
qed

theorem advertised_seats_enforced_witness:
  "map (\<lambda>pub. (pub_code pub, pub_maxUsers pub)) (plans_listActive (server_db ax_server)) = [(''PRO'', Some 10), (''FREE'', Some 1)] \<and>
   LimitGuard_canActivate (Some \<lparr>store_tenantId = ''e1'', store_userId = ''u1'', store_isSuperAdmin = False\<rparr>) (Some ''users'')
     (entitlements_resolve ''e1'' (server_db ax_server)) (server_db ax_server) = Inr ()"
proof
  let ?s = "server_db ax_server"
  show list: "map (\<lambda>pub. (pub_code pub, pub_maxUsers pub)) (plans_listActive ?s) = [(''PRO'', Some 10), (''FREE'', Some 1)]" by code_simp
  have sub: "subscribed ''e1'' ?s = Some (fx_subscription Sub_ACTIVE ''PRO'', fx_plan ''PRO'' ''PRO'' 10)" by code_simp
  have users: "length (filter (\<lambda>u. user_enterpriseId u = Some ''e1'') (users ?s)) = 1" by code_simp
  let ?pub = "hd (plans_listActive ?s)"
  have pub: "?pub \<in> set (plans_listActive ?s)" using list by (cases "plans_listActive ?s") auto
  have ids: "plan_id (fx_plan ''PRO'' ''PRO'' 10) = pub_id ?pub" "pub_maxUsers ?pub = Some 10" by code_simp+
  show "LimitGuard_canActivate (Some \<lparr>store_tenantId = ''e1'', store_userId = ''u1'', store_isSuperAdmin = False\<rparr>) (Some ''users'')
     (entitlements_resolve ''e1'' ?s) ?s = Inr ()"
    using advertised_seats_enforced[OF ax_catalogue_wf pub sub ids(1)] ids(2) users by simp
qed

end
