(* ===== verification/Members.thy ===== *)
theory Members
  imports Provisioning PlansAdmin
begin

text \<open>
  The members of an enterprise and what they are shown: apps/api/src/users, roles, settings and onboarding, the
  creation of super administrators (apps/api/src/scripts/create-super-admin.ts) and the menu of the web client
  (apps/web/src/lib/nav-config.ts, components/app-sidebar.tsx). The password hash and the MFA library are
  parameters.
\<close>

section \<open>The rights and the features of the caller\<close>

record user_context =
  ctx_permissions :: "permission_key list"
  ctx_planCode :: "string option"
  ctx_subscriptionStatus :: "subscription_status option"
  ctx_features :: "string list"

text \<open>\<open>rolePermission.findMany\<close> under the tenant's policy; the permission of a row is a required relation.\<close>

definition own_rolePermissions :: "uuid \<Rightarrow> uuid \<Rightarrow> rbac \<Rightarrow> (uuid \<times> uuid) list" where
  "own_rolePermissions tenantId userId r = filter (\<lambda>(roleId, _).
     (\<exists>role\<in>set (roles r). role_id role = roleId \<and> role_enterpriseId role = tenantId) \<and> (userId, roleId) \<in> set (userRoles r))
     (rolePermissions r)"

definition permission_keys :: "rbac \<Rightarrow> (uuid \<times> uuid) list \<Rightarrow> permission_key list" where
  "permission_keys r rows = concat (map (\<lambda>(_, permissionId). case map_of (permissions r) permissionId of None \<Rightarrow> [] | Some key \<Rightarrow> [key]) rows)"

definition getMyContext ::
    "int \<Rightarrow> nat \<Rightarrow> tenant_store option \<Rightarrow> int \<Rightarrow> uuid \<Rightarrow> uuid option \<Rightarrow> db \<Rightarrow> rbac \<Rightarrow> entitlements_cache \<Rightarrow>
     (exn + user_context) \<times> entitlements_cache" where
  "getMyContext ttl maxEntries store now userId enterpriseId s r cache =
     (if \<not> truthy enterpriseId then (Inl (ForbiddenException ''Reserve aux comptes entreprise''), cache)
      else case getRequiredTenantId store of
        Inl e \<Rightarrow> (Inl e, cache)
      | Inr tenantId \<Rightarrow> (case entitlements_getCurrent ttl maxEntries store now now id s cache of
          (Inl e, cache') \<Rightarrow> (Inl e, cache')
        | (Inr entl, cache') \<Rightarrow>
            (Inr \<lparr>ctx_permissions = js_set (permission_keys r (own_rolePermissions tenantId userId r)), ctx_planCode = entl_planCode entl,
                ctx_subscriptionStatus = entl_subscriptionStatus entl, ctx_features = entl_features entl\<rparr>, cache')))"

record nav_item =
  nav_href :: string
  nav_permission :: "permission_key option"

definition NAV_ITEMS :: "nav_item list" where
  "NAV_ITEMS = map (\<lambda>(href, permission). \<lparr>nav_href = href, nav_permission = permission\<rparr>) [
     (''/app'', None), (''/app/clients'', Some ''clients.read''), (''/app/suppliers'', Some ''suppliers.read''),
     (''/app/products'', Some ''products.read''), (''/app/sales'', Some ''sales.read''), (''/app/purchases'', Some ''purchases.read''),
     (''/app/invoicing'', Some ''invoicing.read''), (''/app/stock'', Some ''stock.read''), (''/app/accounting'', Some ''accounting.read''),
     (''/app/reports'', Some ''reports.read''), (''/app/users'', Some ''users.manage''), (''/app/subscription'', Some ''billing.manage''),
     (''/app/settings'', Some ''settings.manage'')]"

text \<open>\<open>None\<close> is a context that has not been loaded.\<close>

definition visibleItems :: "user_context option \<Rightarrow> nav_item list" where
  "visibleItems ctx = filter (\<lambda>item. nav_permission item = None \<or>
     (case ctx of None \<Rightarrow> False | Some c \<Rightarrow> the (nav_permission item) \<in> set (ctx_permissions c))) NAV_ITEMS"

definition useHasPermission :: "user_context option \<Rightarrow> permission_key \<Rightarrow> bool" where
  "useHasPermission ctx key = (case ctx of None \<Rightarrow> False | Some c \<Rightarrow> key \<in> set (ctx_permissions c))"

section \<open>Lists\<close>

record enterprise_user =
  eu_id :: uuid
  eu_email :: string
  eu_firstName :: string
  eu_lastName :: string
  eu_status :: user_status
  eu_roles :: "string list"
  eu_createdAt :: date

definition listEnterpriseUsers :: "tenant_store option \<Rightarrow> db \<Rightarrow> rbac \<Rightarrow> exn + enterprise_user list" where
  "listEnterpriseUsers store s r = (case getRequiredTenantId store of
     Inl e \<Rightarrow> Inl e
   | Inr tenantId \<Rightarrow> Inr (map (\<lambda>user.
       \<lparr>eu_id = user_id user, eu_email = user_email user, eu_firstName = user_firstName user, eu_lastName = user_lastName user,
        eu_status = user_status user,
        eu_roles = concat (map (\<lambda>(u, roleId). if u = user_id user
          then map role_label (filter (\<lambda>role. role_id role = roleId \<and> role_enterpriseId role = tenantId) (roles r)) else []) (userRoles r)),
        eu_createdAt = user_createdAt user\<rparr>)
       (sort_key user_createdAt (users (rls tenantId s)))))"

definition listEnterpriseRoles :: "(string \<Rightarrow> 'k::linorder) \<Rightarrow> tenant_store option \<Rightarrow> rbac \<Rightarrow> exn + (uuid \<times> string) list" where
  "listEnterpriseRoles alphabetical store r = (case getRequiredTenantId store of
     Inl e \<Rightarrow> Inl e
   | Inr tenantId \<Rightarrow> Inr (map (\<lambda>role. (role_id role, role_label role))
       (sort_key (\<lambda>role. alphabetical (role_label role)) (filter (\<lambda>role. role_enterpriseId role = tenantId) (roles r)))))"

record setting_summary =
  ss_key :: string
  ss_value :: "(string \<times> string) list"
  ss_updatedAt :: date

definition listEnterpriseSettings :: "(string \<Rightarrow> 'k::linorder) \<Rightarrow> tenant_store option \<Rightarrow> setting list \<Rightarrow> exn + setting_summary list" where
  "listEnterpriseSettings alphabetical store settings = (case getRequiredTenantId store of
     Inl e \<Rightarrow> Inl e
   | Inr tenantId \<Rightarrow> Inr (map (\<lambda>x. \<lparr>ss_key = setting_key x, ss_value = setting_value x, ss_updatedAt = setting_updatedAt x\<rparr>)
       (sort_key (\<lambda>x. alphabetical (setting_key x))
         (filter (\<lambda>x. setting_scope x = Setting_ENTERPRISE) (filter (\<lambda>x. setting_enterpriseId x = Some tenantId) settings)))))"

section \<open>Invitations\<close>

definition inviteUserSchema :: "invite_input \<Rightarrow> bool" where
  "inviteUserSchema i \<longleftrightarrow> inv_email i \<noteq> [] \<and> inv_firstName i \<noteq> [] \<and> inv_lastName i \<noteq> []"

text \<open>
  \<open>POST /users/invite\<close> behind its four guards; \<open>others\<close> is what the rest of the system does to the tables after
  the last guard has counted the members and before the handler adds one.
\<close>

definition UsersController_invite ::
    "server_config \<Rightarrow> (string \<Rightarrow> string) \<Rightarrow> string \<Rightarrow> date \<Rightarrow> uuid \<Rightarrow> fresh \<Rightarrow> (db \<times> rbac \<Rightarrow> db \<times> rbac) \<Rightarrow> string option \<Rightarrow> invite_input \<Rightarrow>
     server \<Rightarrow> (exn + uuid) \<times> server" where
  "UsersController_invite cfg hashToken passwordHash now newUserId fr others authHeader body srv =
     (let store = tenant_context_use (verifyAccessToken (jwt_verify cfg)) authHeader;
          getCurrent = entitlements_getCurrent (entitlementsCacheTtlMs cfg) (entitlementsCacheMaxEntries cfg) store now now id (server_db srv);
          (who, status) = JwtAuthGuard_canActivate (jwt_verify cfg) (accountStatusCacheTtlMs cfg) now now id (server_db srv)
             authHeader (server_status srv);
          srv1 = srv\<lparr>server_status := status\<rparr>
      in case who of
           Inl e \<Rightarrow> (Inl e, srv1)
         | Inr user \<Rightarrow> (case PermissionsGuard_canActivate store (Some ''users.manage'') False (Some user) (server_rbac srv) of
             Inl e \<Rightarrow> (Inl e, srv1)
           | Inr _ \<Rightarrow> (let (cur, cache1) = getCurrent (server_entitlements srv)
               in case SubscriptionAccessGuard_canActivate ''POST'' cur of
                    Inl e \<Rightarrow> (Inl e, srv1\<lparr>server_entitlements := cache1\<rparr>)
                  | Inr _ \<Rightarrow> (let (cur', cache2) = getCurrent cache1; srv2 = srv1\<lparr>server_entitlements := cache2\<rparr>
                      in case LimitGuard_canActivate store (Some ''users'') cur' (server_db srv) of
                           Inl e \<Rightarrow> (Inl e, srv2)
                         | Inr _ \<Rightarrow> (case ZodValidationPipe (inviteUserSchema body)
                               (invite hashToken passwordHash now newUserId fr store (the (au_enterpriseId user)) body)
                               (others (server_db srv2, server_rbac srv2)) of
                             (outcome, (s, r)) \<Rightarrow> (outcome, srv2\<lparr>server_db := s, server_rbac := r\<rparr>))))))"

section \<open>The onboarding assistant\<close>

datatype checklist_item = Available string bool | Locked string

record onboarding_summary =
  obs_currentStep :: int
  obs_completedAt :: "date option"
  obs_checklist :: "checklist_item list"

definition LOCKED_CHECKLIST_ITEMS :: "checklist_item list" where
  "LOCKED_CHECKLIST_ITEMS = [Locked ''first_client'', Locked ''first_product'', Locked ''first_sale'', Locked ''accounting_configured'']"

definition onboarding_upsert :: "uuid \<Rightarrow> onboarding_state list \<Rightarrow> onboarding_state \<times> onboarding_state list" where
  "onboarding_upsert tenantId rows = (case find_by onboarding_enterpriseId tenantId rows of
     Some row \<Rightarrow> (row, rows)
   | None \<Rightarrow> (let row = \<lparr>onboarding_enterpriseId = tenantId, onboarding_currentStep = 5, onboarding_completedAt = None\<rparr> in (row, rows @ [row])))"

definition onboarding_getState :: "tenant_store option \<Rightarrow> tenancy \<Rightarrow> (exn + onboarding_summary) \<times> tenancy" where
  "onboarding_getState store w = (case getRequiredTenantId store of
     Inl e \<Rightarrow> (Inl e, w)
   | Inr tenantId \<Rightarrow>
       (let (row, rows) = onboarding_upsert tenantId (ten_onboarding w);
            enterprise = find_by ent_id tenantId (enterprises (rls tenantId (ten_db w)));
            userCount = length (users (rls tenantId (ten_db w)))
        in (Inr \<lparr>obs_currentStep = onboarding_currentStep row, obs_completedAt = onboarding_completedAt row,
              obs_checklist = [Available ''enterprise_created'' True, Available ''profile_completed'' True,
                Available ''plan_activated'' (case enterprise of None \<Rightarrow> False | Some e \<Rightarrow> ent_currentSubscriptionId e \<noteq> None),
                Available ''first_user_added'' (1 \<le> userCount)] @ LOCKED_CHECKLIST_ITEMS\<rparr>,
            w\<lparr>ten_onboarding := rows\<rparr>)))"

record advance_input =
  adv_step :: "int option"
  adv_completed :: bool

definition updateOnboardingStateSchema :: "advance_input \<Rightarrow> bool" where
  "updateOnboardingStateSchema i \<longleftrightarrow> (\<forall>step\<in>set_option (adv_step i). 5 \<le> step \<and> step \<le> 7) \<and> (adv_step i \<noteq> None \<or> adv_completed i)"

definition advance_tx :: "date \<Rightarrow> uuid \<Rightarrow> advance_input \<Rightarrow> (onboarding_state list, exn, onboarding_state) txn" where
  "advance_tx now tenantId input rows =
     (let (current, rows1) = onboarding_upsert tenantId rows
      in case adv_step input of
           Some step \<Rightarrow> if step < onboarding_currentStep current
             then Inl (BadRequestException ''Impossible de revenir en arriere dans l'assistant'')
             else (let f = (\<lambda>r. r\<lparr>onboarding_currentStep := step,
                     onboarding_completedAt := (if adv_completed input then Some now else onboarding_completedAt r)\<rparr>)
               in Inr (f current, update_by onboarding_enterpriseId tenantId f rows1))
         | None \<Rightarrow> (let f = (\<lambda>r. r\<lparr>onboarding_completedAt := (if adv_completed input then Some now else onboarding_completedAt r)\<rparr>)
               in Inr (f current, update_by onboarding_enterpriseId tenantId f rows1)))"

definition onboarding_advance :: "date \<Rightarrow> tenant_store option \<Rightarrow> advance_input \<Rightarrow> tenancy \<Rightarrow> (exn + onboarding_summary) \<times> tenancy" where
  "onboarding_advance now store input w = (case getRequiredTenantId store of
     Inl e \<Rightarrow> (Inl e, w)
   | Inr tenantId \<Rightarrow> (case commit_txn (advance_tx now tenantId input) (ten_onboarding w) of
       (Inl e, _) \<Rightarrow> (Inl e, w)
     | (Inr _, rows) \<Rightarrow> onboarding_getState store (w\<lparr>ten_onboarding := rows\<rparr>)))"

datatype onboarding_route = Onboarding_get | Onboarding_patch advance_input

fun OnboardingController :: "date \<Rightarrow> tenant_store option \<Rightarrow> onboarding_route \<Rightarrow> tenancy \<Rightarrow> (exn + onboarding_summary) \<times> tenancy" where
  "OnboardingController now store Onboarding_get w = onboarding_getState store w"
| "OnboardingController now store (Onboarding_patch body) w =
     ZodValidationPipe (updateOnboardingStateSchema body) (onboarding_advance now store body) w"

section \<open>Super administrators\<close>

record super_admin_input =
  sai_email :: string
  sai_password :: string
  sai_firstName :: string
  sai_lastName :: string

definition new_super_admin :: "uuid \<Rightarrow> date \<Rightarrow> string \<Rightarrow> string \<Rightarrow> super_admin_input \<Rightarrow> user" where
  "new_super_admin newId now passwordHash encryptedSecret i =
     \<lparr>user_id = newId, user_email = sai_email i, user_passwordHash = passwordHash, user_firstName = sai_firstName i,
      user_lastName = sai_lastName i, user_phone = None, user_enterpriseId = None, user_isSuperAdmin = True, user_status = Usr_ACTIVE,
      user_mfaEnabled = True, user_mfaSecret = Some encryptedSecret, user_emailVerifiedAt = Some now, user_failedLoginCount = 0,
      user_lockedUntil = None, user_lastLoginAt = None, user_createdAt = now\<rparr>"

definition createSuperAdmin ::
    "(string \<Rightarrow> string) \<Rightarrow> (string \<Rightarrow> string) \<Rightarrow> string \<Rightarrow> uuid \<Rightarrow> date \<Rightarrow> super_admin_input \<Rightarrow> db \<Rightarrow> (exn + uuid) \<times> db" where
  "createSuperAdmin hash_password encryptSecret mfaSecret newId now input s =
     (if \<not> passwordSchema (sai_password input) then (Inl (JsError ''Mot de passe invalide''), s)
      else if find_by user_email (sai_email input) (users s) \<noteq> None
      then (Inl (JsError (''Un compte existe deja avec l'email '' @ sai_email input)), s)
      else case commit_txn (user_create (new_super_admin newId now (hash_password (sai_password input)) (encryptSecret mfaSecret) input)) s of
        (Inl e, s') \<Rightarrow> (Inl e, s')
      | (Inr user, s') \<Rightarrow> (Inr (user_id user), s'))"

text \<open>\<open>parseArgs\<close>: what follows the first occurrence of a flag; the value of a missing flag is undefined.\<close>

definition flag_value :: "string \<Rightarrow> string list \<Rightarrow> string option" where
  "flag_value flag argv = (case dropWhile (\<lambda>a. a \<noteq> flag) argv of _ # v # _ \<Rightarrow> Some v | _ \<Rightarrow> None)"

definition parseArgs :: "string list \<Rightarrow> exn + super_admin_input" where
  "parseArgs argv =
     (let email = flag_value ''--email'' argv; password = flag_value ''--password'' argv;
          firstName = flag_value ''--first-name'' argv; lastName = flag_value ''--last-name'' argv
      in if \<not> truthy email \<or> \<not> truthy password \<or> \<not> truthy firstName \<or> \<not> truthy lastName then Inl (JsError ''Usage'')
         else Inr \<lparr>sai_email = the email, sai_password = the password, sai_firstName = the firstName, sai_lastName = the lastName\<rparr>)"

text \<open>The transformation of \<open>loginSchema\<close> on ASCII texts: \<open>trim().toLowerCase()\<close>, then the sign-in.\<close>

definition lower_char :: "char \<Rightarrow> char" where
  "lower_char c = (if char_between 65 90 c then char_of (of_char c + 32 :: nat) else c)"

definition is_space :: "char \<Rightarrow> bool" where
  "is_space c \<longleftrightarrow> c = CHR '' '' \<or> char_between 9 13 c"

definition js_trim :: "string \<Rightarrow> string" where
  "js_trim v = rev (dropWhile is_space (rev (dropWhile is_space v)))"

definition AuthController_login ::
    "(string \<Rightarrow> string \<Rightarrow> bool) \<Rightarrow> (string \<Rightarrow> string) \<Rightarrow> (jwt_claims \<Rightarrow> string) \<Rightarrow> int \<Rightarrow> date \<Rightarrow> fresh \<Rightarrow> (nat \<Rightarrow> db \<Rightarrow> db) \<Rightarrow>
     string \<Rightarrow> string \<Rightarrow> db \<Rightarrow> (exn + login_result) \<times> db" where
  "AuthController_login verify_password hashToken jwt_sign ttl now fr others email password =
     ZodValidationPipe (js_trim email \<noteq> [] \<and> password \<noteq> [])
       (login verify_password hashToken jwt_sign ttl now fr others (map lower_char (js_trim email)) password)"

section \<open>The menu and the guards\<close>

lemma permission_keys_set:
  assumes "distinct (map fst (permissions r))"
  shows "k \<in> set (permission_keys r rows) \<longleftrightarrow> (\<exists>i p. (i, p) \<in> set rows \<and> (p, k) \<in> set (permissions r))"
proof -
  have one: "set (case map_of (permissions r) p of None \<Rightarrow> [] | Some key \<Rightarrow> [key]) = {k. (p, k) \<in> set (permissions r)}" for p
  proof (cases "map_of (permissions r) p")
    case None
    then have "p \<notin> fst ` set (permissions r)" by (simp add: map_of_eq_None_iff)
    then show ?thesis using None by force
  next
    case (Some k')
    then have "(p, x) \<in> set (permissions r) \<longleftrightarrow> x = k'" for x using assms by (metis map_of_SomeD map_of_is_SomeI option.inject)
    then show ?thesis using Some by simp
  qed
  have "k \<in> set (permission_keys r rows) \<longleftrightarrow> (\<exists>x\<in>set rows. (snd x, k) \<in> set (permissions r))"
    by (simp add: permission_keys_def case_prod_beta one)
  then show ?thesis by (metis prod.collapse snd_conv)
qed

lemma context_permission:
  assumes "distinct (map fst (permissions r))"
  shows "k \<in> set (permission_keys r (own_rolePermissions e u r)) \<longleftrightarrow> 0 < grant_count e u k (r\<lparr>roles := filter (\<lambda>role. role_enterpriseId role = e) (roles r)\<rparr>)"
  unfolding permission_keys_set[OF assms] grant_count_pos own_rolePermissions_def by auto

lemma getMyContext_InrD:
  assumes "fst (getMyContext ttl maxEntries (Some st) now u (Some e) s r cache) = Inr ctx"
  shows "ctx_permissions ctx = js_set (permission_keys r (own_rolePermissions (store_tenantId st) u r))" "e \<noteq> []"
    "\<exists>v c. entitlements_getCurrent ttl maxEntries (Some st) now now id s cache = (Inr v, c) \<and> ctx_features ctx = entl_features v"
  using assms by (auto simp: getMyContext_def getRequiredTenantId_def split: if_splits prod.splits sum.splits)

text \<open>
  C15. What the client shows agrees with what the server lets pass: a permission in the context of a member is one
  with which the guard lets the member's requests pass, and an entry of the menu is visible exactly when it needs
  no permission or the guard grants the one it names.
\<close>

theorem menu_agrees_with_guard:
  assumes "fst (getMyContext ttl maxEntries (Some st) now u (Some e) s r cache) = Inr ctx"
    and "store_tenantId st = e" and "distinct (map fst (permissions r))" and "user = \<lparr>au_id = u, au_enterpriseId = Some e, au_isSuperAdmin = a\<rparr>"
  shows "(\<forall>k. k \<noteq> [] \<longrightarrow> useHasPermission (Some ctx) k = (PermissionsGuard_canActivate (Some st) (Some k) False (Some user) r = Inr ())) \<and>
    set (visibleItems (Some ctx)) = {item \<in> set NAV_ITEMS. case nav_permission item of None \<Rightarrow> True
       | Some k \<Rightarrow> PermissionsGuard_canActivate (Some st) (Some k) False (Some user) r = Inr ()}"
proof -
  note ctx = getMyContext_InrD[OF assms(1)]
  have guard: "k \<in> set (ctx_permissions ctx) \<longleftrightarrow> PermissionsGuard_canActivate (Some st) (Some k) False (Some user) r = Inr ()" if "k \<noteq> []" for k
    using that ctx(2) context_permission[OF assms(3), of k e u]
    by (simp add: ctx(1) assms(2,4) PermissionsGuard_canActivate_def getRequiredTenantId_def)
  have named: "k \<noteq> []" if "item \<in> set NAV_ITEMS" "nav_permission item = Some k" for item k
    using that by (auto simp: NAV_ITEMS_def)
  let ?shown = "\<lambda>item. case nav_permission item of None \<Rightarrow> True
    | Some k \<Rightarrow> PermissionsGuard_canActivate (Some st) (Some k) False (Some user) r = Inr ()"
  have "(nav_permission item = None \<or> the (nav_permission item) \<in> set (ctx_permissions ctx)) = ?shown item" if "item \<in> set NAV_ITEMS" for item
    using named[OF that] guard by (cases "nav_permission item") simp_all
  then have "filter (\<lambda>item. nav_permission item = None \<or> the (nav_permission item) \<in> set (ctx_permissions ctx)) NAV_ITEMS = filter ?shown NAV_ITEMS"
    by (rule filter_cong[OF refl])
  then have "set (visibleItems (Some ctx)) = {item \<in> set NAV_ITEMS. ?shown item}"
    by (simp only: visibleItems_def option.case set_filter)
  moreover have "\<forall>k. k \<noteq> [] \<longrightarrow> useHasPermission (Some ctx) k = (PermissionsGuard_canActivate (Some st) (Some k) False (Some user) r = Inr ())"
    using guard by (simp add: useHasPermission_def)
  ultimately show ?thesis by (rule conjI[rotated])
qed

section \<open>The assistant only moves forward\<close>

definition step_of :: "uuid \<Rightarrow> onboarding_state list \<Rightarrow> int" where
  "step_of e rows = (case find_by onboarding_enterpriseId e rows of None \<Rightarrow> 5 | Some r \<Rightarrow> onboarding_currentStep r)"

definition completed :: "uuid \<Rightarrow> onboarding_state list \<Rightarrow> bool" where
  "completed e rows \<longleftrightarrow> (\<exists>r. find_by onboarding_enterpriseId e rows = Some r \<and> onboarding_completedAt r \<noteq> None)"

definition onboarding_wf :: "onboarding_state list \<Rightarrow> bool" where
  "onboarding_wf rows \<longleftrightarrow> distinct (map onboarding_enterpriseId rows) \<and> (\<forall>r\<in>set rows. 5 \<le> onboarding_currentStep r \<and> onboarding_currentStep r \<le> 7)"

text \<open>From \<open>rows\<close> to \<open>rows'\<close> nobody went back and only the enterprises \<open>T\<close> moved.\<close>

definition forward :: "uuid set \<Rightarrow> onboarding_state list \<Rightarrow> onboarding_state list \<Rightarrow> bool" where
  "forward T rows rows' \<longleftrightarrow> onboarding_wf rows' \<and> (\<forall>e. step_of e rows \<le> step_of e rows' \<and> (completed e rows \<longrightarrow> completed e rows') \<and>
     (e \<notin> T \<longrightarrow> find_by onboarding_enterpriseId e rows' = find_by onboarding_enterpriseId e rows))"

lemma forward_refl: "onboarding_wf rows \<Longrightarrow> forward T rows rows"
  by (simp add: forward_def)

lemma forward_trans: "forward T a b \<Longrightarrow> forward U b c \<Longrightarrow> forward (T \<union> U) a c"
  unfolding forward_def by (metis UnI1 UnI2 order_trans)

lemma upsert_forward:
  assumes "onboarding_wf rows" and "onboarding_upsert e rows = (row, rows1)"
  shows "forward {e} rows rows1 \<and> find_by onboarding_enterpriseId e rows1 = Some row"
proof (cases "find_by onboarding_enterpriseId e rows")
  case (Some r)
  then show ?thesis using assms by (simp add: onboarding_upsert_def forward_refl)
next
  case None
  then have rows1: "rows1 = rows @ [row]" "row = \<lparr>onboarding_enterpriseId = e, onboarding_currentStep = 5, onboarding_completedAt = None\<rparr>"
    using assms(2) by (auto simp: onboarding_upsert_def Let_def)
  have key: "onboarding_enterpriseId row = e" by (simp add: rows1(2))
  have look: "find_by onboarding_enterpriseId x rows1 = (if x = e then Some row else find_by onboarding_enterpriseId x rows)" for x
    using None by (simp add: rows1(1) key split: option.splits)
  have "onboarding_wf rows1" using assms(1) None by (simp add: onboarding_wf_def rows1 find_by_None_iff)
  then show ?thesis using None by (auto simp: forward_def step_of_def completed_def look rows1(2))
qed

lemma update_forward:
  assumes "onboarding_wf rows" and "find_by onboarding_enterpriseId e rows = Some row" and "\<And>r. onboarding_enterpriseId (f r) = onboarding_enterpriseId r"
    and "onboarding_currentStep row \<le> onboarding_currentStep (f row)" "onboarding_currentStep (f row) \<le> 7"
    and "onboarding_completedAt row \<noteq> None \<longrightarrow> onboarding_completedAt (f row) \<noteq> None"
  shows "forward {e} rows (update_by onboarding_enterpriseId e f rows)"
proof -
  have look: "find_by onboarding_enterpriseId x (update_by onboarding_enterpriseId e f rows) =
      (if x = e then Some (f row) else find_by onboarding_enterpriseId x rows)" for x
    using assms(2) find_by_update_by[of onboarding_enterpriseId f x e rows, OF assms(3)] by simp
  have same: "map onboarding_enterpriseId (update_by onboarding_enterpriseId e f rows) = map onboarding_enterpriseId rows"
    by (rule map_update_by) (rule assms(3))
  have "\<forall>r\<in>set (update_by onboarding_enterpriseId e f rows). 5 \<le> onboarding_currentStep r \<and> onboarding_currentStep r \<le> 7"
  proof (rule Ball_update_by)
    show "\<forall>r\<in>set rows. 5 \<le> onboarding_currentStep r \<and> onboarding_currentStep r \<le> 7" using assms(1) by (simp add: onboarding_wf_def)
    fix r assume "r \<in> set rows" "onboarding_enterpriseId r = e"
    then have "r = row" using assms(1,2) find_by_distinct[of onboarding_enterpriseId rows r] by (simp add: onboarding_wf_def)
    moreover have "5 \<le> onboarding_currentStep row" using assms(1) find_by_SomeD[OF assms(2)] by (simp add: onboarding_wf_def)
    ultimately show "5 \<le> onboarding_currentStep (f r) \<and> onboarding_currentStep (f r) \<le> 7" using assms(4,5) by simp
  qed
  then have "onboarding_wf (update_by onboarding_enterpriseId e f rows)" using assms(1) same by (simp add: onboarding_wf_def)
  then show ?thesis using assms(2,4,6) by (auto simp: forward_def step_of_def completed_def look)
qed

lemma advance_forward:
  assumes "onboarding_wf rows" and "updateOnboardingStateSchema input" and "advance_tx now e input rows = Inr (v, rows')"
  shows "forward {e} rows rows'"
proof -
  obtain row rows1 where up: "onboarding_upsert e rows = (row, rows1)" by fastforce
  note first = upsert_forward[OF assms(1) up]
  then have wf: "onboarding_wf rows1" by (simp add: forward_def)
  have "forward {e} rows1 rows'"
  proof (cases "adv_step input")
    case None
    have "onboarding_currentStep row \<le> 7" using wf find_by_SomeD[OF first[THEN conjunct2]] by (simp add: onboarding_wf_def)
    then show ?thesis using assms(3) None up by (auto simp: advance_tx_def Let_def intro!: update_forward[OF wf first[THEN conjunct2]])
  next
    case (Some step)
    then have "step \<le> 7" using assms(2) by (simp add: updateOnboardingStateSchema_def)
    then show ?thesis using assms(3) Some up
      by (auto simp: advance_tx_def Let_def split: if_splits intro!: update_forward[OF wf first[THEN conjunct2]])
  qed
  then show ?thesis using forward_trans[OF first[THEN conjunct1]] by fastforce
qed

lemma getState_forward:
  assumes "onboarding_wf (ten_onboarding w)" and "onboarding_getState (Some st) w = (res, w')"
  shows "forward {store_tenantId st} (ten_onboarding w) (ten_onboarding w') \<and> w'\<lparr>ten_onboarding := ten_onboarding w\<rparr> = w"
  using assms upsert_forward[OF assms(1), of "store_tenantId st"]
  by (auto simp: onboarding_getState_def getRequiredTenantId_def Let_def split: prod.splits)

lemma controller_forward:
  assumes "onboarding_wf (ten_onboarding w)"
  shows "forward (store_tenantId ` set_option store) (ten_onboarding w) (ten_onboarding (snd (OnboardingController now store r w))) \<and>
    (snd (OnboardingController now store r w))\<lparr>ten_onboarding := ten_onboarding w\<rparr> = w"
proof (cases store)
  case None
  then show ?thesis using assms
    by (cases r) (simp_all add: onboarding_getState_def onboarding_advance_def getRequiredTenantId_def ZodValidationPipe_def forward_refl)
next
  case (Some st)
  show ?thesis
  proof (cases r)
    case Onboarding_get
    then show ?thesis using getState_forward[OF assms, of st] Some by (metis OnboardingController.simps(1) image_insert image_empty option.set(2) prod.collapse)
  next
    case (Onboarding_patch body)
    show ?thesis
    proof (cases "updateOnboardingStateSchema body \<and> (\<exists>x. advance_tx now (store_tenantId st) body (ten_onboarding w) = Inr x)")
      case False
      then show ?thesis using assms Some Onboarding_patch
        by (auto simp: ZodValidationPipe_def onboarding_advance_def getRequiredTenantId_def commit_txn_def forward_refl split: sum.splits)
    next
      case True
      then obtain v rows where tx: "advance_tx now (store_tenantId st) body (ten_onboarding w) = Inr (v, rows)" by (metis surj_pair)
      let ?w = "w\<lparr>ten_onboarding := rows\<rparr>"
      have first: "forward {store_tenantId st} (ten_onboarding w) rows" by (rule advance_forward[OF assms _ tx]) (use True in blast)
      then have "onboarding_wf (ten_onboarding ?w)" by (simp add: forward_def)
      obtain res w2 where get: "onboarding_getState (Some st) ?w = (res, w2)" by fastforce
      then have second: "forward {store_tenantId st} rows (ten_onboarding w2)" "w2\<lparr>ten_onboarding := rows\<rparr> = ?w"
        using getState_forward[OF \<open>onboarding_wf (ten_onboarding ?w)\<close> get] by simp_all
      have "w2\<lparr>ten_onboarding := ten_onboarding w\<rparr> = w"
        using arg_cong[OF second(2), of "\<lambda>x. x\<lparr>ten_onboarding := ten_onboarding w\<rparr>"] by simp
      moreover have "snd (OnboardingController now store r w) = w2"
        using True Some Onboarding_patch tx get
        by (simp add: ZodValidationPipe_def onboarding_advance_def getRequiredTenantId_def commit_txn_def)
      ultimately show ?thesis using forward_trans[OF first second(1)] Some by simp
    qed
  qed
qed

text \<open>
  The assistant only moves forward: whoever of whatever enterprise reads or advances it, in any order, the step
  of an enterprise never decreases and stays between 5 and 7, an assistant that is finished stays finished, an
  enterprise has at most one row, nobody moves the row of another enterprise, and nothing else is written.
\<close>

theorem onboarding_only_forward:
  assumes "onboarding_wf (ten_onboarding w)"
    and "w' = fold (\<lambda>(now, store, r) w. snd (OnboardingController now store r w)) calls w"
  shows "onboarding_wf (ten_onboarding w') \<and> w'\<lparr>ten_onboarding := ten_onboarding w\<rparr> = w \<and>
     (\<forall>e. step_of e (ten_onboarding w) \<le> step_of e (ten_onboarding w') \<and>
        (completed e (ten_onboarding w) \<longrightarrow> completed e (ten_onboarding w')) \<and>
        (e \<notin> (\<Union>(now, store, r)\<in>set calls. store_tenantId ` set_option store) \<longrightarrow>
           find_by onboarding_enterpriseId e (ten_onboarding w') = find_by onboarding_enterpriseId e (ten_onboarding w)))"
proof -
  have "forward (\<Union>(now, store, r)\<in>set calls. store_tenantId ` set_option store) (ten_onboarding w) (ten_onboarding w') \<and>
      w'\<lparr>ten_onboarding := ten_onboarding w\<rparr> = w"
    using assms
  proof (induction calls arbitrary: w)
    case Nil
    then show ?case by (simp add: forward_refl)
  next
    case (Cons call calls)
    obtain now store r where call: "call = (now, store, r)" by (metis surj_pair)
    let ?w = "snd (OnboardingController now store r w)" and ?T = "\<Union>(now, store, r)\<in>set calls. store_tenantId ` set_option store"
    have first: "forward (store_tenantId ` set_option store) (ten_onboarding w) (ten_onboarding ?w)" "?w\<lparr>ten_onboarding := ten_onboarding w\<rparr> = w"
      using controller_forward[OF Cons.prems(1)] by blast+
    then have "onboarding_wf (ten_onboarding ?w)" by (simp add: forward_def)
    then have rest: "forward ?T (ten_onboarding ?w) (ten_onboarding w')" "w'\<lparr>ten_onboarding := ten_onboarding ?w\<rparr> = ?w"
      using Cons.IH[of ?w] Cons.prems(2) by (simp_all add: call)
    have "w'\<lparr>ten_onboarding := ten_onboarding w\<rparr> = w"
      using arg_cong[OF rest(2), of "\<lambda>x. x\<lparr>ten_onboarding := ten_onboarding w\<rparr>"] first(2) by simp
    then show ?case using forward_trans[OF first(1) rest(1)] by (simp add: call)
  qed
  then show ?thesis unfolding forward_def by blast
qed

section \<open>Super administrators sign in\<close>

lemma createSuperAdmin_InrD:
  assumes "createSuperAdmin hash_password encryptSecret mfaSecret newId now input s = (Inr i, s')"
  shows "i = newId" "s' = s\<lparr>users := users s @ [new_super_admin newId now (hash_password (sai_password input)) (encryptSecret mfaSecret) input]\<rparr>"
    "find_by user_email (sai_email input) (users s) = None" "find_by user_id newId (users s) = None" "10 \<le> length (sai_password input)"
  using assms by (auto simp: createSuperAdmin_def user_create_def commit_txn_def new_super_admin_def passwordSchema_def find_by_None_iff
      split: if_splits)

text \<open>
  C16. A super administrator never gets tokens from the password alone, and gets anywhere only if the script was given
  the email as the sign-in will look for it: right after the creation, the right email and password are answered
  with the challenge of the second factor when the email was typed trimmed and in lower case; otherwise, unless
  that other spelling is someone else's email, the account cannot be signed in to at all.
\<close>

theorem super_admin_sign_in:
  assumes "createSuperAdmin hash_password encryptSecret mfaSecret newId now input s = (Inr i, s')"
    and "verify_password (hash_password (sai_password input)) (sai_password input)" and "js_trim (sai_email input) \<noteq> []"
    and "find_by user_email (map lower_char (js_trim (sai_email input))) (users s) = None"
  shows "fst (AuthController_login verify_password hashToken jwt_sign ttl later fr (\<lambda>_ s. s) (sai_email input) (sai_password input) s') =
    (if map lower_char (js_trim (sai_email input)) = sai_email input then Inr (mfa_required (signMfaChallengeToken jwt_sign newId))
     else Inl GENERIC_LOGIN_ERROR)"
proof -
  let ?new = "new_super_admin newId now (hash_password (sai_password input)) (encryptSecret mfaSecret) input"
  let ?email = "map lower_char (js_trim (sai_email input))"
  note made = createSuperAdmin_InrD[OF assms(1)]
  have new: "user_email ?new = sai_email input" "user_id ?new = newId" "user_lockedUntil ?new = None" "user_isSuperAdmin ?new"
    "user_mfaEnabled ?new" "user_passwordHash ?new = hash_password (sai_password input)" "active_account ?new s'"
    by (simp_all add: new_super_admin_def active_account_def)
  have login: "fst (AuthController_login verify_password hashToken jwt_sign ttl later fr (\<lambda>_ s. s) (sai_email input) (sai_password input) s') =
      fst (login verify_password hashToken jwt_sign ttl later fr (\<lambda>_ s. s) ?email (sai_password input) s')"
    using assms(3) made(5) by (auto simp: AuthController_login_def ZodValidationPipe_def)
  have users: "find_by user_email ?email (users s') = (if ?email = sai_email input then Some ?new else None)"
    "find_by user_id newId (users s') = Some ?new"
    using assms(4) made(4) by (simp_all add: made(2) new)
  show ?thesis
  proof (cases "?email = sai_email input")
    case False
    then show ?thesis unfolding login by (simp add: login_def users)
  next
    case True
    have "login_right_password hashToken jwt_sign ttl later fr (\<lambda>_ s. s) ?new s' =
        (Inr (mfa_required (signMfaChallengeToken jwt_sign newId)), snd (login_right_password hashToken jwt_sign ttl later fr (\<lambda>_ s. s) ?new s'))"
      by (simp add: login_right_password_def user_update_def new users(2))
    then have right: "fst (login_right_password hashToken jwt_sign ttl later fr (\<lambda>_ s. s) ?new s') =
        Inr (mfa_required (signMfaChallengeToken jwt_sign newId))" by (metis fst_conv)
    have "\<not> is_locked later ?new" by (simp add: is_locked_def new(3))
    moreover have "find_by user_email (sai_email input) (users s') = Some ?new" using users(1) True by simp
    ultimately show ?thesis unfolding login True by (simp add: login_def new right assms(2))
  qed
qed

section \<open>Seats\<close>

abbreviation members :: "uuid \<Rightarrow> db \<Rightarrow> user list" where
  "members e s \<equiv> filter (\<lambda>u. user_enterpriseId u = Some e) (users s)"

lemma invite_tx_InrD:
  assumes "invite_tx hashToken passwordHash now newUserId fr e input (s, r) = Inr (user, (s1, r'))"
  shows "user = invited_user newUserId now input e passwordHash" "users s1 = users s @ [invited_user newUserId now input e passwordHash]"
    "\<exists>role. find_by role_id (inv_roleId input) (roles r) = Some role \<and> role_enterpriseId role = e \<and>
       r' = r\<lparr>userRoles := userRoles r @ [(newUserId, role_id role)]\<rparr>"
proof -
  let ?new = "invited_user newUserId now input e passwordHash"
  have created: "user_create ?new s = Inr (c, s2) \<Longrightarrow> c = ?new \<and> users s2 = users s @ [?new]" for c s2
    by (auto simp: user_create_def split: if_splits)
  have token: "authToken_create row s2 = Inr (c, s3) \<Longrightarrow> users s3 = users s2" for row c s2 s3
    by (auto simp: authToken_create_def split: if_splits)
  from assms obtain role c s2 where role: "find_by role_id (inv_roleId input) (roles r) = Some role" "role_enterpriseId role = e"
    and c: "user_create ?new s = Inr (c, s2)"
    by (auto simp: invite_tx_def split: option.splits if_splits sum.splits)
  from assms role c obtain a s3 row where t: "authToken_create row s2 = Inr (a, s3)" "user = c" "s1 = s3"
    "r' = r\<lparr>userRoles := userRoles r @ [(user_id c, role_id role)]\<rparr>"
    by (auto simp: invite_tx_def split: sum.splits)
  show "user = ?new" "users s1 = users s @ [?new]" using created[OF c] token[OF t(1)] t(2,3) by simp_all
  have "user_id c = newUserId" using created[OF c] by (simp add: invited_user_def)
  then show "\<exists>role. find_by role_id (inv_roleId input) (roles r) = Some role \<and> role_enterpriseId role = e \<and>
       r' = r\<lparr>userRoles := userRoles r @ [(newUserId, role_id role)]\<rparr>" using role t(4) by blast
qed

lemma invite_InrD:
  assumes "invite hashToken passwordHash now newUserId fr store e input (s, r) = (Inr i, (s', r'))"
  shows "users s' = users s @ [invited_user newUserId now input e passwordHash]" "i = newUserId"
    "\<exists>role. find_by role_id (inv_roleId input) (roles r) = Some role \<and> role_enterpriseId role = e \<and>
       r' = r\<lparr>userRoles := userRoles r @ [(newUserId, role_id role)]\<rparr>"
proof -
  let ?tx = "invite_tx hashToken passwordHash now newUserId fr e input (s, r)"
  have free: "find_by user_email (inv_email input) (users s) = None"
    by (rule ccontr) (use assms in \<open>simp add: invite_def\<close>)
  obtain t where store: "getRequiredTenantId store = Inr t"
    by (cases "getRequiredTenantId store") (use assms free in \<open>simp_all add: invite_def\<close>)
  obtain user s1 where tx: "?tx = Inr (user, (s1, r'))"
    and s': "s' = auth_audit (Some (user_id user)) (Some e) USER_INVITED ''User'' (Some (user_id user)) None s1" "i = user_id user"
  proof (cases ?tx)
    case (Inl x)
    then have "invite hashToken passwordHash now newUserId fr store e input (s, r) = (Inl x, (s, r))"
      by (simp add: invite_def free store commit_txn_def)
    then show thesis using assms by simp
  next
    case (Inr y)
    obtain user s1 r1 where y: "y = (user, (s1, r1))" by (metis prod_cases3)
    then have "invite hashToken passwordHash now newUserId fr store e input (s, r) = (Inr (user_id user),
        (auth_audit (Some (user_id user)) (Some e) USER_INVITED ''User'' (Some (user_id user)) None s1, r1))"
      using Inr by (simp add: invite_def free store commit_txn_def)
    then show thesis using assms Inr y that by simp
  qed
  note made = invite_tx_InrD[OF tx]
  show "users s' = users s @ [invited_user newUserId now input e passwordHash]"
    using made(2) by (simp add: s'(1) auth_audit_def auditLog_record_def)
  show "i = newUserId" using made(1) by (simp add: s'(2) invited_user_def)
  show "\<exists>role. find_by role_id (inv_roleId input) (roles r) = Some role \<and> role_enterpriseId role = e \<and>
       r' = r\<lparr>userRoles := userRoles r @ [(newUserId, role_id role)]\<rparr>" by (rule made(3))
qed

lemma UsersController_invite_InrE:
  assumes "UsersController_invite cfg hashToken passwordHash now newUserId fr others h body srv = (Inr i, srv')"
  obtains user c cur cache1 cur' cache2 s r where
    "JwtAuthGuard_canActivate (jwt_verify cfg) (accountStatusCacheTtlMs cfg) now now id (server_db srv) h (server_status srv) = (Inr user, c)"
    "PermissionsGuard_canActivate (tenant_context_use (verifyAccessToken (jwt_verify cfg)) h) (Some ''users.manage'') False (Some user) (server_rbac srv) = Inr ()"
    "entitlements_getCurrent (entitlementsCacheTtlMs cfg) (entitlementsCacheMaxEntries cfg)
       (tenant_context_use (verifyAccessToken (jwt_verify cfg)) h) now now id (server_db srv) (server_entitlements srv) = (cur, cache1)"
    "SubscriptionAccessGuard_canActivate ''POST'' cur = Inr ()"
    "entitlements_getCurrent (entitlementsCacheTtlMs cfg) (entitlementsCacheMaxEntries cfg)
       (tenant_context_use (verifyAccessToken (jwt_verify cfg)) h) now now id (server_db srv) cache1 = (cur', cache2)"
    "LimitGuard_canActivate (tenant_context_use (verifyAccessToken (jwt_verify cfg)) h) (Some ''users'') cur' (server_db srv) = Inr ()"
    "invite hashToken passwordHash now newUserId fr (tenant_context_use (verifyAccessToken (jwt_verify cfg)) h) (the (au_enterpriseId user)) body
       (others (server_db srv, server_rbac srv)) = (Inr i, (s, r))"
    "server_db srv' = s" "server_rbac srv' = r"
proof -
  let ?get = "entitlements_getCurrent (entitlementsCacheTtlMs cfg) (entitlementsCacheMaxEntries cfg)
       (tenant_context_use (verifyAccessToken (jwt_verify cfg)) h) now now id (server_db srv)"
  obtain who c where who: "JwtAuthGuard_canActivate (jwt_verify cfg) (accountStatusCacheTtlMs cfg) now now id (server_db srv) h (server_status srv) = (who, c)"
    by fastforce
  obtain cur cache1 where cur: "?get (server_entitlements srv) = (cur, cache1)" by fastforce
  obtain cur' cache2 where cur': "?get cache1 = (cur', cache2)" by fastforce
  note eqs = UsersController_invite_def Let_def who cur cur' prod.case
  obtain user where user: "who = Inr user" using assms by (cases who) (simp_all add: eqs)
  have perm: "PermissionsGuard_canActivate (tenant_context_use (verifyAccessToken (jwt_verify cfg)) h) (Some ''users.manage'') False (Some user)
      (server_rbac srv) = Inr ()" (is "?p = _")
    by (cases ?p) (use assms in \<open>simp_all add: eqs user\<close>)
  have access: "SubscriptionAccessGuard_canActivate ''POST'' cur = Inr ()" (is "?a = _")
    by (cases ?a) (use assms in \<open>simp_all add: eqs user perm\<close>)
  have limit: "LimitGuard_canActivate (tenant_context_use (verifyAccessToken (jwt_verify cfg)) h) (Some ''users'') cur' (server_db srv) = Inr ()" (is "?l = _")
    by (cases ?l) (use assms in \<open>simp_all add: eqs user perm access\<close>)
  obtain res s r where inv: "invite hashToken passwordHash now newUserId fr (tenant_context_use (verifyAccessToken (jwt_verify cfg)) h)
      (the (au_enterpriseId user)) body (others (server_db srv, server_rbac srv)) = (res, (s, r))" by (metis surj_pair)
  have "inviteUserSchema body" by (rule ccontr) (use assms in \<open>simp add: eqs user perm access limit ZodValidationPipe_def split: prod.splits\<close>)
  then have "res = Inr i" "server_db srv' = s" "server_rbac srv' = r"
    using assms by (auto simp: eqs user perm access limit ZodValidationPipe_def inv)
  then show thesis using that who user cur cur' perm access limit inv by blast
qed


section \<open>An enterprise with two seats\<close>

definition mx_rbac :: rbac where
  "mx_rbac = \<lparr>permissions = [(''q1'', ''users.manage''), (''q2'', ''sales.read'')],
     roles = [\<lparr>role_id = ''r1'', role_enterpriseId = ''e1'', role_label = ''ADMIN'', role_isSystem = True\<rparr>],
     rolePermissions = [(''r1'', ''q1''), (''r1'', ''q2'')], userRoles = [(''u1'', ''r1'')]\<rparr>"

definition mx_server :: server where
  "mx_server = gx_server\<lparr>server_db := (server_db gx_server)\<lparr>plans := [fx_plan ''PRO'' ''PRO'' 2]\<rparr>, server_rbac := mx_rbac\<rparr>"

definition mx_body :: "string \<Rightarrow> invite_input" where
  "mx_body email = \<lparr>inv_email = email, inv_firstName = ''Binta'', inv_lastName = ''Sow'', inv_roleId = ''r1''\<rparr>"

definition mx_fresh :: "string \<Rightarrow> fresh" where "mx_fresh i = \<lparr>fresh_id = i, fresh_raw = i, fresh_family = i\<rparr>"

definition mx_invite :: "string \<Rightarrow> (db \<times> rbac \<Rightarrow> db \<times> rbac) \<Rightarrow> server \<Rightarrow> (exn + uuid) \<times> server" where
  "mx_invite i others = UsersController_invite gx_config id ''hash'' 5 i (mx_fresh i) others (Some ''Bearer tok'') (mx_body (i @ ''@b''))"

definition mx_store :: tenant_store where
  "mx_store = \<lparr>store_tenantId = ''e1'', store_userId = ''u1'', store_isSuperAdmin = False\<rparr>"

text \<open>The count and the insertion are two transactions: two invitations at once fill the last seat twice.\<close>

lemma two_invitations_one_seat:
  "let others = \<lambda>(s, r). (let srv = snd (mx_invite ''n1'' (\<lambda>x. x) (mx_server\<lparr>server_db := s, server_rbac := r\<rparr>)) in (server_db srv, server_rbac srv));
       srv = snd (mx_invite ''n2'' others mx_server)
   in map_of (plan_limits (hd (plans (server_db srv)))) ''users'' = Some (Some 2) \<and>
      map user_id (members ''e1'' (server_db srv)) = [''u1'', ''n1'', ''n2'']"
  by code_simp


theorem menu_agrees_with_guard_witness:
  "case fst (getMyContext 5000 10 (Some mx_store) 5 ''u1'' (Some ''e1'') (server_db mx_server) mx_rbac []) of Inl _ \<Rightarrow> False
   | Inr ctx \<Rightarrow> map nav_href (visibleItems (Some ctx)) = [''/app'', ''/app/sales'', ''/app/users''] \<and>
       (useHasPermission (Some ctx) ''users.manage'' =
         (PermissionsGuard_canActivate (Some mx_store) (Some ''users.manage'') False
            (Some \<lparr>au_id = ''u1'', au_enterpriseId = Some ''e1'', au_isSuperAdmin = False\<rparr>) mx_rbac = Inr ()))"
proof -
  have shown: "case fst (getMyContext 5000 10 (Some mx_store) 5 ''u1'' (Some ''e1'') (server_db mx_server) mx_rbac []) of Inl _ \<Rightarrow> False
   | Inr ctx \<Rightarrow> map nav_href (visibleItems (Some ctx)) = [''/app'', ''/app/sales'', ''/app/users'']" by code_simp
  then obtain ctx where ctx: "fst (getMyContext 5000 10 (Some mx_store) 5 ''u1'' (Some ''e1'') (server_db mx_server) mx_rbac []) = Inr ctx"
    by (metis (no_types, lifting) sum.case(1) sum.exhaust)
  have "store_tenantId mx_store = ''e1''" "distinct (map fst (permissions mx_rbac))" by code_simp+
  then show ?thesis using shown menu_agrees_with_guard[OF ctx _ _ refl, of False] unfolding ctx sum.case by simp
qed

definition mx_calls :: "(date \<times> tenant_store option \<times> onboarding_route) list" where
  "mx_calls = [(1, Some mx_store, Onboarding_patch \<lparr>adv_step = Some 6, adv_completed = False\<rparr>), (2, None, Onboarding_get),
     (3, Some mx_store, Onboarding_patch \<lparr>adv_step = Some 5, adv_completed = False\<rparr>),
     (4, Some mx_store, Onboarding_patch \<lparr>adv_step = Some 9, adv_completed = True\<rparr>),
     (5, Some (mx_store\<lparr>store_tenantId := ''e2''\<rparr>), Onboarding_get), (6, Some mx_store, Onboarding_patch \<lparr>adv_step = None, adv_completed = True\<rparr>)]"

theorem onboarding_only_forward_witness:
  "ten_onboarding (fold (\<lambda>(now, store, r) w. snd (OnboardingController now store r w)) mx_calls px_tenancy) =
     [\<lparr>onboarding_enterpriseId = ''e1'', onboarding_currentStep = 6, onboarding_completedAt = Some 6\<rparr>,
      \<lparr>onboarding_enterpriseId = ''e2'', onboarding_currentStep = 5, onboarding_completedAt = None\<rparr>] \<and>
   onboarding_wf (ten_onboarding (fold (\<lambda>(now, store, r) w. snd (OnboardingController now store r w)) mx_calls px_tenancy))"
proof
  show "ten_onboarding (fold (\<lambda>(now, store, r) w. snd (OnboardingController now store r w)) mx_calls px_tenancy) =
     [\<lparr>onboarding_enterpriseId = ''e1'', onboarding_currentStep = 6, onboarding_completedAt = Some 6\<rparr>,
      \<lparr>onboarding_enterpriseId = ''e2'', onboarding_currentStep = 5, onboarding_completedAt = None\<rparr>]" by code_simp
  have "onboarding_wf (ten_onboarding px_tenancy)" by (simp add: onboarding_wf_def px_tenancy_def)
  then show "onboarding_wf (ten_onboarding (fold (\<lambda>(now, store, r) w. snd (OnboardingController now store r w)) mx_calls px_tenancy))"
    using onboarding_only_forward[OF _ refl, of px_tenancy mx_calls] by blast
qed

definition mx_admin :: "string \<Rightarrow> super_admin_input" where
  "mx_admin email = \<lparr>sai_email = email, sai_password = ''Motdepasse1'', sai_firstName = ''Root'', sai_lastName = ''Root''\<rparr>"

definition mx_admin_login :: "string \<Rightarrow> exn + login_result" where
  "mx_admin_login email = fst (AuthController_login (\<lambda>h p. h = p) id px_sign 1000 5 px_fresh (\<lambda>_ s. s) email ''Motdepasse1''
     (snd (createSuperAdmin id id ''secret'' ''u0'' 1 (mx_admin email) (server_db gx_server))))"

theorem super_admin_sign_in_witness:
  "mx_admin_login ''root@erp'' = Inr (mfa_required ''jwt'') \<and> mx_admin_login ''Root@erp'' = Inl GENERIC_LOGIN_ERROR"
proof -
  have made: "fst (createSuperAdmin id id ''secret'' ''u0'' 1 (mx_admin email) (server_db gx_server)) = Inr ''u0'' \<and> js_trim email \<noteq> [] \<and>
      map lower_char (js_trim email) = ''root@erp'' \<and> find_by user_email ''root@erp'' (users (server_db gx_server)) = None"
    if "email \<in> {''root@erp'', ''Root@erp''}" for email
  proof -
    have "list_all (\<lambda>email. fst (createSuperAdmin id id ''secret'' ''u0'' 1 (mx_admin email) (server_db gx_server)) = Inr ''u0'' \<and> js_trim email \<noteq> [] \<and>
      map lower_char (js_trim email) = ''root@erp'' \<and> find_by user_email ''root@erp'' (users (server_db gx_server)) = None) [''root@erp'', ''Root@erp'']"
      by code_simp
    then show ?thesis using that by auto
  qed
  have "mx_admin_login email = (if ''root@erp'' = email then Inr (mfa_required (signMfaChallengeToken px_sign ''u0'')) else Inl GENERIC_LOGIN_ERROR)"
    if "email \<in> {''root@erp'', ''Root@erp''}" for email
  proof -
    have "createSuperAdmin id id ''secret'' ''u0'' 1 (mx_admin email) (server_db gx_server) =
        (Inr ''u0'', snd (createSuperAdmin id id ''secret'' ''u0'' 1 (mx_admin email) (server_db gx_server)))"
      using made[OF that] by (metis prod.collapse)
    from super_admin_sign_in[OF this, of "\<lambda>h p. h = p" id px_sign 1000 5 px_fresh] made[OF that] show ?thesis
      by (simp add: mx_admin_login_def mx_admin_def)
  qed
  then show ?thesis by (simp add: signMfaChallengeToken_def px_sign_def)
qed

end
