(* ===== verification/Sessions.thy ===== *)
theory Sessions
  imports Auth
begin

text \<open>
  The properties of sign-in and of sessions: what a sign-in gives and to whom, the lockout, the end of
  a session that is revoked, and the race by which a session outlives its revocation.
\<close>

section \<open>Revocation\<close>

definition dead_family :: "uuid \<Rightarrow> db \<Rightarrow> bool" where
  "dead_family fam s \<longleftrightarrow> (\<exists>t\<in>set (refreshTokens s). refreshToken_familyId t = fam) \<and>
     (\<forall>t\<in>set (refreshTokens s). refreshToken_familyId t = fam \<longrightarrow> refreshToken_status t \<noteq> Tok_ACTIVE)"

lemma auth_audit_simps [simp]:
  "refreshTokens (auth_audit a b c d e f s) = refreshTokens s" "users (auth_audit a b c d e f s) = users s"
  "enterprises (auth_audit a b c d e f s) = enterprises s" "authTokens (auth_audit a b c d e f s) = authTokens s"
  by (simp_all add: auth_audit_def auditLog_record_def)

lemma dead_family_same: "refreshTokens s' = refreshTokens s \<Longrightarrow> dead_family fam s' = dead_family fam s"
  by (simp add: dead_family_def)

lemma active_not_dead:
  "dead_family fam s \<Longrightarrow> t \<in> set (refreshTokens s) \<Longrightarrow> refreshToken_status t = Tok_ACTIVE \<Longrightarrow> refreshToken_familyId t \<noteq> fam"
  by (auto simp: dead_family_def)

lemma revoke_token_simps [simp]:
  "refreshToken_familyId (revoke_token now t) = refreshToken_familyId t" "refreshToken_id (revoke_token now t) = refreshToken_id t"
  "refreshToken_tokenHash (revoke_token now t) = refreshToken_tokenHash t" "refreshToken_status (revoke_token now t) = Tok_REVOKED"
  "refreshToken_userId (revoke_token now t) = refreshToken_userId t"
  by (simp_all add: revoke_token_def)

lemma dead_family_map:
  assumes "dead_family fam s" and "refreshTokens s' = map f (refreshTokens s)"
    and "\<And>t. refreshToken_familyId (f t) = refreshToken_familyId t"
    and "\<And>t. refreshToken_status (f t) = Tok_ACTIVE \<Longrightarrow> refreshToken_status t = Tok_ACTIVE"
  shows "dead_family fam s'"
  using assms by (auto simp: dead_family_def)

lemma dead_revoke_where: "dead_family fam s \<Longrightarrow> dead_family fam (revoke_where P now s)"
  by (rule dead_family_map[where f = "\<lambda>t. if P t \<and> refreshToken_status t \<noteq> Tok_REVOKED then revoke_token now t else t"])
    (auto simp: revoke_where_def split: if_splits)

lemma set_revoke_where:
  "set (refreshTokens (revoke_where P now s)) =
     (\<lambda>t. if P t \<and> refreshToken_status t \<noteq> Tok_REVOKED then revoke_token now t else t) ` set (refreshTokens s)"
  by (simp add: revoke_where_def)

lemma revoke_where_dead:
  assumes "t \<in> set (refreshTokens s)" and "refreshToken_familyId t = fam"
    and "\<And>x. refreshToken_familyId x = fam \<Longrightarrow> P x"
  shows "dead_family fam (revoke_where P now s)"
  unfolding dead_family_def set_revoke_where ball_simps bex_simps
proof (intro conjI ballI impI)
  show "\<exists>x\<in>set (refreshTokens s). refreshToken_familyId (if P x \<and> refreshToken_status x \<noteq> Tok_REVOKED then revoke_token now x else x) = fam"
    by (rule bexI[OF _ assms(1)]) (simp add: assms(2))
next
  fix x assume x: "refreshToken_familyId (if P x \<and> refreshToken_status x \<noteq> Tok_REVOKED then revoke_token now x else x) = fam"
  show "refreshToken_status (if P x \<and> refreshToken_status x \<noteq> Tok_REVOKED then revoke_token now x else x) \<noteq> Tok_ACTIVE"
  proof (cases "refreshToken_status x = Tok_REVOKED")
    case True
    then show ?thesis by simp
  next
    case False
    have "P x" using x assms(3)[of x] by (cases "P x") simp_all
    with False show ?thesis by simp
  qed
qed

lemma revoke_family_dead:
  "t \<in> set (refreshTokens s) \<Longrightarrow> refreshToken_familyId t = fam \<Longrightarrow> dead_family fam (revoke_family fam now s)"
  unfolding revoke_family_def by (rule revoke_where_dead)

lemma refreshToken_create_InrD:
  "refreshToken_create row s = Inr (r, s') \<Longrightarrow> r = row \<and> s' = s\<lparr>refreshTokens := refreshTokens s @ [row]\<rparr>"
  by (auto simp: refreshToken_create_def split: if_splits)

lemma dead_family_append:
  assumes "dead_family fam s" and "refreshTokens s' = refreshTokens s @ [row]" and "refreshToken_familyId row \<noteq> fam"
  shows "dead_family fam s'"
  using assms by (auto simp: dead_family_def)

lemma dead_family_update:
  assumes "dead_family fam s" and "refreshToken_update i f s = Inr (u, s')"
    and "\<And>t. refreshToken_familyId (f t) = refreshToken_familyId t" and "\<And>t. refreshToken_status (f t) \<noteq> Tok_ACTIVE"
  shows "dead_family fam s'"
  by (rule dead_family_map[OF assms(1), where f = "\<lambda>t. if refreshToken_id t = i then f t else t"])
    (use assms(2-4) in \<open>auto simp: refreshToken_update_def update_by_def split: option.splits if_splits\<close>)

lemma dead_issueTokenPair:
  assumes "dead_family fam s" and "fresh_family fr \<noteq> fam"
  shows "dead_family fam (snd (issueTokenPair h j ttl now fr u e a s))"
proof (cases "refreshToken_create (new_refresh_token h ttl now (fresh_id fr) u (fresh_family fr) (fresh_raw fr)) s")
  case (Inl x)
  then show ?thesis using assms by (simp add: issueTokenPair_def)
next
  case (Inr z)
  then have "refreshTokens (snd z) = refreshTokens s @ [new_refresh_token h ttl now (fresh_id fr) u (fresh_family fr) (fresh_raw fr)]"
    by (auto simp: refreshToken_create_def split: if_splits)
  from dead_family_append[OF assms(1) this] have "dead_family fam (snd z)" using assms(2) by (simp add: new_refresh_token_def)
  then show ?thesis using Inr by (cases z) (simp add: issueTokenPair_def)
qed

lemma user_update_tokens: "user_update i f s = Inr (u, s') \<Longrightarrow> refreshTokens s' = refreshTokens s"
  by (auto simp: user_update_def split: option.splits)

lemma authToken_consume_tokens: "authToken_consume i now s = Inr (u, s') \<Longrightarrow> refreshTokens s' = refreshTokens s"
  by (auto simp: authToken_consume_def split: option.splits)

section \<open>One request after another\<close>

text \<open>
  The requests of the authentication, each run to its end before the next. A family that is drawn
  (\<open>randomUUID\<close>) is a new one.
\<close>

inductive auth_step ::
    "(string \<Rightarrow> string) \<Rightarrow> (jwt_claims \<Rightarrow> string) \<Rightarrow> (string \<Rightarrow> jwt_claims option) \<Rightarrow> db \<Rightarrow> db \<Rightarrow> bool"
  for hashToken jwt_sign jwt_verify where
  login: "fresh_family fr \<notin> refreshToken_familyId ` set (refreshTokens s) \<Longrightarrow>
    auth_step hashToken jwt_sign jwt_verify s (snd (login vp hashToken jwt_sign ttl now fr (\<lambda>_. id) email password s))"
| mfa: "fresh_family fr \<notin> refreshToken_familyId ` set (refreshTokens s) \<Longrightarrow>
    auth_step hashToken jwt_sign jwt_verify s
      (snd (verifyMfaAndIssueTokens jwt_verify mfa_ok hashToken jwt_sign ttl now fr challenge code s))"
| refresh: "auth_step hashToken jwt_sign jwt_verify s (snd (refresh hashToken jwt_sign ttl now fr (\<lambda>_. id) raw s))"
| logout: "auth_step hashToken jwt_sign jwt_verify s (logout hashToken now (\<lambda>_. id) raw userId s)"
| request_reset: "auth_step hashToken jwt_sign jwt_verify s (snd (requestPasswordReset hashToken now fr email s))"
| reset: "auth_step hashToken jwt_sign jwt_verify s (snd (resetPassword hashToken hash_password now (\<lambda>_. id) raw password s))"
| issue_email: "auth_step hashToken jwt_sign jwt_verify s (snd (issueEmailVerificationToken hashToken now fr userId s))"
| verify_email: "auth_step hashToken jwt_sign jwt_verify s (snd (verifyEmail hashToken now (\<lambda>_. id) raw s))"
| accept: "fresh_family fr \<notin> refreshToken_familyId ` set (refreshTokens s) \<Longrightarrow>
    auth_step hashToken jwt_sign jwt_verify s
      (snd (acceptInvitation hashToken hash_password jwt_sign ttl now fr (\<lambda>_. id) raw password s))"
| invite: "auth_step hashToken jwt_sign jwt_verify s (fst (snd (invite hashToken ph now newId fr store e input (s, r))))"
| suspend: "auth_step hashToken jwt_sign jwt_verify s (snd (suspendEnterprise now (\<lambda>_. id) actor e s))"
| reactivate: "auth_step hashToken jwt_sign jwt_verify s (snd (reactivateEnterprise (\<lambda>_. id) actor e s))"

lemma dead_refresh:
  assumes dead: "dead_family fam s"
  shows "dead_family fam (snd (refresh hashToken jwt_sign ttl now fr (\<lambda>_. id) raw s))"
proof -
  let ?hash = "hashToken raw"
  show ?thesis
  proof (cases "find_by refreshToken_tokenHash ?hash (refreshTokens s)")
    case None
    then show ?thesis using dead by (simp add: refresh_def)
  next
    case (Some t)
    show ?thesis
    proof (cases "find_by user_id (refreshToken_userId t) (users s)")
      case None
      then show ?thesis using dead Some by (simp add: refresh_def)
    next
      case u: (Some user)
      have rev: "dead_family fam (auth_audit a b c d e f (revoke_family g now s))" for a b c d e f g
        unfolding dead_family_same[OF auth_audit_simps(1)] revoke_family_def by (rule dead_revoke_where[OF dead])
      have exp: "dead_family fam s1" if "refreshToken_update i (revoke_token now) s = Inr (x, s1)" for i x s1
        by (rule dead_family_update[OF dead that]) simp_all
      have rot: "dead_family fam s2"
        if "refreshToken_status t = Tok_ACTIVE"
          and c: "refreshToken_create (new_refresh_token hashToken ttl now (fresh_id fr) (refreshToken_userId t)
            (refreshToken_familyId t) (fresh_raw fr)) s = Inr (row, s1)"
          and up: "refreshToken_update (refreshToken_id t) (\<lambda>t. t\<lparr>refreshToken_status := Tok_ROTATED,
            refreshToken_replacedByTokenId := Some n\<rparr>) s1 = Inr (x, s2)" for row s1 n x s2
      proof -
        have "refreshToken_familyId t \<noteq> fam" using active_not_dead[OF dead _ that(1)] find_by_SomeD[OF Some] by blast
        then have "dead_family fam s1"
          using refreshToken_create_InrD[OF c] by (intro dead_family_append[OF dead, of s1 row]) (simp_all add: new_refresh_token_def)
        then show ?thesis using up by (rule dead_family_update) simp_all
      qed
      have create: "dead_family fam s1" if "refreshToken_status t = Tok_ACTIVE"
          and c: "refreshToken_create (new_refresh_token hashToken ttl now (fresh_id fr) (refreshToken_userId t)
            (refreshToken_familyId t) (fresh_raw fr)) s = Inr (row, s1)" for row s1
      proof -
        have "refreshToken_familyId t \<noteq> fam" using active_not_dead[OF dead _ that(1)] find_by_SomeD[OF Some] by blast
        then show ?thesis
          using refreshToken_create_InrD[OF c] by (intro dead_family_append[OF dead, of s1 row]) (simp_all add: new_refresh_token_def)
      qed
      note eq = refresh_def Some u
      consider "refreshToken_status t \<noteq> Tok_ACTIVE" | "refreshToken_status t = Tok_ACTIVE" "refreshToken_expiresAt t < now"
        | "refreshToken_status t = Tok_ACTIVE" "\<not> refreshToken_expiresAt t < now" "\<not> active_account user s"
        | "refreshToken_status t = Tok_ACTIVE" "\<not> refreshToken_expiresAt t < now" "active_account user s" by blast
      then show ?thesis
      proof cases
        case 1
        then show ?thesis using rev by (simp add: eq)
      next
        case 2
        show ?thesis
        proof (cases "refreshToken_update (refreshToken_id t) (revoke_token now) s")
          case (Inr z)
          with exp[of _ "fst z" "snd z"] 2 show ?thesis by (cases z) (simp add: eq)
        qed (use 2 dead in \<open>simp add: eq\<close>)
      next
        case 3
        then show ?thesis using rev by (simp add: eq)
      next
        case 4
        show ?thesis
        proof (cases "refreshToken_create (new_refresh_token hashToken ttl now (fresh_id fr) (refreshToken_userId t)
            (refreshToken_familyId t) (fresh_raw fr)) s")
          case (Inl e)
          with 4 dead show ?thesis by (simp add: eq)
        next
          case (Inr z)
          obtain row s1 where z: "z = (row, s1)" by (cases z)
          show ?thesis
          proof (cases "refreshToken_update (refreshToken_id t) (\<lambda>t. t\<lparr>refreshToken_status := Tok_ROTATED,
              refreshToken_replacedByTokenId := Some (refreshToken_id row)\<rparr>) s1")
            case (Inl e)
            with 4 Inr z create[OF 4(1)] show ?thesis by (simp add: eq)
          next
            case up: (Inr y)
            obtain x s2 where y: "y = (x, s2)" by (cases y)
            from rot[OF 4(1) Inr[unfolded z] up[unfolded y]] 4 Inr z up y show ?thesis by (simp add: eq)
          qed
        qed
      qed
    qed
  qed
qed

lemma dead_same: "dead_family fam s \<Longrightarrow> refreshTokens s' = refreshTokens s \<Longrightarrow> dead_family fam s'"
  by (simp add: dead_family_def)

lemma fresh_not_dead: "dead_family fam s \<Longrightarrow> f \<notin> refreshToken_familyId ` set (refreshTokens s) \<Longrightarrow> f \<noteq> fam"
  by (auto simp: dead_family_def)

lemma login_wrong_tokens: "refreshTokens (snd (login_wrong_password now user s)) = refreshTokens s"
  by (auto simp: login_wrong_password_def dest: user_update_tokens split: sum.splits)

lemma dead_login:
  assumes dead: "dead_family fam s" and f: "fresh_family fr \<notin> refreshToken_familyId ` set (refreshTokens s)"
  shows "dead_family fam (snd (login vp hashToken jwt_sign ttl now fr (\<lambda>_. id) email password s))"
proof -
  have right: "dead_family fam (snd (login_right_password hashToken jwt_sign ttl now fr (\<lambda>_. id) user s))" for user
  proof (cases "user_update (user_id user) (\<lambda>r. r\<lparr>user_failedLoginCount := 0, user_lockedUntil := None, user_lastLoginAt := Some now\<rparr>) s")
    case (Inl e)
    then show ?thesis using dead by (simp add: login_right_password_def)
  next
    case (Inr z)
    obtain u s1 where z: "z = (u, s1)" by (cases z)
    have d1: "dead_family fam s1" using user_update_tokens[OF Inr[unfolded z]] by (rule dead_same[OF dead])
    obtain r s2 where i: "issueTokenPair hashToken jwt_sign ttl now fr (user_id user) (user_enterpriseId user) (user_isSuperAdmin user) s1 = (r, s2)"
      by fastforce
    have d2: "dead_family fam s2"
      using dead_issueTokenPair[OF d1 fresh_not_dead[OF dead f], of hashToken jwt_sign ttl now "user_id user" "user_enterpriseId user"
          "user_isSuperAdmin user"] i by simp
    have "dead_family fam (auth_audit a b c d e g s1)" "dead_family fam (auth_audit a b c d e g s2)" for a b c d e g
      using dead_same[OF d1] dead_same[OF d2] by simp_all
    then show ?thesis using d1 d2 Inr z i by (auto simp: login_right_password_def split: sum.splits)
  qed
  have "dead_family fam (snd (login_wrong_password now user s))" for user
    by (rule dead_same[OF dead login_wrong_tokens])
  moreover have "dead_family fam (auth_audit a b c d e g s)" for a b c d e g by (rule dead_same[OF dead]) simp
  ultimately show ?thesis using right by (simp add: login_def split: option.splits)
qed

lemma dead_mfa:
  assumes dead: "dead_family fam s" and f: "fresh_family fr \<notin> refreshToken_familyId ` set (refreshTokens s)"
  shows "dead_family fam (snd (verifyMfaAndIssueTokens jwt_verify mfa_ok hashToken jwt_sign ttl now fr challenge code s))"
proof -
  have i: "dead_family fam s2" if "issueTokenPair hashToken jwt_sign ttl now fr a b c s = (r, s2)" for a b c r s2
    using dead_issueTokenPair[OF dead fresh_not_dead[OF dead f], of hashToken jwt_sign ttl now a b c] that by simp
  have "dead_family fam (auth_audit a b c d e g s2)" if "dead_family fam s2" for a b c d e g s2 by (rule dead_same[OF that]) simp
  with dead i show ?thesis
    by (auto simp: verifyMfaAndIssueTokens_def split: sum.splits option.splits prod.splits)
qed

lemma dead_reset:
  assumes dead: "dead_family fam s"
  shows "dead_family fam (snd (resetPassword hashToken hash_password now (\<lambda>_. id) raw password s))"
proof -
  have tx: "dead_family fam s'" if t: "resetPassword_tx hash_password now a password s = Inr (u, s')" for a u s'
  proof -
    obtain x s1 y s2 where "user_update (authToken_userId a) (\<lambda>u. u\<lparr>user_passwordHash := hash_password password,
          user_failedLoginCount := 0, user_lockedUntil := None\<rparr>) s = Inr (x, s1)"
      and "authToken_consume (authToken_id a) now s1 = Inr (y, s2)"
      and s': "s' = revoke_where (\<lambda>t. refreshToken_userId t = authToken_userId a) now s2"
      using t by (auto simp: resetPassword_tx_def split: sum.splits prod.splits)
    then have "refreshTokens s2 = refreshTokens s" using user_update_tokens authToken_consume_tokens by metis
    then show ?thesis unfolding s' by (intro dead_revoke_where) (rule dead_same[OF dead])
  qed
  have a: "dead_family fam (auth_audit a b c d e g s2)" if "dead_family fam s2" for a b c d e g s2 by (rule dead_same[OF that]) simp
  show ?thesis
  proof (cases "findValidToken hashToken now raw PASSWORD_RESET s")
    case (Some t)
    show ?thesis
    proof (cases "resetPassword_tx hash_password now t password s")
      case (Inr z)
      with tx[of t "fst z" "snd z"] a Some show ?thesis by (cases z) (simp add: resetPassword_def commit_txn_def)
    qed (use dead Some in \<open>simp add: resetPassword_def commit_txn_def\<close>)
  qed (use dead in \<open>simp add: resetPassword_def\<close>)
qed

lemma dead_accept:
  assumes dead: "dead_family fam s" and f: "fresh_family fr \<notin> refreshToken_familyId ` set (refreshTokens s)"
  shows "dead_family fam (snd (acceptInvitation hashToken hash_password jwt_sign ttl now fr (\<lambda>_. id) raw password s))"
proof (cases "findValidToken hashToken now raw INVITATION s")
  case (Some t)
  show ?thesis
  proof (cases "acceptInvitation_tx hash_password now t password s")
    case (Inr z)
    obtain u s1 where z: "z = (u, s1)" by (cases z)
    have "refreshTokens s1 = refreshTokens s"
      using Inr z by (auto simp: acceptInvitation_tx_def dest!: user_update_tokens authToken_consume_tokens split: sum.splits)
    then have "dead_family fam (auth_audit a b c d e g s1)" for a b c d e g by (intro dead_same[OF dead]) simp
    then show ?thesis
      using dead_issueTokenPair[OF _ fresh_not_dead[OF dead f]] Some Inr z by (simp add: acceptInvitation_def commit_txn_def)
  qed (use dead Some in \<open>simp add: acceptInvitation_def commit_txn_def\<close>)
qed (use dead in \<open>simp add: acceptInvitation_def\<close>)

lemma setEnterpriseStatus_tokens: "setEnterpriseStatus e st s = Inr (x, s') \<Longrightarrow> refreshTokens s' = refreshTokens s"
  by (auto simp: setEnterpriseStatus_def split: option.splits)

lemma auth_token_tokens:
  "authToken_create row s = Inr (x, s') \<Longrightarrow> refreshTokens s' = refreshTokens s"
  "user_create u s = Inr (y, s') \<Longrightarrow> refreshTokens s' = refreshTokens s"
  by (auto simp: authToken_create_def user_create_def split: if_splits)

lemma dead_step:
  assumes "auth_step hashToken jwt_sign jwt_verify s s'" and dead: "dead_family fam s"
  shows "dead_family fam s'"
  using assms(1)
proof cases
  case login
  then show ?thesis using dead_login[OF dead] by simp
next
  case mfa
  then show ?thesis using dead_mfa[OF dead] by simp
next
  case refresh
  then show ?thesis using dead_refresh[OF dead] by simp
next
  case (logout now raw userId)
  have "dead_family fam (auth_audit a b c d e g (revoke_family x now s))" for a b c d e g x
    unfolding dead_family_same[OF auth_audit_simps(1)] revoke_family_def by (rule dead_revoke_where[OF dead])
  then show ?thesis using dead logout by (simp add: logout_def Let_def split: option.splits)
next
  case (request_reset now fr email)
  then have "refreshTokens s' = refreshTokens s"
    by (auto simp: requestPasswordReset_def Let_def dest!: auth_token_tokens split: option.splits sum.splits)
  then show ?thesis by (rule dead_same[OF dead])
next
  case reset
  then show ?thesis using dead_reset[OF dead] by simp
next
  case (issue_email now fr userId)
  then have "refreshTokens s' = refreshTokens s"
    by (auto simp: issueEmailVerificationToken_def dest!: auth_token_tokens split: sum.splits)
  then show ?thesis by (rule dead_same[OF dead])
next
  case (verify_email now raw)
  then have "refreshTokens s' = refreshTokens s"
    by (auto simp: verifyEmail_def verifyEmail_tx_def commit_txn_def dest!: user_update_tokens authToken_consume_tokens
        split: option.splits sum.splits prod.splits)
  then show ?thesis by (rule dead_same[OF dead])
next
  case accept
  then show ?thesis using dead_accept[OF dead] by simp
next
  case (invite ph now newId fr store e input r)
  then have "refreshTokens s' = refreshTokens s"
    by (auto simp: invite_def invite_tx_def commit_txn_def dest!: auth_token_tokens split: option.splits sum.splits prod.splits if_splits)
  then show ?thesis by (rule dead_same[OF dead])
next
  case (suspend now actor e)
  have "dead_family fam (auditLog_record a (revokeAllRefreshTokensForEnterprise e now s1))" if "refreshTokens s1 = refreshTokens s" for a s1
    by (rule dead_same[of fam "revokeAllRefreshTokensForEnterprise e now s1"])
      (use dead_same[OF dead that] in \<open>simp_all add: revokeAllRefreshTokensForEnterprise_def dead_revoke_where auditLog_record_def\<close>)
  then show ?thesis using dead suspend
    by (auto simp: suspendEnterprise_def dest: setEnterpriseStatus_tokens split: option.splits sum.splits)
next
  case (reactivate actor e)
  then have "refreshTokens s' = refreshTokens s"
    by (auto simp: reactivateEnterprise_def auditLog_record_def dest!: setEnterpriseStatus_tokens split: option.splits sum.splits)
  then show ?thesis by (rule dead_same[OF dead])
qed

lemma dead_run: "(auth_step hashToken jwt_sign jwt_verify)\<^sup>*\<^sup>* s s' \<Longrightarrow> dead_family fam s \<Longrightarrow> dead_family fam s'"
  by (induction rule: rtranclp_induct) (auto intro: dead_step)

lemma dead_refresh_refused:
  assumes "dead_family fam s" and "find_by refreshToken_tokenHash (hashToken raw) (refreshTokens s) = Some t"
    and "refreshToken_familyId t = fam"
  shows "\<exists>e. fst (refresh hashToken jwt_sign ttl now fr others raw s) = Inl e"
proof -
  have "refreshToken_status t \<noteq> Tok_ACTIVE" using active_not_dead[OF assms(1)] find_by_SomeD[OF assms(2)] assms(3) by blast
  then show ?thesis by (simp add: refresh_def assms(2) split: option.splits)
qed

section \<open>Failed attempts\<close>

lemma find_by_update_column:
  assumes "\<And>r. col (f r) = col r"
  shows "find_by col k (update_by key i f rows) = map_option (\<lambda>r. if key r = i then f r else r) (find_by col k rows)"
  using assms by (induction rows) auto

lemma failed_login_simps [simp]:
  "user_email (failed_login now seen r) = user_email r" "user_id (failed_login now seen r) = user_id r"
  "user_passwordHash (failed_login now seen r) = user_passwordHash r" "user_status (failed_login now seen r) = user_status r"
  "user_enterpriseId (failed_login now seen r) = user_enterpriseId r"
  "user_failedLoginCount (failed_login now seen r) = user_failedLoginCount seen + 1"
  by (simp_all add: failed_login_def)

lemma auth_audit_active [simp]: "active_account u (auth_audit a b c d e f s) = active_account u s"
  by (simp add: active_account_def cong: option.case_cong)

text \<open>One wrong password: the row of the user after it.\<close>

lemma login_wrong_row:
  assumes "find_by user_email email (users s) = Some u" and "\<not> is_locked now u" and "active_account u s"
    and "\<not> vp (user_passwordHash u) password"
  shows "find_by user_email email (users (snd (login vp h j ttl now fr (\<lambda>_. id) email password s))) = Some (failed_login now u u) \<and>
    enterprises (snd (login vp h j ttl now fr (\<lambda>_. id) email password s)) = enterprises s"
proof -
  have "u \<in> set (users s)" using find_by_SomeD[OF assms(1)] by simp
  then have "find_by user_id (user_id u) (users s) \<noteq> None" by (simp add: find_by_None_iff)
  then obtain r where "find_by user_id (user_id u) (users s) = Some r" by blast
  then show ?thesis
    using assms by (simp add: login_def login_wrong_password_def user_update_def find_by_update_column)
qed

abbreviation attempts :: "(string \<Rightarrow> string \<Rightarrow> bool) \<Rightarrow> (string \<Rightarrow> string) \<Rightarrow> (jwt_claims \<Rightarrow> string) \<Rightarrow> int \<Rightarrow> fresh \<Rightarrow> string \<Rightarrow>
    (date \<times> string) list \<Rightarrow> db \<Rightarrow> db" where
  "attempts vp h j ttl fr email tries s \<equiv> foldl (\<lambda>s (now, pw). snd (login vp h j ttl now fr (\<lambda>_. id) email pw s)) s tries"

lemma attempts_below_limit:
  assumes "find_by user_email email (users s) = Some u" and "user_lockedUntil u = None" and "active_account u s"
    and "\<forall>(now, pw)\<in>set tries. \<not> vp (user_passwordHash u) pw" and "user_failedLoginCount u + int (length tries) < MAX_FAILED_LOGIN_ATTEMPTS"
  shows "\<exists>u'. find_by user_email email (users (attempts vp h j ttl fr email tries s)) = Some u' \<and> user_lockedUntil u' = None \<and>
    active_account u' (attempts vp h j ttl fr email tries s) \<and> user_passwordHash u' = user_passwordHash u \<and>
    user_failedLoginCount u' = user_failedLoginCount u + int (length tries)"
  using assms
proof (induction tries arbitrary: s u)
  case (Cons x tries)
  obtain now pw where x: "x = (now, pw)" by (cases x)
  let ?s1 = "snd (login vp h j ttl now fr (\<lambda>_. id) email pw s)"
  have nl: "\<not> is_locked now u" using Cons.prems(2) by (simp add: is_locked_def)
  have "\<not> vp (user_passwordHash u) pw" using Cons.prems(4) x by simp
  from login_wrong_row[where vp = vp, OF Cons.prems(1) nl Cons.prems(3) this, of h j ttl fr]
  have row: "find_by user_email email (users ?s1) = Some (failed_login now u u)" and ent: "enterprises ?s1 = enterprises s" by simp_all
  have 2: "user_lockedUntil (failed_login now u u) = None" using Cons.prems(2,5) by (simp add: failed_login_def)
  have 3: "active_account (failed_login now u u) ?s1" using Cons.prems(3) by (simp add: active_account_def ent cong: option.case_cong)
  have 4: "\<forall>(now', pw')\<in>set tries. \<not> vp (user_passwordHash (failed_login now u u)) pw'" using Cons.prems(4) by simp
  have 5: "user_failedLoginCount (failed_login now u u) + int (length tries) < MAX_FAILED_LOGIN_ATTEMPTS" using Cons.prems(5) by simp
  have step: "attempts vp h j ttl fr email (x # tries) s = attempts vp h j ttl fr email tries ?s1" by (simp add: x)
  have eqs: "user_passwordHash (failed_login now u u) = user_passwordHash u"
    "user_failedLoginCount (failed_login now u u) + int (length tries) = user_failedLoginCount u + int (length (x # tries))" by simp_all
  show ?case unfolding step by (rule Cons.IH[OF row 2 3 4 5, unfolded eqs])
qed auto

text \<open>
  A second attempt that runs between the reading and the writing of a first one is not counted: the
  counter is written from the value read.
\<close>

lemma concurrent_failures_count_once:
  assumes "find_by user_email email (users s) = Some u" and "\<not> is_locked now u" and "active_account u s"
    and "\<not> vp (user_passwordHash u) pw1" and "\<not> vp (user_passwordHash u) pw2"
  shows "\<exists>r. find_by user_email email (users (snd (login vp h j ttl now fr
      (\<lambda>_ t. snd (login vp h j ttl now fr' (\<lambda>_. id) email pw2 t)) email pw1 s))) = Some r \<and>
    user_failedLoginCount r = user_failedLoginCount u + 1"
proof -
  let ?s1 = "snd (login vp h j ttl now fr' (\<lambda>_. id) email pw2 s)"
  from login_wrong_row[where vp = vp, OF assms(1,2,3,5), of h j ttl fr']
  have row: "find_by user_email email (users ?s1) = Some (failed_login now u u)" by simp
  then have "failed_login now u u \<in> set (users ?s1)" by (auto dest: find_by_SomeD)
  then have "find_by user_id (user_id u) (users ?s1) \<noteq> None"
    unfolding find_by_None_iff by (metis failed_login_simps(2) imageI)
  then obtain r where "find_by user_id (user_id u) (users ?s1) = Some r" by blast
  then show ?thesis using assms row
    by (simp add: login_def[of vp h j ttl now fr] login_wrong_password_def user_update_def find_by_update_column)
qed

section \<open>A concrete world\<close>

text \<open>
  A toy codec of claims (each character escaped, each string closed), toy hashes, one user and one
  active refresh token: the world in which the properties are instantiated.
\<close>

definition enc_string :: "string \<Rightarrow> string" where
  "enc_string v = concat (map (\<lambda>c. [CHR ''a'', c]) v) @ [CHR ''b'']"

fun dec_string :: "string \<Rightarrow> (string \<times> string) option" where
  "dec_string [] = None"
| "dec_string [b] = (if b = CHR ''b'' then Some ([], []) else None)"
| "dec_string (a # c # rest) = (if a = CHR ''b'' then Some ([], c # rest)
     else case dec_string rest of None \<Rightarrow> None | Some (v, r) \<Rightarrow> Some (c # v, r))"

lemma dec_enc_string: "dec_string (enc_string v @ r) = Some (v, r)"
proof (induction v)
  case Nil
  then show ?case by (cases r) (simp_all add: enc_string_def)
next
  case (Cons c v)
  then show ?case by (simp add: enc_string_def)
qed

fun enc_option :: "string option \<Rightarrow> string" where
  "enc_option None = ''n''"
| "enc_option (Some v) = CHR ''s'' # enc_string v"

definition dec_option :: "string \<Rightarrow> (string option \<times> string) option" where
  "dec_option t = (case t of [] \<Rightarrow> None
     | c # rest \<Rightarrow> if c = CHR ''n'' then Some (None, rest) else map_option (\<lambda>(v, r). (Some v, r)) (dec_string rest))"

lemma dec_enc_option: "dec_option (enc_option v @ r) = Some (v, r)"
  by (cases v) (simp_all add: dec_option_def dec_enc_string)

definition fx_sign :: "jwt_claims \<Rightarrow> string" where
  "fx_sign c = enc_string (claim_sub c) @ enc_option (claim_typ c) @ enc_option (claim_type c) @
     enc_option (claim_enterpriseId c) @ (if claim_isSuperAdmin c then ''t'' else ''f'')"

definition fx_verify :: "string \<Rightarrow> jwt_claims option" where
  "fx_verify t = (case dec_string t of None \<Rightarrow> None
     | Some (sub, t1) \<Rightarrow> (case dec_option t1 of None \<Rightarrow> None
     | Some (typ, t2) \<Rightarrow> (case dec_option t2 of None \<Rightarrow> None
     | Some (typ', t3) \<Rightarrow> (case dec_option t3 of None \<Rightarrow> None
     | Some (e, t4) \<Rightarrow> Some \<lparr>claim_sub = sub, claim_typ = typ, claim_type = typ', claim_enterpriseId = e,
         claim_isSuperAdmin = (t4 = ''t'')\<rparr>))))"

lemma fx_verify_sign: "fx_verify (fx_sign c) = Some c"
  by (simp add: fx_verify_def fx_sign_def dec_enc_string dec_enc_option)

definition fx_hash :: "string \<Rightarrow> string" where "fx_hash v = CHR ''h'' # v"
definition fx_password :: "string \<Rightarrow> string \<Rightarrow> bool" where "fx_password stored given_password \<longleftrightarrow> stored = fx_hash given_password"

definition fx_user :: "bool \<Rightarrow> user" where
  "fx_user superAdmin =
     \<lparr>user_id = ''u1'', user_email = ''a@b'', user_passwordHash = fx_hash ''pw'', user_firstName = ''A'',
      user_lastName = ''B'', user_phone = None, user_enterpriseId = (if superAdmin then None else Some ''e1''),
      user_isSuperAdmin = superAdmin, user_status = Usr_ACTIVE, user_mfaEnabled = superAdmin, user_mfaSecret = Some ''m'',
      user_emailVerifiedAt = None, user_failedLoginCount = 0, user_lockedUntil = None, user_lastLoginAt = None, user_createdAt = 0\<rparr>"

definition fx_fresh :: fresh where "fx_fresh = \<lparr>fresh_id = ''t2'', fresh_raw = ''raw2'', fresh_family = ''f2''\<rparr>"

definition fx_token :: refresh_token where
  "fx_token = new_refresh_token fx_hash 1000 0 ''t1'' ''u1'' ''f1'' ''raw1''"

definition fx_session_db :: "bool \<Rightarrow> db" where
  "fx_session_db superAdmin = fx_db\<lparr>users := [fx_user superAdmin], refreshTokens := [fx_token]\<rparr>"

section \<open>Properties\<close>

text \<open>
  C38. What a sign-in gives: only the right password of an active, unlocked account succeeds. A Super
  Admin then gets nothing but a challenge, which no guard accepts as a session and which creates no
  refresh token; anyone else gets an access token that stands for exactly this user and enterprise,
  is no challenge, and one new active refresh token of this user.
\<close>

theorem sign_in_grants:
  assumes "\<And>c. jwt_verify (jwt_sign c) = Some c"
    and "login verify_password hashToken jwt_sign ttl now fr (\<lambda>_. id) email password s = (Inr r, s')"
  shows "\<exists>u. find_by user_email email (users s) = Some u \<and> \<not> is_locked now u \<and> active_account u s \<and>
    verify_password (user_passwordHash u) password \<and>
    (case r of
       mfa_required token \<Rightarrow> user_isSuperAdmin u \<and> user_mfaEnabled u \<and> refreshTokens s' = refreshTokens s \<and>
         verifyMfaChallengeToken jwt_verify token = Inr (user_id u) \<and>
         fst (JwtAuthGuard_canActivate jwt_verify t n n' others s' (Some (''Bearer '' @ token)) cache) =
           Inl (UnauthorizedException ''Jeton invalide ou expire'')
     | signed_in accessToken refreshToken \<Rightarrow> \<not> user_isSuperAdmin u \<and>
         verifyAccessToken jwt_verify accessToken =
           Inr \<lparr>token_sub = user_id u, token_enterpriseId = user_enterpriseId u, token_isSuperAdmin = False\<rparr> \<and>
         (\<exists>e. verifyMfaChallengeToken jwt_verify accessToken = Inl e) \<and>
         (\<exists>row. refreshTokens s' = refreshTokens s @ [row] \<and> refreshToken_tokenHash row = hashToken refreshToken \<and>
            refreshToken_userId row = user_id u \<and> refreshToken_status row = Tok_ACTIVE \<and> refreshToken_expiresAt row = now + ttl))"
proof -
  obtain u where u: "find_by user_email email (users s) = Some u" using assms(2) by (cases "find_by user_email email (users s)") (simp_all add: login_def)
  have l: "\<not> is_locked now u" using assms(2) u by (auto simp: login_def)
  have a: "active_account u s" using assms(2) u l by (cases "active_account u s") (simp_all add: login_def)
  have v: "verify_password (user_passwordHash u) password"
    using assms(2) u l a by (cases "verify_password (user_passwordHash u) password")
      (auto simp: login_def login_wrong_password_def split: sum.splits)
  have run: "login_right_password hashToken jwt_sign ttl now fr (\<lambda>_. id) u s = (Inr r, s')"
    using assms(2) u l a v by (simp add: login_def)
  obtain x s1 where s1: "user_update (user_id u) (\<lambda>r. r\<lparr>user_failedLoginCount := 0, user_lockedUntil := None,
      user_lastLoginAt := Some now\<rparr>) s = Inr (x, s1)"
    using run by (auto simp: login_right_password_def split: sum.splits)
  note same = user_update_tokens[OF s1]
  note v4 = verify_sign_access[where jwt_verify = jwt_verify and jwt_sign = jwt_sign, OF assms(1)]
  show ?thesis
  proof (cases "user_isSuperAdmin u")
    case True
    then have r: "r = mfa_required (signMfaChallengeToken jwt_sign (user_id u))" "user_mfaEnabled u" "s' = s1"
      using run by (auto simp: login_right_password_def s1 split: if_splits)
    obtain e where "verifyAccessToken jwt_verify (signMfaChallengeToken jwt_sign (user_id u)) = Inl e" using v4(2) by blast
    then show ?thesis using u l a v True same r v4(3)[of "user_id u"]
      by (auto simp: JwtAuthGuard_canActivate_def bearer_token_def)
  next
    case False
    then obtain tokens s2 where i: "issueTokenPair hashToken jwt_sign ttl now fr (user_id u) (user_enterpriseId u) False s1 = (Inr tokens, s2)"
      and r: "r = signed_in (fst tokens) (snd tokens)" "refreshTokens s' = refreshTokens s2"
      using run by (auto simp: login_right_password_def s1 split: sum.splits prod.splits)
    obtain row s3 where c: "refreshToken_create (new_refresh_token hashToken ttl now (fresh_id fr) (user_id u) (fresh_family fr) (fresh_raw fr)) s1 = Inr (row, s3)"
      using i by (auto simp: issueTokenPair_def split: sum.splits)
    have "tokens = (signAccessToken jwt_sign (user_id u) (user_enterpriseId u) False, fresh_raw fr)" "s2 = s3"
      using i by (simp_all add: issueTokenPair_def c)
    then show ?thesis using u l a v False r refreshToken_create_InrD[OF c] same v4(1) v4(4)
      by (auto simp: new_refresh_token_def)
  qed
qed

lemma sign_in_grants_witness:
  "\<exists>token s'. login fx_password fx_hash fx_sign 1000 5 fx_fresh (\<lambda>_. id) ''a@b'' ''pw'' (fx_session_db True) = (Inr (mfa_required token), s') \<and>
     fst (JwtAuthGuard_canActivate fx_verify 0 0 0 id s' (Some (''Bearer '' @ token)) Map.empty) = Inl (UnauthorizedException ''Jeton invalide ou expire'')"
proof -
  let ?run = "login fx_password fx_hash fx_sign 1000 5 fx_fresh (\<lambda>_. id) ''a@b'' ''pw'' (fx_session_db True)"
  have "fst ?run = Inr (mfa_required (fx_sign (challenge_claims ''u1'')))" by code_simp
  then have run: "?run = (Inr (mfa_required (fx_sign (challenge_claims ''u1''))), snd ?run)" by (metis prod.collapse)
  show ?thesis
    using sign_in_grants[where jwt_verify = fx_verify and jwt_sign = fx_sign and t = 0 and n = 0 and n' = 0 and others = id
        and cache = Map.empty, OF fx_verify_sign run] run by auto
qed

text \<open>
  C39. Five wrong passwords in a row lock the account: during the following fifteen minutes even the
  right password is refused, with the same message as any other failure, and no token is issued.
\<close>

theorem lockout_after_five:
  assumes "find_by user_email email (users s) = Some u" and "user_lockedUntil u = None" and "user_failedLoginCount u = 0"
    and "active_account u s" and "length tries = 5" and "\<forall>(now, pw)\<in>set tries. \<not> verify_password (user_passwordHash u) pw"
    and "now < fst (last tries) + 15 * 60 * 1000"
  shows "\<exists>s2. login verify_password hashToken jwt_sign ttl now fr others email password
      (foldl (\<lambda>s (now, pw). snd (login verify_password hashToken jwt_sign ttl now fr (\<lambda>_. id) email pw s)) s tries) =
      (Inl (UnauthorizedException ''Identifiants invalides''), s2) \<and>
    refreshTokens s2 = refreshTokens (foldl (\<lambda>s (now, pw). snd (login verify_password hashToken jwt_sign ttl now fr (\<lambda>_. id) email pw s)) s tries)"
proof -
  obtain first t5 p5 where tries: "tries = first @ [(t5, p5)]" and l4: "length first = 4"
    using assms(5) by (cases tries rule: rev_cases) auto
  let ?s4 = "attempts verify_password hashToken jwt_sign ttl fr email first s"
  obtain u4 where u4: "find_by user_email email (users ?s4) = Some u4" "user_lockedUntil u4 = None" "active_account u4 ?s4"
      "user_passwordHash u4 = user_passwordHash u" "user_failedLoginCount u4 = 4"
    using attempts_below_limit[OF assms(1,2,4), of first verify_password hashToken jwt_sign ttl fr] assms(3,6) l4 tries
    by (auto simp: MAX_FAILED_LOGIN_ATTEMPTS_def)
  have "\<not> is_locked t5 u4" using u4(2) by (simp add: is_locked_def)
  moreover have "\<not> verify_password (user_passwordHash u4) p5" using assms(6) tries u4(4) by simp
  ultimately have row: "find_by user_email email (users (snd (login verify_password hashToken jwt_sign ttl t5 fr (\<lambda>_. id) email p5 ?s4))) =
      Some (failed_login t5 u4 u4)"
    using login_wrong_row[where vp = verify_password, OF u4(1) _ u4(3)] by blast
  have "is_locked now (failed_login t5 u4 u4)"
    using assms(7) tries u4(5) by (simp add: is_locked_def failed_login_def MAX_FAILED_LOGIN_ATTEMPTS_def LOCKOUT_DURATION_MS_def)
  then show ?thesis using row by (simp add: tries login_def[of verify_password hashToken jwt_sign ttl now fr others email password])
qed

lemma lockout_after_five_witness:
  "\<exists>s2. login fx_password fx_hash fx_sign 1000 800000 fx_fresh (\<lambda>_ t. t) ''a@b'' ''pw''
      (foldl (\<lambda>s (now, pw). snd (login fx_password fx_hash fx_sign 1000 now fx_fresh (\<lambda>_. id) ''a@b'' pw s)) (fx_session_db False)
        [(0, ''x''), (1, ''x''), (2, ''y''), (3, ''x''), (4, ''x'')]) = (Inl (UnauthorizedException ''Identifiants invalides''), s2)"
proof -
  have row: "find_by user_email ''a@b'' (users (fx_session_db False)) = Some (fx_user False)" by code_simp
  have st: "user_lockedUntil (fx_user False) = None" "user_failedLoginCount (fx_user False) = 0" by (simp_all add: fx_user_def)
  have act: "active_account (fx_user False) (fx_session_db False)" by code_simp
  have len: "length [(0 :: int, ''x''), (1, ''x''), (2, ''y''), (3, ''x''), (4, ''x'')] = 5" by simp
  have wrong: "\<forall>(now, pw)\<in>set [(0 :: int, ''x''), (1, ''x''), (2, ''y''), (3, ''x''), (4, ''x'')]. \<not> fx_password (user_passwordHash (fx_user False)) pw"
    by (simp add: fx_password_def fx_hash_def fx_user_def)
  have t: "800000 < fst (last [(0 :: int, ''x''), (1, ''x''), (2, ''y''), (3, ''x''), (4, ''x'')]) + 15 * 60 * 1000" by simp
  show ?thesis
    using lockout_after_five[where verify_password = fx_password and hashToken = fx_hash and jwt_sign = fx_sign and ttl = 1000
        and fr = fx_fresh and others = "\<lambda>_ t. t" and password = "''pw''", OF row st act len wrong t] by blast
qed

text \<open>
  C40. The end of a session is final: once a refresh token is presented that was already used (or
  revoked), or its owner signs out, no sequence of later requests brings the session back, and every
  token of its family, whoever holds it, is refused from then on.
\<close>

theorem ended_session_stays_dead:
  assumes "find_by refreshToken_tokenHash (hashToken raw) (refreshTokens s) = Some t"
    and "find_by user_id (refreshToken_userId t) (users s) \<noteq> None"
    and "refreshToken_status t \<noteq> Tok_ACTIVE \<and> s1 = snd (refresh hashToken jwt_sign ttl now fr (\<lambda>_. id) raw s) \<or>
         s1 = logout hashToken now (\<lambda>_. id) raw (refreshToken_userId t) s"
    and "(auth_step hashToken jwt_sign jwt_verify)\<^sup>*\<^sup>* s1 s2"
    and "find_by refreshToken_tokenHash (hashToken raw') (refreshTokens s2) = Some t'"
    and "refreshToken_familyId t' = refreshToken_familyId t"
  shows "refreshToken_status t' \<noteq> Tok_ACTIVE \<and> (\<exists>e. fst (refresh hashToken jwt_sign ttl' now' fr' others raw' s2) = Inl e)"
proof -
  obtain user where u: "find_by user_id (refreshToken_userId t) (users s) = Some user" using assms(2) by blast
  have mem: "t \<in> set (refreshTokens s)" using find_by_SomeD[OF assms(1)] by simp
  have d: "dead_family (refreshToken_familyId t) (auth_audit a b c d e g (revoke_family (refreshToken_familyId t) now s))" for a b c d e g
    by (rule dead_same[OF revoke_family_dead[OF mem refl]]) simp
  have reuse: "dead_family (refreshToken_familyId t) (snd (refresh hashToken jwt_sign ttl now fr (\<lambda>_. id) raw s))"
    if "refreshToken_status t \<noteq> Tok_ACTIVE"
    unfolding refresh_def assms(1) u option.case if_P[OF that] snd_conv id_apply by (rule d)
  have out: "dead_family (refreshToken_familyId t) (logout hashToken now (\<lambda>_. id) raw (refreshToken_userId t) s)"
    unfolding logout_def assms(1) option.case Let_def id_apply using d by simp
  have "dead_family (refreshToken_familyId t) s1" using assms(3) reuse out by blast
  then have dead: "dead_family (refreshToken_familyId t) s2" by (rule dead_run[OF assms(4)])
  then have "refreshToken_status t' \<noteq> Tok_ACTIVE"
    using active_not_dead[OF dead] find_by_SomeD[OF assms(5)] assms(6) by blast
  then show ?thesis using dead_refresh_refused[where hashToken = hashToken and raw = raw', OF dead assms(5,6)] by blast
qed

lemma ended_session_stays_dead_witness:
  "\<exists>e. fst (refresh fx_hash fx_sign 1000 7 fx_fresh (\<lambda>_. id) ''raw1''
     (snd (login fx_password fx_hash fx_sign 1000 6 fx_fresh (\<lambda>_. id) ''a@b'' ''pw''
       (logout fx_hash 5 (\<lambda>_. id) ''raw1'' ''u1'' (fx_session_db False))))) = Inl e"
proof -
  let ?s1 = "logout fx_hash 5 (\<lambda>_. id) ''raw1'' ''u1'' (fx_session_db False)"
  let ?s2 = "snd (login fx_password fx_hash fx_sign 1000 6 fx_fresh (\<lambda>_. id) ''a@b'' ''pw'' ?s1)"
  have row: "find_by refreshToken_tokenHash (fx_hash ''raw1'') (refreshTokens (fx_session_db False)) = Some fx_token" by code_simp
  have user: "find_by user_id (refreshToken_userId fx_token) (users (fx_session_db False)) \<noteq> None" by code_simp
  have id: "refreshToken_userId fx_token = ''u1''" by (simp add: fx_token_def new_refresh_token_def)
  have "fresh_family fx_fresh \<notin> refreshToken_familyId ` set (refreshTokens ?s1)" by code_simp
  then have run: "(auth_step fx_hash fx_sign fx_verify)\<^sup>*\<^sup>* ?s1 ?s2" by (intro r_into_rtranclp auth_step.login)
  have row2: "find_by refreshToken_tokenHash (fx_hash ''raw1'') (refreshTokens ?s2) = Some (revoke_token 5 fx_token)" by code_simp
  have fam: "refreshToken_familyId (revoke_token 5 fx_token) = refreshToken_familyId fx_token" by simp
  have end_: "refreshToken_status fx_token \<noteq> Tok_ACTIVE \<and> ?s1 = snd (refresh fx_hash fx_sign 0 5 fx_fresh (\<lambda>_. id) ''raw1'' (fx_session_db False)) \<or>
      ?s1 = logout fx_hash 5 (\<lambda>_. id) ''raw1'' (refreshToken_userId fx_token) (fx_session_db False)" by (simp add: id)
  show ?thesis
    using ended_session_stays_dead[OF row user end_ run row2 fam, where others = "\<lambda>_. id" and ttl' = 1000 and now' = 7 and fr' = fx_fresh] by blast
qed

text \<open>
  A refresh that has already read its token when the owner signs out is not stopped: it inserts a
  new active token into the family that has just been revoked, answers with it, and the session goes
  on after the sign-out.
\<close>

theorem refresh_outlives_logout:
  assumes "find_by refreshToken_tokenHash (hashToken raw) (refreshTokens s) = Some t" and "refreshToken_status t = Tok_ACTIVE"
    and "\<not> refreshToken_expiresAt t < now"
    and "find_by user_id (refreshToken_userId t) (users s) = Some user" and "active_account user s"
    and "\<forall>x\<in>set (refreshTokens s). refreshToken_tokenHash x \<noteq> hashToken (fresh_raw fr) \<and> refreshToken_id x \<noteq> fresh_id fr"
  shows "\<exists>access s' row. refresh hashToken jwt_sign ttl now fr
      (\<lambda>i. if i = 0 then logout hashToken now (\<lambda>_. id) raw (refreshToken_userId t) else id) raw s = (Inr (access, fresh_raw fr), s') \<and>
    find_by refreshToken_tokenHash (hashToken (fresh_raw fr)) (refreshTokens s') = Some row \<and>
    refreshToken_familyId row = refreshToken_familyId t \<and> refreshToken_status row = Tok_ACTIVE"
proof -
  define s0 where "s0 = logout hashToken now (\<lambda>_. id) raw (refreshToken_userId t) s"
  define row where "row = new_refresh_token hashToken ttl now (fresh_id fr) (refreshToken_userId t) (refreshToken_familyId t) (fresh_raw fr)"
  let ?others = "\<lambda>i. if i = (0 :: nat) then logout hashToken now (\<lambda>_. id) raw (refreshToken_userId t) else id"
  let ?f = "\<lambda>x. if refreshToken_familyId x = refreshToken_familyId t \<and> refreshToken_status x \<noteq> Tok_REVOKED then revoke_token now x else x"
  have row: "refreshToken_id row = fresh_id fr" "refreshToken_tokenHash row = hashToken (fresh_raw fr)"
    "refreshToken_familyId row = refreshToken_familyId t" "refreshToken_status row = Tok_ACTIVE"
    by (simp_all add: row_def new_refresh_token_def)
  have rows: "refreshTokens s0 = map ?f (refreshTokens s)"
    by (simp add: s0_def logout_def assms(1) Let_def revoke_family_def revoke_where_def)
  have free: "\<not> (\<exists>x\<in>set (refreshTokens s0). refreshToken_tokenHash x = refreshToken_tokenHash row \<or> refreshToken_id x = refreshToken_id row)"
    using assms(6) unfolding rows row by auto
  define s1 where "s1 = s0\<lparr>refreshTokens := refreshTokens s0 @ [row]\<rparr>"
  have create: "refreshToken_create row s0 = Inr (row, s1)" using free by (auto simp: refreshToken_create_def s1_def)
  have mem: "t \<in> set (refreshTokens s)" using find_by_SomeD[OF assms(1)] by simp
  have "?f t \<in> set (refreshTokens s1)" using mem by (simp add: s1_def rows)
  then have "refreshToken_id t \<in> refreshToken_id ` set (refreshTokens s1)" by (rule rev_image_eqI) simp
  then obtain r where r: "find_by refreshToken_id (refreshToken_id t) (refreshTokens s1) = Some r"
    by (cases "find_by refreshToken_id (refreshToken_id t) (refreshTokens s1)") (auto simp: find_by_None_iff)
  let ?g = "\<lambda>x. x\<lparr>refreshToken_status := Tok_ROTATED, refreshToken_replacedByTokenId := Some (refreshToken_id row)\<rparr>"
  define s2 where "s2 = s1\<lparr>refreshTokens := update_by refreshToken_id (refreshToken_id t) ?g (refreshTokens s1)\<rparr>"
  have up: "refreshToken_update (refreshToken_id t) ?g s1 = Inr ((), s2)" by (simp add: refreshToken_update_def r s2_def)
  have run: "refresh hashToken jwt_sign ttl now fr ?others raw s =
      (Inr (signAccessToken jwt_sign (user_id user) (user_enterpriseId user) (user_isSuperAdmin user), fresh_raw fr), s2)"
    unfolding refresh_def using assms(2,3,5)
    by (simp add: assms(1) assms(4) s0_def[symmetric] row_def[symmetric] create up)
  have "refreshToken_id row \<noteq> refreshToken_id t" using assms(6) mem by (auto simp: row)
  moreover have "find_by refreshToken_tokenHash (hashToken (fresh_raw fr)) (refreshTokens s0) = None"
    using free by (auto simp: find_by_None_iff row)
  ultimately have "find_by refreshToken_tokenHash (hashToken (fresh_raw fr)) (refreshTokens s2) = Some row"
    by (simp add: s2_def find_by_update_column s1_def row)
  then show ?thesis using run row(3,4) by blast
qed

lemma refresh_outlives_logout_witness:
  "\<exists>access s' row. refresh fx_hash fx_sign 1000 5 fx_fresh
      (\<lambda>i. if i = 0 then logout fx_hash 5 (\<lambda>_. id) ''raw1'' (refreshToken_userId fx_token) else id) ''raw1'' (fx_session_db False) =
        (Inr (access, fresh_raw fx_fresh), s') \<and>
    find_by refreshToken_tokenHash (fx_hash (fresh_raw fx_fresh)) (refreshTokens s') = Some row \<and>
    refreshToken_familyId row = refreshToken_familyId fx_token \<and> refreshToken_status row = Tok_ACTIVE"
proof -
  have a: "find_by refreshToken_tokenHash (fx_hash ''raw1'') (refreshTokens (fx_session_db False)) = Some fx_token" by code_simp
  have b: "refreshToken_status fx_token = Tok_ACTIVE" "\<not> refreshToken_expiresAt fx_token < 5" by code_simp+
  have c: "find_by user_id (refreshToken_userId fx_token) (users (fx_session_db False)) = Some (fx_user False)" by code_simp
  have d: "active_account (fx_user False) (fx_session_db False)" by code_simp
  have e: "\<forall>x\<in>set (refreshTokens (fx_session_db False)). refreshToken_tokenHash x \<noteq> fx_hash (fresh_raw fx_fresh) \<and> refreshToken_id x \<noteq> fresh_id fx_fresh"
    by code_simp
  show ?thesis by (rule refresh_outlives_logout[OF a b c d e])
qed

end
