(* ===== verification/WebSession.thy ===== *)
theory WebSession
  imports Sessions Gateway
begin

text \<open>
  The session of the web client: the route handlers between browser and API (apps/web/src/app/api/session), the
  cookie they keep the refresh token in (apps/web/src/lib/session/cookies.ts) and the state of a page
  (apps/web/src/lib/session/auth-provider.tsx). A handler is given the cookie its request carried and answers with
  what the response does to the cookie, so that the requests of several pages can overlap. The browser forgets the cookie after its
  maximal age. While a refresh is handled, other requests may change the database (\<open>others\<close>). Whether the
  framework still sends the cookie of a handler that throws is a parameter.
\<close>

section \<open>The API as the handlers see it\<close>

text \<open>A request may not reach its server, or be handled and its response be lost.\<close>

datatype link = Up | Cut | Lost

datatype 'a reply = Unreachable | Refusal exn | Reply 'a

fun over :: "link \<Rightarrow> ('s \<Rightarrow> (exn + 'a) \<times> 's) \<Rightarrow> 's \<Rightarrow> 'a reply \<times> 's" where
  "over Up f s = (case f s of (Inl e, s') \<Rightarrow> (Refusal e, s') | (Inr a, s') \<Rightarrow> (Reply a, s'))"
| "over Cut f s = (Unreachable, s)"
| "over Lost f s = (Unreachable, snd (f s))"

record auth_config =
  ac_server :: server_config
  ac_hashToken :: "string \<Rightarrow> string"
  ac_jwt_sign :: "jwt_claims \<Rightarrow> string"
  ac_refreshTtl :: int
  ac_keepsCookie :: bool

record current_user =
  cu_id :: uuid
  cu_email :: string
  cu_firstName :: string
  cu_lastName :: string
  cu_phone :: "string option"
  cu_enterpriseId :: "uuid option"
  cu_isSuperAdmin :: bool
  cu_status :: user_status
  cu_mfaEnabled :: bool
  cu_lastLoginAt :: "date option"

definition getMe :: "uuid \<Rightarrow> db \<Rightarrow> exn + current_user" where
  "getMe userId s = (case find_by user_id userId (users s) of
     None \<Rightarrow> Inl (PrismaKnown P2025)
   | Some u \<Rightarrow> Inr \<lparr>cu_id = user_id u, cu_email = user_email u, cu_firstName = user_firstName u, cu_lastName = user_lastName u,
       cu_phone = user_phone u, cu_enterpriseId = user_enterpriseId u, cu_isSuperAdmin = user_isSuperAdmin u, cu_status = user_status u,
       cu_mfaEnabled = user_mfaEnabled u, cu_lastLoginAt = user_lastLoginAt u\<rparr>)"

definition AuthController_guard :: "auth_config \<Rightarrow> date \<Rightarrow> string option \<Rightarrow> server \<Rightarrow> (exn + authenticated_user) \<times> server" where
  "AuthController_guard ac now authHeader srv =
     (case JwtAuthGuard_canActivate (jwt_verify (ac_server ac)) (accountStatusCacheTtlMs (ac_server ac)) now now id (server_db srv)
         authHeader (server_status srv) of
        (who, c) \<Rightarrow> (who, srv\<lparr>server_status := c\<rparr>))"

definition AuthController_me :: "auth_config \<Rightarrow> date \<Rightarrow> string option \<Rightarrow> server \<Rightarrow> (exn + current_user) \<times> server" where
  "AuthController_me ac now authHeader srv = (case AuthController_guard ac now authHeader srv of
     (Inl e, srv') \<Rightarrow> (Inl e, srv')
   | (Inr user, srv') \<Rightarrow> (getMe (au_id user) (server_db srv'), srv'))"

text \<open>\<open>others\<close> is what other requests do to the database before each of the writes of the refresh.\<close>

definition AuthController_refresh ::
    "auth_config \<Rightarrow> date \<Rightarrow> fresh \<Rightarrow> (nat \<Rightarrow> db \<Rightarrow> db) \<Rightarrow> string \<Rightarrow> server \<Rightarrow> (exn + string \<times> string) \<times> server" where
  "AuthController_refresh ac now fr others token srv =
     (case ZodValidationPipe (token \<noteq> []) (refresh (ac_hashToken ac) (ac_jwt_sign ac) (ac_refreshTtl ac) now fr others token) (server_db srv) of
        (outcome, s) \<Rightarrow> (outcome, srv\<lparr>server_db := s\<rparr>))"

definition AuthController_logout :: "auth_config \<Rightarrow> date \<Rightarrow> string option \<Rightarrow> string \<Rightarrow> server \<Rightarrow> (exn + unit) \<times> server" where
  "AuthController_logout ac now authHeader token srv = (case AuthController_guard ac now authHeader srv of
     (Inl e, srv') \<Rightarrow> (Inl e, srv')
   | (Inr user, srv') \<Rightarrow>
       if token = [] then (Inl (BadRequestException ''validation''), srv')
       else (Inr (), srv'\<lparr>server_db := logout (ac_hashToken ac) now (\<lambda>_ s. s) token (au_id user) (server_db srv')\<rparr>))"

section \<open>The route handlers\<close>

datatype cookie_command = Keep_cookie | Set_cookie string | Delete_cookie

definition REFRESH_TOKEN_MAX_AGE_SECONDS :: int where
  "REFRESH_TOKEN_MAX_AGE_SECONDS = 30 * 24 * 3600"

text \<open>The browser keeps the value with the moment at which it forgets it.\<close>

type_synonym cookie_jar = "(string \<times> date) option"

fun apply_cookie :: "date \<Rightarrow> cookie_command \<Rightarrow> cookie_jar \<Rightarrow> cookie_jar" where
  "apply_cookie now Keep_cookie jar = jar"
| "apply_cookie now (Set_cookie v) _ = Some (v, now + REFRESH_TOKEN_MAX_AGE_SECONDS * 1000)"
| "apply_cookie now Delete_cookie _ = None"

definition getRefreshTokenCookie :: "date \<Rightarrow> cookie_jar \<Rightarrow> string option" where
  "getRefreshTokenCookie now jar = (case jar of None \<Rightarrow> None | Some (v, expires) \<Rightarrow> if now \<le> expires then Some v else None)"

datatype bff_answer =
    Bff_no_session
  | Bff_refused exn
  | Bff_challenge string
  | Bff_signed_in string current_user
  | Bff_gone
  | Bff_crash

text \<open>The cookie is set, then the profile is fetched; a failure of the second throws.\<close>

definition open_session ::
    "auth_config \<Rightarrow> link \<Rightarrow> date \<Rightarrow> string \<times> string \<Rightarrow> server \<Rightarrow> (bff_answer \<times> cookie_command) \<times> server" where
  "open_session ac link now tokens srv = (case tokens of (accessToken, refreshToken) \<Rightarrow>
     (case over link (AuthController_me ac now (Some (''Bearer '' @ accessToken))) srv of
        (Reply user, srv') \<Rightarrow> ((Bff_signed_in accessToken user, Set_cookie refreshToken), srv')
      | (_, srv') \<Rightarrow> ((Bff_crash, if ac_keepsCookie ac then Set_cookie refreshToken else Keep_cookie), srv')))"

definition session_refresh ::
    "auth_config \<Rightarrow> link \<Rightarrow> link \<Rightarrow> date \<Rightarrow> fresh \<Rightarrow> (nat \<Rightarrow> db \<Rightarrow> db) \<Rightarrow> string option \<Rightarrow> server \<Rightarrow>
     (bff_answer \<times> cookie_command) \<times> server" where
  "session_refresh ac link1 link2 now fr others cookie srv =
     (if \<not> truthy cookie then ((Bff_no_session, Keep_cookie), srv)
      else (case over link1 (AuthController_refresh ac now fr others (the cookie)) srv of
          (Unreachable, srv') \<Rightarrow> ((Bff_crash, Keep_cookie), srv')
        | (Refusal e, srv') \<Rightarrow> ((Bff_refused e, Delete_cookie), srv')
        | (Reply tokens, srv') \<Rightarrow> open_session ac link2 now tokens srv'))"

text \<open>The handlers of the second factor and of the registration differ only in the route they call.\<close>

definition session_open_with ::
    "auth_config \<Rightarrow> link \<Rightarrow> link \<Rightarrow> date \<Rightarrow> (server \<Rightarrow> (exn + string \<times> string) \<times> server) \<Rightarrow> server \<Rightarrow> (bff_answer \<times> cookie_command) \<times> server" where
  "session_open_with ac link1 link2 now call srv = (case over link1 call srv of
     (Unreachable, srv') \<Rightarrow> ((Bff_crash, Keep_cookie), srv')
   | (Refusal e, srv') \<Rightarrow> ((Bff_refused e, Keep_cookie), srv')
   | (Reply tokens, srv') \<Rightarrow> open_session ac link2 now tokens srv')"

definition session_login ::
    "auth_config \<Rightarrow> link \<Rightarrow> link \<Rightarrow> date \<Rightarrow> (server \<Rightarrow> (exn + login_result) \<times> server) \<Rightarrow> server \<Rightarrow> (bff_answer \<times> cookie_command) \<times> server" where
  "session_login ac link1 link2 now call srv = (case over link1 call srv of
     (Unreachable, srv') \<Rightarrow> ((Bff_crash, Keep_cookie), srv')
   | (Refusal e, srv') \<Rightarrow> ((Bff_refused e, Keep_cookie), srv')
   | (Reply (mfa_required challengeToken), srv') \<Rightarrow> ((Bff_challenge challengeToken, Keep_cookie), srv')
   | (Reply (signed_in accessToken refreshToken), srv') \<Rightarrow> open_session ac link2 now (accessToken, refreshToken) srv')"

text \<open>The API is only told when the request has both tokens; whatever it answers, the cookie goes.\<close>

definition session_logout ::
    "auth_config \<Rightarrow> link \<Rightarrow> date \<Rightarrow> string option \<Rightarrow> string option \<Rightarrow> server \<Rightarrow> (bff_answer \<times> cookie_command) \<times> server" where
  "session_logout ac link now authHeader cookie srv =
     ((Bff_gone, Delete_cookie),
      if truthy cookie \<and> truthy authHeader then snd (over link (AuthController_logout ac now authHeader (the cookie)) srv) else srv)"

section \<open>The page\<close>

datatype web_status = Page_loading | Page_authenticated | Page_unauthenticated

record page =
  page_status :: web_status
  page_user :: "current_user option"
  page_accessToken :: "string option"

definition INITIAL_PAGE :: page where
  "INITIAL_PAGE = \<lparr>page_status = Page_loading, page_user = None, page_accessToken = None\<rparr>"

definition SIGNED_OUT_PAGE :: page where
  "SIGNED_OUT_PAGE = \<lparr>page_status = Page_unauthenticated, page_user = None, page_accessToken = None\<rparr>"

text \<open>\<open>None\<close>: the request of the page failed.\<close>

definition page_mounted :: "bff_answer option \<Rightarrow> page" where
  "page_mounted answer = (case answer of
     Some (Bff_signed_in accessToken user) \<Rightarrow> \<lparr>page_status = Page_authenticated, page_user = Some user, page_accessToken = Some accessToken\<rparr>
   | _ \<Rightarrow> SIGNED_OUT_PAGE)"

text \<open>A page that opens: its request leaves with the cookie of the moment.\<close>

definition page_open ::
    "auth_config \<Rightarrow> date \<Rightarrow> fresh \<Rightarrow> (nat \<Rightarrow> db \<Rightarrow> db) \<Rightarrow> link \<Rightarrow> link \<Rightarrow> link \<Rightarrow> cookie_jar \<times> server \<Rightarrow> page \<times> cookie_jar \<times> server" where
  "page_open ac now fr others link0 link1 link2 = (\<lambda>(jar, srv).
     if link0 = Cut then (page_mounted None, jar, srv)
     else (case session_refresh ac link1 link2 now fr others (getRefreshTokenCookie now jar) srv of ((answer, command), srv') \<Rightarrow>
       if link0 = Lost then (page_mounted None, jar, srv') else (page_mounted (Some answer), apply_cookie now command jar, srv')))"

definition page_logout :: "auth_config \<Rightarrow> date \<Rightarrow> link \<Rightarrow> link \<Rightarrow> page \<times> cookie_jar \<times> server \<Rightarrow> page \<times> cookie_jar \<times> server" where
  "page_logout ac now link0 link1 = (\<lambda>(p, jar, srv).
     if link0 = Cut then (SIGNED_OUT_PAGE, jar, srv)
     else (case session_logout ac link1 now (if truthy (page_accessToken p) then Some (''Bearer '' @ the (page_accessToken p)) else None)
         (getRefreshTokenCookie now jar) srv of
       ((_, command), srv') \<Rightarrow> (SIGNED_OUT_PAGE, if link0 = Lost then jar else apply_cookie now command jar, srv')))"

text \<open>What a page makes of the answer to a sign-in, a code or a registration: the challenge, if there is one.\<close>

definition page_answered :: "string \<Rightarrow> bff_answer option \<Rightarrow> page \<Rightarrow> (exn + string option) \<times> page" where
  "page_answered fallback answer p = (case answer of
     Some (Bff_signed_in accessToken user) \<Rightarrow> (Inr None, page_mounted answer)
   | Some (Bff_challenge challengeToken) \<Rightarrow> (Inr (Some challengeToken), p)
   | Some (Bff_refused e) \<Rightarrow> (Inl e, p)
   | _ \<Rightarrow> (Inl (JsError fallback), p))"

section \<open>A session that is alive\<close>

definition remembered_active :: "uuid \<Rightarrow> status_cache \<Rightarrow> bool" where
  "remembered_active i c \<longleftrightarrow> (case c i of None \<Rightarrow> True | Some (active, _) \<Rightarrow> active)"

text \<open>
  \<open>raw\<close> is the value of the active token \<open>tid\<close> of the family \<open>fam\<close>, good until \<open>t\<close>, of the user \<open>i\<close>, whose account is
  active; and no process remembers otherwise.
\<close>

definition live_token :: "auth_config \<Rightarrow> date \<Rightarrow> uuid \<Rightarrow> uuid \<Rightarrow> uuid \<Rightarrow> string \<Rightarrow> db \<Rightarrow> bool" where
  "live_token ac t i fam tid raw s \<longleftrightarrow> raw \<noteq> [] \<and> account_active i s \<and>
     (case find_by refreshToken_tokenHash (ac_hashToken ac raw) (refreshTokens s) of
        None \<Rightarrow> False
      | Some row \<Rightarrow> refreshToken_id row = tid \<and> refreshToken_familyId row = fam \<and> refreshToken_userId row = i \<and>
          refreshToken_status row = Tok_ACTIVE \<and> t \<le> refreshToken_expiresAt row)"

definition session_alive :: "auth_config \<Rightarrow> date \<Rightarrow> uuid \<Rightarrow> uuid \<Rightarrow> uuid \<Rightarrow> string \<Rightarrow> server \<Rightarrow> bool" where
  "session_alive ac t i fam tid raw srv \<longleftrightarrow> live_token ac t i fam tid raw (server_db srv) \<and> remembered_active i (server_status srv)"

text \<open>A token that opens nothing any more.\<close>

definition spent_token :: "auth_config \<Rightarrow> string \<Rightarrow> db \<Rightarrow> bool" where
  "spent_token ac raw s \<longleftrightarrow> (case find_by refreshToken_tokenHash (ac_hashToken ac raw) (refreshTokens s) of
     None \<Rightarrow> True | Some row \<Rightarrow> refreshToken_status row \<noteq> Tok_ACTIVE)"

definition unused :: "auth_config \<Rightarrow> fresh \<Rightarrow> db \<Rightarrow> bool" where
  "unused ac fr s \<longleftrightarrow> fresh_raw fr \<noteq> [] \<and> fresh_id fr \<notin> refreshToken_id ` set (refreshTokens s) \<and>
     ac_hashToken ac (fresh_raw fr) \<notin> refreshToken_tokenHash ` set (refreshTokens s)"

text \<open>What is signed verifies, at the moment it is signed.\<close>

definition verifies :: "auth_config \<Rightarrow> bool" where
  "verifies ac \<longleftrightarrow> (\<forall>c. jwt_verify (ac_server ac) (ac_jwt_sign ac c) = Some c)"

text \<open>The two writes of a refresh.\<close>

definition issue_token :: "auth_config \<Rightarrow> date \<Rightarrow> fresh \<Rightarrow> uuid \<Rightarrow> uuid \<Rightarrow> db \<Rightarrow> db" where
  "issue_token ac now fr i fam s = s\<lparr>refreshTokens := refreshTokens s @
     [new_refresh_token (ac_hashToken ac) (ac_refreshTtl ac) now (fresh_id fr) i fam (fresh_raw fr)]\<rparr>"

definition rotate_token :: "fresh \<Rightarrow> uuid \<Rightarrow> db \<Rightarrow> db" where
  "rotate_token fr tid s = s\<lparr>refreshTokens := update_by refreshToken_id tid
     (\<lambda>t. t\<lparr>refreshToken_status := Tok_ROTATED, refreshToken_replacedByTokenId := Some (fresh_id fr)\<rparr>) (refreshTokens s)\<rparr>"

lemma account_active_tokens [simp]:
  "account_active i (s\<lparr>refreshTokens := rows\<rparr>) = account_active i s"
  "account_active i (issue_token ac now fr j fam s) = account_active i s" "account_active i (rotate_token fr tid s) = account_active i s"
  by (auto simp: account_active_def active_account_def issue_token_def rotate_token_def split: option.splits)

lemma find_by_map_same:
  assumes "\<And>r. col (f r) = col r"
  shows "find_by col k (map f rows) = map_option f (find_by col k rows)"
  using assms by (induction rows) auto

lemma find_rotated:
  "find_by refreshToken_tokenHash h (refreshTokens (rotate_token fr tid s)) =
   map_option (\<lambda>t. if refreshToken_id t = tid
     then t\<lparr>refreshToken_status := Tok_ROTATED, refreshToken_replacedByTokenId := Some (fresh_id fr)\<rparr> else t)
     (find_by refreshToken_tokenHash h (refreshTokens s))"
  by (simp add: rotate_token_def update_by_def find_by_map_same)

lemma live_id: "live_token ac t i fam tid raw s \<Longrightarrow> tid \<in> refreshToken_id ` set (refreshTokens s)"
  by (force simp: live_token_def dest: find_by_SomeD split: option.splits)

lemma live_later: "live_token ac t i fam tid raw s \<Longrightarrow> t' \<le> t \<Longrightarrow> live_token ac t' i fam tid raw s"
  by (auto simp: live_token_def split: option.splits)

lemma live_issue: "live_token ac t i fam tid raw s \<Longrightarrow> live_token ac t i fam tid raw (issue_token ac' now fr j fam' s)"
  by (auto simp: live_token_def issue_token_def find_by_append split: option.splits)

lemma live_issued:
  assumes "unused ac fr s" and "account_active i s"
  shows "live_token ac (now + ac_refreshTtl ac) i fam (fresh_id fr) (fresh_raw fr) (issue_token ac now fr i fam s)"
proof -
  have "find_by refreshToken_tokenHash (ac_hashToken ac (fresh_raw fr)) (refreshTokens s) = None"
    using assms(1) by (simp add: unused_def find_by_None_iff)
  then show ?thesis using assms
    by (simp add: live_token_def issue_token_def find_by_append new_refresh_token_def unused_def)
qed

lemma live_rotate: "live_token ac t i fam tid raw s \<Longrightarrow> tid \<noteq> tid' \<Longrightarrow> live_token ac t i fam tid raw (rotate_token fr tid' s)"
  by (auto simp: live_token_def find_rotated split: option.splits)

lemma live_rotated_spent: "live_token ac t i fam tid raw s \<Longrightarrow> spent_token ac raw (rotate_token fr tid s)"
  by (auto simp: live_token_def spent_token_def find_rotated split: option.splits)

lemma spent_revoked:
  assumes "live_token ac t i fam tid raw s" and "refreshTokens s' = refreshTokens (revoke_family fam now s)"
  shows "spent_token ac raw s'"
  using assms by (auto simp: live_token_def spent_token_def revoke_family_def revoke_where_def find_by_map_same split: option.splits)

lemma unused_issue:
  assumes "unused ac fr s" and "fresh_id fr \<noteq> fresh_id fr'" and "ac_hashToken ac (fresh_raw fr) \<noteq> ac_hashToken ac (fresh_raw fr')"
  shows "unused ac fr (issue_token ac now fr' i fam s)"
  using assms by (simp add: unused_def issue_token_def new_refresh_token_def)

lemma rotated_columns:
  "refreshToken_id ` set (refreshTokens (rotate_token fr tid s)) = refreshToken_id ` set (refreshTokens s)"
  "refreshToken_tokenHash ` set (refreshTokens (rotate_token fr tid s)) = refreshToken_tokenHash ` set (refreshTokens s)"
proof -
  have "map col (refreshTokens (rotate_token fr tid s)) = map col (refreshTokens s)"
    if "\<And>t x. col (t\<lparr>refreshToken_status := x, refreshToken_replacedByTokenId := Some (fresh_id fr)\<rparr>) = col t" for col :: "refresh_token \<Rightarrow> string"
    using that by (simp add: rotate_token_def map_update_by)
  from arg_cong[OF this, where f = set] show
    "refreshToken_id ` set (refreshTokens (rotate_token fr tid s)) = refreshToken_id ` set (refreshTokens s)"
    "refreshToken_tokenHash ` set (refreshTokens (rotate_token fr tid s)) = refreshToken_tokenHash ` set (refreshTokens s)"
    by (simp_all only: set_map) simp_all
qed

lemma unused_rotate [simp]: "unused ac fr (rotate_token fr' tid s) = unused ac fr s"
  by (simp add: unused_def rotated_columns)

text \<open>A refresh with a live token, whatever the other requests do as long as they leave the row and the drawn values alone.\<close>

lemma refresh_live:
  assumes "live_token ac t i fam tid raw s" and "now \<le> t" and "unused ac fr (others 0 s)"
    and "tid \<in> refreshToken_id ` set (refreshTokens (others 1 (issue_token ac now fr i fam (others 0 s))))"
  obtains e a where "refresh (ac_hashToken ac) (ac_jwt_sign ac) (ac_refreshTtl ac) now fr others raw s =
    (Inr (signAccessToken (ac_jwt_sign ac) i e a, fresh_raw fr),
     rotate_token fr tid (others 1 (issue_token ac now fr i fam (others 0 s))))"
proof -
  let ?s1 = "issue_token ac now fr i fam (others 0 s)"
  let ?new = "new_refresh_token (ac_hashToken ac) (ac_refreshTtl ac) now (fresh_id fr) i fam (fresh_raw fr)"
  obtain row where row: "find_by refreshToken_tokenHash (ac_hashToken ac raw) (refreshTokens s) = Some row" "refreshToken_id row = tid"
    "refreshToken_familyId row = fam" "refreshToken_userId row = i" "refreshToken_status row = Tok_ACTIVE" "\<not> refreshToken_expiresAt row < now"
    using assms(1,2) by (auto simp: live_token_def split: option.splits)
  obtain user where user: "find_by user_id i (users s) = Some user" "active_account user s"
    using assms(1) by (auto simp: live_token_def account_active_def split: option.splits)
  have create: "refreshToken_create ?new (others 0 s) = Inr (?new, ?s1)"
    using assms(3) by (auto simp: refreshToken_create_def unused_def issue_token_def new_refresh_token_def rev_image_eqI)
  have "find_by refreshToken_id tid (refreshTokens (others 1 ?s1)) \<noteq> None" using assms(4) by (simp add: find_by_None_iff)
  then obtain x where x: "find_by refreshToken_id tid (refreshTokens (others 1 ?s1)) = Some x" by blast
  have new: "refreshToken_id ?new = fresh_id fr" by (simp add: new_refresh_token_def)
  have "user_id user = i" using find_by_SomeD[OF user(1)] by simp
  then have "refresh (ac_hashToken ac) (ac_jwt_sign ac) (ac_refreshTtl ac) now fr others raw s =
    (Inr (signAccessToken (ac_jwt_sign ac) i (user_enterpriseId user) (user_isSuperAdmin user), fresh_raw fr),
     rotate_token fr tid (others 1 ?s1))"
    using row user create x new by (simp add: refresh_def refreshToken_update_def rotate_token_def)
  then show thesis by (rule that)
qed

text \<open>With an access token that verifies, the guard lets the user pass; and so the profile is read.\<close>

lemma alive_guard:
  assumes "jwt_verify (ac_server ac) token = Some (access_claims i e a)" and "account_active i (server_db srv)"
    and "remembered_active i (server_status srv)"
  obtains who c where "AuthController_guard ac now (Some (''Bearer '' @ token)) srv = (Inr who, srv\<lparr>server_status := c\<rparr>)"
    "au_id who = i" "remembered_active i c"
proof -
  have verify: "verifyAccessToken (jwt_verify (ac_server ac)) token = Inr \<lparr>token_sub = i, token_enterpriseId = e, token_isSuperAdmin = a\<rparr>"
    using assms(1) by (simp add: verifyAccessToken_def access_claims_def)
  have bearer: "bearer_token (Some (''Bearer '' @ token)) = Some token" by (simp add: bearer_token_def)
  obtain c where active: "isAccountActive (accountStatusCacheTtlMs (ac_server ac)) now now id (server_db srv) i (server_status srv) = (True, c)"
    "remembered_active i c"
  proof (cases "server_status srv i")
    case None
    then show thesis using that assms(2) by (simp add: isAccountActive_def account_active_def remembered_active_def split: if_splits)
  next
    case (Some x)
    obtain b expiresAt where x: "x = (b, expiresAt)" by fastforce
    then have b using assms(3) Some by (simp add: remembered_active_def)
    then show thesis using that assms(2) Some x
      by (cases "now < expiresAt"; cases "0 < accountStatusCacheTtlMs (ac_server ac)")
        (simp_all add: isAccountActive_def account_active_def remembered_active_def)
  qed
  then show thesis using that verify bearer by (simp add: AuthController_guard_def JwtAuthGuard_canActivate_def)
qed

lemma alive_me:
  assumes "jwt_verify (ac_server ac) token = Some (access_claims i e a)" and "account_active i (server_db srv)"
    and "remembered_active i (server_status srv)"
  obtains me c where "AuthController_me ac now (Some (''Bearer '' @ token)) srv = (Inr me, srv\<lparr>server_status := c\<rparr>)"
    "cu_id me = i" "remembered_active i c"
proof -
  obtain user where "find_by user_id i (users (server_db srv)) = Some user" "user_id user = i"
    using assms(2) find_by_SomeD by (fastforce simp: account_active_def split: option.splits)
  then obtain me where "getMe i (server_db srv) = Inr me" "cu_id me = i" by (simp add: getMe_def)
  with that show thesis by (rule_tac alive_guard[OF assms, of now]) (simp add: AuthController_me_def)
qed

lemma refresh_opens:
  assumes "refresh (ac_hashToken ac) (ac_jwt_sign ac) (ac_refreshTtl ac) now fr others raw (server_db srv) =
      (Inr (signAccessToken (ac_jwt_sign ac) i e a, fresh_raw fr), s2)"
    and "raw \<noteq> []" and "verifies ac" and "account_active i s2" and "remembered_active i (server_status srv)"
  obtains token me c where "session_refresh ac Up Up now fr others (Some raw) srv =
      ((Bff_signed_in token me, Set_cookie (fresh_raw fr)), srv\<lparr>server_db := s2, server_status := c\<rparr>)" "cu_id me = i" "remembered_active i c"
proof -
  let ?token = "signAccessToken (ac_jwt_sign ac) i e a" and ?srv = "srv\<lparr>server_db := s2\<rparr>"
  have token: "jwt_verify (ac_server ac) ?token = Some (access_claims i e a)"
    using assms(3) by (simp add: verifies_def signAccessToken_def)
  have srv: "account_active i (server_db ?srv)" "remembered_active i (server_status ?srv)" using assms(4,5) by simp_all
  obtain me c where "AuthController_me ac now (Some (''Bearer '' @ ?token)) ?srv = (Inr me, ?srv\<lparr>server_status := c\<rparr>)"
    "cu_id me = i" "remembered_active i c"
    by (rule alive_me[OF token srv])
  then show thesis using that assms(1,2)
    by (simp add: session_refresh_def AuthController_refresh_def ZodValidationPipe_def open_session_def)
qed

text \<open>A spent token is refused whatever else happens.\<close>

lemma spent_refused:
  assumes "spent_token ac raw (server_db srv)"
  shows "page_status (fst (page_open ac now fr others link0 link1 link2 (Some (raw, expires), srv))) = Page_unauthenticated"
proof -
  have "\<exists>e. fst (AuthController_refresh ac now fr others raw srv) = Inl e"
    using assms by (auto simp: spent_token_def AuthController_refresh_def ZodValidationPipe_def refresh_def split: option.splits prod.splits)
  then show ?thesis
    by (cases link1) (auto simp: page_open_def getRefreshTokenCookie_def session_refresh_def page_mounted_def SIGNED_OUT_PAGE_def split: prod.splits)
qed

lemma no_cookie_refused: "page_status (fst (page_open ac now fr others link0 link1 link2 (None, srv))) = Page_unauthenticated"
  by (simp add: page_open_def getRefreshTokenCookie_def session_refresh_def page_mounted_def SIGNED_OUT_PAGE_def)

text \<open>Alone, a live cookie opens a page, and leaves a live cookie.\<close>

lemma page_opens:
  assumes "session_alive ac t i fam tid raw srv" and "now \<le> t" and "now \<le> expires" and "unused ac fr (server_db srv)" and "verifies ac"
  shows "page_status (fst (page_open ac now fr (\<lambda>_ s. s) Up Up Up (Some (raw, expires), srv))) = Page_authenticated"
proof -
  have live: "live_token ac t i fam tid raw (server_db srv)" using assms(1) by (simp add: session_alive_def)
  obtain e a where run: "refresh (ac_hashToken ac) (ac_jwt_sign ac) (ac_refreshTtl ac) now fr (\<lambda>_ s. s) raw (server_db srv) =
      (Inr (signAccessToken (ac_jwt_sign ac) i e a, fresh_raw fr), rotate_token fr tid (issue_token ac now fr i fam (server_db srv)))"
    using refresh_live[OF live assms(2), where others = "\<lambda>_ s. s" and fr = fr] assms(4) live_id[OF live_issue[OF live]] by blast
  obtain token me c where "session_refresh ac Up Up now fr (\<lambda>_ s. s) (Some raw) srv = ((Bff_signed_in token me, Set_cookie (fresh_raw fr)), c)"
    by (rule refresh_opens[OF run _ assms(5)]) (use assms(1) in \<open>simp_all add: session_alive_def live_token_def\<close>)
  then show ?thesis using assms(3) by (simp add: page_open_def getRefreshTokenCookie_def page_mounted_def)
qed

section \<open>A session for the witnesses\<close>

definition wx_config :: auth_config where
  "wx_config = \<lparr>ac_server = gx_config\<lparr>jwt_verify := fx_verify\<rparr>, ac_hashToken = fx_hash, ac_jwt_sign = fx_sign, ac_refreshTtl = 1000,
     ac_keepsCookie = False\<rparr>"

definition wx_server :: server where
  "wx_server = gx_server\<lparr>server_db := fx_session_db False\<rparr>"

definition wx_fresh :: "string \<Rightarrow> fresh" where
  "wx_fresh n = \<lparr>fresh_id = CHR ''t'' # n, fresh_raw = ''raw'' @ n, fresh_family = CHR ''f'' # n\<rparr>"

lemma wx_alive: "session_alive wx_config 1000 ''u1'' ''f1'' ''t1'' ''raw1'' wx_server"
  by code_simp

lemma wx_verifies: "verifies wx_config"
  by (simp add: verifies_def wx_config_def fx_verify_sign)

lemma wx_unused: "unused wx_config (wx_fresh ''2'') (server_db wx_server)" "unused wx_config (wx_fresh ''3'') (server_db wx_server)"
  by code_simp+


section \<open>A page that is opened again and again\<close>

text \<open>
  A change of the database, or of the server, that leaves a session alone: its live tokens stay as they are, and the values
  still to be drawn for it are not taken. Sign-ins, refreshes and sign-outs of other sessions are such changes, and a process that restarts.
\<close>

definition spares :: "auth_config \<Rightarrow> uuid \<Rightarrow> uuid \<Rightarrow> string set \<Rightarrow> fresh set \<Rightarrow> (db \<Rightarrow> db) \<Rightarrow> bool" where
  "spares ac i fam raws frs g \<longleftrightarrow>
     (\<forall>s t tid. \<forall>raw\<in>raws. live_token ac t i fam tid raw s \<longrightarrow> live_token ac t i fam tid raw (g s)) \<and>
     (\<forall>s. \<forall>fr\<in>frs. unused ac fr s \<longrightarrow> unused ac fr (g s))"

definition spares_server :: "auth_config \<Rightarrow> uuid \<Rightarrow> uuid \<Rightarrow> string set \<Rightarrow> fresh set \<Rightarrow> (server \<Rightarrow> server) \<Rightarrow> bool" where
  "spares_server ac i fam raws frs g \<longleftrightarrow>
     (\<forall>srv t tid. \<forall>raw\<in>raws. session_alive ac t i fam tid raw srv \<longrightarrow> session_alive ac t i fam tid raw (g srv)) \<and>
     (\<forall>srv. \<forall>fr\<in>frs. unused ac fr (server_db srv) \<longrightarrow> unused ac fr (server_db (g srv)))"

lemma spares_id: "spares ac i fam raws frs (\<lambda>s. s)"
  by (simp add: spares_def)

record visit =
  visit_now :: date
  visit_fresh :: fresh
  visit_before :: "server \<Rightarrow> server"
  visit_others :: "nat \<Rightarrow> db \<Rightarrow> db"

definition undisturbed :: "auth_config \<Rightarrow> uuid \<Rightarrow> uuid \<Rightarrow> string set \<Rightarrow> fresh set \<Rightarrow> visit \<Rightarrow> bool" where
  "undisturbed ac i fam raws frs v \<longleftrightarrow> spares_server ac i fam raws frs (visit_before v) \<and>
     spares ac i fam raws frs (visit_others v 0) \<and> spares ac i fam raws frs (visit_others v 1)"

fun page_reloads :: "auth_config \<Rightarrow> visit list \<Rightarrow> cookie_jar \<times> server \<Rightarrow> page list" where
  "page_reloads ac [] st = []"
| "page_reloads ac (v # visits) (jar, srv) =
     (case page_open ac (visit_now v) (visit_fresh v) (visit_others v) Up Up Up (jar, visit_before v srv) of
        (p, st') \<Rightarrow> p # page_reloads ac visits st')"

text \<open>Each visit comes before the token and the cookie of the last one expire.\<close>

fun often_enough :: "int \<Rightarrow> date \<Rightarrow> date \<Rightarrow> visit list \<Rightarrow> bool" where
  "often_enough ttl t expires [] \<longleftrightarrow> True"
| "often_enough ttl t expires (v # visits) \<longleftrightarrow> visit_now v \<le> t \<and> visit_now v \<le> expires \<and>
     often_enough ttl (visit_now v + ttl) (visit_now v + REFRESH_TOKEN_MAX_AGE_SECONDS * 1000) visits"

text \<open>The refresh was handled, but the browser did not get the cookie.\<close>

definition answer_lost :: "auth_config \<Rightarrow> link \<Rightarrow> link \<Rightarrow> link \<Rightarrow> bool" where
  "answer_lost ac link0 link1 link2 \<longleftrightarrow> link0 \<noteq> Cut \<and> link1 \<noteq> Cut \<and>
     (link0 = Lost \<or> link1 = Lost \<or> link2 \<noteq> Up \<and> \<not> ac_keepsCookie ac)"

lemma refresh_spared:
  assumes "live_token ac t i fam tid raw s" and "now \<le> t" and "unused ac fr s"
    and "spares ac i fam raws frs (others 0)" "spares ac i fam raws frs (others 1)"
    and "raw \<in> raws" "fresh_raw fr \<in> raws" "fr \<in> frs"
  obtains e a s2 where "refresh (ac_hashToken ac) (ac_jwt_sign ac) (ac_refreshTtl ac) now fr others raw s =
      (Inr (signAccessToken (ac_jwt_sign ac) i e a, fresh_raw fr), s2)"
    "live_token ac (now + ac_refreshTtl ac) i fam (fresh_id fr) (fresh_raw fr) s2" "spent_token ac raw s2"
    "\<forall>fr'\<in>frs. unused ac fr' s \<and> fresh_id fr' \<noteq> fresh_id fr \<and> ac_hashToken ac (fresh_raw fr') \<noteq> ac_hashToken ac (fresh_raw fr) \<longrightarrow>
       unused ac fr' s2"
proof -
  let ?s0 = "others 0 s" let ?s1 = "others 1 (issue_token ac now fr i fam (others 0 s))"
  have s0: "live_token ac t i fam tid raw ?s0" "unused ac fr ?s0" using assms(1,3,4,6,8) by (auto simp: spares_def)
  then have active: "account_active i ?s0" by (simp add: live_token_def)
  have s1: "live_token ac t i fam tid raw ?s1" "live_token ac (now + ac_refreshTtl ac) i fam (fresh_id fr) (fresh_raw fr) ?s1"
    using assms(5,6,7) live_issue[OF s0(1)] live_issued[OF s0(2) active] unfolding spares_def by blast+
  have ids: "fresh_id fr \<noteq> tid" using live_id[OF s0(1)] s0(2) by (auto simp: unused_def)
  have later: "unused ac fr' (rotate_token fr tid ?s1)"
    if "fr' \<in> frs" "unused ac fr' s" "fresh_id fr' \<noteq> fresh_id fr" "ac_hashToken ac (fresh_raw fr') \<noteq> ac_hashToken ac (fresh_raw fr)" for fr'
  proof -
    have "unused ac fr' ?s0" using assms(4) that(1,2) by (simp add: spares_def)
    then have "unused ac fr' (issue_token ac now fr i fam ?s0)" by (rule unused_issue[OF _ that(3,4)])
    then show ?thesis using assms(5) that(1) by (simp add: spares_def)
  qed
  obtain e a where "refresh (ac_hashToken ac) (ac_jwt_sign ac) (ac_refreshTtl ac) now fr others raw s =
      (Inr (signAccessToken (ac_jwt_sign ac) i e a, fresh_raw fr), rotate_token fr tid ?s1)"
    using refresh_live[OF assms(1,2) s0(2) live_id[OF s1(1)]] by blast
  from that[OF this live_rotate[OF s1(2) ids] live_rotated_spent[OF s1(1)]] later show thesis by blast
qed

lemma reloads_alive:
  assumes "session_alive ac t i fam tid raw srv" and "often_enough (ac_refreshTtl ac) t expires visits" and "verifies ac"
    and "\<And>v. v \<in> set visits \<Longrightarrow> undisturbed ac i fam raws frs v \<and> visit_fresh v \<in> frs \<and> fresh_raw (visit_fresh v) \<in> raws \<and>
      unused ac (visit_fresh v) (server_db srv)"
    and "raw \<in> raws" and "distinct (map (\<lambda>v. fresh_id (visit_fresh v)) visits)"
    and "distinct (map (\<lambda>v. ac_hashToken ac (fresh_raw (visit_fresh v))) visits)"
  shows "\<forall>p\<in>set (page_reloads ac visits (Some (raw, expires), srv)). page_status p = Page_authenticated \<and> map_option cu_id (page_user p) = Some i"
  using assms
proof (induction visits arbitrary: t tid raw expires srv)
  case (Cons v visits)
  let ?fr = "visit_fresh v" and ?now = "visit_now v" and ?srv = "visit_before v srv"
  have v: "undisturbed ac i fam raws frs v" "?fr \<in> frs" "fresh_raw ?fr \<in> raws" using Cons.prems(4)[of v] by simp_all
  have kept: "session_alive ac t i fam tid raw ?srv" "\<And>w. w \<in> set (v # visits) \<Longrightarrow> unused ac (visit_fresh w) (server_db ?srv)"
    using v(1) Cons.prems(1,4,5) unfolding undisturbed_def spares_server_def by blast+
  then have live: "live_token ac t i fam tid raw (server_db ?srv)" by (simp add: session_alive_def)
  have now: "?now \<le> t" "?now \<le> expires" using Cons.prems(2) by simp_all
  have fresh: "unused ac ?fr (server_db ?srv)" using kept(2) by simp
  have spared: "spares ac i fam raws frs (visit_others v 0)" "spares ac i fam raws frs (visit_others v 1)"
    using v(1) by (simp_all add: undisturbed_def)
  obtain e a s2 where run: "refresh (ac_hashToken ac) (ac_jwt_sign ac) (ac_refreshTtl ac) ?now ?fr (visit_others v) raw (server_db ?srv) =
      (Inr (signAccessToken (ac_jwt_sign ac) i e a, fresh_raw ?fr), s2)"
    and next_live: "live_token ac (?now + ac_refreshTtl ac) i fam (fresh_id ?fr) (fresh_raw ?fr) s2"
    and unused: "\<forall>fr'\<in>frs. unused ac fr' (server_db ?srv) \<and> fresh_id fr' \<noteq> fresh_id ?fr \<and>
       ac_hashToken ac (fresh_raw fr') \<noteq> ac_hashToken ac (fresh_raw ?fr) \<longrightarrow> unused ac fr' s2"
    by (rule refresh_spared[OF live now(1) fresh spared Cons.prems(5) v(3,2)])
  obtain token me c where step: "session_refresh ac Up Up ?now ?fr (visit_others v) (Some raw) ?srv =
      ((Bff_signed_in token me, Set_cookie (fresh_raw ?fr)), ?srv\<lparr>server_db := s2, server_status := c\<rparr>)" "cu_id me = i" "remembered_active i c"
    by (rule refresh_opens[OF run _ Cons.prems(3)]) (use kept(1) next_live in \<open>simp_all add: session_alive_def live_token_def\<close>)
  let ?srv' = "?srv\<lparr>server_db := s2, server_status := c\<rparr>"
  have "session_alive ac (?now + ac_refreshTtl ac) i fam (fresh_id ?fr) (fresh_raw ?fr) ?srv'"
    using next_live step(3) by (simp add: session_alive_def)
  moreover have "unused ac (visit_fresh w) (server_db ?srv')" if w: "w \<in> set visits" for w
  proof -
    have "fresh_id (visit_fresh w) \<noteq> fresh_id ?fr" "ac_hashToken ac (fresh_raw (visit_fresh w)) \<noteq> ac_hashToken ac (fresh_raw ?fr)"
      using Cons.prems(6,7) w by (force simp: image_iff)+
    then show ?thesis using unused Cons.prems(4)[of w] kept(2)[of w] w by simp
  qed
  ultimately have "\<forall>p\<in>set (page_reloads ac visits (Some (fresh_raw ?fr, ?now + REFRESH_TOKEN_MAX_AGE_SECONDS * 1000), ?srv')).
      page_status p = Page_authenticated \<and> map_option cu_id (page_user p) = Some i"
    using Cons.prems(2,4,6,7) v(3) by (intro Cons.IH[OF _ _ Cons.prems(3)]) auto
  then show ?case using step(1,2) now(2) by (simp add: page_open_def getRefreshTokenCookie_def page_mounted_def)
qed simp

lemma AuthController_me_db [simp]: "server_db (snd (AuthController_me ac now h srv)) = server_db srv"
  by (simp add: AuthController_me_def AuthController_guard_def split: prod.splits sum.splits)

lemma open_session_db: "server_db (snd (open_session ac link now tokens srv)) = server_db srv"
proof (cases tokens)
  case (Pair access new)
  obtain res srv' where me: "AuthController_me ac now (Some (''Bearer '' @ access)) srv = (res, srv')" by fastforce
  then have "server_db srv' = server_db srv" by (metis AuthController_me_db snd_conv)
  with me show ?thesis unfolding open_session_def Pair prod.case by (cases link; cases res) simp_all
qed

lemma open_session_lost: "link \<noteq> Up \<Longrightarrow> \<not> ac_keepsCookie ac \<Longrightarrow> snd (fst (open_session ac link now tokens srv)) = Keep_cookie"
  by (cases link) (auto simp: open_session_def split: prod.splits)

lemma lost_refresh:
  assumes "refresh (ac_hashToken ac) (ac_jwt_sign ac) (ac_refreshTtl ac) now fr others raw (server_db srv) = (Inr tokens, s2)"
    and "raw \<noteq> []" and "now \<le> expires" and "answer_lost ac link0 link1 link2"
  obtains p srv' where "page_open ac now fr others link0 link1 link2 (Some (raw, expires), srv) = (p, Some (raw, expires), srv')"
    "server_db srv' = s2"
proof -
  have call: "AuthController_refresh ac now fr others raw srv = (Inr tokens, srv\<lparr>server_db := s2\<rparr>)"
    using assms(1,2) by (simp add: AuthController_refresh_def ZodValidationPipe_def)
  obtain answer command srv' where out: "session_refresh ac link1 link2 now fr others (Some raw) srv = ((answer, command), srv')"
    by (metis prod.collapse)
  have "server_db srv' = s2"
  proof (cases link1)
    case Up
    then show ?thesis using out call assms(2) open_session_db[of ac link2 now tokens "srv\<lparr>server_db := s2\<rparr>"] by (simp add: session_refresh_def)
  qed (use out call assms(2,4) in \<open>auto simp: session_refresh_def answer_lost_def\<close>)
  moreover have "command = Keep_cookie" if "link0 \<noteq> Lost"
  proof (cases link1)
    case Up
    then have "open_session ac link2 now tokens (srv\<lparr>server_db := s2\<rparr>) = ((answer, command), srv')"
      using out call assms(2) by (simp add: session_refresh_def)
    then show ?thesis using open_session_lost[of link2 ac now tokens "srv\<lparr>server_db := s2\<rparr>"] assms(4) that Up by (simp add: answer_lost_def)
  qed (use out call assms(2,4) in \<open>auto simp: session_refresh_def answer_lost_def\<close>)
  ultimately show thesis using that out assms(3,4)
    by (cases link0) (auto simp: page_open_def getRefreshTokenCookie_def answer_lost_def)
qed


definition wx_restart :: "server \<Rightarrow> server" where
  "wx_restart srv = srv\<lparr>server_status := Map.empty, server_entitlements := []\<rparr>"

definition wx_visits :: "visit list" where
  "wx_visits = [\<lparr>visit_now = 5, visit_fresh = wx_fresh ''2'', visit_before = (\<lambda>srv. srv), visit_others = (\<lambda>_ s. s)\<rparr>,
     \<lparr>visit_now = 900, visit_fresh = wx_fresh ''3'', visit_before = wx_restart,
      visit_others = (\<lambda>_. issue_token wx_config 7 (wx_fresh ''9'') ''u1'' ''f9'')\<rparr>]"

lemma wx_visits_undisturbed:
  assumes "v \<in> set wx_visits"
  shows "undisturbed wx_config i fam raws {wx_fresh ''2'', wx_fresh ''3''} v"
proof -
  have "spares_server wx_config i fam raws frs (\<lambda>srv. srv)" "spares_server wx_config i fam raws frs wx_restart" for frs
    by (simp_all add: spares_server_def wx_restart_def session_alive_def remembered_active_def)
  moreover have "spares wx_config i fam raws {wx_fresh ''2'', wx_fresh ''3''} (issue_token wx_config 7 (wx_fresh ''9'') ''u1'' ''f9'')"
    by (simp add: spares_def live_issue unused_issue wx_fresh_def wx_config_def fx_hash_def)
  ultimately show ?thesis using assms by (auto simp: wx_visits_def undisturbed_def spares_id)
qed


section \<open>Two pages at once\<close>

text \<open>
  The API handles a second refresh with the same token within a first one, before its write \<open>k\<close>, when \<open>at = Some k\<close>: the first
  has read the token, and written nothing (0) or only the new token (1). \<open>None\<close>: it handles one after the other.
\<close>

definition handled_within :: "auth_config \<Rightarrow> date \<Rightarrow> fresh \<Rightarrow> string \<Rightarrow> nat option \<Rightarrow> nat \<Rightarrow> db \<Rightarrow> db" where
  "handled_within ac now fr raw at k s =
     (if at = Some k then snd (refresh (ac_hashToken ac) (ac_jwt_sign ac) (ac_refreshTtl ac) now fr (\<lambda>_ s. s) raw s) else s)"

text \<open>The page that comes second with the cookie of the first.\<close>

lemma refresh_reused:
  assumes "find_by refreshToken_tokenHash (ac_hashToken ac raw) (refreshTokens (server_db srv)) = Some row" and "refreshToken_status row \<noteq> Tok_ACTIVE"
    and "account_active (refreshToken_userId row) (server_db srv)" and "raw \<noteq> []"
  obtains s' where "session_refresh ac Up link2 now fr (\<lambda>_ s. s) (Some raw) srv =
      ((Bff_refused (UnauthorizedException ''Session compromise, veuillez vous reconnecter''), Delete_cookie), srv\<lparr>server_db := s'\<rparr>)"
    "refreshTokens s' = refreshTokens (revoke_family (refreshToken_familyId row) now (server_db srv))"
proof -
  obtain user where "find_by user_id (refreshToken_userId row) (users (server_db srv)) = Some user"
    using assms(3) by (auto simp: account_active_def split: option.splits)
  then show thesis using that assms by (simp add: session_refresh_def AuthController_refresh_def ZodValidationPipe_def refresh_def)
qed

lemma two_tabs_serial:
  assumes "session_alive ac t i fam tid raw srv" and "verifies ac" and "now \<le> t" and "unused ac fr (server_db srv)"
    and "session_refresh ac Up Up now fr (\<lambda>_ s. s) (Some raw) srv = ((answer1, command1), srv1)"
    and "session_refresh ac Up Up now' fr' (\<lambda>_ s. s) (Some raw) srv1 = ((answer2, command2), srv2)"
  shows "page_status (page_mounted (Some answer1)) = Page_authenticated" "page_status (page_mounted (Some answer2)) = Page_unauthenticated"
    "command1 = Set_cookie (fresh_raw fr)" "command2 = Delete_cookie" "spent_token ac (fresh_raw fr) (server_db srv2)"
proof -
  let ?s = "server_db srv" let ?s1 = "rotate_token fr tid (issue_token ac now fr i fam (server_db srv))"
  have live: "live_token ac t i fam tid raw ?s" "account_active i ?s" "raw \<noteq> []"
    using assms(1) by (simp_all add: session_alive_def live_token_def)
  obtain e a where "refresh (ac_hashToken ac) (ac_jwt_sign ac) (ac_refreshTtl ac) now fr (\<lambda>_ s. s) raw ?s =
      (Inr (signAccessToken (ac_jwt_sign ac) i e a, fresh_raw fr), ?s1)"
    using refresh_live[OF live(1) assms(3), where others = "\<lambda>_ s. s" and fr = fr] assms(4) live_id[OF live_issue[OF live(1)]] by blast
  then obtain token me c where first: "answer1 = Bff_signed_in token me" "command1 = Set_cookie (fresh_raw fr)" "server_db srv1 = ?s1"
    by (rule refresh_opens[OF _ live(3) assms(2)]) (use assms(1,5) live(2) in \<open>simp_all add: session_alive_def\<close>)
  have "live_token ac t i fam tid raw (issue_token ac now fr i fam ?s)" by (rule live_issue[OF live(1)])
  then obtain row where row: "find_by refreshToken_tokenHash (ac_hashToken ac raw) (refreshTokens (server_db srv1)) = Some row"
    "refreshToken_status row = Tok_ROTATED" "refreshToken_familyId row = fam" "refreshToken_userId row = i"
    unfolding first(3) find_rotated by (auto simp: live_token_def split: option.splits)
  obtain s' where s': "session_refresh ac Up Up now' fr' (\<lambda>_ s. s) (Some raw) srv1 =
      ((Bff_refused (UnauthorizedException ''Session compromise, veuillez vous reconnecter''), Delete_cookie), srv1\<lparr>server_db := s'\<rparr>)"
    "refreshTokens s' = refreshTokens (revoke_family fam now' ?s1)"
    by (rule refresh_reused[OF row(1), where ?link2.0 = Up and now = now' and fr = fr']) (use row live(2,3) first(3) in simp_all)
  have "fresh_id fr \<noteq> tid" using live_id[OF live(1)] assms(4) by (auto simp: unused_def)
  from spent_revoked[OF live_rotate[OF live_issued[OF assms(4) live(2)] this] s'(2)] show "spent_token ac (fresh_raw fr) (server_db srv2)"
    using s'(1) assms(6) by simp
  show "page_status (page_mounted (Some answer1)) = Page_authenticated" "page_status (page_mounted (Some answer2)) = Page_unauthenticated"
    "command1 = Set_cookie (fresh_raw fr)" "command2 = Delete_cookie"
    using first s'(1) assms(6) by (simp_all add: page_mounted_def SIGNED_OUT_PAGE_def)
qed

text \<open>The database in which the second refresh finds the token, and the one the first leaves in the end.\<close>

definition second_sees :: "auth_config \<Rightarrow> date \<Rightarrow> fresh \<Rightarrow> uuid \<Rightarrow> uuid \<Rightarrow> nat \<Rightarrow> db \<Rightarrow> db" where
  "second_sees ac now fr i fam k s = (if k = 0 then s else issue_token ac now fr i fam s)"

lemma issued_ids: "refreshToken_id ` set (refreshTokens s) \<subseteq> refreshToken_id ` set (refreshTokens (issue_token ac now fr i fam s))"
  by (simp add: issue_token_def subset_insertI)

lemma refreshes_overlap:
  assumes live: "live_token ac t i fam tid raw s" and now: "now \<le> t" "now' \<le> t" and unused: "unused ac fr s" "unused ac fr' s"
    and differ: "fresh_id fr \<noteq> fresh_id fr'" "ac_hashToken ac (fresh_raw fr) \<noteq> ac_hashToken ac (fresh_raw fr')" and "k \<in> {0, 1}"
  obtains e a e' a' s2 s1 where
    "refresh (ac_hashToken ac) (ac_jwt_sign ac) (ac_refreshTtl ac) now' fr' (\<lambda>_ s. s) raw (second_sees ac now fr i fam k s) =
       (Inr (signAccessToken (ac_jwt_sign ac) i e' a', fresh_raw fr'), s2)" "account_active i s2"
    "refresh (ac_hashToken ac) (ac_jwt_sign ac) (ac_refreshTtl ac) now fr (handled_within ac now' fr' raw (Some k)) raw s =
       (Inr (signAccessToken (ac_jwt_sign ac) i e a, fresh_raw fr), s1)" "account_active i s1"
    "live_token ac (now + ac_refreshTtl ac) i fam (fresh_id fr) (fresh_raw fr) s1"
    "live_token ac (now' + ac_refreshTtl ac) i fam (fresh_id fr') (fresh_raw fr') s1"
proof -
  let ?run = "refresh (ac_hashToken ac) (ac_jwt_sign ac) (ac_refreshTtl ac)"
  let ?issue = "issue_token ac now fr i fam" and ?issue' = "issue_token ac now' fr' i fam"
  let ?seen = "second_sees ac now fr i fam k s" let ?s2 = "rotate_token fr' tid (?issue' ?seen)"
  have act: "account_active i s" "account_active i ?seen" using live by (simp_all add: live_token_def second_sees_def)
  have seen: "live_token ac t i fam tid raw ?seen" "unused ac fr' ?seen"
    using live_issue[OF live] unused_issue[OF unused(2)] differ live unused(2) by (simp_all add: second_sees_def)
  have ids: "fresh_id fr \<noteq> tid" "fresh_id fr' \<noteq> tid" using live_id[OF live] unused by (auto simp: unused_def)
  obtain e' a' where second: "?run now' fr' (\<lambda>_ s. s) raw ?seen = (Inr (signAccessToken (ac_jwt_sign ac) i e' a', fresh_raw fr'), ?s2)"
    using refresh_live[OF seen(1) now(2), where others = "\<lambda>_ s. s" and fr = fr'] seen(2) live_id[OF live_issue[OF seen(1)]] by blast
  have within: "handled_within ac now' fr' raw (Some k) j x = (if k = j then snd (?run now' fr' (\<lambda>_ s. s) raw x) else x)" for j x
    by (simp add: handled_within_def)
  have new': "live_token ac (now' + ac_refreshTtl ac) i fam (fresh_id fr') (fresh_raw fr') ?s2"
    by (rule live_rotate[OF live_issued[OF seen(2) act(2)] ids(2)])
  let ?o = "handled_within ac now' fr' raw (Some k)" let ?w = "?o 1 (?issue (?o 0 s))"
  have w: "?w = (if k = 0 then ?issue ?s2 else ?s2)" "?o 0 s = (if k = 0 then ?s2 else s)"
    using second assms(8) by (auto simp: within second_sees_def)
  have tid: "tid \<in> refreshToken_id ` set (refreshTokens (?issue' ?seen))" by (rule live_id[OF live_issue[OF seen(1)]])
  then have "tid \<in> refreshToken_id ` set (refreshTokens ?s2)" by (simp only: rotated_columns)
  then have tid_w: "tid \<in> refreshToken_id ` set (refreshTokens ?w)" unfolding w(1) using issued_ids[of ?s2 ac now fr i fam] by (cases "k = 0") auto
  have fresh0: "unused ac fr (?o 0 s)"
    using unused_issue[OF unused(1) differ] unused(1) by (simp add: w(2) second_sees_def)
  have first_live: "live_token ac (now + ac_refreshTtl ac) i fam (fresh_id fr) (fresh_raw fr) ?w"
  proof (cases "k = 0")
    case True
    have "account_active i (?o 0 s)" unfolding w(2) using act True by simp
    from live_issued[OF fresh0 this, of now fam, unfolded w(2) if_P[OF True]] show ?thesis unfolding w(1) if_P[OF True] .
  next
    case False
    then have "live_token ac (now + ac_refreshTtl ac) i fam (fresh_id fr) (fresh_raw fr) (?issue' ?seen)"
      using live_issue[OF live_issued[OF unused(1) act(1)]] by (simp add: second_sees_def)
    from live_rotate[OF this ids(1)] show ?thesis unfolding w(1) if_not_P[OF False] .
  qed
  have second_live: "live_token ac (now' + ac_refreshTtl ac) i fam (fresh_id fr') (fresh_raw fr') ?w"
    unfolding w(1) using live_issue[OF new'] new' by (cases "k = 0") simp_all
  obtain e a where "?run now fr ?o raw s = (Inr (signAccessToken (ac_jwt_sign ac) i e a, fresh_raw fr), rotate_token fr tid ?w)"
    using refresh_live[OF live now(1) fresh0 tid_w] by blast
  moreover have "account_active i ?w" using first_live by (simp add: live_token_def)
  ultimately show thesis
    using that second live_rotate[OF first_live ids(1)] live_rotate[OF second_live ids(2)] act(2) by simp
qed

text \<open>
  C11. Two pages that open together, both with the cookie of the moment. If the API handles their refreshes one after the other, the
  second looks like a theft and the whole session is revoked: the second page is signed out, and so is every page that opens later,
  whichever of the two answers the browser gets last. If it handles the second within the first, both see the token active: both
  pages are signed in, the reuse goes unnoticed, and either cookie goes on opening pages. (The two writes of a
  refresh are not one transaction; the security audit records this as SEC-17.)
\<close>

theorem two_tabs_race:
  assumes "session_alive ac t i fam tid raw srv" and "verifies ac" and "now \<le> t" "now' \<le> t"
    and "unused ac fr (server_db srv)" "unused ac fr' (server_db srv)"
    and "fresh_id fr \<noteq> fresh_id fr'" "ac_hashToken ac (fresh_raw fr) \<noteq> ac_hashToken ac (fresh_raw fr')" and "at \<in> {None, Some 0, Some 1}"
    and "session_refresh ac Up Up now fr (handled_within ac now' fr' raw at) (Some raw) srv = ((answer1, command1), srv1)"
    and "session_refresh ac Up Up now' fr' (\<lambda>_ s. s) (Some raw)
      (case at of None \<Rightarrow> srv1 | Some k \<Rightarrow> srv\<lparr>server_db := second_sees ac now fr i fam k (server_db srv)\<rparr>) = ((answer2, command2), srv2)"
    and "srv' = (if at = None then srv2 else srv1)"
    and "jar' \<in> {apply_cookie now' command2 (apply_cookie now command1 jar), apply_cookie now command1 (apply_cookie now' command2 jar)}"
  shows "page_status (page_mounted (Some answer1)) = Page_authenticated \<and>
    (if at = None
     then page_status (page_mounted (Some answer2)) = Page_unauthenticated \<and>
       page_status (fst (page_open ac later fr'' others link0 link1 link2 (jar', srv'))) = Page_unauthenticated
     else page_status (page_mounted (Some answer2)) = Page_authenticated \<and>
       (later \<le> min now now' + ac_refreshTtl ac \<and> later \<le> min now now' + REFRESH_TOKEN_MAX_AGE_SECONDS * 1000 \<and>
          unused ac fr'' (server_db srv') \<longrightarrow>
        page_status (fst (page_open ac later fr'' (\<lambda>_ s. s) Up Up Up (jar', srv'))) = Page_authenticated))"
proof (cases at)
  case None
  have "handled_within ac now' fr' raw at = (\<lambda>_ s. s)" by (simp add: handled_within_def None fun_eq_iff)
  then have run1: "session_refresh ac Up Up now fr (\<lambda>_ s. s) (Some raw) srv = ((answer1, command1), srv1)"
    and run2: "session_refresh ac Up Up now' fr' (\<lambda>_ s. s) (Some raw) srv1 = ((answer2, command2), srv2)" using assms(10,11) None by simp_all
  note serial = two_tabs_serial[OF assms(1-3,5) run1 run2]
  have "jar' = None \<or> (\<exists>expires. jar' = Some (fresh_raw fr, expires))" using assms(13) serial(3,4) by auto
  then have "page_status (fst (page_open ac later fr'' others link0 link1 link2 (jar', srv'))) = Page_unauthenticated"
    using no_cookie_refused spent_refused serial(5) assms(12) None by auto
  then show ?thesis using serial(1,2) None by simp
next
  case (Some k)
  then have k: "k \<in> {0, 1}" using assms(9) by simp
  let ?srv = "srv\<lparr>server_db := second_sees ac now fr i fam k (server_db srv)\<rparr>"
  have alive: "live_token ac t i fam tid raw (server_db srv)" "remembered_active i (server_status srv)" "raw \<noteq> []"
    using assms(1) by (simp_all add: session_alive_def live_token_def)
  obtain e a e' a' s2 s1 where two:
    "refresh (ac_hashToken ac) (ac_jwt_sign ac) (ac_refreshTtl ac) now' fr' (\<lambda>_ s. s) raw (second_sees ac now fr i fam k (server_db srv)) =
       (Inr (signAccessToken (ac_jwt_sign ac) i e' a', fresh_raw fr'), s2)" "account_active i s2"
    "refresh (ac_hashToken ac) (ac_jwt_sign ac) (ac_refreshTtl ac) now fr (handled_within ac now' fr' raw (Some k)) raw (server_db srv) =
       (Inr (signAccessToken (ac_jwt_sign ac) i e a, fresh_raw fr), s1)" "account_active i s1"
    "live_token ac (now + ac_refreshTtl ac) i fam (fresh_id fr) (fresh_raw fr) s1"
    "live_token ac (now' + ac_refreshTtl ac) i fam (fresh_id fr') (fresh_raw fr') s1"
    by (rule refreshes_overlap[OF alive(1) assms(3-8) k])
  obtain token me c where first: "answer1 = Bff_signed_in token me" "command1 = Set_cookie (fresh_raw fr)" "srv1 = srv\<lparr>server_db := s1, server_status := c\<rparr>"
    "remembered_active i c"
    by (rule refresh_opens[OF two(3) alive(3) assms(2) two(4) alive(2)]) (use assms(10) Some that in auto)
  have seen: "remembered_active i (server_status ?srv)"
    "refresh (ac_hashToken ac) (ac_jwt_sign ac) (ac_refreshTtl ac) now' fr' (\<lambda>_ s. s) raw (server_db ?srv) =
       (Inr (signAccessToken (ac_jwt_sign ac) i e' a', fresh_raw fr'), s2)" using alive(2) two(1) by simp_all
  obtain token' me' where second: "answer2 = Bff_signed_in token' me'" "command2 = Set_cookie (fresh_raw fr')"
    by (rule refresh_opens[OF seen(2) alive(3) assms(2) two(2) seen(1)]) (use assms(11) Some that in auto)
  have "page_status (fst (page_open ac later fr'' (\<lambda>_ s. s) Up Up Up (jar', srv'))) = Page_authenticated"
    if soon: "later \<le> min now now' + ac_refreshTtl ac" "later \<le> min now now' + REFRESH_TOKEN_MAX_AGE_SECONDS * 1000"
      "unused ac fr'' (server_db srv')"
  proof -
    have srv': "srv' = srv\<lparr>server_db := s1, server_status := c\<rparr>" using assms(12) Some first(3) by simp
    have "session_alive ac (now + ac_refreshTtl ac) i fam (fresh_id fr) (fresh_raw fr) srv'"
      "session_alive ac (now' + ac_refreshTtl ac) i fam (fresh_id fr') (fresh_raw fr') srv'"
      using two(5,6) first(4) by (simp_all add: session_alive_def srv')
    from page_opens[OF this(1) _ _ soon(3) assms(2)] page_opens[OF this(2) _ _ soon(3) assms(2)]
    show ?thesis using assms(13) soon(1,2) first(2) second(2) by auto
  qed
  then show ?thesis using first(1) second(1) Some by (simp add: page_mounted_def)
qed

lemma two_tabs_race_witness:
  "page_status (fst (page_open wx_config 7 (wx_fresh ''4'') (\<lambda>_ s. s) Up Up Up (apply_cookie 5 (Set_cookie ''raw2'') None,
     snd (session_refresh wx_config Up Up 6 (wx_fresh ''3'') (\<lambda>_ s. s) (Some ''raw1'')
       (snd (session_refresh wx_config Up Up 5 (wx_fresh ''2'') (handled_within wx_config 6 (wx_fresh ''3'') ''raw1'' None) (Some ''raw1'') wx_server)))))) =
   Page_unauthenticated"
proof -
  let ?r1 = "session_refresh wx_config Up Up 5 (wx_fresh ''2'') (handled_within wx_config 6 (wx_fresh ''3'') ''raw1'' None) (Some ''raw1'') wx_server"
  let ?r2 = "session_refresh wx_config Up Up 6 (wx_fresh ''3'') (\<lambda>_ s. s) (Some ''raw1'') (snd ?r1)"
  have c: "snd (fst ?r1) = Set_cookie ''raw2''" "snd (fst ?r2) = Delete_cookie" by code_simp+
  have r1: "?r1 = ((fst (fst ?r1), Set_cookie ''raw2''), snd ?r1)" using c(1) by (metis prod.collapse)
  have r2: "session_refresh wx_config Up Up 6 (wx_fresh ''3'') (\<lambda>_ s. s) (Some ''raw1'')
      (case None of None \<Rightarrow> snd ?r1 | Some k \<Rightarrow> wx_server\<lparr>server_db := second_sees wx_config 5 (wx_fresh ''2'') ''u1'' ''f1'' k (server_db wx_server)\<rparr>) =
      ((fst (fst ?r2), Delete_cookie), snd ?r2)" using c(2) by (metis prod.collapse option.case(1))
  have now: "(5 :: int) \<le> 1000" "(6 :: int) \<le> 1000" by simp_all
  have differ: "fresh_id (wx_fresh ''2'') \<noteq> fresh_id (wx_fresh ''3'')"
    "ac_hashToken wx_config (fresh_raw (wx_fresh ''2'')) \<noteq> ac_hashToken wx_config (fresh_raw (wx_fresh ''3''))" by code_simp+
  have jar: "apply_cookie 5 (Set_cookie ''raw2'') None \<in> {apply_cookie 6 Delete_cookie (apply_cookie 5 (Set_cookie ''raw2'') None),
      apply_cookie 5 (Set_cookie ''raw2'') (apply_cookie 6 Delete_cookie None)}" by simp
  show ?thesis
    using two_tabs_race[OF wx_alive wx_verifies now wx_unused differ insertI1 r1 r2 refl jar] by simp
qed

section \<open>Signing out\<close>

lemma logout_spends:
  assumes "session_alive ac t i fam tid raw srv" and "jwt_verify (ac_server ac) token = Some (access_claims i e a)"
  shows "spent_token ac raw (server_db (snd (AuthController_logout ac now (Some (''Bearer '' @ token)) raw srv)))"
proof -
  let ?s = "server_db srv" and ?s' = "logout (ac_hashToken ac) now (\<lambda>_ s. s) raw i (server_db srv)"
  have live: "live_token ac t i fam tid raw ?s" "account_active i ?s" "raw \<noteq> []"
    using assms(1) by (simp_all add: session_alive_def live_token_def)
  then have "refreshTokens ?s' = refreshTokens (revoke_family fam now ?s)"
    by (auto simp: live_token_def logout_def Let_def split: option.splits)
  then have spent: "spent_token ac raw ?s'" by (rule spent_revoked[OF live(1)])
  obtain who c where "AuthController_guard ac now (Some (''Bearer '' @ token)) srv = (Inr who, srv\<lparr>server_status := c\<rparr>)" "au_id who = i"
    by (rule alive_guard[OF assms(2), of srv now]) (use assms(1) live in \<open>simp_all add: session_alive_def\<close>)
  then show ?thesis using live(3) spent by (simp add: AuthController_logout_def)
qed

lemma logout_ignored:
  assumes "jwt_verify (ac_server ac) token = None"
  shows "AuthController_logout ac now (Some (''Bearer '' @ token)) raw srv = (Inl (UnauthorizedException ''Jeton invalide ou expire''), srv)"
  using assms by (simp add: AuthController_logout_def AuthController_guard_def JwtAuthGuard_canActivate_def bearer_token_def verifyAccessToken_def)

text \<open>
  C12. Signing out of a page shows the page signed out in any case; the browser forgets the cookie if it gets the answer. But whether the
  session itself is over depends on more: a copy of the cookie opens nothing from then on exactly when the request reached the handler,
  the handler reached the API and the access token of the page still verified there. If one of the requests did not get
  through (the page and the handler ignore that), or if the page has been open longer than its token lives (it never
  renews it), the session is left behind and goes on.
\<close>

theorem sign_out_needs_live_token:
  assumes "session_alive ac t i fam tid raw srv" and "verifies ac" and "jar = Some (raw, expires)" and "now \<le> expires"
    and "later \<le> t" "later \<le> expires" and "unused ac fr (server_db srv)"
    and "page_accessToken p = Some token" and "token \<noteq> []"
    and "\<forall>claims. jwt_verify (ac_server ac) token = Some claims \<longrightarrow> (\<exists>e a. claims = access_claims i e a)"
    and "page_logout ac now link0 link1 (p, jar, srv) = (p', jar', srv')"
  shows "p' = SIGNED_OUT_PAGE \<and> jar' = (if link0 = Up then None else jar) \<and>
    page_status (fst (page_open ac later fr (\<lambda>_ s. s) Up Up Up (jar, srv'))) =
      (if link0 \<noteq> Cut \<and> link1 \<noteq> Cut \<and> jwt_verify (ac_server ac) token \<noteq> None then Page_unauthenticated else Page_authenticated)"
proof -
  have raw: "raw \<noteq> []" using assms(1) by (simp add: session_alive_def live_token_def)
  have cookie: "getRefreshTokenCookie now jar = Some raw" using assms(3,4) by (simp add: getRefreshTokenCookie_def)
  let ?told = "snd (AuthController_logout ac now (Some (''Bearer '' @ token)) raw srv)"
  have told: "snd (over link1 (AuthController_logout ac now (Some (''Bearer '' @ token)) raw) srv) = (if link1 = Cut then srv else ?told)"
    by (cases link1) (simp_all split: prod.split sum.split)
  have "page_logout ac now link0 link1 (p, jar, srv) =
      (SIGNED_OUT_PAGE, if link0 = Up then None else jar, if link0 = Cut \<or> link1 = Cut then srv else ?told)"
    using assms(8,9) raw cookie told by (cases link0) (simp_all add: page_logout_def session_logout_def)
  then have out: "p' = SIGNED_OUT_PAGE" "jar' = (if link0 = Up then None else jar)" "srv' = (if link0 = Cut \<or> link1 = Cut then srv else ?told)"
    unfolding assms(11) by simp_all
  show ?thesis
  proof (cases "link0 \<noteq> Cut \<and> link1 \<noteq> Cut \<and> jwt_verify (ac_server ac) token \<noteq> None")
    case True
    then obtain e a where "jwt_verify (ac_server ac) token = Some (access_claims i e a)" using assms(10) by auto
    then have "spent_token ac raw (server_db srv')" using logout_spends[OF assms(1)] out(3) True by simp
    then show ?thesis using spent_refused out(1,2) assms(3) True by simp
  next
    case False
    then have "srv' = srv" using out(3) logout_ignored[of ac token now raw srv] by auto
    then show ?thesis unfolding if_not_P[OF False] using page_opens[OF assms(1,5,6,7,2)] out(1,2) assms(3) by simp
  qed
qed

lemma sign_out_needs_live_token_witness:
  "page_status (fst (page_open wx_config 900 (wx_fresh ''2'') (\<lambda>_ s. s) Up Up Up (Some (''raw1'', 2000), snd (snd (page_logout wx_config 800 Up Cut
      (\<lparr>page_status = Page_authenticated, page_user = None, page_accessToken = Some (fx_sign (access_claims ''u1'' None False))\<rparr>,
       Some (''raw1'', 2000), wx_server)))))) = Page_authenticated"
proof -
  let ?token = "fx_sign (access_claims ''u1'' None False)"
  let ?p = "\<lparr>page_status = Page_authenticated, page_user = None, page_accessToken = Some ?token\<rparr>"
  let ?r = "page_logout wx_config 800 Up Cut (?p, Some (''raw1'', 2000), wx_server)"
  have r: "?r = (fst ?r, fst (snd ?r), snd (snd ?r))" by simp
  have token: "?token \<noteq> []" by code_simp
  have claims: "\<forall>claims. jwt_verify (ac_server wx_config) ?token = Some claims \<longrightarrow> (\<exists>e a. claims = access_claims ''u1'' e a)"
    by (auto simp: wx_config_def fx_verify_sign)
  have now: "(800 :: int) \<le> 2000" "(900 :: int) \<le> 1000" "(900 :: int) \<le> 2000" by simp_all
  show ?thesis
    using sign_out_needs_live_token[OF wx_alive wx_verifies refl now wx_unused(1) _ token claims r] by simp
qed

end
