(* ===== verification/Seed.thy ===== *)
theory Seed
  imports Members
begin

text \<open>
  The seed of the platform, apps/api/prisma/seed.ts, which every deployment runs: the permissions, the keys of
  features and limits, and the plans with their prices. Each of its statements is a transaction of its own. The
  identifiers it draws are parameters.
\<close>

section \<open>The data\<close>

record seed_plan =
  seed_code :: string
  seed_name :: string
  seed_priceMonthly :: int
  seed_priceYearly :: int
  seed_trialDays :: int
  seed_sortOrder :: int
  seed_maxUsers :: "int option"

definition PLANS :: "seed_plan list" where
  "PLANS = [
    \<lparr>seed_code = ''STARTER'', seed_name = ''Starter'', seed_priceMonthly = 15000, seed_priceYearly = 150000, seed_trialDays = 14,
     seed_sortOrder = 1, seed_maxUsers = Some 3\<rparr>,
    \<lparr>seed_code = ''STANDARD'', seed_name = ''Standard'', seed_priceMonthly = 35000, seed_priceYearly = 350000, seed_trialDays = 14,
     seed_sortOrder = 2, seed_maxUsers = Some 10\<rparr>,
    \<lparr>seed_code = ''PROFESSIONNEL'', seed_name = ''Professionnel'', seed_priceMonthly = 75000, seed_priceYearly = 750000, seed_trialDays = 14,
     seed_sortOrder = 3, seed_maxUsers = Some 25\<rparr>,
    \<lparr>seed_code = ''ENTERPRISE'', seed_name = ''Entreprise'', seed_priceMonthly = 150000, seed_priceYearly = 1500000, seed_trialDays = 14,
     seed_sortOrder = 4, seed_maxUsers = None\<rparr>]"

definition ERP_FEATURES :: "(string \<times> string) list" where
  "ERP_FEATURES = [(''clients'', ''Clients''), (''suppliers'', ''Fournisseurs''), (''products'', ''Produits''), (''stock'', ''Stocks''),
    (''sales'', ''Ventes''), (''purchases'', ''Achats''), (''invoicing'', ''Facturation''), (''accounting'', ''Comptabilite''),
    (''reports'', ''Rapports'')]"

section \<open>The upserts\<close>

text \<open>\<open>update: \{\}\<close>: what is there stays as it is.\<close>

definition permission_upsert :: "(permission_key \<Rightarrow> uuid) \<Rightarrow> permission_key \<Rightarrow> rbac \<Rightarrow> rbac" where
  "permission_upsert newId key r = (if key \<in> snd ` set (permissions r) then r else r\<lparr>permissions := permissions r @ [(newId key, key)]\<rparr>)"

definition key_upsert :: "string \<times> string \<Rightarrow> (string \<times> string) list \<Rightarrow> (string \<times> string) list" where
  "key_upsert entry keys = (if map_of keys (fst entry) = None then keys @ [entry] else keys)"

text \<open>\<open>create: data\<close>, \<open>update: data\<close>; the columns \<open>data\<close> does not name keep their value or get their default.\<close>

definition seeded_plan :: "seed_plan \<Rightarrow> plan \<Rightarrow> plan" where
  "seeded_plan d p = p\<lparr>plan_code := seed_code d, plan_name := seed_name d, plan_priceMonthly := seed_priceMonthly d,
     plan_priceYearly := Some (seed_priceYearly d), plan_trialDays := seed_trialDays d, plan_sortOrder := seed_sortOrder d\<rparr>"

definition plan_defaults :: "uuid \<Rightarrow> plan" where
  "plan_defaults newId = \<lparr>plan_id = newId, plan_code = [], plan_name = [], plan_description = None, plan_priceMonthly = 0, plan_priceYearly = None,
     plan_trialDays = 0, plan_isActive = True, plan_sortOrder = 0, plan_features = [], plan_limits = []\<rparr>"

definition plan_upsert :: "(string \<Rightarrow> uuid) \<Rightarrow> seed_plan \<Rightarrow> (db, exn, plan) txn" where
  "plan_upsert newId d s = (case find_by plan_code (seed_code d) (plans s) of
     None \<Rightarrow> plan_create (seeded_plan d (plan_defaults (newId (seed_code d)))) s
   | Some p \<Rightarrow> plan_update (plan_id p) (seeded_plan d) s)"

section \<open>The seed\<close>

text \<open>Statements one after the other, each committed, until one fails.\<close>

fun run_all :: "('s, exn, unit) txn list \<Rightarrow> 's \<Rightarrow> (exn + unit) \<times> 's" where
  "run_all [] s = (Inr (), s)"
| "run_all (f # fs) s = (case f s of Inl e \<Rightarrow> (Inl e, s) | Inr (_, s') \<Rightarrow> run_all fs s')"

definition seed_plan_rows :: "(string \<Rightarrow> uuid) \<Rightarrow> seed_plan \<Rightarrow> db \<Rightarrow> (exn + unit) \<times> db" where
  "seed_plan_rows newId d s = (case plan_upsert newId d s of
     Inl e \<Rightarrow> (Inl e, s)
   | Inr (plan, s1) \<Rightarrow> run_all (planLimit_upsert (plan_id plan) ''users'' (seed_maxUsers d) #
       map (\<lambda>(key, label). planFeature_upsert (plan_id plan) key True) ERP_FEATURES) s1)"

fun seed_plans :: "(string \<Rightarrow> uuid) \<Rightarrow> seed_plan list \<Rightarrow> db \<Rightarrow> (exn + unit) \<times> db" where
  "seed_plans newId [] s = (Inr (), s)"
| "seed_plans newId (d # ds) s = (case seed_plan_rows newId d s of (Inl e, s') \<Rightarrow> (Inl e, s') | (Inr _, s') \<Rightarrow> seed_plans newId ds s')"

record platform =
  platform_db :: db
  platform_rbac :: rbac
  platform_catalogue :: catalogue

definition seed_main :: "(permission_key \<Rightarrow> uuid) \<Rightarrow> (string \<Rightarrow> uuid) \<Rightarrow> platform \<Rightarrow> (exn + unit) \<times> platform" where
  "seed_main newPermission newPlan w =
     (let r = fold (permission_upsert newPermission) PERMISSION_KEYS (platform_rbac w);
          c = \<lparr>cat_features = fold key_upsert ERP_FEATURES (cat_features (platform_catalogue w)),
               cat_limits = key_upsert (''users'', ''Utilisateurs'') (cat_limits (platform_catalogue w))\<rparr>;
          (outcome, s) = seed_plans newPlan PLANS (platform_db w)
      in (outcome, \<lparr>platform_db = s, platform_rbac = r, platform_catalogue = c\<rparr>))"

section \<open>What the seed leaves\<close>

definition settled :: "seed_plan \<Rightarrow> plan \<Rightarrow> plan" where
  "settled d p = (seeded_plan d p)\<lparr>plan_limits := AList.update ''users'' (seed_maxUsers d) (plan_limits p),
     plan_features := fold (\<lambda>(key, label). AList.update key True) ERP_FEATURES (plan_features p)\<rparr>"

definition is_settled :: "seed_plan \<Rightarrow> plan \<Rightarrow> bool" where
  "is_settled d p \<longleftrightarrow> seeded_plan d p = p \<and> map_of (plan_limits p) ''users'' = Some (seed_maxUsers d) \<and>
     (\<forall>k\<in>fst ` set ERP_FEATURES. map_of (plan_features p) k = Some True)"

lemma map_of_fold_update:
  "map_of (fold (\<lambda>(k, l). AList.update k v) xs al) k = (if k \<in> fst ` set xs then Some v else map_of al k)"
  by (induction xs arbitrary: al) (auto simp: update_conv')

lemma fold_update_triv: "\<forall>k\<in>fst ` set xs. map_of al k = Some v \<Longrightarrow> fold (\<lambda>(k, l). AList.update k v) xs al = al"
  by (induction xs) (auto simp: update_triv)

lemma seeded_plan_simps [simp]:
  "plan_code (seeded_plan d p) = seed_code d" "plan_id (seeded_plan d p) = plan_id p" "plan_limits (seeded_plan d p) = plan_limits p"
  "plan_features (seeded_plan d p) = plan_features p" "seeded_plan d (seeded_plan d p) = seeded_plan d p"
  "seeded_plan d (p\<lparr>plan_limits := l, plan_features := f\<rparr>) = (seeded_plan d p)\<lparr>plan_limits := l, plan_features := f\<rparr>"
  by (simp_all add: seeded_plan_def)

lemma settled_simps [simp]: "plan_code (settled d p) = seed_code d" "plan_id (settled d p) = plan_id p"
  by (simp_all add: settled_def)

lemma settled_is_settled: "is_settled d (settled d p)"
  by (auto simp: is_settled_def settled_def update_conv' map_of_fold_update)

lemma is_settled_eq: "is_settled d p \<Longrightarrow> settled d p = p"
  by (simp add: is_settled_def settled_def update_triv fold_update_triv)

section \<open>Its effect\<close>

definition plans_distinct :: "plan list \<Rightarrow> bool" where
  "plans_distinct ps \<longleftrightarrow> distinct (map plan_id ps) \<and> distinct (map plan_code ps)"

definition seed_row :: "(string \<Rightarrow> uuid) \<Rightarrow> seed_plan \<Rightarrow> plan list \<Rightarrow> plan list" where
  "seed_row newId d ps = (if seed_code d \<in> plan_code ` set ps
     then map (\<lambda>p. if plan_code p = seed_code d then settled d p else p) ps
     else ps @ [settled d (plan_defaults (newId (seed_code d)))])"

lemma update_by_code:
  assumes "plans_distinct ps" and "find_by plan_code c ps = Some p"
  shows "update_by plan_id (plan_id p) f ps = map (\<lambda>q. if plan_code q = c then f q else q) ps"
proof -
  have p: "p \<in> set ps" "plan_code p = c" using find_by_SomeD[OF assms(2)] by simp_all
  have "plan_id q = plan_id p \<longleftrightarrow> plan_code q = c" if "q \<in> set ps" for q
    using assms(1) p that unfolding plans_distinct_def distinct_map by (metis inj_onD)
  then show ?thesis by (simp add: update_by_def)
qed

text \<open>The rows of one plan, once it is there.\<close>

lemma planLimit_run:
  "find_by plan_id i (plans s) = Some p \<Longrightarrow> planLimit_upsert i key value s =
     Inr ((), s\<lparr>plans := update_by plan_id i (\<lambda>p. p\<lparr>plan_limits := AList.update key value (plan_limits p)\<rparr>) (plans s)\<rparr>)"
  by (simp add: planLimit_upsert_def)

lemma update_by_fuse: "(\<And>x. key (f x) = key x) \<Longrightarrow> update_by key i g (update_by key i f xs) = update_by key i (g \<circ> f) xs"
  by (simp add: update_by_def)

lemma features_run:
  assumes "find_by plan_id i (plans s) \<noteq> None"
  shows "run_all (map (\<lambda>(key, label). planFeature_upsert i key True) xs) s =
    (Inr (), s\<lparr>plans := update_by plan_id i (\<lambda>p. p\<lparr>plan_features := fold (\<lambda>(key, label). AList.update key True) xs (plan_features p)\<rparr>) (plans s)\<rparr>)"
  using assms
proof (induction xs arbitrary: s)
  case Nil
  then show ?case by (simp add: update_by_def)
next
  case (Cons x xs)
  let ?f = "\<lambda>p :: plan. p\<lparr>plan_features := AList.update (fst x) True (plan_features p)\<rparr>"
  let ?s = "s\<lparr>plans := update_by plan_id i ?f (plans s)\<rparr>"
  have step: "planFeature_upsert i (fst x) True s = Inr ((), ?s)" using Cons.prems by (auto simp: planFeature_upsert_def)
  have "find_by plan_id i (plans ?s) \<noteq> None" using Cons.prems by (simp add: find_by_update_by)
  from Cons.IH[OF this] show ?case by (simp add: step case_prod_beta update_by_fuse comp_def)
qed

lemma seed_plan_rows_eq:
  assumes "plans_distinct (plans s)" and "seed_code d \<notin> plan_code ` set (plans s) \<Longrightarrow> newId (seed_code d) \<notin> plan_id ` set (plans s)"
  shows "seed_plan_rows newId d s = (Inr (), s\<lparr>plans := seed_row newId d (plans s)\<rparr>)"
proof (cases "find_by plan_code (seed_code d) (plans s)")
  case None
  then have absent: "seed_code d \<notin> plan_code ` set (plans s)" by (simp add: find_by_None_iff)
  let ?p = "seeded_plan d (plan_defaults (newId (seed_code d)))" and ?i = "newId (seed_code d)"
  have "plan_upsert newId d s = Inr (?p, s\<lparr>plans := plans s @ [?p]\<rparr>)"
    using None assms(2)[OF absent] absent by (simp add: plan_upsert_def plan_create_def plan_defaults_def)
  moreover have "find_by plan_id ?i (plans s) = None" using assms(2)[OF absent] by (simp add: find_by_None_iff)
  moreover have "update_by plan_id ?i f (plans s) = plans s" for f using assms(2)[OF absent] by (intro update_by_missing) (simp add: find_by_None_iff)
  ultimately show ?thesis using absent
    by (simp add: seed_plan_rows_def planLimit_run features_run seed_row_def settled_def plan_defaults_def update_by_def)
next
  case (Some p)
  then have p: "p \<in> set (plans s)" "plan_code p = seed_code d" using find_by_SomeD by fastforce+
  have "\<not> (\<exists>q\<in>set (plans s). plan_id q \<noteq> plan_id p \<and> plan_code q = seed_code d)"
    using assms(1) p unfolding plans_distinct_def distinct_map by (metis inj_onD)
  moreover have row: "find_by plan_id (plan_id p) (plans s) = Some p"
    using assms(1) p(1) by (simp add: plans_distinct_def find_by_distinct)
  ultimately have up: "plan_upsert newId d s = Inr (seeded_plan d p, s\<lparr>plans := update_by plan_id (plan_id p) (seeded_plan d) (plans s)\<rparr>)"
    using Some by (auto simp: plan_upsert_def plan_update_def)
  have "seed_plan_rows newId d s = (Inr (), s\<lparr>plans := update_by plan_id (plan_id p) (settled d) (plans s)\<rparr>)"
    using row by (simp add: seed_plan_rows_def up planLimit_run features_run find_by_update_by update_by_fuse comp_def settled_def[abs_def])
  moreover have "seed_code d \<in> plan_code ` set (plans s)" using p by (metis image_eqI)
  ultimately show ?thesis unfolding update_by_code[OF assms(1) Some] by (simp add: seed_row_def)
qed

lemma seed_row_distinct:
  assumes "plans_distinct ps" and "seed_code d \<notin> plan_code ` set ps \<Longrightarrow> newId (seed_code d) \<notin> plan_id ` set ps"
  shows "plans_distinct (seed_row newId d ps)"
proof (cases "seed_code d \<in> plan_code ` set ps")
  case True
  have "map plan_id (seed_row newId d ps) = map plan_id ps" "map plan_code (seed_row newId d ps) = map plan_code ps"
    using True by (simp_all add: seed_row_def)
  then show ?thesis using assms(1) unfolding plans_distinct_def by presburger
next
  case False
  then show ?thesis using assms by (auto simp: seed_row_def plans_distinct_def plan_defaults_def)
qed

text \<open>Fresh identifiers for the plans that are missing.\<close>

definition drawn_plans :: "(string \<Rightarrow> uuid) \<Rightarrow> seed_plan list \<Rightarrow> plan list \<Rightarrow> bool" where
  "drawn_plans newId ds ps \<longleftrightarrow> (\<forall>d\<in>set ds. newId (seed_code d) \<notin> plan_id ` set ps) \<and> inj_on newId (seed_code ` set ds)"

lemma set_seed_row:
  "p \<in> set (seed_row newId d ps) \<Longrightarrow> plan_id p \<in> plan_id ` set ps \<or> plan_id p = newId (seed_code d)"
  by (auto simp: seed_row_def plan_defaults_def split: if_splits)

lemma drawn_plans_step:
  assumes "drawn_plans newId (d # ds) ps" and "distinct (map seed_code (d # ds))"
  shows "drawn_plans newId ds (seed_row newId d ps)"
proof -
  have "newId (seed_code d') \<notin> plan_id ` set (seed_row newId d ps)" if d': "d' \<in> set ds" for d'
  proof
    assume "newId (seed_code d') \<in> plan_id ` set (seed_row newId d ps)"
    then obtain p where "p \<in> set (seed_row newId d ps)" "plan_id p = newId (seed_code d')" by auto
    moreover have "newId (seed_code d') \<notin> plan_id ` set ps" using assms(1) d' by (simp add: drawn_plans_def)
    ultimately have "newId (seed_code d') = newId (seed_code d)" using set_seed_row[of p newId d ps] by metis
    moreover have "inj_on newId (seed_code ` set (d # ds))" using assms(1) by (simp only: drawn_plans_def)
    ultimately have "seed_code d' = seed_code d" using d' by (metis image_eqI inj_onD list.set_intros)
    then show False using assms(2) d' by (metis distinct.simps(2) image_eqI list.set_map list.simps(9))
  qed
  then show ?thesis using assms(1) by (simp add: drawn_plans_def inj_on_def)
qed

lemma seed_plans_eq:
  assumes "plans_distinct (plans s)" and "drawn_plans newId ds (plans s)" and "distinct (map seed_code ds)"
  shows "seed_plans newId ds s = (Inr (), s\<lparr>plans := fold (seed_row newId) ds (plans s)\<rparr>) \<and> plans_distinct (fold (seed_row newId) ds (plans s))"
  using assms
proof (induction ds arbitrary: s)
  case (Cons d ds)
  let ?s = "s\<lparr>plans := seed_row newId d (plans s)\<rparr>"
  have fresh: "seed_code d \<notin> plan_code ` set (plans s) \<Longrightarrow> newId (seed_code d) \<notin> plan_id ` set (plans s)"
    using Cons.prems(2) by (simp add: drawn_plans_def)
  have "seed_plan_rows newId d s = (Inr (), ?s)" using Cons.prems(1) fresh by (rule seed_plan_rows_eq)
  moreover have "plans_distinct (plans ?s)" using seed_row_distinct[where newId = newId, OF Cons.prems(1) fresh] by simp
  moreover have "drawn_plans newId ds (plans ?s)" using drawn_plans_step[OF Cons.prems(2,3)] by simp
  ultimately show ?case using Cons.IH[of ?s] Cons.prems(3) by simp
qed simp

lemma find_by_seed_row:
  "find_by plan_code c (seed_row newId d ps) = (if c = seed_code d
     then Some (case find_by plan_code c ps of Some p \<Rightarrow> settled d p | None \<Rightarrow> settled d (plan_defaults (newId c)))
     else find_by plan_code c ps)"
proof -
  have "find_by plan_code c (map (\<lambda>p. if plan_code p = seed_code d then settled d p else p) ps) =
    map_option (\<lambda>p. if plan_code p = seed_code d then settled d p else p) (find_by plan_code c ps)" for c
    by (induction ps) auto
  moreover have "seed_code d \<in> plan_code ` set ps \<longleftrightarrow> find_by plan_code (seed_code d) ps \<noteq> None" by (simp add: find_by_None_iff)
  moreover have "plan_code p = c" if "find_by plan_code c ps = Some p" for p using find_by_SomeD[OF that] by simp
  ultimately show ?thesis
    by (cases "c = seed_code d"; cases "find_by plan_code c ps"; cases "find_by plan_code (seed_code d) ps") (simp_all add: seed_row_def)
qed

lemma find_by_seed_rows:
  assumes "distinct (map seed_code ds)"
  shows "find_by plan_code c (fold (seed_row newId) ds ps) = (case find (\<lambda>d. seed_code d = c) ds of
     None \<Rightarrow> find_by plan_code c ps
   | Some d \<Rightarrow> Some (settled d (given (find_by plan_code c ps) (plan_defaults (newId c)))))"
  using assms
proof (induction ds arbitrary: ps)
  case (Cons d ds)
  have "find (\<lambda>x. seed_code x = seed_code d) ds = None" using Cons.prems by (force simp: find_None_iff image_iff)
  then show ?case using Cons by (auto simp: find_by_seed_row given_def split: option.splits)
qed simp

text \<open>A second run changes no row.\<close>

lemma seed_row_again:
  assumes "plans_distinct ps" and "find_by plan_code (seed_code d) ps = Some p" and "is_settled d p"
  shows "seed_row newId d ps = ps"
proof -
  have p: "p \<in> set ps" "plan_code p = seed_code d" using find_by_SomeD[OF assms(2)] by simp_all
  have "q = p" if "q \<in> set ps" "plan_code q = seed_code d" for q
    using assms(1) p that unfolding plans_distinct_def distinct_map by (metis inj_onD)
  then have "map (\<lambda>q. if plan_code q = seed_code d then settled d q else q) ps = ps"
    using is_settled_eq[OF assms(3)] by (intro map_idI) auto
  moreover have "seed_code d \<in> plan_code ` set ps" using p by (metis image_eqI)
  ultimately show ?thesis by (simp add: seed_row_def)
qed

lemma seed_rows_again:
  "plans_distinct ps \<Longrightarrow> \<forall>d\<in>set ds. \<exists>p. find_by plan_code (seed_code d) ps = Some p \<and> is_settled d p \<Longrightarrow> fold (seed_row newId) ds ps = ps"
  by (induction ds) (auto simp: seed_row_again)

lemma seed_plans_again:
  assumes "plans_distinct (plans s)" and "\<forall>d\<in>set ds. \<exists>p. find_by plan_code (seed_code d) (plans s) = Some p \<and> is_settled d p"
  shows "seed_plans newId ds s = (Inr (), s)"
  using assms(2)
proof (induction ds)
  case (Cons d ds)
  then obtain p where p: "find_by plan_code (seed_code d) (plans s) = Some p" "is_settled d p" by auto
  then have "seed_code d \<in> plan_code ` set (plans s)" by (metis find_by_None_iff option.distinct(1))
  then have "seed_plan_rows newId d s = (Inr (), s\<lparr>plans := seed_row newId d (plans s)\<rparr>)" by (intro seed_plan_rows_eq[OF assms(1)]) simp
  then show ?case using Cons seed_row_again[OF assms(1) p] by simp
qed simp

lemma distinct_PLANS: "distinct (map seed_code PLANS)"
  by code_simp

text \<open>The keys: present after the seed, and not added again.\<close>

lemma permission_upsert_keys: "snd ` set (permissions (permission_upsert newId key r)) = insert key (snd ` set (permissions r))"
  by (auto simp: permission_upsert_def)

lemma permission_upserts_keys: "snd ` set (permissions (fold (permission_upsert newId) keys r)) = set keys \<union> snd ` set (permissions r)"
  by (induction keys arbitrary: r) (auto simp: permission_upsert_keys)

lemma permission_upserts_again: "set keys \<subseteq> snd ` set (permissions r) \<Longrightarrow> fold (permission_upsert newId) keys r = r"
  by (induction keys) (auto simp: permission_upsert_def)

lemma key_upsert_keys: "fst ` set (key_upsert entry keys) = insert (fst entry) (fst ` set keys)"
  by (auto simp: key_upsert_def map_of_eq_None_iff)

lemma key_upserts_keys: "fst ` set (fold key_upsert entries keys) = fst ` set entries \<union> fst ` set keys"
  by (induction entries arbitrary: keys) (auto simp: key_upsert_keys)

lemma key_upserts_again: "fst ` set entries \<subseteq> fst ` set keys \<Longrightarrow> fold key_upsert entries keys = keys"
  by (induction entries) (auto simp: key_upsert_def map_of_eq_None_iff)

lemma seed_main_eq:
  assumes "plans_distinct (plans (platform_db w))" and "drawn_plans newPlan PLANS (plans (platform_db w))"
  shows "seed_main newPermission newPlan w = (Inr (), \<lparr>
    platform_db = (platform_db w)\<lparr>plans := fold (seed_row newPlan) PLANS (plans (platform_db w))\<rparr>,
    platform_rbac = fold (permission_upsert newPermission) PERMISSION_KEYS (platform_rbac w),
    platform_catalogue = \<lparr>cat_features = fold key_upsert ERP_FEATURES (cat_features (platform_catalogue w)),
      cat_limits = key_upsert (''users'', ''Utilisateurs'') (cat_limits (platform_catalogue w))\<rparr>\<rparr>)"
  using seed_plans_eq[OF assms distinct_PLANS] by (simp add: seed_main_def Let_def)

lemma seeded_rows:
  assumes "d \<in> set PLANS"
  shows "find_by plan_code (seed_code d) (fold (seed_row newPlan) PLANS ps) =
    Some (settled d (given (find_by plan_code (seed_code d) ps) (plan_defaults (newPlan (seed_code d)))))"
proof -
  have "find (\<lambda>x. seed_code x = seed_code d) PLANS = Some d"
  proof (cases "find (\<lambda>x. seed_code x = seed_code d) PLANS")
    case None
    then show ?thesis using assms by (auto simp: find_None_iff)
  next
    case (Some x)
    then have "x \<in> set PLANS" "seed_code x = seed_code d" by (auto simp: find_Some_iff)
    then show ?thesis using Some assms distinct_PLANS unfolding distinct_map by (metis inj_onD)
  qed
  then show ?thesis by (simp add: find_by_seed_rows[OF distinct_PLANS])
qed

section \<open>A platform that has been seeded before and edited since\<close>

definition sx_platform :: platform where
  "sx_platform = \<lparr>platform_db = (ten_db px_tenancy)\<lparr>plans := [(fx_plan ''p1'' ''STARTER'' 99)\<lparr>plan_priceMonthly := 20000,
       plan_features := [(''sales'', True), (''stock'', False)]\<rparr>, fx_plan ''PRO'' ''PRO'' 10]\<rparr>,
     platform_rbac = px_rbac, platform_catalogue = ax_catalogue\<rparr>"

lemma sx_distinct: "plans_distinct (plans (platform_db sx_platform))"
  by (simp add: plans_distinct_def sx_platform_def fx_plan_def)

lemma sx_drawn: "drawn_plans id PLANS (plans (platform_db sx_platform))"
  by (simp add: drawn_plans_def sx_platform_def fx_plan_def PLANS_def)

section \<open>Properties\<close>

text \<open>
  C20. Every deployment takes the four plans of the seed back: whatever a super administrator has made of them, after
  the seed they have the price, the trial, the seats and all the features that the seed writes. Only what the seed
  does not name survives (whether the plan is active, its description), and every other plan.
\<close>

theorem seed_overrides_edits:
  assumes "plans_distinct (plans (platform_db w))" and "drawn_plans newPlan PLANS (plans (platform_db w))"
    and "d \<in> set PLANS" and "find_by plan_code (seed_code d) (plans (platform_db w)) = Some edited"
    and "seed_main newPermission newPlan w = (outcome, w')"
  shows "\<exists>p. find_by plan_code (seed_code d) (plans (platform_db w')) = Some p \<and> plan_id p = plan_id edited \<and>
    plan_priceMonthly p = seed_priceMonthly d \<and> plan_priceYearly p = Some (seed_priceYearly d) \<and> plan_trialDays p = seed_trialDays d \<and>
    map_of (plan_limits p) ''users'' = Some (seed_maxUsers d) \<and> (\<forall>(k, l)\<in>set ERP_FEATURES. map_of (plan_features p) k = Some True) \<and>
    plan_isActive p = plan_isActive edited \<and> plan_description p = plan_description edited"
proof -
  note w' = assms(5)[unfolded seed_main_eq[OF assms(1,2)], symmetric]
  have "find_by plan_code (seed_code d) (plans (platform_db w')) = Some (settled d edited)"
    using w' by (simp add: seeded_rows[OF assms(3)] given_def assms(4))
  moreover have "is_settled d (settled d edited)" by (rule settled_is_settled)
  ultimately show ?thesis by (auto simp: is_settled_def settled_def seeded_plan_def)
qed

lemma seed_overrides_edits_witness:
  "map_option plan_priceMonthly (find_by plan_code ''STARTER'' (plans (platform_db sx_platform))) = Some 20000 \<and>
   map_option plan_priceMonthly (find_by plan_code ''STARTER'' (plans (platform_db (snd (seed_main id id sx_platform))))) = Some 15000"
proof
  show "map_option plan_priceMonthly (find_by plan_code ''STARTER'' (plans (platform_db sx_platform))) = Some 20000" by code_simp
  have "hd PLANS \<in> set PLANS" by (simp add: PLANS_def)
  moreover have "find_by plan_code (seed_code (hd PLANS)) (plans (platform_db sx_platform)) = Some (hd (plans (platform_db sx_platform)))" by code_simp
  ultimately obtain p where "find_by plan_code (seed_code (hd PLANS)) (plans (platform_db (snd (seed_main id id sx_platform)))) = Some p"
    "plan_priceMonthly p = seed_priceMonthly (hd PLANS)"
    using seed_overrides_edits[OF sx_distinct sx_drawn, of "hd PLANS" _ id "fst (seed_main id id sx_platform)" "snd (seed_main id id sx_platform)"] by auto
  then show "map_option plan_priceMonthly (find_by plan_code ''STARTER'' (plans (platform_db (snd (seed_main id id sx_platform))))) = Some 15000"
    by (simp add: PLANS_def)
qed

text \<open>Running the seed again changes nothing: no row is added, edited or lost.\<close>

theorem seed_idempotent:
  assumes "plans_distinct (plans (platform_db w))" and "drawn_plans newPlan PLANS (plans (platform_db w))"
    and "seed_main newPermission newPlan w = (outcome, w')"
  shows "seed_main newPermission' newPlan' w' = (Inr (), w')"
proof -
  note w' = assms(3)[unfolded seed_main_eq[OF assms(1,2)], symmetric]
  have rows: "plans_distinct (plans (platform_db w'))" "\<forall>d\<in>set PLANS. \<exists>p. find_by plan_code (seed_code d) (plans (platform_db w')) = Some p \<and> is_settled d p"
    using w' seed_plans_eq[OF assms(1,2) distinct_PLANS] by (auto simp: seeded_rows settled_is_settled)
  have "set PERMISSION_KEYS \<subseteq> snd ` set (permissions (platform_rbac w'))" using w' by (simp add: permission_upserts_keys)
  moreover have "fst ` set ERP_FEATURES \<subseteq> fst ` set (cat_features (platform_catalogue w'))" using w' by (simp add: key_upserts_keys)
  moreover have "''users'' \<in> fst ` set (cat_limits (platform_catalogue w'))" using w' by (simp add: key_upsert_keys)
  ultimately show ?thesis using seed_plans_again[OF rows, of newPlan']
    by (simp add: seed_main_def permission_upserts_again key_upserts_again key_upsert_def map_of_eq_None_iff)
qed

lemma seed_idempotent_witness:
  "seed_main id rev (snd (seed_main id id sx_platform)) = (Inr (), snd (seed_main id id sx_platform))"
  by (rule seed_idempotent[OF sx_distinct sx_drawn, of id "fst (seed_main id id sx_platform)"]) simp

text \<open>
  C21. A platform that has been seeded is open: every active plan of the seed can be registered for, by whoever is not
  registered yet.
\<close>

theorem seeded_platform_registers:
  assumes "plans_distinct (plans (platform_db w))" and "drawn_plans newPlan PLANS (plans (platform_db w))"
    and "seed_main newPermission newPlan w = (outcome, w')"
    and "ten_db t = platform_db w'" "ten_rbac t = platform_rbac w'" "references_ok t" "newly_drawn hashToken ids frs t"
    and "d \<in> set PLANS" "find_by plan_code (seed_code d) (plans (platform_db w')) = Some p" "plan_isActive p" "rin_planId input = plan_id p"
    and "\<not> already_registered input (ten_db t)"
  shows "fst (register hash_password hashToken jwt_sign ttl ids frv frs id now input t) =
    Inr (signAccessToken jwt_sign (rid_user ids) (Some (rid_enterprise ids)) False, fresh_raw frs)"
proof -
  note w' = assms(3)[unfolded seed_main_eq[OF assms(1,2)], symmetric]
  have "snd ` set (permissions (ten_rbac t)) \<supseteq> set PERMISSION_KEYS" using w' assms(5) by (simp add: permission_upserts_keys)
  then have seeded: "catalogue_seeded (ten_rbac t)" using assms(6) by (force simp: catalogue_seeded_def references_ok_def)
  have "plans_distinct (plans (ten_db t))" using w' assms(4) seed_plans_eq[OF assms(1,2) distinct_PLANS] by simp
  then have plan: "find_by plan_id (rin_planId input) (plans (ten_db t)) = Some p"
    using find_by_SomeD[OF assms(9)] assms(4,11) by (simp add: plans_distinct_def find_by_distinct)
  then show ?thesis
    using register_outcome[where others = id and w = t, simplified id_apply, OF plan assms(10) _ assms(7) seeded assms(6)] assms(12) by simp
qed

lemma references_plans: "references_ok (t\<lparr>ten_db := (ten_db t)\<lparr>plans := ps\<rparr>\<rparr>) = references_ok t"
  by (simp add: references_ok_def)

lemma drawn_plans_frame: "newly_drawn h ids frs (t\<lparr>ten_db := (ten_db t)\<lparr>plans := ps\<rparr>\<rparr>) = newly_drawn h ids frs t"
  by (simp add: newly_drawn_def Let_def)

lemma seeded_platform_registers_witness:
  "fst (register id id px_sign 1000 px_ids px_fresh px_fresh id 5 (px_input\<lparr>rin_planId := ''STANDARD''\<rparr>)
     (px_tenancy\<lparr>ten_db := platform_db (snd (seed_main id id sx_platform))\<rparr>)) =
   Inr (signAccessToken px_sign ''u9'' (Some ''e9'') False, ''raw9'')"
proof -
  let ?w = "snd (seed_main id id sx_platform)" and ?ps = "fold (seed_row id) PLANS (plans (platform_db sx_platform))"
  let ?t = "px_tenancy\<lparr>ten_db := platform_db ?w\<rparr>"
  have db: "platform_db ?w = (ten_db px_tenancy)\<lparr>plans := ?ps\<rparr>"
    by (simp add: seed_main_eq[OF sx_distinct sx_drawn]) (simp add: sx_platform_def)
  have "platform_rbac ?w = fold (permission_upsert id) PERMISSION_KEYS px_rbac"
    by (simp add: seed_main_eq[OF sx_distinct sx_drawn]) (simp add: sx_platform_def)
  moreover have "set PERMISSION_KEYS \<subseteq> snd ` set (permissions px_rbac)" by (simp add: px_rbac_def image_image)
  ultimately have rbac: "ten_rbac ?t = platform_rbac ?w" by (simp add: px_simps permission_upserts_again)
  have "PLANS ! 1 \<in> set PLANS" by (simp add: PLANS_def)
  moreover have "find_by plan_code (seed_code (PLANS ! 1)) (plans (platform_db ?w)) = Some (settled (PLANS ! 1) (plan_defaults ''STANDARD''))"
    unfolding db using seeded_rows[OF \<open>PLANS ! 1 \<in> set PLANS\<close>, of id "plans (platform_db sx_platform)"]
    by (simp add: sx_platform_def fx_plan_def given_def PLANS_def)
  moreover have "plan_isActive (settled (PLANS ! 1) (plan_defaults ''STANDARD''))" by (simp add: settled_def seeded_plan_def plan_defaults_def)
  moreover have "rin_planId (px_input\<lparr>rin_planId := ''STANDARD''\<rparr>) = plan_id (settled (PLANS ! 1) (plan_defaults ''STANDARD''))"
    by (simp add: plan_defaults_def)
  moreover have "\<not> already_registered (px_input\<lparr>rin_planId := ''STANDARD''\<rparr>) (ten_db ?t)"
    using px_new by (simp add: db already_registered_def)
  moreover have "references_ok ?t" "newly_drawn id px_ids px_fresh ?t"
    using px_references px_drawn unfolding db references_plans drawn_plans_frame by simp_all
  ultimately show ?thesis
    using seeded_platform_registers[OF sx_distinct sx_drawn _ _ rbac, of id "fst (seed_main id id sx_platform)" id px_ids px_fresh "PLANS ! 1"]
    by (simp add: px_ids_def px_fresh_def)
qed

end
