(* ===== verification/Spec2Isabelle.thy ===== *)
theory Spec2Isabelle
  imports Billing MobileApp MobileSync Members WebSession Seed
begin

text \<open>
  A verification library of the ERP: a multi-tenant SaaS whose API (apps/api, NestJS and Prisma over PostgreSQL)
  keeps the stock, sales, purchases, invoices and journals of many enterprises and bills them for it, with a mobile
  client that works offline (apps/mobile) and a web client (apps/web). Every definition is a translation of the
  TypeScript it names; what is not under src/ (PostgreSQL and Prisma beyond what the code relies on, argon2, SHA-256,
  HMAC, TOTP, the JWT library, SQLite, the network, the framework of the web client) is a parameter or a record of
  parameters. The properties say what the code does, also where that is not what it means to do.

  \<^bold>\<open>How the parts interact.\<close> A request comes with an access token. The middleware puts the tenant it names into the
  tenant context; the guards check the session, the permission, the feature of the plan and the state of the
  subscription; a pipe validates the body; a service calls its repository, which opens one transaction for the tenant.
  Sales and purchases write the stock ledger when they are confirmed, invoices are drawn from confirmed sales, and the
  reports read all of them. Beside the requests run the webhook of the payment providers and three hourly jobs. The
  mobile client puts its writes into a queue, each with an idempotency key, and replays them when it is online; the
  web client keeps its session in a cookie that only its own route handlers see.

  \<^bold>\<open>The theories, in the order of their dependence, and what they model.\<close>
  \<^item> Prelude: transactions with rollback, tables as lists of rows with a key, pages, truthiness, rounding; the named
    theorem collections the proofs share. Database: apps/api/prisma/schema.prisma, one record per model, the
    exceptions. Fixtures: a small database for the witnesses. Interfaces: the locales, see below.
  \<^item> Tenant: apps/api/src/tenant and common/serializable-retry.ts. Money: line and document totals, the split of a
    tax-inclusive amount.
  \<^item> Stock, Sales, Purchases, Catalog (products, customers, suppliers), Invoicing, Accounting, Reports (with Calendar,
    the UTC calendar behind Date): the directory of apps/api/src of that name, repository and service of each, with the
    schemas of packages/validation. The state is the database; each operation is a transaction on it that returns an
    exception or a value.
  \<^item> Entitlements, Subscriptions, Payments and Billing: the plan an enterprise has and what it allows, with its cache
    and guards; the life of a subscription; the webhook, the platform's own invoices and the expiry of payments; and
    the properties of the three together.
  \<^item> Access, Auth and Sessions: permissions, roles, tokens and guards; sign-in, second factor, refresh, sign-out,
    recovery, invitations, supervision by the super administrator; and their properties.
  \<^item> Controllers, Requests and Gateway: the routes with their decorators, the chain every request goes through, the
    invariant of all tables together, and what holds of every request of every user.
  \<^item> Provisioning: the registration of an enterprise. PlansAdmin: the catalogue of plans and its public list. Members:
    members, roles, settings, onboarding, the menus of the clients, the script that creates super administrators.
    Seed: apps/api/prisma/seed.ts, which every deployment runs.
  \<^item> Json, Offline, Replay, MobileApp and MobileSync: JSON texts; the mutation queue and the sync engine of the mobile
    client; the queue under every interleaving; its hooks, its session and the purge of its store; and the queue
    together with the API. WebSession: the route handlers, the cookie and the pages of the web client.

  \<^bold>\<open>Interfaces.\<close> \<open>movement_ledger\<close> is what sales and purchases rely on of the stock (one call per line, a level per
  product) and is interpreted on \<open>applyMovement\<close> in Stock. \<open>tenant_isolated\<close> (a step for one enterprise leaves the view
  of the others alone) is interpreted on the whole server in Gateway. \<open>settled_documents\<close> (a document that reached a
  final state keeps it) is interpreted on invoices, journal entries, subscriptions and payments; \<open>gapless_numbering\<close>
  (numbers drawn from a counter) on sales invoices, journal entries and platform invoices.

  \<^bold>\<open>What the lemmas show.\<close> Functional behaviour on every branch, errors included (\<open>_effect\<close>, \<open>_iff_\<close>); invariants of the
  tables that every operation keeps (\<open>_wf\<close>, \<open>_in_order\<close>), composed in Gateway over any sequence of requests;
  separation of enterprises; rights; exactly-once creation under retries; the state machines of subscriptions and
  payments under interleaved jobs; bounds on the staleness of the entitlements; termination of the queue; round trip
  of what is queued and sent; the life and the end of sessions, on the server, on the device and in the browser.

  \<^bold>\<open>Concurrency.\<close> Where the code awaits between two statements, the definition takes what the rest of the system does
  there as a function (\<open>others\<close>, \<open>s0\<close> for the snapshot of a first statement); the theories Replay and Payments have
  explicit step relations. One transaction is one step, serialization failures are a parameter.

  \<^bold>\<open>Bounds and fuel.\<close> A serializable transaction is tried three times, a mutation five times, as in the code. The parser
  of JSON has twice the length of the text as fuel, enough for every text, since each call takes a character or is
  followed by one that does. All other recursions are structural or have a measure.

  \<^bold>\<open>Not modelled.\<close> Overflow of 32 bit columns and of 2 to the power 53; fractions and exponents in JSON texts, answers
  that are no JSON; accents and other characters beyond ASCII in messages; most foreign key violations; the formats of
  uuids and emails; random jitter of the retries; failures of mails and of the audit log; rate limits, logging, health
  checks and configuration; the screens and pages themselves (React), the read hooks of both clients (thin wrappers of
  a caching library) and the shell of the desktop application.
\<close>

end
